(* ===== verification/Prelude.thy ===== *)
theory Prelude
  imports Complex_Main "HOL-Library.Char_ord" "HOL-Library.Product_Lexorder"
begin

text \<open>
  Shared vocabulary of the development: clocks, Python truthiness, ASCII string
  operations, decimal rounding, keyed row lists (the tables of the database) with the
  laws their operations satisfy, and the machine locales that lift a property of one
  operation to every run of operations.
\<close>

named_theorems table_simps "laws of the row operations"
named_theorems text_simps "laws of the string operations"

section \<open>Clocks\<close>

text \<open>
  Naive UTC datetimes are counted in microseconds, the resolution of Python's datetime.
  An operation reads the clock once: \<open>utcnow\<close> stands for \<open>datetime.utcnow()\<close> and
  \<open>monotonic\<close> for \<open>time.monotonic()\<close> at the time of the call.
\<close>

type_synonym time = int

record clock =
  utcnow :: time
  monotonic :: rat

definition days_us :: "int \<Rightarrow> time" where
  "days_us n = n * 86400000000"

definition seconds_us :: "int \<Rightarrow> time" where
  "seconds_us n = n * 1000000"

lemma days_us_add: "days_us (a + b) = days_us a + days_us b"
  by (simp add: days_us_def algebra_simps)

lemma days_us_mono: "a \<le> b \<Longrightarrow> days_us a \<le> days_us b"
  by (simp add: days_us_def)

lemma days_us_nonneg: "0 \<le> days_us n \<longleftrightarrow> 0 \<le> n"
  by (simp add: days_us_def)

section \<open>Truthiness\<close>

text \<open>\<open>if x:\<close> on an optional number is false for None and for zero.\<close>

fun truthy :: "'a::zero option \<Rightarrow> bool" where
  "truthy None = False"
| "truthy (Some x) = (x \<noteq> 0)"

text \<open>\<open>x or d\<close> on an optional number.\<close>

fun or_else :: "'a::zero option \<Rightarrow> 'a \<Rightarrow> 'a" where
  "or_else None d = d"
| "or_else (Some x) d = (if x = 0 then d else x)"

lemma or_else_zero [simp]: "or_else x 0 = (case x of None \<Rightarrow> 0 | Some y \<Rightarrow> y)"
  by (cases x) auto

section \<open>Results\<close>

text \<open>A raised exception is \<open>Inl\<close>; \<open>bind_res x f\<close> is the code after a call that may raise.\<close>

fun bind_res :: "'e + 'a \<Rightarrow> ('a \<Rightarrow> 'e + 'b) \<Rightarrow> 'e + 'b" where
  "bind_res (Inl e) f = Inl e"
| "bind_res (Inr v) f = f v"

lemma bind_res_Inr: "bind_res x f = Inr r \<longleftrightarrow> (\<exists>v. x = Inr v \<and> f v = Inr r)"
  by (cases x) auto

definition guard_res :: "'e \<Rightarrow> bool \<Rightarrow> 'e + unit" where
  "guard_res e ok = (if ok then Inr () else Inl e)"

lemma guard_res_Inr [simp]: "guard_res e ok = Inr u \<longleftrightarrow> ok"
  by (simp add: guard_res_def)

section \<open>Strings\<close>

text \<open>Strings are ASCII; \<open>strip\<close>, \<open>lower\<close> and \<open>upper\<close> are Python's on that range.\<close>

definition is_space :: "char \<Rightarrow> bool" where
  "is_space c \<longleftrightarrow> (let n = of_char c :: nat in (9 \<le> n \<and> n \<le> 13) \<or> (28 \<le> n \<and> n \<le> 32))"

definition strip :: "string \<Rightarrow> string" where
  "strip s = rev (dropWhile is_space (rev (dropWhile is_space s)))"

definition lower_char :: "char \<Rightarrow> char" where
  "lower_char c = (let n = of_char c :: nat in if 65 \<le> n \<and> n \<le> 90 then char_of (n + 32) else c)"

definition upper_char :: "char \<Rightarrow> char" where
  "upper_char c = (let n = of_char c :: nat in if 97 \<le> n \<and> n \<le> 122 then char_of (n - 32) else c)"

definition lower :: "string \<Rightarrow> string" where
  "lower s = map lower_char s"

definition upper :: "string \<Rightarrow> string" where
  "upper s = map upper_char s"

definition is_digit :: "char \<Rightarrow> bool" where
  "is_digit c \<longleftrightarrow> (let n = of_char c :: nat in 48 \<le> n \<and> n \<le> 57)"

definition is_alpha :: "char \<Rightarrow> bool" where
  "is_alpha c \<longleftrightarrow> (let n = of_char c :: nat in (65 \<le> n \<and> n \<le> 90) \<or> (97 \<le> n \<and> n \<le> 122))"

definition is_alnum :: "char \<Rightarrow> bool" where
  "is_alnum c \<longleftrightarrow> is_digit c \<or> is_alpha c"

text \<open>\<open>str.title()\<close>: a letter after a non-letter is upper case, any other lower case.\<close>

fun title_from :: "bool \<Rightarrow> string \<Rightarrow> string" where
  "title_from _ [] = []"
| "title_from inside (c # cs) =
     (if inside then lower_char c else upper_char c) # title_from (is_alpha c) cs"

definition title :: "string \<Rightarrow> string" where
  "title s = title_from False s"

text \<open>
  \<open>int(s)\<close> of a string: surrounding white space, an optional sign and decimal digits with
  single underscores between them; anything else raises ValueError.
\<close>

fun digits_value :: "int \<Rightarrow> bool \<Rightarrow> string \<Rightarrow> int option" where
  "digits_value acc after_digit [] = (if after_digit then Some acc else None)"
| "digits_value acc after_digit (c # cs) =
     (if is_digit c then digits_value (10 * acc + (of_char c - 48)) True cs
      else if c = CHR ''_'' \<and> after_digit then digits_value acc False cs
      else None)"

definition parse_int :: "string \<Rightarrow> int option" where
  "parse_int s =
     (case strip s of
        [] \<Rightarrow> None
      | c # cs \<Rightarrow>
          if c = CHR ''-'' then map_option uminus (digits_value 0 False cs)
          else if c = CHR ''+'' then digits_value 0 False cs
          else digits_value 0 False (c # cs))"

lemma lower_char_idem [simp]: "lower_char (lower_char c) = lower_char c"
  by (simp add: lower_char_def Let_def)

lemma upper_char_idem [simp]: "upper_char (upper_char c) = upper_char c"
  by (auto simp: upper_char_def Let_def)

lemma lower_idem [text_simps]: "lower (lower s) = lower s"
  by (simp add: lower_def)

lemma upper_idem [text_simps]: "upper (upper s) = upper s"
  by (simp add: upper_def)

lemma lower_eq_Nil [text_simps]: "lower s = [] \<longleftrightarrow> s = []"
  by (simp add: lower_def)

lemma dropWhile_id: "(s \<noteq> [] \<Longrightarrow> \<not> P (hd s)) \<Longrightarrow> dropWhile P s = s"
  by (cases s) auto

lemma hd_strip: "strip s \<noteq> [] \<Longrightarrow> \<not> is_space (hd (strip s))"
proof -
  assume ne: "strip s \<noteq> []"
  define t where "t = dropWhile is_space s"
  have st: "strip s = rev (dropWhile is_space (rev t))" by (simp add: strip_def t_def)
  have "\<exists>u. rev (dropWhile is_space (rev t)) @ u = t"
    by (metis rev_append rev_rev_ident takeWhile_dropWhile_id)
  then obtain u where u: "strip s @ u = t" using st by auto
  with ne have "hd t = hd (strip s)" by (metis hd_append2)
  moreover have "t \<noteq> []" using u ne by auto
  ultimately show ?thesis using hd_dropWhile [of is_space s] by (simp add: t_def)
qed

lemma last_strip: "strip s \<noteq> [] \<Longrightarrow> \<not> is_space (last (strip s))"
  unfolding strip_def using hd_dropWhile by (metis last_rev rev_is_Nil_conv)

lemma strip_idem [text_simps]: "strip (strip s) = strip s"
proof -
  have "dropWhile is_space (strip s) = strip s"
    by (rule dropWhile_id) (rule hd_strip)
  moreover have "dropWhile is_space (rev (strip s)) = rev (strip s)"
    by (rule dropWhile_id) (use last_strip in \<open>simp add: hd_rev\<close>)
  ultimately show ?thesis by (simp add: strip_def [of "strip s"])
qed

lemma set_strip: "set (strip s) \<subseteq> set s"
  by (auto simp: strip_def dest!: set_dropWhileD)

lemma strip_no_space: "\<forall>c \<in> set s. \<not> is_space c \<Longrightarrow> strip s = s"
  unfolding strip_def
  by (metis dropWhile_eq_self_iff hd_in_set last_in_set hd_rev rev_rev_ident set_rev)

section \<open>Decimal rounding\<close>

text \<open>
  A \<open>Decimal\<close> is a rational number: the amounts and percentages of the program have few
  enough digits that the 28-digit context never rounds a product or a division by 100.
  \<open>quantize(Decimal("0.01"))\<close> rounds to cents, with ties away from zero
  (\<open>ROUND_HALF_UP\<close>) or to the even neighbour (the context's default).
\<close>

definition round_half_up :: "rat \<Rightarrow> int" where
  "round_half_up x = (if 0 \<le> x then \<lfloor>x + 1/2\<rfloor> else - \<lfloor>- x + 1/2\<rfloor>)"

definition round_half_even :: "rat \<Rightarrow> int" where
  "round_half_even x =
     (let f = \<lfloor>x\<rfloor>; d = x - of_int f
      in if d < 1/2 then f else if 1/2 < d then f + 1 else if even f then f else f + 1)"

definition quantize_half_up :: "rat \<Rightarrow> rat" where
  "quantize_half_up x = of_int (round_half_up (x * 100)) / 100"

definition quantize_half_even :: "rat \<Rightarrow> rat" where
  "quantize_half_even x = of_int (round_half_even (x * 100)) / 100"

text \<open>\<open>round(x, n)\<close>.\<close>

definition round_places :: "nat \<Rightarrow> rat \<Rightarrow> rat" where
  "round_places n x = of_int (round_half_even (x * 10 ^ n)) / 10 ^ n"

definition is_cents :: "rat \<Rightarrow> bool" where
  "is_cents x \<longleftrightarrow> of_int \<lfloor>x * 100\<rfloor> = x * 100"

lemma round_half_up_bounds:
  "of_int (round_half_up x) \<le> x + 1/2 \<and> x - 1/2 \<le> of_int (round_half_up x)"
  unfolding round_half_up_def by (auto split: if_splits) linarith+

lemma round_half_even_bounds:
  "of_int (round_half_even x) \<le> x + 1/2 \<and> x - 1/2 \<le> of_int (round_half_even x)"
  unfolding round_half_even_def Let_def by (auto split: if_splits) linarith+

lemma round_half_up_mono: "x \<le> y \<Longrightarrow> round_half_up x \<le> round_half_up y"
  unfolding round_half_up_def by (auto split: if_splits) linarith+

lemma round_half_even_mono: "x \<le> y \<Longrightarrow> round_half_even x \<le> round_half_even y"
proof -
  assume le: "x \<le> y"
  show ?thesis
  proof (cases "\<lfloor>x\<rfloor> = \<lfloor>y\<rfloor>")
    case True
    with le show ?thesis unfolding round_half_even_def Let_def by (auto split: if_splits)
  next
    case False
    with le have "\<lfloor>x\<rfloor> + 1 \<le> \<lfloor>y\<rfloor>" using floor_mono [OF le] by linarith
    then show ?thesis unfolding round_half_even_def Let_def by (auto split: if_splits)
  qed
qed

lemma round_half_up_of_int [simp]: "round_half_up (of_int n) = n"
  unfolding round_half_up_def by (auto; linarith)

lemma round_half_even_of_int [simp]: "round_half_even (of_int n) = n"
  by (simp add: round_half_even_def)

lemma quantize_half_up_error: "\<bar>quantize_half_up x - x\<bar> \<le> 1/200"
  using round_half_up_bounds [of "x * 100"] unfolding abs_le_iff quantize_half_up_def
  by (auto simp: field_simps)

lemma quantize_half_even_error: "\<bar>quantize_half_even x - x\<bar> \<le> 1/200"
  using round_half_even_bounds [of "x * 100"] unfolding abs_le_iff quantize_half_even_def
  by (auto simp: field_simps)

lemma quantize_half_up_mono: "x \<le> y \<Longrightarrow> quantize_half_up x \<le> quantize_half_up y"
  using round_half_up_mono [of "x * 100" "y * 100"]
  by (simp add: quantize_half_up_def divide_right_mono)

lemma quantize_half_even_mono: "x \<le> y \<Longrightarrow> quantize_half_even x \<le> quantize_half_even y"
  using round_half_even_mono [of "x * 100" "y * 100"]
  by (simp add: quantize_half_even_def divide_right_mono)

lemma quantize_half_up_cents: "is_cents x \<Longrightarrow> quantize_half_up x = x"
  unfolding quantize_half_up_def is_cents_def by (metis nonzero_mult_div_cancel_right
      round_half_up_of_int zero_neq_numeral)

lemma quantize_half_even_cents: "is_cents x \<Longrightarrow> quantize_half_even x = x"
  unfolding quantize_half_even_def is_cents_def by (metis nonzero_mult_div_cancel_right
      round_half_even_of_int zero_neq_numeral)

lemma is_cents_quantize [simp]:
  "is_cents (quantize_half_up x)" "is_cents (quantize_half_even x)"
  by (simp_all add: is_cents_def quantize_half_up_def quantize_half_even_def)

lemma quantize_zero [simp]: "quantize_half_up 0 = 0" "quantize_half_even 0 = 0"
  by (simp_all add: quantize_half_up_cents quantize_half_even_cents is_cents_def)

lemma quantize_half_up_nonneg: "0 \<le> x \<Longrightarrow> 0 \<le> quantize_half_up x"
  using quantize_half_up_mono [of 0 x] by simp

lemma quantize_half_even_nonneg: "0 \<le> x \<Longrightarrow> 0 \<le> quantize_half_even x"
  using quantize_half_even_mono [of 0 x] by simp

section \<open>Formatting\<close>

text \<open>\<open>str(n)\<close> of an integer and \<open>f"{x:.2f}"\<close> of an amount.\<close>

fun nat_str :: "nat \<Rightarrow> string" where
  "nat_str n = (if n < 10 then [char_of (48 + n)] else nat_str (n div 10) @ [char_of (48 + n mod 10)])"

declare nat_str.simps [simp del]

definition int_str :: "int \<Rightarrow> string" where
  "int_str n = (if n < 0 then CHR ''-'' # nat_str (nat (- n)) else nat_str (nat n))"

definition money_str :: "rat \<Rightarrow> string" where
  "money_str x =
     (let n = round_half_even (\<bar>x\<bar> * 100); cents = nat_str (nat (n mod 100))
      in (if x < 0 then ''-'' else []) @ int_str (n div 100) @ ''.'' @
         (if n mod 100 < 10 then CHR ''0'' # cents else cents))"

section \<open>Tables\<close>

text \<open>Whether a text occurs in another, as \<open>sub in msg\<close>.\<close>

fun contains :: "string \<Rightarrow> string \<Rightarrow> bool" where
  "contains pat [] = (pat = [])"
| "contains pat (c # cs) = (take (length pat) (c # cs) = pat \<or> contains pat cs)"

text \<open>The keys of a dict filled in the order of a list: each value once, in order of first occurrence.\<close>

definition first_seen :: "'a list \<Rightarrow> 'a list" where
  "first_seen xs = rev (remdups (rev xs))"

lemma set_first_seen [simp]: "set (first_seen xs) = set xs"
  and distinct_first_seen [simp]: "distinct (first_seen xs)"
  by (simp_all add: first_seen_def)

lemma find_append: "find P (xs @ ys) = (case find P xs of None \<Rightarrow> find P ys | Some x \<Rightarrow> Some x)"
  by (induction xs) auto

text \<open>
  A table is the list of its rows in insertion order. \<open>query(X).filter(X.id == i).first()\<close>
  is \<open>row_get\<close>, assignment to attributes of a loaded row followed by a flush is
  \<open>row_upd\<close>, and a flushed \<open>add\<close> appends a row whose primary key is fresh.
\<close>

definition row_get :: "('r \<Rightarrow> int) \<Rightarrow> 'r list \<Rightarrow> int \<Rightarrow> 'r option" where
  "row_get key rows i = find (\<lambda>r. key r = i) rows"

definition row_upd :: "('r \<Rightarrow> int) \<Rightarrow> int \<Rightarrow> ('r \<Rightarrow> 'r) \<Rightarrow> 'r list \<Rightarrow> 'r list" where
  "row_upd key i f rows = map (\<lambda>r. if key r = i then f r else r) rows"

definition row_upd_where :: "('r \<Rightarrow> bool) \<Rightarrow> ('r \<Rightarrow> 'r) \<Rightarrow> 'r list \<Rightarrow> 'r list" where
  "row_upd_where P f rows = map (\<lambda>r. if P r then f r else r) rows"

definition row_fresh :: "('r \<Rightarrow> int) \<Rightarrow> 'r list \<Rightarrow> int" where
  "row_fresh key rows = 1 + foldr max (map key rows) 0"

definition sum_over :: "('r \<Rightarrow> bool) \<Rightarrow> ('r \<Rightarrow> rat) \<Rightarrow> 'r list \<Rightarrow> rat" where
  "sum_over P v rows = sum_list (map v (filter P rows))"

definition count_over :: "('r \<Rightarrow> bool) \<Rightarrow> 'r list \<Rightarrow> int" where
  "count_over P rows = int (length (filter P rows))"

definition order_first :: "('r \<Rightarrow> 'k::linorder) \<Rightarrow> 'r list \<Rightarrow> 'r option" where
  "order_first k rows = (case sort_key k rows of [] \<Rightarrow> None | r # _ \<Rightarrow> Some r)"

lemma row_get_Nil [simp]: "row_get key [] i = None"
  by (simp add: row_get_def)

lemma row_get_Cons [simp]:
  "row_get key (r # rows) i = (if key r = i then Some r else row_get key rows i)"
  by (simp add: row_get_def)

lemma row_get_Some: "row_get key rows i = Some r \<Longrightarrow> r \<in> set rows \<and> key r = i"
  by (auto simp: row_get_def find_Some_iff)

lemma row_get_None: "row_get key rows i = None \<longleftrightarrow> i \<notin> key ` set rows"
  by (auto simp: row_get_def find_None_iff)

lemma row_get_unique:
  "distinct (map key rows) \<Longrightarrow> r \<in> set rows \<Longrightarrow> row_get key rows (key r) = Some r"
  by (induction rows) auto

lemma row_upd_Nil [simp]: "row_upd key i f [] = []"
  by (simp add: row_upd_def)

lemma row_upd_Cons [simp]:
  "row_upd key i f (r # rows) = (if key r = i then f r else r) # row_upd key i f rows"
  by (simp add: row_upd_def)

lemma row_upd_append [table_simps]:
  "row_upd key i f (xs @ ys) = row_upd key i f xs @ row_upd key i f ys"
  by (simp add: row_upd_def)

lemma row_upd_const_twice [table_simps]:
  "key b = i \<Longrightarrow> row_upd key i (\<lambda>_. a) (row_upd key i (\<lambda>_. b) xs) = row_upd key i (\<lambda>_. a) xs"
  by (simp add: row_upd_def)

lemma row_upd_const_keys [table_simps]:
  "key a = i \<Longrightarrow> map key (row_upd key i (\<lambda>_. a) xs) = map key xs"
  by (simp add: row_upd_def)

lemma row_get_upd_const [table_simps]:
  "key a = i \<Longrightarrow> row_get key (row_upd key i (\<lambda>_. a) xs) j =
    (if j = i then map_option (\<lambda>_. a) (row_get key xs i) else row_get key xs j)"
  by (induction xs) (auto simp: row_upd_def)

lemma row_upd_absent: "i \<notin> key ` set rows \<Longrightarrow> row_upd key i f rows = rows"
  by (induction rows) auto

lemma row_upd_keys [table_simps]:
  "(\<And>r. key (f r) = key r) \<Longrightarrow> map key (row_upd key i f rows) = map key rows"
  by (induction rows) auto

lemma row_upd_map [table_simps]:
  "(\<And>r. g (f r) = g r) \<Longrightarrow> map g (row_upd key i f rows) = map g rows"
  by (induction rows) auto

lemma row_upd_where_map [table_simps]:
  "(\<And>r. g (f r) = g r) \<Longrightarrow> map g (row_upd_where P f rows) = map g rows"
  by (induction rows) (auto simp: row_upd_where_def)

lemma row_get_upd [table_simps]:
  "(\<And>r. key (f r) = key r) \<Longrightarrow>
   row_get key (row_upd key i f rows) j =
     (if j = i then map_option f (row_get key rows i) else row_get key rows j)"
  by (induction rows) auto

lemma row_get_upd_where [table_simps]:
  "(\<And>r. key (f r) = key r) \<Longrightarrow>
   row_get key (row_upd_where P f rows) j =
     map_option (\<lambda>r. if P r then f r else r) (row_get key rows j)"
  by (induction rows) (auto simp: row_upd_where_def)

lemma set_row_upd: "r \<in> set (row_upd key i f rows) \<Longrightarrow>
   (r \<in> set rows \<and> key r \<noteq> i) \<or> (\<exists>r'\<in>set rows. key r' = i \<and> r = f r')"
  by (auto simp: row_upd_def)

lemma row_get_append [table_simps]:
  "row_get key (rows @ [r]) j =
     (case row_get key rows j of Some q \<Rightarrow> Some q | None \<Rightarrow> if key r = j then Some r else None)"
  by (induction rows) auto

lemma foldr_max_ge: "(x::int) \<in> set xs \<Longrightarrow> x \<le> foldr max xs 0"
  by (induction xs) auto

lemma row_get_map_None:
  "map key rows' = map key rows \<Longrightarrow> row_get key rows' i = None \<longleftrightarrow> row_get key rows i = None"
  by (metis row_get_None set_map)

lemma sum_over_upd_where [table_simps]:
  "sum_over P v (row_upd_where Q f rows) =
   sum_over (\<lambda>r. if Q r then P (f r) else P r) (\<lambda>r. if Q r then v (f r) else v r) rows"
  by (induction rows) (auto simp: row_upd_where_def sum_over_def)

lemma row_fresh_notin: "row_fresh key rows \<notin> key ` set rows"
  unfolding row_fresh_def using foldr_max_ge [of _ "map key rows"] by fastforce

lemma row_get_fresh [simp]: "row_get key rows (row_fresh key rows) = None"
  using row_fresh_notin by (simp add: row_get_None)

lemma row_fresh_notin_map [simp]: "row_fresh key rows \<notin> set (map key rows)"
  using row_fresh_notin [of key rows] by simp

lemma foldr_max_pos: "0 \<le> foldr max xs (0::int)"
  by (induction xs) auto

lemma row_fresh_pos: "0 < row_fresh key rows"
  using foldr_max_pos [of "map key rows"] by (simp add: row_fresh_def)

lemma sum_over_Nil [simp]: "sum_over P v [] = 0"
  by (simp add: sum_over_def)

lemma sum_over_Cons [simp]: "sum_over P v (r # rows) = (if P r then v r else 0) + sum_over P v rows"
  by (simp add: sum_over_def)

lemma sum_over_append [table_simps]: "sum_over P v (xs @ ys) = sum_over P v xs + sum_over P v ys"
  by (simp add: sum_over_def)

lemma sum_over_cong:
  "(\<And>r. r \<in> set rows \<Longrightarrow> P r = Q r) \<Longrightarrow> (\<And>r. r \<in> set rows \<Longrightarrow> Q r \<Longrightarrow> v r = u r) \<Longrightarrow>
   sum_over P v rows = sum_over Q u rows"
  by (induction rows) auto

lemma sum_over_upd:
  "distinct (map key rows) \<Longrightarrow> row_get key rows i = Some r \<Longrightarrow>
   sum_over P v (row_upd key i f rows) =
     sum_over P v rows - (if P r then v r else 0) + (if P (f r) then v (f r) else 0)"
proof (induction rows)
  case (Cons q rows)
  then show ?case
    by (cases "key q = i") (auto simp: row_upd_absent image_iff split: if_splits)
qed simp

lemma sum_over_split:
  "sum_over P v rows = sum_over (\<lambda>r. P r \<and> Q r) v rows + sum_over (\<lambda>r. P r \<and> \<not> Q r) v rows"
  by (induction rows) auto

lemma sum_over_False [simp]: "sum_over (\<lambda>_. False) v rows = 0"
  by (induction rows) auto

lemma count_over_Nil [simp]: "count_over P [] = 0"
  by (simp add: count_over_def)

lemma count_over_Cons [simp]: "count_over P (r # rows) = (if P r then 1 else 0) + count_over P rows"
  by (simp add: count_over_def)

lemma count_over_append [table_simps]: "count_over P (xs @ ys) = count_over P xs + count_over P ys"
  by (simp add: count_over_def)

lemma count_over_nonneg [simp]: "0 \<le> count_over P rows"
  by (simp add: count_over_def)

lemma count_over_mono:
  "(\<And>r. r \<in> set rows \<Longrightarrow> P r \<Longrightarrow> Q r) \<Longrightarrow> count_over P rows \<le> count_over Q rows"
  by (induction rows) auto

lemma count_over_cong:
  "(\<And>r. r \<in> set rows \<Longrightarrow> P r = Q r) \<Longrightarrow> count_over P rows = count_over Q rows"
  by (induction rows) auto

lemma count_over_upd_le:
  "(\<And>r. P (f r) \<Longrightarrow> P r) \<Longrightarrow> count_over P (row_upd key i f rows) \<le> count_over P rows"
  by (induction rows) auto

lemma count_over_upd_same:
  "(\<And>r. P (f r) = P r) \<Longrightarrow> count_over P (row_upd key i f rows) = count_over P rows"
  by (induction rows) auto

lemma order_first_Some:
  assumes "order_first k rows = Some r"
  shows "r \<in> set rows" "\<forall>q \<in> set rows. k r \<le> k q"
proof -
  obtain qs where s: "sort_key k rows = r # qs"
    using assms by (auto simp: order_first_def split: list.splits)
  have "set (sort_key k rows) = set rows" and "sorted (map k (sort_key k rows))" by simp_all
  with s show "r \<in> set rows" "\<forall>q \<in> set rows. k r \<le> k q" by auto
qed

lemma order_first_None: "order_first k rows = None \<longleftrightarrow> rows = []"
  by (auto simp: order_first_def split: list.splits) (metis length_0_conv length_sort list.size(3))

text \<open>
  The contract of one table of a world: its rows can be read back after any update of
  that table. Each table of the store is an interpretation; the lemmas are what the
  services use of \<open>get\<close> after \<open>add\<close>, after an attribute assignment and after a
  bulk \<open>UPDATE\<close>.
\<close>

locale table =
  fixes key :: "'r \<Rightarrow> int"
    and rows :: "'w \<Rightarrow> 'r list"
    and rows_update :: "('r list \<Rightarrow> 'r list) \<Rightarrow> 'w \<Rightarrow> 'w"
  assumes rows_rows_update: "rows (rows_update g w) = g (rows w)"
begin

lemma get_modify:
  assumes "\<And>r. key (f r) = key r"
  shows "row_get key (rows (rows_update (row_upd key i f) w)) j =
     (if j = i then map_option f (row_get key (rows w) i) else row_get key (rows w) j)"
  using assms by (simp add: rows_rows_update row_get_upd)

lemma get_bulk:
  assumes "\<And>r. key (f r) = key r"
  shows "row_get key (rows (rows_update (row_upd_where P f) w)) j =
     map_option (\<lambda>r. if P r then f r else r) (row_get key (rows w) j)"
  using assms by (simp add: rows_rows_update row_get_upd_where)

lemma get_add:
  assumes "key r = row_fresh key (rows w)"
  shows "row_get key (rows (rows_update (\<lambda>rs. rs @ [r]) w)) (key r) = Some r"
proof -
  have "row_get key (rows w) (key r) = None"
    using assms row_fresh_notin [of key "rows w"] by (simp add: row_get_None)
  then show ?thesis by (simp add: rows_rows_update row_get_append)
qed

lemma keys_modify:
  assumes "\<And>r. key (f r) = key r"
  shows "map key (rows (rows_update (row_upd key i f) w)) = map key (rows w)"
  using assms by (simp add: rows_rows_update row_upd_keys)

lemma distinct_add:
  assumes "distinct (map key (rows w))" and "key r = row_fresh key (rows w)"
  shows "distinct (map key (rows (rows_update (\<lambda>rs. rs @ [r]) w)))"
  using assms row_fresh_notin [of key "rows w"] by (simp add: rows_rows_update)

end

section \<open>Machines\<close>

text \<open>
  A component whose operations are a step function on its state. What each step keeps,
  every run keeps; what no step lowers, no run lowers.
\<close>

locale inv_machine =
  fixes step :: "'s \<Rightarrow> 'e \<Rightarrow> 's"
    and inv :: "'s \<Rightarrow> bool"
  assumes step_inv: "inv s \<Longrightarrow> inv (step s e)"
begin

lemma run_inv: "inv s \<Longrightarrow> inv (foldl step s es)"
  by (induction es arbitrary: s) (auto intro: step_inv)

end

locale rank_machine = inv_machine +
  fixes rank :: "'s \<Rightarrow> 'k \<Rightarrow> 'r::preorder"
  assumes step_rank: "inv s \<Longrightarrow> rank s k \<le> rank (step s e) k"
begin

lemma run_rank: "inv s \<Longrightarrow> rank s k \<le> rank (foldl step s es) k"
proof (induction es arbitrary: s)
  case (Cons e es)
  have "rank s k \<le> rank (step s e) k" using Cons.prems by (rule step_rank)
  also have "\<dots> \<le> rank (foldl step (step s e) es) k"
    by (rule Cons.IH) (rule step_inv [OF Cons.prems])
  finally show ?case by simp
qed simp

end

end
