(* ===== verification/Store.thy ===== *)
theory Store
  imports Prelude
begin

text \<open>
  The billing database of \<^verbatim>\<open>backend/db/models.py\<close>: one record per table with its
  columns, the column defaults as constructors of fresh rows, and the world the services
  act on (all billing tables and the process-wide plan cache). Nullable columns are
  options, \<open>Numeric\<close> and \<open>Float\<close> columns rationals, \<open>JSON\<close> columns the lists the
  code stores in them, and the columns that hold a documented set of strings datatypes
  with a constructor for any other string.
\<close>

section \<open>Accounts and wallets\<close>

record user =
  u_id :: int
  u_username :: string
  u_email :: string
  u_hashed_password :: string
  u_is_admin :: bool
  u_is_blocked :: bool
  u_plan :: string
  u_plan_id :: "int option"
  u_plan_expires_at :: "time option"
  u_request_count :: int
  u_last_active_at :: "time option"
  u_created_at :: time
  u_email_verified_at :: "time option"
  u_tg_username :: "string option"
  u_tg_chat_id :: "int option"
  u_tg_id :: "int option"
  u_totp_secret_enc :: "string option"
  u_totp_verified_at :: "time option"
  u_totp_recovery_codes :: "string list option"
  u_totp_last_used_at :: "time option"
  u_has_password :: bool
  u_auto_renew :: bool
  u_expiry_notice_last_sent_at :: "time option"
  u_failed_login_attempts :: int
  u_referral_code :: "string option"
  u_referred_by_id :: "int option"
  u_referral_pct_override :: "rat option"
  u_referral_payout_address :: "string option"
  u_signup_code_id :: "int option"

definition new_user :: "int \<Rightarrow> string \<Rightarrow> time \<Rightarrow> user" where
  "new_user i name now = \<lparr>
     u_id = i, u_username = name, u_email = name, u_hashed_password = [],
     u_is_admin = False, u_is_blocked = False, u_plan = ''basic'', u_plan_id = None,
     u_plan_expires_at = None, u_request_count = 0, u_last_active_at = None,
     u_created_at = now, u_email_verified_at = None, u_tg_username = None,
     u_tg_chat_id = None, u_tg_id = None, u_totp_secret_enc = None,
     u_totp_verified_at = None, u_totp_recovery_codes = None, u_totp_last_used_at = None,
     u_has_password = True, u_auto_renew = True, u_expiry_notice_last_sent_at = None,
     u_failed_login_attempts = 0, u_referral_code = None, u_referred_by_id = None,
     u_referral_pct_override = None, u_referral_payout_address = None,
     u_signup_code_id = None \<rparr>"

datatype purpose = Portfolio | Screener | Both | Other_Purpose string

record wallet =
  w_id :: int
  w_name :: string
  w_wallet_type :: string
  w_type_value :: string
  w_credentials :: "string option"
  w_is_archived :: bool
  w_can_trade :: bool
  w_purpose :: purpose
  w_is_main :: bool
  w_created_at :: time
  w_user_id :: "int option"

definition new_wallet :: "int \<Rightarrow> int \<Rightarrow> purpose \<Rightarrow> time \<Rightarrow> wallet" where
  "new_wallet i uid p now = \<lparr>
     w_id = i, w_name = [], w_wallet_type = ''exchange'', w_type_value = ''binance'',
     w_credentials = None, w_is_archived = False, w_can_trade = False, w_purpose = p,
     w_is_main = False, w_created_at = now, w_user_id = Some uid \<rparr>"

section \<open>Plans, billing periods, promo codes, payments\<close>

record plan =
  pl_id :: int
  pl_slug :: string
  pl_name :: string
  pl_description :: "string option"
  pl_price_usd_monthly :: rat
  pl_price_usd_annual :: rat
  pl_portfolio_limit :: int
  pl_portfolio_limit_grace :: int
  pl_exchange_keys_per_venue :: int
  pl_trade_delay_ms :: int
  pl_has_portfolio :: bool
  pl_max_spread_pct :: rat
  pl_allow_tp_sl_orders :: bool
  pl_is_subscription :: bool
  pl_is_admin_only :: bool
  pl_features :: "(string list \<times> string list) option"
  pl_is_free :: bool
  pl_is_active :: bool
  pl_sort_order :: int
  pl_created_at :: time
  pl_updated_at :: time

definition new_plan :: "int \<Rightarrow> string \<Rightarrow> string \<Rightarrow> time \<Rightarrow> plan" where
  "new_plan i slug name now = \<lparr>
     pl_id = i, pl_slug = slug, pl_name = name, pl_description = None,
     pl_price_usd_monthly = 0, pl_price_usd_annual = 0, pl_portfolio_limit = 5,
     pl_portfolio_limit_grace = 5, pl_exchange_keys_per_venue = 1, pl_trade_delay_ms = 0,
     pl_has_portfolio = True, pl_max_spread_pct = 100, pl_allow_tp_sl_orders = True,
     pl_is_subscription = True, pl_is_admin_only = False, pl_features = None,
     pl_is_free = False, pl_is_active = True, pl_sort_order = 0, pl_created_at = now,
     pl_updated_at = now \<rparr>"

record billing_period =
  bp_id :: int
  bp_slug :: string
  bp_label :: string
  bp_months :: int
  bp_discount_pct :: rat
  bp_sort_order :: int
  bp_is_active :: bool
  bp_created_at :: time
  bp_updated_at :: time

record promo_code =
  pc_id :: int
  pc_code :: string
  pc_discount_pct :: rat
  pc_bonus_days :: int
  pc_max_uses :: "int option"
  pc_used_count :: int
  pc_per_user_max_uses :: "int option"
  pc_target_user_id :: "int option"
  pc_applies_to_plan_ids :: "int list option"
  pc_is_active :: bool
  pc_expires_at :: "time option"
  pc_created_at :: time
  pc_updated_at :: time

datatype pay_status =
  Pay_Pending | Pay_Paid | Pay_Failed | Pay_Expired | Pay_Refunded | Pay_Other string

record payment =
  pay_id :: int
  pay_user_id :: int
  pay_plan_id :: int
  pay_billing_cycle :: "string option"
  pay_billing_period_id :: "int option"
  pay_base_amount_usd :: rat
  pay_discount_pct :: rat
  pay_final_amount_usd :: rat
  pay_promo_code_id :: "int option"
  pay_provider :: string
  pay_provider_invoice_id :: "string option"
  pay_provider_invoice_url :: "string option"
  pay_status :: pay_status
  pay_paid_at :: "time option"
  pay_activated_until :: "time option"
  pay_refunded_at :: "time option"
  pay_refunded_reason :: "string option"
  pay_created_at :: time
  pay_updated_at :: time

record promo_usage =
  pu_id :: int
  pu_promo_code_id :: int
  pu_user_id :: int
  pu_payment_id :: int
  pu_plan_id :: int
  pu_discount_pct :: rat
  pu_created_at :: time

section \<open>Referrals\<close>

record earning =
  re_id :: int
  re_referrer_id :: int
  re_referee_id :: "int option"
  re_payment_id :: "int option"
  re_pct :: rat
  re_amount_usd :: rat
  re_payout_request_id :: "int option"
  re_reversed_at :: "time option"
  re_reversal_reason :: "string option"
  re_reversal_of_id :: "int option"
  re_created_at :: time

datatype payout_status = PO_Pending | PO_Completed | PO_Cancelled | PO_Other string

record payout =
  po_id :: int
  po_user_id :: int
  po_amount_usd :: rat
  po_address :: string
  po_status :: payout_status
  po_note :: "string option"
  po_created_at :: time
  po_resolved_at :: "time option"

datatype code_type = Self_Serve | Admin_Issued

record referral_code =
  rc_id :: int
  rc_owner_id :: int
  rc_code :: string
  rc_commission_pct :: rat
  rc_discount_pct :: rat
  rc_code_type :: code_type
  rc_created_by_admin_id :: "int option"
  rc_created_at :: time

record registration =
  rr_id :: int
  rr_code_id :: int
  rr_referee_id :: int
  rr_created_at :: time

record code_usage =
  ru_id :: int
  ru_code_id :: int
  ru_referee_id :: int
  ru_payment_id :: "int option"
  ru_payment_amount_usd :: rat
  ru_commission_earned :: rat
  ru_discount_applied :: rat
  ru_created_at :: time
  ru_reversed_at :: "time option"
  ru_reversal_reason :: "string option"

text \<open>
  The CHECK constraints of \<open>referral_codes\<close>; the code-type enumeration is the type
  \<open>code_type\<close>.
\<close>

definition referral_code_checks :: "referral_code \<Rightarrow> bool" where
  "referral_code_checks c \<longleftrightarrow>
     0 \<le> rc_commission_pct c \<and> 0 \<le> rc_discount_pct c \<and>
     rc_commission_pct c + rc_discount_pct c \<le> 45 \<and>
     (rc_created_by_admin_id c \<noteq> None \<or> rc_commission_pct c + rc_discount_pct c \<le> 25) \<and>
     ((rc_code_type c = Self_Serve \<and> rc_created_by_admin_id c = None) \<or>
      (rc_code_type c = Admin_Issued \<and> rc_created_by_admin_id c \<noteq> None))"

section \<open>The world\<close>

datatype plan_key = Key_Id int | Key_Slug string | Key_Free

text \<open>
  The stored minimum payout as the settings service finds it: unreadable (the call
  raises), a value that is not a number, or a number.
\<close>

datatype setting = Unreadable | Not_Number | Number rat

record world =
  users :: "user list"
  wallets :: "wallet list"
  plans :: "plan list"
  periods :: "billing_period list"
  promos :: "promo_code list"
  payments :: "payment list"
  promo_usages :: "promo_usage list"
  earnings :: "earning list"
  payouts :: "payout list"
  codes :: "referral_code list"
  regs :: "registration list"
  usages :: "code_usage list"
  plan_cache :: "plan_key \<Rightarrow> (plan \<times> rat) option"
  min_payout :: setting

definition empty_world :: world where
  "empty_world = \<lparr> users = [], wallets = [], plans = [], periods = [], promos = [],
     payments = [], promo_usages = [], earnings = [], payouts = [], codes = [], regs = [],
     usages = [], plan_cache = (\<lambda>_. None), min_payout = Number 100 \<rparr>"

interpretation user_tab: table u_id users users_update
  by unfold_locales simp
interpretation wallet_tab: table w_id wallets wallets_update
  by unfold_locales simp
interpretation plan_tab: table pl_id plans plans_update
  by unfold_locales simp
interpretation promo_tab: table pc_id promos promos_update
  by unfold_locales simp
interpretation payment_tab: table pay_id payments payments_update
  by unfold_locales simp
interpretation earning_tab: table re_id earnings earnings_update
  by unfold_locales simp
interpretation payout_tab: table po_id payouts payouts_update
  by unfold_locales simp
interpretation code_tab: table rc_id codes codes_update
  by unfold_locales simp
interpretation usage_tab: table ru_id usages usages_update
  by unfold_locales simp

end
