(* ===== verification/Samples.thy ===== *)
theory Samples
  imports Store
begin

text \<open>
  A small concrete database: three plans, four accounts, a handful of wallets, a billing
  period, a promo code and a referral code. The properties are evaluated on it.
\<close>

definition sample_clock :: clock where
  "sample_clock = \<lparr>utcnow = days_us 100, monotonic = 1000\<rparr>"

definition later_clock :: clock where
  "later_clock = \<lparr>utcnow = days_us 101, monotonic = 2000\<rparr>"

definition sample_free :: plan where
  "sample_free = (new_plan 1 ''free'' ''Free'' 0)\<lparr>pl_is_free := True, pl_portfolio_limit := 1,
     pl_portfolio_limit_grace := 1, pl_trade_delay_ms := 500\<rparr>"

definition sample_pro :: plan where
  "sample_pro = (new_plan 2 ''pro'' ''Pro'' 0)\<lparr>pl_price_usd_monthly := 20, pl_portfolio_limit := 3,
     pl_portfolio_limit_grace := 2, pl_sort_order := 1\<rparr>"

definition sample_unlim :: plan where
  "sample_unlim = (new_plan 3 ''unlim'' ''Unlim'' 0)\<lparr>pl_portfolio_limit := - 1,
     pl_portfolio_limit_grace := 4, pl_is_admin_only := True, pl_sort_order := 2\<rparr>"

text \<open>Ann's plan expired ten days ago; Bob is an admin whose plan expired too; Cat is new.\<close>

definition ann :: user where
  "ann = (new_user 1 ''ann'' 0)\<lparr>u_plan := ''pro'', u_plan_id := Some 2, u_plan_expires_at := Some (days_us 90)\<rparr>"

definition bob :: user where
  "bob = (new_user 2 ''bob'' 0)\<lparr>u_is_admin := True, u_plan := ''pro'', u_plan_id := Some 2,
     u_plan_expires_at := Some (days_us 50)\<rparr>"

definition cat :: user where
  "cat = new_user 3 ''cat'' 0"

text \<open>Dan signed up with Cat's code.\<close>

definition dan :: user where
  "dan = (new_user 4 ''dan'' 0)\<lparr>u_signup_code_id := Some 1\<rparr>"

definition sample_period :: billing_period where
  "sample_period = \<lparr>bp_id = 1, bp_slug = ''quarter'', bp_label = ''3 months'', bp_months = 3,
     bp_discount_pct = 10, bp_sort_order = 0, bp_is_active = True, bp_created_at = 0, bp_updated_at = 0\<rparr>"

definition sample_promo :: promo_code where
  "sample_promo = \<lparr>pc_id = 1, pc_code = ''EARLY'', pc_discount_pct = 20, pc_bonus_days = 7,
     pc_max_uses = Some 10, pc_used_count = 0, pc_per_user_max_uses = Some 1, pc_target_user_id = None,
     pc_applies_to_plan_ids = Some [2], pc_is_active = True, pc_expires_at = Some (days_us 200),
     pc_created_at = 0, pc_updated_at = 0\<rparr>"

definition sample_code :: referral_code where
  "sample_code = \<lparr>rc_id = 1, rc_owner_id = 3, rc_code = ''CAT2024'', rc_commission_pct = 15,
     rc_discount_pct = 10, rc_code_type = Self_Serve, rc_created_by_admin_id = None, rc_created_at = 0\<rparr>"

definition sample_reg :: registration where
  "sample_reg = \<lparr>rr_id = 1, rr_code_id = 1, rr_referee_id = 4, rr_created_at = 0\<rparr>"

definition sample_payment :: payment where
  "sample_payment = \<lparr>pay_id = 1, pay_user_id = 4, pay_plan_id = 2, pay_billing_cycle = Some ''quarter'',
     pay_billing_period_id = Some 1, pay_base_amount_usd = 54, pay_discount_pct = 30,
     pay_final_amount_usd = 3780 / 100, pay_promo_code_id = Some 1, pay_provider = ''cryptocloud'',
     pay_provider_invoice_id = Some ''INV1'', pay_provider_invoice_url = Some ''url'',
     pay_status = Pay_Pending, pay_paid_at = None, pay_activated_until = None, pay_refunded_at = None,
     pay_refunded_reason = None, pay_created_at = days_us 99, pay_updated_at = days_us 99\<rparr>"

definition sample_world :: world where
  "sample_world = empty_world\<lparr>
     users := [ann, bob, cat, dan],
     wallets := [new_wallet 1 1 Portfolio 40, new_wallet 2 1 Both 30, new_wallet 3 1 Portfolio 20,
       new_wallet 4 1 Screener 10, new_wallet 5 3 Portfolio 5],
     plans := [sample_free, sample_pro, sample_unlim], periods := [sample_period],
     promos := [sample_promo], payments := [sample_payment], codes := [sample_code], regs := [sample_reg]\<rparr>"

text \<open>A ledger of Cat's: two earnings in a pending payout, one unclaimed, one paid out.\<close>

definition earned :: "int \<Rightarrow> int \<Rightarrow> rat \<Rightarrow> int option \<Rightarrow> earning" where
  "earned i pid amount link = \<lparr>re_id = i, re_referrer_id = 3, re_referee_id = Some 4,
     re_payment_id = Some pid, re_pct = 15, re_amount_usd = amount, re_payout_request_id = link,
     re_reversed_at = None, re_reversal_reason = None, re_reversal_of_id = None, re_created_at = i\<rparr>"

definition requested :: "int \<Rightarrow> rat \<Rightarrow> payout_status \<Rightarrow> payout" where
  "requested i amount st = \<lparr>po_id = i, po_user_id = 3, po_amount_usd = amount,
     po_address = ''T'', po_status = st, po_note = None, po_created_at = 0, po_resolved_at = None\<rparr>"

definition sample_ledger :: world where
  "sample_ledger = sample_world\<lparr>
     earnings := [earned 1 10 20 (Some 1), earned 2 11 130 (Some 1), earned 3 12 40 None, earned 4 13 100 (Some 2)],
     payouts := [requested 1 150 PO_Pending, requested 2 100 PO_Completed]\<rparr>"

definition unclaimed_ledger :: world where
  "unclaimed_ledger = sample_world\<lparr>earnings := [earned 1 10 20 None, earned 2 11 130 None], payouts := []\<rparr>"

lemmas sample_users = ann_def bob_def cat_def dan_def new_user_def
lemmas sample_plans = sample_free_def sample_pro_def sample_unlim_def new_plan_def

end
