(* ===== verification/Plans.thy ===== *)
theory Plans
  imports Samples
begin

text \<open>
  Subscription plans and what they limit: \<^verbatim>\<open>backend/services/plan_service.py\<close> (plan
  lookup through the process cache, effective limits, admin edits),
  \<^verbatim>\<open>backend/plans.py\<close> (legacy limits), \<^verbatim>\<open>backend/services/wallet_quota.py\<close>
  (archiving surplus wallets), \<^verbatim>\<open>backend/services/plan_expiry_service.py\<close> (one pass of
  the expiry job) and the admin handlers for plans of \<^verbatim>\<open>backend/api/v1/admin.py\<close>.
  The plan cache is part of the state: a lookup may return a row as it was up to a
  minute ago, and what it returns is always detached from the database session.
\<close>

section \<open>Legacy limits\<close>

fun plan_limits :: "string \<Rightarrow> int option option" where
  "plan_limits s =
     (if s = ''free'' then Some (Some 5)
      else if s = ''screener'' then Some (Some 0)
      else if s = ''full'' then Some (Some 30)
      else if s = ''unlim'' then Some None
      else None)"

definition wallet_limit :: "string \<Rightarrow> int option" where
  "wallet_limit p = (case plan_limits p of Some l \<Rightarrow> l | None \<Rightarrow> Some 5)"

definition valid_plan :: "string \<Rightarrow> bool" where
  "valid_plan p \<longleftrightarrow> plan_limits p \<noteq> None"

section \<open>Lookup through the cache\<close>

definition is_unlimited :: "int option \<Rightarrow> bool" where
  "is_unlimited v = (case v of None \<Rightarrow> True | Some n \<Rightarrow> n < 0)"

definition plan_cache_ttl :: rat where
  "plan_cache_ttl = 60"

definition cache_get :: "clock \<Rightarrow> world \<Rightarrow> plan_key \<Rightarrow> plan option" where
  "cache_get c w k =
     (case plan_cache w k of
        Some (p, t) \<Rightarrow> if monotonic c - t < plan_cache_ttl then Some p else None
      | None \<Rightarrow> None)"

definition cache_set :: "clock \<Rightarrow> plan_key \<Rightarrow> plan \<Rightarrow> world \<Rightarrow> world" where
  "cache_set c k p w = w\<lparr>plan_cache := (plan_cache w)(k \<mapsto> (p, monotonic c))\<rparr>"

definition invalidate_plan_cache :: "world \<Rightarrow> world" where
  "invalidate_plan_cache w = w\<lparr>plan_cache := (\<lambda>_. None)\<rparr>"

text \<open>The common shape of the three cached lookups: the cache, else the query, cached.\<close>

definition cached :: "clock \<Rightarrow> plan_key \<Rightarrow> plan option \<Rightarrow> world \<Rightarrow> plan option \<times> world" where
  "cached c k query w =
     (case cache_get c w k of
        Some p \<Rightarrow> (Some p, w)
      | None \<Rightarrow> (case query of None \<Rightarrow> (None, w) | Some p \<Rightarrow> (Some p, cache_set c k p w)))"

definition get_plan :: "clock \<Rightarrow> world \<Rightarrow> int \<Rightarrow> plan option \<times> world" where
  "get_plan c w i = cached c (Key_Id i) (row_get pl_id (plans w) i) w"

definition get_plan_by_slug :: "clock \<Rightarrow> world \<Rightarrow> string \<Rightarrow> plan option \<times> world" where
  "get_plan_by_slug c w s = cached c (Key_Slug s) (find (\<lambda>p. pl_slug p = s) (plans w)) w"

definition query_free_plan :: "world \<Rightarrow> plan option" where
  "query_free_plan w =
     order_first (\<lambda>p. (pl_sort_order p, pl_id p)) (filter (\<lambda>p. pl_is_free p \<and> pl_is_active p) (plans w))"

definition get_free_plan :: "clock \<Rightarrow> world \<Rightarrow> plan option \<times> world" where
  "get_free_plan c w = cached c Key_Free (query_free_plan w) w"

datatype plan_error = No_Free_Plan

definition get_user_plan :: "clock \<Rightarrow> world \<Rightarrow> user \<Rightarrow> (plan_error + plan) \<times> world" where
  "get_user_plan c w u =
     (let (own, w1) = (if truthy (u_plan_id u) then get_plan c w (the (u_plan_id u)) else (None, w));
          (free, w2) = get_free_plan c w1
      in case own of
           Some p \<Rightarrow> if pl_is_active p then (Inr p, w1)
                     else (case free of Some f \<Rightarrow> (Inr f, w2) | None \<Rightarrow> (Inl No_Free_Plan, w2))
         | None \<Rightarrow> (case free of Some f \<Rightarrow> (Inr f, w2) | None \<Rightarrow> (Inl No_Free_Plan, w2)))"

definition is_paid_active :: "clock \<Rightarrow> user \<Rightarrow> plan \<Rightarrow> bool" where
  "is_paid_active c u p =
     (if pl_is_free p then False
      else case u_plan_expires_at u of None \<Rightarrow> True | Some t \<Rightarrow> utcnow c < t)"

section \<open>Effective limits\<close>

record limit_set =
  el_plan_id :: int
  el_plan_slug :: string
  el_plan_name :: string
  el_is_free :: bool
  el_is_expired :: bool
  el_has_portfolio :: bool
  el_portfolio_limit :: int
  el_exchange_keys_per_venue :: int
  el_trade_delay_ms :: int
  el_max_spread_pct :: rat
  el_allow_tp_sl_orders :: bool
  el_expires_at :: "time option"

definition portfolio_unlimited :: "limit_set \<Rightarrow> bool" where
  "portfolio_unlimited l = is_unlimited (Some (el_portfolio_limit l))"

definition keys_unlimited :: "limit_set \<Rightarrow> bool" where
  "keys_unlimited l = is_unlimited (Some (el_exchange_keys_per_venue l))"

definition plan_expired :: "clock \<Rightarrow> user \<Rightarrow> plan \<Rightarrow> bool" where
  "plan_expired c u p \<longleftrightarrow>
     \<not> pl_is_free p \<and> (case u_plan_expires_at u of None \<Rightarrow> False | Some t \<Rightarrow> t \<le> utcnow c)"

definition limits_of :: "clock \<Rightarrow> user \<Rightarrow> plan \<Rightarrow> plan \<Rightarrow> limit_set" where
  "limits_of c u plan free =
     (let expired = plan_expired c u plan in
      \<lparr> el_plan_id = pl_id plan, el_plan_slug = pl_slug plan, el_plan_name = pl_name plan,
        el_is_free = pl_is_free plan, el_is_expired = expired,
        el_has_portfolio = pl_has_portfolio plan,
        el_portfolio_limit =
          (if expired then pl_portfolio_limit_grace plan else pl_portfolio_limit plan),
        el_exchange_keys_per_venue =
          pl_exchange_keys_per_venue (if expired then free else plan),
        el_trade_delay_ms = pl_trade_delay_ms (if expired then free else plan),
        el_max_spread_pct =
          (if expired then or_else (Some (pl_max_spread_pct free)) 10
           else or_else (Some (pl_max_spread_pct plan)) 100),
        el_allow_tp_sl_orders = pl_allow_tp_sl_orders (if expired then free else plan),
        el_expires_at = u_plan_expires_at u \<rparr>)"

definition effective_limits :: "clock \<Rightarrow> world \<Rightarrow> user \<Rightarrow> (plan_error + limit_set) \<times> world" where
  "effective_limits c w u =
     (case get_user_plan c w u of
        (Inl e, w1) \<Rightarrow> (Inl e, w1)
      | (Inr own, w1) \<Rightarrow>
          (let (unlim, w2) = (if u_is_admin u then get_plan_by_slug c w1 ''unlim'' else (None, w1));
               plan = (case unlim of Some p \<Rightarrow> p | None \<Rightarrow> own);
               (free, w3) = get_free_plan c w2
           in (Inr (limits_of c u plan (case free of Some f \<Rightarrow> f | None \<Rightarrow> plan)), w3)))"

definition list_plans :: "bool \<Rightarrow> bool \<Rightarrow> world \<Rightarrow> plan list" where
  "list_plans only_active public_only w =
     sort_key (\<lambda>p. (pl_sort_order p, pl_id p))
       (filter (\<lambda>p. (only_active \<longrightarrow> pl_is_active p) \<and> (public_only \<longrightarrow> \<not> pl_is_admin_only p)) (plans w))"

section \<open>Admin edits\<close>

text \<open>
  The body of an edit is a list of assignments in the order of the request; only the
  editable columns are assigned, any other key is ignored.
\<close>

datatype plan_field =
  PF_Name string | PF_Description "string option" | PF_Price_Monthly rat | PF_Price_Annual rat
| PF_Portfolio_Limit int | PF_Portfolio_Limit_Grace int | PF_Exchange_Keys int
| PF_Trade_Delay int | PF_Max_Spread rat | PF_Allow_Tp_Sl bool | PF_Has_Portfolio bool
| PF_Is_Subscription bool | PF_Features "(string list \<times> string list) option"
| PF_Is_Active bool | PF_Sort_Order int | PF_Other string

fun set_plan_field :: "plan \<Rightarrow> plan_field \<Rightarrow> plan" where
  "set_plan_field p (PF_Name v) = p\<lparr>pl_name := v\<rparr>"
| "set_plan_field p (PF_Description v) = p\<lparr>pl_description := v\<rparr>"
| "set_plan_field p (PF_Price_Monthly v) = p\<lparr>pl_price_usd_monthly := v\<rparr>"
| "set_plan_field p (PF_Price_Annual v) = p\<lparr>pl_price_usd_annual := v\<rparr>"
| "set_plan_field p (PF_Portfolio_Limit v) = p\<lparr>pl_portfolio_limit := v\<rparr>"
| "set_plan_field p (PF_Portfolio_Limit_Grace v) = p\<lparr>pl_portfolio_limit_grace := v\<rparr>"
| "set_plan_field p (PF_Exchange_Keys v) = p\<lparr>pl_exchange_keys_per_venue := v\<rparr>"
| "set_plan_field p (PF_Trade_Delay v) = p\<lparr>pl_trade_delay_ms := v\<rparr>"
| "set_plan_field p (PF_Max_Spread v) = p\<lparr>pl_max_spread_pct := v\<rparr>"
| "set_plan_field p (PF_Allow_Tp_Sl v) = p\<lparr>pl_allow_tp_sl_orders := v\<rparr>"
| "set_plan_field p (PF_Has_Portfolio v) = p\<lparr>pl_has_portfolio := v\<rparr>"
| "set_plan_field p (PF_Is_Subscription v) = p\<lparr>pl_is_subscription := v\<rparr>"
| "set_plan_field p (PF_Features v) = p\<lparr>pl_features := v\<rparr>"
| "set_plan_field p (PF_Is_Active v) = p\<lparr>pl_is_active := v\<rparr>"
| "set_plan_field p (PF_Sort_Order v) = p\<lparr>pl_sort_order := v\<rparr>"
| "set_plan_field p (PF_Other _) = p"

definition set_plan_fields :: "plan_field list \<Rightarrow> plan \<Rightarrow> plan" where
  "set_plan_fields fs p = foldl set_plan_field p fs"

text \<open>
  A plan object the caller holds is either persistent in the session, so that a commit
  writes it, or the detached instance the cache keeps under a key (\<open>_cache_set\<close>
  expunges it before storing it): assigning to that one changes the cached object, a
  commit writes nothing, and \<open>refresh\<close> raises.
\<close>

datatype plan_obj = Persistent int | Cached plan_key plan

datatype edit_error = Free_Plan_Undeletable | Not_Persistent | Plan_Not_Found

definition touch_cached :: "plan_key \<Rightarrow> (plan \<Rightarrow> plan) \<Rightarrow> world \<Rightarrow> world" where
  "touch_cached k f w =
     w\<lparr>plan_cache := (plan_cache w)(k := map_option (\<lambda>(p, t). (f p, t)) (plan_cache w k))\<rparr>"

definition update_plan :: "clock \<Rightarrow> world \<Rightarrow> plan_obj \<Rightarrow> plan_field list \<Rightarrow> (edit_error + unit) \<times> world" where
  "update_plan c w obj fs =
     (case obj of
        Persistent i \<Rightarrow>
          (Inr (), invalidate_plan_cache (plans_update
             (row_upd pl_id i (\<lambda>p. (set_plan_fields fs p)\<lparr>pl_updated_at := utcnow c\<rparr>)) w))
      | Cached k p \<Rightarrow> (Inl Not_Persistent, touch_cached k (set_plan_fields fs) w))"

definition delete_plan :: "clock \<Rightarrow> world \<Rightarrow> plan_obj \<Rightarrow> (edit_error + unit) \<times> world" where
  "delete_plan c w obj =
     (case obj of
        Persistent i \<Rightarrow>
          (case row_get pl_id (plans w) i of
             None \<Rightarrow> (Inl Not_Persistent, w)
           | Some p \<Rightarrow>
               if pl_is_free p then (Inl Free_Plan_Undeletable, w)
               else (Inr (), invalidate_plan_cache (plans_update
                      (row_upd pl_id i (\<lambda>p. p\<lparr>pl_is_active := False, pl_updated_at := utcnow c\<rparr>)) w)))
      | Cached k p \<Rightarrow>
          if pl_is_free p then (Inl Free_Plan_Undeletable, w)
          else (Inr (), invalidate_plan_cache (touch_cached k (\<lambda>p. p\<lparr>pl_is_active := False\<rparr>) w)))"

definition create_plan :: "clock \<Rightarrow> world \<Rightarrow> string \<Rightarrow> plan_field list \<Rightarrow> plan \<times> world" where
  "create_plan c w slug fs =
     (let i = row_fresh pl_id (plans w);
          name = (case find (\<lambda>f. case f of PF_Name _ \<Rightarrow> True | _ \<Rightarrow> False) fs of
                    Some (PF_Name n) \<Rightarrow> if n = [] then title slug else n
                  | _ \<Rightarrow> title slug);
          p = set_plan_fields fs (new_plan i slug name (utcnow c))
      in (p, invalidate_plan_cache (plans_update (\<lambda>rs. rs @ [p]) w)))"

definition admin_update_plan :: "clock \<Rightarrow> world \<Rightarrow> int \<Rightarrow> plan_field list \<Rightarrow> (edit_error + unit) \<times> world" where
  "admin_update_plan c w i fs =
     (case get_plan c w i of
        (None, w1) \<Rightarrow> (Inl Plan_Not_Found, w1)
      | (Some p, w1) \<Rightarrow> update_plan c w1 (Cached (Key_Id i) p) fs)"

definition admin_delete_plan :: "clock \<Rightarrow> world \<Rightarrow> int \<Rightarrow> (edit_error + unit) \<times> world" where
  "admin_delete_plan c w i =
     (case get_plan c w i of
        (None, w1) \<Rightarrow> (Inl Plan_Not_Found, w1)
      | (Some p, w1) \<Rightarrow> delete_plan c w1 (Cached (Key_Id i) p))"

section \<open>Wallet quota\<close>

definition counts_for_portfolio :: "int \<Rightarrow> wallet \<Rightarrow> bool" where
  "counts_for_portfolio uid x \<longleftrightarrow>
     w_user_id x = Some uid \<and> \<not> w_is_archived x \<and> (w_purpose x = Portfolio \<or> w_purpose x = Both)"

definition portfolio_wallets :: "world \<Rightarrow> int \<Rightarrow> wallet list" where
  "portfolio_wallets w uid = sort_key w_created_at (filter (counts_for_portfolio uid) (wallets w))"

datatype quota_report =
  Q_Unlimited
| Q_Within_Cap int int
| Q_Dry_Run "int list" int
| Q_Enforced int int int string bool

definition archive_surplus :: "wallet \<Rightarrow> wallet" where
  "archive_surplus x =
     (if w_purpose x = Both then x\<lparr>w_purpose := Screener, w_is_archived := False\<rparr>
      else x\<lparr>w_is_archived := True\<rparr>)"

definition enforce_for_user :: "clock \<Rightarrow> world \<Rightarrow> user \<Rightarrow> bool \<Rightarrow> (plan_error + quota_report) \<times> world" where
  "enforce_for_user c w u dry_run =
     (case effective_limits c w u of
        (Inl e, w1) \<Rightarrow> (Inl e, w1)
      | (Inr l, w1) \<Rightarrow>
          if portfolio_unlimited l then (Inr Q_Unlimited, w1)
          else
            let cap = el_portfolio_limit l;
                ws = portfolio_wallets w1 (u_id u);
                surplus = take (length ws - nat cap) ws;
                ids = map w_id surplus
            in if int (length ws) \<le> cap then (Inr (Q_Within_Cap (int (length ws)) cap), w1)
               else if dry_run then (Inr (Q_Dry_Run ids cap), w1)
               else (Inr (Q_Enforced
                       (int (length (filter (\<lambda>x. w_purpose x \<noteq> Both) surplus)))
                       (int (length (filter (\<lambda>x. w_purpose x = Both) surplus)))
                       cap (el_plan_slug l) (el_is_expired l)),
                     wallets_update (row_upd_where (\<lambda>x. w_id x \<in> set ids) archive_surplus) w1))"

definition report_changed :: "quota_report \<Rightarrow> int" where
  "report_changed r = (case r of Q_Enforced n _ _ _ _ \<Rightarrow> n | _ \<Rightarrow> 0)"

fun enforce_for_users :: "clock \<Rightarrow> world \<Rightarrow> user list \<Rightarrow> int \<times> int \<Rightarrow> (plan_error + int \<times> int) \<times> world" where
  "enforce_for_users c w [] summary = (Inr summary, w)"
| "enforce_for_users c w (u # us) (touched, archived) =
     (case enforce_for_user c w u False of
        (Inl e, w1) \<Rightarrow> (Inl e, w1)
      | (Inr r, w1) \<Rightarrow>
          enforce_for_users c w1 us
            (if report_changed r \<noteq> 0 then (touched + 1, archived + report_changed r)
             else (touched, archived)))"

section \<open>Plan expiry\<close>

definition expiry_due :: "clock \<Rightarrow> user \<Rightarrow> bool" where
  "expiry_due c u \<longleftrightarrow>
     (case u_plan_expires_at u of None \<Rightarrow> False | Some t \<Rightarrow> t < utcnow c) \<and> \<not> u_is_admin u"

definition on_plan :: "plan \<Rightarrow> user \<Rightarrow> bool" where
  "on_plan p u \<longleftrightarrow> u_plan_id u = Some (pl_id p) \<and> u_plan u = pl_slug p"

definition downgrade :: "plan \<Rightarrow> user \<Rightarrow> user" where
  "downgrade free u = u\<lparr>u_plan := pl_slug free, u_plan_id := Some (pl_id free), u_plan_expires_at := None\<rparr>"

definition enforce_quiet :: "clock \<Rightarrow> world \<Rightarrow> user \<Rightarrow> world" where
  "enforce_quiet c w u = snd (enforce_for_user c w u False)"

definition run_once :: "clock \<Rightarrow> world \<Rightarrow> int \<times> world" where
  "run_once c w =
     (case find (\<lambda>p. pl_is_free p \<and> pl_is_active p) (plans w) of
        None \<Rightarrow> (0, w)
      | Some free \<Rightarrow>
          let due = (\<lambda>u. expiry_due c u \<and> \<not> on_plan free u);
              downgraded = map (downgrade free) (filter due (users w));
              w1 = users_update (row_upd_where due (downgrade free)) w
          in (int (length downgraded), foldl (enforce_quiet c) w1 downgraded))"

section \<open>The admin's plan change\<close>

datatype set_plan_error =
  Invalid_Plan | User_Not_Found | Admin_Only_Plan | Slug_Not_In_Db | Bad_Date

text \<open>
  \<open>expires\<close> is the request's date: absent (or empty), a string that is no date, or the
  midnight it names.
\<close>

datatype expires_arg = No_Date | Unparsable | Date time

definition set_plan :: "clock \<Rightarrow> world \<Rightarrow> int \<Rightarrow> string \<Rightarrow> expires_arg \<Rightarrow> (set_plan_error + unit) \<times> world" where
  "set_plan c w uid slug expires =
     (if \<not> valid_plan slug then (Inl Invalid_Plan, w)
      else case row_get u_id (users w) uid of
        None \<Rightarrow> (Inl User_Not_Found, w)
      | Some u \<Rightarrow>
          if slug = ''unlim'' \<and> \<not> u_is_admin u then (Inl Admin_Only_Plan, w)
          else case find (\<lambda>p. pl_slug p = slug) (plans w) of
            None \<Rightarrow> (Inl Slug_Not_In_Db, w)
          | Some p \<Rightarrow>
              if expires = Unparsable then (Inl Bad_Date, w)
              else
                let until = (case expires of Date t \<Rightarrow> Some t | _ \<Rightarrow> None);
                    upd = (\<lambda>u. u\<lparr>u_plan := slug, u_plan_id := Some (pl_id p), u_plan_expires_at := until\<rparr>);
                    w1 = invalidate_plan_cache (users_update (row_upd u_id uid upd) w)
                in (Inr (), enforce_quiet c w1 (upd u)))"

section \<open>The cache returns what the database holds\<close>

fun query_of :: "world \<Rightarrow> plan_key \<Rightarrow> plan option" where
  "query_of w (Key_Id i) = row_get pl_id (plans w) i"
| "query_of w (Key_Slug s) = find (\<lambda>p. pl_slug p = s) (plans w)"
| "query_of w Key_Free = query_free_plan w"

definition coherent :: "clock \<Rightarrow> world \<Rightarrow> bool" where
  "coherent c w \<longleftrightarrow> (\<forall>k p. cache_get c w k = Some p \<longrightarrow> query_of w k = Some p)"

text \<open>
  A read-through cache over a query: lookups answer as the query does and neither change
  what the query answers nor lose coherence.
\<close>

locale read_through =
  fixes look :: "'s \<Rightarrow> 'k \<Rightarrow> 'v option \<times> 's"
    and ask :: "'s \<Rightarrow> 'k \<Rightarrow> 'v option"
    and good :: "'s \<Rightarrow> bool"
  assumes look_ask: "good s \<Longrightarrow> fst (look s k) = ask s k"
    and look_good: "good s \<Longrightarrow> good (snd (look s k))"
    and ask_look: "ask (snd (look s k)) = ask s"
begin

lemma look_twice: "good s \<Longrightarrow> fst (look (snd (look s k)) k') = ask s k'"
  by (simp add: look_ask look_good ask_look)

lemma look_run: "good s \<Longrightarrow> good (foldl (\<lambda>s k. snd (look s k)) s ks)"
  by (induction ks arbitrary: s) (auto intro: look_good)

end

lemma query_of_cache [simp]: "query_of (w\<lparr>plan_cache := pc\<rparr>) k = query_of w k"
  by (cases k) (simp_all add: query_free_plan_def)

lemma query_of_cache_set [simp]: "query_of (cache_set c k' p w) k = query_of w k"
  by (simp add: cache_set_def)

lemma plan_cache_ttl_pos: "0 < plan_cache_ttl"
  by (simp add: plan_cache_ttl_def)

lemma cache_get_set:
  "cache_get c (cache_set c k p w) k' = (if k' = k then Some p else cache_get c w k')"
  using plan_cache_ttl_pos by (simp add: cache_get_def cache_set_def)

interpretation plan_lookup:
  read_through "\<lambda>w k. cached c k (query_of w k) w" query_of "coherent c" for c
proof unfold_locales
  fix w k
  show "fst (cached c k (query_of w k) w) = query_of w k" if "coherent c w"
    using that by (auto simp: cached_def coherent_def split: option.splits)
  show "coherent c (snd (cached c k (query_of w k) w))" if "coherent c w"
    using that by (auto simp: cached_def coherent_def cache_get_set split: option.splits if_splits)
  show "query_of (snd (cached c k (query_of w k) w)) = query_of w"
    by (auto simp: cached_def fun_eq_iff split: option.splits)
qed

lemma lookups_query [simp]:
  "query_of (snd (get_plan c w i)) = query_of w"
  "query_of (snd (get_plan_by_slug c w s)) = query_of w"
  "query_of (snd (get_free_plan c w)) = query_of w"
  using plan_lookup.ask_look [of c _ w]
  by (simp_all add: get_plan_def get_plan_by_slug_def get_free_plan_def flip: query_of.simps)

lemma lookups_coherent:
  assumes "coherent c w"
  shows "fst (get_plan c w i) = query_of w (Key_Id i)"
    and "fst (get_plan_by_slug c w s) = query_of w (Key_Slug s)"
    and "fst (get_free_plan c w) = query_of w Key_Free"
    and "coherent c (snd (get_plan c w i))"
    and "coherent c (snd (get_plan_by_slug c w s))"
    and "coherent c (snd (get_free_plan c w))"
  using plan_lookup.look_ask [OF assms] plan_lookup.look_good [OF assms]
  by (simp_all add: get_plan_def get_plan_by_slug_def get_free_plan_def flip: query_of.simps)

lemma coherent_invalidate [simp]: "coherent c (invalidate_plan_cache w)"
  by (simp add: coherent_def cache_get_def invalidate_plan_cache_def)

lemma coherent_stale:
  assumes "\<And>k p t. plan_cache w k = Some (p, t) \<Longrightarrow> t + plan_cache_ttl \<le> monotonic c"
  shows "coherent c w"
proof -
  have "cache_get c w k = None" for k
    using assms [of k] by (auto simp: cache_get_def split: option.splits)
  then show ?thesis by (simp add: coherent_def)
qed

text \<open>The plan and the limits as the tables alone determine them.\<close>

definition spec_user_plan :: "world \<Rightarrow> user \<Rightarrow> plan_error + plan" where
  "spec_user_plan w u =
     (let own = (if truthy (u_plan_id u) then row_get pl_id (plans w) (the (u_plan_id u)) else None);
          free = (case query_free_plan w of Some f \<Rightarrow> Inr f | None \<Rightarrow> Inl No_Free_Plan)
      in case own of Some p \<Rightarrow> (if pl_is_active p then Inr p else free) | None \<Rightarrow> free)"

definition spec_limits :: "clock \<Rightarrow> world \<Rightarrow> user \<Rightarrow> plan_error + limit_set" where
  "spec_limits c w u =
     (case spec_user_plan w u of
        Inl e \<Rightarrow> Inl e
      | Inr own \<Rightarrow>
          let plan = (if u_is_admin u
                      then (case find (\<lambda>p. pl_slug p = ''unlim'') (plans w) of Some p \<Rightarrow> p | None \<Rightarrow> own)
                      else own)
          in Inr (limits_of c u plan (case query_free_plan w of Some f \<Rightarrow> f | None \<Rightarrow> plan)))"

lemma get_user_plan_spec:
  assumes "coherent c w"
  shows "fst (get_user_plan c w u) = spec_user_plan w u"
    and "coherent c (snd (get_user_plan c w u))"
    and "query_of (snd (get_user_plan c w u)) = query_of w"
proof -
  define r where "r = (if truthy (u_plan_id u) then get_plan c w (the (u_plan_id u)) else (None, w))"
  have r: "fst r = (if truthy (u_plan_id u) then row_get pl_id (plans w) (the (u_plan_id u)) else None)"
      "coherent c (snd r)" "query_of (snd r) = query_of w"
    using assms by (auto simp: r_def lookups_coherent)
  define g where "g = get_free_plan c (snd r)"
  have g: "fst g = query_free_plan w" "coherent c (snd g)" "query_of (snd g) = query_of w"
    using r(2,3) by (auto simp: g_def lookups_coherent)
  have e: "get_user_plan c w u =
     (case fst r of
        Some p \<Rightarrow> if pl_is_active p then (Inr p, snd r)
                  else (case fst g of Some f \<Rightarrow> (Inr f, snd g) | None \<Rightarrow> (Inl No_Free_Plan, snd g))
      | None \<Rightarrow> (case fst g of Some f \<Rightarrow> (Inr f, snd g) | None \<Rightarrow> (Inl No_Free_Plan, snd g)))"
    unfolding get_user_plan_def r_def [symmetric] Let_def split_beta g_def [symmetric] ..
  show "fst (get_user_plan c w u) = spec_user_plan w u"
    unfolding e r(1) g(1) spec_user_plan_def Let_def by (auto split: option.splits)
  show "coherent c (snd (get_user_plan c w u))" "query_of (snd (get_user_plan c w u)) = query_of w"
    using r(2,3) g(2,3) unfolding e by (auto split: option.splits)
qed

lemma effective_limits_spec:
  assumes "coherent c w"
  shows "fst (effective_limits c w u) = spec_limits c w u"
proof -
  obtain x w1 where g: "get_user_plan c w u = (x, w1)" by (cases "get_user_plan c w u")
  have x: "x = spec_user_plan w u" and c1: "coherent c w1" and q1: "query_of w1 = query_of w"
    using get_user_plan_spec [OF assms, of u] by (simp_all add: g)
  define r where "r = (if u_is_admin u then get_plan_by_slug c w1 ''unlim'' else (None, w1))"
  have r: "fst r = (if u_is_admin u then find (\<lambda>p. pl_slug p = ''unlim'') (plans w) else None)"
      "coherent c (snd r)" "query_of (snd r) = query_of w"
    using c1 q1 by (auto simp: r_def lookups_coherent)
  have f: "fst (get_free_plan c (snd r)) = query_free_plan w"
    using r(2,3) by (simp add: lookups_coherent)
  show ?thesis
  proof (cases x)
    case (Inl e)
    then show ?thesis using x by (simp add: effective_limits_def g spec_limits_def)
  next
    case (Inr own)
    have "effective_limits c w u =
      (let plan = (case fst r of Some p \<Rightarrow> p | None \<Rightarrow> own)
       in (Inr (limits_of c u plan (case fst (get_free_plan c (snd r)) of Some f \<Rightarrow> f | None \<Rightarrow> plan)),
           snd (get_free_plan c (snd r))))"
      by (simp add: effective_limits_def g r_def Inr Let_def split_beta)
    then show ?thesis
      using x by (simp add: f r(1) spec_limits_def Inr flip: x split: option.splits)
  qed
qed

section \<open>Lookups leave the tables alone\<close>

definition same_tables :: "world \<Rightarrow> world \<Rightarrow> bool" where
  "same_tables w w' \<longleftrightarrow> invalidate_plan_cache w = invalidate_plan_cache w'"

lemma same_tables_refl [simp]: "same_tables w w"
  by (simp add: same_tables_def)

lemma same_tables_trans: "same_tables a b \<Longrightarrow> same_tables b c \<Longrightarrow> same_tables a c"
  by (simp add: same_tables_def)

lemma same_tables_cached [simp]: "same_tables w (snd (cached c k q w))"
  by (auto simp: cached_def cache_set_def same_tables_def invalidate_plan_cache_def split: option.splits)

lemma same_tables_lookup [simp]:
  "same_tables w (snd (get_plan c w i))"
  "same_tables w (snd (get_plan_by_slug c w s))"
  "same_tables w (snd (get_free_plan c w))"
  by (simp_all add: get_plan_def get_plan_by_slug_def get_free_plan_def)

lemma same_tablesD:
  assumes "same_tables w w'"
  shows "users w' = users w" "wallets w' = wallets w" "plans w' = plans w"
    "periods w' = periods w" "promos w' = promos w" "payments w' = payments w"
    "promo_usages w' = promo_usages w" "earnings w' = earnings w" "payouts w' = payouts w"
    "codes w' = codes w" "regs w' = regs w" "usages w' = usages w" "min_payout w' = min_payout w"
  using assms unfolding same_tables_def invalidate_plan_cache_def
  by (metis world.surjective world.update_convs(13) world.select_convs)+

lemma same_tables_get_user_plan [simp]: "same_tables w (snd (get_user_plan c w u))"
proof -
  have *: "same_tables w (snd (if truthy (u_plan_id u) then get_plan c w (the (u_plan_id u)) else (None, w)))"
    by simp
  show ?thesis
    unfolding get_user_plan_def Let_def split_beta
    using * same_tables_trans [OF * same_tables_lookup(3) [of _ c]]
    by (auto split: option.splits)
qed

lemma same_tables_effective_limits [simp]: "same_tables w (snd (effective_limits c w u))"
proof -
  obtain x w1 where g: "get_user_plan c w u = (x, w1)" by (cases "get_user_plan c w u")
  have 1: "same_tables w w1" using same_tables_get_user_plan [of w c u] by (simp add: g)
  have 2: "same_tables w1 (snd (if u_is_admin u then get_plan_by_slug c w1 ''unlim'' else (None, w1)))"
    by simp
  show ?thesis
    using 1 same_tables_trans [OF same_tables_trans [OF 1 2] same_tables_lookup(3) [of _ c]]
    by (auto simp: effective_limits_def g Let_def split_beta split: sum.splits)
qed

section \<open>What the quota keeps\<close>

lemma archive_surplus_drops [simp]: "\<not> counts_for_portfolio uid (archive_surplus x)"
  by (simp add: counts_for_portfolio_def archive_surplus_def)

lemma archive_surplus_id [simp]: "w_id (archive_surplus x) = w_id x"
  by (simp add: archive_surplus_def)

lemma filter_upd_where:
  assumes "\<And>x. \<not> Q (f x)"
  shows "filter Q (row_upd_where P f xs) = filter (\<lambda>x. Q x \<and> \<not> P x) xs"
  by (induction xs) (auto simp: row_upd_where_def assms)

lemma filter_notin_take:
  assumes "distinct (map k xs)"
  shows "filter (\<lambda>x. k x \<notin> k ` set (take n xs)) xs = drop n xs"
  using assms
proof (induction xs arbitrary: n)
  case (Cons a xs)
  show ?case
  proof (cases n)
    case (Suc m)
    have "filter (\<lambda>x. k x \<notin> k ` set (take m xs) \<and> k x \<noteq> k a) xs
        = filter (\<lambda>x. k x \<notin> k ` set (take m xs)) xs"
      using Cons.prems by (intro filter_cong) (auto simp: image_iff)
    with Cons Suc show ?thesis by (simp add: conj_commute)
  qed simp
qed simp

lemma portfolio_wallets_after_archiving:
  assumes "distinct (map w_id (wallets w))"
  shows "portfolio_wallets (wallets_update (row_upd_where
           (\<lambda>x. w_id x \<in> set (map w_id (take n (portfolio_wallets w uid)))) archive_surplus) w) uid
         = drop n (portfolio_wallets w uid)"
proof -
  let ?ws = "portfolio_wallets w uid"
  let ?P = "\<lambda>x. w_id x \<in> set (map w_id (take n ?ws))"
  have "distinct (map w_id (filter (counts_for_portfolio uid) (wallets w)))"
    using assms by (rule distinct_map_filter)
  then have d: "distinct (map w_id ?ws)"
    unfolding portfolio_wallets_def by (simp add: distinct_map)
  have "filter (counts_for_portfolio uid) (row_upd_where ?P archive_surplus (wallets w))
      = filter (\<lambda>x. \<not> ?P x) (filter (counts_for_portfolio uid) (wallets w))"
    by (subst filter_upd_where) (auto intro: filter_cong)
  then have "portfolio_wallets (wallets_update (row_upd_where ?P archive_surplus) w) uid
      = filter (\<lambda>x. \<not> ?P x) ?ws"
    by (simp add: portfolio_wallets_def filter_sort)
  also have "\<dots> = drop n ?ws"
    using filter_notin_take [OF d, of n] by simp
  finally show ?thesis .
qed

lemma portfolio_wallets_tables:
  "wallets w' = wallets w \<Longrightarrow> portfolio_wallets w' uid = portfolio_wallets w uid"
  by (simp add: portfolio_wallets_def)

lemma enforce_tables:
  "\<exists>ids. same_tables w (wallets_update (\<lambda>_. wallets w) (snd (enforce_for_user c w u dry))) \<and>
     wallets (snd (enforce_for_user c w u dry)) =
       row_upd_where (\<lambda>x. w_id x \<in> set ids) archive_surplus (wallets w) \<and>
     set ids \<subseteq> w_id ` {x \<in> set (wallets w). counts_for_portfolio (u_id u) x}"
proof -
  obtain x w1 where g: "effective_limits c w u = (x, w1)" by (cases "effective_limits c w u")
  have t: "same_tables w w1" using same_tables_effective_limits [of w c u] by (simp add: g)
  note ws = same_tablesD(2) [OF t]
  have self: "wallets_update (\<lambda>_. wallets w) w1 = w1" by (simp add: ws [symmetric])
  have up: "same_tables w (wallets_update (\<lambda>_. wallets w) (wallets_update f w1))" for f
    using t self by simp
  have none: "row_upd_where (\<lambda>x. w_id x \<in> set []) archive_surplus (wallets w) = wallets w"
    by (simp add: row_upd_where_def)
  have sub: "set (map w_id (take n (portfolio_wallets w1 (u_id u))))
      \<subseteq> w_id ` {x \<in> set (wallets w). counts_for_portfolio (u_id u) x}" for n
    using set_take_subset [of n "portfolio_wallets w1 (u_id u)"]
    by (auto simp: portfolio_wallets_def ws)
  show ?thesis
  proof (cases "\<exists>r. enforce_for_user c w u dry = (r, w1)")
    case True
    then show ?thesis using t none ws by (intro exI [of _ "[]"]) (auto simp: self)
  next
    case False
    then obtain n where n: "snd (enforce_for_user c w u dry) = wallets_update (row_upd_where
        (\<lambda>x. w_id x \<in> set (map w_id (take n (portfolio_wallets w1 (u_id u))))) archive_surplus) w1"
      by (auto simp: enforce_for_user_def g Let_def split: sum.splits if_splits)
    show ?thesis
      using up sub [of n] ws n
      by (intro exI [of _ "map w_id (take n (portfolio_wallets w1 (u_id u)))"]) simp
  qed
qed

lemma enforce_users [simp]:
  "users (snd (enforce_for_user c w u dry)) = users w"
  "plans (snd (enforce_for_user c w u dry)) = plans w"
  using enforce_tables [of w c u dry] same_tablesD(1,3) by fastforce+

lemma enforce_quiet_users [simp]:
  "users (enforce_quiet c w u) = users w" "plans (enforce_quiet c w u) = plans w"
  by (simp_all add: enforce_quiet_def)

lemma enforce_quiet_tables [simp]:
  "payments (enforce_quiet c w u) = payments w" "promos (enforce_quiet c w u) = promos w"
  "promo_usages (enforce_quiet c w u) = promo_usages w" "periods (enforce_quiet c w u) = periods w"
  "earnings (enforce_quiet c w u) = earnings w" "payouts (enforce_quiet c w u) = payouts w"
  "codes (enforce_quiet c w u) = codes w" "regs (enforce_quiet c w u) = regs w"
  "usages (enforce_quiet c w u) = usages w" "min_payout (enforce_quiet c w u) = min_payout w"
  unfolding enforce_quiet_def
  using enforce_tables [of w c u False] same_tablesD(4-13) by fastforce+

lemma enforce_quiet_run [simp]:
  "users (foldl (enforce_quiet c) w us) = users w" "plans (foldl (enforce_quiet c) w us) = plans w"
  by (induction us arbitrary: w) simp_all

lemma sample_coherent: "coherent sample_clock sample_world"
  by (simp add: coherent_def cache_get_def sample_world_def empty_world_def)

section \<open>Properties\<close>

text \<open>
  Quota. When a user has more active portfolio wallets than the effective limit
  allows, one enforcement leaves active exactly the newest ones, as many as the limit
  allows: the surplus dropped is the oldest-first prefix of the user's wallets.
\<close>

theorem enforce_keeps_newest:
  assumes "distinct (map w_id (wallets w))"
    and "effective_limits c w u = (Inr l, w1)" and "\<not> portfolio_unlimited l"
  shows "portfolio_wallets (snd (enforce_for_user c w u False)) (u_id u) =
     drop (length (portfolio_wallets w (u_id u)) - nat (el_portfolio_limit l))
       (portfolio_wallets w (u_id u)) \<and>
     int (length (portfolio_wallets (snd (enforce_for_user c w u False)) (u_id u)))
       \<le> el_portfolio_limit l"
proof -
  have cap: "0 \<le> el_portfolio_limit l"
    using assms(3) by (simp add: portfolio_unlimited_def is_unlimited_def)
  have t: "same_tables w w1" using same_tables_effective_limits [of w c u] by (simp add: assms(2))
  note ws = same_tablesD(2) [OF t] and pw = portfolio_wallets_tables [OF same_tablesD(2) [OF t]]
  have d: "distinct (map w_id (wallets w1))" using assms(1) ws by simp
  have "portfolio_wallets (snd (enforce_for_user c w u False)) (u_id u) =
     drop (length (portfolio_wallets w (u_id u)) - nat (el_portfolio_limit l))
       (portfolio_wallets w (u_id u))"
    using portfolio_wallets_after_archiving [OF d, of _ "u_id u"] assms(2,3) cap
    by (simp add: enforce_for_user_def Let_def pw)
  then show ?thesis using cap by simp
qed

theorem enforce_keeps_newest_witness:
  "\<exists>l w1. effective_limits sample_clock sample_world ann = (Inr l, w1) \<and> el_portfolio_limit l = 2 \<and>
     map w_id (portfolio_wallets (snd (enforce_for_user sample_clock sample_world ann False)) 1) = [2, 1]"
proof -
  have "case fst (effective_limits sample_clock sample_world ann) of
      Inl _ \<Rightarrow> False | Inr l \<Rightarrow> \<not> portfolio_unlimited l \<and> el_portfolio_limit l = 2"
    by code_simp
  then obtain l w1 where l: "effective_limits sample_clock sample_world ann = (Inr l, w1)"
      "\<not> portfolio_unlimited l" "el_portfolio_limit l = 2"
    by (cases "effective_limits sample_clock sample_world ann") (auto split: sum.splits)
  have "distinct (map w_id (wallets sample_world))" by code_simp
  then have "portfolio_wallets (snd (enforce_for_user sample_clock sample_world ann False)) (u_id ann) =
      drop (length (portfolio_wallets sample_world (u_id ann)) - nat 2) (portfolio_wallets sample_world (u_id ann))"
    using enforce_keeps_newest [of sample_world sample_clock ann l w1] l by simp
  moreover have "map w_id (drop (length (portfolio_wallets sample_world (u_id ann)) - nat 2)
      (portfolio_wallets sample_world (u_id ann))) = [2, 1]" by code_simp
  moreover have "u_id ann = 1" by code_simp
  ultimately show ?thesis using l by simp
qed

text \<open>
  Quota, the rest of the table. Enforcement never touches a wallet of another user,
  never adds or removes a row, and never changes any table but the wallets.
\<close>

theorem enforce_frame:
  "map w_id (wallets (snd (enforce_for_user c w u dry))) = map w_id (wallets w) \<and>
   same_tables w (wallets_update (\<lambda>_. wallets w) (snd (enforce_for_user c w u dry))) \<and>
   (distinct (map w_id (wallets w)) \<longrightarrow>
    filter (\<lambda>x. w_user_id x \<noteq> Some (u_id u)) (wallets (snd (enforce_for_user c w u dry)))
    = filter (\<lambda>x. w_user_id x \<noteq> Some (u_id u)) (wallets w))"
proof -
  obtain ids where i: "same_tables w (wallets_update (\<lambda>_. wallets w) (snd (enforce_for_user c w u dry)))"
      "wallets (snd (enforce_for_user c w u dry)) =
         row_upd_where (\<lambda>x. w_id x \<in> set ids) archive_surplus (wallets w)"
      "set ids \<subseteq> w_id ` {x \<in> set (wallets w). counts_for_portfolio (u_id u) x}"
    using enforce_tables [of w c u dry] by blast
  have o: "w_user_id (archive_surplus x) = w_user_id x" for x by (simp add: archive_surplus_def)
  have "filter (\<lambda>x. w_user_id x \<noteq> Some (u_id u)) (row_upd_where (\<lambda>x. w_id x \<in> set ids) archive_surplus xs)
      = filter (\<lambda>x. w_user_id x \<noteq> Some (u_id u)) xs"
    if "\<forall>x \<in> set xs. w_id x \<in> set ids \<longrightarrow> w_user_id x = Some (u_id u)" for xs
    using that by (induction xs) (auto simp: row_upd_where_def o)
  moreover have "w_user_id x = Some (u_id u)"
    if "distinct (map w_id (wallets w))" "x \<in> set (wallets w)" "w_id x \<in> set ids" for x
    using that i(3) unfolding distinct_map
    by (auto simp: counts_for_portfolio_def dest!: subsetD inj_onD)
  ultimately show ?thesis using i(1,2) by (auto simp: row_upd_where_map)
qed

theorem enforce_frame_witness:
  "distinct (map w_id (wallets sample_world)) \<and>
   filter (\<lambda>x. w_user_id x \<noteq> Some 1) (wallets (snd (enforce_for_user sample_clock sample_world ann False)))
     = [new_wallet 5 3 Portfolio 5]"
proof -
  have d: "distinct (map w_id (wallets sample_world))" by code_simp
  moreover have "filter (\<lambda>x. w_user_id x \<noteq> Some 1) (wallets sample_world) = [new_wallet 5 3 Portfolio 5]"
    by code_simp
  moreover have "u_id ann = 1" by code_simp
  ultimately show ?thesis using enforce_frame [of sample_clock sample_world ann False] by simp
qed

text \<open>
  Plan resolution refines its specification. Whenever the cache agrees with the
  database (it is empty, was just invalidated, or all its entries are a minute old), the
  limits resolved through the cache are those the tables determine.
\<close>

theorem limits_refine_tables:
  assumes "coherent c w"
  shows "fst (effective_limits c w u) = spec_limits c w u \<and> coherent c (invalidate_plan_cache w)"
  using assms effective_limits_spec by simp

theorem limits_refine_tables_witness:
  "coherent sample_clock sample_world \<and>
   (case fst (effective_limits sample_clock sample_world ann) of
      Inr l \<Rightarrow> el_is_expired l \<and> el_portfolio_limit l = 2 \<and> el_trade_delay_ms l = 500 | Inl _ \<Rightarrow> False)"
proof -
  have "case spec_limits sample_clock sample_world ann of
      Inr l \<Rightarrow> el_is_expired l \<and> el_portfolio_limit l = 2 \<and> el_trade_delay_ms l = 500 | Inl _ \<Rightarrow> False"
    by code_simp
  then show ?thesis using limits_refine_tables [OF sample_coherent, of ann] sample_coherent by simp
qed

text \<open>
  Admin deletion of a plan. The handler answers success for a plan that is not free,
  but the row it deactivates is the cache's detached copy: the plan table never changes.
\<close>

theorem admin_delete_plan_no_effect:
  "plans (snd (admin_delete_plan c w i)) = plans w \<and>
   (coherent c w \<longrightarrow> row_get pl_id (plans w) i = Some p \<longrightarrow> \<not> pl_is_free p \<longrightarrow>
    fst (admin_delete_plan c w i) = Inr ())"
proof -
  obtain r w1 where g: "get_plan c w i = (r, w1)" by (cases "get_plan c w i")
  have "plans w1 = plans w"
    using same_tablesD(3) [OF same_tables_lookup(1) [of w c i]] by (simp add: g)
  moreover have "coherent c w \<Longrightarrow> r = row_get pl_id (plans w) i"
    using lookups_coherent(1) [of c w i] by (simp add: g)
  ultimately show ?thesis
    by (auto simp: admin_delete_plan_def g delete_plan_def touch_cached_def
        invalidate_plan_cache_def split: option.splits)
qed

theorem admin_delete_plan_no_effect_witness:
  "fst (admin_delete_plan sample_clock sample_world 2) = Inr () \<and>
   plans (snd (admin_delete_plan sample_clock sample_world 2)) = plans sample_world"
proof -
  have "row_get pl_id (plans sample_world) 2 = Some sample_pro" "\<not> pl_is_free sample_pro"
    by (simp_all add: sample_world_def sample_plans)
  then show ?thesis
    using admin_delete_plan_no_effect [of sample_clock sample_world 2 sample_pro] sample_coherent by simp
qed

text \<open>
  Expiry. One pass moves every due user (expired, not an admin, not already on the
  free plan) to the free plan with no expiry and leaves every other account as it was; a
  second pass at the same time finds nothing to do.
\<close>

theorem run_once_settles:
  assumes "find (\<lambda>p. pl_is_free p \<and> pl_is_active p) (plans w) = Some free"
  shows "users (snd (run_once c w)) =
       map (\<lambda>u. if expiry_due c u \<and> \<not> on_plan free u then downgrade free u else u) (users w) \<and>
     fst (run_once c (snd (run_once c w))) = 0"
proof -
  let ?due = "\<lambda>u. expiry_due c u \<and> \<not> on_plan free u"
  have u: "users (snd (run_once c w)) = row_upd_where ?due (downgrade free) (users w)"
    and p: "plans (snd (run_once c w)) = plans w"
    using assms by (simp_all add: run_once_def Let_def)
  have "filter ?due (row_upd_where ?due (downgrade free) (users w)) = []"
    by (auto simp: row_upd_where_def filter_empty_conv expiry_due_def downgrade_def)
  then have "fst (run_once c (snd (run_once c w))) = 0"
    using assms u p by (simp add: run_once_def [of c "snd (run_once c w)"] Let_def)
  then show ?thesis using u by (simp add: row_upd_where_def)
qed

theorem run_once_settles_witness:
  "find (\<lambda>p. pl_is_free p \<and> pl_is_active p) (plans sample_world) = Some sample_free \<and>
   map u_plan (users (snd (run_once sample_clock sample_world))) = [''free'', ''pro'', ''basic'', ''basic''] \<and>
   fst (run_once sample_clock (snd (run_once sample_clock sample_world))) = 0"
proof -
  have f: "find (\<lambda>p. pl_is_free p \<and> pl_is_active p) (plans sample_world) = Some sample_free" by code_simp
  have "map u_plan (map (\<lambda>u. if expiry_due sample_clock u \<and> \<not> on_plan sample_free u
      then downgrade sample_free u else u) (users sample_world)) = [''free'', ''pro'', ''basic'', ''basic'']"
    by code_simp
  then show ?thesis using run_once_settles [OF f, of sample_clock] f by simp
qed

text \<open>
  Admin limits. An admin whose \<open>plan_expires_at\<close> lies in the past is limited by
  the free plan and the unlimited plan's grace value, although the admin override is
  meant to give the unlimited tier whatever the nominal plan.
\<close>

theorem admin_expired_is_limited:
  assumes "coherent c w" and "spec_user_plan w u = Inr own" and "u_is_admin u"
    and "find (\<lambda>p. pl_slug p = ''unlim'') (plans w) = Some unlim" and "\<not> pl_is_free unlim"
    and "u_plan_expires_at u = Some t" and "t \<le> utcnow c" and "query_free_plan w = Some free"
  shows "\<exists>l. fst (effective_limits c w u) = Inr l \<and> el_is_expired l \<and>
     el_portfolio_limit l = pl_portfolio_limit_grace unlim \<and>
     el_trade_delay_ms l = pl_trade_delay_ms free \<and>
     el_exchange_keys_per_venue l = pl_exchange_keys_per_venue free"
  using assms by (simp add: effective_limits_spec spec_limits_def limits_of_def plan_expired_def Let_def)

theorem admin_expired_is_limited_witness:
  "\<exists>l. fst (effective_limits sample_clock sample_world bob) = Inr l \<and> el_is_expired l \<and>
     el_portfolio_limit l = 4 \<and> el_trade_delay_ms l = 500"
proof -
  have h: "spec_user_plan sample_world bob = Inr sample_pro" "u_is_admin bob"
      "find (\<lambda>p. pl_slug p = ''unlim'') (plans sample_world) = Some sample_unlim" "\<not> pl_is_free sample_unlim"
      "u_plan_expires_at bob = Some (days_us 50)" "days_us 50 \<le> utcnow sample_clock"
      "query_free_plan sample_world = Some sample_free"
    by code_simp+
  have "pl_portfolio_limit_grace sample_unlim = 4" "pl_trade_delay_ms sample_free = 500" by code_simp+
  then show ?thesis using admin_expired_is_limited [OF sample_coherent h] by auto
qed

end
