(* ===== verification/Periods.thy ===== *)
theory Periods
  imports Samples
begin

text \<open>
  The billing-period catalogue of \<^verbatim>\<open>backend/services/billing_period_service.py\<close>: lookup,
  the price of a commitment, and the admin operations.
\<close>

definition list_periods :: "bool \<Rightarrow> world \<Rightarrow> billing_period list" where
  "list_periods only_active w =
     sort_key (\<lambda>p. (bp_sort_order p, bp_id p))
       (filter (\<lambda>p. only_active \<longrightarrow> bp_is_active p) (periods w))"

definition get_period :: "world \<Rightarrow> int \<Rightarrow> billing_period option" where
  "get_period w i = row_get bp_id (periods w) i"

definition get_period_by_slug :: "world \<Rightarrow> string \<Rightarrow> billing_period option" where
  "get_period_by_slug w s = find (\<lambda>p. bp_slug p = s) (periods w)"

definition compute_total :: "rat \<Rightarrow> billing_period \<Rightarrow> rat" where
  "compute_total base_monthly p =
     (let months = (if bp_months p = 0 then 1 else bp_months p)
      in quantize_half_up (base_monthly * of_int months * (100 - bp_discount_pct p) / 100))"

section \<open>Admin operations\<close>

definition alnum_slug :: "string \<Rightarrow> bool" where
  "alnum_slug s \<longleftrightarrow>
     (let t = filter (\<lambda>ch. ch \<noteq> CHR ''-'') (filter (\<lambda>ch. ch \<noteq> CHR ''_'') s)
      in t \<noteq> [] \<and> list_all is_alnum t)"

record period_fields =
  pf_label :: "string option"
  pf_months :: "int option"
  pf_discount :: "rat option"
  pf_sort_order :: "int option"
  pf_active :: "bool option"

datatype period_error = Bad_Slug | Slug_Exists | Months_Not_Positive

definition create_period :: "clock \<Rightarrow> world \<Rightarrow> string \<Rightarrow> period_fields \<Rightarrow> period_error + billing_period \<times> world" where
  "create_period c w slug f =
     (if slug = [] \<or> \<not> alnum_slug slug then Inl Bad_Slug
      else if get_period_by_slug w slug \<noteq> None then Inl Slug_Exists
      else if or_else (pf_months f) 0 \<le> 0 then Inl Months_Not_Positive
      else
        let p = \<lparr> bp_id = row_fresh bp_id (periods w), bp_slug = slug,
                  bp_label = (case pf_label f of Some l \<Rightarrow> if l = [] then title slug else l | None \<Rightarrow> title slug),
                  bp_months = or_else (pf_months f) 0,
                  bp_discount_pct = or_else (pf_discount f) 0,
                  bp_sort_order = or_else (pf_sort_order f) 0,
                  bp_is_active = (case pf_active f of Some b \<Rightarrow> b | None \<Rightarrow> True),
                  bp_created_at = utcnow c, bp_updated_at = utcnow c \<rparr>
        in Inr (p, periods_update (\<lambda>rs. rs @ [p]) w))"

datatype period_field =
  BF_Label string | BF_Months int | BF_Discount rat | BF_Sort_Order int | BF_Active bool
| BF_Other string

fun set_period_field :: "billing_period \<Rightarrow> period_field \<Rightarrow> billing_period" where
  "set_period_field p (BF_Label v) = p\<lparr>bp_label := v\<rparr>"
| "set_period_field p (BF_Months v) = p\<lparr>bp_months := v\<rparr>"
| "set_period_field p (BF_Discount v) = p\<lparr>bp_discount_pct := v\<rparr>"
| "set_period_field p (BF_Sort_Order v) = p\<lparr>bp_sort_order := v\<rparr>"
| "set_period_field p (BF_Active v) = p\<lparr>bp_is_active := v\<rparr>"
| "set_period_field p (BF_Other _) = p"

definition update_period :: "clock \<Rightarrow> world \<Rightarrow> int \<Rightarrow> period_field list \<Rightarrow> world" where
  "update_period c w i fs =
     periods_update (row_upd bp_id i (\<lambda>p. (foldl set_period_field p fs)\<lparr>bp_updated_at := utcnow c\<rparr>)) w"

definition delete_period :: "clock \<Rightarrow> world \<Rightarrow> int \<Rightarrow> world" where
  "delete_period c w i =
     periods_update (row_upd bp_id i (\<lambda>p. p\<lparr>bp_is_active := False, bp_updated_at := utcnow c\<rparr>)) w"

section \<open>The price of a commitment\<close>

lemma compute_total_cents [simp]: "is_cents (compute_total b p)"
  by (simp add: compute_total_def Let_def)

lemma compute_total_nonneg:
  assumes "0 \<le> b" "0 < bp_months p" "bp_discount_pct p \<le> 100"
  shows "0 \<le> compute_total b p"
  using assms by (auto simp: compute_total_def Let_def intro!: quantize_half_up_nonneg)

lemma compute_total_le_full:
  assumes "0 \<le> b" "0 < bp_months p" "0 \<le> bp_discount_pct p" "bp_discount_pct p \<le> 100"
  shows "compute_total b p \<le> quantize_half_up (b * of_int (bp_months p))"
proof -
  have "b * of_int (bp_months p) * (100 - bp_discount_pct p) \<le> b * of_int (bp_months p) * 100"
    using assms by (intro mult_left_mono) auto
  then show ?thesis
    using assms by (auto simp: compute_total_def Let_def intro!: quantize_half_up_mono)
qed

lemma compute_total_antimono:
  assumes "0 \<le> b" "0 < bp_months p" "bp_months q = bp_months p"
    and "bp_discount_pct p \<le> bp_discount_pct q"
  shows "compute_total b q \<le> compute_total b p"
proof -
  have "b * of_int (bp_months p) * (100 - bp_discount_pct q)
      \<le> b * of_int (bp_months p) * (100 - bp_discount_pct p)"
    using assms by (intro mult_left_mono) auto
  then show ?thesis
    using assms by (auto simp: compute_total_def Let_def intro!: quantize_half_up_mono divide_right_mono)
qed

lemma set_period_fields_id [simp]: "bp_id (foldl set_period_field p fs) = bp_id p"
proof (induction fs arbitrary: p)
  case (Cons f fs)
  then show ?case by (cases f) simp_all
qed simp

lemma created_period_listed:
  assumes "create_period c w slug f = Inr (p, w')" and "pf_active f \<noteq> Some False"
  shows "p \<in> set (list_periods True w')"
  using assms by (auto simp: create_period_def list_periods_def Let_def split: if_splits option.splits)

end
