(* ===== verification/Promo.thy ===== *)
theory Promo
  imports Samples
begin

text \<open>
  Promo codes, \<^verbatim>\<open>backend/services/promo_service.py\<close>: eligibility at checkout, the admin
  operations with their validation, and the per-code revenue statistics. A request body
  is a record of optional entries, so that an absent key and an explicit null differ
  where the code tells them apart.
\<close>

definition normalize_code :: "string \<Rightarrow> string" where
  "normalize_code s = upper (strip s)"

definition get_by_code :: "world \<Rightarrow> string \<Rightarrow> promo_code option" where
  "get_by_code w s = find (\<lambda>p. pc_code p = normalize_code s) (promos w)"

definition promo_uses_by :: "world \<Rightarrow> int \<Rightarrow> int \<Rightarrow> int" where
  "promo_uses_by w pid uid = count_over (\<lambda>r. pu_promo_code_id r = pid \<and> pu_user_id r = uid) (promo_usages w)"

definition is_eligible :: "clock \<Rightarrow> promo_code option \<Rightarrow> int \<Rightarrow> int option \<Rightarrow> world option \<Rightarrow> bool" where
  "is_eligible c promo plan_id user_id db =
     (case promo of
        None \<Rightarrow> False
      | Some p \<Rightarrow>
          if \<not> pc_is_active p then False
          else if (case pc_expires_at p of None \<Rightarrow> False | Some t \<Rightarrow> t \<le> utcnow c) then False
          else if (case pc_max_uses p of None \<Rightarrow> False | Some m \<Rightarrow> m \<le> pc_used_count p) then False
          else if (case pc_target_user_id p of None \<Rightarrow> False | Some t \<Rightarrow> user_id \<noteq> Some t) then False
          else if (case pc_applies_to_plan_ids p of
                     None \<Rightarrow> False | Some ids \<Rightarrow> ids \<noteq> [] \<and> plan_id \<notin> set ids) then False
          else (case (pc_per_user_max_uses p, user_id, db) of
                  (Some m, Some uid, Some w) \<Rightarrow> \<not> (0 < m \<and> m \<le> promo_uses_by w (pc_id p) uid)
                | _ \<Rightarrow> True))"

definition validate_for_plan :: "clock \<Rightarrow> world \<Rightarrow> string \<Rightarrow> int \<Rightarrow> int option \<Rightarrow> promo_code option" where
  "validate_for_plan c w code plan_id user_id =
     (let promo = get_by_code w code
      in if is_eligible c promo plan_id user_id (Some w) then promo else None)"

section \<open>Admin operations\<close>

datatype raw = Raw_None | Raw_Int int | Raw_Str string

definition int_of_raw :: "raw \<Rightarrow> int option" where
  "int_of_raw r = (case r of Raw_None \<Rightarrow> None | Raw_Int n \<Rightarrow> Some n | Raw_Str s \<Rightarrow> parse_int s)"

definition raw_unset :: "raw \<Rightarrow> bool" where
  "raw_unset r \<longleftrightarrow> r = Raw_None \<or> r = Raw_Str [] \<or> r = Raw_Int 0 \<or> r = Raw_Str ''0''"

datatype promo_error =
  Bonus_Not_Integer | Bonus_Negative | Bonus_Too_Large
| Per_User_Not_Integer | Per_User_Negative | Per_User_Too_Large
| Code_Required | Code_Exists | Discount_Range | Grants_Nothing | Target_Not_Integer | Db_Rejects

definition coerce_bonus_days :: "raw \<Rightarrow> promo_error + int" where
  "coerce_bonus_days r =
     (case (if r = Raw_None \<or> r = Raw_Str [] then Some 0 else int_of_raw r) of
        None \<Rightarrow> Inl Bonus_Not_Integer
      | Some n \<Rightarrow> if n < 0 then Inl Bonus_Negative
                  else if 3650 < n then Inl Bonus_Too_Large else Inr n)"

definition coerce_per_user :: "raw \<Rightarrow> promo_error + int option" where
  "coerce_per_user r =
     (if raw_unset r then Inr None
      else case int_of_raw r of
        None \<Rightarrow> Inl Per_User_Not_Integer
      | Some n \<Rightarrow> if n < 0 then Inl Per_User_Negative
                  else if 100 < n then Inl Per_User_Too_Large else Inr (Some n))"

definition coerce_target :: "raw \<Rightarrow> promo_error + int option" where
  "coerce_target r =
     (if raw_unset r then Inr None
      else case int_of_raw r of None \<Rightarrow> Inl Target_Not_Integer | Some n \<Rightarrow> Inr (Some n))"

record promo_fields =
  in_discount :: "rat option option"
  in_bonus_days :: "raw option"
  in_max_uses :: "int option option"
  in_per_user :: "raw option"
  in_target :: "raw option"
  in_plans :: "int list option option"
  in_active :: "bool option"
  in_expires :: "time option option"

definition no_fields :: promo_fields where
  "no_fields = \<lparr> in_discount = None, in_bonus_days = None, in_max_uses = None,
     in_per_user = None, in_target = None, in_plans = None, in_active = None, in_expires = None \<rparr>"

text \<open>
  On creation the target is stored as given; a string that is not empty does not fit the
  integer column.
\<close>

definition create_target :: "raw option \<Rightarrow> promo_error + int option" where
  "create_target r =
     (case r of
        Some (Raw_Str s) \<Rightarrow> if s = [] then Inr None else Inl Db_Rejects
      | Some (Raw_Int n) \<Rightarrow> Inr (if n = 0 then None else Some n)
      | _ \<Rightarrow> Inr None)"

definition discount_in :: "rat \<Rightarrow> promo_error + rat" where
  "discount_in d =
     (let q = quantize_half_even d in if q < 0 \<or> 100 < q then Inl Discount_Range else Inr q)"

definition create_code :: "clock \<Rightarrow> world \<Rightarrow> string \<Rightarrow> promo_fields \<Rightarrow> promo_error + promo_code \<times> world" where
  "create_code c w code f =
     bind_res (guard_res Code_Required (normalize_code code \<noteq> [])) (\<lambda>_.
     bind_res (guard_res Code_Exists (get_by_code w (normalize_code code) = None)) (\<lambda>_.
     bind_res (discount_in (case in_discount f of Some (Some d) \<Rightarrow> d | _ \<Rightarrow> 0)) (\<lambda>discount.
     bind_res (coerce_bonus_days (case in_bonus_days f of Some r \<Rightarrow> r | None \<Rightarrow> Raw_None)) (\<lambda>bonus.
     bind_res (guard_res Grants_Nothing (\<not> (discount = 0 \<and> bonus = 0))) (\<lambda>_.
     bind_res (case in_per_user f of None \<Rightarrow> Inr (Some 1) | Some r \<Rightarrow> coerce_per_user r) (\<lambda>per_user.
     bind_res (create_target (in_target f)) (\<lambda>target.
       let p = \<lparr> pc_id = row_fresh pc_id (promos w), pc_code = normalize_code code,
            pc_discount_pct = discount, pc_bonus_days = bonus,
            pc_max_uses = (case in_max_uses f of Some m \<Rightarrow> m | None \<Rightarrow> None),
            pc_used_count = 0, pc_per_user_max_uses = per_user, pc_target_user_id = target,
            pc_applies_to_plan_ids =
              (case in_plans f of Some (Some ids) \<Rightarrow> if ids = [] then None else Some ids | _ \<Rightarrow> None),
            pc_is_active = (case in_active f of Some b \<Rightarrow> b | None \<Rightarrow> True),
            pc_expires_at = (case in_expires f of Some t \<Rightarrow> t | None \<Rightarrow> None),
            pc_created_at = utcnow c, pc_updated_at = utcnow c \<rparr>
       in Inr (p, promos_update (\<lambda>rs. rs @ [p]) w))))))))"

text \<open>
  \<open>update_code\<close> first rewrites the body's entries to their checked values, then checks
  what the row would grant, then assigns the entries present. A null discount passes the
  range check but the column is not nullable, so the commit fails.
\<close>

definition present :: "('a \<Rightarrow> 'e + 'b) \<Rightarrow> 'a option \<Rightarrow> 'e + 'b option" where
  "present g x = (case x of None \<Rightarrow> Inr None | Some v \<Rightarrow> bind_res (g v) (\<lambda>u. Inr (Some u)))"

definition opt_discount :: "rat option \<Rightarrow> promo_error + rat option" where
  "opt_discount d = (case d of None \<Rightarrow> Inr None | Some v \<Rightarrow> bind_res (discount_in v) (\<lambda>u. Inr (Some u)))"

definition set_if :: "'a option \<Rightarrow> 'a \<Rightarrow> 'a" where
  "set_if new old = (case new of Some v \<Rightarrow> v | None \<Rightarrow> old)"

definition edit_promo :: "clock \<Rightarrow> rat \<Rightarrow> int \<Rightarrow> int option option \<Rightarrow> int option option \<Rightarrow>
    promo_fields \<Rightarrow> promo_code \<Rightarrow> promo_code" where
  "edit_promo c discount bonus per_user target f p = p\<lparr>
     pc_discount_pct := discount, pc_bonus_days := bonus,
     pc_max_uses := set_if (in_max_uses f) (pc_max_uses p),
     pc_per_user_max_uses := set_if per_user (pc_per_user_max_uses p),
     pc_target_user_id := set_if target (pc_target_user_id p),
     pc_applies_to_plan_ids := set_if (in_plans f) (pc_applies_to_plan_ids p),
     pc_is_active := set_if (in_active f) (pc_is_active p),
     pc_expires_at := set_if (in_expires f) (pc_expires_at p),
     pc_updated_at := utcnow c\<rparr>"

definition update_code :: "clock \<Rightarrow> world \<Rightarrow> promo_code \<Rightarrow> promo_fields \<Rightarrow> promo_error + world" where
  "update_code c w promo f =
     bind_res (present coerce_bonus_days (in_bonus_days f)) (\<lambda>bonus.
     bind_res (present coerce_per_user (in_per_user f)) (\<lambda>per_user.
     bind_res (present coerce_target (in_target f)) (\<lambda>target.
     bind_res (present opt_discount (in_discount f)) (\<lambda>discount.
       let next_discount = set_if discount (Some (pc_discount_pct promo));
           next_bonus = set_if bonus (pc_bonus_days promo)
       in bind_res (guard_res Grants_Nothing (\<not> (or_else next_discount 0 = 0 \<and> next_bonus = 0))) (\<lambda>_.
          case next_discount of
            None \<Rightarrow> Inl Db_Rejects
          | Some d \<Rightarrow> Inr (promos_update (row_upd pc_id (pc_id promo)
                        (edit_promo c d next_bonus per_user target f)) w))))))"

text \<open>
  Deleting a code cascades in the database: its usage rows go with it
  (\<open>ondelete="CASCADE"\<close>) and payments that used it keep a null reference
  (\<open>ondelete="SET NULL"\<close>).
\<close>

definition delete_code :: "world \<Rightarrow> int \<Rightarrow> world" where
  "delete_code w pid = w\<lparr>
     promos := filter (\<lambda>p. pc_id p \<noteq> pid) (promos w),
     promo_usages := filter (\<lambda>r. pu_promo_code_id r \<noteq> pid) (promo_usages w),
     payments := row_upd_where (\<lambda>p. pay_promo_code_id p = Some pid)
                   (\<lambda>p. p\<lparr>pay_promo_code_id := None\<rparr>) (payments w)\<rparr>"

definition list_codes :: "bool \<Rightarrow> world \<Rightarrow> promo_code list" where
  "list_codes only_active w =
     sort_key (\<lambda>p. - pc_created_at p) (filter (\<lambda>p. only_active \<longrightarrow> pc_is_active p) (promos w))"

text \<open>
  Revenue of a code: the inner join of payments and usage rows contributes a payment once
  per usage row.
\<close>

definition paid_revenue :: "world \<Rightarrow> int \<Rightarrow> rat" where
  "paid_revenue w pid =
     sum_list (map (\<lambda>r. sum_over (\<lambda>p. pay_id p = pu_payment_id r \<and> pay_status p = Pay_Paid)
                        pay_final_amount_usd (payments w))
       (filter (\<lambda>r. pu_promo_code_id r = pid) (promo_usages w)))"

definition stats :: "world \<Rightarrow> (promo_code \<times> rat) list" where
  "stats w = map (\<lambda>p. (p, paid_revenue w (pc_id p))) (promos w)"

section \<open>Eligibility\<close>

lemma normalize_idem [simp]: "normalize_code (normalize_code s) = normalize_code s"
proof -
  have sp: "is_space (upper_char ch) = is_space ch" for ch
    by (auto simp: is_space_def upper_char_def Let_def)
  have "dropWhile is_space (map upper_char t) = map upper_char (dropWhile is_space t)" for t
    by (induction t) (auto simp: sp)
  then have su: "strip (upper t) = upper (strip t)" for t
    by (simp add: strip_def upper_def rev_map)
  show ?thesis unfolding normalize_code_def su text_simps ..
qed

lemma get_by_code_normalize [simp]: "get_by_code w (normalize_code s) = get_by_code w s"
  by (simp add: get_by_code_def)

lemma validate_normalize [simp]:
  "validate_for_plan c w (normalize_code s) i u = validate_for_plan c w s i u"
  by (simp add: validate_for_plan_def Let_def)

lemma is_eligibleD:
  assumes "is_eligible c (Some p) i u (Some w)"
  shows "pc_is_active p"
    and "pc_expires_at p = Some t \<Longrightarrow> utcnow c < t"
    and "pc_max_uses p = Some m \<Longrightarrow> pc_used_count p < m"
    and "pc_target_user_id p = Some v \<Longrightarrow> u = Some v"
    and "pc_applies_to_plan_ids p = Some ids \<Longrightarrow> ids = [] \<or> i \<in> set ids"
    and "pc_per_user_max_uses p = Some k \<Longrightarrow> u = Some v \<Longrightarrow> k \<le> 0 \<or> promo_uses_by w (pc_id p) v < k"
  using assms by (auto simp: is_eligible_def split: if_splits option.splits)

section \<open>Well-formed codes\<close>

definition promo_wf :: "promo_code \<Rightarrow> bool" where
  "promo_wf p \<longleftrightarrow> 0 \<le> pc_discount_pct p \<and> pc_discount_pct p \<le> 100 \<and>
     0 \<le> pc_bonus_days p \<and> pc_bonus_days p \<le> 3650 \<and>
     (0 < pc_discount_pct p \<or> 0 < pc_bonus_days p) \<and>
     (case pc_per_user_max_uses p of None \<Rightarrow> True | Some n \<Rightarrow> 0 \<le> n \<and> n \<le> 100) \<and>
     normalize_code (pc_code p) = pc_code p \<and> pc_code p \<noteq> []"

definition promos_wf :: "world \<Rightarrow> bool" where
  "promos_wf w \<longleftrightarrow> (\<forall>p \<in> set (promos w). promo_wf p) \<and> distinct (map pc_code (promos w)) \<and>
     distinct (map pc_id (promos w))"

lemma coerce_bonus_days_Inr: "coerce_bonus_days r = Inr n \<Longrightarrow> 0 \<le> n \<and> n \<le> 3650"
  by (auto simp: coerce_bonus_days_def split: option.splits if_splits)

lemma coerce_per_user_Inr: "coerce_per_user r = Inr (Some n) \<Longrightarrow> 0 \<le> n \<and> n \<le> 100"
  by (auto simp: coerce_per_user_def split: option.splits if_splits)

lemma discount_in_Inr: "discount_in d = Inr q \<Longrightarrow> 0 \<le> q \<and> q \<le> 100"
  by (auto simp: discount_in_def Let_def split: if_splits)

lemma present_Inr:
  "present g x = Inr y \<longleftrightarrow>
     (case x of None \<Rightarrow> y = None | Some v \<Rightarrow> \<exists>u. g v = Inr u \<and> y = Some u)"
  by (auto simp: present_def bind_res_Inr split: option.splits)

lemma get_by_code_None: "get_by_code w s = None \<longleftrightarrow> normalize_code s \<notin> pc_code ` set (promos w)"
  unfolding get_by_code_def find_None_iff by (metis (mono_tags, lifting) image_iff)

lemma create_code_wf:
  assumes "create_code c w code f = Inr (p, w')" "promos_wf w"
  shows "promos_wf w'" "promo_wf p" "promos w' = promos w @ [p]"
proof -
  obtain d b k t where
    ne: "normalize_code code \<noteq> []" and new: "normalize_code code \<notin> pc_code ` set (promos w)" and
    d: "discount_in d = Inr (pc_discount_pct p)" and b: "coerce_bonus_days b = Inr (pc_bonus_days p)" and
    g: "\<not> (pc_discount_pct p = 0 \<and> pc_bonus_days p = 0)" and
    k: "(case in_per_user f of None \<Rightarrow> Inr (Some 1) | Some r \<Rightarrow> coerce_per_user r)
          = Inr (pc_per_user_max_uses p)" and
    p: "pc_code p = normalize_code code" "pc_id p = row_fresh pc_id (promos w)" and
    w': "w' = promos_update (\<lambda>rs. rs @ [p]) w"
    using assms(1) by (auto simp: create_code_def bind_res_Inr Let_def get_by_code_None)
  have "case pc_per_user_max_uses p of None \<Rightarrow> True | Some n \<Rightarrow> 0 \<le> n \<and> n \<le> 100"
    using k coerce_per_user_Inr by (auto split: option.splits)
  then show wf: "promo_wf p"
    using ne g discount_in_Inr [OF d] coerce_bonus_days_Inr [OF b]
    by (auto simp: promo_wf_def p)
  show "promos w' = promos w @ [p]" by (simp add: w')
  show "promos_wf w'"
    using assms(2) wf new p row_fresh_notin [of pc_id "promos w"] by (simp add: promos_wf_def w')
qed

lemma edit_promo_fields [simp]:
  "pc_id (edit_promo c d b k t f p) = pc_id p" "pc_code (edit_promo c d b k t f p) = pc_code p"
  by (simp_all add: edit_promo_def)

lemma update_code_form:
  assumes "update_code c w p f = Inr w'" "promo_wf p"
  obtains d b k t where
    "w' = promos_update (row_upd pc_id (pc_id p) (edit_promo c d b k t f)) w"
    "0 \<le> d" "d \<le> 100" "0 \<le> b" "b \<le> 3650" "0 < d \<or> 0 < b"
    "\<And>n. k = Some (Some n) \<Longrightarrow> 0 \<le> n \<and> n \<le> 100"
proof -
  obtain bo ko ta di d where
    bo: "present coerce_bonus_days (in_bonus_days f) = Inr bo" and
    ko: "present coerce_per_user (in_per_user f) = Inr ko" and
    di: "present opt_discount (in_discount f) = Inr di" and
    nd: "set_if di (Some (pc_discount_pct p)) = Some d" and
    g: "\<not> (d = 0 \<and> set_if bo (pc_bonus_days p) = 0)" and
    w': "w' = promos_update (row_upd pc_id (pc_id p)
           (edit_promo c d (set_if bo (pc_bonus_days p)) ko ta f)) w"
    using assms(1) by (auto simp: update_code_def bind_res_Inr Let_def split: option.splits)
  have d: "0 \<le> d \<and> d \<le> 100"
    using nd di assms(2) discount_in_Inr
    by (auto simp: present_Inr set_if_def opt_discount_def bind_res_Inr promo_wf_def split: option.splits)
  have b: "0 \<le> set_if bo (pc_bonus_days p) \<and> set_if bo (pc_bonus_days p) \<le> 3650"
    using bo assms(2) coerce_bonus_days_Inr
    by (auto simp: present_Inr set_if_def promo_wf_def split: option.splits)
  have k: "0 \<le> n \<and> n \<le> 100" if "ko = Some (Some n)" for n
    using ko that coerce_per_user_Inr by (auto simp: present_Inr split: option.splits)
  have "0 < d \<or> 0 < set_if bo (pc_bonus_days p)" using d b g by auto
  with d b k w' show thesis by (intro that) simp_all
qed

lemma update_code_wf:
  assumes "update_code c w p f = Inr w'" "promos_wf w" "p \<in> set (promos w)"
  shows "promos_wf w'"
proof -
  have "promo_wf p" using assms(2,3) by (simp add: promos_wf_def)
  then obtain d b k t where
    w': "w' = promos_update (row_upd pc_id (pc_id p) (edit_promo c d b k t f)) w" and
    r: "0 \<le> d" "d \<le> 100" "0 \<le> b" "b \<le> 3650" "0 < d \<or> 0 < b"
      "\<And>n. k = Some (Some n) \<Longrightarrow> 0 \<le> n \<and> n \<le> 100"
    using update_code_form [OF assms(1)] by blast
  have wf: "promo_wf (edit_promo c d b k t f q)" if "promo_wf q" for q
    using that r by (cases k) (auto simp: promo_wf_def edit_promo_def set_if_def split: option.splits)
  have "\<forall>q \<in> set (promos w'). promo_wf q"
    using assms(2) wf set_row_upd [of _ pc_id "pc_id p" "edit_promo c d b k t f" "promos w"]
    by (auto simp: promos_wf_def w')
  then show ?thesis
    using assms(2) by (simp add: promos_wf_def w' row_upd_map)
qed

lemma sample_promos_wf: "promos_wf sample_world"
  by code_simp

text \<open>A request for ten percent off, and an edit that raises the bonus.\<close>

definition ten_percent :: promo_fields where
  "ten_percent = no_fields\<lparr>in_discount := Some (Some 10)\<rparr>"

definition more_days :: promo_fields where
  "more_days = no_fields\<lparr>in_bonus_days := Some (Raw_Str ''14'')\<rparr>"

section \<open>Properties\<close>

text \<open>
  Creating a promo code. A code the service creates is in the catalogue under its
  normalised, unused name, grants a discount in [0, 100] or bonus days in [0, 3650] and
  at least one of the two, and leaves the catalogue well-formed.
\<close>

theorem create_code_correct:
  assumes "promos_wf w" and "create_code c w code f = Inr (p, w')"
  shows "promos_wf w' \<and> promos w' = promos w @ [p] \<and> promo_wf p \<and>
     get_by_code w code = None \<and> get_by_code w' code = Some p \<and>
     (in_per_user f = None \<longrightarrow> pc_per_user_max_uses p = Some 1)"
proof -
  note wf = create_code_wf [OF assms(2,1)]
  have n: "get_by_code w code = None" and pc: "pc_code p = normalize_code code"
    and k: "in_per_user f = None \<longrightarrow> pc_per_user_max_uses p = Some 1"
    using assms(2) by (auto simp: create_code_def bind_res_Inr Let_def)
  then have "get_by_code w' code = Some p"
    unfolding get_by_code_def wf(3) by (simp add: find_append)
  with wf n k show ?thesis by simp
qed

theorem create_code_correct_witness:
  "\<exists>p w'. create_code sample_clock sample_world '' spring '' ten_percent = Inr (p, w') \<and>
     get_by_code w' ''Spring'' = Some p \<and> pc_per_user_max_uses p = Some 1"
proof -
  have "case create_code sample_clock sample_world '' spring '' ten_percent of
      Inr (p, w') \<Rightarrow> pc_code p = ''SPRING'' | Inl _ \<Rightarrow> False"
    by code_simp
  then obtain p w' where c: "create_code sample_clock sample_world '' spring '' ten_percent = Inr (p, w')"
    by (auto split: sum.splits)
  have "in_per_user ten_percent = None" by code_simp
  moreover have "get_by_code w' ''Spring'' = get_by_code w' '' spring ''"
    by (simp add: get_by_code_def) (rule arg_cong [where f = "\<lambda>s. find (\<lambda>p. pc_code p = s) (promos w')"], code_simp)
  ultimately show ?thesis using create_code_correct [OF sample_promos_wf c] c by auto
qed

text \<open>
  Editing a promo code. Every accepted edit of a row of the catalogue keeps the
  catalogue well-formed: no edit can leave a code that grants nothing, or one outside
  the ranges of creation.
\<close>

theorem update_code_correct:
  assumes "promos_wf w" and "p \<in> set (promos w)" and "update_code c w p f = Inr w'"
  shows "promos_wf w' \<and> map pc_code (promos w') = map pc_code (promos w) \<and>
     promo_usages w' = promo_usages w"
proof -
  have "map pc_code (promos w') = map pc_code (promos w) \<and> promo_usages w' = promo_usages w"
    using assms(3)
    by (auto simp: update_code_def bind_res_Inr Let_def row_upd_map split: option.splits)
  with update_code_wf [OF assms(3,1,2)] show ?thesis by simp
qed

theorem update_code_correct_witness:
  "\<exists>w'. update_code sample_clock sample_world sample_promo more_days = Inr w' \<and> promos_wf w' \<and>
     map pc_bonus_days (promos w') = [14]"
proof -
  have "case update_code sample_clock sample_world sample_promo more_days of
      Inr w' \<Rightarrow> map pc_bonus_days (promos w') = [14] | Inl _ \<Rightarrow> False"
    by code_simp
  then obtain w' where u: "update_code sample_clock sample_world sample_promo more_days = Inr w'"
      "map pc_bonus_days (promos w') = [14]"
    by (auto split: sum.splits)
  have "sample_promo \<in> set (promos sample_world)" by (simp add: sample_world_def)
  then show ?thesis using update_code_correct [OF sample_promos_wf _ u(1)] u by simp
qed

text \<open>
  Redemption limits. A code that validates for a signed-in user is active and not
  expired, has uses left, is meant for that user and that plan, and the user's own
  redemptions are below the per-user cap.
\<close>

theorem validate_sound:
  assumes "validate_for_plan c w code i (Some u) = Some p"
  shows "p \<in> set (promos w) \<and> pc_code p = normalize_code code \<and> pc_is_active p \<and>
     (case pc_expires_at p of None \<Rightarrow> True | Some t \<Rightarrow> utcnow c < t) \<and>
     (case pc_max_uses p of None \<Rightarrow> True | Some m \<Rightarrow> pc_used_count p < m) \<and>
     (case pc_target_user_id p of None \<Rightarrow> True | Some v \<Rightarrow> v = u) \<and>
     (case pc_applies_to_plan_ids p of None \<Rightarrow> True | Some ids \<Rightarrow> ids = [] \<or> i \<in> set ids) \<and>
     (case pc_per_user_max_uses p of None \<Rightarrow> True | Some k \<Rightarrow> k \<le> 0 \<or> promo_uses_by w (pc_id p) u < k)"
proof -
  have g: "get_by_code w code = Some p" and e: "is_eligible c (Some p) i (Some u) (Some w)"
    using assms by (auto simp: validate_for_plan_def Let_def split: if_splits)
  have "p \<in> set (promos w) \<and> pc_code p = normalize_code code"
    using g by (auto simp: get_by_code_def find_Some_iff)
  moreover have "k \<le> 0 \<or> promo_uses_by w (pc_id p) u < k" if "pc_per_user_max_uses p = Some k" for k
    using is_eligibleD(6) [OF e that] by simp
  ultimately show ?thesis
    using is_eligibleD(1-5) [OF e] by (auto split: option.splits)
qed

theorem validate_sound_witness:
  "validate_for_plan sample_clock sample_world ''early'' 2 (Some 4) = Some sample_promo \<and>
   pc_code sample_promo = normalize_code ''early'' \<and> promo_uses_by sample_world 1 4 < 1"
proof -
  have v: "validate_for_plan sample_clock sample_world ''early'' 2 (Some 4) = Some sample_promo" by code_simp
  have "pc_per_user_max_uses sample_promo = Some 1" "pc_id sample_promo = 1" by code_simp+
  then show ?thesis using validate_sound [OF v] v by simp
qed

text \<open>
  Anonymous validation. Without a user the per-user cap is not enforced at all: a
  code that a user may redeem at most \<open>k\<close> times validates for an anonymous caller
  whatever the cap and the redemptions, although the documentation says that such a code
  cannot be claimed without a session.
\<close>

theorem anonymous_ignores_per_user_cap:
  "is_eligible c (Some (p\<lparr>pc_per_user_max_uses := k\<rparr>)) i None (Some w) =
   is_eligible c (Some (p\<lparr>pc_per_user_max_uses := None\<rparr>)) i None (Some w)"
  by (simp add: is_eligible_def split: option.splits)

text \<open>
  Deleting a promo code. The code and every row of its usage ledger disappear and
  payments lose their reference, so the revenue of the code becomes zero; rows of other
  codes stay.
\<close>

theorem delete_code_cascades:
  "get_by_code (delete_code w (pc_id p)) (pc_code p) \<noteq> Some p \<and>
   paid_revenue (delete_code w (pc_id p)) (pc_id p) = 0 \<and>
   (\<forall>u. promo_uses_by (delete_code w (pc_id p)) (pc_id p) u = 0) \<and>
   (\<forall>q u. q \<noteq> pc_id p \<longrightarrow> promo_uses_by (delete_code w (pc_id p)) q u = promo_uses_by w q u)"
proof (intro conjI allI impI)
  show "get_by_code (delete_code w (pc_id p)) (pc_code p) \<noteq> Some p"
    by (auto simp: get_by_code_def delete_code_def find_Some_iff dest: nth_mem)
  show "paid_revenue (delete_code w (pc_id p)) (pc_id p) = 0"
    by (simp add: paid_revenue_def delete_code_def)
  show "promo_uses_by (delete_code w (pc_id p)) (pc_id p) u = 0" for u
    by (simp add: promo_uses_by_def count_over_def delete_code_def)
  show "promo_uses_by (delete_code w (pc_id p)) q u = promo_uses_by w q u" if "q \<noteq> pc_id p" for q u
    using that by (auto simp: promo_uses_by_def count_over_def delete_code_def intro!: arg_cong [where f = length] filter_cong)
qed

theorem delete_code_cascades_witness:
  "promo_uses_by (delete_code sample_world 1) 2 4 = promo_uses_by sample_world 2 4 \<and>
   get_by_code (delete_code sample_world 1) ''EARLY'' \<noteq> Some sample_promo"
proof -
  have "pc_id sample_promo = 1" "pc_code sample_promo = ''EARLY''" by code_simp+
  then show ?thesis using delete_code_cascades [of sample_world sample_promo] by simp
qed

end
