(* ===== verification/Ref_Codes.thy ===== *)
theory Ref_Codes
  imports Samples
begin

text \<open>
  Split-discount referral codes, \<^verbatim>\<open>backend/services/referral_code_service.py\<close>: the two
  create paths with their caps, binding a referee at signup, and the percentages that
  apply to a checkout. Inserting a code goes through the table's CHECK constraints and
  its unique index on the lower-cased code; inserting a registration through the unique
  constraint on the referee.
\<close>

definition global_cap_pct :: rat where "global_cap_pct = 45"
definition self_serve_cap_pct :: rat where "self_serve_cap_pct = 25"
definition codes_per_owner_max :: int where "codes_per_owner_max = 50"
definition registrations_cap :: int where "registrations_cap = 15"
definition usages_per_referee :: int where "usages_per_referee = 5"

lemmas caps = global_cap_pct_def self_serve_cap_pct_def codes_per_owner_max_def
  registrations_cap_def usages_per_referee_def

datatype code_error =
  Code_Service | Code_Format | Code_Taken | Pool_Cap_Exceeded | Owner_Code_Cap
| Registration_Cap | Self_Referral | Integrity

section \<open>Helpers\<close>

text \<open>A number of the request: what \<open>Decimal(str(v))\<close> makes of it, or a parse error.\<close>

datatype num_arg = Num rat | Not_A_Number

definition to_decimal :: "num_arg \<Rightarrow> code_error + rat" where
  "to_decimal v = (case v of Num d \<Rightarrow> Inr d | Not_A_Number \<Rightarrow> Inl Code_Format)"

definition code_char :: "char \<Rightarrow> bool" where
  "code_char ch \<longleftrightarrow> is_alnum ch \<or> ch = CHR ''_'' \<or> ch = CHR ''-''"

definition code_re :: "string \<Rightarrow> bool" where
  "code_re s \<longleftrightarrow> 4 \<le> length s \<and> length s \<le> 32 \<and> list_all code_char s"

definition validate_code_format :: "string \<Rightarrow> code_error + string" where
  "validate_code_format code =
     (let cleaned = strip code in if code_re cleaned then Inr cleaned else Inl Code_Format)"

definition find_code_by_string :: "world \<Rightarrow> string \<Rightarrow> referral_code option" where
  "find_code_by_string w s =
     (let l = lower (strip s)
      in if s = [] \<or> l = [] then None else find (\<lambda>r. lower (rc_code r) = l) (codes w))"

definition count_owner_codes :: "world \<Rightarrow> int \<Rightarrow> int" where
  "count_owner_codes w owner = count_over (\<lambda>r. rc_owner_id r = owner) (codes w)"

definition count_registrations :: "world \<Rightarrow> int \<Rightarrow> int" where
  "count_registrations w cid = count_over (\<lambda>r. rr_code_id r = cid) (regs w)"

definition count_non_reversed_usages :: "world \<Rightarrow> int \<Rightarrow> int \<Rightarrow> int" where
  "count_non_reversed_usages w cid referee =
     count_over (\<lambda>r. ru_code_id r = cid \<and> ru_referee_id r = referee \<and> ru_reversed_at r = None) (usages w)"

text \<open>
  \<open>candidates\<close> are the strings the random source yields; at most \<open>max_tries\<close> of them
  are drawn.
\<close>

definition generate_unique_code :: "world \<Rightarrow> string list \<Rightarrow> nat \<Rightarrow> code_error + string" where
  "generate_unique_code w candidates max_tries =
     (case find (\<lambda>s. find_code_by_string w s = None) (take max_tries candidates) of
        Some s \<Rightarrow> Inr s | None \<Rightarrow> Inl Code_Service)"

section \<open>Create paths\<close>

record code_payload =
  cp_code :: string
  cp_commission_pct :: rat
  cp_discount_pct :: rat

definition normalize_create_payload :: "string \<Rightarrow> num_arg \<Rightarrow> num_arg \<Rightarrow> code_error + code_payload" where
  "normalize_create_payload code comm disc =
     bind_res (validate_code_format code) (\<lambda>s.
     bind_res (to_decimal comm) (\<lambda>a.
     bind_res (to_decimal disc) (\<lambda>b.
     Inr \<lparr>cp_code = s, cp_commission_pct = a, cp_discount_pct = b\<rparr>)))"

definition insert_code :: "world \<Rightarrow> referral_code \<Rightarrow> code_error + world" where
  "insert_code w r =
     (if \<not> referral_code_checks r \<or> (\<exists>q \<in> set (codes w). lower (rc_code q) = lower (rc_code r))
      then Inl Integrity else Inr (codes_update (\<lambda>rs. rs @ [r]) w))"

definition create_self_serve_code ::
  "clock \<Rightarrow> world \<Rightarrow> int \<Rightarrow> string \<Rightarrow> num_arg \<Rightarrow> num_arg \<Rightarrow> code_error + referral_code \<times> world" where
  "create_self_serve_code c w owner code comm disc =
     bind_res (normalize_create_payload code comm disc) (\<lambda>p.
     bind_res (guard_res Pool_Cap_Exceeded
       (cp_commission_pct p + cp_discount_pct p \<le> self_serve_cap_pct)) (\<lambda>_.
     bind_res (guard_res Owner_Code_Cap (count_owner_codes w owner < codes_per_owner_max)) (\<lambda>_.
     bind_res (guard_res Code_Taken (find_code_by_string w (cp_code p) = None)) (\<lambda>_.
       let r = \<lparr> rc_id = row_fresh rc_id (codes w), rc_owner_id = owner, rc_code = cp_code p,
                 rc_commission_pct = cp_commission_pct p, rc_discount_pct = cp_discount_pct p,
                 rc_code_type = Self_Serve, rc_created_by_admin_id = None,
                 rc_created_at = utcnow c \<rparr>
       in bind_res (insert_code w r) (\<lambda>w'. Inr (r, w'))))))"

definition create_admin_code ::
  "clock \<Rightarrow> world \<Rightarrow> int \<Rightarrow> int option \<Rightarrow> string \<Rightarrow> num_arg \<Rightarrow> num_arg \<Rightarrow>
   code_error + referral_code \<times> world" where
  "create_admin_code c w admin owner code comm disc =
     bind_res (normalize_create_payload code comm disc) (\<lambda>p.
     bind_res (guard_res Pool_Cap_Exceeded
       (cp_commission_pct p + cp_discount_pct p \<le> global_cap_pct)) (\<lambda>_.
     bind_res (guard_res Code_Service
       (case owner of None \<Rightarrow> True | Some i \<Rightarrow> row_get u_id (users w) i \<noteq> None)) (\<lambda>_.
     let effective_owner = (case owner of Some i \<Rightarrow> i | None \<Rightarrow> admin) in
     bind_res (guard_res Owner_Code_Cap (count_owner_codes w effective_owner < codes_per_owner_max)) (\<lambda>_.
     bind_res (guard_res Code_Taken (find_code_by_string w (cp_code p) = None)) (\<lambda>_.
       let r = \<lparr> rc_id = row_fresh rc_id (codes w), rc_owner_id = effective_owner, rc_code = cp_code p,
                 rc_commission_pct = cp_commission_pct p, rc_discount_pct = cp_discount_pct p,
                 rc_code_type = Admin_Issued, rc_created_by_admin_id = Some admin,
                 rc_created_at = utcnow c \<rparr>
       in bind_res (insert_code w r) (\<lambda>w'. Inr (r, w')))))))"

section \<open>Registration\<close>

definition bind_referee :: "clock \<Rightarrow> world \<Rightarrow> int \<Rightarrow> string \<Rightarrow> code_error + referral_code option \<times> world" where
  "bind_referee c w referee raw_code =
     (case find_code_by_string w raw_code of
        None \<Rightarrow> Inr (None, w)
      | Some code \<Rightarrow>
          if rc_owner_id code = referee then Inl Self_Referral
          else if registrations_cap \<le> count_registrations w (rc_id code) then Inl Registration_Cap
          else if find (\<lambda>r. rr_referee_id r = referee) (regs w) \<noteq> None then Inl Code_Service
          else
            let r = \<lparr> rr_id = row_fresh rr_id (regs w), rr_code_id = rc_id code,
                      rr_referee_id = referee, rr_created_at = utcnow c \<rparr>
            in Inr (Some code,
                    users_update (row_upd u_id referee (\<lambda>u. u\<lparr>u_signup_code_id := Some (rc_id code)\<rparr>))
                      (regs_update (\<lambda>rs. rs @ [r]) w)))"

record owner_view =
  ov_id :: int
  ov_code :: string
  ov_code_type :: code_type
  ov_commission_pct :: rat
  ov_discount_pct :: rat
  ov_created_at :: time
  ov_created_by_admin_id :: "int option"
  ov_registrations_used :: int
  ov_registrations_remaining :: int

definition serialize_code_for_owner :: "world \<Rightarrow> referral_code \<Rightarrow> owner_view" where
  "serialize_code_for_owner w r = \<lparr> ov_id = rc_id r, ov_code = rc_code r,
     ov_code_type = rc_code_type r, ov_commission_pct = rc_commission_pct r,
     ov_discount_pct = rc_discount_pct r, ov_created_at = rc_created_at r,
     ov_created_by_admin_id = rc_created_by_admin_id r,
     ov_registrations_used = count_registrations w (rc_id r),
     ov_registrations_remaining = max 0 (registrations_cap - count_registrations w (rc_id r)) \<rparr>"

record code_preview =
  cv_code :: string
  cv_discount_pct :: rat
  cv_registrations_remaining :: int
  cv_is_open :: bool

definition serialize_code_for_preview :: "world \<Rightarrow> referral_code \<Rightarrow> code_preview" where
  "serialize_code_for_preview w r =
     (let used = count_registrations w (rc_id r)
      in \<lparr> cv_code = rc_code r, cv_discount_pct = rc_discount_pct r,
           cv_registrations_remaining = max 0 (registrations_cap - used),
           cv_is_open = (used < registrations_cap) \<rparr>)"

section \<open>Percentages\<close>

definition clamp_pct :: "rat \<Rightarrow> rat" where
  "clamp_pct raw = (if global_cap_pct < raw then global_cap_pct else if raw < 0 then 0 else raw)"

definition effective_discount_pct :: "referral_code option \<Rightarrow> int \<Rightarrow> rat" where
  "effective_discount_pct code used =
     (case code of None \<Rightarrow> 0
      | Some r \<Rightarrow> if usages_per_referee \<le> used then 0 else clamp_pct (rc_discount_pct r))"

definition effective_commission_pct :: "referral_code option \<Rightarrow> int \<Rightarrow> rat" where
  "effective_commission_pct code used =
     (case code of None \<Rightarrow> 0
      | Some r \<Rightarrow> if usages_per_referee \<le> used then 0 else clamp_pct (rc_commission_pct r))"

lemma clamp_pct_range: "0 \<le> clamp_pct x \<and> clamp_pct x \<le> 45"
  by (simp add: clamp_pct_def caps)

lemma clamp_pct_id: "0 \<le> x \<Longrightarrow> x \<le> 45 \<Longrightarrow> clamp_pct x = x"
  by (simp add: clamp_pct_def caps)

lemma effective_pct_range:
  "0 \<le> effective_discount_pct r n \<and> effective_discount_pct r n \<le> 45"
  "0 \<le> effective_commission_pct r n \<and> effective_commission_pct r n \<le> 45"
  using clamp_pct_range
  by (auto simp: effective_discount_pct_def effective_commission_pct_def split: option.splits)

section \<open>The invariant of the code tables\<close>

text \<open>
  \<open>code_row_ok\<close> is what every stored code satisfies; \<open>codes_inv\<close> adds what holds
  between rows: unique ids and lower-cased codes, the per-owner cap, the per-code cap on
  registrations, one registration per referee, and no owner registered under an own code.
\<close>

definition code_row_ok :: "referral_code \<Rightarrow> bool" where
  "code_row_ok r \<longleftrightarrow> referral_code_checks r \<and> code_re (rc_code r)"

definition codes_inv :: "world \<Rightarrow> bool" where
  "codes_inv w \<longleftrightarrow>
     (\<forall>r \<in> set (codes w). code_row_ok r) \<and>
     distinct (map rc_id (codes w)) \<and> distinct (map (\<lambda>r. lower (rc_code r)) (codes w)) \<and>
     (\<forall>owner. count_owner_codes w owner \<le> codes_per_owner_max) \<and>
     (\<forall>cid. count_registrations w cid \<le> registrations_cap) \<and>
     distinct (map rr_referee_id (regs w)) \<and>
     (\<forall>g \<in> set (regs w). \<forall>r \<in> set (codes w). rc_id r = rr_code_id g \<longrightarrow> rc_owner_id r \<noteq> rr_referee_id g) \<and>
     (\<forall>g \<in> set (regs w). \<exists>r \<in> set (codes w). rc_id r = rr_code_id g)"

datatype code_op =
  Self_Serve_Create clock int string num_arg num_arg
| Admin_Create clock int "int option" string num_arg num_arg
| Bind clock int string

fun code_step :: "world \<Rightarrow> code_op \<Rightarrow> world" where
  "code_step w (Self_Serve_Create c owner code comm disc) =
     (case create_self_serve_code c w owner code comm disc of Inl _ \<Rightarrow> w | Inr (_, w') \<Rightarrow> w')"
| "code_step w (Admin_Create c admin owner code comm disc) =
     (case create_admin_code c w admin owner code comm disc of Inl _ \<Rightarrow> w | Inr (_, w') \<Rightarrow> w')"
| "code_step w (Bind c referee code) =
     (case bind_referee c w referee code of Inl _ \<Rightarrow> w | Inr (_, w') \<Rightarrow> w')"

lemma validate_code_format_Inr:
  "validate_code_format s = Inr t \<Longrightarrow> t = strip s \<and> code_re t"
  by (auto simp: validate_code_format_def Let_def split: if_splits)

lemma payload_Inr:
  "normalize_create_payload s a b = Inr p \<Longrightarrow>
   cp_code p = strip s \<and> code_re (cp_code p) \<and> a = Num (cp_commission_pct p) \<and> b = Num (cp_discount_pct p)"
  by (auto simp: normalize_create_payload_def bind_res_Inr to_decimal_def
      dest!: validate_code_format_Inr split: num_arg.splits)

text \<open>A successful insert on a path that checked the owner's cap keeps the invariant.\<close>

lemma insert_code_inv:
  assumes "codes_inv w" "insert_code w r = Inr w'" "code_re (rc_code r)"
    and "rc_id r = row_fresh rc_id (codes w)" "count_owner_codes w (rc_owner_id r) < codes_per_owner_max"
  shows "codes_inv w'"
proof -
  have w': "w' = codes_update (\<lambda>rs. rs @ [r]) w" and ok: "code_row_ok r"
    and lo: "lower (rc_code r) \<notin> (\<lambda>q. lower (rc_code q)) ` set (codes w)"
    using assms(2,3) by (auto simp: insert_code_def code_row_ok_def image_iff split: if_splits)
  have fr: "rc_id r \<notin> rc_id ` set (codes w)"
    unfolding assms(4) by (rule row_fresh_notin)
  have "count_owner_codes w' o' \<le> codes_per_owner_max" for o'
    using assms(1,5) unfolding codes_inv_def w' count_owner_codes_def
    by (auto simp: count_over_append)
  moreover have "\<forall>g \<in> set (regs w). rr_code_id g \<noteq> rc_id r"
    using assms(1) fr by (auto simp: codes_inv_def) (metis image_eqI)
  ultimately show ?thesis
    using assms(1) ok lo fr
    by (auto simp: codes_inv_def w' count_registrations_def) 
qed

lemma create_self_serve_inv:
  assumes "codes_inv w" "create_self_serve_code c w owner code comm disc = Inr (r, w')"
  shows "codes_inv w'"
  using assms(2)
  by (auto simp: create_self_serve_code_def bind_res_Inr Let_def dest!: payload_Inr
      intro!: insert_code_inv [OF assms(1)])

lemma create_admin_inv:
  assumes "codes_inv w" "create_admin_code c w admin owner code comm disc = Inr (r, w')"
  shows "codes_inv w'"
  using assms(2)
  by (auto simp: create_admin_code_def bind_res_Inr Let_def dest!: payload_Inr
      intro!: insert_code_inv [OF assms(1)])

lemma find_code_Some:
  "find_code_by_string w s = Some r \<Longrightarrow>
   r \<in> set (codes w) \<and> lower (rc_code r) = lower (strip s) \<and> s \<noteq> [] \<and> strip s \<noteq> []"
  by (auto simp: find_code_by_string_def Let_def find_Some_iff lower_eq_Nil split: if_splits)

lemma find_code_None:
  "find_code_by_string w s = None \<longleftrightarrow>
   strip s = [] \<or> (\<forall>r \<in> set (codes w). lower (rc_code r) \<noteq> lower (strip s))"
  by (auto simp: find_code_by_string_def Let_def find_None_iff lower_eq_Nil strip_def)

lemma bind_referee_inv:
  assumes "codes_inv w" "bind_referee c w referee s = Inr (r, w')"
  shows "codes_inv w'"
proof (cases "find_code_by_string w s")
  case (Some code)
  have code: "code \<in> set (codes w)" "rc_owner_id code \<noteq> referee"
      "count_registrations w (rc_id code) < registrations_cap"
      "referee \<notin> rr_referee_id ` set (regs w)"
    and w': "codes w' = codes w" "regs w' = regs w @ [\<lparr> rr_id = row_fresh rr_id (regs w),
       rr_code_id = rc_id code, rr_referee_id = referee, rr_created_at = utcnow c \<rparr>]"
    using assms(2) find_code_Some [OF Some]
    by (auto simp: bind_referee_def Some Let_def find_None_iff split: if_splits)
  have "count_registrations w' i \<le> registrations_cap" for i
    using assms(1) code(3) by (auto simp: codes_inv_def count_registrations_def w' count_over_append)
  moreover have "rc_owner_id q \<noteq> referee" if "q \<in> set (codes w)" "rc_id q = rc_id code" for q
    using assms(1) code(1,2) that by (auto simp: codes_inv_def distinct_map dest: inj_onD)
  ultimately show ?thesis
    using assms(1) code by (auto simp: codes_inv_def w' count_owner_codes_def)
qed (use assms in \<open>simp add: bind_referee_def\<close>)

interpretation code_machine: inv_machine code_step codes_inv
proof unfold_locales
  fix w e assume inv: "codes_inv w"
  show "codes_inv (code_step w e)"
    using inv by (cases e) (auto split: sum.splits
        intro: create_self_serve_inv create_admin_inv bind_referee_inv)
qed

lemma codes_inv_empty: "codes_inv empty_world"
  by (simp add: codes_inv_def empty_world_def count_owner_codes_def count_registrations_def caps)

lemma regs_grow: "\<exists>new. regs (foldl code_step w es) = regs w @ new"
proof (induction es arbitrary: w)
  case (Cons e es)
  have "\<exists>new. regs (code_step w e) = regs w @ new"
    by (cases e)
      (auto simp: create_self_serve_code_def create_admin_code_def insert_code_def bind_referee_def
        bind_res_Inr Let_def split: sum.splits option.splits if_splits)
  with Cons [of "code_step w e"] show ?case by fastforce
qed simp

definition fresh_code :: "code_error + referral_code \<times> world" where
  "fresh_code = create_self_serve_code sample_clock sample_world 2 '' Bob-Code '' (Num 10) (Num 15)"

lemma fresh_code_ok: "\<exists>r w'. fresh_code = Inr (r, w')"
proof -
  have "case fresh_code of Inr _ \<Rightarrow> True | Inl _ \<Rightarrow> False" by code_simp
  then show ?thesis by (auto split: sum.splits)
qed

section \<open>Properties\<close>

text \<open>
  Caps hold in every run. Whatever sequence of self-serve creates, admin creates and
  signups runs from an empty database, accepted or rejected, the code tables satisfy the
  invariant: no code above the 45 % pool or above 25 % without an admin, no two codes
  equal up to case, at most 50 codes per owner, at most 15 registrations per code, one
  registration per referee, and no self-referral.
\<close>

theorem code_caps_reachable: "codes_inv (foldl code_step empty_world ops)"
  by (rule code_machine.run_inv) (rule codes_inv_empty)

text \<open>
  Self-serve creation accepts exactly the valid requests: a well-formed code that no
  existing code equals up to case, two numbers that are not negative with a pool of at
  most 25 %, and an owner below the cap.
\<close>

theorem self_serve_accepts_iff:
  "(\<exists>r w'. create_self_serve_code c w owner code comm disc = Inr (r, w')) \<longleftrightarrow>
   code_re (strip code) \<and>
   (\<exists>a b. comm = Num a \<and> disc = Num b \<and> 0 \<le> a \<and> 0 \<le> b \<and> a + b \<le> 25) \<and>
   count_owner_codes w owner < 50 \<and> find_code_by_string w code = None"
proof -
  have ne: "code_re s \<Longrightarrow> s \<noteq> []" for s by (auto simp: code_re_def)
  have same: "code_re (strip code) \<Longrightarrow>
      find_code_by_string w (strip code) = None \<longleftrightarrow> find_code_by_string w code = None"
    by (simp add: find_code_None strip_idem)
  have free: "code_re (strip code) \<Longrightarrow> find_code_by_string w code = None \<Longrightarrow>
      \<forall>q \<in> set (codes w). lower (rc_code q) \<noteq> lower (strip code)"
    using ne by (auto simp: find_code_None)
  show ?thesis
  proof
    assume "\<exists>r w'. create_self_serve_code c w owner code comm disc = Inr (r, w')"
    then show "code_re (strip code) \<and>
       (\<exists>a b. comm = Num a \<and> disc = Num b \<and> 0 \<le> a \<and> 0 \<le> b \<and> a + b \<le> 25) \<and>
       count_owner_codes w owner < 50 \<and> find_code_by_string w code = None"
      using same
      by (auto simp: create_self_serve_code_def bind_res_Inr Let_def caps insert_code_def
          referral_code_checks_def dest!: payload_Inr split: if_splits)
  next
    assume r: "code_re (strip code) \<and>
       (\<exists>a b. comm = Num a \<and> disc = Num b \<and> 0 \<le> a \<and> 0 \<le> b \<and> a + b \<le> 25) \<and>
       count_owner_codes w owner < 50 \<and> find_code_by_string w code = None"
    then show "\<exists>r w'. create_self_serve_code c w owner code comm disc = Inr (r, w')"
      using same free
      by (auto simp: create_self_serve_code_def normalize_create_payload_def validate_code_format_def
          to_decimal_def guard_res_def Let_def caps insert_code_def referral_code_checks_def)
  qed
qed

text \<open>
  Lookup after creation ignores case and surrounding white space: the code just
  created is found under any spelling that agrees with it up to those.
\<close>

theorem created_code_found:
  assumes "create_self_serve_code c w owner code comm disc = Inr (r, w')"
    and "lower (strip spelling) = lower (strip code)"
  shows "find_code_by_string w' spelling = Some r \<and> rc_code r = strip code \<and> rc_owner_id r = owner"
proof -
  have r: "rc_code r = strip code" "rc_owner_id r = owner" "codes w' = codes w @ [r]" "code_re (strip code)"
    and n: "find_code_by_string w (strip code) = None"
    using assms(1)
    by (auto simp: create_self_serve_code_def bind_res_Inr Let_def insert_code_def dest!: payload_Inr
        split: if_splits)
  have ne: "strip code \<noteq> []" using r(4) by (auto simp: code_re_def)
  then have "find (\<lambda>q. lower (rc_code q) = lower (strip code)) (codes w) = None"
    using n by (auto simp: find_code_None strip_idem find_None_iff)
  moreover have "spelling \<noteq> []" "lower (strip spelling) \<noteq> []"
    using assms(2) ne by (auto simp: lower_eq_Nil strip_def lower_def)
  ultimately show ?thesis
    using r assms(2) by (simp add: find_code_by_string_def Let_def find_append)
qed

theorem created_code_found_witness:
  "\<exists>r w'. create_self_serve_code sample_clock sample_world 2 '' Bob-Code '' (Num 10) (Num 15) = Inr (r, w') \<and>
     find_code_by_string w' ''BOB-CODE'' = Some r \<and> rc_owner_id r = 2"
proof -
  obtain r w' where r: "create_self_serve_code sample_clock sample_world 2 '' Bob-Code '' (Num 10) (Num 15) = Inr (r, w')"
    using fresh_code_ok by (auto simp: fresh_code_def)
  have "lower (strip ''BOB-CODE'') = lower (strip '' Bob-Code '')" by code_simp
  then show ?thesis using created_code_found [OF r] r by auto
qed

text \<open>
  The public preview tells the truth: for a code that exists, a signup of a user who
  is neither its owner nor already registered succeeds exactly when the preview says the
  code is open, and then takes one of the remaining registrations.
\<close>

theorem preview_agrees_with_bind:
  assumes "find_code_by_string w s = Some r" and "rc_owner_id r \<noteq> referee"
    and "referee \<notin> rr_referee_id ` set (regs w)"
  shows "(cv_is_open (serialize_code_for_preview w r) \<longleftrightarrow>
      (\<exists>w'. bind_referee c w referee s = Inr (Some r, w'))) \<and>
    (\<forall>w'. bind_referee c w referee s = Inr (Some r, w') \<longrightarrow>
      cv_registrations_remaining (serialize_code_for_preview w' r) + 1 =
      cv_registrations_remaining (serialize_code_for_preview w r))"
proof -
  have "find (\<lambda>g. rr_referee_id g = referee) (regs w) = None"
    using assms(3) by (auto simp: find_None_iff)
  then show ?thesis
    using assms(1,2)
    by (auto simp: serialize_code_for_preview_def bind_referee_def Let_def count_registrations_def
        count_over_append)
qed

theorem preview_agrees_with_bind_witness:
  "cv_is_open (serialize_code_for_preview sample_world sample_code) \<and>
   (\<exists>w'. bind_referee sample_clock sample_world 2 ''cat2024'' = Inr (Some sample_code, w') \<and>
      cv_registrations_remaining (serialize_code_for_preview w' sample_code) = 13)"
proof -
  have h: "find_code_by_string sample_world ''cat2024'' = Some sample_code" by code_simp
  have o: "rc_owner_id sample_code \<noteq> 2" by code_simp
  have r: "2 \<notin> rr_referee_id ` set (regs sample_world)" by code_simp
  have "cv_is_open (serialize_code_for_preview sample_world sample_code)"
       "cv_registrations_remaining (serialize_code_for_preview sample_world sample_code) = 14" by code_simp+
  then show ?thesis using preview_agrees_with_bind [OF h o r, of sample_clock] by force
qed

text \<open>
  A referee stays with the first code: once registered, no later operation changes
  the registration, and every later signup attempt of that user is refused or finds no
  code.
\<close>

theorem referee_bound_once:
  assumes "find (\<lambda>g. rr_referee_id g = referee) (regs w) = Some g"
  shows "find (\<lambda>g. rr_referee_id g = referee) (regs (foldl code_step w ops)) = Some g \<and>
    (\<forall>c s r w'. bind_referee c (foldl code_step w ops) referee s \<noteq> Inr (Some r, w'))"
proof -
  obtain new where "regs (foldl code_step w ops) = regs w @ new" using regs_grow by blast
  then have "find (\<lambda>g. rr_referee_id g = referee) (regs (foldl code_step w ops)) = Some g"
    using assms by (simp add: find_append)
  then show ?thesis by (auto simp: bind_referee_def split: option.splits)
qed

theorem referee_bound_once_witness:
  "find (\<lambda>g. rr_referee_id g = 4)
     (regs (foldl code_step sample_world [Bind sample_clock 4 ''cat2024''])) = Some sample_reg"
proof -
  have "find (\<lambda>g. rr_referee_id g = 4) (regs sample_world) = Some sample_reg" by code_simp
  then show ?thesis using referee_bound_once [of 4 sample_world sample_reg] by blast
qed

end
