(* ===== verification/Referral.thy ===== *)
theory Referral
  imports Samples
begin

text \<open>
  The referral ledger, \<^verbatim>\<open>backend/services/referral_service.py\<close>: crediting a commission,
  the balances, payout requests and their resolution, and the reversal of a commission
  after a refund.
\<close>

section \<open>Settings, addresses, codes\<close>

definition default_min_payout_usd :: rat where
  "default_min_payout_usd = 100"

definition get_referral_min_payout_usd :: "setting \<Rightarrow> rat option" where
  "get_referral_min_payout_usd s =
     (case s of
        Unreadable \<Rightarrow> None
      | Not_Number \<Rightarrow> Some (max 1 (min 10000 100))
      | Number v \<Rightarrow> Some (max 1 (min 10000 v)))"

definition current_min_payout_usd :: "world \<Rightarrow> rat" where
  "current_min_payout_usd w =
     (case get_referral_min_payout_usd (min_payout w) of Some v \<Rightarrow> v | None \<Rightarrow> default_min_payout_usd)"

definition base58_char :: "char \<Rightarrow> bool" where
  "base58_char ch \<longleftrightarrow> is_alnum ch \<and> ch \<notin> {CHR ''0'', CHR ''O'', CHR ''I'', CHR ''l''}"

definition verify_trc20_address :: "string \<Rightarrow> bool" where
  "verify_trc20_address addr =
     (case strip addr of
        [] \<Rightarrow> False
      | ch # cs \<Rightarrow> ch = CHR ''T'' \<and> length cs = 33 \<and> list_all base58_char cs)"

definition find_referrer_by_code :: "world \<Rightarrow> string \<Rightarrow> user option" where
  "find_referrer_by_code w code =
     (let norm = upper (strip code)
      in if code = [] \<or> norm = [] then None
         else find (\<lambda>u. case u_referral_code u of None \<Rightarrow> False | Some s \<Rightarrow> upper s = norm) (users w))"

text \<open>\<open>candidates\<close> are the codes the random source yields; at most eight are drawn.\<close>

definition ensure_referral_code :: "world \<Rightarrow> user \<Rightarrow> string list \<Rightarrow> unit + string \<times> world" where
  "ensure_referral_code w u candidates =
     (case u_referral_code u of
        Some (ch # cs) \<Rightarrow> Inr (ch # cs, w)
      | _ \<Rightarrow>
          (case find (\<lambda>s. \<not> (\<exists>q \<in> set (users w). map_option upper (u_referral_code q) = Some s))
                  (take 8 candidates) of
             None \<Rightarrow> Inl ()
           | Some s \<Rightarrow> Inr (s, users_update (row_upd u_id (u_id u) (\<lambda>q. q\<lparr>u_referral_code := Some s\<rparr>)) w)))"

definition default_commission_pct :: rat where
  "default_commission_pct = 20"

definition get_commission_pct :: "user \<Rightarrow> rat" where
  "get_commission_pct u =
     (case u_referral_pct_override u of Some v \<Rightarrow> max 0 (min 100 v) | None \<Rightarrow> default_commission_pct)"

section \<open>Credit\<close>

definition earning_row ::
  "clock \<Rightarrow> world \<Rightarrow> int \<Rightarrow> int option \<Rightarrow> int option \<Rightarrow> rat \<Rightarrow> rat \<Rightarrow> earning" where
  "earning_row c w referrer referee payment pct amount =
     \<lparr> re_id = row_fresh re_id (earnings w), re_referrer_id = referrer, re_referee_id = referee,
       re_payment_id = payment, re_pct = pct, re_amount_usd = amount,
       re_payout_request_id = None, re_reversed_at = None, re_reversal_reason = None,
       re_reversal_of_id = None, re_created_at = utcnow c \<rparr>"

definition earning_for_payment :: "world \<Rightarrow> int \<Rightarrow> earning option" where
  "earning_for_payment w pid = find (\<lambda>e. re_payment_id e = Some pid) (earnings w)"

definition credit_commission :: "clock \<Rightarrow> world \<Rightarrow> user \<Rightarrow> int \<Rightarrow> rat option \<Rightarrow> earning option \<times> world" where
  "credit_commission c w referee payment amount_usd =
     (case (u_referred_by_id referee, amount_usd) of
        (Some rid, Some amount) \<Rightarrow>
          if amount \<le> 0 then (None, w)
          else (case row_get u_id (users w) rid of
            None \<Rightarrow> (None, w)
          | Some referrer \<Rightarrow>
              if u_id referrer = u_id referee then (None, w)
              else (case earning_for_payment w payment of
                Some e \<Rightarrow> (Some e, w)
              | None \<Rightarrow>
                  let pct = get_commission_pct referrer;
                      commission = quantize_half_even (amount * pct / 100);
                      row = earning_row c w (u_id referrer) (Some (u_id referee)) (Some payment) pct commission
                  in if commission \<le> 0 then (None, w)
                     else (Some row, earnings_update (\<lambda>es. es @ [row]) w)))
      | _ \<Rightarrow> (None, w))"

section \<open>Balances\<close>

definition total_earned :: "world \<Rightarrow> int \<Rightarrow> rat" where
  "total_earned w uid = sum_over (\<lambda>e. re_referrer_id e = uid) re_amount_usd (earnings w)"

definition total_paid :: "world \<Rightarrow> int \<Rightarrow> rat" where
  "total_paid w uid =
     sum_over (\<lambda>p. po_user_id p = uid \<and> po_status p = PO_Completed) po_amount_usd (payouts w)"

definition total_pending :: "world \<Rightarrow> int \<Rightarrow> rat" where
  "total_pending w uid =
     sum_over (\<lambda>p. po_user_id p = uid \<and> po_status p = PO_Pending) po_amount_usd (payouts w)"

definition available_balance :: "world \<Rightarrow> int \<Rightarrow> rat" where
  "available_balance w uid =
     sum_over (\<lambda>e. re_referrer_id e = uid \<and> re_payout_request_id e = None) re_amount_usd (earnings w)"

definition referee_count :: "world \<Rightarrow> int \<Rightarrow> int" where
  "referee_count w uid = count_over (\<lambda>u. u_referred_by_id u = Some uid) (users w)"

definition has_pending_payout :: "world \<Rightarrow> int \<Rightarrow> bool" where
  "has_pending_payout w uid \<longleftrightarrow>
     find (\<lambda>p. po_user_id p = uid \<and> po_status p = PO_Pending) (payouts w) \<noteq> None"

definition list_unclaimed_earnings :: "world \<Rightarrow> int \<Rightarrow> earning list" where
  "list_unclaimed_earnings w uid = sort_key re_created_at
     (filter (\<lambda>e. re_referrer_id e = uid \<and> re_payout_request_id e = None) (earnings w))"

definition list_earnings_for_payout :: "world \<Rightarrow> int \<Rightarrow> earning list" where
  "list_earnings_for_payout w pid = sort_key re_created_at
     (filter (\<lambda>e. re_payout_request_id e = Some pid) (earnings w))"

section \<open>Payouts\<close>

datatype payout_error =
  Invalid_Address | Already_Pending | Refund_Debt rat | Below_Minimum rat
| Payout_Not_Found | Already_Resolved payout_status

definition link_earnings :: "int \<Rightarrow> int \<Rightarrow> earning list \<Rightarrow> earning list" where
  "link_earnings uid pid =
     row_upd_where (\<lambda>e. re_referrer_id e = uid \<and> re_payout_request_id e = None)
       (\<lambda>e. e\<lparr>re_payout_request_id := Some pid\<rparr>)"

definition unlink_payout :: "int \<Rightarrow> earning list \<Rightarrow> earning list" where
  "unlink_payout pid =
     row_upd_where (\<lambda>e. re_payout_request_id e = Some pid) (\<lambda>e. e\<lparr>re_payout_request_id := None\<rparr>)"

definition request_payout :: "clock \<Rightarrow> world \<Rightarrow> int \<Rightarrow> string \<Rightarrow> payout_error + payout \<times> world" where
  "request_payout c w uid address =
     (if \<not> verify_trc20_address address then Inl Invalid_Address
      else if has_pending_payout w uid then Inl Already_Pending
      else
        let amount = available_balance w uid; minimum = current_min_payout_usd w
        in if amount < 0 then Inl (Refund_Debt \<bar>amount\<bar>)
           else if amount < minimum then Inl (Below_Minimum minimum)
           else
             let req = \<lparr> po_id = row_fresh po_id (payouts w), po_user_id = uid,
                   po_amount_usd = amount, po_address = strip address, po_status = PO_Pending,
                   po_note = None, po_created_at = utcnow c, po_resolved_at = None \<rparr>
             in Inr (req, w\<lparr>
                  users := row_upd u_id uid
                    (\<lambda>u. u\<lparr>u_referral_payout_address := Some (strip address)\<rparr>) (users w),
                  payouts := payouts w @ [req],
                  earnings := link_earnings uid (po_id req) (earnings w)\<rparr>))"

definition resolve :: "clock \<Rightarrow> payout_status \<Rightarrow> string option \<Rightarrow> payout \<Rightarrow> payout" where
  "resolve c st note p = p\<lparr>po_status := st, po_note := note, po_resolved_at := Some (utcnow c)\<rparr>"

definition admin_complete_payout :: "clock \<Rightarrow> world \<Rightarrow> int \<Rightarrow> string option \<Rightarrow> payout_error + world" where
  "admin_complete_payout c w pid note =
     (case row_get po_id (payouts w) pid of
        None \<Rightarrow> Inl Payout_Not_Found
      | Some p \<Rightarrow>
          if po_status p \<noteq> PO_Pending then Inl (Already_Resolved (po_status p))
          else Inr (w\<lparr>payouts := row_upd po_id pid (resolve c PO_Completed note) (payouts w)\<rparr>))"

definition admin_cancel_payout :: "clock \<Rightarrow> world \<Rightarrow> int \<Rightarrow> string option \<Rightarrow> payout_error + world" where
  "admin_cancel_payout c w pid note =
     (case row_get po_id (payouts w) pid of
        None \<Rightarrow> Inl Payout_Not_Found
      | Some p \<Rightarrow>
          if po_status p \<noteq> PO_Pending then Inl (Already_Resolved (po_status p))
          else Inr (w\<lparr>payouts := row_upd po_id pid (resolve c PO_Cancelled note) (payouts w),
                      earnings := unlink_payout pid (earnings w)\<rparr>))"

section \<open>Reversal\<close>

datatype reversal_action =
  No_Earning | Already_Reversed | From_Unclaimed | From_Completed_Logged_Only
| From_Pending_Adjusted | From_Pending_Cancelled

definition original_earning :: "world \<Rightarrow> int \<Rightarrow> earning option" where
  "original_earning w pid =
     find (\<lambda>e. re_payment_id e = Some pid \<and> re_reversal_of_id e = None) (earnings w)"

text \<open>
  The preview: the action, the payout concerned, and its amount after the reversal. The
  source subtracts floats here; the model subtracts exactly.
\<close>

definition preview_reversal :: "world \<Rightarrow> int \<Rightarrow> reversal_action \<times> int option \<times> rat option" where
  "preview_reversal w pid =
     (case original_earning w pid of
        None \<Rightarrow> (No_Earning, None, None)
      | Some e \<Rightarrow>
          if re_reversed_at e \<noteq> None then (Already_Reversed, None, None)
          else (case re_payout_request_id e of
            None \<Rightarrow> (From_Unclaimed, None, None)
          | Some po \<Rightarrow>
              (case row_get po_id (payouts w) po of
                 None \<Rightarrow> (From_Unclaimed, None, None)
               | Some p \<Rightarrow>
                   if po_status p = PO_Completed then (From_Completed_Logged_Only, Some (po_id p), None)
                   else if po_status p = PO_Pending then
                     let new_amount = po_amount_usd p - re_amount_usd e
                     in if current_min_payout_usd w \<le> new_amount
                        then (From_Pending_Adjusted, Some (po_id p), Some new_amount)
                        else (From_Pending_Cancelled, Some (po_id p), Some new_amount)
                   else (From_Unclaimed, None, None))))"

record reversal_report =
  rv_action :: reversal_action
  rv_earning_id :: "int option"
  rv_payout_id :: "int option"
  rv_new_payout_amount :: "rat option"
  rv_sibling_id :: "int option"

definition reason_text :: "string option \<Rightarrow> string" where
  "reason_text r = take 500 (case r of Some s \<Rightarrow> s | None \<Rightarrow> [])"

definition stamp :: "clock \<Rightarrow> string option \<Rightarrow> earning \<Rightarrow> earning" where
  "stamp c reason e = e\<lparr>re_reversed_at := Some (utcnow c), re_reversal_reason := Some (reason_text reason)\<rparr>"

definition unlink :: "earning \<Rightarrow> earning" where
  "unlink e = e\<lparr>re_payout_request_id := None\<rparr>"

definition sibling :: "clock \<Rightarrow> earning list \<Rightarrow> string option \<Rightarrow> earning \<Rightarrow> earning" where
  "sibling c es reason e =
     \<lparr> re_id = row_fresh re_id es, re_referrer_id = re_referrer_id e,
       re_referee_id = re_referee_id e, re_payment_id = None, re_pct = re_pct e,
       re_amount_usd = - re_amount_usd e, re_payout_request_id = None, re_reversed_at = None,
       re_reversal_reason = Some (reason_text reason), re_reversal_of_id = Some (re_id e),
       re_created_at = utcnow c \<rparr>"

definition cancel_note :: "int \<Rightarrow> rat \<Rightarrow> rat \<Rightarrow> string" where
  "cancel_note pid new_amount floor_amount =
     ''auto-cancelled: refund of payment #'' @ int_str pid @ '' reduced amount to $'' @
     money_str new_amount @ '' (below $'' @ money_str floor_amount @ '')''"

text \<open>
  What happens to the original row and to its payout. In the branch that cancels a
  pending payout the assignments to the original are pending when \<open>db.refresh(earning)\<close>
  expires the instance, and expiring discards pending changes: the row keeps no
  \<open>reversed_at\<close> stamp.
\<close>

definition reverse_branch ::
  "clock \<Rightarrow> world \<Rightarrow> int \<Rightarrow> string option \<Rightarrow> earning \<Rightarrow>
   reversal_action \<times> int option \<times> rat option \<times> earning list \<times> payout list" where
  "reverse_branch c w pid reason e =
     (let stamped = (\<lambda>f. row_upd re_id (re_id e) (\<lambda>x. f (stamp c reason x)) (earnings w)) in
      case re_payout_request_id e of
        None \<Rightarrow> (From_Unclaimed, None, None, stamped id, payouts w)
      | Some po \<Rightarrow>
          (case row_get po_id (payouts w) po of
             None \<Rightarrow> (From_Unclaimed, None, None, stamped unlink, payouts w)
           | Some p \<Rightarrow>
               if po_status p = PO_Cancelled then (From_Unclaimed, None, None, stamped unlink, payouts w)
               else if po_status p = PO_Completed then
                 (From_Completed_Logged_Only, Some (po_id p), None, stamped id, payouts w)
               else if po_status p = PO_Pending then
                 let new_amount = po_amount_usd p - re_amount_usd e
                 in if current_min_payout_usd w \<le> new_amount
                    then (From_Pending_Adjusted, Some (po_id p), Some new_amount, stamped unlink,
                          row_upd po_id (po_id p) (\<lambda>q. q\<lparr>po_amount_usd := new_amount\<rparr>) (payouts w))
                    else (From_Pending_Cancelled, Some (po_id p), None,
                          unlink_payout (po_id p) (earnings w),
                          row_upd po_id (po_id p)
                            (resolve c PO_Cancelled (Some (cancel_note pid new_amount (current_min_payout_usd w))))
                            (payouts w))
               else (From_Unclaimed, None, None, stamped id, payouts w)))"

definition reverse_commission :: "clock \<Rightarrow> world \<Rightarrow> int \<Rightarrow> string option \<Rightarrow> reversal_report \<times> world" where
  "reverse_commission c w pid reason =
     (case original_earning w pid of
        None \<Rightarrow> (\<lparr>rv_action = No_Earning, rv_earning_id = None, rv_payout_id = None,
                  rv_new_payout_amount = None, rv_sibling_id = None\<rparr>, w)
      | Some e \<Rightarrow>
          if re_reversed_at e \<noteq> None
          then (\<lparr>rv_action = Already_Reversed, rv_earning_id = Some (re_id e), rv_payout_id = None,
                 rv_new_payout_amount = None, rv_sibling_id = None\<rparr>, w)
          else
            let (act, po, amt, es, ps) = reverse_branch c w pid reason e;
                sib = sibling c es reason e
            in (\<lparr>rv_action = act, rv_earning_id = Some (re_id e), rv_payout_id = po,
                 rv_new_payout_amount = amt, rv_sibling_id = Some (re_id sib)\<rparr>,
                w\<lparr>earnings := es @ [sib], payouts := ps\<rparr>))"

section \<open>The ledger invariant\<close>

definition active_status :: "payout_status \<Rightarrow> bool" where
  "active_status s \<longleftrightarrow> s = PO_Pending \<or> s = PO_Completed"

definition linked_sum :: "earning list \<Rightarrow> int \<Rightarrow> rat" where
  "linked_sum es pid = sum_over (\<lambda>e. re_payout_request_id e = Some pid) re_amount_usd es"

text \<open>
  Every claimed earning is claimed by a pending or completed payout of its referrer; such a
  payout is worth exactly what is linked to it, and at least one dollar; a user has at most
  one pending payout; ids and payment references are unique.
\<close>

definition links_ok :: "earning list \<Rightarrow> payout list \<Rightarrow> bool" where
  "links_ok es ps \<longleftrightarrow>
     (\<forall>e \<in> set es. \<forall>i. re_payout_request_id e = Some i \<longrightarrow>
        (\<exists>p \<in> set ps. po_id p = i \<and> po_user_id p = re_referrer_id e \<and> active_status (po_status p)))"

definition amounts_ok :: "earning list \<Rightarrow> payout list \<Rightarrow> bool" where
  "amounts_ok es ps \<longleftrightarrow>
     (\<forall>p \<in> set ps. active_status (po_status p) \<longrightarrow> po_amount_usd p = linked_sum es (po_id p))"

definition statuses_ok :: "payout list \<Rightarrow> bool" where
  "statuses_ok ps \<longleftrightarrow>
     (\<forall>p \<in> set ps. po_status p \<in> {PO_Pending, PO_Completed, PO_Cancelled} \<and> 1 \<le> po_amount_usd p) \<and>
     (\<forall>u. count_over (\<lambda>p. po_user_id p = u \<and> po_status p = PO_Pending) ps \<le> 1)"

definition payments_unique :: "earning list \<Rightarrow> bool" where
  "payments_unique es \<longleftrightarrow> distinct (filter (\<lambda>p. p \<noteq> None) (map re_payment_id es))"

definition ledger_ok :: "earning list \<Rightarrow> payout list \<Rightarrow> bool" where
  "ledger_ok es ps \<longleftrightarrow> distinct (map re_id es) \<and> distinct (map po_id ps) \<and> links_ok es ps \<and>
     amounts_ok es ps \<and> statuses_ok ps \<and> payments_unique es"

definition ledger_inv :: "world \<Rightarrow> bool" where
  "ledger_inv w \<longleftrightarrow> ledger_ok (earnings w) (payouts w)"

lemma linked_sum_append [simp]:
  "linked_sum (es @ [e]) i = linked_sum es i + (if re_payout_request_id e = Some i then re_amount_usd e else 0)"
  by (simp add: linked_sum_def sum_over_append)

text \<open>An unclaimed earning may be added at any time.\<close>

lemma ledger_ok_add:
  assumes "ledger_ok es ps" "re_id e \<notin> re_id ` set es" "re_payout_request_id e = None"
    and "re_payment_id e = None \<or> re_payment_id e \<notin> re_payment_id ` set es"
  shows "ledger_ok (es @ [e]) ps"
  using assms
  by (auto simp: ledger_ok_def links_ok_def amounts_ok_def payments_unique_def image_iff)

lemma unlink_payout_simps:
  "map re_id (unlink_payout i es) = map re_id es"
  "map re_payment_id (unlink_payout i es) = map re_payment_id es"
  "linked_sum (unlink_payout i es) j = (if j = i then 0 else linked_sum es j)"
  by (induction es) (auto simp: unlink_payout_def row_upd_where_def linked_sum_def)

lemma set_unlink_payout:
  "e \<in> set (unlink_payout i es) \<Longrightarrow> re_payout_request_id e = Some j \<Longrightarrow> e \<in> set es \<and> j \<noteq> i"
  by (auto simp: unlink_payout_def row_upd_where_def split: if_splits)

lemma row_upd_member: "q \<in> set rows \<Longrightarrow> (if key q = i then f q else q) \<in> set (row_upd key i f rows)"
  unfolding row_upd_def by force

lemma links_ok_transfer:
  assumes "links_ok es ps"
    and "\<And>x j. x \<in> set es' \<Longrightarrow> re_payout_request_id x = Some j \<Longrightarrow> P j \<and>
      (\<exists>e \<in> set es. re_payout_request_id e = Some j \<and> re_referrer_id e = re_referrer_id x)"
    and "\<And>q. q \<in> set ps \<Longrightarrow> active_status (po_status q) \<Longrightarrow> P (po_id q) \<Longrightarrow>
      \<exists>q' \<in> set ps'. po_id q' = po_id q \<and> po_user_id q' = po_user_id q \<and> active_status (po_status q')"
  shows "links_ok es' ps'"
  unfolding links_ok_def
proof (intro ballI allI impI)
  fix x j assume "x \<in> set es'" "re_payout_request_id x = Some j"
  with assms(2) obtain e where e: "P j" "e \<in> set es" "re_payout_request_id e = Some j"
      "re_referrer_id e = re_referrer_id x" by blast
  with assms(1) obtain q where q: "q \<in> set ps" "po_id q = j" "po_user_id q = re_referrer_id e"
      "active_status (po_status q)" unfolding links_ok_def by blast
  with assms(3) e show "\<exists>p \<in> set ps'. po_id p = j \<and> po_user_id p = re_referrer_id x \<and> active_status (po_status p)"
    by metis
qed

lemma cancel_ledger_ok:
  assumes "ledger_ok es ps" "row_get po_id ps i = Some p" "po_status p = PO_Pending"
  shows "ledger_ok (unlink_payout i es) (row_upd po_id i (resolve c PO_Cancelled note) ps)"
proof -
  have keys: "map po_id (row_upd po_id i (resolve c PO_Cancelled note) ps) = map po_id ps"
    by (rule row_upd_map) (simp add: resolve_def)
  have "links_ok (unlink_payout i es) (row_upd po_id i (resolve c PO_Cancelled note) ps)"
  proof (rule links_ok_transfer [where P = "\<lambda>j. j \<noteq> i"])
    show "links_ok es ps" using assms(1) by (simp add: ledger_ok_def)
    show "\<exists>q' \<in> set (row_upd po_id i (resolve c PO_Cancelled note) ps). po_id q' = po_id q \<and>
        po_user_id q' = po_user_id q \<and> active_status (po_status q')"
      if "q \<in> set ps" "active_status (po_status q)" "po_id q \<noteq> i" for q
      using row_upd_member [OF that(1), of po_id i] that by auto
  qed (use set_unlink_payout in blast)
  moreover have "amounts_ok (unlink_payout i es) (row_upd po_id i (resolve c PO_Cancelled note) ps)"
    using assms(1) unfolding ledger_ok_def amounts_ok_def
    by (auto simp: unlink_payout_simps resolve_def active_status_def dest!: set_row_upd)
  moreover have "statuses_ok (row_upd po_id i (resolve c PO_Cancelled note) ps)"
    using assms(1) unfolding ledger_ok_def statuses_ok_def
    by (auto simp: resolve_def dest!: set_row_upd
        intro: order_trans [OF count_over_upd_le] )
  ultimately show ?thesis
    using assms(1) by (simp add: ledger_ok_def keys unlink_payout_simps payments_unique_def)
qed

lemma complete_ledger_ok:
  assumes "ledger_ok es ps" "row_get po_id ps i = Some p" "po_status p = PO_Pending"
  shows "ledger_ok es (row_upd po_id i (resolve c PO_Completed note) ps)"
proof -
  have keys: "map po_id (row_upd po_id i (resolve c PO_Completed note) ps) = map po_id ps"
    by (rule row_upd_map) (simp add: resolve_def)
  have pend: "active_status (po_status q)" if "q \<in> set ps" "po_id q = i" for q
  proof -
    have "q = p" using assms(1,2) that row_get_unique [of po_id ps q] by (simp add: ledger_ok_def)
    then show ?thesis using assms(3) by (simp add: active_status_def)
  qed
  have "links_ok es (row_upd po_id i (resolve c PO_Completed note) ps)"
  proof (rule links_ok_transfer [where P = "\<lambda>_. True"])
    show "links_ok es ps" using assms(1) by (simp add: ledger_ok_def)
    show "\<exists>q' \<in> set (row_upd po_id i (resolve c PO_Completed note) ps). po_id q' = po_id q \<and>
        po_user_id q' = po_user_id q \<and> active_status (po_status q')"
      if "q \<in> set ps" "active_status (po_status q)" for q
      by (rule bexI [OF _ row_upd_member [OF that(1), of po_id i "resolve c PO_Completed note"]])
        (use that in \<open>simp add: resolve_def active_status_def\<close>)
  qed auto
  moreover have "amounts_ok es (row_upd po_id i (resolve c PO_Completed note) ps)"
    using assms(1) pend unfolding ledger_ok_def amounts_ok_def
    by (auto simp: resolve_def dest!: set_row_upd)
  moreover have "statuses_ok (row_upd po_id i (resolve c PO_Completed note) ps)"
    using assms(1) unfolding ledger_ok_def statuses_ok_def
    by (auto simp: resolve_def dest!: set_row_upd intro: order_trans [OF count_over_upd_le])
  ultimately show ?thesis
    using assms(1) by (simp add: ledger_ok_def keys)
qed

lemma link_earnings_simps:
  "map re_id (link_earnings u i es) = map re_id es"
  "map re_payment_id (link_earnings u i es) = map re_payment_id es"
  by (induction es) (auto simp: link_earnings_def row_upd_where_def)

lemma linked_sum_link:
  assumes "\<forall>e \<in> set es. re_payout_request_id e \<noteq> Some i"
  shows "linked_sum (link_earnings u i es) j =
     (if j = i then sum_over (\<lambda>e. re_referrer_id e = u \<and> re_payout_request_id e = None) re_amount_usd es
      else linked_sum es j)"
  using assms by (induction es) (auto simp: link_earnings_def row_upd_where_def linked_sum_def)

lemma request_ledger_ok:
  assumes "ledger_ok es ps" "\<forall>p \<in> set ps. po_user_id p = u \<longrightarrow> po_status p \<noteq> PO_Pending"
    and req: "po_id req = row_fresh po_id ps" "po_user_id req = u" "po_status req = PO_Pending"
      "po_amount_usd req = sum_over (\<lambda>e. re_referrer_id e = u \<and> re_payout_request_id e = None) re_amount_usd es"
      "1 \<le> po_amount_usd req"
  shows "ledger_ok (link_earnings u (po_id req) es) (ps @ [req])"
proof -
  have new: "po_id req \<notin> po_id ` set ps" unfolding req by (rule row_fresh_notin)
  have unl: "\<forall>e \<in> set es. re_payout_request_id e \<noteq> Some (po_id req)"
    using assms(1) new by (auto simp: ledger_ok_def links_ok_def image_iff) metis
  have "links_ok (link_earnings u (po_id req) es) (ps @ [req])"
    using assms(1) req unfolding ledger_ok_def links_ok_def
    by (fastforce simp: link_earnings_def row_upd_where_def active_status_def)
  moreover have "amounts_ok (link_earnings u (po_id req) es) (ps @ [req])"
    using assms(1) new req(4) unfolding ledger_ok_def amounts_ok_def
    by (auto simp: linked_sum_link [OF unl] image_iff)
  moreover have "statuses_ok (ps @ [req])"
  proof -
    have "count_over (\<lambda>p. po_user_id p = u \<and> po_status p = PO_Pending) ps = 0"
      using assms(2) by (auto simp: count_over_def filter_empty_conv)
    then show ?thesis
      using assms(1) req unfolding ledger_ok_def statuses_ok_def by (auto simp: count_over_append)
  qed
  ultimately show ?thesis
    using assms(1) new by (simp add: ledger_ok_def link_earnings_simps payments_unique_def)
qed

text \<open>Stamping, and unlinking one earning from a payout worth that much less.\<close>

lemma stamp_ledger_ok:
  assumes "ledger_ok es ps"
  shows "ledger_ok (row_upd re_id i (\<lambda>x. stamp c reason x) es) ps"
proof -
  have m: "map g (row_upd re_id i (\<lambda>x. stamp c reason x) es) = map g es"
    if "\<And>x. g (stamp c reason x) = g x" for g :: "earning \<Rightarrow> 'b"
    by (rule row_upd_map) (rule that)
  have "links_ok (row_upd re_id i (\<lambda>x. stamp c reason x) es) ps"
    using assms unfolding ledger_ok_def links_ok_def
    by (fastforce simp: stamp_def dest: set_row_upd)
  moreover have "linked_sum (row_upd re_id i (\<lambda>x. stamp c reason x) es) j = linked_sum es j" for j
    by (induction es) (auto simp: linked_sum_def stamp_def)
  ultimately show ?thesis
    using assms m [of re_id] m [of re_payment_id]
    by (simp add: ledger_ok_def amounts_ok_def payments_unique_def stamp_def)
qed

lemma adjust_ledger_ok:
  assumes ok: "ledger_ok es ps" and e: "e \<in> set es" "re_payout_request_id e = Some i"
    and p: "row_get po_id ps i = Some p" "po_status p = PO_Pending" "1 \<le> po_amount_usd p - re_amount_usd e"
  shows "ledger_ok (row_upd re_id (re_id e) unlink es)
     (row_upd po_id i (\<lambda>q. q\<lparr>po_amount_usd := po_amount_usd p - re_amount_usd e\<rparr>) ps)"
    (is "ledger_ok ?es ?ps")
proof -
  have d: "distinct (map re_id es)" "distinct (map po_id ps)" using ok by (simp_all add: ledger_ok_def)
  have pi: "p \<in> set ps" "po_id p = i" using row_get_Some [OF p(1)] by auto
  have only: "q = p" if "q \<in> set ps" "po_id q = i" for q
    using row_get_unique [OF d(2) that(1)] p(1) that(2) by simp
  have ge: "row_get re_id es (re_id e) = Some e" by (rule row_get_unique [OF d(1) e(1)])
  have ks: "map re_id ?es = map re_id es" "map re_payment_id ?es = map re_payment_id es"
      "map po_id ?ps = map po_id ps"
    by (auto intro!: row_upd_map simp: unlink_def)
  have ls: "linked_sum ?es j = linked_sum es j - (if j = i then re_amount_usd e else 0)" for j
    using sum_over_upd [OF d(1) ge] e(2) by (simp add: linked_sum_def unlink_def)
  have "links_ok ?es ?ps"
  proof (rule links_ok_transfer [where P = "\<lambda>_. True"])
    show "links_ok es ps" using ok by (simp add: ledger_ok_def)
    show "\<exists>q' \<in> set ?ps. po_id q' = po_id q \<and> po_user_id q' = po_user_id q \<and> active_status (po_status q')"
      if "q \<in> set ps" "active_status (po_status q)" for q
      by (rule bexI [OF _ row_upd_member [OF that(1)]]) (use that in simp)
  qed (auto simp: unlink_def dest!: set_row_upd)
  moreover have "amounts_ok ?es ?ps"
    unfolding amounts_ok_def ls
  proof (intro ballI impI)
    fix q assume q: "q \<in> set ?ps" "active_status (po_status q)"
    have am: "\<And>r. r \<in> set ps \<Longrightarrow> active_status (po_status r) \<Longrightarrow> po_amount_usd r = linked_sum es (po_id r)"
      using ok by (simp add: ledger_ok_def amounts_ok_def)
    from set_row_upd [OF q(1)] show "po_amount_usd q =
        linked_sum es (po_id q) - (if po_id q = i then re_amount_usd e else 0)"
    proof
      assume "q \<in> set ps \<and> po_id q \<noteq> i" then show ?thesis using am q(2) by simp
    next
      assume "\<exists>r \<in> set ps. po_id r = i \<and> q = r\<lparr>po_amount_usd := po_amount_usd p - re_amount_usd e\<rparr>"
      then obtain r where r: "r \<in> set ps" "po_id r = i"
          "q = r\<lparr>po_amount_usd := po_amount_usd p - re_amount_usd e\<rparr>" by blast
      with only q(2) have "r = p" by blast
      with r q(2) am [OF pi(1)] pi(2) show ?thesis by simp
    qed
  qed
  moreover have "statuses_ok ?ps"
  proof -
    have "count_over (\<lambda>p. po_user_id p = u \<and> po_status p = PO_Pending) ?ps =
        count_over (\<lambda>p. po_user_id p = u \<and> po_status p = PO_Pending) ps" for u
      by (rule count_over_upd_same) simp
    then show ?thesis
      using ok p(3) unfolding statuses_ok_def ledger_ok_def by (auto dest!: set_row_upd)
  qed
  ultimately show ?thesis
    using ok ks by (simp add: ledger_ok_def payments_unique_def)
qed

lemma row_upd_comp:
  "(\<And>r. key (g r) = key r) \<Longrightarrow> row_upd key i f (row_upd key i g rows) = row_upd key i (\<lambda>r. f (g r)) rows"
  by (induction rows) auto

lemma current_min_payout_ge: "1 \<le> current_min_payout_usd w"
  by (auto simp: current_min_payout_usd_def get_referral_min_payout_usd_def default_min_payout_usd_def
      split: setting.splits)

lemma original_earningD:
  assumes "original_earning w pid = Some e"
  shows "e \<in> set (earnings w)" "re_payment_id e = Some pid" "re_reversal_of_id e = None"
  using assms by (auto simp: original_earning_def find_Some_iff)

text \<open>Under the invariant the payout of a claimed earning is there, and pending or completed.\<close>

lemma claimed_payout:
  assumes "ledger_ok es ps" "e \<in> set es" "re_payout_request_id e = Some i"
  obtains p where "row_get po_id ps i = Some p" "po_user_id p = re_referrer_id e"
    "active_status (po_status p)" "po_id p = i"
proof -
  from assms obtain p where p: "p \<in> set ps" "po_id p = i" "po_user_id p = re_referrer_id e"
      "active_status (po_status p)"
    unfolding ledger_ok_def links_ok_def by blast
  have "row_get po_id ps (po_id p) = Some p"
    by (rule row_get_unique) (use assms(1) p in \<open>simp_all add: ledger_ok_def\<close>)
  with p that show ?thesis by blast
qed

text \<open>The four shapes a reversal takes on a ledger that satisfies the invariant.\<close>

lemma reverse_branch_cases:
  assumes "ledger_inv w" "e \<in> set (earnings w)"
  obtains (unclaimed) "re_payout_request_id e = None"
      "reverse_branch c w pid reason e = (From_Unclaimed, None, None,
         row_upd re_id (re_id e) (stamp c reason) (earnings w), payouts w)"
  | (completed) i p where "re_payout_request_id e = Some i" "row_get po_id (payouts w) i = Some p"
      "po_status p = PO_Completed"
      "reverse_branch c w pid reason e = (From_Completed_Logged_Only, Some i, None,
         row_upd re_id (re_id e) (stamp c reason) (earnings w), payouts w)"
  | (adjusted) i p where "re_payout_request_id e = Some i" "row_get po_id (payouts w) i = Some p"
      "po_status p = PO_Pending" "current_min_payout_usd w \<le> po_amount_usd p - re_amount_usd e"
      "reverse_branch c w pid reason e =
         (From_Pending_Adjusted, Some i, Some (po_amount_usd p - re_amount_usd e),
          row_upd re_id (re_id e) (stamp c reason) (row_upd re_id (re_id e) unlink (earnings w)),
          row_upd po_id i (\<lambda>q. q\<lparr>po_amount_usd := po_amount_usd p - re_amount_usd e\<rparr>) (payouts w))"
  | (cancelled) i p nt where "re_payout_request_id e = Some i" "row_get po_id (payouts w) i = Some p"
      "po_status p = PO_Pending" "po_amount_usd p - re_amount_usd e < current_min_payout_usd w"
      "reverse_branch c w pid reason e = (From_Pending_Cancelled, Some i, None,
          unlink_payout i (earnings w), row_upd po_id i (resolve c PO_Cancelled nt) (payouts w))"
proof (cases "re_payout_request_id e")
  case None
  then show ?thesis using unclaimed by (simp add: reverse_branch_def)
next
  case (Some i)
  with assms obtain p where p: "row_get po_id (payouts w) i = Some p"
      "active_status (po_status p)" "po_id p = i"
    unfolding ledger_inv_def by (blast elim: claimed_payout)
  have comp: "row_upd re_id (re_id e) (\<lambda>x. unlink (stamp c reason x)) (earnings w) =
      row_upd re_id (re_id e) (stamp c reason) (row_upd re_id (re_id e) unlink (earnings w))"
    by (subst row_upd_comp) (auto simp: row_upd_def unlink_def stamp_def)
  consider "po_status p = PO_Completed" | "po_status p = PO_Pending"
    using p(2) by (auto simp: active_status_def)
  then show ?thesis
  proof cases
    case 1
    then show ?thesis using completed Some p by (simp add: reverse_branch_def)
  next
    case 2
    show ?thesis
    proof (cases "current_min_payout_usd w \<le> po_amount_usd p - re_amount_usd e")
      case True
      with 2 Some p comp show ?thesis by (intro adjusted) (simp_all add: reverse_branch_def Let_def)
    next
      case False
      with 2 Some p show ?thesis
        by (intro cancelled [of i p "Some (cancel_note pid (po_amount_usd p - re_amount_usd e) (current_min_payout_usd w))"])
          (simp_all add: reverse_branch_def Let_def)
    qed
  qed
qed

lemma reverse_branch_ok:
  assumes inv: "ledger_inv w" and e: "e \<in> set (earnings w)"
    and b: "reverse_branch c w pid reason e = (act, po, amt, es, ps)"
  shows "ledger_ok es ps" "map re_id es = map re_id (earnings w)"
    "map re_amount_usd es = map re_amount_usd (earnings w)"
    "map re_referrer_id es = map re_referrer_id (earnings w)"
proof -
  have st: "map g (row_upd re_id i (stamp c reason) xs) = map g xs"
    if "\<And>x. g (stamp c reason x) = g x" for g :: "earning \<Rightarrow> 'b" and i xs
    using that by (rule row_upd_map)
  have ul: "map g (row_upd re_id i unlink xs) = map g xs"
    if "\<And>x. g (unlink x) = g x" for g :: "earning \<Rightarrow> 'b" and i xs
    using that by (rule row_upd_map)
  have up: "map g (unlink_payout i xs) = map g xs"
    if "\<And>x. g (x\<lparr>re_payout_request_id := None\<rparr>) = g x" for g :: "earning \<Rightarrow> 'b" and i xs
    unfolding unlink_payout_def using that by (rule row_upd_where_map)
  have "ledger_ok es ps \<and> map re_id es = map re_id (earnings w) \<and>
    map re_amount_usd es = map re_amount_usd (earnings w) \<and>
    map re_referrer_id es = map re_referrer_id (earnings w)"
  proof (rule reverse_branch_cases [OF inv e, of c pid reason], goal_cases)
    case 1
    then show ?case using b inv by (auto simp: ledger_inv_def st stamp_def intro: stamp_ledger_ok)
  next
    case (2 i p)
    then show ?case using b inv by (auto simp: ledger_inv_def st stamp_def intro: stamp_ledger_ok)
  next
    case (3 i p)
    then have "1 \<le> po_amount_usd p - re_amount_usd e" using current_min_payout_ge [of w] by linarith
    then have "ledger_ok es ps"
      using b 3 inv e by (auto simp: ledger_inv_def intro!: stamp_ledger_ok adjust_ledger_ok)
    then show ?case using b 3 by (auto simp: st ul stamp_def unlink_def)
  next
    case (4 i p nt)
    then show ?case using b inv by (auto simp: ledger_inv_def up intro: cancel_ledger_ok)
  qed
  then show "ledger_ok es ps" "map re_id es = map re_id (earnings w)"
    "map re_amount_usd es = map re_amount_usd (earnings w)"
    "map re_referrer_id es = map re_referrer_id (earnings w)" by auto
qed

lemma row_fresh_map: "map key rows = map key rows' \<Longrightarrow> row_fresh key rows = row_fresh key rows'"
  by (simp add: row_fresh_def)

lemma reverse_ledger_inv:
  assumes "ledger_inv w"
  shows "ledger_inv (snd (reverse_commission c w pid reason))"
proof (cases "original_earning w pid")
  case (Some e)
  note e = original_earningD [OF Some]
  obtain act po amt es ps where b: "reverse_branch c w pid reason e = (act, po, amt, es, ps)"
    by (cases "reverse_branch c w pid reason e") auto
  note ok = reverse_branch_ok [OF assms e(1) b]
  have "re_id (sibling c es reason e) \<notin> re_id ` set es"
    by (simp add: sibling_def row_fresh_notin)
  then have "ledger_ok (es @ [sibling c es reason e]) ps"
    by (intro ledger_ok_add ok) (auto simp: sibling_def)
  then show ?thesis
    using assms Some b by (simp add: reverse_commission_def ledger_inv_def Let_def)
qed (simp add: reverse_commission_def assms)

section \<open>The ledger machine\<close>

datatype ledger_op =
  Credit clock int int "rat option"
| Request clock int string
| Complete clock int "string option"
| Cancel clock int "string option"
| Reverse clock int "string option"
| Set_Min_Payout setting

fun ledger_step :: "world \<Rightarrow> ledger_op \<Rightarrow> world" where
  "ledger_step w (Credit c uid pid amount) =
     (case row_get u_id (users w) uid of None \<Rightarrow> w | Some u \<Rightarrow> snd (credit_commission c w u pid amount))"
| "ledger_step w (Request c uid address) =
     (case request_payout c w uid address of Inl _ \<Rightarrow> w | Inr (_, w') \<Rightarrow> w')"
| "ledger_step w (Complete c pid nt) = (case admin_complete_payout c w pid nt of Inl _ \<Rightarrow> w | Inr w' \<Rightarrow> w')"
| "ledger_step w (Cancel c pid nt) = (case admin_cancel_payout c w pid nt of Inl _ \<Rightarrow> w | Inr w' \<Rightarrow> w')"
| "ledger_step w (Reverse c pid reason) = snd (reverse_commission c w pid reason)"
| "ledger_step w (Set_Min_Payout v) = w\<lparr>min_payout := v\<rparr>"

lemma credit_ledger_inv:
  assumes "ledger_inv w"
  shows "ledger_inv (snd (credit_commission c w u pid amount))"
proof -
  have "ledger_ok (earnings w @ [earning_row c w i j (Some pid) pct a]) (payouts w)"
    if "earning_for_payment w pid = None" for i j pct a
  proof (rule ledger_ok_add)
    show "ledger_ok (earnings w) (payouts w)" using assms by (simp add: ledger_inv_def)
    show "re_payment_id (earning_row c w i j (Some pid) pct a) = None \<or>
        re_payment_id (earning_row c w i j (Some pid) pct a) \<notin> re_payment_id ` set (earnings w)"
      using that by (auto simp: earning_row_def earning_for_payment_def find_None_iff)
  qed (simp_all add: earning_row_def row_fresh_notin)
  then show ?thesis
    using assms by (auto simp: credit_commission_def ledger_inv_def Let_def split: option.splits)
qed

lemma no_pending: "\<not> has_pending_payout w u \<longleftrightarrow> (\<forall>p \<in> set (payouts w). po_user_id p = u \<longrightarrow> po_status p \<noteq> PO_Pending)"
  by (auto simp: has_pending_payout_def find_None_iff)

lemma request_payoutD:
  assumes "request_payout c w u addr = Inr (req, w')"
  shows "verify_trc20_address addr" "\<not> has_pending_payout w u"
    "current_min_payout_usd w \<le> available_balance w u"
    "po_id req = row_fresh po_id (payouts w)" "po_user_id req = u" "po_status req = PO_Pending"
    "po_amount_usd req = available_balance w u" "po_address req = strip addr"
    "payouts w' = payouts w @ [req]" "earnings w' = link_earnings u (po_id req) (earnings w)"
  using assms by (auto simp: request_payout_def Let_def split: if_splits)

lemma request_ledger_inv:
  assumes "ledger_inv w" "request_payout c w u addr = Inr (req, w')"
  shows "ledger_inv w'"
proof -
  note d = request_payoutD [OF assms(2)]
  have "ledger_ok (link_earnings u (po_id req) (earnings w)) (payouts w @ [req])"
  proof (rule request_ledger_ok)
    show "1 \<le> po_amount_usd req"
      using d(3,7) current_min_payout_ge [of w] by linarith
    show "\<forall>p \<in> set (payouts w). po_user_id p = u \<longrightarrow> po_status p \<noteq> PO_Pending"
      using d(2) no_pending by blast
  qed (use assms(1) d in \<open>simp_all add: ledger_inv_def available_balance_def\<close>)
  then show ?thesis using d by (simp add: ledger_inv_def)
qed

interpretation ledger_machine: inv_machine ledger_step ledger_inv
proof
  fix w e assume inv: "ledger_inv w"
  show "ledger_inv (ledger_step w e)"
  proof (cases e)
    case (Credit c uid pid amount)
    then show ?thesis using inv by (auto intro: credit_ledger_inv split: option.split)
  next
    case (Request c uid addr)
    then show ?thesis using inv by (auto intro: request_ledger_inv split: sum.split)
  next
    case (Complete c pid nt)
    then show ?thesis using inv
      by (auto simp: admin_complete_payout_def ledger_inv_def intro!: complete_ledger_ok
          split: sum.splits option.splits if_splits)
  next
    case (Cancel c pid nt)
    then show ?thesis using inv
      by (auto simp: admin_cancel_payout_def ledger_inv_def intro!: cancel_ledger_ok
          split: sum.splits option.splits if_splits)
  next
    case (Reverse c pid reason)
    then show ?thesis using inv by (simp add: reverse_ledger_inv)
  next
    case (Set_Min_Payout v)
    then show ?thesis using inv by (simp add: ledger_inv_def)
  qed
qed

section \<open>Double entry\<close>

text \<open>What is linked to the active payouts of a user is what the user has claimed.\<close>

definition claimed_total :: "payout list \<Rightarrow> int \<Rightarrow> earning list \<Rightarrow> rat" where
  "claimed_total ps u es =
     sum_list (map (\<lambda>p. linked_sum es (po_id p)) (filter (\<lambda>p. po_user_id p = u \<and> active_status (po_status p)) ps))"

lemma linked_sum_Cons:
  "linked_sum (e # es) i = (if re_payout_request_id e = Some i then re_amount_usd e else 0) + linked_sum es i"
  by (simp add: linked_sum_def)

lemma sum_one_payout:
  assumes "distinct (map po_id ps)"
  shows "sum_list (map (\<lambda>p. if j = Some (po_id p) then a else 0) (filter P ps)) =
    (if \<exists>p \<in> set ps. P p \<and> j = Some (po_id p) then a else (0::rat))"
  using assms
proof (induction ps)
  case (Cons q ps)
  then show ?case by (cases "j = Some (po_id q)") (auto simp: image_iff)
qed simp

lemma claimed_total_eq:
  assumes "distinct (map po_id ps)" "links_ok es ps"
  shows "claimed_total ps u es = sum_over (\<lambda>e. re_referrer_id e = u \<and> re_payout_request_id e \<noteq> None) re_amount_usd es"
  using assms(2)
proof (induction es)
  case Nil
  then show ?case by (simp add: claimed_total_def linked_sum_def)
next
  case (Cons e es)
  let ?P = "\<lambda>p. po_user_id p = u \<and> active_status (po_status p)"
  have "(\<exists>p \<in> set ps. ?P p \<and> re_payout_request_id e = Some (po_id p)) \<longleftrightarrow>
      re_referrer_id e = u \<and> re_payout_request_id e \<noteq> None" (is "?L = ?R")
  proof
    assume ?L
    then obtain p where p: "p \<in> set ps" "?P p" "re_payout_request_id e = Some (po_id p)" by blast
    with Cons.prems obtain q where "q \<in> set ps" "po_id q = po_id p" "po_user_id q = re_referrer_id e"
      unfolding links_ok_def by auto
    with p assms(1) show ?R by (metis distinct_map inj_on_eq_iff option.distinct(1))
  next
    assume ?R
    with Cons.prems show ?L unfolding links_ok_def by fastforce
  qed
  moreover have "claimed_total ps u (e # es) =
      sum_list (map (\<lambda>p. if re_payout_request_id e = Some (po_id p) then re_amount_usd e else 0) (filter ?P ps)) +
      claimed_total ps u es"
    by (simp add: claimed_total_def linked_sum_Cons sum_list_addf)
  moreover have "links_ok es ps" using Cons.prems by (simp add: links_ok_def)
  ultimately show ?case using Cons.IH by (simp add: sum_one_payout [OF assms(1)])
qed

lemma ledger_balance:
  assumes "ledger_inv w"
  shows "total_earned w u = total_paid w u + total_pending w u + available_balance w u"
proof -
  have ok: "distinct (map po_id (payouts w))" "links_ok (earnings w) (payouts w)"
      "amounts_ok (earnings w) (payouts w)"
    using assms by (simp_all add: ledger_inv_def ledger_ok_def)
  have "total_paid w u + total_pending w u =
      sum_over (\<lambda>p. po_user_id p = u \<and> active_status (po_status p)) po_amount_usd (payouts w)"
    unfolding total_paid_def total_pending_def
    by (subst sum_over_split [of "\<lambda>p. po_user_id p = u \<and> active_status (po_status p)" _ _ "\<lambda>p. po_status p = PO_Completed"])
      (auto simp: active_status_def intro!: arg_cong2 [where f = "(+)"] sum_over_cong)
  also have "\<dots> = claimed_total (payouts w) u (earnings w)"
    unfolding claimed_total_def sum_over_def
    by (rule arg_cong [where f = sum_list], rule map_cong) (use ok(3) in \<open>auto simp: amounts_ok_def\<close>)
  finally show ?thesis
    unfolding claimed_total_eq [OF ok(1,2)] total_earned_def available_balance_def
    by (subst sum_over_split [of _ _ _ "\<lambda>e. re_payout_request_id e \<noteq> None"]) simp
qed

section \<open>Reversal, step by step\<close>

lemma reverse_commission_Some:
  assumes "original_earning w pid = Some e" "re_reversed_at e = None"
    and "reverse_branch c w pid reason e = (act, po, amt, es, ps)"
  shows "reverse_commission c w pid reason =
    (\<lparr>rv_action = act, rv_earning_id = Some (re_id e), rv_payout_id = po, rv_new_payout_amount = amt,
      rv_sibling_id = Some (row_fresh re_id es)\<rparr>,
     w\<lparr>earnings := es @ [sibling c es reason e], payouts := ps\<rparr>)"
  using assms by (simp add: reverse_commission_def Let_def sibling_def)

lemma sum_over_map:
  assumes "map f xs = map f ys" "map g xs = map g ys"
  shows "sum_over (\<lambda>r. P (f r)) g xs = sum_over (\<lambda>r. P (f r)) g ys"
  using assms
proof (induction xs arbitrary: ys)
  case (Cons x xs)
  then obtain y zs where ys: "ys = y # zs" by (cases ys) simp_all
  with Cons.prems Cons.IH [of zs] show ?case by simp
qed simp

lemma reversal_debit:
  assumes "ledger_inv w" "original_earning w pid = Some e" "re_reversed_at e = None"
  shows "total_earned (snd (reverse_commission c w pid reason)) v =
    total_earned w v - (if v = re_referrer_id e then re_amount_usd e else 0)"
proof -
  obtain act po amt es ps where b: "reverse_branch c w pid reason e = (act, po, amt, es, ps)"
    by (cases "reverse_branch c w pid reason e") auto
  note ok = reverse_branch_ok [OF assms(1) original_earningD(1) [OF assms(2)] b]
  have "sum_over (\<lambda>r. re_referrer_id r = v) re_amount_usd es =
      sum_over (\<lambda>r. re_referrer_id r = v) re_amount_usd (earnings w)"
    by (rule sum_over_map) (use ok in simp_all)
  then show ?thesis
    by (simp add: reverse_commission_Some [OF assms(2,3) b] total_earned_def sum_over_append sibling_def)
qed

lemma find_row_upd:
  assumes "find Q rows = Some r" "key r = i" "\<And>x. Q (f x) = Q x"
    and "distinct (map key rows)"
  shows "find Q (row_upd key i f rows) = Some (f r)"
  using assms
proof (induction rows)
  case (Cons x xs)
  have "x = r" if "Q x" using Cons.prems(1) that by simp
  moreover have "key x \<noteq> i" if "\<not> Q x"
  proof -
    have "r \<in> set xs" using Cons.prems(1) that by (auto simp: find_Some_iff)
    then show ?thesis using Cons.prems(2,4) by auto
  qed
  ultimately show ?case using Cons by (cases "Q x") auto
qed simp

lemma original_append:
  "earnings w = es @ [s] \<Longrightarrow> re_payment_id s = None \<Longrightarrow>
   original_earning w pid =
   find (\<lambda>e. re_payment_id e = Some pid \<and> re_reversal_of_id e = None) es"
  by (simp add: original_earning_def find_append split: option.split)

lemma original_stamped:
  assumes "original_earning w pid = Some e" "distinct (map re_id (earnings w))"
  shows "find (\<lambda>e. re_payment_id e = Some pid \<and> re_reversal_of_id e = None)
      (row_upd re_id (re_id e) (stamp c reason) (earnings w)) = Some (stamp c reason e)"
  using assms by (intro find_row_upd) (auto simp: original_earning_def stamp_def)

lemma original_adjusted:
  assumes "original_earning w pid = Some e" "distinct (map re_id (earnings w))"
  shows "find (\<lambda>e. re_payment_id e = Some pid \<and> re_reversal_of_id e = None)
      (row_upd re_id (re_id e) (stamp c reason) (row_upd re_id (re_id e) unlink (earnings w))) =
    Some (stamp c reason (unlink e))"
proof -
  have "find (\<lambda>e. re_payment_id e = Some pid \<and> re_reversal_of_id e = None)
      (row_upd re_id (re_id e) unlink (earnings w)) = Some (unlink e)"
    using assms by (intro find_row_upd) (auto simp: original_earning_def unlink_def)
  moreover have "distinct (map re_id (row_upd re_id (re_id e) unlink (earnings w)))"
    using assms(2) by (subst row_upd_keys) (simp_all add: unlink_def)
  ultimately show ?thesis
    by (intro find_row_upd [where r = "unlink e"]) (assumption | simp add: stamp_def unlink_def)+
qed

lemma reversal_original:
  assumes "original_earning w pid = Some e" "re_reversed_at e = None"
    and "reverse_branch c w pid reason e = (act, po, amt, es, ps)"
  shows "original_earning (snd (reverse_commission c w pid reason)) pid =
    find (\<lambda>e. re_payment_id e = Some pid \<and> re_reversal_of_id e = None) es"
  by (rule original_append [of _ es "sibling c es reason e"])
    (simp_all add: reverse_commission_Some [OF assms] sibling_def)

lemma stamp_fields [simp]:
  "re_reversed_at (stamp c reason e) = Some (utcnow c)"
  "re_amount_usd (stamp c reason e) = re_amount_usd e"
  by (simp_all add: stamp_def)

lemma reversal_stamps:
  assumes "ledger_inv w" "original_earning w pid = Some e" "re_reversed_at e = None"
    and "rv_action (fst (reverse_commission c w pid reason)) \<noteq> From_Pending_Cancelled"
  shows "\<exists>e'. original_earning (snd (reverse_commission c w pid reason)) pid = Some e' \<and>
    re_reversed_at e' = Some (utcnow c)"
proof -
  note e = original_earningD [OF assms(2)]
  have d: "distinct (map re_id (earnings w))" using assms(1) by (simp add: ledger_inv_def ledger_ok_def)
  note st = original_stamped [OF assms(2) d, of c reason]
    and ad = original_adjusted [OF assms(2) d, of c reason]
  show ?thesis
  proof (rule reverse_branch_cases [OF assms(1) e(1), of c pid reason], goal_cases)
    case 1
    show ?case unfolding reversal_original [OF assms(2,3) 1(2)] st by simp
  next
    case (2 i p)
    show ?case unfolding reversal_original [OF assms(2,3) 2(4)] st by simp
  next
    case (3 i p)
    show ?case unfolding reversal_original [OF assms(2,3) 3(5)] ad by simp
  next
    case (4 i p nt)
    from reverse_commission_Some [OF assms(2,3) 4(5)] assms(4) show ?case by simp
  qed
qed

lemma reverse_keeps_resolved:
  assumes inv: "ledger_inv w" and q: "row_get po_id (payouts w) j = Some q" "po_status q \<noteq> PO_Pending"
  shows "row_get po_id (payouts (snd (reverse_commission c w pid reason))) j = Some q"
proof (cases "\<exists>e. original_earning w pid = Some e \<and> re_reversed_at e = None")
  case True
  then obtain e where e: "original_earning w pid = Some e" "re_reversed_at e = None" by blast
  show ?thesis
  proof (rule reverse_branch_cases [OF inv original_earningD(1) [OF e(1)], of c pid reason], goal_cases)
    case 1
    from reverse_commission_Some [OF e 1(2)] q show ?case by simp
  next
    case (2 i p)
    from reverse_commission_Some [OF e 2(4)] q show ?case by simp
  next
    case (3 i p)
    with q have "j \<noteq> i" by auto
    with reverse_commission_Some [OF e 3(5)] q show ?case by (simp add: row_get_upd)
  next
    case (4 i p nt)
    with q have "j \<noteq> i" by auto
    with reverse_commission_Some [OF e 4(5)] q show ?case by (simp add: row_get_upd resolve_def)
  qed
next
  case False
  then show ?thesis using q by (auto simp: reverse_commission_def split: option.splits)
qed

lemma reverse_total_paid:
  assumes inv: "ledger_inv w"
  shows "total_paid (snd (reverse_commission c w pid reason)) v = total_paid w v"
proof (cases "\<exists>e. original_earning w pid = Some e \<and> re_reversed_at e = None")
  case True
  then obtain e where e: "original_earning w pid = Some e" "re_reversed_at e = None" by blast
  have d: "distinct (map po_id (payouts w))" using inv by (simp add: ledger_inv_def ledger_ok_def)
  show ?thesis
  proof (rule reverse_branch_cases [OF inv original_earningD(1) [OF e(1)], of c pid reason], goal_cases)
    case 1
    from reverse_commission_Some [OF e 1(2)] show ?case by (simp add: total_paid_def)
  next
    case (2 i p)
    from reverse_commission_Some [OF e 2(4)] show ?case by (simp add: total_paid_def)
  next
    case (3 i p)
    from reverse_commission_Some [OF e 3(5)] 3 show ?case
      by (simp add: total_paid_def sum_over_upd [OF d 3(2)])
  next
    case (4 i p nt)
    from reverse_commission_Some [OF e 4(5)] 4 show ?case
      by (simp add: total_paid_def sum_over_upd [OF d 4(2)] resolve_def)
  qed
qed (auto simp: reverse_commission_def split: option.splits)

lemma available_after_link:
  "sum_over (\<lambda>e. re_referrer_id e = u \<and> re_payout_request_id e = None) re_amount_usd (link_earnings u i es) = 0"
  by (induction es) (auto simp: link_earnings_def row_upd_where_def)

lemma find_upd_where:
  assumes "\<And>x. Q (f x) = Q x"
  shows "find Q (row_upd_where P f rows) = map_option (\<lambda>r. if P r then f r else r) (find Q rows)"
  using assms by (induction rows) (auto simp: row_upd_where_def)

text \<open>A resolved payout is the same row in every later state.\<close>

definition resolved_as :: "int \<Rightarrow> payout \<Rightarrow> world \<Rightarrow> bool" where
  "resolved_as i p w \<longleftrightarrow> ledger_inv w \<and> row_get po_id (payouts w) i = Some p \<and> po_status p \<noteq> PO_Pending"

interpretation resolved_machine: inv_machine ledger_step "resolved_as i p" for i p
proof
  fix w e assume r: "resolved_as i p w"
  then have inv: "ledger_inv (ledger_step w e)" by (simp add: resolved_as_def ledger_machine.step_inv)
  have "row_get po_id (payouts (ledger_step w e)) i = Some p"
  proof (cases e)
    case (Credit c uid pid amount)
    then show ?thesis using r
      by (auto simp: resolved_as_def credit_commission_def Let_def split: option.split)
  next
    case (Request c uid addr)
    then show ?thesis using r
      by (auto simp: resolved_as_def row_get_append dest!: request_payoutD(9) split: sum.split)
  next
    case (Complete c pid nt)
    then show ?thesis using r
      by (auto simp: resolved_as_def admin_complete_payout_def resolve_def row_get_upd
          split: sum.splits option.splits if_splits)
  next
    case (Cancel c pid nt)
    then show ?thesis using r
      by (auto simp: resolved_as_def admin_cancel_payout_def resolve_def row_get_upd
          split: sum.splits option.splits if_splits)
  next
    case (Reverse c pid reason)
    then show ?thesis using r by (auto simp: resolved_as_def intro: reverse_keeps_resolved)
  next
    case (Set_Min_Payout v)
    then show ?thesis using r by (simp add: resolved_as_def)
  qed
  with inv r show "resolved_as i p (ledger_step w e)" by (simp add: resolved_as_def)
qed

lemma sample_ledger_inv: "ledger_inv sample_ledger"
  by (simp add: ledger_inv_def ledger_ok_def sample_ledger_def earned_def requested_def links_ok_def
      amounts_ok_def statuses_ok_def payments_unique_def linked_sum_def active_status_def)

lemma unclaimed_ledger_inv: "ledger_inv unclaimed_ledger"
  by (simp add: ledger_inv_def ledger_ok_def unclaimed_ledger_def earned_def links_ok_def
      amounts_ok_def statuses_ok_def payments_unique_def)

definition trc20 :: string where
  "trc20 = ''TJRyWwFs9wTFGZg3JbrVriFbNfCug5tDeC''"

section \<open>Properties\<close>

text \<open>
  C30. Double entry. Through any sequence of credits, payout requests, completions,
  cancellations, reversals and changes of the minimum, what a user has earned is exactly
  what was paid out, is pending and is available; and no user ever has two pending payouts.
\<close>

theorem ledger_runs_balance:
  assumes "ledger_inv w"
  shows "let w' = foldl ledger_step w ops in
     total_earned w' u = total_paid w' u + total_pending w' u + available_balance w' u \<and>
     count_over (\<lambda>p. po_user_id p = u \<and> po_status p = PO_Pending) (payouts w') \<le> 1"
proof -
  have "ledger_inv (foldl ledger_step w ops)" by (rule ledger_machine.run_inv [OF assms])
  then show ?thesis
    using ledger_balance [of "foldl ledger_step w ops" u]
    by (simp add: Let_def ledger_inv_def ledger_ok_def statuses_ok_def)
qed

theorem ledger_runs_balance_witness:
  "let w' = foldl ledger_step sample_ledger [Reverse sample_clock 10 None, Complete later_clock 1 None]
   in total_earned w' 3 = 270 \<and> total_paid w' 3 = 230 \<and>
      total_earned w' 3 = total_paid w' 3 + total_pending w' 3 + available_balance w' 3"
proof -
  have "total_earned (foldl ledger_step sample_ledger [Reverse sample_clock 10 None, Complete later_clock 1 None]) 3 = 270"
       "total_paid (foldl ledger_step sample_ledger [Reverse sample_clock 10 None, Complete later_clock 1 None]) 3 = 230"
    by code_simp+
  then show ?thesis
    using ledger_runs_balance [OF sample_ledger_inv, of "[Reverse sample_clock 10 None, Complete later_clock 1 None]" 3]
    by (simp add: Let_def)
qed

text \<open>
  Claim and release. A payout request claims the whole available balance, at least
  the minimum, and cancelling it puts every earning back as it was.
\<close>

theorem request_cancel_roundtrip:
  assumes "ledger_inv w" and "request_payout c w u addr = Inr (req, w1)"
    and "admin_cancel_payout c' w1 (po_id req) nt = Inr w2"
  shows "available_balance w1 u = 0 \<and> total_pending w1 u = available_balance w u \<and>
     current_min_payout_usd w \<le> po_amount_usd req \<and> earnings w2 = earnings w \<and>
     payouts w2 = payouts w @ [resolve c' PO_Cancelled nt req]"
proof -
  note d = request_payoutD [OF assms(2)]
  have new: "po_id req \<notin> po_id ` set (payouts w)" unfolding d(4) by (rule row_fresh_notin)
  have unl: "\<forall>e \<in> set (earnings w). re_payout_request_id e \<noteq> Some (po_id req)"
    using assms(1) new by (auto simp: ledger_inv_def ledger_ok_def links_ok_def image_iff) metis
  have w2: "earnings w2 = unlink_payout (po_id req) (earnings w1)"
      "payouts w2 = row_upd po_id (po_id req) (resolve c' PO_Cancelled nt) (payouts w1)"
    using assms(3) by (auto simp: admin_cancel_payout_def split: option.splits if_splits)
  have "available_balance w1 u = 0"
    unfolding available_balance_def d(10) by (rule available_after_link)
  moreover have "total_pending w1 u = available_balance w u"
  proof -
    have "sum_over (\<lambda>p. po_user_id p = u \<and> po_status p = PO_Pending) po_amount_usd (payouts w) = 0"
      using d(2) by (simp add: sum_over_def no_pending filter_empty_conv)
    then show ?thesis using d by (simp add: total_pending_def sum_over_append)
  qed
  moreover have "unlink_payout i (link_earnings u i es) = es"
    if "\<forall>e \<in> set es. re_payout_request_id e \<noteq> Some i" for i es
    using that by (induction es) (auto simp: unlink_payout_def link_earnings_def row_upd_where_def)
  moreover have "row_upd po_id (po_id req) f (payouts w) = payouts w" for f
    using new by (rule row_upd_absent)
  ultimately show ?thesis using d w2 unl by (simp add: row_upd_append)
qed

theorem request_cancel_roundtrip_witness:
  "\<exists>req w1 w2. request_payout sample_clock unclaimed_ledger 3 trc20 = Inr (req, w1) \<and>
     admin_cancel_payout later_clock w1 (po_id req) None = Inr w2 \<and>
     total_pending w1 3 = 150 \<and> earnings w2 = earnings unclaimed_ledger"
proof -
  have "case request_payout sample_clock unclaimed_ledger 3 trc20 of
      Inr (req, w1) \<Rightarrow> (case admin_cancel_payout later_clock w1 (po_id req) None of Inr _ \<Rightarrow> True | Inl _ \<Rightarrow> False)
    | Inl _ \<Rightarrow> False"
    by code_simp
  then obtain req w1 w2 where r: "request_payout sample_clock unclaimed_ledger 3 trc20 = Inr (req, w1)"
      "admin_cancel_payout later_clock w1 (po_id req) None = Inr w2"
    by (cases "request_payout sample_clock unclaimed_ledger 3 trc20") (force split: sum.splits prod.splits)+
  have "available_balance unclaimed_ledger 3 = 150" by code_simp
  then show ?thesis using request_cancel_roundtrip [OF unclaimed_ledger_inv r] r by auto
qed

text \<open>
  Reversal. Reversing the commission of a payment lowers the referrer's earned total
  by exactly the commission, leaves everyone else's and everything already paid out alone,
  and, unless it cancelled a pending payout, a second reversal changes nothing.
\<close>

theorem reversal_debits_once:
  assumes "ledger_inv w" and "original_earning w pid = Some e" and "re_reversed_at e = None"
    and "reverse_commission c w pid reason = (report, w1)"
  shows "total_earned w1 v = total_earned w v - (if v = re_referrer_id e then re_amount_usd e else 0) \<and>
     total_paid w1 v = total_paid w v \<and>
     (rv_action report \<noteq> From_Pending_Cancelled \<longrightarrow>
        snd (reverse_commission c2 w1 pid reason2) = w1)"
proof -
  have "snd (reverse_commission c2 w1 pid reason2) = w1" if "rv_action report \<noteq> From_Pending_Cancelled"
  proof -
    have "\<exists>e'. original_earning w1 pid = Some e' \<and> re_reversed_at e' = Some (utcnow c)"
      using reversal_stamps [OF assms(1-3), of c reason] assms(4) that by simp
    then show ?thesis by (auto simp: reverse_commission_def)
  qed
  then show ?thesis
    using reversal_debit [OF assms(1-3), of c reason v] reverse_total_paid [OF assms(1), of c pid reason v] assms(4)
    by simp
qed

theorem reversal_debits_once_witness:
  "let (report, w1) = reverse_commission sample_clock sample_ledger 10 None in
     rv_action report = From_Pending_Adjusted \<and> total_earned w1 3 = total_earned sample_ledger 3 - 20 \<and>
     snd (reverse_commission later_clock w1 10 None) = w1"
proof -
  obtain report w1 where r: "reverse_commission sample_clock sample_ledger 10 None = (report, w1)" by fastforce
  have "rv_action (fst (reverse_commission sample_clock sample_ledger 10 None)) = From_Pending_Adjusted"
    by code_simp
  moreover have "original_earning sample_ledger 10 = Some (earned 1 10 20 (Some 1))" by code_simp
  moreover have "re_reversed_at (earned 1 10 20 (Some 1)) = None" by (simp add: earned_def)
  ultimately show ?thesis
    using reversal_debits_once [OF sample_ledger_inv, of 10 "earned 1 10 20 (Some 1)" sample_clock None report w1 3 later_clock None] r
    by (simp add: earned_def)
qed

text \<open>
  The exception. When the reversal cancels a pending payout the original keeps no
  \<open>reversed_at\<close> stamp, so a second call, which the source's docstring calls free of
  side effects, debits the commission again.
\<close>

theorem cancelled_reversal_repeats:
  assumes "ledger_inv w" and "original_earning w pid = Some e" and "re_reversed_at e = None"
    and "reverse_commission c w pid reason = (report, w1)" and "rv_action report = From_Pending_Cancelled"
  shows "let (report2, w2) = reverse_commission c2 w1 pid reason2 in
     rv_action report2 = From_Unclaimed \<and>
     total_earned w2 (re_referrer_id e) = total_earned w (re_referrer_id e) - 2 * re_amount_usd e"
proof -
  note e = original_earningD [OF assms(2)]
  obtain report2 w2 where r2: "reverse_commission c2 w1 pid reason2 = (report2, w2)" by fastforce
  have w1: "ledger_inv w1" "w1 = snd (reverse_commission c w pid reason)"
    using reverse_ledger_inv [OF assms(1), of c pid reason] assms(4) by simp_all
  have "original_earning w1 pid = Some (unlink e)"
  proof (rule reverse_branch_cases [OF assms(1) e(1), of c pid reason], goal_cases)
    case (4 i p nt)
    show ?case
      unfolding w1(2) reversal_original [OF assms(2,3) 4(5)] unlink_payout_def
      using assms(2) 4(1) by (subst find_upd_where) (simp_all add: original_earning_def unlink_def)
  qed (use assms(4,5) reverse_commission_Some [OF assms(2,3)] in force)+
  moreover have "re_reversed_at (unlink e) = None" using assms(3) by (simp add: unlink_def)
  moreover have "rv_action report2 = From_Unclaimed"
    using calculation r2
    by (cases "reverse_branch c2 w1 pid reason2 (unlink e)")
      (auto simp: reverse_commission_def reverse_branch_def Let_def unlink_def)
  ultimately show ?thesis
    using reversal_debit [OF w1(1), of pid "unlink e" c2 reason2 "re_referrer_id e"] r2
      reversal_debit [OF assms(1-3), of c reason "re_referrer_id e"] w1(2)
    by (simp add: unlink_def)
qed

theorem cancelled_reversal_repeats_witness:
  "\<exists>report w1 report2 w2. reverse_commission sample_clock sample_ledger 11 None = (report, w1) \<and>
     rv_action report = From_Pending_Cancelled \<and> reverse_commission later_clock w1 11 None = (report2, w2) \<and>
     total_earned w2 3 = total_earned sample_ledger 3 - 260"
proof -
  obtain report w1 where r: "reverse_commission sample_clock sample_ledger 11 None = (report, w1)" by fastforce
  obtain report2 w2 where r2: "reverse_commission later_clock w1 11 None = (report2, w2)" by fastforce
  have "rv_action (fst (reverse_commission sample_clock sample_ledger 11 None)) = From_Pending_Cancelled"
    by code_simp
  moreover have "original_earning sample_ledger 11 = Some (earned 2 11 130 (Some 1))" by code_simp
  moreover have "re_reversed_at (earned 2 11 130 (Some 1)) = None" by (simp add: earned_def)
  ultimately show ?thesis
    using cancelled_reversal_repeats [OF sample_ledger_inv, of 11 "earned 2 11 130 (Some 1)" sample_clock None report w1 later_clock None] r r2
    by (simp add: earned_def)
qed

text \<open>
  The preview the admin confirms agrees with what the reversal then does: the same
  action on the same payout, and the same new amount when the payout is adjusted.
\<close>

theorem preview_agrees_with_reversal:
  assumes "ledger_inv w"
  shows "let (act, po, amt) = preview_reversal w pid; report = fst (reverse_commission c w pid reason)
     in rv_action report = act \<and> rv_payout_id report = po \<and>
        (act = From_Pending_Adjusted \<longrightarrow> rv_new_payout_amount report = amt)"
proof (cases "\<exists>e. original_earning w pid = Some e \<and> re_reversed_at e = None")
  case True
  then obtain e where e: "original_earning w pid = Some e" "re_reversed_at e = None" by blast
  have key: "row_get po_id (payouts w) i = Some p \<Longrightarrow> po_id p = i" for i p
    by (simp add: row_get_Some)
  show ?thesis
  proof (rule reverse_branch_cases [OF assms original_earningD(1) [OF e(1)], of c pid reason], goal_cases)
    case 1
    with e reverse_commission_Some [OF e 1(2)] show ?case by (simp add: preview_reversal_def)
  next
    case (2 i p)
    with e key reverse_commission_Some [OF e 2(4)] show ?case by (simp add: preview_reversal_def)
  next
    case (3 i p)
    with e key reverse_commission_Some [OF e 3(5)] show ?case
      by (simp add: preview_reversal_def Let_def)
  next
    case (4 i p nt)
    with e key reverse_commission_Some [OF e 4(5)] show ?case
      by (simp add: preview_reversal_def Let_def)
  qed
next
  case False
  then show ?thesis
    by (auto simp: reverse_commission_def preview_reversal_def split: option.splits)
qed

theorem preview_agrees_with_reversal_witness:
  "preview_reversal sample_ledger 10 = (From_Pending_Adjusted, Some 1, Some 130) \<and>
   rv_new_payout_amount (fst (reverse_commission sample_clock sample_ledger 10 None)) = Some 130"
proof -
  have "preview_reversal sample_ledger 10 = (From_Pending_Adjusted, Some 1, Some 130)" by code_simp
  then show ?thesis
    using preview_agrees_with_reversal [OF sample_ledger_inv, of 10 sample_clock None] by (simp add: Let_def)
qed

text \<open>
  A completed or cancelled payout is final: no later operation of the ledger changes
  its row.
\<close>

theorem resolved_payout_final:
  assumes "ledger_inv w" and "row_get po_id (payouts w) i = Some p" and "po_status p \<noteq> PO_Pending"
  shows "row_get po_id (payouts (foldl ledger_step w ops)) i = Some p"
proof -
  have "resolved_as i p w" using assms by (simp add: resolved_as_def)
  then have "resolved_as i p (foldl ledger_step w ops)" by (rule resolved_machine.run_inv)
  then show ?thesis by (simp add: resolved_as_def)
qed

theorem resolved_payout_final_witness:
  "row_get po_id (payouts (foldl ledger_step sample_ledger
     [Reverse sample_clock 13 None, Cancel later_clock 2 None])) 2 = Some (requested 2 100 PO_Completed)"
proof -
  have "row_get po_id (payouts sample_ledger) 2 = Some (requested 2 100 PO_Completed)" by code_simp
  then show ?thesis by (intro resolved_payout_final [OF sample_ledger_inv]) (simp_all add: requested_def)
qed

end
