(* ===== verification/Payments.thy ===== *)
theory Payments
  imports Plans Periods Promo Ref_Codes Referral
begin

text \<open>
  The payment lifecycle, \<^verbatim>\<open>backend/services/payment_service.py\<close>, with the checkout,
  webhook and promo-preview routes of \<^verbatim>\<open>backend/api/v1/billing.py\<close> and the admin refund.
  The payment provider's HTTP reply and the JWT decoder are parameters. A handler that
  raises, or returns before its commit, leaves every table as it was (the session is
  closed without a commit); the process-wide plan cache keeps what was looked up.
\<close>

section \<open>Pricing\<close>

definition round_money :: "rat \<Rightarrow> rat" where
  "round_money x = quantize_half_up x"

record pricing =
  pr_base_amount_usd :: rat
  pr_discount_pct :: rat
  pr_final_amount_usd :: rat

definition compute_pricing :: "plan \<Rightarrow> billing_period \<Rightarrow> promo_code option \<Rightarrow> rat option \<Rightarrow> pricing" where
  "compute_pricing plan period promo ref_discount =
     (let base = compute_total (pl_price_usd_monthly plan) period;
          promo_pct = (case promo of Some p \<Rightarrow> pc_discount_pct p | None \<Rightarrow> 0);
          ref_pct = (case ref_discount of Some r \<Rightarrow> r | None \<Rightarrow> 0);
          total = (if global_cap_pct < promo_pct + ref_pct then global_cap_pct else promo_pct + ref_pct)
      in \<lparr>pr_base_amount_usd = base, pr_discount_pct = total,
          pr_final_amount_usd = round_money (base * (100 - total) / 100)\<rparr>)"

definition activation_window :: "billing_period \<Rightarrow> time" where
  "activation_window p = days_us (bp_months p * 30)"

section \<open>The provider's invoice\<close>

text \<open>
  The reply of \<^verbatim>\<open>/v2/invoice/create\<close>: the status code and the text fields of its
  JSON; \<open>cr_result\<close> is the nested object when it is there and not empty.
\<close>

record cc_reply =
  cr_status_code :: int
  cr_status :: "string option"
  cr_result :: "(string \<Rightarrow> string option) option"
  cr_data :: "string \<Rightarrow> string option"

record cc_config =
  cc_api_key :: string
  cc_shop_id :: string

datatype checkout_error =
  CE_Plan_Not_Found | CE_Free_Plan | CE_Period_Not_Found | CE_Invalid_Promo | CE_Zero_Amount
| CE_Provider | CE_Integrity

fun first_field :: "(string \<Rightarrow> string option) \<Rightarrow> string list \<Rightarrow> string option" where
  "first_field d [] = None"
| "first_field d (k # ks) = (case d k of Some (ch # cs) \<Rightarrow> Some (ch # cs) | _ \<Rightarrow> first_field d ks)"

definition cc_create_invoice ::
  "cc_config \<Rightarrow> (rat \<Rightarrow> string \<Rightarrow> string \<Rightarrow> cc_reply) \<Rightarrow> rat \<Rightarrow> string \<Rightarrow> string \<Rightarrow>
   checkout_error + string \<times> string" where
  "cc_create_invoice cfg post amount order_id description =
     (if cc_shop_id cfg = [] \<or> cc_api_key cfg = [] then Inl CE_Provider
      else
        let r = post amount order_id description in
        if 400 \<le> cr_status_code r then Inl CE_Provider
        else if cr_status r \<noteq> Some ''success'' \<and> cr_status r \<noteq> None then Inl CE_Provider
        else
          let d = (case cr_result r of Some d \<Rightarrow> d | None \<Rightarrow> cr_data r) in
          case (first_field d [''uuid'', ''invoice_id'', ''id''],
                first_field d [''link'', ''url'', ''payment_url'']) of
            (Some uuid, Some url) \<Rightarrow> Inr (uuid, url)
          | _ \<Rightarrow> Inl CE_Provider)"

section \<open>Checkout\<close>

definition signup_discount :: "world \<Rightarrow> user \<Rightarrow> rat option" where
  "signup_discount w u =
     (case u_signup_code_id u of
        None \<Rightarrow> None
      | Some cid \<Rightarrow>
          (case row_get rc_id (codes w) cid of
             None \<Rightarrow> None
           | Some r \<Rightarrow> Some (effective_discount_pct (Some r) (count_non_reversed_usages w cid (u_id u)))))"

record checkout_result =
  ck_payment_id :: int
  ck_invoice_url :: string
  ck_amount_usd :: rat
  ck_discount_pct :: rat

definition new_payment ::
  "clock \<Rightarrow> world \<Rightarrow> int \<Rightarrow> int \<Rightarrow> billing_period \<Rightarrow> promo_code option \<Rightarrow> pricing \<Rightarrow> payment" where
  "new_payment c w uid plan_id period promo pr =
     \<lparr> pay_id = row_fresh pay_id (payments w), pay_user_id = uid, pay_plan_id = plan_id,
       pay_billing_cycle = Some (bp_slug period), pay_billing_period_id = Some (bp_id period),
       pay_base_amount_usd = pr_base_amount_usd pr, pay_discount_pct = pr_discount_pct pr,
       pay_final_amount_usd = pr_final_amount_usd pr, pay_promo_code_id = map_option pc_id promo,
       pay_provider = ''cryptocloud'', pay_provider_invoice_id = None,
       pay_provider_invoice_url = None, pay_status = Pay_Pending, pay_paid_at = None,
       pay_activated_until = None, pay_refunded_at = None, pay_refunded_reason = None,
       pay_created_at = utcnow c, pay_updated_at = utcnow c \<rparr>"

definition create_checkout ::
  "clock \<Rightarrow> cc_config \<Rightarrow> (rat \<Rightarrow> string \<Rightarrow> string \<Rightarrow> cc_reply) \<Rightarrow> world \<Rightarrow> user \<Rightarrow> int \<Rightarrow> int \<Rightarrow> string option \<Rightarrow>
   (checkout_error + checkout_result) \<times> world" where
  "create_checkout c cfg post w u plan_id period_id promo_str =
     (let (found, w1) = get_plan c w plan_id in
      case found of
        None \<Rightarrow> (Inl CE_Plan_Not_Found, w1)
      | Some plan \<Rightarrow>
          if \<not> pl_is_active plan then (Inl CE_Plan_Not_Found, w1)
          else if pl_is_free plan then (Inl CE_Free_Plan, w1)
          else case get_period w1 period_id of
            None \<Rightarrow> (Inl CE_Period_Not_Found, w1)
          | Some period \<Rightarrow>
              if \<not> bp_is_active period then (Inl CE_Period_Not_Found, w1)
              else
                let wanted = (case promo_str of Some (ch # cs) \<Rightarrow> Some (ch # cs) | _ \<Rightarrow> None);
                    promo = (case wanted of None \<Rightarrow> None
                             | Some s \<Rightarrow> validate_for_plan c w1 s (pl_id plan) (Some (u_id u)))
                in if wanted \<noteq> None \<and> promo = None then (Inl CE_Invalid_Promo, w1)
                   else
                     let pr = compute_pricing plan period promo (signup_discount w1 u)
                     in if pr_final_amount_usd pr \<le> 0 then (Inl CE_Zero_Amount, w1)
                        else
                          let p = new_payment c w1 (u_id u) (pl_id plan) period promo pr
                          in case cc_create_invoice cfg post (pr_final_amount_usd pr)
                                 (''avalant-'' @ int_str (pay_id p))
                                 (''Avalant '' @ pl_name plan @ '' '' @ [CHR 0xB7] @ '' '' @ bp_label period) of
                               Inl e \<Rightarrow> (Inl e, w1)
                             | Inr (uuid, url) \<Rightarrow>
                                 if \<exists>q \<in> set (payments w1). pay_provider_invoice_id q = Some uuid
                                 then (Inl CE_Integrity, w1)
                                 else (Inr \<lparr>ck_payment_id = pay_id p, ck_invoice_url = url,
                                            ck_amount_usd = pr_final_amount_usd pr,
                                            ck_discount_pct = pr_discount_pct pr\<rparr>,
                                       payments_update (\<lambda>ps. ps @ [p\<lparr>pay_provider_invoice_id := Some uuid,
                                         pay_provider_invoice_url := Some url\<rparr>]) w1))"

text \<open>The price the checkout page shows for a promo code, \<^verbatim>\<open>POST /api/promo/validate\<close>.\<close>

datatype promo_preview = Preview_Missing_Args | Preview_Invalid | Preview_Valid promo_code pricing rat

definition promo_validate :: "clock \<Rightarrow> world \<Rightarrow> user \<Rightarrow> string option \<Rightarrow> int \<Rightarrow> int \<Rightarrow> promo_preview \<times> world" where
  "promo_validate c w u raw_code plan_id period_id =
     (let code = strip (case raw_code of Some s \<Rightarrow> s | None \<Rightarrow> []) in
      if code = [] \<or> plan_id = 0 \<or> period_id = 0 then (Preview_Missing_Args, w)
      else case validate_for_plan c w code plan_id (Some (u_id u)) of
        None \<Rightarrow> (Preview_Invalid, w)
      | Some promo \<Rightarrow>
          let (found, w1) = get_plan c w plan_id in
          case (found, get_period w1 period_id) of
            (Some plan, Some period) \<Rightarrow>
              let ref = (case signup_discount w1 u of Some r \<Rightarrow> if 0 < r then Some r else None | None \<Rightarrow> None)
              in (Preview_Valid promo (compute_pricing plan period (Some promo) ref)
                    (case ref of Some r \<Rightarrow> r | None \<Rightarrow> 0), w1)
          | _ \<Rightarrow> (Preview_Invalid, w1))"

section \<open>Activation\<close>

text \<open>
  The commission of a split-discount code. A payment that already has a usage or an
  earning violates the unique constraint; the failed flush then makes the commit of the
  caller raise, so the whole activation is lost.
\<close>

definition commission_of :: "referral_code \<Rightarrow> int \<Rightarrow> payment \<Rightarrow> rat" where
  "commission_of r used p =
     quantize_half_even (pay_final_amount_usd p * effective_commission_pct (Some r) used / 100)"

definition discount_of :: "referral_code \<Rightarrow> int \<Rightarrow> payment \<Rightarrow> rat" where
  "discount_of r used p =
     quantize_half_even (pay_base_amount_usd p * effective_discount_pct (Some r) used / 100)"

definition usage_row :: "clock \<Rightarrow> world \<Rightarrow> user \<Rightarrow> payment \<Rightarrow> referral_code \<Rightarrow> int \<Rightarrow> code_usage" where
  "usage_row c w u p r used =
     \<lparr> ru_id = row_fresh ru_id (usages w), ru_code_id = rc_id r, ru_referee_id = u_id u,
       ru_payment_id = Some (pay_id p), ru_payment_amount_usd = pay_final_amount_usd p,
       ru_commission_earned = commission_of r used p, ru_discount_applied = discount_of r used p,
       ru_created_at = utcnow c, ru_reversed_at = None, ru_reversal_reason = None \<rparr>"

definition credit_split_discount :: "clock \<Rightarrow> world \<Rightarrow> user \<Rightarrow> payment \<Rightarrow> unit + world" where
  "credit_split_discount c w u p =
     (case (case u_signup_code_id u of None \<Rightarrow> None | Some cid \<Rightarrow> row_get rc_id (codes w) cid) of
        None \<Rightarrow> Inr w
      | Some r \<Rightarrow>
          if rc_owner_id r = u_id u then Inr w
          else
            let used = count_non_reversed_usages w (rc_id r) (u_id u) in
            if usages_per_referee \<le> used then Inr w
            else if (\<exists>x \<in> set (usages w). ru_payment_id x = Some (pay_id p)) \<or>
                    (\<exists>e \<in> set (earnings w). re_payment_id e = Some (pay_id p)) then Inl ()
            else Inr (w\<lparr>
              usages := usages w @ [usage_row c w u p r used],
              earnings := earnings w @ [earning_row c w (rc_owner_id r) (Some (u_id u)) (Some (pay_id p))
                (effective_commission_pct (Some r) used) (commission_of r used p)]\<rparr>))"

definition base_until :: "clock \<Rightarrow> user \<Rightarrow> time" where
  "base_until c u = max (case u_plan_expires_at u of Some t \<Rightarrow> t | None \<Rightarrow> utcnow c) (utcnow c)"

definition payment_window :: "world \<Rightarrow> payment \<Rightarrow> time" where
  "payment_window w p =
     (case (if truthy (pay_billing_period_id p) then get_period w (the (pay_billing_period_id p)) else None) of
        Some period \<Rightarrow> activation_window period
      | None \<Rightarrow> days_us 30)"

definition payment_promo :: "world \<Rightarrow> payment \<Rightarrow> promo_code option" where
  "payment_promo w p =
     (if truthy (pay_promo_code_id p) then row_get pc_id (promos w) (the (pay_promo_code_id p)) else None)"

definition payment_bonus :: "world \<Rightarrow> payment \<Rightarrow> time" where
  "payment_bonus w p =
     (case payment_promo w p of
        Some q \<Rightarrow> if 0 < pc_bonus_days q then days_us (pc_bonus_days q) else 0
      | None \<Rightarrow> 0)"

definition activated_until :: "clock \<Rightarrow> world \<Rightarrow> user \<Rightarrow> payment \<Rightarrow> time" where
  "activated_until c w u p = base_until c u + payment_window w p + payment_bonus w p"

definition grant :: "payment \<Rightarrow> plan option \<Rightarrow> time \<Rightarrow> user \<Rightarrow> user" where
  "grant p plan until u = u\<lparr>u_plan_id := Some (pay_plan_id p),
     u_plan := (case plan of Some q \<Rightarrow> pl_slug q | None \<Rightarrow> u_plan u),
     u_plan_expires_at := Some until\<rparr>"

definition put_user :: "user \<Rightarrow> world \<Rightarrow> world" where
  "put_user u = users_update (row_upd u_id (u_id u) (\<lambda>_. u))"

definition put_payment :: "clock \<Rightarrow> payment \<Rightarrow> world \<Rightarrow> world" where
  "put_payment c p = payments_update (row_upd pay_id (pay_id p) (\<lambda>_. p\<lparr>pay_updated_at := utcnow c\<rparr>))"

definition rollback_to :: "world \<Rightarrow> world \<Rightarrow> world" where
  "rollback_to w w' = w\<lparr>plan_cache := plan_cache w'\<rparr>"

datatype activation = Committed | Not_Committed | Commit_Failed

text \<open>
  \<open>w\<close> is the database with the caller's pending changes; \<open>p\<close> is the payment as the caller
  left it. When the outcome is not \<open>Committed\<close> the caller's session is closed without a
  commit.
\<close>

definition activate_user :: "clock \<Rightarrow> world \<Rightarrow> payment \<Rightarrow> activation \<times> world" where
  "activate_user c w p =
     (if pay_status p = Pay_Refunded \<or> pay_refunded_at p \<noteq> None then (Not_Committed, w)
      else case row_get u_id (users w) (pay_user_id p) of
        None \<Rightarrow> (Not_Committed, w)
      | Some u \<Rightarrow>
          let (plan, w1) = get_plan c w (pay_plan_id p);
              until = activated_until c w1 u p;
              u' = grant p plan until u;
              p' = p\<lparr>pay_activated_until := Some until\<rparr>;
              w2 = put_payment c p' (put_user u' w1)
          in case (if u_signup_code_id u' \<noteq> None then credit_split_discount c w2 u' p' else Inr w2) of
               Inl _ \<Rightarrow> (Commit_Failed, w1)
             | Inr w3 \<Rightarrow> (Committed, invalidate_plan_cache (enforce_quiet c w3 u')))"

section \<open>Refund\<close>

datatype refund_report =
  Skipped_Already_Refunded
| Skipped_Not_Paid pay_status
| Refund_Done reversal_action "int option"

definition annul :: "clock \<Rightarrow> user \<Rightarrow> user" where
  "annul c u = u\<lparr>u_plan_expires_at := Some (utcnow c), u_auto_renew := False\<rparr>"

definition reverse_usage :: "clock \<Rightarrow> string option \<Rightarrow> code_usage \<Rightarrow> code_usage" where
  "reverse_usage c reason x =
     (if ru_reversed_at x = None
      then x\<lparr>ru_reversed_at := Some (utcnow c), ru_reversal_reason := Some (reason_text reason)\<rparr> else x)"

definition refund_payment :: "clock \<Rightarrow> world \<Rightarrow> payment \<Rightarrow> string option \<Rightarrow> refund_report \<times> world" where
  "refund_payment c w p reason =
     (if pay_status p = Pay_Refunded then (Skipped_Already_Refunded, w)
      else if pay_status p \<noteq> Pay_Paid then (Skipped_Not_Paid (pay_status p), w)
      else
        let p' = p\<lparr>pay_status := Pay_Refunded, pay_refunded_at := Some (utcnow c),
                   pay_refunded_reason := Some (reason_text reason)\<rparr>;
            w1 = users_update (row_upd u_id (pay_user_id p) (annul c)) (put_payment c p' w);
            (report, w2) = reverse_commission c w1 (pay_id p) reason;
            w3 = (case find (\<lambda>x. ru_payment_id x = Some (pay_id p)) (usages w2) of
                    None \<Rightarrow> w2
                  | Some x \<Rightarrow> usages_update (row_upd ru_id (ru_id x) (reverse_usage c reason)) w2)
        in (Refund_Done (rv_action report) (rv_payout_id report), invalidate_plan_cache w3))"

datatype refund_error = RE_Not_Found | RE_Already_Refunded | RE_Not_Paid pay_status

definition admin_refund_payment ::
  "clock \<Rightarrow> world \<Rightarrow> int \<Rightarrow> string option \<Rightarrow> (refund_error + refund_report) \<times> world" where
  "admin_refund_payment c w pid reason =
     (case row_get pay_id (payments w) pid of
        None \<Rightarrow> (Inl RE_Not_Found, w)
      | Some p \<Rightarrow>
          if pay_status p = Pay_Refunded then (Inl RE_Already_Refunded, w)
          else if pay_status p \<noteq> Pay_Paid then (Inl (RE_Not_Paid (pay_status p)), w)
          else (let (r, w') = refund_payment c w p reason in (Inr r, w')))"

section \<open>Webhook\<close>

definition paid_words :: "string list" where
  "paid_words = [''paid'', ''success'']"

definition closed_words :: "string list" where
  "closed_words = [''canceled'', ''cancelled'', ''expired'', ''failed'']"

definition refund_words :: "string list" where
  "refund_words = [''refunded'', ''chargeback'', ''reversed'']"

definition invoice_payment :: "world \<Rightarrow> string \<Rightarrow> payment option" where
  "invoice_payment w uuid = find (\<lambda>p. pay_provider_invoice_id p = Some uuid) (payments w)"

definition use_promo :: "clock \<Rightarrow> payment \<Rightarrow> world \<Rightarrow> world" where
  "use_promo c p w =
     (case payment_promo w p of
        None \<Rightarrow> w
      | Some q \<Rightarrow> w\<lparr>
          promo_usages := promo_usages w @ [\<lparr> pu_id = row_fresh pu_id (promo_usages w),
            pu_promo_code_id = pc_id q, pu_user_id = pay_user_id p, pu_payment_id = pay_id p,
            pu_plan_id = pay_plan_id p, pu_discount_pct = pay_discount_pct p, pu_created_at = utcnow c \<rparr>],
          promos := row_upd pc_id (pc_id q)
            (\<lambda>x. x\<lparr>pc_used_count := pc_used_count x + 1, pc_updated_at := utcnow c\<rparr>) (promos w)\<rparr>)"

definition verify_and_apply_webhook ::
  "clock \<Rightarrow> world \<Rightarrow> string \<Rightarrow> string \<Rightarrow> (unit + int option) \<times> world" where
  "verify_and_apply_webhook c w uuid status =
     (case invoice_payment w uuid of
        None \<Rightarrow> (Inr None, w)
      | Some p \<Rightarrow>
          let s = lower status in
          if s \<in> set paid_words then
            if pay_status p = Pay_Paid \<or> pay_status p = Pay_Refunded then (Inr (Some (pay_id p)), w)
            else
              let p' = p\<lparr>pay_status := Pay_Paid, pay_paid_at := Some (utcnow c)\<rparr>;
                  (out, w') = activate_user c (use_promo c p' (put_payment c p' w)) p'
              in (case out of
                    Committed \<Rightarrow> (Inr (Some (pay_id p)), w')
                  | Not_Committed \<Rightarrow> (Inr (Some (pay_id p)), rollback_to w w')
                  | Commit_Failed \<Rightarrow> (Inl (), rollback_to w w'))
          else if s \<in> set closed_words then
            if pay_status p = Pay_Pending
            then (Inr (Some (pay_id p)),
                  put_payment c (p\<lparr>pay_status := (if s = ''failed'' then Pay_Failed else Pay_Expired)\<rparr>) w)
            else (Inr (Some (pay_id p)), w)
          else if s \<in> set refund_words then
            if pay_status p = Pay_Paid
            then (Inr (Some (pay_id p)), snd (refund_payment c w p (Some (''webhook:'' @ s))))
            else (Inr (Some (pay_id p)), w)
          else (Inr (Some (pay_id p)), w))"

text \<open>\<open>decodes\<close> says which tokens the JWT library accepts under a secret.\<close>

definition verify_webhook_signature :: "(string \<Rightarrow> string \<Rightarrow> bool) \<Rightarrow> string \<Rightarrow> string option \<Rightarrow> bool" where
  "verify_webhook_signature decodes secret token =
     (case token of
        Some (ch # cs) \<Rightarrow> if secret = [] then False else decodes secret (ch # cs)
      | _ \<Rightarrow> False)"

datatype webhook_reply = WH_Not_Configured | WH_Unauthorized | WH_No_Invoice | WH_Failed | WH_Ok "int option"

definition removeprefix :: "string \<Rightarrow> string \<Rightarrow> string" where
  "removeprefix pre s = (if take (length pre) s = pre then drop (length pre) s else s)"

definition cryptocloud_webhook ::
  "(string \<Rightarrow> string \<Rightarrow> bool) \<Rightarrow> string \<Rightarrow> clock \<Rightarrow> world \<Rightarrow> string \<Rightarrow> (string \<Rightarrow> string option) \<Rightarrow> webhook_reply \<times> world" where
  "cryptocloud_webhook decodes secret c w authorization payload =
     (if secret = [] then (WH_Not_Configured, w)
      else
        let token = (case first_field payload [''token''] of
                       Some t \<Rightarrow> t | None \<Rightarrow> strip (removeprefix ''Bearer '' authorization))
        in if \<not> verify_webhook_signature decodes secret (Some token) then (WH_Unauthorized, w)
           else
             let status = (case first_field payload [''status'', ''invoice_status''] of Some s \<Rightarrow> s | None \<Rightarrow> ''paid'')
             in case first_field payload [''invoice_id'', ''uuid'', ''id''] of
                  None \<Rightarrow> (WH_No_Invoice, w)
                | Some uuid \<Rightarrow>
                    (case verify_and_apply_webhook c w uuid status of
                       (Inr pid, w') \<Rightarrow> (WH_Ok pid, w')
                     | (Inl _, w') \<Rightarrow> (WH_Failed, w')))"

section \<open>History\<close>

definition list_user_payments :: "world \<Rightarrow> int \<Rightarrow> nat \<Rightarrow> payment list" where
  "list_user_payments w uid limit =
     take limit (sort_key (\<lambda>p. - pay_created_at p) (filter (\<lambda>p. pay_user_id p = uid) (payments w)))"

record payment_view =
  pv_id :: int
  pv_plan_id :: int
  pv_billing_period_id :: "int option"
  pv_billing_cycle :: "string option"
  pv_base_amount_usd :: rat
  pv_discount_pct :: rat
  pv_final_amount_usd :: rat
  pv_status :: pay_status
  pv_invoice_url :: "string option"
  pv_paid_at :: "time option"
  pv_activated_until :: "time option"
  pv_created_at :: time

definition serialize_payment :: "payment \<Rightarrow> payment_view" where
  "serialize_payment p = \<lparr> pv_id = pay_id p, pv_plan_id = pay_plan_id p,
     pv_billing_period_id = pay_billing_period_id p, pv_billing_cycle = pay_billing_cycle p,
     pv_base_amount_usd = pay_base_amount_usd p, pv_discount_pct = pay_discount_pct p,
     pv_final_amount_usd = pay_final_amount_usd p, pv_status = pay_status p,
     pv_invoice_url = pay_provider_invoice_url p, pv_paid_at = pay_paid_at p,
     pv_activated_until = pay_activated_until p, pv_created_at = pay_created_at p \<rparr>"

definition my_payments :: "world \<Rightarrow> user \<Rightarrow> payment_view list" where
  "my_payments w u = map serialize_payment (list_user_payments w (u_id u) 25)"

section \<open>Frames\<close>

lemma get_plan_tables:
  assumes "get_plan c w i = (r, w1)"
  shows "users w1 = users w" "wallets w1 = wallets w" "plans w1 = plans w"
    "periods w1 = periods w" "promos w1 = promos w" "payments w1 = payments w"
    "promo_usages w1 = promo_usages w" "earnings w1 = earnings w" "payouts w1 = payouts w"
    "codes w1 = codes w" "regs w1 = regs w" "usages w1 = usages w" "min_payout w1 = min_payout w"
proof -
  have "same_tables w w1" using same_tables_lookup(1) [of w c i] assms by simp
  from same_tablesD [OF this]
  show "users w1 = users w" "wallets w1 = wallets w" "plans w1 = plans w"
    "periods w1 = periods w" "promos w1 = promos w" "payments w1 = payments w"
    "promo_usages w1 = promo_usages w" "earnings w1 = earnings w" "payouts w1 = payouts w"
    "codes w1 = codes w" "regs w1 = regs w" "usages w1 = usages w" "min_payout w1 = min_payout w"
    by simp_all
qed

lemma invalidate_fields [simp]:
  "users (invalidate_plan_cache w) = users w" "payments (invalidate_plan_cache w) = payments w"
  "earnings (invalidate_plan_cache w) = earnings w" "payouts (invalidate_plan_cache w) = payouts w"
  "codes (invalidate_plan_cache w) = codes w" "regs (invalidate_plan_cache w) = regs w"
  "usages (invalidate_plan_cache w) = usages w" "promos (invalidate_plan_cache w) = promos w"
  "promo_usages (invalidate_plan_cache w) = promo_usages w" "periods (invalidate_plan_cache w) = periods w"
  "plans (invalidate_plan_cache w) = plans w" "wallets (invalidate_plan_cache w) = wallets w"
  by (simp_all add: invalidate_plan_cache_def)

lemma rollback_fields [simp]:
  "users (rollback_to w v) = users w" "payments (rollback_to w v) = payments w"
  "earnings (rollback_to w v) = earnings w" "payouts (rollback_to w v) = payouts w"
  "codes (rollback_to w v) = codes w" "regs (rollback_to w v) = regs w"
  "usages (rollback_to w v) = usages w" "promos (rollback_to w v) = promos w"
  by (simp_all add: rollback_to_def)

lemma put_fields [simp]:
  "payments (put_user u w) = payments w" "earnings (put_user u w) = earnings w"
  "payouts (put_user u w) = payouts w" "codes (put_user u w) = codes w" "regs (put_user u w) = regs w"
  "usages (put_user u w) = usages w" "promos (put_user u w) = promos w" "periods (put_user u w) = periods w"
  "users (put_payment c p w) = users w" "earnings (put_payment c p w) = earnings w"
  "payouts (put_payment c p w) = payouts w" "codes (put_payment c p w) = codes w"
  "regs (put_payment c p w) = regs w" "usages (put_payment c p w) = usages w"
  "promo_usages (put_user u w) = promo_usages w" "promo_usages (put_payment c p w) = promo_usages w"
  "promos (put_payment c p w) = promos w" "periods (put_payment c p w) = periods w"
  by (simp_all add: put_user_def put_payment_def)

lemma use_promo_fields [simp]:
  "users (use_promo c p w) = users w" "payments (use_promo c p w) = payments w"
  "earnings (use_promo c p w) = earnings w" "payouts (use_promo c p w) = payouts w"
  "codes (use_promo c p w) = codes w" "regs (use_promo c p w) = regs w"
  "usages (use_promo c p w) = usages w" "periods (use_promo c p w) = periods w"
  by (simp_all add: use_promo_def split: option.split)

lemma payment_bonus_use [simp]: "payment_bonus (use_promo c p w) q = payment_bonus w q"
proof (cases "payment_promo w p")
  case (Some x)
  have "map_option pc_bonus_days (row_get pc_id (promos (use_promo c p w)) i) =
      map_option pc_bonus_days (row_get pc_id (promos w) i)" for i
    using Some by (auto simp: use_promo_def row_get_upd option.map_comp comp_def
        split: option.splits intro: option.map_cong)
  then have "map_option pc_bonus_days (payment_promo (use_promo c p w) q) =
      map_option pc_bonus_days (payment_promo w q)"
    by (simp add: payment_promo_def)
  then show ?thesis
    by (auto simp: payment_bonus_def split: option.splits)
qed (simp add: use_promo_def)

lemma payment_window_cong: "periods w' = periods w \<Longrightarrow> payment_window w' p = payment_window w p"
  by (simp add: payment_window_def get_period_def cong: if_cong)

lemma payment_bonus_cong: "promos w' = promos w \<Longrightarrow> payment_bonus w' p = payment_bonus w p"
  by (simp add: payment_bonus_def payment_promo_def cong: if_cong)

section \<open>The billing invariant\<close>

text \<open>
  The parts of the database that the payment lifecycle ties together: refunds stamp
  exactly the refunded payments, a usage or an earning of a payment belongs to a payment
  that was paid, a usage is live exactly while its payment is, and no referee has more
  than five live usages of one code.
\<close>

definition settled :: "world \<Rightarrow> int \<Rightarrow> bool" where
  "settled w i \<longleftrightarrow> (\<exists>p \<in> set (payments w). pay_id p = i \<and> pay_status p \<in> {Pay_Paid, Pay_Refunded})"

definition usages_ok :: "world \<Rightarrow> bool" where
  "usages_ok w \<longleftrightarrow> distinct (map ru_id (usages w)) \<and> distinct (map ru_payment_id (usages w)) \<and>
     (\<forall>x \<in> set (usages w). \<exists>i. ru_payment_id x = Some i \<and> settled w i) \<and>
     (\<forall>cid r. count_non_reversed_usages w cid r \<le> usages_per_referee)"

definition payments_ok :: "world \<Rightarrow> bool" where
  "payments_ok w \<longleftrightarrow> distinct (map pay_id (payments w)) \<and> distinct (map u_id (users w)) \<and>
     (\<forall>p \<in> set (payments w). pay_refunded_at p \<noteq> None \<longleftrightarrow> pay_status p = Pay_Refunded) \<and>
     (\<forall>e \<in> set (earnings w). \<forall>i. re_payment_id e = Some i \<longrightarrow> settled w i)"

definition billing_inv :: "world \<Rightarrow> bool" where
  "billing_inv w \<longleftrightarrow> ledger_inv w \<and> codes_inv w \<and> payments_ok w \<and> usages_ok w"

lemma codes_inv_cong: "codes w' = codes w \<Longrightarrow> regs w' = regs w \<Longrightarrow> codes_inv w' = codes_inv w"
  by (simp add: codes_inv_def count_owner_codes_def count_registrations_def)

lemma ledger_inv_cong: "earnings w' = earnings w \<Longrightarrow> payouts w' = payouts w \<Longrightarrow> ledger_inv w' = ledger_inv w"
  by (simp add: ledger_inv_def)

lemma settled_cong: "payments w' = payments w \<Longrightarrow> settled w' = settled w"
  by (rule ext) (simp add: settled_def)

lemma usages_ok_cong: "payments w' = payments w \<Longrightarrow> usages w' = usages w \<Longrightarrow> usages_ok w' = usages_ok w"
  by (simp add: usages_ok_def count_non_reversed_usages_def settled_cong [of w' w])

lemma invoice_paymentD:
  assumes "invoice_payment w uuid = Some p"
  shows "p \<in> set (payments w)" "pay_provider_invoice_id p = Some uuid"
  using assms by (auto simp: invoice_payment_def find_Some_iff)

section \<open>What a paid webhook does\<close>

lemma credit_cases:
  assumes "\<forall>x \<in> set (usages w). ru_payment_id x \<noteq> Some (pay_id p)"
    and "\<forall>e \<in> set (earnings w). re_payment_id e \<noteq> Some (pay_id p)"
  obtains (skipped) "credit_split_discount c w u p = Inr w"
  | (credited) r n where "u_signup_code_id u = Some (rc_id r)" "row_get rc_id (codes w) (rc_id r) = Some r"
      "rc_owner_id r \<noteq> u_id u" "n = count_non_reversed_usages w (rc_id r) (u_id u)"
      "n < usages_per_referee"
      "credit_split_discount c w u p = Inr (w\<lparr>usages := usages w @ [usage_row c w u p r n],
         earnings := earnings w @ [earning_row c w (rc_owner_id r) (Some (u_id u)) (Some (pay_id p))
           (effective_commission_pct (Some r) n) (commission_of r n p)]\<rparr>)"
proof (cases "case u_signup_code_id u of None \<Rightarrow> None | Some cid \<Rightarrow> row_get rc_id (codes w) cid")
  case None
  then show ?thesis using skipped by (simp add: credit_split_discount_def)
next
  case (Some r)
  then have id: "u_signup_code_id u = Some (rc_id r)" "row_get rc_id (codes w) (rc_id r) = Some r"
    by (auto split: option.splits dest: row_get_Some)
  show ?thesis
  proof (cases "rc_owner_id r = u_id u \<or>
      usages_per_referee \<le> count_non_reversed_usages w (rc_id r) (u_id u)")
    case True
    then show ?thesis using skipped id by (auto simp: credit_split_discount_def Let_def)
  next
    case False
    then show ?thesis using assms id
      by (intro credited [of r "count_non_reversed_usages w (rc_id r) (u_id u)"])
        (auto simp: credit_split_discount_def Let_def)
  qed
qed

definition paid_payment :: "clock \<Rightarrow> time \<Rightarrow> payment \<Rightarrow> payment" where
  "paid_payment c until p = p\<lparr>pay_status := Pay_Paid, pay_paid_at := Some (utcnow c),
     pay_activated_until := Some until, pay_updated_at := utcnow c\<rparr>"

text \<open>The world just before the commission is credited.\<close>

definition activating :: "clock \<Rightarrow> world \<Rightarrow> payment \<Rightarrow> user \<Rightarrow> plan option \<Rightarrow> world \<Rightarrow> bool" where
  "activating c w p u plan v \<longleftrightarrow>
     users v = row_upd u_id (u_id u) (\<lambda>_. grant p plan (activated_until c w u p) u) (users w) \<and>
     payments v = row_upd pay_id (pay_id p) (\<lambda>_. paid_payment c (activated_until c w u p) p) (payments w) \<and>
     earnings v = earnings w \<and> payouts v = payouts w \<and> codes v = codes w \<and> regs v = regs w \<and>
     usages v = usages w \<and> promos v = promos (use_promo c p w) \<and>
     promo_usages v = promo_usages (use_promo c p w)"

lemma grant_fields [simp]:
  "u_id (grant p plan t u) = u_id u" "u_signup_code_id (grant p plan t u) = u_signup_code_id u"
  "u_plan_id (grant p plan t u) = Some (pay_plan_id p)" "u_plan_expires_at (grant p plan t u) = Some t"
  by (simp_all add: grant_def)

lemma activate_form:
  fixes c :: clock and w :: world and p :: payment and u :: user
  assumes u: "row_get u_id (users w) (pay_user_id p) = Some u"
    and p: "pay_status p \<noteq> Pay_Refunded" "pay_refunded_at p = None"
  defines "paid \<equiv> p\<lparr>pay_status := Pay_Paid, pay_paid_at := Some (utcnow c)\<rparr>"
    and "until \<equiv> activated_until c w u p"
  obtains plan v where "activating c w p u plan v"
    "activate_user c (use_promo c paid (put_payment c paid w)) paid =
      (case (if u_signup_code_id u \<noteq> None
             then credit_split_discount c v (grant p plan until u) (paid\<lparr>pay_activated_until := Some until\<rparr>)
             else Inr v) of
         Inl _ \<Rightarrow> (Commit_Failed, snd (get_plan c (use_promo c paid (put_payment c paid w)) (pay_plan_id p)))
       | Inr v' \<Rightarrow> (Committed, invalidate_plan_cache (enforce_quiet c v' (grant p plan until u))))"
proof -
  let ?w0 = "use_promo c paid (put_payment c paid w)"
  obtain plan w1 where g: "get_plan c ?w0 (pay_plan_id p) = (plan, w1)" by fastforce
  note t = get_plan_tables [OF g]
  have pr: "payment_promo w' paid = payment_promo w' p" for w'
    by (simp add: paid_def payment_promo_def)
  have pq: "use_promo c paid (put_payment c paid w) = put_payment c paid (use_promo c p w)"
    by (simp add: use_promo_def paid_def payment_promo_def put_payment_def split: option.split cong: if_cong)
  have until: "activated_until c w1 u paid = until"
  proof -
    have "payment_window w1 paid = payment_window w p"
      using payment_window_cong [of w1 w] t(4) by (simp add: paid_def payment_window_def get_period_def cong: if_cong)
    moreover have "payment_bonus w1 paid = payment_bonus w p"
    proof -
      have "payment_bonus w1 paid = payment_bonus ?w0 paid" by (rule payment_bonus_cong) (simp add: t(5))
      also have "\<dots> = payment_bonus (put_payment c paid w) paid" by simp
      also have "\<dots> = payment_bonus w p"
        by (simp add: payment_bonus_def pr) (simp add: payment_promo_def cong: if_cong)
      finally show ?thesis .
    qed
    ultimately show ?thesis by (simp add: activated_until_def until_def)
  qed
  define v where "v = put_payment c (paid\<lparr>pay_activated_until := Some until\<rparr>) (put_user (grant p plan until u) w1)"
  have gr: "grant paid plan until u = grant p plan until u" by (simp add: grant_def paid_def)
  have "activating c w p u plan v"
    unfolding activating_def
  proof (intro conjI)
    show "promos v = promos (use_promo c p w)" "promo_usages v = promo_usages (use_promo c p w)"
      by (simp_all add: v_def t pq)
    show "payments v = row_upd pay_id (pay_id p) (\<lambda>_. paid_payment c (activated_until c w u p) p) (payments w)"
      by (simp add: v_def put_payment_def put_user_def t paid_def paid_payment_def until_def row_upd_const_twice)
  qed (simp_all add: v_def t, simp add: put_user_def t until_def)
  moreover have "activate_user c ?w0 paid =
      (case (if u_signup_code_id u \<noteq> None
             then credit_split_discount c v (grant p plan until u) (paid\<lparr>pay_activated_until := Some until\<rparr>)
             else Inr v) of
         Inl _ \<Rightarrow> (Commit_Failed, w1)
       | Inr v' \<Rightarrow> (Committed, invalidate_plan_cache (enforce_quiet c v' (grant p plan until u))))"
  proof -
    have "row_get u_id (users ?w0) (pay_user_id paid) = Some u" using u by (simp add: paid_def)
    moreover have "pay_status paid \<noteq> Pay_Refunded" "pay_refunded_at paid = None" "pay_plan_id paid = pay_plan_id p"
      using p by (simp_all add: paid_def)
    ultimately show ?thesis
      by (simp add: activate_user_def g until gr v_def Let_def cong: sum.case_cong)
  qed
  ultimately show ?thesis by (intro that [of plan v]) (simp_all add: g cong: sum.case_cong)
qed

text \<open>
  A paid webhook for a payment not yet settled, under the billing invariant: it commits,
  and the only open question is whether a commission is credited.
\<close>

definition credited :: "clock \<Rightarrow> world \<Rightarrow> payment \<Rightarrow> user \<Rightarrow> referral_code \<Rightarrow> bool" where
  "credited c w p u r \<longleftrightarrow> u_signup_code_id u = Some (rc_id r) \<and>
     row_get rc_id (codes w) (rc_id r) = Some r \<and> rc_owner_id r \<noteq> u_id u \<and>
     count_non_reversed_usages w (rc_id r) (u_id u) < usages_per_referee"

definition with_commission :: "clock \<Rightarrow> world \<Rightarrow> payment \<Rightarrow> user \<Rightarrow> referral_code \<Rightarrow> code_usage list \<times> earning list" where
  "with_commission c w p u r =
     (let n = count_non_reversed_usages w (rc_id r) (u_id u)
      in (usages w @ [usage_row c w u p r n],
          earnings w @ [earning_row c w (rc_owner_id r) (Some (u_id u)) (Some (pay_id p))
            (effective_commission_pct (Some r) n) (commission_of r n p)]))"

lemma usage_row_cong:
  "usages w' = usages w \<Longrightarrow> pay_id p' = pay_id p \<Longrightarrow> pay_final_amount_usd p' = pay_final_amount_usd p \<Longrightarrow>
   pay_base_amount_usd p' = pay_base_amount_usd p \<Longrightarrow> u_id u' = u_id u \<Longrightarrow>
   usage_row c w' u' p' r n = usage_row c w u p r n"
  by (simp add: usage_row_def commission_of_def discount_of_def)

lemma earning_row_cong:
  "earnings w' = earnings w \<Longrightarrow> earning_row c w' i j k pct a = earning_row c w i j k pct a"
  by (simp add: earning_row_def)

lemma webhook_paid:
  assumes inv: "billing_inv w" and p: "invoice_payment w uuid = Some p" "lower status \<in> set paid_words"
      "pay_status p \<noteq> Pay_Paid" "pay_status p \<noteq> Pay_Refunded"
    and u: "row_get u_id (users w) (pay_user_id p) = Some u"
  obtains plan w' where "verify_and_apply_webhook c w uuid status = (Inr (Some (pay_id p)), w')"
    "users w' = row_upd u_id (u_id u) (\<lambda>_. grant p plan (activated_until c w u p) u) (users w)"
    "payments w' = row_upd pay_id (pay_id p) (\<lambda>_. paid_payment c (activated_until c w u p) p) (payments w)"
    "payouts w' = payouts w" "codes w' = codes w" "regs w' = regs w"
    "promos w' = promos (use_promo c p w)" "promo_usages w' = promo_usages (use_promo c p w)"
    "if \<exists>r. credited c w p u r
     then \<exists>r. credited c w p u r \<and> (usages w', earnings w') = with_commission c w p u r
     else (usages w', earnings w') = (usages w, earnings w)"
proof -
  note finish = that
  define until where "until = activated_until c w u p"
  define paid where "paid = p\<lparr>pay_status := Pay_Paid, pay_paid_at := Some (utcnow c)\<rparr>"
  note ip = invoice_paymentD [OF p(1)]
  have d: "distinct (map pay_id (payments w))" using inv by (simp add: billing_inv_def payments_ok_def)
  have ref: "pay_refunded_at p = None"
    using inv ip(1) p(4) by (auto simp: billing_inv_def payments_ok_def)
  have uns: "\<not> settled w (pay_id p)"
  proof
    assume "settled w (pay_id p)"
    then obtain q where q: "q \<in> set (payments w)" "pay_id q = pay_id p" "pay_status q \<in> {Pay_Paid, Pay_Refunded}"
      by (auto simp: settled_def)
    have "q = p" using row_get_unique [OF d ip(1)] row_get_unique [OF d q(1)] q(2) by simp
    with q(3) p(3,4) show False by simp
  qed
  obtain plan v where v: "activating c w p u plan v"
    and act: "activate_user c (use_promo c paid (put_payment c paid w)) paid =
      (case (if u_signup_code_id u \<noteq> None
             then credit_split_discount c v (grant p plan until u) (paid\<lparr>pay_activated_until := Some until\<rparr>)
             else Inr v) of
         Inl _ \<Rightarrow> (Commit_Failed, snd (get_plan c (use_promo c paid (put_payment c paid w)) (pay_plan_id p)))
       | Inr v' \<Rightarrow> (Committed, invalidate_plan_cache (enforce_quiet c v' (grant p plan until u))))"
    unfolding paid_def until_def by (rule activate_form [OF u p(4) ref])
  have vt: "earnings v = earnings w" "usages v = usages w" "codes v = codes w" "payouts v = payouts w"
      "regs v = regs w" using v by (simp_all add: activating_def)
  have cnt: "count_non_reversed_usages v i j = count_non_reversed_usages w i j" for i j
    by (simp add: count_non_reversed_usages_def vt)
  let ?u = "grant p plan until u" and ?p = "paid\<lparr>pay_activated_until := Some until\<rparr>"
  have pid: "pay_id ?p = pay_id p" "pay_final_amount_usd ?p = pay_final_amount_usd p"
      "pay_base_amount_usd ?p = pay_base_amount_usd p" by (simp_all add: paid_def)
  have hook: "verify_and_apply_webhook c w uuid status =
      (Inr (Some (pay_id p)), invalidate_plan_cache (enforce_quiet c v' ?u))"
    if "(if u_signup_code_id u \<noteq> None then credit_split_discount c v ?u ?p else Inr v) = Inr v'" for v'
    using p act that by (simp add: verify_and_apply_webhook_def Let_def paid_def [symmetric])
  have out: ?thesis if cr: "(if u_signup_code_id u \<noteq> None then credit_split_discount c v ?u ?p else Inr v) = Inr v'"
    and f: "users v' = users v" "payments v' = payments v" "payouts v' = payouts v" "codes v' = codes v"
      "regs v' = regs v" "promos v' = promos v" "promo_usages v' = promo_usages v"
    and uu: "if \<exists>r. credited c w p u r
       then \<exists>r. credited c w p u r \<and> (usages v', earnings v') = with_commission c w p u r
       else (usages v', earnings v') = (usages w, earnings w)" for v'
  proof (rule finish [OF hook [OF cr]])
    show "users (invalidate_plan_cache (enforce_quiet c v' ?u)) =
        row_upd u_id (u_id u) (\<lambda>_. grant p plan (activated_until c w u p) u) (users w)"
      using v f by (simp add: activating_def)
  qed (use v f uu in \<open>simp_all add: activating_def\<close>)
  have nous: "\<forall>x \<in> set (usages v). ru_payment_id x \<noteq> Some (pay_id ?p)"
    using inv uns by (auto simp: billing_inv_def usages_ok_def vt pid)
  have noea: "\<forall>e \<in> set (earnings v). re_payment_id e \<noteq> Some (pay_id ?p)"
    using inv uns by (auto simp: billing_inv_def payments_ok_def vt pid)
  show ?thesis
  proof (rule credit_cases [OF nous noea, of c ?u], goal_cases)
    case 1
    show ?case
    proof (rule out)
      show "(if u_signup_code_id u \<noteq> None then credit_split_discount c v ?u ?p else Inr v) = Inr v"
        using 1 by simp
      have "\<not> credited c w p u r" for r
        using 1 nous noea by (auto simp: credited_def credit_split_discount_def Let_def vt cnt dest!: arg_cong [where f = "\<lambda>w. length (usages w)"])
      then show "if \<exists>r. credited c w p u r
         then \<exists>r. credited c w p u r \<and> (usages v, earnings v) = with_commission c w p u r
         else (usages v, earnings v) = (usages w, earnings w)" by (simp add: vt)
    qed simp_all
  next
    case (2 r n)
    define v2 where "v2 = v\<lparr>usages := usages v @ [usage_row c v ?u ?p r n],
      earnings := earnings v @ [earning_row c v (rc_owner_id r) (Some (u_id ?u)) (Some (pay_id ?p))
        (effective_commission_pct (Some r) n) (commission_of r n ?p)]\<rparr>"
    have cr: "credited c w p u r" and n: "n = count_non_reversed_usages w (rc_id r) (u_id u)"
      using 2 by (simp_all add: credited_def vt cnt)
    have "commission_of r n ?p = commission_of r n p" by (simp add: commission_of_def paid_def)
    then have "(usages v2, earnings v2) = with_commission c w p u r"
      using usage_row_cong [of v w ?p p ?u u c r n] earning_row_cong [of v w]
      by (simp add: v2_def with_commission_def vt pid n Let_def)
    with cr have uu: "if \<exists>r. credited c w p u r
        then \<exists>r. credited c w p u r \<and> (usages v2, earnings v2) = with_commission c w p u r
        else (usages v2, earnings v2) = (usages w, earnings w)" by auto
    show ?case
    proof (rule out [OF _ _ _ _ _ _ _ _ uu])
      show "(if u_signup_code_id u \<noteq> None then credit_split_discount c v ?u ?p else Inr v) = Inr v2"
        using 2 by (simp add: v2_def)
    qed (simp_all add: v2_def)
  qed
qed

section \<open>What a refund does\<close>

lemma reverse_commission_cong:
  assumes "earnings v = earnings w" "payouts v = payouts w" "min_payout v = min_payout w"
  shows "fst (reverse_commission c v pid reason) = fst (reverse_commission c w pid reason)"
    "snd (reverse_commission c v pid reason) =
      v\<lparr>earnings := earnings (snd (reverse_commission c w pid reason)),
        payouts := payouts (snd (reverse_commission c w pid reason))\<rparr>"
proof -
  have b: "reverse_branch c v pid reason e = reverse_branch c w pid reason e" for e
  proof -
    have "current_min_payout_usd v = current_min_payout_usd w"
      by (simp add: current_min_payout_usd_def assms)
    then show ?thesis by (simp only: reverse_branch_def assms)
  qed
  have "fst (reverse_commission c v pid reason) = fst (reverse_commission c w pid reason) \<and>
    snd (reverse_commission c v pid reason) =
      v\<lparr>earnings := earnings (snd (reverse_commission c w pid reason)),
        payouts := payouts (snd (reverse_commission c w pid reason))\<rparr>"
  proof (cases "original_earning w pid")
    case None
    moreover have "original_earning v pid = None" using None assms by (simp add: original_earning_def)
    ultimately show ?thesis using assms by (simp add: reverse_commission_def)
  next
    case (Some e)
    moreover have "original_earning v pid = Some e" using Some assms by (simp add: original_earning_def)
    ultimately show ?thesis
      using assms by (cases "reverse_branch c w pid reason e") (simp add: reverse_commission_def b Let_def)
  qed
  then show "fst (reverse_commission c v pid reason) = fst (reverse_commission c w pid reason)"
    "snd (reverse_commission c v pid reason) =
      v\<lparr>earnings := earnings (snd (reverse_commission c w pid reason)),
        payouts := payouts (snd (reverse_commission c w pid reason))\<rparr>" by simp_all
qed

lemma row_upd_found:
  assumes "find Q rows = Some r" "distinct (map key rows)" "\<And>x. x \<in> set rows \<Longrightarrow> Q x \<Longrightarrow> x = r"
  shows "row_upd key (key r) f rows = row_upd_where Q f rows"
proof -
  have r: "r \<in> set rows" "Q r" using assms(1) by (auto simp: find_Some_iff)
  have "key x = key r \<longleftrightarrow> Q x" if "x \<in> set rows" for x
  proof
    assume "key x = key r"
    then have "x = r" using assms(2) r(1) that by (meson distinct_map inj_onD)
    then show "Q x" using r(2) by simp
  qed (use assms(3) that in blast)
  then show ?thesis by (simp add: row_upd_def row_upd_where_def)
qed

lemma row_upd_where_absent: "\<forall>x \<in> set rows. \<not> Q x \<Longrightarrow> row_upd_where Q f rows = rows"
  by (induction rows) (auto simp: row_upd_where_def)

definition refunded_payment :: "clock \<Rightarrow> string option \<Rightarrow> payment \<Rightarrow> payment" where
  "refunded_payment c reason p = p\<lparr>pay_status := Pay_Refunded, pay_refunded_at := Some (utcnow c),
     pay_refunded_reason := Some (reason_text reason), pay_updated_at := utcnow c\<rparr>"

lemma refund_form:
  assumes "usages_ok w" "pay_status p = Pay_Paid"
  obtains w' where "refund_payment c w p reason =
      (Refund_Done (rv_action (fst (reverse_commission c w (pay_id p) reason)))
         (rv_payout_id (fst (reverse_commission c w (pay_id p) reason))), w')"
    "users w' = row_upd u_id (pay_user_id p) (annul c) (users w)"
    "payments w' = row_upd pay_id (pay_id p) (\<lambda>_. refunded_payment c reason p) (payments w)"
    "earnings w' = earnings (snd (reverse_commission c w (pay_id p) reason))"
    "payouts w' = payouts (snd (reverse_commission c w (pay_id p) reason))"
    "usages w' = row_upd_where (\<lambda>x. ru_payment_id x = Some (pay_id p)) (reverse_usage c reason) (usages w)"
    "codes w' = codes w" "regs w' = regs w" "promos w' = promos w"
proof -
  define w1 where "w1 = users_update (row_upd u_id (pay_user_id p) (annul c))
    (put_payment c (p\<lparr>pay_status := Pay_Refunded, pay_refunded_at := Some (utcnow c),
       pay_refunded_reason := Some (reason_text reason)\<rparr>) w)"
  have f: "earnings w1 = earnings w" "payouts w1 = payouts w" "min_payout w1 = min_payout w"
      "usages w1 = usages w" "codes w1 = codes w" "regs w1 = regs w" "promos w1 = promos w"
      "users w1 = row_upd u_id (pay_user_id p) (annul c) (users w)"
      "payments w1 = row_upd pay_id (pay_id p) (\<lambda>_. refunded_payment c reason p) (payments w)"
    by (simp_all add: w1_def put_payment_def refunded_payment_def)
  note rc = reverse_commission_cong [OF f(1-3), of c "pay_id p" reason]
  obtain w2 where w2: "snd (reverse_commission c w1 (pay_id p) reason) = w2" by simp
  let ?Q = "\<lambda>x. ru_payment_id x = Some (pay_id p)"
  have us: "usages w2 = usages w" using rc(2) w2 f by (metis world.select_convs(12) world.surjective world.update_convs(8,9))
  define w3 where "w3 = (case find ?Q (usages w2) of None \<Rightarrow> w2
    | Some x \<Rightarrow> usages_update (row_upd ru_id (ru_id x) (reverse_usage c reason)) w2)"
  have u3: "usages w3 = row_upd_where ?Q (reverse_usage c reason) (usages w)"
  proof (cases "find ?Q (usages w)")
    case None
    moreover have "\<forall>x \<in> set (usages w). \<not> ?Q x" using None by (auto simp: find_None_iff)
    ultimately show ?thesis using us by (simp add: w3_def row_upd_where_absent)
  next
    case (Some x)
    have "row_upd ru_id (ru_id x) (reverse_usage c reason) (usages w) =
        row_upd_where ?Q (reverse_usage c reason) (usages w)"
    proof (rule row_upd_found [OF Some])
      show "distinct (map ru_id (usages w))" using assms(1) by (simp add: usages_ok_def)
      show "y = x" if "y \<in> set (usages w)" "?Q y" for y
      proof -
        have "inj_on ru_payment_id (set (usages w))" using assms(1) by (simp add: usages_ok_def distinct_map)
        moreover have "x \<in> set (usages w)" "?Q x" using Some by (auto simp: find_Some_iff)
        ultimately show ?thesis using that by (metis inj_onD)
      qed
    qed
    then show ?thesis using Some us by (simp add: w3_def)
  qed
  have w3: "w3 = w2\<lparr>usages := usages w3\<rparr>" by (simp add: w3_def split: option.split)
  show ?thesis
  proof (rule that [of "invalidate_plan_cache w3"])
    show "refund_payment c w p reason =
      (Refund_Done (rv_action (fst (reverse_commission c w (pay_id p) reason)))
         (rv_payout_id (fst (reverse_commission c w (pay_id p) reason))), invalidate_plan_cache w3)"
      using assms(2) rc(1) w2
      by (simp add: refund_payment_def w1_def [symmetric] Let_def split_beta w3_def cong: option.case_cong)
  qed (use u3 rc(2) w2 f in \<open>(subst w3; simp)+\<close>)
qed

section \<open>The billing machine\<close>

datatype billing_op =
  Op_Checkout clock cc_config "rat \<Rightarrow> string \<Rightarrow> string \<Rightarrow> cc_reply" int int int "string option"
| Op_Webhook clock string string
| Op_Refund clock int "string option"
| Op_Request clock int string
| Op_Complete clock int "string option"
| Op_Cancel clock int "string option"
| Op_Code code_op
| Op_Expire clock

fun billing_step :: "world \<Rightarrow> billing_op \<Rightarrow> world" where
  "billing_step w (Op_Checkout c cfg post uid plan_id period_id promo) =
     (case row_get u_id (users w) uid of
        None \<Rightarrow> w
      | Some u \<Rightarrow> snd (create_checkout c cfg post w u plan_id period_id promo))"
| "billing_step w (Op_Webhook c uuid status) = snd (verify_and_apply_webhook c w uuid status)"
| "billing_step w (Op_Refund c pid reason) = snd (admin_refund_payment c w pid reason)"
| "billing_step w (Op_Request c uid addr) = ledger_step w (Request c uid addr)"
| "billing_step w (Op_Complete c pid nt) = ledger_step w (Complete c pid nt)"
| "billing_step w (Op_Cancel c pid nt) = ledger_step w (Cancel c pid nt)"
| "billing_step w (Op_Code e) = code_step w e"
| "billing_step w (Op_Expire c) = snd (run_once c w)"

lemma count_over_upd_where_le:
  "(\<And>r. Q (f r) \<Longrightarrow> Q r) \<Longrightarrow> count_over Q (row_upd_where P f rows) \<le> count_over Q rows"
  by (induction rows) (auto simp: row_upd_where_def)

lemma settled_upd:
  assumes "settled w i" "payments w' = row_upd pay_id (pay_id p) (\<lambda>_. q) (payments w)"
    and "pay_id q = pay_id p" "pay_status q \<in> {Pay_Paid, Pay_Refunded}"
  shows "settled w' i"
  using assms unfolding settled_def
  by (metis (mono_tags, lifting) row_upd_member)

lemma settled_self:
  assumes "p \<in> set (payments w)" "payments w' = row_upd pay_id (pay_id p) (\<lambda>_. q) (payments w)"
    and "pay_id q = pay_id p" "pay_status q \<in> {Pay_Paid, Pay_Refunded}"
  shows "settled w' (pay_id p)"
  using assms row_upd_member [OF assms(1), of pay_id "pay_id p" "\<lambda>_. q"] by (auto simp: settled_def)

lemma payments_ok_put:
  assumes "payments_ok w" "payments w' = row_upd pay_id (pay_id p) (\<lambda>_. q) (payments w)"
    and "pay_id q = pay_id p" "pay_refunded_at q \<noteq> None \<longleftrightarrow> pay_status q = Pay_Refunded"
    and "map u_id (users w') = map u_id (users w)"
    and "\<And>e i. e \<in> set (earnings w') \<Longrightarrow> re_payment_id e = Some i \<Longrightarrow> settled w' i"
  shows "payments_ok w'"
  using assms by (auto simp: payments_ok_def row_upd_const_keys dest!: set_row_upd)

lemma payments_ok_cong:
  assumes "payments w' = payments w" "map u_id (users w') = map u_id (users w)"
    and "map re_payment_id (earnings w') = map re_payment_id (earnings w)"
  shows "payments_ok w' = payments_ok w"
proof -
  have *: "(\<forall>e \<in> set (earnings v). \<forall>i. re_payment_id e = Some i \<longrightarrow> settled v i) \<longleftrightarrow>
      (\<forall>i. Some i \<in> set (map re_payment_id (earnings v)) \<longrightarrow> settled v i)" for v
    by (auto simp: image_iff) metis
  have "(\<forall>e \<in> set (earnings w'). \<forall>i. re_payment_id e = Some i \<longrightarrow> settled w' i) \<longleftrightarrow>
      (\<forall>e \<in> set (earnings w). \<forall>i. re_payment_id e = Some i \<longrightarrow> settled w i)"
    unfolding * by (simp only: assms(3) settled_cong [OF assms(1)])
  then show ?thesis by (simp only: payments_ok_def assms(1,2))
qed

text \<open>Reversing a commission adds only a row without a payment.\<close>

lemma reverse_payment_ids:
  assumes "ledger_inv w"
  shows "map re_payment_id (earnings (snd (reverse_commission c w pid reason))) =
      map re_payment_id (earnings w) \<or>
    map re_payment_id (earnings (snd (reverse_commission c w pid reason))) =
      map re_payment_id (earnings w) @ [None]"
proof (cases "\<exists>e. original_earning w pid = Some e \<and> re_reversed_at e = None")
  case True
  then obtain e where e: "original_earning w pid = Some e" "re_reversed_at e = None" by blast
  have st: "map re_payment_id (row_upd re_id i (stamp c reason) xs) = map re_payment_id xs" for i xs
    by (rule row_upd_map) (simp add: stamp_def)
  have ul: "map re_payment_id (row_upd re_id i unlink xs) = map re_payment_id xs" for i xs
    by (rule row_upd_map) (simp add: unlink_def)
  show ?thesis
  proof (rule reverse_branch_cases [OF assms original_earningD(1) [OF e(1)], of c pid reason], goal_cases)
    case 1
    from reverse_commission_Some [OF e 1(2)] show ?case by (simp add: sibling_def st)
  next
    case (2 i p)
    from reverse_commission_Some [OF e 2(4)] show ?case by (simp add: sibling_def st)
  next
    case (3 i p)
    from reverse_commission_Some [OF e 3(5)] show ?case by (simp add: sibling_def st ul)
  next
    case (4 i p nt)
    from reverse_commission_Some [OF e 4(5)] show ?case by (simp add: sibling_def unlink_payout_simps)
  qed
qed (auto simp: reverse_commission_def split: option.splits)

lemma webhook_paid_inv:
  assumes inv: "billing_inv w" and p: "invoice_payment w uuid = Some p" "lower status \<in> set paid_words"
      "pay_status p \<noteq> Pay_Paid" "pay_status p \<noteq> Pay_Refunded"
    and u: "row_get u_id (users w) (pay_user_id p) = Some u"
  shows "billing_inv (snd (verify_and_apply_webhook c w uuid status))"
proof -
  obtain plan w' where r: "verify_and_apply_webhook c w uuid status = (Inr (Some (pay_id p)), w')"
    and f: "users w' = row_upd u_id (u_id u) (\<lambda>_. grant p plan (activated_until c w u p) u) (users w)"
    "payments w' = row_upd pay_id (pay_id p) (\<lambda>_. paid_payment c (activated_until c w u p) p) (payments w)"
    "payouts w' = payouts w" "codes w' = codes w" "regs w' = regs w"
    and cr: "if \<exists>r. credited c w p u r
     then \<exists>r. credited c w p u r \<and> (usages w', earnings w') = with_commission c w p u r
     else (usages w', earnings w') = (usages w, earnings w)"
    by (rule webhook_paid [OF assms, of c]) blast
  let ?q = "paid_payment c (activated_until c w u p) p"
  note ip = invoice_paymentD [OF p(1)]
  have q: "pay_id ?q = pay_id p" "pay_status ?q = Pay_Paid" "pay_refunded_at ?q = pay_refunded_at p"
    by (simp_all add: paid_payment_def)
  have d: "distinct (map pay_id (payments w))" and ref: "pay_refunded_at p = None"
    using inv ip(1) p(4) by (auto simp: billing_inv_def payments_ok_def)
  have uns: "\<not> settled w (pay_id p)"
  proof
    assume "settled w (pay_id p)"
    then obtain x where x: "x \<in> set (payments w)" "pay_id x = pay_id p" "pay_status x \<in> {Pay_Paid, Pay_Refunded}"
      by (auto simp: settled_def)
    have "x = p" using row_get_unique [OF d ip(1)] row_get_unique [OF d x(1)] x(2) by simp
    with x(3) p(3,4) show False by simp
  qed
  have mono: "settled w' i" if "settled w i" for i using settled_upd [OF that f(2) q(1)] q(2) by simp
  have self: "settled w' (pay_id p)" using settled_self [OF ip(1) f(2) q(1)] q(2) by simp
  have us: "map u_id (users w') = map u_id (users w)" by (simp add: f(1) row_upd_const_keys)
  have old: "ledger_inv w" "codes_inv w" "payments_ok w" "usages_ok w"
    using inv by (simp_all add: billing_inv_def)
  have noe: "\<forall>e \<in> set (earnings w). re_payment_id e \<noteq> Some (pay_id p)"
    using old(3) uns by (auto simp: payments_ok_def)
  have nou: "\<forall>x \<in> set (usages w). ru_payment_id x \<noteq> Some (pay_id p)"
    using old(4) uns by (auto simp: usages_ok_def)
  have codes: "codes_inv w'" using old(2) codes_inv_cong [of w' w] f by simp
  show ?thesis
  proof (cases "\<exists>r. credited c w p u r")
    case False
    then have same: "usages w' = usages w" "earnings w' = earnings w" using cr by simp_all
    have "payments_ok w'"
      by (rule payments_ok_put [OF old(3) f(2) q(1) _ us])
        (use q ref same old(3) mono in \<open>auto simp: payments_ok_def\<close>)
    moreover have "usages_ok w'"
      using old(4) mono by (fastforce simp: usages_ok_def same count_non_reversed_usages_def)
    moreover have "ledger_inv w'" using old(1) by (simp add: ledger_inv_def same f)
    ultimately show ?thesis using codes r by (simp add: billing_inv_def)
  next
    case True
    then obtain rc where rc: "credited c w p u rc" "(usages w', earnings w') = with_commission c w p u rc"
      using cr by auto
    define n where "n = count_non_reversed_usages w (rc_id rc) (u_id u)"
    define us' where "us' = usage_row c w u p rc n"
    define ea' where "ea' = earning_row c w (rc_owner_id rc) (Some (u_id u)) (Some (pay_id p))
      (effective_commission_pct (Some rc) n) (commission_of rc n p)"
    have same: "usages w' = usages w @ [us']" "earnings w' = earnings w @ [ea']"
      using rc(2) by (simp_all add: with_commission_def Let_def us'_def ea'_def n_def)
    have fld: "ru_id us' = row_fresh ru_id (usages w)" "ru_payment_id us' = Some (pay_id p)"
      "ru_code_id us' = rc_id rc" "ru_referee_id us' = u_id u"
      "re_id ea' = row_fresh re_id (earnings w)" "re_payment_id ea' = Some (pay_id p)"
      "re_payout_request_id ea' = None"
      by (simp_all add: us'_def ea'_def usage_row_def earning_row_def)
    have "payments_ok w'"
      by (rule payments_ok_put [OF old(3) f(2) q(1) _ us])
        (use q ref same old(3) mono self fld in \<open>auto simp: payments_ok_def\<close>)
    moreover have "usages_ok w'"
      unfolding usages_ok_def
    proof (intro conjI allI)
      show "distinct (map ru_id (usages w'))"
        using old(4) fld row_fresh_notin [of ru_id "usages w"] by (simp add: usages_ok_def same)
      show "distinct (map ru_payment_id (usages w'))"
        using old(4) fld nou by (auto simp: usages_ok_def same)
      show "\<forall>x \<in> set (usages w'). \<exists>i. ru_payment_id x = Some i \<and> settled w' i"
        using old(4) fld mono self by (fastforce simp: usages_ok_def same)
      show "count_non_reversed_usages w' cid x \<le> usages_per_referee" for cid x
        using old(4) rc(1) fld
        by (auto simp: usages_ok_def count_non_reversed_usages_def same count_over_append credited_def)
    qed
    moreover have "ledger_inv w'"
    proof -
      have "ledger_ok (earnings w @ [ea']) (payouts w)"
        by (rule ledger_ok_add) (use old(1) fld noe row_fresh_notin [of re_id "earnings w"] in
            \<open>auto simp: ledger_inv_def image_iff\<close>)
      then show ?thesis by (simp add: ledger_inv_def same f)
    qed
    ultimately show ?thesis using codes r by (simp add: billing_inv_def)
  qed
qed

lemma payment_at:
  assumes "payments_ok w" "p \<in> set (payments w)" "settled w (pay_id p)"
  shows "pay_status p \<in> {Pay_Paid, Pay_Refunded}"
proof -
  from assms(3) obtain x where x: "x \<in> set (payments w)" "pay_id x = pay_id p"
      "pay_status x \<in> {Pay_Paid, Pay_Refunded}" by (auto simp: settled_def)
  have d: "distinct (map pay_id (payments w))" using assms(1) by (simp add: payments_ok_def)
  have "x = p" using row_get_unique [OF d assms(2)] row_get_unique [OF d x(1)] x(2) by simp
  with x(3) show ?thesis by simp
qed

lemma closed_inv:
  assumes inv: "billing_inv w" and p: "p \<in> set (payments w)" "pay_status p = Pay_Pending"
    and s: "st \<in> {Pay_Failed, Pay_Expired}"
  shows "billing_inv (put_payment c (p\<lparr>pay_status := st\<rparr>) w)"
proof -
  let ?w = "put_payment c (p\<lparr>pay_status := st\<rparr>) w"
  let ?q = "p\<lparr>pay_status := st, pay_updated_at := utcnow c\<rparr>"
  have f: "payments ?w = row_upd pay_id (pay_id p) (\<lambda>_. ?q) (payments w)"
    by (simp add: put_payment_def)
  have old: "ledger_inv w" "codes_inv w" "payments_ok w" "usages_ok w"
    using inv by (simp_all add: billing_inv_def)
  have uns: "\<not> settled w (pay_id p)" using payment_at [OF old(3) p(1)] p(2) by auto
  have mono: "settled ?w i" if i: "settled w i" for i
  proof -
    obtain x where x: "x \<in> set (payments w)" "pay_id x = i" "pay_status x \<in> {Pay_Paid, Pay_Refunded}"
      using i by (auto simp: settled_def)
    have "i \<noteq> pay_id p" using i uns by auto
    then show ?thesis
      using row_upd_member [OF x(1), of pay_id "pay_id p" "\<lambda>_. ?q"] x by (auto simp: settled_def f)
  qed
  have ref: "pay_refunded_at p = None" using old(3) p by (auto simp: payments_ok_def)
  have "payments_ok ?w"
    by (rule payments_ok_put [OF old(3) f])
      (use ref s old(3) mono in \<open>auto simp: payments_ok_def\<close>)
  moreover have "usages_ok ?w"
    using old(4) mono by (fastforce simp: usages_ok_def count_non_reversed_usages_def)
  moreover have "ledger_inv ?w" "codes_inv ?w"
    using old ledger_inv_cong [of ?w w] codes_inv_cong [of ?w w] by simp_all
  ultimately show ?thesis by (simp add: billing_inv_def)
qed

lemma refund_inv:
  assumes inv: "billing_inv w" and p: "p \<in> set (payments w)" "pay_status p = Pay_Paid"
  shows "billing_inv (snd (refund_payment c w p reason))"
proof -
  have old: "ledger_inv w" "codes_inv w" "payments_ok w" "usages_ok w"
    using inv by (simp_all add: billing_inv_def)
  obtain w' where r: "snd (refund_payment c w p reason) = w'"
    and f: "users w' = row_upd u_id (pay_user_id p) (annul c) (users w)"
    "payments w' = row_upd pay_id (pay_id p) (\<lambda>_. refunded_payment c reason p) (payments w)"
    "earnings w' = earnings (snd (reverse_commission c w (pay_id p) reason))"
    "payouts w' = payouts (snd (reverse_commission c w (pay_id p) reason))"
    "usages w' = row_upd_where (\<lambda>x. ru_payment_id x = Some (pay_id p)) (reverse_usage c reason) (usages w)"
    "codes w' = codes w" "regs w' = regs w"
    by (rule refund_form [OF old(4) p(2), of c reason]) auto
  let ?q = "refunded_payment c reason p"
  have q: "pay_id ?q = pay_id p" "pay_status ?q = Pay_Refunded" "pay_refunded_at ?q = Some (utcnow c)"
    by (simp_all add: refunded_payment_def)
  have mono: "settled w' i" if "settled w i" for i using settled_upd [OF that f(2) q(1)] q(2) by simp
  have us: "map u_id (users w') = map u_id (users w)"
    unfolding f by (rule row_upd_keys) (simp add: annul_def)
  have "payments_ok w'"
  proof (rule payments_ok_put [OF old(3) f(2) q(1) _ us])
    fix e i assume e: "e \<in> set (earnings w')" "re_payment_id e = Some i"
    then have "Some i \<in> set (map re_payment_id (earnings w'))" by force
    then have "Some i \<in> set (map re_payment_id (earnings w))"
      using reverse_payment_ids [OF old(1), of c "pay_id p" reason] unfolding f(3)
      by (metis Un_iff empty_iff empty_set option.distinct(1) set_ConsD set_append)
    then show "settled w' i" using old(3) mono by (auto simp: payments_ok_def)
  qed (use q in simp)
  moreover have "usages_ok w'"
    unfolding usages_ok_def f(5)
  proof (intro conjI allI)
    show "distinct (map ru_id (row_upd_where (\<lambda>x. ru_payment_id x = Some (pay_id p)) (reverse_usage c reason) (usages w)))"
      using old(4) by (subst row_upd_where_map) (simp_all add: reverse_usage_def usages_ok_def)
    show "distinct (map ru_payment_id (row_upd_where (\<lambda>x. ru_payment_id x = Some (pay_id p)) (reverse_usage c reason) (usages w)))"
      using old(4) by (subst row_upd_where_map) (simp_all add: reverse_usage_def usages_ok_def)
    show "\<forall>x \<in> set (row_upd_where (\<lambda>x. ru_payment_id x = Some (pay_id p)) (reverse_usage c reason) (usages w)).
        \<exists>i. ru_payment_id x = Some i \<and> settled w' i"
    proof
      fix x assume "x \<in> set (row_upd_where (\<lambda>x. ru_payment_id x = Some (pay_id p)) (reverse_usage c reason) (usages w))"
      then obtain y where "y \<in> set (usages w)" "ru_payment_id x = ru_payment_id y"
        by (auto simp: row_upd_where_def reverse_usage_def split: if_splits)
      then show "\<exists>i. ru_payment_id x = Some i \<and> settled w' i"
        using old(4) mono by (auto simp: usages_ok_def)
    qed
    fix cid x
    have "count_non_reversed_usages w' cid x \<le> count_non_reversed_usages w cid x"
      unfolding count_non_reversed_usages_def f(5)
      by (rule count_over_upd_where_le) (auto simp: reverse_usage_def split: if_splits)
    then show "count_non_reversed_usages w' cid x \<le> usages_per_referee"
      using old(4) by (auto simp: usages_ok_def intro: order_trans)
  qed
  moreover have "ledger_inv w'"
    using reverse_ledger_inv [OF old(1), of c "pay_id p" reason] f by (simp add: ledger_inv_def)
  moreover have "codes_inv w'" using old(2) codes_inv_cong [of w' w] f by simp
  ultimately show ?thesis by (simp add: billing_inv_def r)
qed

lemma checkout_tables:
  "users (snd (create_checkout c cfg post w u i j s)) = users w \<and>
   earnings (snd (create_checkout c cfg post w u i j s)) = earnings w \<and>
   payouts (snd (create_checkout c cfg post w u i j s)) = payouts w \<and>
   codes (snd (create_checkout c cfg post w u i j s)) = codes w \<and>
   regs (snd (create_checkout c cfg post w u i j s)) = regs w \<and>
   usages (snd (create_checkout c cfg post w u i j s)) = usages w \<and>
   (payments (snd (create_checkout c cfg post w u i j s)) = payments w \<or>
    (\<exists>q. payments (snd (create_checkout c cfg post w u i j s)) = payments w @ [q] \<and>
      pay_id q = row_fresh pay_id (payments w) \<and> pay_status q = Pay_Pending \<and> pay_refunded_at q = None))"
proof -
  obtain x w1 where g: "get_plan c w i = (x, w1)" by fastforce
  show ?thesis
    using get_plan_tables [OF g]
    by (auto simp: create_checkout_def g Let_def new_payment_def split: option.split sum.split)
qed

lemma append_payment_inv:
  assumes inv: "billing_inv w" and f: "payments w' = payments w @ [q]" "pay_id q = row_fresh pay_id (payments w)"
      "pay_status q = Pay_Pending" "pay_refunded_at q = None"
    and same: "users w' = users w" "earnings w' = earnings w" "payouts w' = payouts w"
      "codes w' = codes w" "regs w' = regs w" "usages w' = usages w"
  shows "billing_inv w'"
proof -
  have old: "ledger_inv w" "codes_inv w" "payments_ok w" "usages_ok w"
    using inv by (simp_all add: billing_inv_def)
  have mono: "settled w' i" if "settled w i" for i using that by (auto simp: settled_def f)
  have "payments_ok w'"
    using old(3) mono row_fresh_notin [of pay_id "payments w"] f same by (auto simp: payments_ok_def)
  moreover have "usages_ok w'"
    using old(4) mono same by (fastforce simp: usages_ok_def count_non_reversed_usages_def)
  ultimately show ?thesis
    using old ledger_inv_cong [of w' w] codes_inv_cong [of w' w] same by (simp add: billing_inv_def)
qed

lemma billing_inv_ledger:
  assumes "billing_inv w" "ledger_inv w'" "payments w' = payments w" "usages w' = usages w"
    and "map u_id (users w') = map u_id (users w)"
    and "map re_payment_id (earnings w') = map re_payment_id (earnings w)"
    and "codes w' = codes w" "regs w' = regs w"
  shows "billing_inv w'"
  using assms payments_ok_cong [of w' w] usages_ok_cong [of w' w] codes_inv_cong [of w' w]
  by (simp add: billing_inv_def)

lemma ledger_step_frame:
  assumes "e = Request c uid addr \<or> e = Complete c i nt \<or> e = Cancel c i nt"
  shows "payments (ledger_step w e) = payments w" "usages (ledger_step w e) = usages w"
    "map u_id (users (ledger_step w e)) = map u_id (users w)"
    "map re_payment_id (earnings (ledger_step w e)) = map re_payment_id (earnings w)"
    "codes (ledger_step w e) = codes w" "regs (ledger_step w e) = regs w"
  using assms
  by (auto simp: request_payout_def admin_complete_payout_def admin_cancel_payout_def Let_def
      link_earnings_simps unlink_payout_simps row_upd_keys split: option.split)

lemma payout_step_inv:
  assumes "billing_inv w" "e = Request c uid addr \<or> e = Complete c i nt \<or> e = Cancel c i nt"
  shows "billing_inv (ledger_step w e)"
  by (rule billing_inv_ledger [OF assms(1) ledger_machine.step_inv])
    (use assms(1) ledger_step_frame [OF assms(2)] in \<open>simp_all add: billing_inv_def\<close>)

lemma code_step_frame:
  "payments (code_step w e) = payments w" "usages (code_step w e) = usages w"
  "map u_id (users (code_step w e)) = map u_id (users w)"
  "earnings (code_step w e) = earnings w" "payouts (code_step w e) = payouts w"
  by (cases e; auto simp: create_self_serve_code_def create_admin_code_def insert_code_def
      bind_referee_def bind_res_Inr Let_def row_upd_keys split: sum.splits option.splits if_splits)+

lemma enforce_run_tables [simp]:
  "payments (foldl (enforce_quiet c) w us) = payments w" "earnings (foldl (enforce_quiet c) w us) = earnings w"
  "payouts (foldl (enforce_quiet c) w us) = payouts w" "codes (foldl (enforce_quiet c) w us) = codes w"
  "regs (foldl (enforce_quiet c) w us) = regs w" "usages (foldl (enforce_quiet c) w us) = usages w"
  by (induction us arbitrary: w) simp_all

lemma run_once_frame:
  "payments (snd (run_once c w)) = payments w" "earnings (snd (run_once c w)) = earnings w"
  "payouts (snd (run_once c w)) = payouts w" "codes (snd (run_once c w)) = codes w"
  "regs (snd (run_once c w)) = regs w" "usages (snd (run_once c w)) = usages w"
  "map u_id (users (snd (run_once c w))) = map u_id (users w)"
  by (auto simp: run_once_def Let_def row_upd_where_map downgrade_def split: option.split)

lemma webhook_no_user:
  assumes "invoice_payment w uuid = Some p" "row_get u_id (users w) (pay_user_id p) = None"
    and "lower status \<in> set paid_words"
  shows "snd (verify_and_apply_webhook c w uuid status) = w"
proof -
  define q where "q = p\<lparr>pay_status := Pay_Paid, pay_paid_at := Some (utcnow c)\<rparr>"
  have "activate_user c v q = (Not_Committed, v)" if "users v = users w" for v
    using assms(2) that by (simp add: activate_user_def q_def)
  moreover have "plan_cache (use_promo c q (put_payment c q w)) = plan_cache w"
    by (simp add: use_promo_def put_payment_def split: option.split)
  ultimately show ?thesis
    using assms(1,3)
    by (simp add: verify_and_apply_webhook_def Let_def q_def [symmetric] rollback_to_def)
qed

lemma closed_not_paid: "s \<in> set closed_words \<Longrightarrow> s \<notin> set paid_words"
  "s \<in> set refund_words \<Longrightarrow> s \<notin> set paid_words \<and> s \<notin> set closed_words"
  by (auto simp: closed_words_def paid_words_def refund_words_def)

lemma webhook_inv:
  assumes inv: "billing_inv w"
  shows "billing_inv (snd (verify_and_apply_webhook c w uuid status))"
proof (cases "invoice_payment w uuid")
  case None
  then show ?thesis using inv by (simp add: verify_and_apply_webhook_def)
next
  case (Some p)
  note ip = invoice_paymentD [OF Some]
  consider "lower status \<in> set paid_words" | "lower status \<notin> set paid_words" by blast
  then show ?thesis
  proof cases
    case 1
    show ?thesis
    proof (cases "pay_status p = Pay_Paid \<or> pay_status p = Pay_Refunded")
      case True
      then show ?thesis using 1 inv Some by (auto simp: verify_and_apply_webhook_def)
    next
      case False
      then show ?thesis
        using webhook_paid_inv [OF inv Some 1] webhook_no_user [OF Some _ 1, of c] inv
        by (cases "row_get u_id (users w) (pay_user_id p)") auto
    qed
  next
    case 2
    then show ?thesis
      using inv Some closed_inv [OF inv ip(1)] refund_inv [OF inv ip(1)]
      by (simp add: verify_and_apply_webhook_def Let_def)
  qed
qed

interpretation billing_machine: inv_machine billing_step billing_inv
proof
  fix w e assume inv: "billing_inv w"
  have led: "ledger_inv w" using inv by (simp add: billing_inv_def)
  show "billing_inv (billing_step w e)"
  proof (cases e)
    case (Op_Checkout c cfg post uid i j s)
    show ?thesis
    proof (cases "row_get u_id (users w) uid")
      case (Some u)
      let ?w = "snd (create_checkout c cfg post w u i j s)"
      have "billing_inv ?w"
        using checkout_tables [of c cfg post w u i j s] append_payment_inv [OF inv, of ?w]
          billing_inv_ledger [OF inv, of ?w] ledger_inv_cong [of ?w w] led by auto
      then show ?thesis using Some Op_Checkout by simp
    qed (use inv Op_Checkout in simp)
  next
    case (Op_Webhook c uuid status)
    then show ?thesis using webhook_inv [OF inv] by simp
  next
    case (Op_Refund c pid reason)
    then show ?thesis using inv refund_inv [OF inv]
      by (auto simp: admin_refund_payment_def split_beta dest: row_get_Some split: option.split)
  next
    case (Op_Request c uid addr)
    then show ?thesis
      unfolding Op_Request billing_step.simps by (intro payout_step_inv [OF inv]) blast
  next
    case (Op_Complete c pid nt)
    then show ?thesis
      unfolding Op_Complete billing_step.simps by (intro payout_step_inv [OF inv]) blast
  next
    case (Op_Cancel c pid nt)
    then show ?thesis
      unfolding Op_Cancel billing_step.simps by (intro payout_step_inv [OF inv]) blast
  next
    case (Op_Code x)
    have "codes_inv (code_step w x)" using inv code_machine.step_inv by (simp add: billing_inv_def)
    then show ?thesis
      using Op_Code inv code_step_frame [of w x] ledger_inv_cong [of "code_step w x" w]
        payments_ok_cong [of "code_step w x" w] usages_ok_cong [of "code_step w x" w]
      by (simp add: billing_inv_def)
  next
    case (Op_Expire c)
    then show ?thesis
      using billing_inv_ledger [OF inv, of "snd (run_once c w)"] run_once_frame [of c w]
        ledger_inv_cong [of "snd (run_once c w)" w] led by simp
  qed
qed

section \<open>Status order\<close>

fun status_rank :: "pay_status \<Rightarrow> nat" where
  "status_rank Pay_Pending = 1"
| "status_rank (Pay_Other _) = 1"
| "status_rank Pay_Failed = 2"
| "status_rank Pay_Expired = 2"
| "status_rank Pay_Paid = 3"
| "status_rank Pay_Refunded = 4"

definition payment_rank :: "world \<Rightarrow> int \<Rightarrow> nat" where
  "payment_rank w i = (case row_get pay_id (payments w) i of None \<Rightarrow> 0 | Some p \<Rightarrow> status_rank (pay_status p))"

lemma payment_rank_put:
  assumes "row_get pay_id (payments w) (pay_id p) = Some p" "status_rank (pay_status p) \<le> status_rank (pay_status q)"
    and "payments w' = row_upd pay_id (pay_id p) (\<lambda>_. q) (payments w)" "pay_id q = pay_id p"
  shows "payment_rank w i \<le> payment_rank w' i"
  using assms by (auto simp: payment_rank_def row_get_upd_const split: option.split)

lemma payment_rank_cong: "payments w' = payments w \<Longrightarrow> payment_rank w' i = payment_rank w i"
  by (simp add: payment_rank_def)

lemma payment_rank_append:
  "payments w' = payments w @ [q] \<Longrightarrow> payment_rank w i \<le> payment_rank w' i"
  by (simp add: payment_rank_def row_get_append split: option.split)

lemma payout_step_rank:
  assumes "e = Request c uid addr \<or> e = Complete c j nt \<or> e = Cancel c j nt"
  shows "payment_rank w i \<le> payment_rank (ledger_step w e) i"
  by (simp only: payment_rank_cong [OF ledger_step_frame(1) [OF assms]] order_refl)

lemma get_payment:
  assumes "billing_inv w" "p \<in> set (payments w)"
  shows "row_get pay_id (payments w) (pay_id p) = Some p"
  using assms by (intro row_get_unique) (simp_all add: billing_inv_def payments_ok_def)

lemma refund_rank:
  assumes inv: "billing_inv w" and p: "p \<in> set (payments w)" "pay_status p = Pay_Paid"
  shows "payment_rank w i \<le> payment_rank (snd (refund_payment c w p reason)) i"
proof -
  obtain w' where w': "snd (refund_payment c w p reason) = w'"
    "payments w' = row_upd pay_id (pay_id p) (\<lambda>_. refunded_payment c reason p) (payments w)"
    by (rule refund_form [of w p c reason]) (use inv p in \<open>auto simp: billing_inv_def\<close>)
  show ?thesis
    unfolding w'(1)
    by (rule payment_rank_put [OF get_payment [OF inv p(1)] _ w'(2)])
      (simp_all add: p refunded_payment_def)
qed

lemma webhook_rank:
  assumes inv: "billing_inv w"
  shows "payment_rank w i \<le> payment_rank (snd (verify_and_apply_webhook c w uuid status)) i"
proof (cases "invoice_payment w uuid")
  case None
  then show ?thesis by (simp add: verify_and_apply_webhook_def)
next
  case (Some p)
  note ip = invoice_paymentD [OF Some]
  note get = get_payment [OF inv ip(1)]
  show ?thesis
  proof (cases "lower status \<in> set paid_words")
    case True
    show ?thesis
    proof (cases "pay_status p = Pay_Paid \<or> pay_status p = Pay_Refunded \<or>
        row_get u_id (users w) (pay_user_id p) = None")
      case True
      then show ?thesis
        using \<open>lower status \<in> set paid_words\<close> Some webhook_no_user [OF Some]
        by (auto simp: verify_and_apply_webhook_def)
    next
      case False
      then obtain u where u: "row_get u_id (users w) (pay_user_id p) = Some u" by auto
      from False obtain plan w' where w': "snd (verify_and_apply_webhook c w uuid status) = w'"
        "payments w' = row_upd pay_id (pay_id p) (\<lambda>_. paid_payment c (activated_until c w u p) p) (payments w)"
        using webhook_paid [OF inv Some True _ _ u, of c] by (metis snd_conv)
      show ?thesis
        unfolding w'(1)
        by (rule payment_rank_put [OF get _ w'(2)])
          (use False in \<open>cases "pay_status p"; simp add: paid_payment_def\<close>)+
    qed
  next
    case False
    have "payment_rank w i \<le> payment_rank (put_payment c (p\<lparr>pay_status := st\<rparr>) w) i"
      if "pay_status p = Pay_Pending" "st \<in> {Pay_Failed, Pay_Expired}" for st
      by (rule payment_rank_put [OF get, of "p\<lparr>pay_status := st, pay_updated_at := utcnow c\<rparr>"])
        (use that in \<open>auto simp: put_payment_def\<close>)
    with False Some refund_rank [OF inv ip(1)] show ?thesis
      by (simp add: verify_and_apply_webhook_def Let_def)
  qed
qed

interpretation billing_rank: rank_machine billing_step billing_inv payment_rank
proof
  fix w e i assume inv: "billing_inv w"
  show "payment_rank w i \<le> payment_rank (billing_step w e) i"
  proof (cases e)
    case (Op_Checkout c cfg post uid a b s)
    have "payment_rank w i \<le> payment_rank (snd (create_checkout c cfg post w u a b s)) i" for u
      using checkout_tables [of c cfg post w u a b s] payment_rank_append payment_rank_cong
      by (metis order_refl)
    then show ?thesis using Op_Checkout by (simp split: option.split)
  next
    case (Op_Webhook c uuid status)
    then show ?thesis using webhook_rank [OF inv] by simp
  next
    case (Op_Refund c pid reason)
    then show ?thesis using refund_rank [OF inv]
      by (auto simp: admin_refund_payment_def split_beta dest: row_get_Some split: option.split)
  next
    case (Op_Request c uid addr)
    then show ?thesis
      unfolding Op_Request billing_step.simps by (intro payout_step_rank) blast
  next
    case (Op_Complete c pid nt)
    then show ?thesis
      unfolding Op_Complete billing_step.simps by (intro payout_step_rank) blast
  next
    case (Op_Cancel c pid nt)
    then show ?thesis
      unfolding Op_Cancel billing_step.simps by (intro payout_step_rank) blast
  next
    case (Op_Code x)
    then show ?thesis by (simp only: billing_step.simps payment_rank_cong [OF code_step_frame(1)])
  next
    case (Op_Expire c)
    then show ?thesis by (simp only: billing_step.simps payment_rank_cong [OF run_once_frame(1)])
  qed
qed

lemma find_row_upd_const:
  assumes "find Q rows = Some p" "key p = i" "Q q" "distinct (map key rows)"
  shows "find Q (row_upd key i (\<lambda>_. q) rows) = Some q"
  using assms
proof (induction rows)
  case (Cons x xs)
  have "x = p" if "Q x" using Cons.prems(1) that by simp
  moreover have "key x \<noteq> i" if "\<not> Q x"
  proof -
    have "p \<in> set xs" using Cons.prems(1) that by (auto simp: find_Some_iff)
    then show ?thesis using Cons.prems(2,4) by auto
  qed
  ultimately show ?case using Cons by (cases "Q x") auto
qed simp

lemma one_earning:
  "payments_unique es \<Longrightarrow> count_over (\<lambda>e. re_payment_id e = Some i) es \<le> 1"
proof (induction es)
  case (Cons e es)
  then have IH: "count_over (\<lambda>e. re_payment_id e = Some i) es \<le> 1"
    by (cases "re_payment_id e") (simp_all add: payments_unique_def)
  moreover have "count_over (\<lambda>e. re_payment_id e = Some i) es = 0" if "re_payment_id e = Some i"
    using Cons.prems that
    by (auto simp: payments_unique_def count_over_def filter_empty_conv) (metis image_eqI)
  ultimately show ?case by simp
qed simp

lemma count_over_upd_one:
  "x \<in> set xs \<Longrightarrow> Q x \<Longrightarrow> P x \<Longrightarrow> \<not> Q (f x) \<Longrightarrow> distinct xs \<Longrightarrow> \<forall>y \<in> set xs. P y \<longrightarrow> y = x \<Longrightarrow>
   count_over Q (row_upd_where P f xs) = count_over Q xs - 1"
proof (induction xs)
  case (Cons y ys)
  show ?case
  proof (cases "y = x")
    case True
    have "\<forall>z \<in> set ys. \<not> P z" using Cons.prems(5,6) True by (metis distinct.simps(2) list.set_intros(2))
    then have "row_upd_where P f ys = ys" by (rule row_upd_where_absent)
    then show ?thesis using True Cons.prems(2-4) by (simp add: row_upd_where_def)
  next
    case False
    have "\<not> P y" using Cons.prems(6) False by (metis list.set_intros(1))
    moreover have "count_over Q (row_upd_where P f ys) = count_over Q ys - 1"
    proof (rule Cons.IH)
      show "x \<in> set ys" using Cons.prems(1) False by simp
      show "distinct ys" using Cons.prems(5) by simp
      show "\<forall>y \<in> set ys. P y \<longrightarrow> y = x" using Cons.prems(6) by (metis list.set_intros(2))
    qed (fact Cons.prems)+
    ultimately show ?thesis by (simp add: row_upd_where_def)
  qed
next
  case Nil
  from Nil(1) show ?case by (simp only: list.set empty_iff)
qed

lemma get_plan_again:
  assumes "get_plan c w i = (Some p, w1)"
  shows "get_plan c w1 i = (Some p, w1)"
proof (cases "cache_get c w (Key_Id i)")
  case None
  then have "w1 = cache_set c (Key_Id i) p w"
    using assms by (simp add: get_plan_def cached_def split: option.splits)
  then show ?thesis by (simp add: get_plan_def cached_def cache_get_set)
next
  case (Some q)
  then show ?thesis using assms by (simp add: get_plan_def cached_def)
qed

lemma validate_cong:
  assumes "promos w' = promos w" "promo_usages w' = promo_usages w"
  shows "validate_for_plan c w' s i u = validate_for_plan c w s i u"
proof -
  have "is_eligible c p i u (Some w') = is_eligible c p i u (Some w)" for p
  proof -
    have "promo_uses_by w' = promo_uses_by w" by (intro ext) (simp add: promo_uses_by_def assms)
    then show ?thesis
      by (cases u; cases p; cases "pc_per_user_max_uses (the p)") (simp_all add: is_eligible_def)
  qed
  then show ?thesis by (simp add: validate_for_plan_def get_by_code_def assms)
qed

lemma validate_strip: "validate_for_plan c w (strip s) i u = validate_for_plan c w s i u"
  by (simp add: validate_for_plan_def get_by_code_def normalize_code_def strip_idem)

lemma sample_billing_inv: "billing_inv sample_world"
proof -
  have "referral_code_checks sample_code" "code_re (rc_code sample_code)" by code_simp+
  moreover have "rc_id sample_code = 1" "rc_owner_id sample_code = 3" "rr_code_id sample_reg = 1"
      "rr_referee_id sample_reg = 4" "pay_refunded_at sample_payment = None" "pay_status sample_payment = Pay_Pending"
    by code_simp+
  moreover have "distinct (map u_id (users sample_world))" by code_simp
  moreover have "codes sample_world = [sample_code]" "regs sample_world = [sample_reg]"
      "payments sample_world = [sample_payment]" "usages sample_world = []" "earnings sample_world = []"
      "payouts sample_world = []" by (simp_all add: sample_world_def empty_world_def)
  ultimately show ?thesis
    by (simp add: billing_inv_def ledger_inv_def ledger_ok_def links_ok_def amounts_ok_def statuses_ok_def
        payments_unique_def codes_inv_def code_row_ok_def count_owner_codes_def count_registrations_def
        payments_ok_def usages_ok_def count_non_reversed_usages_def caps)
qed

lemma sample_invoice:
  "invoice_payment sample_world ''INV1'' = Some sample_payment"
  "lower ''Success'' \<in> set paid_words" "lower ''paid'' \<in> set paid_words"
  "pay_status sample_payment = Pay_Pending" "pay_id sample_payment = 1" "pay_user_id sample_payment = 4"
  "row_get u_id (users sample_world) 4 = Some dan" "u_id dan = 4"
  by code_simp+

text \<open>The database after the provider reported Dan's payment.\<close>

definition paid_world :: world where
  "paid_world = snd (verify_and_apply_webhook sample_clock sample_world ''INV1'' ''Success'')"

lemma paid_world_inv: "billing_inv paid_world"
  unfolding paid_world_def by (rule webhook_inv [OF sample_billing_inv])

definition sample_post :: "rat \<Rightarrow> string \<Rightarrow> string \<Rightarrow> cc_reply" where
  "sample_post amount order_id description = \<lparr>cr_status_code = 200, cr_status = Some ''success'',
     cr_result = Some [''uuid'' \<mapsto> ''INV-'' @ order_id, ''link'' \<mapsto> ''https://pay''], cr_data = Map.empty\<rparr>"

definition sample_cfg :: cc_config where
  "sample_cfg = \<lparr>cc_api_key = ''key'', cc_shop_id = ''shop''\<rparr>"

section \<open>Properties\<close>

text \<open>
  C32. Pricing. For a plan with a price that is not negative, a period of at least one
  month with a discount of at most 100 %, and discounts that are not negative, the total
  discount is between 0 and 45 %, the charge is whole cents between 0 and the period's base
  price, and never more than half a cent below 55 % of it.
\<close>

theorem pricing_bounds:
  assumes "0 \<le> pl_price_usd_monthly plan" and "0 < bp_months period" and "bp_discount_pct period \<le> 100"
    and "case promo of None \<Rightarrow> True | Some q \<Rightarrow> 0 \<le> pc_discount_pct q"
    and "case ref of None \<Rightarrow> True | Some r \<Rightarrow> 0 \<le> r"
  shows "let pr = compute_pricing plan period promo ref in
     0 \<le> pr_discount_pct pr \<and> pr_discount_pct pr \<le> 45 \<and>
     0 \<le> pr_final_amount_usd pr \<and> pr_final_amount_usd pr \<le> pr_base_amount_usd pr \<and>
     pr_base_amount_usd pr * 55 / 100 - 1 / 200 \<le> pr_final_amount_usd pr \<and>
     is_cents (pr_base_amount_usd pr) \<and> is_cents (pr_final_amount_usd pr)"
proof -
  let ?pr = "compute_pricing plan period promo ref"
  define b t where "b = pr_base_amount_usd ?pr" and "t = pr_discount_pct ?pr"
  have b: "0 \<le> b" "is_cents b"
    using compute_total_nonneg [OF assms(1-3)] by (simp_all add: b_def compute_pricing_def Let_def)
  have t: "0 \<le> t" "t \<le> 45"
    using assms(4,5) by (auto simp: t_def compute_pricing_def Let_def caps split: option.splits)
  have f: "pr_final_amount_usd ?pr = quantize_half_up (b * (100 - t) / 100)"
    by (simp add: b_def t_def compute_pricing_def Let_def round_money_def)
  have le: "b * (100 - t) / 100 \<le> b" "b * 55 / 100 \<le> b * (100 - t) / 100" "0 \<le> b * (100 - t) / 100"
    using b(1) t mult_left_mono [of 0 t b] mult_left_mono [of t 45 b] by (simp_all add: algebra_simps)
  have "quantize_half_up (b * (100 - t) / 100) \<le> b"
    using quantize_half_up_mono [OF le(1)] quantize_half_up_cents [OF b(2)] by simp
  moreover have "b * 55 / 100 - 1 / 200 \<le> quantize_half_up (b * (100 - t) / 100)"
    using quantize_half_up_error [of "b * (100 - t) / 100"] le(2) by linarith
  ultimately show ?thesis
    using b t quantize_half_up_nonneg [OF le(3)]
    by (simp add: Let_def b_def [symmetric] t_def [symmetric] f)
qed

theorem pricing_bounds_witness:
  "pr_discount_pct (compute_pricing sample_pro sample_period (Some sample_promo) (Some 30)) = 45 \<and>
   pr_base_amount_usd (compute_pricing sample_pro sample_period (Some sample_promo) (Some 30)) = 54 \<and>
   pr_final_amount_usd (compute_pricing sample_pro sample_period (Some sample_promo) (Some 30)) \<le> 54"
proof -
  have "pr_discount_pct (compute_pricing sample_pro sample_period (Some sample_promo) (Some 30)) = 45"
       "pr_base_amount_usd (compute_pricing sample_pro sample_period (Some sample_promo) (Some 30)) = 54"
    by code_simp+
  moreover have "0 \<le> pl_price_usd_monthly sample_pro" "0 < bp_months sample_period"
      "bp_discount_pct sample_period \<le> 100" "0 \<le> pc_discount_pct sample_promo" by code_simp+
  ultimately show ?thesis
    using pricing_bounds [of sample_pro sample_period "Some sample_promo" "Some 30"] by (simp add: Let_def)
qed

text \<open>
  C11. Activation. A paid webhook for a payment not yet settled commits: the payment is
  paid, its user holds the plan until the later of now and the old expiry, plus the
  period and the promo's bonus, and a commission (usage and earning of the same amount,
  between 0 and 45 % of the charge) is credited exactly when the user is bound to a code
  of someone else with fewer than five live usages.
\<close>

theorem webhook_activates:
  assumes "billing_inv w" and "invoice_payment w uuid = Some p" and "lower status \<in> set paid_words"
    and "pay_status p \<noteq> Pay_Paid" and "pay_status p \<noteq> Pay_Refunded"
    and "row_get u_id (users w) (pay_user_id p) = Some u" and "0 \<le> pay_final_amount_usd p"
  shows "\<exists>w'. verify_and_apply_webhook c w uuid status = (Inr (Some (pay_id p)), w') \<and>
     map_option pay_status (row_get pay_id (payments w') (pay_id p)) = Some Pay_Paid \<and>
     map_option (\<lambda>x. (u_plan_id x, u_plan_expires_at x)) (row_get u_id (users w') (u_id u)) =
       Some (Some (pay_plan_id p), Some (max (utcnow c) (case u_plan_expires_at u of Some t \<Rightarrow> t | None \<Rightarrow> utcnow c) +
         payment_window w p + payment_bonus w p)) \<and>
     (if \<exists>r. credited c w p u r
      then \<exists>x e. usages w' = usages w @ [x] \<and> earnings w' = earnings w @ [e] \<and>
         ru_payment_id x = Some (pay_id p) \<and> re_payment_id e = Some (pay_id p) \<and>
         ru_commission_earned x = re_amount_usd e \<and> 0 \<le> re_amount_usd e \<and>
         re_amount_usd e \<le> pay_final_amount_usd p * 45 / 100 + 1 / 200
      else usages w' = usages w \<and> earnings w' = earnings w)"
proof -
  obtain plan w' where r: "verify_and_apply_webhook c w uuid status = (Inr (Some (pay_id p)), w')"
    and f: "users w' = row_upd u_id (u_id u) (\<lambda>_. grant p plan (activated_until c w u p) u) (users w)"
    "payments w' = row_upd pay_id (pay_id p) (\<lambda>_. paid_payment c (activated_until c w u p) p) (payments w)"
    and cr: "if \<exists>r. credited c w p u r
     then \<exists>r. credited c w p u r \<and> (usages w', earnings w') = with_commission c w p u r
     else (usages w', earnings w') = (usages w, earnings w)"
    by (rule webhook_paid [OF assms(1-6), of c]) blast
  have u: "row_get u_id (users w) (u_id u) = Some u" using assms(6) row_get_Some [OF assms(6)] by simp
  have pp: "row_get pay_id (payments w) (pay_id p) = Some p"
    using get_payment [OF assms(1) invoice_paymentD(1) [OF assms(2)]] .
  have com: "0 \<le> commission_of x n p \<and> commission_of x n p \<le> pay_final_amount_usd p * 45 / 100 + 1 / 200" for x n
  proof -
    define k where "k = effective_commission_pct (Some x) n"
    have k: "0 \<le> k" "k \<le> 45" using effective_pct_range(2) [of "Some x" n] by (simp_all add: k_def)
    have "pay_final_amount_usd p * k / 100 \<le> pay_final_amount_usd p * 45 / 100"
      using mult_left_mono [OF k(2) assms(7)] by (simp add: mult.commute)
    moreover have "0 \<le> pay_final_amount_usd p * k / 100" using assms(7) k by simp
    ultimately show ?thesis
      using quantize_half_even_error [of "pay_final_amount_usd p * k / 100"]
        quantize_half_even_nonneg [of "pay_final_amount_usd p * k / 100"]
      unfolding commission_of_def k_def [symmetric] by linarith
  qed
  have "if \<exists>r. credited c w p u r
      then \<exists>x e. usages w' = usages w @ [x] \<and> earnings w' = earnings w @ [e] \<and>
         ru_payment_id x = Some (pay_id p) \<and> re_payment_id e = Some (pay_id p) \<and>
         ru_commission_earned x = re_amount_usd e \<and> 0 \<le> re_amount_usd e \<and>
         re_amount_usd e \<le> pay_final_amount_usd p * 45 / 100 + 1 / 200
      else usages w' = usages w \<and> earnings w' = earnings w"
  proof (cases "\<exists>r. credited c w p u r")
    case True
    with cr obtain rc where "(usages w', earnings w') = with_commission c w p u rc" by auto
    with com True show ?thesis
      by (auto simp: with_commission_def Let_def usage_row_def earning_row_def)
  qed (use cr in simp)
  then show ?thesis
    using r f u pp
    by (intro exI [of _ w'])
      (simp add: row_get_upd_const paid_payment_def activated_until_def base_until_def max.commute)
qed

theorem webhook_activates_witness:
  "\<exists>w'. verify_and_apply_webhook sample_clock sample_world ''INV1'' ''Success'' = (Inr (Some 1), w') \<and>
     map_option u_plan_expires_at (row_get u_id (users w') 4) = Some (Some (days_us 197)) \<and>
     (\<exists>e. earnings w' = [e] \<and> re_payment_id e = Some 1)"
proof -
  have nn: "0 \<le> pay_final_amount_usd sample_payment" by code_simp
  have n: "pay_status sample_payment \<noteq> Pay_Paid" "pay_status sample_payment \<noteq> Pay_Refunded"
      "row_get u_id (users sample_world) (pay_user_id sample_payment) = Some dan"
    by (simp_all add: sample_invoice)
  obtain w' where w': "verify_and_apply_webhook sample_clock sample_world ''INV1'' ''Success'' = (Inr (Some 1), w')"
    and ex: "map_option (\<lambda>x. (u_plan_id x, u_plan_expires_at x)) (row_get u_id (users w') 4) =
      Some (Some (pay_plan_id sample_payment), Some (max (utcnow sample_clock)
        (case u_plan_expires_at dan of Some t \<Rightarrow> t | None \<Rightarrow> utcnow sample_clock) +
        payment_window sample_world sample_payment + payment_bonus sample_world sample_payment))"
    and cr: "if \<exists>r. credited sample_clock sample_world sample_payment dan r
      then \<exists>x e. usages w' = usages sample_world @ [x] \<and> earnings w' = earnings sample_world @ [e] \<and>
        ru_payment_id x = Some 1 \<and> re_payment_id e = Some 1 \<and> ru_commission_earned x = re_amount_usd e \<and>
        0 \<le> re_amount_usd e \<and> re_amount_usd e \<le> pay_final_amount_usd sample_payment * 45 / 100 + 1 / 200
      else usages w' = usages sample_world \<and> earnings w' = earnings sample_world"
    using webhook_activates [OF sample_billing_inv sample_invoice(1,2) n nn, of sample_clock]
    unfolding sample_invoice(5,8) by blast
  have t: "max (utcnow sample_clock) (case u_plan_expires_at dan of Some t \<Rightarrow> t | None \<Rightarrow> utcnow sample_clock) +
      payment_window sample_world sample_payment + payment_bonus sample_world sample_payment = days_us 197"
    by code_simp
  have "credited sample_clock sample_world sample_payment dan sample_code"
    unfolding credited_def by (intro conjI; code_simp)
  then have cx: "\<exists>r. credited sample_clock sample_world sample_payment dan r" by blast
  have "earnings sample_world = []" by (simp add: sample_world_def empty_world_def)
  then have "\<exists>e. earnings w' = [e] \<and> re_payment_id e = Some 1"
    using cr unfolding if_P [OF cx] by auto
  then show ?thesis using w' ex unfolding t by (auto simp: map_option_case split: option.splits)
qed

text \<open>
  C25. Idempotent delivery. Once a paid webhook has been applied, any further paid
  delivery for the invoice, at any time, changes nothing: the plan is extended once, the
  promo is used once, the commission is credited once.
\<close>

theorem webhook_idempotent:
  assumes "billing_inv w" and "invoice_payment w uuid = Some p" and "lower status \<in> set paid_words"
    and "pay_status p \<noteq> Pay_Paid" and "pay_status p \<noteq> Pay_Refunded"
    and "row_get u_id (users w) (pay_user_id p) = Some u" and "lower status2 \<in> set paid_words"
  shows "let w1 = snd (verify_and_apply_webhook c w uuid status)
     in verify_and_apply_webhook c2 w1 uuid status2 = (Inr (Some (pay_id p)), w1)"
proof -
  obtain plan w1 where r: "snd (verify_and_apply_webhook c w uuid status) = w1"
    and f: "payments w1 = row_upd pay_id (pay_id p) (\<lambda>_. paid_payment c (activated_until c w u p) p) (payments w)"
    using webhook_paid [OF assms(1-6), of c] by (metis snd_conv)
  have "invoice_payment w1 uuid = Some (paid_payment c (activated_until c w u p) p)"
    unfolding invoice_payment_def f
    by (rule find_row_upd_const)
      (use assms(1,2) in \<open>auto simp: invoice_payment_def billing_inv_def payments_ok_def paid_payment_def
        dest: invoice_paymentD(2) [unfolded invoice_payment_def]\<close>)
  then show ?thesis
    using r assms(7) by (simp add: verify_and_apply_webhook_def paid_payment_def Let_def)
qed

theorem webhook_idempotent_witness:
  "verify_and_apply_webhook later_clock paid_world ''INV1'' ''paid'' = (Inr (Some 1), paid_world) \<and>
   map pay_status (payments paid_world) = [Pay_Paid]"
proof -
  have "map pay_status (payments paid_world) = [Pay_Paid]" by code_simp
  moreover have "verify_and_apply_webhook later_clock paid_world ''INV1'' ''paid'' = (Inr (Some 1), paid_world)"
    using webhook_idempotent [OF sample_billing_inv sample_invoice(1,2), of dan "''paid''" sample_clock later_clock]
      sample_invoice by (simp add: paid_world_def Let_def)
  ultimately show ?thesis by simp
qed

text \<open>
  A payment only moves forward (pending, failed or expired, paid, refunded) in any
  run of billing operations; so a refunded payment stays refunded whatever the provider
  sends later.
\<close>

theorem payment_moves_forward:
  assumes "billing_inv w" and "row_get pay_id (payments w) i = Some p"
  shows "\<exists>p'. row_get pay_id (payments (foldl billing_step w ops)) i = Some p' \<and>
     status_rank (pay_status p) \<le> status_rank (pay_status p') \<and>
     (pay_status p = Pay_Refunded \<longrightarrow> pay_status p' = Pay_Refunded)"
proof -
  have le: "payment_rank w i \<le> payment_rank (foldl billing_step w ops) i"
    by (rule billing_rank.run_rank [OF assms(1)])
  have pos: "0 < status_rank x" for x by (cases x) simp_all
  have top: "4 \<le> status_rank x \<Longrightarrow> x = Pay_Refunded" for x by (cases x) simp_all
  obtain p' where p': "row_get pay_id (payments (foldl billing_step w ops)) i = Some p'"
    using le pos [of "pay_status p"] assms(2) by (auto simp: payment_rank_def split: option.splits)
  have rk: "status_rank (pay_status p) \<le> status_rank (pay_status p')"
    using le p' assms(2) by (simp add: payment_rank_def)
  have "pay_status p' = Pay_Refunded" if "pay_status p = Pay_Refunded"
    using rk that by (intro top) simp
  with rk p' show ?thesis by blast
qed

theorem payment_moves_forward_witness:
  "\<exists>p. row_get pay_id (payments (foldl billing_step sample_world
       [Op_Webhook sample_clock ''INV1'' ''paid'', Op_Refund sample_clock 1 None,
        Op_Webhook later_clock ''INV1'' ''paid''])) 1 = Some p \<and> pay_status p = Pay_Refunded"
proof -
  let ?w = "foldl billing_step sample_world [Op_Webhook sample_clock ''INV1'' ''paid'', Op_Refund sample_clock 1 None]"
  have "billing_inv ?w" by (rule billing_machine.run_inv [OF sample_billing_inv])
  moreover have "map_option pay_status (row_get pay_id (payments ?w) 1) = Some Pay_Refunded" by code_simp
  ultimately show ?thesis
    using payment_moves_forward [of ?w 1 _ "[Op_Webhook later_clock ''INV1'' ''paid'']"] by auto
qed

text \<open>
  C1. Every run keeps the books. From any state that satisfies the invariant (an empty
  billing database does), whatever checkouts, webhooks, refunds, payouts, code operations
  and expiry passes follow: every user's ledger balances, no referee has more than five
  live usages of a code, and no payment has earned two commissions.
\<close>

theorem billing_runs_balance:
  assumes "billing_inv w"
  shows "let w' = foldl billing_step w ops in
     total_earned w' u = total_paid w' u + total_pending w' u + available_balance w' u \<and>
     count_non_reversed_usages w' cid u \<le> 5 \<and>
     count_over (\<lambda>e. re_payment_id e = Some i) (earnings w') \<le> 1"
proof -
  let ?w = "foldl billing_step w ops"
  have inv: "billing_inv ?w" by (rule billing_machine.run_inv [OF assms])
  then have "count_over (\<lambda>e. re_payment_id e = Some i) (earnings ?w) \<le> 1"
    by (intro one_earning) (simp add: billing_inv_def ledger_inv_def ledger_ok_def)
  then show ?thesis
    using inv ledger_balance [of ?w u]
    by (simp add: Let_def billing_inv_def usages_ok_def caps)
qed

theorem billing_runs_balance_witness:
  "let w' = foldl billing_step sample_world
      [Op_Webhook sample_clock ''INV1'' ''paid'', Op_Webhook later_clock ''INV1'' ''chargeback'']
   in count_non_reversed_usages w' 1 4 \<le> 5 \<and> total_earned w' 3 = total_paid w' 3 + total_pending w' 3 + available_balance w' 3"
  using billing_runs_balance [OF sample_billing_inv,
    of "[Op_Webhook sample_clock ''INV1'' ''paid'', Op_Webhook later_clock ''INV1'' ''chargeback'']" 3 1]
    billing_runs_balance [OF sample_billing_inv,
    of "[Op_Webhook sample_clock ''INV1'' ''paid'', Op_Webhook later_clock ''INV1'' ''chargeback'']" 4 1]
  unfolding Let_def by blast

text \<open>
  C31. Refund. Refunding a paid payment whose commission was credited marks it refunded,
  ends the user's plan at once, takes exactly the commission back from the referrer, and
  frees the referee's slot of the code.
\<close>

theorem refund_takes_back:
  assumes "billing_inv w" and "p \<in> set (payments w)" and "pay_status p = Pay_Paid"
    and "original_earning w (pay_id p) = Some e" and "re_reversed_at e = None"
    and "x \<in> set (usages w)" and "ru_payment_id x = Some (pay_id p)" and "ru_reversed_at x = None"
    and "row_get u_id (users w) (pay_user_id p) = Some u"
  shows "let w' = snd (refund_payment c w p reason) in
     map_option pay_status (row_get pay_id (payments w') (pay_id p)) = Some Pay_Refunded \<and>
     map_option u_plan_expires_at (row_get u_id (users w') (u_id u)) = Some (Some (utcnow c)) \<and>
     total_earned w' (re_referrer_id e) = total_earned w (re_referrer_id e) - re_amount_usd e \<and>
     count_non_reversed_usages w' (ru_code_id x) (ru_referee_id x) =
       count_non_reversed_usages w (ru_code_id x) (ru_referee_id x) - 1"
proof -
  have inv: "ledger_inv w" "usages_ok w" using assms(1) by (simp_all add: billing_inv_def)
  obtain w' where w': "snd (refund_payment c w p reason) = w'"
    "users w' = row_upd u_id (pay_user_id p) (annul c) (users w)"
    "payments w' = row_upd pay_id (pay_id p) (\<lambda>_. refunded_payment c reason p) (payments w)"
    "earnings w' = earnings (snd (reverse_commission c w (pay_id p) reason))"
    "usages w' = row_upd_where (\<lambda>x. ru_payment_id x = Some (pay_id p)) (reverse_usage c reason) (usages w)"
    by (rule refund_form [OF inv(2) assms(3), of c reason]) auto
  have te: "total_earned w' (re_referrer_id e) = total_earned w (re_referrer_id e) - re_amount_usd e"
    using reversal_debit [OF inv(1) assms(4,5), of c reason "re_referrer_id e"]
    by (simp add: total_earned_def w'(4))
  have cnt: "count_non_reversed_usages w' (ru_code_id x) (ru_referee_id x) =
      count_non_reversed_usages w (ru_code_id x) (ru_referee_id x) - 1"
    unfolding count_non_reversed_usages_def w'(5)
  proof (rule count_over_upd_one)
    show "distinct (usages w)" using inv(2) by (simp add: usages_ok_def distinct_map)
    have "inj_on ru_payment_id (set (usages w))" using inv(2) by (simp add: usages_ok_def distinct_map)
    then show "\<forall>y \<in> set (usages w). ru_payment_id y = Some (pay_id p) \<longrightarrow> y = x"
      using assms(6,7) by (metis inj_onD)
  qed (use assms in \<open>simp_all add: reverse_usage_def\<close>)
  have "row_get u_id (users w') (u_id u) = Some (annul c u)"
    using assms(9) row_get_Some [OF assms(9)] by (simp add: w'(2) row_get_upd annul_def)
  moreover have "row_get pay_id (payments w') (pay_id p) = Some (refunded_payment c reason p)"
    using get_payment [OF assms(1,2)] by (simp add: w'(3) row_get_upd_const refunded_payment_def)
  ultimately show ?thesis
    using te cnt by (simp add: Let_def w'(1) annul_def refunded_payment_def)
qed

theorem refund_takes_back_witness:
  "\<exists>p. row_get pay_id (payments paid_world) 1 = Some p \<and>
     total_earned (snd (refund_payment later_clock paid_world p None)) 3 = total_earned paid_world 3 - 567 / 100 \<and>
     count_non_reversed_usages (snd (refund_payment later_clock paid_world p None)) 1 4 = 0"
proof -
  have "case payments paid_world of [p] \<Rightarrow> pay_status p = Pay_Paid \<and> pay_id p = 1 \<and> pay_user_id p = 4 | _ \<Rightarrow> False"
    by code_simp
  then obtain p where p: "payments paid_world = [p]" "pay_status p = Pay_Paid" "pay_id p = 1" "pay_user_id p = 4"
    by (auto split: list.splits)
  have "case usages paid_world of [x] \<Rightarrow> ru_payment_id x = Some 1 \<and> ru_reversed_at x = None \<and>
      ru_code_id x = 1 \<and> ru_referee_id x = 4 | _ \<Rightarrow> False"
    by code_simp
  then obtain x where x: "usages paid_world = [x]" "ru_payment_id x = Some 1" "ru_reversed_at x = None"
      "ru_code_id x = 1" "ru_referee_id x = 4"
    by (auto split: list.splits)
  have "case original_earning paid_world 1 of
      Some e \<Rightarrow> re_reversed_at e = None \<and> re_referrer_id e = 3 \<and> re_amount_usd e = 567 / 100 | None \<Rightarrow> False"
    by code_simp
  then obtain e where e: "original_earning paid_world 1 = Some e" "re_reversed_at e = None"
      "re_referrer_id e = 3" "re_amount_usd e = 567 / 100"
    by (auto split: option.splits)
  have "case row_get u_id (users paid_world) 4 of Some u \<Rightarrow> True | None \<Rightarrow> False" by code_simp
  then obtain u where u: "row_get u_id (users paid_world) 4 = Some u" by (auto split: option.splits)
  have "count_non_reversed_usages paid_world 1 4 = 1" by code_simp
  then show ?thesis
    using refund_takes_back [OF paid_world_inv, of p e x u later_clock None] p x e u
    by (simp add: Let_def)
qed

text \<open>
  The price shown is the price charged: when the promo preview and then a checkout
  with the same code succeed, the invoice is for the previewed amount, and the stored
  pending payment carries it with the previewed discount.
\<close>

theorem preview_price_is_charged:
  assumes "promo_validate c w u (Some code) plan_id period_id = (Preview_Valid promo pr ref, w1)"
    and "create_checkout c cfg post w1 u plan_id period_id (Some code) = (Inr ck, w2)"
    and "coherent c w"
  shows "ck_amount_usd ck = pr_final_amount_usd pr \<and> ck_discount_pct ck = pr_discount_pct pr \<and>
     (\<exists>p. row_get pay_id (payments w2) (ck_payment_id ck) = Some p \<and> pay_status p = Pay_Pending \<and>
        pay_final_amount_usd p = pr_final_amount_usd pr \<and> pay_base_amount_usd p = pr_base_amount_usd pr \<and>
        pay_promo_code_id p = Some (pc_id promo))"
proof -
  obtain pl v where g: "get_plan c w plan_id = (pl, v)" by fastforce
  have ne: "strip code \<noteq> []" and val: "validate_for_plan c w code plan_id (Some (u_id u)) = Some promo"
    using assms(1)
    by (auto simp: promo_validate_def Let_def g validate_strip split: option.splits if_splits)
  obtain plan period where pp: "pl = Some plan" "get_period w1 period_id = Some period" "v = w1"
    and pr: "pr = compute_pricing plan period (Some promo)
      (case signup_discount w1 u of Some r \<Rightarrow> if 0 < r then Some r else None | None \<Rightarrow> None)"
    using assms(1) ne val
    by (auto simp: promo_validate_def Let_def g validate_strip split: option.splits if_splits)
  have id: "pl_id plan = plan_id"
    using lookups_coherent(1) [OF assms(3), of plan_id] pp(1) by (simp add: g row_get_Some)
  have "0 \<le> r" if "signup_discount w1 u = Some r" for r
    using that effective_pct_range(1) by (auto simp: signup_discount_def split: option.splits)
  then have same: "pr = compute_pricing plan period (Some promo) (signup_discount w1 u)"
    by (auto simp: pr compute_pricing_def split: option.split)
  have gen: "get_plan c w1 plan_id = (Some plan, w1)" using get_plan_again g pp by blast
  note t = get_plan_tables [OF g, unfolded pp(3)]
  have val1: "validate_for_plan c w1 code plan_id (Some (u_id u)) = Some promo"
    using val validate_cong [of w1 w] t by simp
  obtain ch cs where code: "code = ch # cs" using ne by (cases code) (simp_all add: strip_def)
  have fresh: "row_get pay_id (payments w1) (row_fresh pay_id (payments w1)) = None"
    by (simp add: row_get_None row_fresh_notin)
  show ?thesis
    using assms(2) fresh
    by (auto simp: create_checkout_def gen pp(2) code [symmetric] val1 id same [symmetric] new_payment_def
        row_get_append Let_def split: if_splits sum.splits)
      (simp_all add: code val1 [unfolded code] id same [symmetric])
qed

theorem preview_price_is_charged_witness:
  "\<exists>promo pr ref w1 ck w2.
     promo_validate sample_clock sample_world dan (Some ''early'') 2 1 = (Preview_Valid promo pr ref, w1) \<and>
     create_checkout sample_clock sample_cfg sample_post w1 dan 2 1 (Some ''early'') = (Inr ck, w2) \<and>
     ck_amount_usd ck = pr_final_amount_usd pr \<and> ck_discount_pct ck = 30"
proof -
  have "case promo_validate sample_clock sample_world dan (Some ''early'') 2 1 of
      (Preview_Valid promo pr ref, w1) \<Rightarrow>
        (case create_checkout sample_clock sample_cfg sample_post w1 dan 2 1 (Some ''early'') of
           (Inr ck, w2) \<Rightarrow> ck_discount_pct ck = 30 | _ \<Rightarrow> False)
    | _ \<Rightarrow> False"
    by code_simp
  then obtain promo pr ref w1 ck w2 where
      h: "promo_validate sample_clock sample_world dan (Some ''early'') 2 1 = (Preview_Valid promo pr ref, w1)"
      "create_checkout sample_clock sample_cfg sample_post w1 dan 2 1 (Some ''early'') = (Inr ck, w2)"
      "ck_discount_pct ck = 30"
    by (auto split: prod.splits promo_preview.splits sum.splits)
  then show ?thesis using preview_price_is_charged [OF h(1,2) sample_coherent] by blast
qed

text \<open>
  Webhook authentication. Without a configured secret, or with a token the secret
  does not verify, the webhook route changes nothing at all.
\<close>

theorem unsigned_webhook_rejected:
  assumes "secret = [] \<or> (\<forall>t. \<not> decodes secret t)"
  shows "snd (cryptocloud_webhook decodes secret c w auth payload) = w \<and>
     fst (cryptocloud_webhook decodes secret c w auth payload) \<in> {WH_Not_Configured, WH_Unauthorized}"
proof -
  have "\<not> verify_webhook_signature decodes secret t" for t
    using assms by (auto simp: verify_webhook_signature_def split: option.split list.split)
  then show ?thesis by (simp add: cryptocloud_webhook_def Let_def)
qed

theorem unsigned_webhook_rejected_witness:
  "cryptocloud_webhook (\<lambda>_ _. False) ''secret'' sample_clock sample_world ''Bearer x''
     [''invoice_id'' \<mapsto> ''INV1'', ''status'' \<mapsto> ''paid''] = (WH_Unauthorized, sample_world)"
proof -
  have "fst (cryptocloud_webhook (\<lambda>_ _. False) ''secret'' sample_clock sample_world ''Bearer x''
      [''invoice_id'' \<mapsto> ''INV1'', ''status'' \<mapsto> ''paid'']) = WH_Unauthorized"
    by code_simp
  then show ?thesis
    using unsigned_webhook_rejected [of "''secret''" "\<lambda>_ _. False" sample_clock sample_world "''Bearer x''"
        "[''invoice_id'' \<mapsto> ''INV1'', ''status'' \<mapsto> ''paid'']"]
    by (simp add: prod_eq_iff)
qed

end
