(* ===== verification/Rate_Limits.thy ===== *)
theory Rate_Limits
  imports Prelude
begin

text \<open>
  Guards against overload and abuse: the per-exchange circuit breaker
  (\<^verbatim>\<open>backend/services/_circuit.py\<close>), the endpoint and login rate limiters
  (\<^verbatim>\<open>backend/services/rate_limit.py\<close> and the inline one of \<^verbatim>\<open>backend/api/v1/auth.py\<close>) and the
  login throttle (\<^verbatim>\<open>backend/services/login_throttle.py\<close>). Redis is a parameter: a record of
  its commands, each of which may raise. A process-local dict is a function from keys.
\<close>

definition wall :: "clock \<Rightarrow> rat" where
  "wall c = of_int (utcnow c) / 1000000"

section \<open>Circuit breaker\<close>

record breaker_config =
  cb_threshold :: int
  cb_window_s :: rat
  cb_cooldown_s :: rat

definition default_breaker :: breaker_config where
  "default_breaker = \<lparr>cb_threshold = 10, cb_window_s = 60, cb_cooldown_s = 60\<rparr>"

record breaker =
  cb_failures :: "string \<Rightarrow> rat list option"
  cb_open_until :: "string \<Rightarrow> rat option"

definition closed_breaker :: breaker where
  "closed_breaker = \<lparr>cb_failures = (\<lambda>_. None), cb_open_until = (\<lambda>_. None)\<rparr>"

definition breaker_allow :: "clock \<Rightarrow> breaker \<Rightarrow> string \<Rightarrow> bool \<times> breaker" where
  "breaker_allow c b ex =
     (let now = wall c; until = (case cb_open_until b ex of Some t \<Rightarrow> t | None \<Rightarrow> 0)
      in if now < until then (False, b)
         else if until \<noteq> 0 \<and> until \<le> now
         then (True, b\<lparr>cb_open_until := (cb_open_until b)(ex := None), cb_failures := (cb_failures b)(ex := None)\<rparr>)
         else (True, b))"

definition breaker_fail :: "breaker_config \<Rightarrow> clock \<Rightarrow> breaker \<Rightarrow> string \<Rightarrow> breaker" where
  "breaker_fail cfg c b ex =
     (let now = wall c;
          q = (case cb_failures b ex of Some q \<Rightarrow> q | None \<Rightarrow> []) @ [now];
          q' = dropWhile (\<lambda>t. t < now - cb_window_s cfg) q
      in if cb_threshold cfg \<le> int (length q')
         then b\<lparr>cb_open_until := (cb_open_until b)(ex \<mapsto> now + cb_cooldown_s cfg),
                cb_failures := (cb_failures b)(ex \<mapsto> [])\<rparr>
         else b\<lparr>cb_failures := (cb_failures b)(ex \<mapsto> q')\<rparr>)"

definition breaker_hard_fail :: "breaker_config \<Rightarrow> clock \<Rightarrow> breaker \<Rightarrow> string \<Rightarrow> rat option \<Rightarrow> breaker" where
  "breaker_hard_fail cfg c b ex cooldown =
     b\<lparr>cb_open_until := (cb_open_until b)(ex \<mapsto> wall c +
          (case cooldown of Some d \<Rightarrow> d | None \<Rightarrow> cb_cooldown_s cfg)),
       cb_failures := (cb_failures b)(ex := None)\<rparr>"

definition breaker_ok :: "breaker \<Rightarrow> string \<Rightarrow> breaker" where
  "breaker_ok b ex =
     (case cb_failures b ex of
        Some q \<Rightarrow> b\<lparr>cb_failures := (cb_failures b)(ex \<mapsto> drop (length q div 2) q)\<rparr>
      | None \<Rightarrow> b)"

record breaker_view =
  bv_failures_window :: "int option"
  bv_cooldown_left_s :: "rat option"

definition breaker_state :: "breaker_config \<Rightarrow> clock \<Rightarrow> breaker \<Rightarrow> string \<Rightarrow> breaker_view option" where
  "breaker_state cfg c b ex =
     (if cb_failures b ex = None \<and> cb_open_until b ex = None then None
      else Some \<lparr>
        bv_failures_window = map_option (\<lambda>q. count_over (\<lambda>t. wall c - cb_window_s cfg \<le> t) q) (cb_failures b ex),
        bv_cooldown_left_s = map_option
          (\<lambda>u. max 0 (of_int (round_half_even ((u - wall c) * 10)) / 10)) (cb_open_until b ex)\<rparr>)"

section \<open>Redis\<close>

text \<open>
  The commands the program uses. \<open>None\<close>, or \<open>False\<close> for a command without a result, is
  a raised exception. \<open>rd_scan\<close> yields the pages of a complete SCAN over a key prefix.
\<close>

record 'r redis =
  rd_incr :: "string \<Rightarrow> 'r \<Rightarrow> int option \<times> 'r"
  rd_expire :: "string \<Rightarrow> int \<Rightarrow> 'r \<Rightarrow> bool \<times> 'r"
  rd_ttl :: "string \<Rightarrow> 'r \<Rightarrow> int option"
  rd_set_ex :: "string \<Rightarrow> string \<Rightarrow> int \<Rightarrow> 'r \<Rightarrow> bool \<times> 'r"
  rd_get :: "string \<Rightarrow> 'r \<Rightarrow> string option option"
  rd_delete :: "string list \<Rightarrow> 'r \<Rightarrow> bool \<times> 'r"
  rd_exists :: "string \<Rightarrow> 'r \<Rightarrow> bool option"
  rd_scan :: "string \<Rightarrow> 'r \<Rightarrow> string list list option"
  rd_mget :: "string list \<Rightarrow> 'r \<Rightarrow> string option list option"

text \<open>The lazy client: after a failed connect no new attempt is made for ten seconds.\<close>

record redis_conn =
  rn_connected :: bool
  rn_failed_ts :: rat

definition get_redis :: "string \<Rightarrow> clock \<Rightarrow> bool \<Rightarrow> redis_conn \<Rightarrow> bool \<times> redis_conn" where
  "get_redis url c reachable conn =
     (if url = [] then (False, conn)
      else if rn_connected conn then (True, conn)
      else if wall c - rn_failed_ts conn < 10 then (False, conn)
      else if reachable then (True, conn\<lparr>rn_connected := True\<rparr>)
      else (False, conn\<lparr>rn_connected := False, rn_failed_ts := wall c\<rparr>))"

section \<open>Rate limits\<close>

record bucket =
  bk_max_attempts :: int
  bk_window_sec :: int
  bk_block_sec :: int

type_synonym attempts = "string \<Rightarrow> rat list"

text \<open>\<open>Inl n\<close> is the 429 response with its Retry-After.\<close>

definition bucket_check :: "bucket \<Rightarrow> clock \<Rightarrow> string \<Rightarrow> attempts \<Rightarrow> (int + unit) \<times> attempts" where
  "bucket_check b c key a =
     (let live = filter (\<lambda>t. monotonic c - of_int (bk_window_sec b) < t) (a key)
      in (if bk_max_attempts b \<le> int (length live) then Inl (bk_block_sec b) else Inr (), a(key := live)))"

definition bucket_record :: "clock \<Rightarrow> string \<Rightarrow> attempts \<Rightarrow> attempts" where
  "bucket_record c key a = a(key := a key @ [monotonic c])"

definition buckets :: "string \<Rightarrow> bucket option" where
  "buckets name = map_of
     [(''payments_checkout'', \<lparr>bk_max_attempts = 5, bk_window_sec = 60, bk_block_sec = 300\<rparr>),
      (''promo_validate'', \<lparr>bk_max_attempts = 10, bk_window_sec = 60, bk_block_sec = 300\<rparr>),
      (''wallets_create'', \<lparr>bk_max_attempts = 30, bk_window_sec = 3600, bk_block_sec = 900\<rparr>),
      (''admin_write'', \<lparr>bk_max_attempts = 60, bk_window_sec = 60, bk_block_sec = 120\<rparr>),
      (''screener_public'', \<lparr>bk_max_attempts = 120, bk_window_sec = 60, bk_block_sec = 120\<rparr>)] name"

record request =
  rq_forwarded_for :: "string option"
  rq_client_host :: "string option"

definition host_of :: "request \<Rightarrow> string" where
  "host_of r = (case rq_client_host r of Some h \<Rightarrow> h | None \<Rightarrow> ''unknown'')"

definition first_hop :: "string \<Rightarrow> string" where
  "first_hop s = strip (takeWhile (\<lambda>ch. ch \<noteq> CHR '','') s)"

definition get_ip :: "request \<Rightarrow> string" where
  "get_ip r = (case rq_forwarded_for r of Some (ch # cs) \<Rightarrow> first_hop (ch # cs) | _ \<Rightarrow> host_of r)"

definition client_key :: "request \<Rightarrow> string option \<Rightarrow> string" where
  "client_key r suffix =
     (case suffix of Some (ch # cs) \<Rightarrow> get_ip r @ '':'' @ ch # cs | _ \<Rightarrow> get_ip r)"

definition check_and_record :: "bucket \<Rightarrow> clock \<Rightarrow> string \<Rightarrow> attempts \<Rightarrow> (int + unit) \<times> attempts" where
  "check_and_record b c key a =
     (case bucket_check b c key a of
        (Inl n, a') \<Rightarrow> (Inl n, a')
      | (Inr _, a') \<Rightarrow> (Inr (), bucket_record c key a'))"

definition window_floor :: "clock \<Rightarrow> bucket \<Rightarrow> int" where
  "window_floor c b = \<lfloor>wall c / of_int (max 1 (bk_window_sec b))\<rfloor> * bk_window_sec b"

definition redis_key :: "string \<Rightarrow> string \<Rightarrow> clock \<Rightarrow> bucket \<Rightarrow> string" where
  "redis_key name key c b = ''rl:'' @ name @ '':'' @ key @ '':'' @ int_str (window_floor c b)"

definition redis_check_and_record ::
  "'r redis option \<Rightarrow> string \<Rightarrow> bucket \<Rightarrow> clock \<Rightarrow> string \<Rightarrow> 'r \<times> attempts \<Rightarrow> (int + unit) \<times> 'r \<times> attempts" where
  "redis_check_and_record rd name b c key = (\<lambda>(r, a).
     (case rd of
        None \<Rightarrow> (let (res, a') = check_and_record b c key a in (res, r, a'))
      | Some rd \<Rightarrow>
          let k = redis_key name key c b;
              (count, r1) = rd_incr rd k r;
              (ok, r2) = rd_expire rd k (bk_window_sec b + 5) r1
          in (case (count, ok) of
                (Some n, True) \<Rightarrow> (if bk_max_attempts b < n then Inl (bk_block_sec b) else Inr (), r2, a)
              | _ \<Rightarrow> (let (res, a') = check_and_record b c key a in (res, r2, a')))))"

type_synonym limiter = "string \<Rightarrow> attempts"

definition enforce_limit ::
  "'r redis option \<Rightarrow> clock \<Rightarrow> string \<Rightarrow> request \<Rightarrow> string option \<Rightarrow> 'r \<times> limiter \<Rightarrow> (int + unit) \<times> 'r \<times> limiter" where
  "enforce_limit rd c name req suffix = (\<lambda>(r, l).
     (case buckets name of
        None \<Rightarrow> (Inr (), r, l)
      | Some b \<Rightarrow>
          let (res, r', a') = redis_check_and_record rd name b c (client_key req suffix) (r, l name)
          in (res, r', l(name := a'))))"

text \<open>The inline limiter of the login routes: an attempt is recorded when it fails.\<close>

definition login_bucket :: bucket where
  "login_bucket = \<lparr>bk_max_attempts = 10, bk_window_sec = 60, bk_block_sec = 300\<rparr>"

definition check_rate_limit :: "clock \<Rightarrow> string \<Rightarrow> attempts \<Rightarrow> (int + unit) \<times> attempts" where
  "check_rate_limit c ip a =
     (let live = filter (\<lambda>t. monotonic c - t < of_int (bk_window_sec login_bucket)) (a ip)
      in (if bk_max_attempts login_bucket \<le> int (length live) then Inl (bk_block_sec login_bucket) else Inr (),
          a(ip := live)))"

definition record_attempt :: "clock \<Rightarrow> string \<Rightarrow> attempts \<Rightarrow> attempts" where
  "record_attempt c ip a = a(ip := a ip @ [monotonic c])"

definition clear_attempts :: "string \<Rightarrow> attempts \<Rightarrow> attempts" where
  "clear_attempts ip a = a(ip := [])"

section \<open>Login throttle\<close>

definition fail_ttl_s :: int where "fail_ttl_s = 1800"
definition cooldown_base_s :: int where "cooldown_base_s = 30"
definition cooldown_cap_s :: int where "cooldown_cap_s = 3600"
definition free_fails :: int where "free_fails = 3"

lemmas throttle_consts = fail_ttl_s_def cooldown_base_s_def cooldown_cap_s_def free_fails_def

definition norm_subject :: "string \<Rightarrow> string" where
  "norm_subject s = lower (strip s)"

definition fail_key :: "string \<Rightarrow> string" where
  "fail_key s = ''login_fail:'' @ norm_subject s"

definition block_key :: "string \<Rightarrow> string" where
  "block_key s = ''login_block:'' @ norm_subject s"

definition cooldown_for :: "int \<Rightarrow> int" where
  "cooldown_for failures =
     (if failures \<le> free_fails then 0
      else min (cooldown_base_s * 2 ^ nat (failures - free_fails - 1)) cooldown_cap_s)"

text \<open>The fallback dict: the failure count, when it lapses, and until when logins are refused.\<close>

type_synonym fallback = "string \<Rightarrow> (int \<times> rat \<times> rat) option"

definition throttle_check_mem :: "clock \<Rightarrow> fallback \<Rightarrow> string \<Rightarrow> int option" where
  "throttle_check_mem c f login =
     (case f (norm_subject login) of
        None \<Rightarrow> None
      | Some (_, _, block_until) \<Rightarrow> if wall c < block_until then Some \<lfloor>block_until - wall c\<rfloor> else None)"

definition throttle_check :: "'r redis option \<Rightarrow> clock \<Rightarrow> string \<Rightarrow> 'r \<times> fallback \<Rightarrow> int option" where
  "throttle_check rd c login = (\<lambda>(r, f).
     (if login = [] then None
      else case rd of
        Some rd \<Rightarrow>
          (case rd_ttl rd (block_key login) r of
             Some ttl \<Rightarrow> if 0 < ttl then Some ttl else None
           | None \<Rightarrow> throttle_check_mem c f login)
      | None \<Rightarrow> throttle_check_mem c f login))"

definition register_failure_mem :: "clock \<Rightarrow> string \<Rightarrow> fallback \<Rightarrow> int \<times> fallback" where
  "register_failure_mem c login f =
     (let n = (case f (norm_subject login) of
                 Some (k, expires, _) \<Rightarrow> if wall c < expires then k + 1 else 1
               | None \<Rightarrow> 1);
          cooldown = cooldown_for n
      in (cooldown, f(norm_subject login \<mapsto>
           (n, wall c + of_int fail_ttl_s, if cooldown \<noteq> 0 then wall c + of_int cooldown else 0))))"

definition register_failure ::
  "'r redis option \<Rightarrow> clock \<Rightarrow> string \<Rightarrow> 'r \<times> fallback \<Rightarrow> int \<times> 'r \<times> fallback" where
  "register_failure rd c login = (\<lambda>(r, f).
     (if login = [] then (0, r, f)
      else
        let mem = (\<lambda>r. let (n, f') = register_failure_mem c login f in (n, r, f')) in
        case rd of
          None \<Rightarrow> mem r
        | Some rd \<Rightarrow>
            (case rd_incr rd (fail_key login) r of
               (None, r1) \<Rightarrow> mem r1
             | (Some n, r1) \<Rightarrow>
                 let (ok, r2) = rd_expire rd (fail_key login) fail_ttl_s r1; cooldown = cooldown_for n in
                 if \<not> ok then mem r2
                 else if cooldown > 0 then
                   let (ok', r3) = rd_set_ex rd (block_key login) (int_str n) cooldown r2
                   in if ok' then (cooldown, r3, f) else mem r3
                 else (cooldown, r2, f))))"

definition throttle_clear :: "'r redis option \<Rightarrow> string \<Rightarrow> 'r \<times> fallback \<Rightarrow> 'r \<times> fallback" where
  "throttle_clear rd login = (\<lambda>(r, f).
     (if login = [] then (r, f)
      else case rd of
        None \<Rightarrow> (r, f(norm_subject login := None))
      | Some rd \<Rightarrow>
          let (ok, r') = rd_delete rd [fail_key login, block_key login] r
          in if ok then (r', f) else (r', f(norm_subject login := None))))"

section \<open>Sliding windows\<close>

text \<open>The times admitted in a run of attempts on one key, and the final state.\<close>

fun admitted :: "(rat \<Rightarrow> 'k \<Rightarrow> 's \<Rightarrow> bool \<times> 's) \<Rightarrow> rat list \<Rightarrow> 'k \<Rightarrow> 's \<Rightarrow> rat list \<times> 's" where
  "admitted attempt [] k s = ([], s)"
| "admitted attempt (now # ts) k s =
     (let (ok, s1) = attempt now k s; (acc, s2) = admitted attempt ts k s1
      in (if ok then now # acc else acc, s2))"

definition in_window :: "rat \<Rightarrow> rat \<Rightarrow> rat \<Rightarrow> bool" where
  "in_window width T t \<longleftrightarrow> T - width < t \<and> t \<le> T"

text \<open>
  The contract of an attempt limiter: an attempt first forgets what left the window, is
  admitted when fewer than the maximum are left, and is then remembered. The clients only
  use what follows from it: in a run whose times do not go back, no window of the given
  width contains more than the maximum of admitted attempts.
\<close>

locale sliding_window =
  fixes attempt :: "rat \<Rightarrow> 'k \<Rightarrow> 's \<Rightarrow> bool \<times> 's"
    and times :: "'s \<Rightarrow> 'k \<Rightarrow> rat list"
    and width :: rat
    and maximum :: int
  assumes attempt_ok: "fst (attempt now k s) \<longleftrightarrow>
      int (length (filter (\<lambda>t. now - width < t) (times s k))) < maximum"
    and attempt_times: "times (snd (attempt now k s)) k =
      filter (\<lambda>t. now - width < t) (times s k) @ (if fst (attempt now k s) then [now] else [])"
begin

lemma refilter: "now \<le> T \<Longrightarrow>
  filter (\<lambda>t. T - width < t) (filter (\<lambda>t. now - width < t) xs) = filter (\<lambda>t. T - width < t) xs"
  by (induction xs) auto

lemma window_le: "T \<ge> now \<Longrightarrow>
  length (filter (in_window width T) xs) \<le> length (filter (\<lambda>t. now - width < t) xs)"
  by (induction xs) (auto simp: in_window_def)

lemma admitted_bound:
  assumes "sorted (last0 # ts)" "\<forall>t \<in> set past. t \<le> last0"
    and "\<forall>T. last0 \<le> T \<longrightarrow> filter (\<lambda>t. T - width < t) past = filter (\<lambda>t. T - width < t) (times s k)"
    and "\<forall>T. int (length (filter (in_window width T) past)) \<le> max 0 maximum"
  shows "int (length (filter (in_window width T) (past @ fst (admitted attempt ts k s)))) \<le> max 0 maximum"
  using assms
proof (induction ts arbitrary: last0 past s)
  case Nil
  then show ?case by simp
next
  case (Cons now ts)
  obtain ok s1 where a: "attempt now k s = (ok, s1)" by (cases "attempt now k s")
  obtain acc s2 where r: "admitted attempt ts k s1 = (acc, s2)" by (cases "admitted attempt ts k s1")
  define past' where "past' = past @ (if ok then [now] else [])"
  have le: "last0 \<le> now" "sorted (now # ts)" using Cons.prems(1) by auto
  have win: "filter (\<lambda>t. now - width < t) past = filter (\<lambda>t. now - width < t) (times s k)"
    using Cons.prems(3) le(1) by blast
  have t1: "times s1 k = filter (\<lambda>t. now - width < t) (times s k) @ (if ok then [now] else [])"
    using attempt_times [of now k s] by (simp add: a)
  have mem: "filter (\<lambda>t. T - width < t) past' = filter (\<lambda>t. T - width < t) (times s1 k)" if "now \<le> T" for T
  proof -
    have "filter (\<lambda>t. T - width < t) past = filter (\<lambda>t. T - width < t) (times s k)"
      using Cons.prems(3) le(1) that by auto
    then show ?thesis using refilter [OF that, of "times s k"] by (simp add: past'_def t1)
  qed
  have bnd: "int (length (filter (in_window width T) past')) \<le> max 0 maximum" for T
  proof (cases "ok \<and> in_window width T now")
    case True
    then have "now \<le> T" by (simp add: in_window_def)
    from window_le [OF this, of past] show ?thesis
      using True attempt_ok [of now k s] by (simp add: a win past'_def)
  next
    case False
    then have "filter (in_window width T) past' = filter (in_window width T) past" by (auto simp: past'_def)
    then show ?thesis using Cons.prems(4) by simp
  qed
  have "\<forall>t \<in> set past'. t \<le> now" using Cons.prems(2) le(1) by (auto simp: past'_def)
  then have "int (length (filter (in_window width T) (past' @ fst (admitted attempt ts k s1)))) \<le> max 0 maximum"
    by (intro Cons.IH [OF le(2)]) (use mem bnd in auto)
  then show ?case by (auto simp: a r past'_def)
qed

lemma window_bound:
  assumes "sorted ts" "times s k = []"
  shows "int (length (filter (in_window width T) (fst (admitted attempt ts k s)))) \<le> max 0 maximum"
proof (cases ts)
  case (Cons now ts')
  have "int (length (filter (in_window width T) ([] @ fst (admitted attempt ts k s)))) \<le> max 0 maximum"
    by (rule admitted_bound [of now]) (use assms Cons in auto)
  then show ?thesis by simp
qed simp

end

text \<open>One request against an endpoint bucket, and one failed login attempt.\<close>

definition instant :: "rat \<Rightarrow> clock" where
  "instant now = \<lparr>utcnow = 0, monotonic = now\<rparr>"

definition request_at :: "bucket \<Rightarrow> rat \<Rightarrow> string \<Rightarrow> attempts \<Rightarrow> bool \<times> attempts" where
  "request_at b now key a =
     (case check_and_record b (instant now) key a of (r, a') \<Rightarrow> (r = Inr (), a'))"

definition failed_login_at :: "rat \<Rightarrow> string \<Rightarrow> attempts \<Rightarrow> bool \<times> attempts" where
  "failed_login_at now ip a =
     (case check_rate_limit (instant now) ip a of
        (Inl _, a') \<Rightarrow> (False, a')
      | (Inr _, a') \<Rightarrow> (True, record_attempt (instant now) ip a'))"

interpretation login_limit: sliding_window failed_login_at "\<lambda>a k. a k" 60 10
proof
  fix now :: rat and k :: string and s :: attempts
  have f: "(\<lambda>t. now - t < 60) = (\<lambda>t. now - 60 < t)" by (rule ext) linarith
  show "fst (failed_login_at now k s) \<longleftrightarrow> int (length (filter (\<lambda>t. now - 60 < t) (s k))) < 10"
    by (auto simp: failed_login_at_def check_rate_limit_def login_bucket_def instant_def Let_def f)
  show "snd (failed_login_at now k s) k =
      filter (\<lambda>t. now - 60 < t) (s k) @ (if fst (failed_login_at now k s) then [now] else [])"
    by (auto simp: failed_login_at_def check_rate_limit_def record_attempt_def login_bucket_def instant_def Let_def f)
qed

interpretation endpoint_limit:
  sliding_window "request_at b" "\<lambda>a k. a k" "of_int (bk_window_sec b)" "bk_max_attempts b" for b
proof
  fix now :: rat and k :: string and s :: attempts
  show "fst (request_at b now k s) \<longleftrightarrow>
      int (length (filter (\<lambda>t. now - of_int (bk_window_sec b) < t) (s k))) < bk_max_attempts b"
    by (auto simp: request_at_def check_and_record_def bucket_check_def instant_def Let_def)
  show "snd (request_at b now k s) k = filter (\<lambda>t. now - of_int (bk_window_sec b) < t) (s k) @
      (if fst (request_at b now k s) then [now] else [])"
    by (auto simp: request_at_def check_and_record_def bucket_check_def bucket_record_def instant_def Let_def)
qed

section \<open>The guarded login attempt\<close>

text \<open>
  How the login routes use the throttle: a refused attempt is not even counted, a
  successful one clears the counter, a failed one registers.
\<close>

definition guarded_attempt :: "'r redis option \<Rightarrow> clock \<Rightarrow> string \<Rightarrow> bool \<Rightarrow> 'r \<times> fallback \<Rightarrow> bool \<times> 'r \<times> fallback" where
  "guarded_attempt rd c login success s =
     (if truthy (throttle_check rd c login s) then (False, s)
      else if success then (True, throttle_clear rd login s)
      else (True, snd (register_failure rd c login s)))"

definition throttle_step :: "fallback \<Rightarrow> clock \<times> string \<times> bool \<Rightarrow> fallback" where
  "throttle_step f = (\<lambda>(c, login, success). snd (snd (guarded_attempt None c login success ((), f))))"

definition entry_ok :: "int \<times> rat \<times> rat \<Rightarrow> bool" where
  "entry_ok = (\<lambda>(n, expires, block). 1 \<le> n \<and> n \<le> 10 \<and>
     block = (if n \<le> 3 then 0 else expires - 1800 + of_int (cooldown_for n)))"

definition throttle_inv :: "fallback \<Rightarrow> bool" where
  "throttle_inv f \<longleftrightarrow> (\<forall>s x. f s = Some x \<longrightarrow> entry_ok x)"

lemma cooldown_for_cases:
  "n \<le> 3 \<Longrightarrow> cooldown_for n = 0" "cooldown_for 4 = 30" "cooldown_for 5 = 60" "cooldown_for 6 = 120"
  "cooldown_for 7 = 240" "cooldown_for 8 = 480" "cooldown_for 9 = 960" "cooldown_for 10 = 1920"
  "cooldown_for 11 = 3600"
  by (simp_all add: cooldown_for_def throttle_consts)

lemma cooldown_for_pos: "4 \<le> n \<Longrightarrow> 30 \<le> cooldown_for n"
  by (simp add: cooldown_for_def throttle_consts)

lemma cooldown_for_mono: "m \<le> n \<Longrightarrow> cooldown_for m \<le> cooldown_for n"
proof -
  assume "m \<le> n"
  have "30 * (2::int) ^ nat (m - 3 - 1) \<le> 30 * 2 ^ nat (n - 3 - 1)"
    using \<open>m \<le> n\<close> by (intro mult_left_mono power_increasing) simp_all
  with \<open>m \<le> n\<close> show ?thesis unfolding cooldown_for_def throttle_consts by (auto simp: min_le_iff_disj)
qed

lemma registered_entry_ok:
  assumes "throttle_inv f" "\<not> truthy (throttle_check_mem c f login)"
  shows "throttle_inv (snd (register_failure_mem c login f))"
proof -
  have new: "entry_ok (n, wall c + of_int fail_ttl_s, if cooldown_for n \<noteq> 0 then wall c + of_int (cooldown_for n) else 0)"
    if "1 \<le> n" "n \<le> 10" for n
    using that cooldown_for_pos [of n] by (auto simp: entry_ok_def cooldown_for_cases(1) fail_ttl_s_def)
  have "k + 1 \<le> 10" if e: "f (norm_subject login) = Some (k, expires, block)" "wall c < expires" for k expires block
  proof (rule ccontr)
    assume "\<not> k + 1 \<le> 10"
    moreover have "entry_ok (k, expires, block)" using assms(1) e(1) by (simp add: throttle_inv_def)
    ultimately have k: "k = 10" "block = expires - 1800 + of_int (cooldown_for k)"
      by (auto simp: entry_ok_def)
    then have "block = expires - 1800 + 1920" by (simp add: cooldown_for_cases)
    then have "1 \<le> \<lfloor>block - wall c\<rfloor>" "wall c < block" using e(2) by (simp_all add: le_floor_iff)
    moreover from this(1) have "\<lfloor>block - wall c\<rfloor> \<noteq> 0" by linarith
    ultimately show False using assms(2) e(1) by (simp add: throttle_check_mem_def)
  qed
  moreover have "1 \<le> k + 1" if "f (norm_subject login) = Some (k, expires, block)" for k expires block
    using assms(1) that by (force simp: throttle_inv_def entry_ok_def)
  moreover define n where "n = (case f (norm_subject login) of
      Some (k, expires, _) \<Rightarrow> if wall c < expires then k + 1 else 1 | None \<Rightarrow> 1)"
  ultimately have n: "1 \<le> n" "n \<le> 10" by (auto split: option.split)
  define x where "x = (n, wall c + of_int fail_ttl_s,
    if cooldown_for n \<noteq> 0 then wall c + of_int (cooldown_for n) else 0)"
  have r: "snd (register_failure_mem c login f) = f(norm_subject login \<mapsto> x)"
    by (simp add: register_failure_mem_def Let_def n_def x_def)
  have "entry_ok x" unfolding x_def by (rule new [OF n])
  then show ?thesis
    using assms(1) by (auto simp: r throttle_inv_def)
qed

interpretation throttle_machine: inv_machine throttle_step throttle_inv
proof
  fix f and e :: "clock \<times> string \<times> bool" assume inv: "throttle_inv f"
  obtain c login success where e: "e = (c, login, success)" by (cases e) auto
  show "throttle_inv (throttle_step f e)"
    using inv registered_entry_ok [OF inv, of c login]
    by (auto simp: throttle_step_def e guarded_attempt_def throttle_check_def throttle_clear_def
        register_failure_def Let_def split_beta throttle_inv_def)
qed

section \<open>The breaker's cycle\<close>

definition fail_run :: "breaker_config \<Rightarrow> breaker \<Rightarrow> string \<Rightarrow> clock list \<Rightarrow> breaker" where
  "fail_run cfg b ex cs = foldl (\<lambda>b c. breaker_fail cfg c b ex) b cs"

lemma fail_run_below:
  assumes "sorted (map wall cs)" "cs \<noteq> [] \<longrightarrow> wall (last cs) - cb_window_s cfg \<le> wall (hd cs)"
    and "int (length cs) < cb_threshold cfg" "cb_failures b ex = None"
  shows "fail_run cfg b ex cs = (if cs = [] then b else b\<lparr>cb_failures := (cb_failures b)(ex \<mapsto> map wall cs)\<rparr>)"
  using assms(1-3)
proof (induction cs rule: rev_induct)
  case (snoc c cs)
  have s: "sorted (map wall cs)" "\<forall>x \<in> set cs. wall x \<le> wall c"
    using snoc.prems(1) by (auto simp: sorted_append)
  have w: "cs \<noteq> [] \<longrightarrow> wall (last cs) - cb_window_s cfg \<le> wall (hd cs)"
    using snoc.prems(2) s(2) by (auto simp: hd_append split: if_splits) (metis diff_right_mono last_in_set order_trans)
  have hd_le: "wall c - cb_window_s cfg \<le> wall x" if "x \<in> set (cs @ [c])" for x
  proof -
    have "wall (hd (cs @ [c])) \<le> wall x"
      using snoc.prems(1) that by (cases cs) auto
    then show ?thesis using snoc.prems(2) by auto
  qed
  have "dropWhile (\<lambda>t. t < wall c - cb_window_s cfg) (map wall (cs @ [c])) = map wall (cs @ [c])"
  proof (rule dropWhile_id)
    show "\<not> hd (map wall (cs @ [c])) < wall c - cb_window_s cfg"
      using hd_le [OF hd_in_set] by (simp add: hd_map not_less del: map_append)
  qed
  moreover have "fail_run cfg b ex cs = (if cs = [] then b else b\<lparr>cb_failures := (cb_failures b)(ex \<mapsto> map wall cs)\<rparr>)"
    by (rule snoc.IH) (use s w snoc.prems(3) in simp_all)
  ultimately show ?case
    using snoc.prems(3) assms(4) by (auto simp: fail_run_def breaker_fail_def Let_def)
qed (simp add: fail_run_def)

lemma fail_run_trips:
  assumes "sorted (map wall (cs @ [c]))" "wall c - cb_window_s cfg \<le> wall (hd (cs @ [c]))"
    and "int (length cs) + 1 = cb_threshold cfg" "cb_failures b ex = None"
  shows "fail_run cfg b ex (cs @ [c]) =
    b\<lparr>cb_open_until := (cb_open_until b)(ex \<mapsto> wall c + cb_cooldown_s cfg), cb_failures := (cb_failures b)(ex \<mapsto> [])\<rparr>"
proof -
  have s: "sorted (map wall cs)" "\<forall>x \<in> set cs. wall x \<le> wall c" using assms(1) by (auto simp: sorted_append)
  have w: "cs \<noteq> [] \<longrightarrow> wall (last cs) - cb_window_s cfg \<le> wall (hd cs)"
    using assms(2) s(2) by (auto simp: hd_append split: if_splits) (metis diff_right_mono last_in_set order_trans)
  have r: "fail_run cfg b ex cs = (if cs = [] then b else b\<lparr>cb_failures := (cb_failures b)(ex \<mapsto> map wall cs)\<rparr>)"
    by (rule fail_run_below [OF s(1) w]) (use assms(3,4) in simp_all)
  have "dropWhile (\<lambda>t. t < wall c - cb_window_s cfg) (map wall (cs @ [c])) = map wall (cs @ [c])"
    by (rule dropWhile_id) (use assms(2) in \<open>simp add: hd_map not_less del: map_append\<close>)
  moreover have "fail_run cfg b ex (cs @ [c]) = breaker_fail cfg c (fail_run cfg b ex cs) ex"
    by (simp add: fail_run_def)
  ultimately show ?thesis
    using r assms(3,4) by (auto simp: breaker_fail_def Let_def)
qed

text \<open>Wall-clock instants of the examples, in seconds.\<close>

definition second :: "int \<Rightarrow> clock" where
  "second n = \<lparr>utcnow = seconds_us n, monotonic = of_int n\<rparr>"

definition small_breaker :: breaker_config where
  "small_breaker = \<lparr>cb_threshold = 2, cb_window_s = 60, cb_cooldown_s = 60\<rparr>"

definition checkout_bucket :: bucket where
  "checkout_bucket = \<lparr>bk_max_attempts = 5, bk_window_sec = 60, bk_block_sec = 300\<rparr>"

section \<open>Properties\<close>

text \<open>
  Endpoint rate limit. However the requests of one key arrive, the fallback limiter
  admits at most the bucket's maximum in any time window of the bucket's width.
\<close>

theorem endpoint_window_bound:
  assumes "buckets name = Some b" and "sorted ts" and "a key = []"
  shows "int (length (filter (in_window (of_int (bk_window_sec b)) T) (fst (admitted (request_at b) ts key a))))
     \<le> bk_max_attempts b"
proof -
  have "0 \<le> bk_max_attempts b" using assms(1) by (auto simp: buckets_def split: if_splits)
  then show ?thesis using endpoint_limit.window_bound [OF assms(2), of a key b T] assms(3) by simp
qed

theorem endpoint_window_bound_witness:
  "buckets ''payments_checkout'' = Some checkout_bucket \<and>
   fst (admitted (request_at checkout_bucket) [0, 1, 2, 3, 4, 5, 59, 61] ''k'' (\<lambda>_. [])) = [0, 1, 2, 3, 4, 61] \<and>
   int (length (filter (in_window 60 61) [0, 1, 2, 3, 4, 61])) \<le> 5"
proof -
  have b: "buckets ''payments_checkout'' = Some checkout_bucket" by code_simp
  have a: "fst (admitted (request_at checkout_bucket) [0, 1, 2, 3, 4, 5, 59, 61] ''k'' (\<lambda>_. [])) = [0, 1, 2, 3, 4, 61]"
    by code_simp
  have s: "sorted [0, 1, 2, 3, 4, 5, 59, 61 :: rat]" by simp
  have w: "(of_int (bk_window_sec checkout_bucket) :: rat) = 60" "bk_max_attempts checkout_bucket = 5" by code_simp+
  show ?thesis
    using endpoint_window_bound [where a = "\<lambda>_. []" and key = "''k''" and T = 61, OF b s] a b unfolding w by simp
qed

text \<open>
  The limit is per first forwarded address. The proxy appends the real address to the
  header a client sends, and the key is the first entry: a request whose forged entry
  was never used is admitted, whatever its sender has done before.
\<close>

theorem forged_address_admitted:
  assumes "buckets name = Some b" and "ip \<noteq> []" and "CHR '','' \<notin> set ip" and "strip ip = ip"
    and "l name ip = []"
  shows "get_ip \<lparr>rq_forwarded_for = Some (ip @ '', '' @ sender), rq_client_host = host\<rparr> = ip \<and>
     fst (enforce_limit None c name \<lparr>rq_forwarded_for = Some (ip @ '', '' @ sender), rq_client_host = host\<rparr> None (r, l))
       = Inr ()"
proof -
  have tw: "takeWhile (\<lambda>ch. ch \<noteq> CHR '','') (ip @ '', '' @ sender) = ip"
    using assms(3) by (induction ip) auto
  obtain ch cs where ip: "ip = ch # cs" using assms(2) by (cases ip) auto
  have g: "get_ip \<lparr>rq_forwarded_for = Some (ip @ '', '' @ sender), rq_client_host = host\<rparr> = ip"
    using tw assms(4) by (simp add: get_ip_def first_hop_def ip)
  have "0 < bk_max_attempts b" using assms(1) by (auto simp: buckets_def split: if_splits)
  then show ?thesis
    using g assms(1,5)
    by (simp add: enforce_limit_def client_key_def redis_check_and_record_def check_and_record_def
        bucket_check_def Let_def)
qed

theorem forged_address_admitted_witness:
  "fst (enforce_limit None (second 5) ''payments_checkout''
     \<lparr>rq_forwarded_for = Some ''10.0.0.9, 203.0.113.7'', rq_client_host = None\<rparr> None
     ((), \<lambda>_. (\<lambda>_. [])(''203.0.113.7'' := [0, 1, 2, 3, 4]))) = Inr ()"
proof -
  have b: "buckets ''payments_checkout'' = Some checkout_bucket" by code_simp
  have st: "strip ''10.0.0.9'' = ''10.0.0.9''" by code_simp
  show ?thesis
    using forged_address_admitted [OF b _ _ st, of "\<lambda>_. (\<lambda>_. [])(''203.0.113.7'' := [0, 1, 2, 3, 4])"
        "''203.0.113.7''" None "second 5" "()"] by simp
qed

text \<open>
  Login throttle. From the fourth consecutive failure on, every attempt under any
  spelling of the login is refused until less than a second of the cooldown is left; once
  the cooldown is over the next attempt is accepted, and a cleared counter refuses nothing.
\<close>

theorem throttle_refuses:
  assumes "login \<noteq> []" and "spelling \<noteq> []" and "norm_subject spelling = norm_subject login"
    and "register_failure None c login ((), f) = (cooldown, (), f')" and "0 < cooldown"
  shows "(wall c' + 1 \<le> wall c + of_int cooldown \<longrightarrow>
      guarded_attempt None c' spelling success ((), f') = (False, ((), f'))) \<and>
    (wall c + of_int cooldown \<le> wall c' \<longrightarrow> throttle_check None c' spelling ((), f') = None) \<and>
    throttle_check None c' spelling (throttle_clear None login ((), f')) = None"
proof -
  obtain n where f': "f' (norm_subject login) = Some (n, wall c + of_int fail_ttl_s, wall c + of_int cooldown)"
    using assms(1,4,5) by (auto simp: register_failure_def register_failure_mem_def Let_def split: if_splits)
  have "truthy (throttle_check None c' spelling ((), f'))" if "wall c' + 1 \<le> wall c + of_int cooldown"
  proof -
    have "1 \<le> \<lfloor>wall c + of_int cooldown - wall c'\<rfloor>" using that by (simp add: le_floor_iff)
    then have "\<lfloor>wall c + of_int cooldown - wall c'\<rfloor> \<noteq> 0" by linarith
    then show ?thesis
      using that assms(2,3) f' by (simp add: throttle_check_def throttle_check_mem_def)
  qed
  then show ?thesis
    using assms(1-3) f'
    by (simp add: guarded_attempt_def throttle_check_def throttle_check_mem_def throttle_clear_def)
qed

theorem throttle_refuses_witness:
  "\<exists>f'. register_failure None (second 100) ''ann'' ((), [''ann'' \<mapsto> (3, 1800, 0)]) = (30, (), f') \<and>
     guarded_attempt None (second 120) '' Ann '' True ((), f') = (False, ((), f')) \<and>
     throttle_check None (second 130) '' Ann '' ((), f') = None"
proof -
  have "fst (register_failure None (second 100) ''ann'' ((), [''ann'' \<mapsto> (3, 1800, 0)])) = 30" by code_simp
  then obtain f' where r: "register_failure None (second 100) ''ann'' ((), [''ann'' \<mapsto> (3, 1800, 0)]) = (30, (), f')"
    by (cases "register_failure None (second 100) ''ann'' ((), [''ann'' \<mapsto> (3, 1800, 0)])") auto
  have n: "norm_subject '' Ann '' = norm_subject ''ann''" by code_simp
  have t: "wall (second 120) + 1 \<le> wall (second 100) + of_int 30" "wall (second 100) + of_int 30 \<le> wall (second 130)"
    by code_simp+
  show ?thesis
    using throttle_refuses [OF _ _ n r, of "second 120" True] throttle_refuses [OF _ _ n r, of "second 130" True] t r
    by simp
qed

text \<open>
  The documented one-hour cap is out of reach. Whatever attempts are made, the
  counter of a login never passes ten and no cooldown exceeds 1920 seconds: after the
  tenth failure the cooldown outlives the counter.
\<close>

theorem throttle_never_reaches_cap:
  assumes "foldl throttle_step (\<lambda>_. None) attempts s = Some (n, expires, block)"
  shows "1 \<le> n \<and> n \<le> 10 \<and> cooldown_for n \<le> 1920 \<and> (3 < n \<longrightarrow> block \<le> expires + 120)"
proof -
  have "throttle_inv (foldl throttle_step (\<lambda>_. None) attempts)"
    by (rule throttle_machine.run_inv) (simp add: throttle_inv_def)
  then have e: "entry_ok (n, expires, block)" using assms by (simp add: throttle_inv_def)
  then have n: "1 \<le> n" "n \<le> 10" by (simp_all add: entry_ok_def)
  have c: "cooldown_for n \<le> 1920" using cooldown_for_mono [OF n(2)] by (simp add: cooldown_for_cases)
  have "block \<le> expires + 120" if "3 < n"
  proof -
    have "block = expires - 1800 + of_int (cooldown_for n)" using e that by (simp add: entry_ok_def)
    moreover have "(of_int (cooldown_for n) :: rat) \<le> 1920" using c by linarith
    ultimately show ?thesis by simp
  qed
  then show ?thesis using n c by simp
qed

definition persistent_attack :: "(clock \<times> string \<times> bool) list" where
  "persistent_attack = map (\<lambda>t. (second t, ''ann'', False)) [0, 1, 2, 3]"

theorem throttle_never_reaches_cap_witness:
  "\<exists>n expires block. foldl throttle_step (\<lambda>_. None) persistent_attack ''ann'' = Some (n, expires, block) \<and>
     n = 4 \<and> cooldown_for n \<le> 1920"
proof -
  have "case foldl throttle_step (\<lambda>_. None) persistent_attack ''ann'' of Some (n, _, _) \<Rightarrow> n = 4 | None \<Rightarrow> False"
    by code_simp
  then obtain n expires block where
      r: "foldl throttle_step (\<lambda>_. None) persistent_attack ''ann'' = Some (n, expires, block)" "n = 4"
    by (auto split: option.splits)
  then show ?thesis using throttle_never_reaches_cap [OF r(1)] by simp
qed

text \<open>
  Circuit breaker. As many failures as the threshold within the window, not fewer,
  open the circuit of that exchange; it refuses until the cooldown after the last failure
  has passed, and the first call after that is let through with a clean record.
\<close>

theorem breaker_cycle:
  assumes "sorted (map wall (cs @ [c]))" and "wall c - cb_window_s cfg \<le> wall (hd (cs @ [c]))"
    and "int (length cs) + 1 = cb_threshold cfg" and "0 < wall c + cb_cooldown_s cfg"
    and "cb_failures b ex = None" and "cb_open_until b ex = None" and "0 \<le> wall now"
  shows "fst (breaker_allow now (fail_run cfg b ex cs) ex) \<and>
    (let b' = fail_run cfg b ex (cs @ [c])
     in (wall now < wall c + cb_cooldown_s cfg \<longrightarrow> breaker_allow now b' ex = (False, b')) \<and>
        (wall c + cb_cooldown_s cfg \<le> wall now \<longrightarrow> breaker_allow now b' ex = (True, b)) \<and>
        (\<forall>other. other \<noteq> ex \<longrightarrow> fst (breaker_allow now b' other) = fst (breaker_allow now b other)))"
proof -
  have s: "sorted (map wall cs)" "\<forall>x \<in> set cs. wall x \<le> wall c" using assms(1) by (auto simp: sorted_append)
  have w: "cs \<noteq> [] \<longrightarrow> wall (last cs) - cb_window_s cfg \<le> wall (hd cs)"
    using assms(2) s(2) by (auto simp: hd_append split: if_splits) (metis diff_right_mono last_in_set order_trans)
  have below: "fail_run cfg b ex cs = (if cs = [] then b else b\<lparr>cb_failures := (cb_failures b)(ex \<mapsto> map wall cs)\<rparr>)"
    by (rule fail_run_below [OF s(1) w]) (use assms(3,5) in simp_all)
  have upd: "(cb_open_until b)(ex := None) = cb_open_until b" "(cb_failures b)(ex := None) = cb_failures b"
    using assms(5,6) by auto
  show ?thesis
    unfolding fail_run_trips [OF assms(1-3,5)] below
    using assms(4,6,7) by (auto simp: breaker_allow_def Let_def upd split: option.split)
qed

theorem breaker_cycle_witness:
  "let b' = fail_run small_breaker closed_breaker ''okx'' [second 10, second 20]
   in \<not> fst (breaker_allow (second 79) b' ''okx'') \<and> fst (breaker_allow (second 80) b' ''okx'')"
proof -
  have h: "sorted (map wall ([second 10] @ [second 20]))"
      "wall (second 20) - cb_window_s small_breaker \<le> wall (hd ([second 10] @ [second 20]))"
      "int (length [second 10]) + 1 = cb_threshold small_breaker"
      "0 < wall (second 20) + cb_cooldown_s small_breaker"
      "0 \<le> wall (second 79)" "0 \<le> wall (second 80)"
      "wall (second 79) < wall (second 20) + cb_cooldown_s small_breaker"
      "wall (second 20) + cb_cooldown_s small_breaker \<le> wall (second 80)"
    by code_simp+
  have c: "cb_failures closed_breaker ''okx'' = None" "cb_open_until closed_breaker ''okx'' = None"
    by (simp_all add: closed_breaker_def)
  show ?thesis
    using breaker_cycle [OF h(1-4) c h(5)] breaker_cycle [OF h(1-4) c h(6)] h(7,8) by (simp add: Let_def)
qed

end
