(* ===== verification/Sessions.thy ===== *)
theory Sessions
  imports Rate_Limits Samples
begin

text \<open>
  Sessions: JSON web tokens and accounts (\<^verbatim>\<open>backend/services/auth_service.py\<close>), their revocation
  list (\<^verbatim>\<open>token_blacklist.py\<close>), the cache of authenticated users (\<^verbatim>\<open>auth_cache.py\<close>), online
  presence (\<^verbatim>\<open>online_presence.py\<close>), the request guards of \<^verbatim>\<open>backend/api/deps.py\<close> with the admin
  honeypot (\<^verbatim>\<open>honeypot_service.py\<close>), and the logout and cookie routes of
  \<^verbatim>\<open>backend/api/v1/auth.py\<close>. Cryptography is a parameter.
\<close>

section \<open>Responses and parameters\<close>

record http_error =
  he_status :: int
  he_retry_after :: "int option"

definition http :: "int \<Rightarrow> http_error" where
  "http n = \<lparr>he_status = n, he_retry_after = None\<rparr>"

definition too_many :: "int \<Rightarrow> http_error" where
  "too_many n = \<lparr>he_status = 429, he_retry_after = Some n\<rparr>"

text \<open>The claims of a token; a key the payload lacks is \<open>None\<close>.\<close>

record claims =
  cl_sub :: "string option"
  cl_exp :: "int option"
  cl_jti :: "string option"
  cl_scope :: "string option"
  cl_extra :: "(string \<times> string) list"

definition no_claims :: claims where
  "no_claims = \<lparr>cl_sub = None, cl_exp = None, cl_jti = None, cl_scope = None, cl_extra = []\<rparr>"

text \<open>
  The libraries the code calls. \<open>None\<close> is a raised exception, except that a token that
  does not decode (bad signature, expired) is what \<open>decode_payload\<close> turns into None.
\<close>

record crypto =
  cx_encode :: "claims \<Rightarrow> string"
  cx_decode :: "clock \<Rightarrow> string \<Rightarrow> claims option"
  cx_password_hash :: "string \<Rightarrow> string"
  cx_password_verify :: "string \<Rightarrow> string \<Rightarrow> bool option"
  cx_bcrypt_hash :: "string \<Rightarrow> string \<Rightarrow> string"
  cx_bcrypt_verify :: "string \<Rightarrow> string \<Rightarrow> bool option"
  cx_totp_verify :: "clock \<Rightarrow> string \<Rightarrow> string \<Rightarrow> bool option"
  cx_encrypt :: "string \<Rightarrow> string"
  cx_decrypt :: "string \<Rightarrow> string option"
  cx_sha256 :: "string \<Rightarrow> string"

record 'r auth_env =
  ae_crypto :: crypto
  ae_redis :: "'r redis option"
  ae_expire_days :: int

text \<open>A row of the password-reset or of the email-verification table.\<close>

record link_token =
  lt_id :: int
  lt_user_id :: int
  lt_token_hash :: string
  lt_expires_at :: time
  lt_used_at :: "time option"
  lt_created_at :: time

record 'r auth_state =
  as_world :: world
  as_redis :: 'r
  as_attempts :: attempts
  as_throttle :: fallback
  as_email_codes :: "string \<Rightarrow> string option"
  as_reset_tokens :: "link_token list"
  as_verify_tokens :: "link_token list"

fun filled :: "string option \<Rightarrow> bool" where
  "filled None = False"
| "filled (Some s) = (s \<noteq> [])"

section \<open>Tokens\<close>

definition epoch_seconds :: "time \<Rightarrow> int" where
  "epoch_seconds t = t div 1000000"

definition token_claims ::
  "'r auth_env \<Rightarrow> clock \<Rightarrow> string \<Rightarrow> int \<Rightarrow> int option \<Rightarrow> string option \<Rightarrow> (string \<times> string) list \<Rightarrow> claims" where
  "token_claims e c jti uid ttl_minutes scope extra = \<lparr>
     cl_sub = Some (int_str uid),
     cl_exp = Some (epoch_seconds (utcnow c + (case ttl_minutes of
        None \<Rightarrow> days_us (ae_expire_days e) | Some m \<Rightarrow> seconds_us (60 * m)))),
     cl_jti = Some jti,
     cl_scope = (if filled scope then scope else map_of extra ''scope''),
     cl_extra = filter (\<lambda>(k, _). k \<notin> {''sub'', ''exp'', ''jti'', ''scope''}) extra\<rparr>"

definition create_token ::
  "'r auth_env \<Rightarrow> clock \<Rightarrow> string \<Rightarrow> int \<Rightarrow> int option \<Rightarrow> string option \<Rightarrow> (string \<times> string) list \<Rightarrow> string" where
  "create_token e c jti uid ttl_minutes scope extra =
     cx_encode (ae_crypto e) (token_claims e c jti uid ttl_minutes scope extra)"

definition decode_payload :: "'r auth_env \<Rightarrow> clock \<Rightarrow> string \<Rightarrow> claims option" where
  "decode_payload e c token = cx_decode (ae_crypto e) c token"

definition sub_id :: "claims \<Rightarrow> int option" where
  "sub_id p = (case cl_sub p of None \<Rightarrow> None | Some s \<Rightarrow> parse_int s)"

definition decode_token :: "'r auth_env \<Rightarrow> clock \<Rightarrow> string \<Rightarrow> int option" where
  "decode_token e c token =
     (case decode_payload e c token of
        None \<Rightarrow> None
      | Some p \<Rightarrow> if p = no_claims then None else sub_id p)"

section \<open>Accounts\<close>

definition get_user_by_email :: "world \<Rightarrow> string \<Rightarrow> user option" where
  "get_user_by_email w email = find (\<lambda>u. u_email u = lower email) (users w)"

definition get_user_by_username :: "world \<Rightarrow> string \<Rightarrow> user option" where
  "get_user_by_username w name = find (\<lambda>u. u_username u = lower name) (users w)"

definition get_user_by_id :: "world \<Rightarrow> int \<Rightarrow> user option" where
  "get_user_by_id w i = row_get u_id (users w) i"

definition edit_user :: "int \<Rightarrow> (user \<Rightarrow> user) \<Rightarrow> 'r auth_state \<Rightarrow> 'r auth_state" where
  "edit_user i f s = s\<lparr>as_world := users_update (row_upd u_id i f) (as_world s)\<rparr>"

definition register_user :: "'r auth_env \<Rightarrow> clock \<Rightarrow> world \<Rightarrow> string \<Rightarrow> string \<Rightarrow> string \<Rightarrow> user \<times> world" where
  "register_user e c w name email password =
     (let u = (new_user (row_fresh u_id (users w)) (strip (lower name)) (utcnow c))
                \<lparr>u_email := strip (lower email),
                 u_hashed_password := cx_password_hash (ae_crypto e) password,
                 u_is_admin := False, u_plan := ''basic''\<rparr>
      in (u, users_update (\<lambda>us. us @ [u]) w))"

text \<open>\<open>Inl\<close> is an exception of the password library, which the routes do not catch.\<close>

definition authenticate_user :: "'r auth_env \<Rightarrow> world \<Rightarrow> string \<Rightarrow> string \<Rightarrow> (http_error + user option) \<times> world" where
  "authenticate_user e w login password =
     (let found = (case get_user_by_email w login of Some u \<Rightarrow> Some u | None \<Rightarrow> get_user_by_username w login)
      in case found of
        None \<Rightarrow> (Inr None, w)
      | Some u \<Rightarrow>
          (case cx_password_verify (ae_crypto e) password (u_hashed_password u) of
             None \<Rightarrow> (Inl (http 500), w)
           | Some False \<Rightarrow> (Inr None, users_update (row_upd u_id (u_id u)
                (\<lambda>u. u\<lparr>u_failed_login_attempts := u_failed_login_attempts u + 1\<rparr>)) w)
           | Some True \<Rightarrow>
               if u_failed_login_attempts u \<noteq> 0
               then (let u' = u\<lparr>u_failed_login_attempts := 0\<rparr>
                     in (Inr (Some u'), users_update (row_upd u_id (u_id u) (\<lambda>_. u')) w))
               else (Inr (Some u), w)))"

section \<open>Revocation\<close>

definition revoked_key :: "string \<Rightarrow> string" where
  "revoked_key jti = ''auth:revoked:'' @ jti"

definition revoke :: "'r redis option \<Rightarrow> string \<Rightarrow> int \<Rightarrow> 'r \<Rightarrow> bool \<times> 'r" where
  "revoke rd jti ttl_seconds r =
     (if jti = [] \<or> ttl_seconds \<le> 0 then (False, r)
      else case rd of None \<Rightarrow> (False, r) | Some rd \<Rightarrow> rd_set_ex rd (revoked_key jti) ''1'' ttl_seconds r)"

definition is_revoked :: "'r redis option \<Rightarrow> string \<Rightarrow> 'r \<Rightarrow> bool" where
  "is_revoked rd jti r =
     (if jti = [] then False
      else case rd of
        None \<Rightarrow> False
      | Some rd \<Rightarrow> (case rd_exists rd (revoked_key jti) r of Some b \<Rightarrow> b | None \<Rightarrow> False))"

section \<open>The cache of authenticated users\<close>

fun split_on :: "char \<Rightarrow> string \<Rightarrow> string list" where
  "split_on sep [] = [[]]"
| "split_on sep (c # cs) =
     (if c = sep then [] # split_on sep cs
      else case split_on sep cs of [] \<Rightarrow> [[c]] | part # parts \<Rightarrow> (c # part) # parts)"

definition auth_key :: "'r auth_env \<Rightarrow> string \<Rightarrow> string" where
  "auth_key e token = ''auth:'' @ take 32 (cx_sha256 (ae_crypto e) token)"

definition bit_str :: "bool \<Rightarrow> string" where
  "bit_str b = (if b then ''1'' else ''0'')"

definition get_cached_user :: "'r auth_env \<Rightarrow> string \<Rightarrow> 'r \<Rightarrow> (int \<times> bool \<times> bool) option" where
  "get_cached_user e token r =
     (case ae_redis e of
        None \<Rightarrow> None
      | Some rd \<Rightarrow>
          if token = [] then None
          else case rd_get rd (auth_key e token) r of
            Some (Some v) \<Rightarrow>
              (case split_on (CHR '':'') v of
                 [a, b, d] \<Rightarrow> map_option (\<lambda>i. (i, b = ''1'', d = ''1'')) (parse_int a)
               | _ \<Rightarrow> None)
          | _ \<Rightarrow> None)"

definition cache_user :: "'r auth_env \<Rightarrow> string \<Rightarrow> int \<Rightarrow> bool \<Rightarrow> bool \<Rightarrow> 'r \<Rightarrow> 'r" where
  "cache_user e token uid blocked admin r =
     (case ae_redis e of
        None \<Rightarrow> r
      | Some rd \<Rightarrow>
          if token = [] then r
          else snd (rd_set_ex rd (auth_key e token)
                 (int_str uid @ '':'' @ bit_str blocked @ '':'' @ bit_str admin) 60 r))"

fun drop_pages :: "'r redis \<Rightarrow> string \<Rightarrow> string list list \<Rightarrow> 'r \<Rightarrow> 'r" where
  "drop_pages rd prefix [] r = r"
| "drop_pages rd prefix (keys # pages) r =
     (if keys = [] then drop_pages rd prefix pages r
      else case rd_mget rd keys r of
        None \<Rightarrow> r
      | Some vals \<Rightarrow>
          let stale = map fst (filter (\<lambda>(k, v). case v of Some s \<Rightarrow> s \<noteq> [] \<and> take (length prefix) s = prefix
                                        | None \<Rightarrow> False) (zip keys vals))
          in if stale = [] then drop_pages rd prefix pages r
             else (let (ok, r') = rd_delete rd stale r in if ok then drop_pages rd prefix pages r' else r'))"

definition invalidate_user :: "'r redis option \<Rightarrow> int \<Rightarrow> 'r \<Rightarrow> 'r" where
  "invalidate_user rd uid r =
     (case rd of
        None \<Rightarrow> r
      | Some rd \<Rightarrow>
          (case rd_scan rd ''auth:'' r of
             None \<Rightarrow> r
           | Some pages \<Rightarrow> drop_pages rd (int_str uid @ '':'') pages r))"

section \<open>Request guards\<close>

definition heartbeat :: "'r redis option \<Rightarrow> clock \<Rightarrow> int \<Rightarrow> 'r \<Rightarrow> 'r" where
  "heartbeat rd c uid r =
     (case rd of
        None \<Rightarrow> r
      | Some rd \<Rightarrow> snd (rd_set_ex rd (''avalant:online:'' @ int_str uid) (int_str (epoch_seconds (utcnow c))) 300 r))"

definition is_online :: "'r redis option \<Rightarrow> int \<Rightarrow> 'r \<Rightarrow> bool" where
  "is_online rd uid r =
     (case rd of
        None \<Rightarrow> True
      | Some rd \<Rightarrow> (case rd_exists rd (''avalant:online:'' @ int_str uid) r of Some b \<Rightarrow> b | None \<Rightarrow> True))"

definition bump_last_active :: "clock \<Rightarrow> user \<Rightarrow> user" where
  "bump_last_active c u =
     (case u_last_active_at u of
        Some prev \<Rightarrow> if seconds_us 60 \<le> utcnow c - prev then u\<lparr>u_last_active_at := Some (utcnow c)\<rparr> else u
      | None \<Rightarrow> u\<lparr>u_last_active_at := Some (utcnow c)\<rparr>)"

text \<open>What the guard does once it has admitted a user.\<close>

definition admit :: "'r auth_env \<Rightarrow> clock \<Rightarrow> user \<Rightarrow> 'r auth_state \<Rightarrow> (http_error + user) \<times> 'r auth_state" where
  "admit e c u s =
     (Inr (bump_last_active c u),
      edit_user (u_id u) (\<lambda>_. bump_last_active c u)
        (s\<lparr>as_redis := heartbeat (ae_redis e) c (u_id u) (as_redis s)\<rparr>))"

definition bearer :: "string option \<Rightarrow> string option" where
  "bearer header =
     (case header of
        None \<Rightarrow> None
      | Some h \<Rightarrow> if take 7 h = ''Bearer '' then Some (drop 7 h) else None)"

definition get_current_user ::
  "'r auth_env \<Rightarrow> clock \<Rightarrow> string option \<Rightarrow> 'r auth_state \<Rightarrow> (http_error + user) \<times> 'r auth_state" where
  "get_current_user e c header s =
     (case bearer header of
        None \<Rightarrow> (Inl (http 401), s)
      | Some token \<Rightarrow>
          (case decode_payload e c token of
             None \<Rightarrow> (Inl (http 401), s)
           | Some p \<Rightarrow>
               if p = no_claims then (Inl (http 401), s)
               else if filled (cl_scope p) then (Inl (http 401), s)
               else if (case cl_jti p of Some j \<Rightarrow> is_revoked (ae_redis e) j (as_redis s) | None \<Rightarrow> False)
               then (Inl (http 401), s)
               else (case get_cached_user e token (as_redis s) of
                 Some (uid, blocked, _) \<Rightarrow>
                   if blocked then (Inl (http 403), s)
                   else (case get_user_by_id (as_world s) uid of
                     None \<Rightarrow> (Inl (http 401), s)
                   | Some u \<Rightarrow> admit e c u s)
               | None \<Rightarrow>
                   (case sub_id p of
                      None \<Rightarrow> (Inl (http 401), s)
                    | Some uid \<Rightarrow>
                        (case get_user_by_id (as_world s) uid of
                           None \<Rightarrow> (Inl (http 401), s)
                         | Some u \<Rightarrow>
                             if u_is_blocked u then (Inl (http 403), s)
                             else admit e c u (s\<lparr>as_redis :=
                               cache_user e token (u_id u) (u_is_blocked u) (u_is_admin u) (as_redis s)\<rparr>))))))"

text \<open>The honeypot: a probe of the admin surface blocks the account and drops its cache entries.\<close>

definition trip :: "'r auth_env \<Rightarrow> user option \<Rightarrow> 'r auth_state \<Rightarrow> 'r auth_state" where
  "trip e user s =
     (case user of
        None \<Rightarrow> s
      | Some u \<Rightarrow>
          if u_is_blocked u then s
          else (edit_user (u_id u) (\<lambda>u. u\<lparr>u_is_blocked := True\<rparr>) s)
                 \<lparr>as_redis := invalidate_user (ae_redis e) (u_id u) (as_redis s)\<rparr>)"

definition get_admin_user ::
  "'r auth_env \<Rightarrow> clock \<Rightarrow> string option \<Rightarrow> 'r auth_state \<Rightarrow> (http_error + user) \<times> 'r auth_state" where
  "get_admin_user e c header s =
     (case get_current_user e c header s of
        (Inl err, s1) \<Rightarrow> (Inl err, s1)
      | (Inr u, s1) \<Rightarrow> if u_is_admin u then (Inr u, s1) else (Inl (http 403), trip e (Some u) s1))"

section \<open>Logout and the session cookie\<close>

definition logout :: "'r auth_env \<Rightarrow> clock \<Rightarrow> string option \<Rightarrow> 'r auth_state \<Rightarrow> 'r auth_state" where
  "logout e c header s =
     (case bearer header of
        None \<Rightarrow> s
      | Some token \<Rightarrow>
          (case decode_payload e c token of
             None \<Rightarrow> s
           | Some p \<Rightarrow>
               (case (cl_jti p, cl_exp p) of
                  (Some j, Some ex) \<Rightarrow>
                    if j \<noteq> [] \<and> ex \<noteq> 0
                    then (let ttl = max 0 \<lfloor>of_int ex - wall c\<rfloor>
                          in if 0 < ttl then s\<lparr>as_redis := snd (revoke (ae_redis e) j ttl (as_redis s))\<rparr> else s)
                    else s
                | _ \<Rightarrow> s)))"

definition cookie_session :: "'r auth_env \<Rightarrow> clock \<Rightarrow> string option \<Rightarrow> 'r auth_state \<Rightarrow> http_error + string \<times> user" where
  "cookie_session e c cookie s =
     (if \<not> filled cookie then Inl (http 401)
      else let token = the cookie in
        case decode_payload e c token of
          None \<Rightarrow> Inl (http 401)
        | Some p \<Rightarrow>
            if p = no_claims then Inl (http 401)
            else if filled (cl_scope p) then Inl (http 401)
            else if (case cl_jti p of Some j \<Rightarrow> is_revoked (ae_redis e) j (as_redis s) | None \<Rightarrow> False)
            then Inl (http 401)
            else (case sub_id p of
              None \<Rightarrow> Inl (http 401)
            | Some uid \<Rightarrow>
                (case get_user_by_id (as_world s) uid of
                   None \<Rightarrow> Inl (http 401)
                 | Some u \<Rightarrow> if u_is_blocked u then Inl (http 403) else Inr (token, u))))"

section \<open>What the guards admit\<close>

text \<open>The documented behaviour of the token library: decoding yields what was encoded, or fails.\<close>

definition decodes_to :: "crypto \<Rightarrow> claims \<Rightarrow> bool" where
  "decodes_to cx p \<longleftrightarrow> (\<forall>c. cx_decode cx c (cx_encode cx p) \<in> {None, Some p})"

lemma bearer_header [simp]:
  "bearer (Some (CHR ''B'' # CHR ''e'' # CHR ''a'' # CHR ''r'' # CHR ''e'' # CHR ''r'' # CHR '' '' # token)) = Some token"
  by (simp add: bearer_def)

text \<open>A token that opens no session, whatever the state.\<close>

definition opens_no_session :: "'r auth_env \<Rightarrow> string \<Rightarrow> bool" where
  "opens_no_session e token \<longleftrightarrow>
     (\<forall>c s. fst (get_current_user e c (Some (''Bearer '' @ token)) s) = Inl (http 401) \<and>
            cookie_session e c (Some token) s = Inl (http 401))"

lemma scoped_token_opens_nothing:
  assumes "decodes_to (ae_crypto e) p" and "filled (cl_scope p)"
  shows "opens_no_session e (cx_encode (ae_crypto e) p)"
proof -
  have d: "decode_payload e c (cx_encode (ae_crypto e) p) \<in> {None, Some p}" for c
    using assms(1) by (simp add: decodes_to_def decode_payload_def)
  have "fst (get_current_user e c (Some (''Bearer '' @ cx_encode (ae_crypto e) p)) s) = Inl (http 401)
      \<and> cookie_session e c (Some (cx_encode (ae_crypto e) p)) s = Inl (http 401)" for c s
    using d [of c] assms(2) by (auto simp: get_current_user_def cookie_session_def)
  then show ?thesis by (simp add: opens_no_session_def)
qed

lemma revoked_token_refused:
  assumes "decode_payload e c token = Some p \<or> decode_payload e c token = None"
    and "cl_jti p = Some j" and "is_revoked (ae_redis e) j (as_redis s)"
  shows "fst (get_current_user e c (Some (''Bearer '' @ token)) s) = Inl (http 401)"
    and "cookie_session e c (Some token) s = Inl (http 401)"
  using assms by (auto simp: get_current_user_def cookie_session_def)

lemma admit_world:
  "as_world (snd (admit e c u s)) = users_update (row_upd u_id (u_id u) (\<lambda>_. bump_last_active c u)) (as_world s)"
  by (simp add: admit_def edit_user_def)

lemma bump_last_active_keeps [simp]:
  "u_id (bump_last_active c u) = u_id u" "u_is_admin (bump_last_active c u) = u_is_admin u"
  "u_is_blocked (bump_last_active c u) = u_is_blocked u"
  by (auto simp: bump_last_active_def split: option.split)

text \<open>What an admitted request shows: the account exists and the stored row is the one returned.\<close>

lemma admitted_from:
  assumes "get_current_user e c header s = (Inr u, s')"
  shows "\<exists>v r i token. bearer header = Some token \<and> admit e c v (s\<lparr>as_redis := r\<rparr>) = (Inr u, s') \<and>
     get_user_by_id (as_world s) i = Some v \<and>
     (r = as_redis s \<or> r = cache_user e token (u_id v) (u_is_blocked v) (u_is_admin v) (as_redis s))"
proof -
  have same: "s = s\<lparr>as_redis := as_redis s\<rparr>" by simp
  show ?thesis
    using assms
    by (auto simp: get_current_user_def split: option.split_asm prod.split_asm if_split_asm) (metis same)+
qed

lemma admitted_user:
  assumes "get_current_user e c header s = (Inr u, s')"
  shows "get_user_by_id (as_world s') (u_id u) = Some u"
proof -
  obtain v r i token where a0: "admit e c v (s\<lparr>as_redis := r\<rparr>) = (Inr u, s')"
      "get_user_by_id (as_world s) i = Some v"
    using admitted_from [OF assms] by blast
  define s1 where "s1 = s\<lparr>as_redis := r\<rparr>"
  have a: "admit e c v s1 = (Inr u, s')" "as_world s1 = as_world s" "get_user_by_id (as_world s) i = Some v"
    using a0 by (simp_all add: s1_def)
  then have v: "row_get u_id (users (as_world s1)) (u_id v) = Some v"
    by (auto simp: get_user_by_id_def dest: row_get_Some)
  have u: "u = bump_last_active c v" "as_world s' = users_update (row_upd u_id (u_id v) (\<lambda>_. u)) (as_world s1)"
    using a(1) admit_world [of e c v s1] by (auto simp: admit_def)
  then show ?thesis
    using v by (simp add: get_user_by_id_def row_get_upd_const)
qed

end
