(* ===== verification/Auth.thy ===== *)
theory Auth
  imports Sessions Ref_Codes Referral
begin

text \<open>
  Authentication: second factors (\<^verbatim>\<open>backend/services/totp.py\<close>, \<^verbatim>\<open>email_confirm.py\<close>), the
  routes of \<^verbatim>\<open>backend/api/v1/auth.py\<close> that register users, exchange passwords, second
  factors and link tokens, and the Google sign-in of \<^verbatim>\<open>google_auth_service.py\<close>. Randomness
  (token ids, salts, secrets, codes) is an argument of the operation that draws it.
\<close>

section \<open>Second factors\<close>

definition all_digits :: "string \<Rightarrow> bool" where
  "all_digits s \<longleftrightarrow> s \<noteq> [] \<and> list_all is_digit s"

definition verify_code :: "crypto \<Rightarrow> clock \<Rightarrow> string \<Rightarrow> string \<Rightarrow> bool" where
  "verify_code cx c secret code =
     (if code = [] \<or> \<not> all_digits (strip code) then False
      else case cx_totp_verify cx c secret (strip code) of Some b \<Rightarrow> b | None \<Rightarrow> False)"

definition recovery_alphabet :: string where
  "recovery_alphabet = ''abcdefghjkmnpqrstuvwxyz23456789''"

text \<open>One draw is the eight indices that \<open>secrets.choice\<close> picks.\<close>

definition generate_recovery_codes :: "nat list list \<Rightarrow> string list" where
  "generate_recovery_codes draws =
     map (\<lambda>d. map (nth recovery_alphabet) (take 4 d) @ ''-'' @ map (nth recovery_alphabet) (drop 4 d)) draws"

definition hash_recovery_codes :: "crypto \<Rightarrow> string list \<Rightarrow> string list \<Rightarrow> string list" where
  "hash_recovery_codes cx salts plain = map (\<lambda>(salt, code). cx_bcrypt_hash cx salt code) (zip salts plain)"

fun remove_match :: "crypto \<Rightarrow> string \<Rightarrow> string list \<Rightarrow> string list option" where
  "remove_match cx candidate [] = None"
| "remove_match cx candidate (h # hs) =
     (if cx_bcrypt_verify cx candidate h = Some True then Some hs
      else map_option (Cons h) (remove_match cx candidate hs))"

definition verify_and_consume_recovery_code :: "crypto \<Rightarrow> string list \<Rightarrow> string \<Rightarrow> bool \<times> string list" where
  "verify_and_consume_recovery_code cx stored code =
     (if code = [] \<or> stored = [] then (False, stored)
      else case remove_match cx (lower (strip code)) stored of
        Some rest \<Rightarrow> (True, rest)
      | None \<Rightarrow> (False, stored))"

definition is_recovery_format :: "string \<Rightarrow> bool" where
  "is_recovery_format code \<longleftrightarrow> CHR ''-'' \<in> set (strip code) \<and> 8 \<le> length (strip code)"

definition email_key :: "int \<Rightarrow> string" where
  "email_key uid = ''email_confirm:'' @ int_str uid"

definition six_digits :: "int \<Rightarrow> string" where
  "six_digits n = (let s = int_str n in replicate (6 - length s) (CHR ''0'') @ s)"

text \<open>\<open>drawn\<close> is the number below a million, \<open>salt\<close> the salt of its hash.\<close>

definition issue_email_code :: "'r auth_env \<Rightarrow> int \<Rightarrow> string \<Rightarrow> int \<Rightarrow> 'r auth_state \<Rightarrow> string \<times> 'r auth_state" where
  "issue_email_code e drawn salt uid s =
     (let code = six_digits drawn; h = cx_bcrypt_hash (ae_crypto e) salt code; k = email_key uid in
      (code,
       case ae_redis e of
         None \<Rightarrow> s\<lparr>as_email_codes := (as_email_codes s)(k \<mapsto> h)\<rparr>
       | Some rd \<Rightarrow>
           let (ok, r) = rd_set_ex rd k h 600 (as_redis s); s1 = s\<lparr>as_redis := r\<rparr>
           in if ok then s1 else s1\<lparr>as_email_codes := (as_email_codes s1)(k \<mapsto> h)\<rparr>))"

definition stored_email_hash :: "'r auth_env \<Rightarrow> int \<Rightarrow> 'r auth_state \<Rightarrow> string option" where
  "stored_email_hash e uid s =
     (let in_redis = (case ae_redis e of
            None \<Rightarrow> None
          | Some rd \<Rightarrow> (case rd_get rd (email_key uid) (as_redis s) of Some v \<Rightarrow> v | None \<Rightarrow> None))
      in case in_redis of Some h \<Rightarrow> Some h | None \<Rightarrow> as_email_codes s (email_key uid))"

definition verify_email_code :: "'r auth_env \<Rightarrow> int \<Rightarrow> string \<Rightarrow> 'r auth_state \<Rightarrow> bool \<times> 'r auth_state" where
  "verify_email_code e uid raw s =
     (let code = filter (\<lambda>ch. ch \<noteq> CHR '' '') (strip raw) in
      if raw = [] \<or> length code \<noteq> 6 \<or> \<not> all_digits code then (False, s)
      else case stored_email_hash e uid s of
        None \<Rightarrow> (False, s)
      | Some h \<Rightarrow>
          if h = [] then (False, s)
          else case cx_bcrypt_verify (ae_crypto e) code h of
            Some True \<Rightarrow>
              (True, s\<lparr>as_redis := (case ae_redis e of
                         None \<Rightarrow> as_redis s
                       | Some rd \<Rightarrow> snd (rd_delete rd [email_key uid] (as_redis s))),
                       as_email_codes := (as_email_codes s)(email_key uid := None)\<rparr>)
          | _ \<Rightarrow> (False, s))"

section \<open>Steps the routes share\<close>

record token_reply =
  tr_access_token :: string
  tr_token_type :: string
  tr_recovery_used :: "bool option"
  tr_session_cookie :: bool

definition session_reply :: "string \<Rightarrow> bool option \<Rightarrow> token_reply" where
  "session_reply token used =
     \<lparr>tr_access_token = token, tr_token_type = ''bearer'', tr_recovery_used = used, tr_session_cookie = True\<rparr>"

text \<open>The text of an optional request field: \<open>(body.get(k) or "").strip()\<close>.\<close>

definition field_text :: "string option \<Rightarrow> string" where
  "field_text f = (case f of Some v \<Rightarrow> strip v | None \<Rightarrow> [])"

definition limit_ip :: "clock \<Rightarrow> string \<Rightarrow> 'r auth_state \<Rightarrow> (int + unit) \<times> 'r auth_state" where
  "limit_ip c ip s = (let (res, a) = check_rate_limit c ip (as_attempts s) in (res, s\<lparr>as_attempts := a\<rparr>))"

definition count_attempt :: "clock \<Rightarrow> string \<Rightarrow> 'r auth_state \<Rightarrow> 'r auth_state" where
  "count_attempt c ip s = s\<lparr>as_attempts := record_attempt c ip (as_attempts s)\<rparr>"

definition forget_attempts :: "string \<Rightarrow> 'r auth_state \<Rightarrow> 'r auth_state" where
  "forget_attempts ip s = s\<lparr>as_attempts := clear_attempts ip (as_attempts s)\<rparr>"

definition cooldown_left :: "'r auth_env \<Rightarrow> clock \<Rightarrow> string \<Rightarrow> 'r auth_state \<Rightarrow> int option" where
  "cooldown_left e c subject s = throttle_check (ae_redis e) c subject (as_redis s, as_throttle s)"

definition count_failure :: "'r auth_env \<Rightarrow> clock \<Rightarrow> string \<Rightarrow> 'r auth_state \<Rightarrow> int \<times> 'r auth_state" where
  "count_failure e c subject s =
     (let (n, r, f) = register_failure (ae_redis e) c subject (as_redis s, as_throttle s)
      in (n, s\<lparr>as_redis := r, as_throttle := f\<rparr>))"

definition forget_failures :: "'r auth_env \<Rightarrow> string \<Rightarrow> 'r auth_state \<Rightarrow> 'r auth_state" where
  "forget_failures e subject s =
     (let (r, f) = throttle_clear (ae_redis e) subject (as_redis s, as_throttle s)
      in s\<lparr>as_redis := r, as_throttle := f\<rparr>)"

definition refusal :: "int \<Rightarrow> http_error" where
  "refusal cooldown = (if cooldown \<noteq> 0 then too_many cooldown else http 401)"

section \<open>Password and second-factor login\<close>

definition totp_armed :: "user \<Rightarrow> bool" where
  "totp_armed u \<longleftrightarrow> u_totp_verified_at u \<noteq> None \<and> filled (u_totp_secret_enc u)"

definition login ::
  "'r auth_env \<Rightarrow> clock \<Rightarrow> string \<Rightarrow> request \<Rightarrow> string \<Rightarrow> string \<Rightarrow> 'r auth_state \<Rightarrow>
   (http_error + token_reply) \<times> 'r auth_state" where
  "login e c jti req name password s0 =
     (let ip = get_ip req in
      case limit_ip c ip s0 of
        (Inl n, s) \<Rightarrow> (Inl (too_many n), s)
      | (Inr _, s) \<Rightarrow>
          let retry_after = cooldown_left e c name s in
          if truthy retry_after then (Inl (too_many (the retry_after)), s)
          else
            let (res, w) = authenticate_user e (as_world s) name password; s = s\<lparr>as_world := w\<rparr> in
            case res of
              Inl err \<Rightarrow> (Inl err, s)
            | Inr None \<Rightarrow>
                let s = count_attempt c ip s; (cooldown, s) = count_failure e c name s;
                    known = (case get_user_by_email w name of
                               Some u \<Rightarrow> Some u | None \<Rightarrow> get_user_by_username w name)
                in (Inl (case known of
                           Some u \<Rightarrow> if u_is_blocked u then http 403 else refusal cooldown
                         | None \<Rightarrow> refusal cooldown), s)
            | Inr (Some u) \<Rightarrow>
                if u_is_blocked u then (Inl (http 403), s)
                else if totp_armed u
                then (Inr \<lparr>tr_access_token = create_token e c jti (u_id u) (Some 5) (Some ''totp_challenge'') [],
                           tr_token_type = ''totp_challenge'', tr_recovery_used = None,
                           tr_session_cookie = False\<rparr>,
                      count_attempt c ip s)
                else (Inr (session_reply (create_token e c jti (u_id u) None None []) None),
                      forget_attempts ip (forget_failures e name s)))"

text \<open>
  The second leg. A challenge that does not decode is the payload None, on which the
  code calls \<open>get\<close>: the resulting exception is a 500 response.
\<close>

definition second_factor ::
  "'r auth_env \<Rightarrow> clock \<Rightarrow> user \<Rightarrow> string \<Rightarrow> string \<Rightarrow> (bool \<times> user) option" where
  "second_factor e c u secret code =
     (let cx = ae_crypto e; stored = (case u_totp_recovery_codes u of Some hs \<Rightarrow> hs | None \<Rightarrow> []);
          (burnt, remaining) = (if is_recovery_format code then verify_and_consume_recovery_code cx stored code
                                else (False, stored))
      in if burnt then Some (True, u\<lparr>u_totp_recovery_codes := Some remaining\<rparr>)
         else if verify_code cx c secret code then Some (False, u) else None)"

definition finish_second_leg ::
  "'r auth_env \<Rightarrow> clock \<Rightarrow> string \<Rightarrow> string \<Rightarrow> user \<Rightarrow> string \<Rightarrow> 'r auth_state \<Rightarrow>
   (http_error + token_reply) \<times> 'r auth_state" where
  "finish_second_leg e c jti ip u code s =
     (let subject = ''totp:'' @ int_str (u_id u); retry_after = cooldown_left e c subject s in
      if truthy retry_after then (Inl (too_many (the retry_after)), s)
      else case cx_decrypt (ae_crypto e) (the (u_totp_secret_enc u)) of
        None \<Rightarrow> (Inl (http 500), s)
      | Some secret \<Rightarrow>
          (case second_factor e c u secret code of
             None \<Rightarrow>
               let s = count_attempt c ip s; (cooldown, s) = count_failure e c subject s
               in (Inl (refusal cooldown), s)
           | Some (recovery, u') \<Rightarrow>
               (Inr (session_reply (create_token e c jti (u_id u) None None [])
                       (if recovery then Some True else None)),
                edit_user (u_id u) (\<lambda>_. u'\<lparr>u_totp_last_used_at := Some (utcnow c)\<rparr>)
                  (forget_attempts ip (forget_failures e subject s)))))"

definition login_totp ::
  "'r auth_env \<Rightarrow> clock \<Rightarrow> string \<Rightarrow> request \<Rightarrow> string option \<Rightarrow> string option \<Rightarrow> 'r auth_state \<Rightarrow>
   (http_error + token_reply) \<times> 'r auth_state" where
  "login_totp e c jti req challenge_field code_field s0 =
     (let ip = get_ip req in
      case limit_ip c ip s0 of
        (Inl n, s) \<Rightarrow> (Inl (too_many n), s)
      | (Inr _, s) \<Rightarrow>
          let challenge = field_text challenge_field; code = field_text code_field in
          if challenge = [] \<or> code = [] then (Inl (http 422), s)
          else case decode_payload e c challenge of
            None \<Rightarrow> (Inl (http 500), s)
          | Some p \<Rightarrow>
              if cl_scope p \<noteq> Some ''totp_challenge'' then (Inl (http 401), s)
              else case (if filled (cl_sub p) then sub_id p else Some 0) of
                None \<Rightarrow> (Inl (http 500), s)
              | Some uid \<Rightarrow>
                  (case get_user_by_id (as_world s) uid of
                     None \<Rightarrow> (Inl (http 401), s)
                   | Some u \<Rightarrow>
                       if \<not> filled (u_totp_secret_enc u) then (Inl (http 401), s)
                       else finish_second_leg e c jti ip u code s))"

section \<open>Sensitive operations\<close>

text \<open>
  The half of the gate that checks the authenticator. A used recovery code is removed
  from the user object; the caller commits it.
\<close>

definition totp_half :: "'r auth_env \<Rightarrow> clock \<Rightarrow> user \<Rightarrow> string \<Rightarrow> bool \<times> user" where
  "totp_half e c u code =
     (if code \<noteq> [] \<and> totp_armed u
      then let cx = ae_crypto e;
               ok = (case cx_decrypt cx (the (u_totp_secret_enc u)) of
                       Some secret \<Rightarrow> verify_code cx c secret code | None \<Rightarrow> False)
           in if ok then (True, u)
              else if is_recovery_format code
              then (let stored = (case u_totp_recovery_codes u of Some hs \<Rightarrow> hs | None \<Rightarrow> []);
                        (burnt, remaining) = verify_and_consume_recovery_code cx stored code
                    in if burnt then (True, u\<lparr>u_totp_recovery_codes := Some remaining\<rparr>) else (False, u))
              else (False, u)
      else (False, u))"

definition email_half :: "'r auth_env \<Rightarrow> user \<Rightarrow> string \<Rightarrow> 'r auth_state \<Rightarrow> bool \<times> 'r auth_state" where
  "email_half e u code s = (if code \<noteq> [] then verify_email_code e (u_id u) code s else (False, s))"

definition verify_sensitive_op_gate ::
  "'r auth_env \<Rightarrow> clock \<Rightarrow> user \<Rightarrow> string option \<Rightarrow> string option \<Rightarrow> bool \<Rightarrow> 'r auth_state \<Rightarrow>
   (http_error + user) \<times> 'r auth_state" where
  "verify_sensitive_op_gate e c u totp_field email_field require_both s =
     (let subject = ''pwd:'' @ int_str (u_id u); retry_after = cooldown_left e c subject s in
      if truthy retry_after then (Inl (too_many (the retry_after)), s)
      else
        let (totp_ok, u') = totp_half e c u (field_text totp_field);
            (email_ok, s) = email_half e u (field_text email_field) s;
            accepted = (if require_both then totp_ok \<and> email_ok else totp_ok \<or> email_ok)
        in if accepted then (Inr u', forget_failures e subject s)
           else (let (cooldown, s) = count_failure e c subject s in (Inl (refusal cooldown), s)))"

definition me_2fa_setup ::
  "'r auth_env \<Rightarrow> clock \<Rightarrow> string \<Rightarrow> user \<Rightarrow> string option \<Rightarrow> string option \<Rightarrow> 'r auth_state \<Rightarrow>
   (http_error + string) \<times> 'r auth_state" where
  "me_2fa_setup e c secret u totp_field email_field s =
     (case verify_sensitive_op_gate e c u totp_field email_field False s of
        (Inl err, s) \<Rightarrow> (Inl err, s)
      | (Inr u', s) \<Rightarrow>
          (Inr secret, edit_user (u_id u) (\<lambda>_. u'\<lparr>u_totp_secret_enc := Some (cx_encrypt (ae_crypto e) secret),
             u_totp_verified_at := None\<rparr>) s))"

definition me_2fa_verify ::
  "'r auth_env \<Rightarrow> clock \<Rightarrow> nat list list \<Rightarrow> string list \<Rightarrow> user \<Rightarrow> string option \<Rightarrow> 'r auth_state \<Rightarrow>
   (http_error + string list) \<times> 'r auth_state" where
  "me_2fa_verify e c draws salts u code_field s =
     (if \<not> filled (u_totp_secret_enc u) then (Inl (http 400), s)
      else case cx_decrypt (ae_crypto e) (the (u_totp_secret_enc u)) of
        None \<Rightarrow> (Inl (http 500), s)
      | Some secret \<Rightarrow>
          if \<not> verify_code (ae_crypto e) c secret (field_text code_field) then (Inl (http 400), s)
          else let plain = generate_recovery_codes draws in
            (Inr plain, edit_user (u_id u) (\<lambda>_. u\<lparr>u_totp_verified_at := Some (utcnow c),
               u_totp_recovery_codes := Some (hash_recovery_codes (ae_crypto e) salts plain)\<rparr>) s))"

definition me_2fa_recovery_regenerate ::
  "'r auth_env \<Rightarrow> clock \<Rightarrow> nat list list \<Rightarrow> string list \<Rightarrow> user \<Rightarrow> string option \<Rightarrow> string option \<Rightarrow>
   'r auth_state \<Rightarrow> (http_error + string list) \<times> 'r auth_state" where
  "me_2fa_recovery_regenerate e c draws salts u totp_field email_field s =
     (if u_totp_verified_at u = None then (Inl (http 400), s)
      else case verify_sensitive_op_gate e c u totp_field email_field True s of
        (Inl err, s) \<Rightarrow> (Inl err, s)
      | (Inr u', s) \<Rightarrow>
          let plain = generate_recovery_codes draws in
          (Inr plain, edit_user (u_id u) (\<lambda>_. u'\<lparr>u_totp_recovery_codes :=
             Some (hash_recovery_codes (ae_crypto e) salts plain)\<rparr>) s))"

definition me_2fa_disable ::
  "'r auth_env \<Rightarrow> clock \<Rightarrow> user \<Rightarrow> string option \<Rightarrow> string option \<Rightarrow> 'r auth_state \<Rightarrow>
   (http_error + unit) \<times> 'r auth_state" where
  "me_2fa_disable e c u totp_field email_field s =
     (case verify_sensitive_op_gate e c u totp_field email_field True s of
        (Inl err, s) \<Rightarrow> (Inl err, s)
      | (Inr u', s) \<Rightarrow>
          (Inr (), edit_user (u_id u) (\<lambda>_. u'\<lparr>u_totp_secret_enc := None, u_totp_verified_at := None,
             u_totp_recovery_codes := None, u_totp_last_used_at := None\<rparr>) s))"

section \<open>Registration\<close>

text \<open>The validators of the request body; \<open>None\<close> is a 422. The address is checked by pydantic.\<close>

definition clean_register :: "string \<Rightarrow> string \<Rightarrow> string option \<Rightarrow> (string \<times> string \<times> string option) option" where
  "clean_register name password referral =
     (let n = strip name; ref = map_option (upper \<circ> strip) referral in
      if length n < 3 \<or> length password < 6 \<or> (case ref of Some v \<Rightarrow> 16 < length v | None \<Rightarrow> False) then None
      else Some (n, password, if filled ref then ref else None))"

datatype register_reply = Created token_reply | Pending_Confirmation

definition legacy_capture :: "int \<Rightarrow> string \<Rightarrow> world \<Rightarrow> world" where
  "legacy_capture uid code w =
     (case find_referrer_by_code w code of
        Some r \<Rightarrow> if u_id r \<noteq> uid
                  then users_update (row_upd u_id uid (\<lambda>u. u\<lparr>u_referred_by_id := Some (u_id r)\<rparr>)) w else w
      | None \<Rightarrow> w)"

definition register ::
  "'r auth_env \<Rightarrow> clock \<Rightarrow> string \<Rightarrow> request \<Rightarrow> string \<Rightarrow> string \<Rightarrow> string \<Rightarrow> string option \<Rightarrow>
   'r auth_state \<Rightarrow> (http_error + register_reply) \<times> 'r auth_state" where
  "register e c jti req name email password referral s0 =
     (let ip = get_ip req in
      case limit_ip c ip s0 of
        (Inl n, s) \<Rightarrow> (Inl (too_many n), s)
      | (Inr _, s) \<Rightarrow>
          if get_user_by_username (as_world s) name \<noteq> None then (Inl (http 409), count_attempt c ip s)
          else if get_user_by_email (as_world s) email \<noteq> None then (Inr Pending_Confirmation, count_attempt c ip s)
          else
            let (u, w) = register_user e c (as_world s) name email password;
                s = forget_attempts ip (s\<lparr>as_world := w\<rparr>);
                ok = (\<lambda>w. (Inr (Created (session_reply (create_token e c jti (u_id u) None None []) None)),
                           s\<lparr>as_world := w\<rparr>))
            in case referral of
                 Some (ch # cs) \<Rightarrow>
                   (case bind_referee c w (u_id u) (ch # cs) of
                      Inl Self_Referral \<Rightarrow> (Inl (http 400), s)
                    | Inl Registration_Cap \<Rightarrow> (Inl (http 400), s)
                    | Inl _ \<Rightarrow> ok (legacy_capture (u_id u) (ch # cs) w)
                    | Inr (None, w') \<Rightarrow> ok (legacy_capture (u_id u) (ch # cs) w')
                    | Inr (Some _, w') \<Rightarrow> ok w')
               | _ \<Rightarrow> ok w)"

section \<open>Google sign-in\<close>

definition safe_username :: "string \<Rightarrow> string" where
  "safe_username email =
     (let kept = filter (\<lambda>ch. is_digit ch \<or> (CHR ''a'' \<le> ch \<and> ch \<le> CHR ''z'') \<or> ch = CHR ''_'' \<or> ch = CHR ''-'')
                   (lower (takeWhile (\<lambda>ch. ch \<noteq> CHR ''@'') email));
          base = (if kept = [] then ''user'' else kept);
          base = (if length base < 3 then take 8 (base @ ''user'') else base)
      in take 32 base)"

function dedupe_from :: "world \<Rightarrow> string \<Rightarrow> string \<Rightarrow> int \<Rightarrow> string \<Rightarrow> string" where
  "dedupe_from w base hex suffix cand =
     (if get_user_by_username w cand = None then cand
      else if 200 < suffix + 1 then base @ ''_'' @ hex
      else dedupe_from w base hex (suffix + 1) (base @ int_str suffix))"
  by pat_completeness auto
termination by (relation "measure (\<lambda>(_, _, _, suffix, _). nat (200 - suffix))") auto

declare dedupe_from.simps [simp del]

definition dedupe_username :: "world \<Rightarrow> string \<Rightarrow> string \<Rightarrow> string" where
  "dedupe_username w base hex = dedupe_from w base hex 2 base"

text \<open>\<open>random_pw\<close>, \<open>hex\<close> and \<open>drawn\<close> are the random password, suffix and referral codes.\<close>

definition login_or_register_via_google ::
  "'r auth_env \<Rightarrow> clock \<Rightarrow> string \<Rightarrow> string \<times> string \<times> string list \<Rightarrow> string \<Rightarrow> world \<Rightarrow> (int \<times> string \<times> bool) \<times> world" where
  "login_or_register_via_google e c jti random info_email w =
     (let (random_pw, hex, drawn) = random; email = strip (lower info_email) in
      case get_user_by_email w email of
        None \<Rightarrow>
          let (u, w) = register_user e c w (dedupe_username w (safe_username email) hex) email random_pw;
              u' = u\<lparr>u_email_verified_at := Some (utcnow c), u_has_password := False\<rparr>;
              w = users_update (row_upd u_id (u_id u) (\<lambda>_. u')) w;
              w = (case ensure_referral_code w u' drawn of Inl _ \<Rightarrow> w | Inr (_, w') \<Rightarrow> w')
          in ((u_id u, create_token e c jti (u_id u) None None [], True), w)
      | Some u \<Rightarrow>
          ((u_id u, create_token e c jti (u_id u) None None [], False),
           if u_email_verified_at u = None
           then users_update (row_upd u_id (u_id u) (\<lambda>u. u\<lparr>u_email_verified_at := Some (utcnow c)\<rparr>)) w
           else w))"

text \<open>
  The callback route. \<open>exchange\<close> is the verified address the provider answers for a code,
  None when the exchange raises; \<open>Inl\<close> is the redirect back to the login page.
\<close>

definition google_callback ::
  "'r auth_env \<Rightarrow> clock \<Rightarrow> string \<Rightarrow> string \<times> string \<times> string list \<Rightarrow> (string \<Rightarrow> string option) \<Rightarrow>
   string option \<Rightarrow> string option \<Rightarrow> string option \<Rightarrow> 'r auth_state \<Rightarrow> (string + string \<times> token_reply) \<times> 'r auth_state" where
  "google_callback e c jti random exchange code state error s =
     (if filled error then (Inl (the error), s)
      else if \<not> filled code \<or> \<not> filled state then (Inl ''missing_params'', s)
      else case decode_payload e c (the state) of
        None \<Rightarrow> (Inl ''bad_state'', s)
      | Some p \<Rightarrow>
          if cl_scope p \<noteq> Some ''google_oauth_state'' then (Inl ''bad_state'', s)
          else
            let raw = map_of (cl_extra p) ''next'';
                wanted = (if filled raw then the raw else ''/portfolio'');
                next_path = (if take 1 wanted = ''/'' then wanted else ''/portfolio'')
            in case exchange (the code) of
                 None \<Rightarrow> (Inl ''exchange_failed'', s)
               | Some email \<Rightarrow>
                   let ((uid, token, created), w) = login_or_register_via_google e c jti random email (as_world s)
                   in (Inr (next_path, session_reply token None), s\<lparr>as_world := w\<rparr>))"

section \<open>Link tokens\<close>

definition forwarded_ip :: "request \<Rightarrow> string" where
  "forwarded_ip r = (let h = first_hop (case rq_forwarded_for r of Some v \<Rightarrow> v | None \<Rightarrow> [])
                     in if h \<noteq> [] then h else host_of r)"

text \<open>Issuing drops the unused tokens of the user; redeeming marks the row.\<close>

definition issue_link :: "clock \<Rightarrow> string \<Rightarrow> int \<Rightarrow> time \<Rightarrow> link_token list \<Rightarrow> link_token list" where
  "issue_link c h uid ttl rows =
     (let kept = filter (\<lambda>r. \<not> (lt_user_id r = uid \<and> lt_used_at r = None)) rows
      in kept @ [\<lparr>lt_id = row_fresh lt_id kept, lt_user_id = uid, lt_token_hash = h,
                  lt_expires_at = utcnow c + ttl, lt_used_at = None, lt_created_at = utcnow c\<rparr>])"

definition live_link :: "clock \<Rightarrow> string \<Rightarrow> link_token list \<Rightarrow> link_token option" where
  "live_link c h rows =
     (case find (\<lambda>r. lt_token_hash r = h) rows of
        None \<Rightarrow> None
      | Some r \<Rightarrow> if lt_used_at r \<noteq> None \<or> lt_expires_at r < utcnow c then None else Some r)"

definition use_link :: "clock \<Rightarrow> link_token \<Rightarrow> link_token list \<Rightarrow> link_token list" where
  "use_link c r = row_upd lt_id (lt_id r) (\<lambda>r. r\<lparr>lt_used_at := Some (utcnow c)\<rparr>)"

text \<open>The reply carries the raw token when no mailer is configured and the dev toggle is set.\<close>

definition password_reset_request ::
  "'r auth_env \<Rightarrow> clock \<Rightarrow> string \<Rightarrow> bool \<Rightarrow> bool \<Rightarrow> request \<Rightarrow> string option \<Rightarrow> 'r auth_state \<Rightarrow>
   (http_error + string option) \<times> 'r auth_state" where
  "password_reset_request e c raw mailer dev_expose req email_field s0 =
     (let email = lower (field_text email_field) in
      case limit_ip c (forwarded_ip req) s0 of
        (Inl n, s) \<Rightarrow> (Inl (too_many n), s)
      | (Inr _, s) \<Rightarrow>
          (case get_user_by_email (as_world s) email of
             None \<Rightarrow> (Inr None, s)
           | Some u \<Rightarrow>
               (Inr (if \<not> mailer \<and> dev_expose then Some raw else None),
                s\<lparr>as_reset_tokens := issue_link c (cx_sha256 (ae_crypto e) raw) (u_id u) (seconds_us (15 * 60))
                    (as_reset_tokens s)\<rparr>)))"

definition password_reset_confirm ::
  "'r auth_env \<Rightarrow> clock \<Rightarrow> request \<Rightarrow> string \<Rightarrow> string \<Rightarrow> 'r auth_state \<Rightarrow> (http_error + unit) \<times> 'r auth_state" where
  "password_reset_confirm e c req token new_password s0 =
     (let ip = forwarded_ip req in
      case limit_ip c ip s0 of
        (Inl n, s) \<Rightarrow> (Inl (too_many n), s)
      | (Inr _, s) \<Rightarrow>
          if token = [] \<or> length new_password < 8 then (Inl (http 400), s)
          else case live_link c (cx_sha256 (ae_crypto e) token) (as_reset_tokens s) of
            None \<Rightarrow> (Inl (http 400), count_attempt c ip s)
          | Some r \<Rightarrow>
              (case get_user_by_id (as_world s) (lt_user_id r) of
                 None \<Rightarrow> (Inl (http 400), s)
               | Some u \<Rightarrow>
                   let s1 = (edit_user (u_id u) (\<lambda>u. u\<lparr>u_hashed_password := cx_password_hash (ae_crypto e) new_password,
                               u_has_password := True\<rparr>) s)\<lparr>as_reset_tokens := use_link c r (as_reset_tokens s)\<rparr>
                   in (Inr (), s1\<lparr>as_redis := invalidate_user (ae_redis e) (u_id u) (as_redis s1)\<rparr>)))"

text \<open>\<open>Inr None\<close> is the reply that the address is verified already.\<close>

definition email_verify_request ::
  "'r auth_env \<Rightarrow> clock \<Rightarrow> string \<Rightarrow> bool \<Rightarrow> bool \<Rightarrow> request \<Rightarrow> user \<Rightarrow> 'r auth_state \<Rightarrow>
   (http_error + string option option) \<times> 'r auth_state" where
  "email_verify_request e c raw mailer dev_expose req u s0 =
     (case limit_ip c (get_ip req) s0 of
        (Inl n, s) \<Rightarrow> (Inl (too_many n), s)
      | (Inr _, s) \<Rightarrow>
          if u_email_verified_at u \<noteq> None then (Inr None, s)
          else (Inr (Some (if \<not> mailer \<and> dev_expose then Some raw else None)),
                s\<lparr>as_verify_tokens := issue_link c (cx_sha256 (ae_crypto e) raw) (u_id u) (seconds_us (24 * 3600))
                    (as_verify_tokens s)\<rparr>))"

definition email_verify_confirm ::
  "'r auth_env \<Rightarrow> clock \<Rightarrow> request \<Rightarrow> string \<Rightarrow> 'r auth_state \<Rightarrow> (http_error + time) \<times> 'r auth_state" where
  "email_verify_confirm e c req token s0 =
     (let ip = get_ip req in
      case limit_ip c ip s0 of
        (Inl n, s) \<Rightarrow> (Inl (too_many n), s)
      | (Inr _, s) \<Rightarrow>
          if token = [] then (Inl (http 400), s)
          else case live_link c (cx_sha256 (ae_crypto e) token) (as_verify_tokens s) of
            None \<Rightarrow> (Inl (http 400), count_attempt c ip s)
          | Some r \<Rightarrow>
              (case get_user_by_id (as_world s) (lt_user_id r) of
                 None \<Rightarrow> (Inl (http 400), s)
               | Some u \<Rightarrow>
                   let at_time = (case u_email_verified_at u of Some t \<Rightarrow> t | None \<Rightarrow> utcnow c);
                       s1 = (edit_user (u_id u) (\<lambda>u. u\<lparr>u_email_verified_at := Some at_time\<rparr>) s)
                              \<lparr>as_verify_tokens := use_link c r (as_verify_tokens s)\<rparr>
                   in (Inr at_time, s1\<lparr>as_redis := invalidate_user (ae_redis e) (u_id u) (as_redis s1)\<rparr>)))"

section \<open>A concrete environment\<close>

text \<open>
  Toy cryptography and a Redis over an association list that never expires, used to
  evaluate the properties: a token is its id, known claims decode back.
\<close>

definition demo_crypto :: "claims list \<Rightarrow> crypto" where
  "demo_crypto known = \<lparr>
     cx_encode = (\<lambda>p. ''tok.'' @ (case cl_jti p of Some j \<Rightarrow> j | None \<Rightarrow> [])),
     cx_decode = (\<lambda>c t. find (\<lambda>p. t = ''tok.'' @ (case cl_jti p of Some j \<Rightarrow> j | None \<Rightarrow> [])) known),
     cx_password_hash = (\<lambda>pw. ''pw:'' @ pw),
     cx_password_verify = (\<lambda>pw h. Some (h = ''pw:'' @ pw)),
     cx_bcrypt_hash = (\<lambda>salt code. ''bc:'' @ code),
     cx_bcrypt_verify = (\<lambda>code h. Some (h = ''bc:'' @ code)),
     cx_totp_verify = (\<lambda>c secret code. Some (code = ''123456'')),
     cx_encrypt = (\<lambda>s. ''enc:'' @ s),
     cx_decrypt = (\<lambda>s. if take 4 s = ''enc:'' then Some (drop 4 s) else None),
     cx_sha256 = rev\<rparr>"

definition demo_redis :: "(string \<times> string) list redis" where
  "demo_redis = \<lparr>
     rd_incr = (\<lambda>k r. (Some 1, (k, ''1'') # r)),
     rd_expire = (\<lambda>k n r. (True, r)),
     rd_ttl = (\<lambda>k r. Some (if map_of r k = None then - 2 else 100)),
     rd_set_ex = (\<lambda>k v n r. (True, (k, v) # r)),
     rd_get = (\<lambda>k r. Some (map_of r k)),
     rd_delete = (\<lambda>ks r. (True, filter (\<lambda>(k, _). k \<notin> set ks) r)),
     rd_exists = (\<lambda>k r. Some (map_of r k \<noteq> None)),
     rd_scan = (\<lambda>prefix r. Some [map fst (filter (\<lambda>(k, _). take (length prefix) k = prefix) r)]),
     rd_mget = (\<lambda>ks r. Some (map (map_of r) ks))\<rparr>"

definition demo_env :: "claims list \<Rightarrow> (string \<times> string) list auth_env" where
  "demo_env known = \<lparr>ae_crypto = demo_crypto known, ae_redis = Some demo_redis, ae_expire_days = 30\<rparr>"

definition offline_env :: "claims list \<Rightarrow> unit auth_env" where
  "offline_env known = \<lparr>ae_crypto = demo_crypto known, ae_redis = None, ae_expire_days = 30\<rparr>"

text \<open>Eve has armed a second factor and holds one recovery code; Finn has not.\<close>

definition eve :: user where
  "eve = (new_user 7 ''eve'' 0)\<lparr>u_email := ''eve@x.io'', u_hashed_password := ''pw:secret'',
     u_totp_secret_enc := Some ''enc:K'', u_totp_verified_at := Some 5,
     u_totp_recovery_codes := Some [''bc:abcd-efgh'']\<rparr>"

definition finn :: user where
  "finn = (new_user 8 ''finn'' 0)\<lparr>u_email := ''finn@x.io'', u_hashed_password := ''pw:hunter2'',
     u_failed_login_attempts := 2\<rparr>"

definition auth_start :: "'r \<Rightarrow> 'r auth_state" where
  "auth_start r = \<lparr>as_world = empty_world\<lparr>users := [eve, finn], codes := [sample_code\<lparr>rc_owner_id := 8\<rparr>]\<rparr>,
     as_redis = r, as_attempts = (\<lambda>_. []), as_throttle = (\<lambda>_. None), as_email_codes = (\<lambda>_. None),
     as_reset_tokens = [], as_verify_tokens = []\<rparr>"

definition visitor :: request where
  "visitor = \<lparr>rq_forwarded_for = None, rq_client_host = Some ''h''\<rparr>"

lemma demo_decodes: "decodes_to (demo_crypto [p]) p"
  by (simp add: decodes_to_def demo_crypto_def)

section \<open>Login\<close>

lemma limit_ip_frame:
  assumes "limit_ip c ip s = (r, s')"
  shows "as_world s' = as_world s" "as_redis s' = as_redis s" "as_throttle s' = as_throttle s"
    "as_email_codes s' = as_email_codes s" "as_reset_tokens s' = as_reset_tokens s"
    "as_verify_tokens s' = as_verify_tokens s"
  using assms by (auto simp: limit_ip_def split: prod.splits)

lemma cooldown_left_cong:
  "as_redis s = as_redis s' \<Longrightarrow> as_throttle s = as_throttle s' \<Longrightarrow> cooldown_left e c subject s = cooldown_left e c subject s'"
  by (simp add: cooldown_left_def)

text \<open>The three gates before the password of an account counts.\<close>

definition login_open :: "'r auth_env \<Rightarrow> clock \<Rightarrow> request \<Rightarrow> string \<Rightarrow> 'r auth_state \<Rightarrow> bool" where
  "login_open e c req name s \<longleftrightarrow>
     fst (limit_ip c (get_ip req) s) = Inr () \<and> \<not> truthy (cooldown_left e c name s)"

lemma login_result:
  assumes "fst (authenticate_user e (as_world s) name password) = Inr (Some u)"
  shows "fst (login e c jti req name password s) =
     (if fst (limit_ip c (get_ip req) s) \<noteq> Inr () then Inl (too_many 300)
      else if truthy (cooldown_left e c name s) then Inl (too_many (the (cooldown_left e c name s)))
      else if u_is_blocked u then Inl (http 403)
      else if totp_armed u
      then Inr \<lparr>tr_access_token = create_token e c jti (u_id u) (Some 5) (Some ''totp_challenge'') [],
             tr_token_type = ''totp_challenge'', tr_recovery_used = None, tr_session_cookie = False\<rparr>
      else Inr (session_reply (create_token e c jti (u_id u) None None []) None))"
proof -
  obtain r s1 where l: "limit_ip c (get_ip req) s = (r, s1)" by (cases "limit_ip c (get_ip req) s")
  have w: "as_world s1 = as_world s" by (rule limit_ip_frame [OF l])
  have cd: "cooldown_left e c name s1 = cooldown_left e c name s"
    by (rule cooldown_left_cong) (rule limit_ip_frame [OF l])+
  obtain w' where a: "authenticate_user e (as_world s) name password = (Inr (Some u), w')"
    using assms by (cases "authenticate_user e (as_world s) name password") auto
  have "r = Inl n \<Longrightarrow> n = 300" for n
    using l by (auto simp: limit_ip_def check_rate_limit_def login_bucket_def Let_def split: if_splits)
  then show ?thesis by (cases r) (auto simp: login_def l w cd a Let_def)
qed

lemma login_refused:
  assumes "\<nexists>u. fst (authenticate_user e (as_world s) name password) = Inr (Some u)"
  shows "\<exists>err. fst (login e c jti req name password s) = Inl err"
proof -
  obtain r s1 where l: "limit_ip c (get_ip req) s = (r, s1)" by (cases "limit_ip c (get_ip req) s")
  have w: "as_world s1 = as_world s" by (rule limit_ip_frame [OF l])
  obtain res w' where a: "authenticate_user e (as_world s) name password = (res, w')"
    by (cases "authenticate_user e (as_world s) name password")
  show ?thesis
  proof (cases res)
    case (Inl err)
    then show ?thesis by (cases r) (auto simp: login_def l w a Let_def)
  next
    case (Inr found)
    then have "res = Inr None" using assms a by (cases found) auto
    then show ?thesis by (cases r) (auto simp: login_def l w a Let_def split: prod.split)
  qed
qed


definition eve_challenge :: claims where
  "eve_challenge = token_claims (offline_env []) sample_clock ''c1'' 7 (Some 5) (Some ''totp_challenge'') []"


text \<open>
  Who gets a session from the password form: exactly the requests that pass the address
  limit and the login's cooldown with the password of an account that is neither blocked nor
  protected by a second factor; the session is for that account.
\<close>

definition account_of :: "world \<Rightarrow> string \<Rightarrow> user option" where
  "account_of w name =
     (case get_user_by_email w name of Some u \<Rightarrow> Some u | None \<Rightarrow> get_user_by_username w name)"

lemma authenticated_iff:
  "fst (authenticate_user e w name password) = Inr (Some u) \<longleftrightarrow>
     (\<exists>v. account_of w name = Some v \<and> cx_password_verify (ae_crypto e) password (u_hashed_password v) = Some True \<and>
          u = v\<lparr>u_failed_login_attempts := 0\<rparr>)"
proof (cases "account_of w name")
  case (Some v)
  have same: "v\<lparr>u_failed_login_attempts := 0\<rparr> = v" if "u_failed_login_attempts v = 0"
    using that by simp
  show ?thesis
  proof (cases "cx_password_verify (ae_crypto e) password (u_hashed_password v)")
    case (Some ok)
    show ?thesis
      using \<open>account_of w name = Some v\<close> Some same
      by (cases ok; cases "u_failed_login_attempts v = 0")
        (auto simp: authenticate_user_def account_of_def [symmetric] Let_def)
  qed (use Some in \<open>simp add: authenticate_user_def account_of_def [symmetric]\<close>)
qed (simp add: authenticate_user_def account_of_def [symmetric])

theorem session_from_password_iff:
  "fst (login e c jti req name password s) = Inr reply \<and> tr_session_cookie reply \<longleftrightarrow>
     login_open e c req name s \<and>
     (\<exists>u. account_of (as_world s) name = Some u \<and>
          cx_password_verify (ae_crypto e) password (u_hashed_password u) = Some True \<and>
          \<not> u_is_blocked u \<and> \<not> totp_armed u \<and>
          reply = session_reply (create_token e c jti (u_id u) None None []) None)"
proof -
  have keep: "u_is_blocked (v\<lparr>u_failed_login_attempts := 0\<rparr>) = u_is_blocked v"
      "totp_armed (v\<lparr>u_failed_login_attempts := 0\<rparr>) = totp_armed v"
      "u_id (v\<lparr>u_failed_login_attempts := 0\<rparr>) = u_id v" for v :: user
    by (simp_all add: totp_armed_def)
  have cookie: "tr_session_cookie (session_reply t b)" for t b by (simp add: session_reply_def)
  show ?thesis
  proof (cases "\<exists>u. fst (authenticate_user e (as_world s) name password) = Inr (Some u)")
    case True
    then obtain u where u: "fst (authenticate_user e (as_world s) name password) = Inr (Some u)" by blast
    then obtain v where v: "account_of (as_world s) name = Some v" "u = v\<lparr>u_failed_login_attempts := 0\<rparr>"
        "cx_password_verify (ae_crypto e) password (u_hashed_password v) = Some True"
      by (auto simp: authenticated_iff)
    have r: "fst (login e c jti req name password s) =
       (if \<not> login_open e c req name s
        then Inl (if fst (limit_ip c (get_ip req) s) \<noteq> Inr () then too_many 300
                  else too_many (the (cooldown_left e c name s)))
        else if u_is_blocked v then Inl (http 403)
        else if totp_armed v
        then Inr \<lparr>tr_access_token = create_token e c jti (u_id v) (Some 5) (Some ''totp_challenge'') [],
               tr_token_type = ''totp_challenge'', tr_recovery_used = None, tr_session_cookie = False\<rparr>
        else Inr (session_reply (create_token e c jti (u_id v) None None []) None))"
      unfolding login_result [OF u] login_open_def by (simp add: v(2) keep)
    show ?thesis
      unfolding r v(1) using v(3)
      by (cases "login_open e c req name s"; cases "u_is_blocked v"; cases "totp_armed v") (auto simp: cookie)
  next
    case False
    then have "\<not> (\<exists>u. account_of (as_world s) name = Some u \<and>
        cx_password_verify (ae_crypto e) password (u_hashed_password u) = Some True)"
      by (simp add: authenticated_iff)
    then show ?thesis using login_refused [OF False, of c jti req] by auto
  qed
qed

section \<open>The second leg\<close>

lemma second_leg_finish:
  assumes "finish_second_leg e c jti ip u code s = (Inr reply, s')"
  shows "\<exists>secret recovery u'. second_factor e c u secret code = Some (recovery, u') \<and>
     tr_recovery_used reply = (if recovery then Some True else None) \<and>
     as_world s' = users_update (row_upd u_id (u_id u) (\<lambda>_. u'\<lparr>u_totp_last_used_at := Some (utcnow c)\<rparr>)) (as_world s)"
proof -
  have f: "as_world (forget_attempts ip (forget_failures e k s)) = as_world s" for k
    by (simp add: forget_attempts_def forget_failures_def split_beta)
  obtain secret recovery u' where sf: "second_factor e c u secret code = Some (recovery, u')"
      "finish_second_leg e c jti ip u code s = (Inr reply, s')"
      "cx_decrypt (ae_crypto e) (the (u_totp_secret_enc u)) = Some secret"
    using assms unfolding finish_second_leg_def Let_def
    by (auto split: if_split_asm option.split_asm prod.split_asm)
  then have "tr_recovery_used reply = (if recovery then Some True else None) \<and>
      as_world s' = users_update (row_upd u_id (u_id u) (\<lambda>_. u'\<lparr>u_totp_last_used_at := Some (utcnow c)\<rparr>)) (as_world s)"
    by (auto simp: finish_second_leg_def Let_def session_reply_def edit_user_def f split: if_split_asm)
  then show ?thesis using sf(1) by blast
qed

lemma second_leg:
  assumes "login_totp e c jti req ch code s = (Inr reply, s')"
    and "decode_payload e c (field_text ch) = Some p" and "filled (cl_sub p)" and "sub_id p = Some uid"
    and "get_user_by_id (as_world s) uid = Some u"
  shows "\<exists>s1. as_world s1 = as_world s \<and>
     finish_second_leg e c jti (get_ip req) u (field_text code) s1 = (Inr reply, s')"
proof -
  obtain r s1 where l: "limit_ip c (get_ip req) s = (r, s1)" by (cases "limit_ip c (get_ip req) s")
  have w: "as_world s1 = as_world s" by (rule limit_ip_frame [OF l])
  then have "finish_second_leg e c jti (get_ip req) u (field_text code) s1 = (Inr reply, s')"
    using assms(1) by (cases r) (simp_all add: login_totp_def l assms(2-5) Let_def split: if_splits)
  then show ?thesis using w by blast
qed

lemma second_leg_refused:
  assumes "decode_payload e c (field_text ch) = Some p" and "filled (cl_sub p)" and "sub_id p = Some uid"
    and "get_user_by_id (as_world s) uid = Some u"
    and "\<And>secret. second_factor e c u secret (field_text code) = None"
  shows "\<exists>err. fst (login_totp e c jti req ch code s) = Inl err"
proof -
  obtain reply s' where r: "login_totp e c jti req ch code s = (reply, s')"
    by (cases "login_totp e c jti req ch code s")
  have "reply \<noteq> Inr rep" for rep
    using second_leg [OF _ assms(1-4), of jti req code rep s'] second_leg_finish assms(5) r by fastforce
  then show ?thesis using r by (cases reply) auto
qed

text \<open>The documented behaviour of the hash: a code verifies against exactly its own hashes.\<close>

definition honest_bcrypt :: "crypto \<Rightarrow> bool" where
  "honest_bcrypt cx \<longleftrightarrow> (\<forall>code salt other. cx_bcrypt_verify cx code (cx_bcrypt_hash cx salt other) = Some (code = other))"

lemma remove_match_hashes:
  assumes "honest_bcrypt cx" and "length salts = length plain" and "distinct plain"
  shows "remove_match cx x (hash_recovery_codes cx salts plain) =
    (if x \<in> set plain then Some (map (\<lambda>(salt, code). cx_bcrypt_hash cx salt code) (filter (\<lambda>(_, code). code \<noteq> x) (zip salts plain)))
     else None)"
  using assms(2,3)
proof (induction salts plain rule: list_induct2)
  case (Cons salt salts code plain)
  have "filter (\<lambda>(_, code). code \<noteq> x) (zip salts plain) = zip salts plain" if "x \<notin> set plain"
    using that by (auto simp: filter_id_conv dest: set_zip_rightD)
  then show ?case using Cons assms(1) by (auto simp: hash_recovery_codes_def honest_bcrypt_def)
qed (simp add: hash_recovery_codes_def)

lemma remove_match_gone:
  assumes "honest_bcrypt cx"
  shows "remove_match cx x (map (\<lambda>(salt, code). cx_bcrypt_hash cx salt code) (filter (\<lambda>(_, code). code \<noteq> x) zs)) = None"
  using assms by (induction zs) (auto simp: honest_bcrypt_def)

lemma recovery_not_totp: "is_recovery_format code \<Longrightarrow> \<not> verify_code cx c secret code"
  by (auto simp: verify_code_def is_recovery_format_def all_digits_def list_all_iff is_digit_def)

lemma second_factor_id: "second_factor e c u secret code = Some (b, u') \<Longrightarrow> u_id u' = u_id u"
  by (auto simp: second_factor_def Let_def split: if_split_asm prod.split_asm)

text \<open>Recovery codes are compared without regard to case and surrounding space.\<close>

lemma recovery_spelling:
  assumes "lower s = lower t" and "strip s = s" and "strip t = t"
  shows "is_recovery_format s = is_recovery_format t"
    and "verify_and_consume_recovery_code cx hs s = verify_and_consume_recovery_code cx hs t"
proof -
  have hyphen: "lower_char a = CHR ''-'' \<longleftrightarrow> a = CHR ''-''" for a
  proof (cases "65 \<le> (of_char a :: nat) \<and> (of_char a :: nat) \<le> 90")
    case True
    then have "(of_char (lower_char a) :: nat) = of_char a + 32" by (simp add: lower_char_def)
    moreover have "(of_char (CHR ''-'') :: nat) = 45" by simp
    ultimately show ?thesis using True by auto
  qed (auto simp: lower_char_def Let_def)
  have hy: "CHR ''-'' \<in> set s \<longleftrightarrow> CHR ''-'' \<in> set (lower s)" for s
    by (induction s) (auto simp: lower_def hyphen eq_commute [of "CHR ''-''"])
  have len: "length (lower s) = length s" for s by (simp add: lower_def)
  show "is_recovery_format s = is_recovery_format t"
    unfolding is_recovery_format_def assms(2,3) using hy [of s] hy [of t] len [of s] len [of t] assms(1) by simp
  have "s = [] \<longleftrightarrow> t = []" using assms(1) by (metis lower_eq_Nil)
  then show "verify_and_consume_recovery_code cx hs s = verify_and_consume_recovery_code cx hs t"
    using assms by (simp add: verify_and_consume_recovery_code_def)
qed

lemma spent_recovery_code:
  assumes "honest_bcrypt (ae_crypto e)" and "length salts = length plain" and "distinct plain"
    and "u_totp_recovery_codes u = Some (hash_recovery_codes (ae_crypto e) salts plain)"
    and "second_factor e c u secret code = Some (True, u')"
    and "u_totp_recovery_codes v = u_totp_recovery_codes u'"
    and "lower again = lower code" and "strip again = again" and "strip code = code"
  shows "lower code \<in> set plain \<and> second_factor e c' v secret' again = None"
proof -
  have f: "is_recovery_format code" "code \<noteq> []"
    using assms(5) by (auto simp: second_factor_def verify_and_consume_recovery_code_def Let_def split: if_splits prod.splits)
  have m: "lower code \<in> set plain \<and> u_totp_recovery_codes u' =
      Some (map (\<lambda>(salt, code). cx_bcrypt_hash (ae_crypto e) salt code) (filter (\<lambda>(_, x). x \<noteq> lower code) (zip salts plain)))"
    using assms(4,5,9) f recovery_not_totp [OF f(1), of "ae_crypto e" c secret]
    by (auto simp: second_factor_def verify_and_consume_recovery_code_def Let_def
        remove_match_hashes [OF assms(1-3)] split: if_splits option.splits prod.splits)
  have ag: "is_recovery_format again"
    using recovery_spelling(1) [OF assms(7-9)] f(1) by simp
  have "lower (strip again) = lower code" using assms(7,8) by simp
  then have "second_factor e c' v secret' again = None"
    using m f ag assms(6,9) recovery_not_totp [OF ag, of "ae_crypto e" c' secret']
    by (simp add: second_factor_def verify_and_consume_recovery_code_def Let_def remove_match_gone [OF assms(1)])
  then show ?thesis using m by simp
qed

text \<open>
  C34. A recovery code opens at most one session. Whoever signs in with a recovery code of a
  set as it was issued cannot do so again with any spelling of it, with any challenge, while
  the account keeps the codes the first sign-in left.
\<close>

theorem recovery_code_once:
  assumes "login_totp e c jti req ch code s = (Inr reply, s')" and "tr_recovery_used reply = Some True"
    and "decode_payload e c (field_text ch) = Some p" and "filled (cl_sub p)" and "sub_id p = Some uid"
    and "get_user_by_id (as_world s) uid = Some u"
    and "u_totp_recovery_codes u = Some (hash_recovery_codes (ae_crypto e) salts plain)"
    and "honest_bcrypt (ae_crypto e)" and "length salts = length plain" and "distinct plain"
    and "lower (field_text again) = lower (field_text code)"
    and "decode_payload e c2 (field_text ch2) = Some p2" and "filled (cl_sub p2)" and "sub_id p2 = Some uid"
    and "get_user_by_id (as_world s2) uid = Some v"
    and "map_option u_totp_recovery_codes (get_user_by_id (as_world s') uid) = Some (u_totp_recovery_codes v)"
  shows "lower (field_text code) \<in> set plain \<and> (\<exists>err. fst (login_totp e c2 jti2 req2 ch2 again s2) = Inl err)"
proof -
  obtain s1 where s1: "as_world s1 = as_world s"
      "finish_second_leg e c jti (get_ip req) u (field_text code) s1 = (Inr reply, s')"
    using second_leg [OF assms(1,3-6)] by blast
  then obtain secret u' where f: "second_factor e c u secret (field_text code) = Some (True, u')"
      "as_world s' = users_update (row_upd u_id (u_id u) (\<lambda>_. u'\<lparr>u_totp_last_used_at := Some (utcnow c)\<rparr>)) (as_world s1)"
    using second_leg_finish [OF s1(2)] assms(2) by (auto split: if_splits)
  have uid: "u_id u = uid" "row_get u_id (users (as_world s)) uid = Some u"
    using assms(6) by (auto simp: get_user_by_id_def dest: row_get_Some)
  have "u_id u' = u_id u"
    using f(1) by (auto simp: second_factor_def Let_def split: if_splits option.splits prod.splits)
  then have "get_user_by_id (as_world s') uid = Some (u'\<lparr>u_totp_last_used_at := Some (utcnow c)\<rparr>)"
    using uid f(2) s1(1) by (simp add: get_user_by_id_def row_get_upd_const)
  then have v: "u_totp_recovery_codes v = u_totp_recovery_codes u'" using assms(16) by simp
  have st: "strip (field_text x) = field_text x" for x
    by (cases x) (simp_all add: field_text_def strip_idem, simp add: strip_def)
  have spent: "lower (field_text code) \<in> set plain" "second_factor e c' v secret' (field_text again) = None" for c' secret'
    using spent_recovery_code [OF assms(8,9,10,7) f(1) v, of "field_text again"] st assms(11) by auto
  then show ?thesis using second_leg_refused [OF assms(12-15)] by blast
qed

theorem recovery_code_once_witness:
  "let e = offline_env [eve_challenge];
       (reply, s') = login_totp e sample_clock ''j'' visitor (Some ''tok.c1'') (Some ''abcd-efgh'') (auth_start ())
   in (\<exists>r. reply = Inr r \<and> tr_recovery_used r = Some True) \<and>
      (\<exists>err. fst (login_totp e later_clock ''k'' visitor (Some ''tok.c1'') (Some '' ABCD-efgh'') s') = Inl err)"
proof -
  let ?e = "offline_env [eve_challenge]"
  let ?run = "login_totp ?e sample_clock ''j'' visitor (Some ''tok.c1'') (Some ''abcd-efgh'') (auth_start ())"
  have f: "fst ?run = Inr (session_reply ''tok.j'' (Some True))" by code_simp
  obtain s' where r: "?run = (Inr (session_reply ''tok.j'' (Some True)), s')" using f by (cases ?run) auto
  have u: "tr_recovery_used (session_reply ''tok.j'' (Some True)) = Some True" by code_simp
  have p: "decode_payload ?e sample_clock (field_text (Some ''tok.c1'')) = Some eve_challenge"
      "decode_payload ?e later_clock (field_text (Some ''tok.c1'')) = Some eve_challenge"
      "filled (cl_sub eve_challenge)" "sub_id eve_challenge = Some 7"
      "get_user_by_id (as_world (auth_start ())) 7 = Some eve"
      "u_totp_recovery_codes eve = Some (hash_recovery_codes (ae_crypto ?e) [[]] [''abcd-efgh''])"
      "lower (field_text (Some '' ABCD-efgh'')) = lower (field_text (Some ''abcd-efgh''))" by code_simp+
  have b: "honest_bcrypt (ae_crypto ?e)" by (simp add: honest_bcrypt_def offline_env_def demo_crypto_def) auto
  have "map_option u_id (get_user_by_id (as_world (snd ?run)) 7) = Some 7" by code_simp
  then obtain v where v: "get_user_by_id (as_world s') 7 = Some v" by (auto simp: r)
  then have vc: "map_option u_totp_recovery_codes (get_user_by_id (as_world s') 7) = Some (u_totp_recovery_codes v)"
    by simp
  have "\<exists>err. fst (login_totp ?e later_clock ''k'' visitor (Some ''tok.c1'') (Some '' ABCD-efgh'') s') = Inl err"
    using recovery_code_once [OF r u p(1,3,4,5,6) b _ _ p(7,2,3,4) v vc] by simp
  then show ?thesis using r u by auto
qed

section \<open>Sensitive operations\<close>

lemma email_half_frame [simp]:
  "as_world (snd (email_half e u code s)) = as_world s"
  "as_throttle (snd (email_half e u code s)) = as_throttle s"
  by (auto simp: email_half_def verify_email_code_def Let_def split: option.split bool.split)

lemma count_failure_world [simp]: "as_world (snd (count_failure e c k s)) = as_world s"
  by (simp add: count_failure_def split_beta)

lemma forget_failures_world [simp]: "as_world (forget_failures e k s) = as_world s"
  by (simp add: forget_failures_def split_beta)

lemma gate_accepts_iff:
  "(\<exists>u'. fst (verify_sensitive_op_gate e c u totp email both s) = Inr u') \<longleftrightarrow>
     \<not> truthy (cooldown_left e c (''pwd:'' @ int_str (u_id u)) s) \<and>
     (let t = fst (totp_half e c u (field_text totp)); m = fst (email_half e u (field_text email) s)
      in if both then t \<and> m else t \<or> m)"
  by (auto simp: verify_sensitive_op_gate_def Let_def split: prod.splits)

lemma gate_world: "as_world (snd (verify_sensitive_op_gate e c u totp email both s)) = as_world s"
  by (auto simp: verify_sensitive_op_gate_def Let_def split: prod.splits)
     (metis email_half_frame(1) snd_conv count_failure_world)+

lemma totp_half_id: "totp_half e c u code = (b, u') \<Longrightarrow> u_id u' = u_id u"
  by (auto simp: totp_half_def Let_def split: if_split_asm prod.split_asm)

lemma gate_id: "fst (verify_sensitive_op_gate e c u totp email both s) = Inr u' \<Longrightarrow> u_id u' = u_id u"
  by (auto simp: verify_sensitive_op_gate_def Let_def dest: totp_half_id split: if_split_asm prod.split_asm)

lemma get_edited_user:
  assumes "get_user_by_id (as_world s) i = Some u" and "u_id v = i" and "as_world s' = as_world s"
  shows "get_user_by_id (as_world (edit_user i (\<lambda>_. v) s')) j = (if j = i then Some v else get_user_by_id (as_world s) j)"
  using assms by (simp add: get_user_by_id_def edit_user_def row_get_upd_const)


definition mailed :: "unit auth_state" where
  "mailed = snd (issue_email_code (offline_env []) 42 [] 7 (auth_start ()))"


text \<open>
  Re-running the set-up undoes the protection with one factor. For an account with an
  armed second factor, a session and a mailed code alone, which the switch-off route refuses,
  are accepted by the set-up route and leave the account without second factor.
\<close>

theorem setup_disarms_with_mail_alone:
  assumes "get_user_by_id (as_world s) (u_id u) = Some u" and "totp_armed u"
    and "\<not> truthy (cooldown_left e c (''pwd:'' @ int_str (u_id u)) s)"
    and "fst (email_half e u (field_text email) s)"
  shows "(\<exists>err. fst (me_2fa_disable e c u None email s) = Inl err) \<and>
     fst (me_2fa_setup e c secret u None email s) = Inr secret \<and>
     map_option totp_armed (get_user_by_id (as_world (snd (me_2fa_setup e c secret u None email s))) (u_id u)) = Some False"
proof -
  have t: "totp_half e c u (field_text None) = (False, u)" by (simp add: totp_half_def field_text_def)
  obtain err where d: "fst (verify_sensitive_op_gate e c u None email True s) = Inl err"
    using gate_accepts_iff [of e c u None email True s] t by (cases "fst (verify_sensitive_op_gate e c u None email True s)") auto
  obtain u' s1 where g: "verify_sensitive_op_gate e c u None email False s = (Inr u', s1)"
    using gate_accepts_iff [of e c u None email False s] assms(3,4) by (cases "verify_sensitive_op_gate e c u None email False s") auto
  have w: "as_world s1 = as_world s" using gate_world [of e c u None email False s] by (simp add: g)
  have i: "u_id u' = u_id u" using gate_id [of e c u None email False s u'] by (simp add: g)
  obtain s2 where "verify_sensitive_op_gate e c u None email True s = (Inl err, s2)"
    using d by (cases "verify_sensitive_op_gate e c u None email True s") auto
  then show ?thesis
    using i by (simp add: me_2fa_disable_def me_2fa_setup_def g get_edited_user [OF assms(1) _ w] totp_armed_def)
qed

theorem setup_disarms_with_mail_alone_witness:
  "fst (me_2fa_setup (offline_env []) sample_clock ''evil'' eve None (Some ''000042'') mailed) = Inr ''evil'' \<and>
   map_option totp_armed (get_user_by_id (as_world (snd
     (me_2fa_setup (offline_env []) sample_clock ''evil'' eve None (Some ''000042'') mailed))) 7) = Some False"
proof -
  have u: "get_user_by_id (as_world mailed) (u_id eve) = Some eve" "totp_armed eve"
      "\<not> truthy (cooldown_left (offline_env []) sample_clock (''pwd:'' @ int_str (u_id eve)) mailed)"
      "fst (email_half (offline_env []) eve (field_text (Some ''000042'')) mailed)" "u_id eve = 7" by code_simp+
  show ?thesis using setup_disarms_with_mail_alone [OF u(1-4), of "''evil''"] unfolding u(5) by blast
qed

end
