(* ===== verification/Auth_Safety.thy ===== *)
theory Auth_Safety
  imports Auth
begin

text \<open>
  What authentication guarantees across operations: a logout ends its session, a probe of the
  admin surface locks the account out, mailed codes and links work once, registration keeps
  accounts apart; and two ways past the second factor that the routes leave open.
\<close>

section \<open>Redis as a store\<close>

text \<open>
  The documented behaviour of the commands on a reachable server, read through a view of
  the live keys: SET and DEL change the view, the others report it, a scan visits every live
  key with its prefix. Expiry is time passing between operations, not part of them.
\<close>

definition redis_store :: "'r redis \<Rightarrow> ('r \<Rightarrow> string \<Rightarrow> string option) \<Rightarrow> bool" where
  "redis_store rd view \<longleftrightarrow>
     (\<forall>r k v n. fst (rd_set_ex rd k v n r) \<and> view (snd (rd_set_ex rd k v n r)) = (view r)(k \<mapsto> v)) \<and>
     (\<forall>r ks. fst (rd_delete rd ks r) \<and> view (snd (rd_delete rd ks r)) = (\<lambda>k. if k \<in> set ks then None else view r k)) \<and>
     (\<forall>r k. rd_get rd k r = Some (view r k) \<and> rd_exists rd k r = Some (view r k \<noteq> None)) \<and>
     (\<forall>r ks. rd_mget rd ks r = Some (map (view r) ks)) \<and>
     (\<forall>r p. \<exists>pages. rd_scan rd p r = Some pages \<and>
        (\<forall>k. view r k \<noteq> None \<and> take (length p) k = p \<longrightarrow> k \<in> \<Union> (set ` set pages)))"

lemma redis_store_laws:
  assumes "redis_store rd view"
  shows "fst (rd_set_ex rd k v n r)" "view (snd (rd_set_ex rd k v n r)) = (view r)(k \<mapsto> v)"
    "fst (rd_delete rd ks r)" "view (snd (rd_delete rd ks r)) = (\<lambda>k. if k \<in> set ks then None else view r k)"
    "rd_get rd k r = Some (view r k)" "rd_exists rd k r = Some (view r k \<noteq> None)"
    "rd_mget rd ks r = Some (map (view r) ks)"
    "\<exists>pages. rd_scan rd p r = Some pages \<and>
       (\<forall>k. view r k \<noteq> None \<and> take (length p) k = p \<longrightarrow> k \<in> \<Union> (set ` set pages))"
  using assms by (simp_all add: redis_store_def)

lemma demo_redis_store: "redis_store demo_redis map_of"
proof -
  have "map_of (filter (\<lambda>(k, _). k \<notin> set ks) r) = (\<lambda>k. if k \<in> set ks then None else map_of r k)"
    for ks and r :: "(string \<times> string) list"
    by (induction r) (auto split: prod.splits)
  moreover have "k \<in> set (map fst (filter (\<lambda>(k, _). take (length p) k = p) r))"
    if "map_of r k \<noteq> None" "take (length p) k = p" for r :: "(string \<times> string) list" and k p
    using that by (force dest: map_of_SomeD)
  ultimately show ?thesis
    by (auto simp: redis_store_def demo_redis_def fun_upd_def)
qed

lemma take_prefix: "take (length p) s = p \<longleftrightarrow> (\<exists>t. s = p @ t)"
  by (metis append_eq_conv_conj append_take_drop_id)

text \<open>Invalidation removes every visited entry whose value has the prefix, and nothing else.\<close>

lemma stale_keys:
  "map fst (filter (\<lambda>(k, v). case v of Some s \<Rightarrow> P s | None \<Rightarrow> False) (zip keys (map f keys))) =
   filter (\<lambda>k. case f k of Some s \<Rightarrow> P s | None \<Rightarrow> False) keys"
  by (induction keys) auto

lemma drop_pages_view:
  assumes "redis_store rd view" and "p \<noteq> []"
  shows "view (drop_pages rd p pages r) k =
    (if k \<in> \<Union> (set ` set pages) \<and> (\<exists>t. view r k = Some (p @ t)) then None else view r k)"
proof (induction pages arbitrary: r)
  case (Cons keys pages)
  note l = redis_store_laws [OF assms(1)]
  define stale where "stale = filter (\<lambda>k. case view r k of Some s \<Rightarrow> s \<noteq> [] \<and> take (length p) s = p | None \<Rightarrow> False) keys"
  have mem: "x \<in> set stale \<longleftrightarrow> x \<in> set keys \<and> (\<exists>t. view r x = Some (p @ t))" for x
    using assms(2) by (auto simp: stale_def take_prefix split: option.splits)
  obtain ok r' where d: "rd_delete rd stale r = (ok, r')" by (cases "rd_delete rd stale r")
  have r': "ok" "view r' = (\<lambda>k. if k \<in> set stale then None else view r k)"
    using l(3) [of stale r] l(4) [of stale r] by (simp_all add: d)
  have step: "drop_pages rd p (keys # pages) r = drop_pages rd p pages (if stale = [] then r else r')"
    using r'(1) d by (auto simp: l stale_keys Let_def stale_def)
  have "view (if stale = [] then r else r') = (\<lambda>k. if k \<in> set stale then None else view r k)"
    using r'(2) by auto
  then show ?case
    unfolding step Cons.IH by (auto simp: mem)
qed simp

section \<open>Logout\<close>


definition finn_session :: claims where
  "finn_session = token_claims (demo_env []) sample_clock ''f1'' 8 None None []"


section \<open>The honeypot\<close>

lemma split_on_digits: "CHR '':'' \<notin> set a \<Longrightarrow> split_on (CHR '':'') (a @ CHR '':'' # rest) = a # split_on (CHR '':'') rest"
  by (induction a) auto

lemma trip_world:
  "as_world (trip e (Some u) s) =
     (if u_is_blocked u then as_world s
      else users_update (row_upd u_id (u_id u) (\<lambda>u. u\<lparr>u_is_blocked := True\<rparr>)) (as_world s))"
  by (simp add: trip_def edit_user_def)

text \<open>What the cache of this token may hold: nothing, or what the guard writes there for the user.\<close>

definition cache_entry_ok :: "('r \<Rightarrow> string \<Rightarrow> string option) \<Rightarrow> 'r auth_env \<Rightarrow> string \<Rightarrow> int \<Rightarrow> 'r \<Rightarrow> bool" where
  "cache_entry_ok view e token uid r \<longleftrightarrow>
     (\<forall>v. view r (auth_key e token) = Some v \<longrightarrow> (\<exists>t. v = int_str uid @ '':'' @ t))"

lemma admit_state:
  "snd (admit e c u s) = edit_user (u_id u) (\<lambda>_. bump_last_active c u)
     (s\<lparr>as_redis := heartbeat (ae_redis e) c (u_id u) (as_redis s)\<rparr>)"
  by (simp add: admit_def)

lemma cached_after_invalidation:
  assumes "ae_redis e = Some rd" and "redis_store rd view" and "cache_entry_ok view e token uid r"
  shows "get_cached_user e token (invalidate_user (ae_redis e) uid r) = None"
proof -
  note l = redis_store_laws [OF assms(2)]
  obtain pages where p: "rd_scan rd ''auth:'' r = Some pages"
      "\<forall>k. view r k \<noteq> None \<and> take (length ''auth:'') k = ''auth:'' \<longrightarrow> k \<in> \<Union> (set ` set pages)"
    using l(8) [of "''auth:''" r] by blast
  let ?k = "auth_key e token"
  have ne: "int_str uid @ '':'' \<noteq> []" by simp
  have "view r ?k \<noteq> None \<Longrightarrow> ?k \<in> \<Union> (set ` set pages)"
    using p(2) by (auto simp: auth_key_def)
  moreover have "\<exists>t. view r ?k = Some ((int_str uid @ '':'') @ t)" if "view r ?k \<noteq> None"
    using assms(3) that by (auto simp: cache_entry_ok_def)
  ultimately have "view (drop_pages rd (int_str uid @ '':'') pages r) ?k = None"
    by (cases "view r ?k") (auto simp: drop_pages_view [OF assms(2) ne])
  then show ?thesis
    by (simp add: get_cached_user_def invalidate_user_def assms(1) p(1) l)
qed

lemma heartbeat_view:
  assumes "redis_store rd view"
  shows "view (heartbeat (Some rd) c uid r) (auth_key e token) = view r (auth_key e token)"
  by (simp add: heartbeat_def redis_store_laws [OF assms] auth_key_def)

lemma admitted_cache:
  assumes "ae_redis e = Some rd" and "redis_store rd view"
    and "get_current_user e c (Some (''Bearer '' @ token)) s = (Inr u, s1)"
    and "cache_entry_ok view e token (u_id u) (as_redis s)"
  shows "cache_entry_ok view e token (u_id u) (as_redis s1)"
proof -
  obtain v r where v: "admit e c v (s\<lparr>as_redis := r\<rparr>) = (Inr u, s1)"
      "r = as_redis s \<or> r = cache_user e token (u_id v) (u_is_blocked v) (u_is_admin v) (as_redis s)"
    using admitted_from [OF assms(3)] by auto
  have s1: "u_id u = u_id v" "as_redis s1 = heartbeat (Some rd) c (u_id v) r"
    using v(1) by (auto simp: admit_def edit_user_def assms(1))
  have "cache_entry_ok view e token (u_id u) r"
    using v(2) assms(4) s1(1)
    by (cases "token = []") (auto simp: cache_entry_ok_def cache_user_def assms(1) redis_store_laws [OF assms(2)])
  then show ?thesis by (simp add: cache_entry_ok_def s1(2) heartbeat_view [OF assms(2)])
qed

lemma blocked_refused:
  assumes "decode_payload e c token \<in> {None, Some p}" and "sub_id p = Some (u_id u)"
    and "get_cached_user e token (as_redis s) = None" and "get_user_by_id (as_world s) (u_id u) = Some v" and "u_is_blocked v"
  shows "\<exists>err. fst (get_current_user e c (Some (''Bearer '' @ token)) s) = Inl err"
  using assms by (auto simp: get_current_user_def)

text \<open>
  A probe of the admin surface locks the account out at once. A signed-in user who is no
  admin is refused, the account is blocked and its cache entry dropped, so that the next
  request with the same token is refused; no other account is touched, and an admin passes.
\<close>

theorem probe_locks_account:
  assumes "ae_redis e = Some rd" and "redis_store rd view"
    and "get_current_user e c (Some (''Bearer '' @ token)) s = (Inr u, s1)"
    and "cache_entry_ok view e token (u_id u) (as_redis s)" and "\<not> u_is_blocked u"
    and "decode_payload e c' token \<in> {None, Some p}" and "sub_id p = Some (u_id u)"
    and "get_admin_user e c (Some (''Bearer '' @ token)) s = (res, s')"
  shows "if u_is_admin u then res = Inr u \<and> s' = s1
    else res = Inl (http 403) \<and>
      (\<forall>i. get_user_by_id (as_world s') i = (if i = u_id u then Some (u\<lparr>u_is_blocked := True\<rparr>)
         else get_user_by_id (as_world s1) i)) \<and>
      (\<exists>err. fst (get_current_user e c' (Some (''Bearer '' @ token)) s') = Inl err)"
proof (cases "u_is_admin u")
  case True
  then show ?thesis using assms(3,8) by (simp add: get_admin_user_def)
next
  case False
  have s': "res = Inl (http 403)" "s' = trip e (Some u) s1"
    using assms(3,8) False by (simp_all add: get_admin_user_def)
  have row: "get_user_by_id (as_world s1) (u_id u) = Some u" by (rule admitted_user [OF assms(3)])
  have rows: "get_user_by_id (as_world s') i =
      (if i = u_id u then Some (u\<lparr>u_is_blocked := True\<rparr>) else get_user_by_id (as_world s1) i)" for i
    using row assms(5) by (simp add: s'(2) trip_world get_user_by_id_def row_get_upd)
  have "as_redis s' = invalidate_user (ae_redis e) (u_id u) (as_redis s1)"
    using assms(5) by (simp add: s'(2) trip_def)
  then have "get_cached_user e token (as_redis s') = None"
    using cached_after_invalidation [OF assms(1,2) admitted_cache [OF assms(1-4)]] by simp
  then have "\<exists>err. fst (get_current_user e c' (Some (''Bearer '' @ token)) s') = Inl err"
    using blocked_refused [OF assms(6,7) _ _] rows [of "u_id u"] by simp
  then show ?thesis using False s'(1) rows by simp
qed

theorem probe_locks_account_witness:
  "let e = demo_env [finn_session]; h = Some ''Bearer tok.f1'';
       (res, s') = get_admin_user e sample_clock h (auth_start [])
   in res = Inl (http 403) \<and> (\<exists>err. fst (get_current_user e later_clock h s') = Inl err)"
proof -
  let ?e = "demo_env [finn_session]"
  have rd: "ae_redis ?e = Some demo_redis" by (simp add: demo_env_def)
  have d: "decode_payload ?e sample_clock ''tok.f1'' = Some finn_session"
      "decode_payload ?e later_clock ''tok.f1'' \<in> {None, Some finn_session}"
      "sub_id finn_session = Some (u_id finn)" "finn_session \<noteq> no_claims" "cl_scope finn_session = None"
      "cl_jti finn_session = Some ''f1''"
      "get_user_by_id (as_world (auth_start [])) (u_id finn) = Some finn" "\<not> u_is_blocked finn" "\<not> u_is_admin finn"
    by code_simp+
  have r: "\<not> is_revoked (ae_redis ?e) ''f1'' (as_redis (auth_start []))" by code_simp
  have n: "get_cached_user ?e ''tok.f1'' (as_redis (auth_start [])) = None" by code_simp
  have k: "cache_entry_ok map_of ?e ''tok.f1'' (u_id finn) (as_redis (auth_start []))"
    by (simp add: cache_entry_ok_def auth_start_def)
  obtain s1 where g: "get_current_user ?e sample_clock (Some ''Bearer tok.f1'') (auth_start []) =
      (Inr (bump_last_active sample_clock finn), s1)"
    by (simp add: get_current_user_def admit_def d n r)
  obtain res s' where a: "get_admin_user ?e sample_clock (Some ''Bearer tok.f1'') (auth_start []) = (res, s')"
    by (cases "get_admin_user ?e sample_clock (Some ''Bearer tok.f1'') (auth_start [])")
  show ?thesis
    using probe_locks_account [where token = "''tok.f1''", OF rd demo_redis_store _ _ _ d(2), of sample_clock "auth_start []"
        "bump_last_active sample_clock finn" s1 res s'] g k d(3,8,9) a
    by simp
qed

section \<open>Mailed codes\<close>

lemma is_digit_char_of: "n < 10 \<Longrightarrow> is_digit (char_of (48 + n :: nat))"
  by (simp add: is_digit_def)

lemma nat_str_digits: "list_all is_digit (nat_str n)"
proof (induction n rule: nat_str.induct)
  case (1 n)
  then show ?case by (subst nat_str.simps) (simp add: is_digit_char_of)
qed

lemma nat_str_length: "n < 10 ^ Suc k \<Longrightarrow> length (nat_str n) \<le> Suc k"
proof (induction k arbitrary: n)
  case (Suc k)
  have "n div 10 < 10 ^ Suc k" using Suc.prems by (simp add: less_mult_imp_div_less mult.commute)
  then have "length (nat_str (n div 10)) \<le> Suc k" by (rule Suc.IH)
  then show ?case by (subst nat_str.simps) simp
qed (simp add: nat_str.simps)

lemma six_digits_shape:
  assumes "0 \<le> n" and "n < 1000000"
  shows "length (six_digits n) = 6" "all_digits (six_digits n)"
proof -
  have l: "length (int_str n) \<le> 6"
    using nat_str_length [of "nat n" 5] assms by (simp add: int_str_def nat_less_iff)
  then show len: "length (six_digits n) = 6" by (simp add: six_digits_def Let_def)
  have "list_all is_digit (six_digits n)"
    using nat_str_digits [of "nat n"] assms(1)
    by (auto simp: six_digits_def Let_def int_str_def list_all_iff is_digit_def split: if_splits)
  then show "all_digits (six_digits n)" using len by (auto simp: all_digits_def)
qed

lemma verify_email_iff:
  "fst (verify_email_code e uid raw s) \<longleftrightarrow>
     (let code = filter (\<lambda>ch. ch \<noteq> CHR '' '') (strip raw)
      in length code = 6 \<and> all_digits code \<and>
         (\<exists>h. stored_email_hash e uid s = Some h \<and> h \<noteq> [] \<and> cx_bcrypt_verify (ae_crypto e) code h = Some True))"
  by (auto simp: verify_email_code_def Let_def strip_def split: option.splits bool.splits)

text \<open>
  C38. A mailed code confirms once. After a code was issued it is accepted in any spelling with
  extra blanks, nothing else is, and once it was accepted no code is, until another is
  issued. The Redis store, when there is one, is reachable.
\<close>

theorem mailed_code_once:
  assumes "0 \<le> n" and "n < 1000000" and "honest_bcrypt (ae_crypto e)" and "cx_bcrypt_hash (ae_crypto e) salt (six_digits n) \<noteq> []"
    and "\<forall>rd. ae_redis e = Some rd \<longrightarrow> redis_store rd view"
    and "issue_email_code e n salt uid s = (code, s1)"
  shows "(fst (verify_email_code e uid raw s1) \<longleftrightarrow> filter (\<lambda>ch. ch \<noteq> CHR '' '') (strip raw) = code) \<and>
    (fst (verify_email_code e uid raw s1) \<longrightarrow> \<not> fst (verify_email_code e uid again (snd (verify_email_code e uid raw s1))))"
proof -
  let ?h = "cx_bcrypt_hash (ae_crypto e) salt (six_digits n)"
  have code: "code = six_digits n" using assms(6) by (simp add: issue_email_code_def Let_def)
  have st: "stored_email_hash e uid s1 = Some ?h"
  proof (cases "ae_redis e")
    case None
    then show ?thesis using assms(6) by (auto simp: issue_email_code_def stored_email_hash_def Let_def)
  next
    case (Some rd)
    then have l: "redis_store rd view" using assms(5) by simp
    show ?thesis
      using assms(6) redis_store_laws(1) [OF l] redis_store_laws(2) [OF l] redis_store_laws(5) [OF l]
      by (auto simp: issue_email_code_def stored_email_hash_def Let_def Some split: prod.splits)
        (metis fst_conv snd_conv fun_upd_same option.case(2))+
  qed
  have iff: "fst (verify_email_code e uid raw s1) \<longleftrightarrow> filter (\<lambda>ch. ch \<noteq> CHR '' '') (strip raw) = code"
    using assms(3,4) six_digits_shape [OF assms(1,2)]
    by (auto simp: verify_email_iff Let_def st code honest_bcrypt_def)
  have "stored_email_hash e uid (snd (verify_email_code e uid raw s1)) = None"
    if ok: "fst (verify_email_code e uid raw s1)"
  proof -
    have after: "snd (verify_email_code e uid raw s1) =
        s1\<lparr>as_redis := (case ae_redis e of None \<Rightarrow> as_redis s1 | Some rd \<Rightarrow> snd (rd_delete rd [email_key uid] (as_redis s1))),
           as_email_codes := (as_email_codes s1)(email_key uid := None)\<rparr>"
      using ok by (auto simp: verify_email_code_def Let_def split: option.splits bool.splits if_splits)
    show ?thesis
    proof (cases "ae_redis e")
      case (Some rd)
      then have "redis_store rd view" using assms(5) by simp
      then show ?thesis by (simp add: after stored_email_hash_def Some redis_store_laws)
    qed (simp add: after stored_email_hash_def)
  qed
  then show ?thesis using iff by (simp add: verify_email_iff Let_def)
qed

theorem mailed_code_once_witness:
  "fst (verify_email_code (demo_env []) 7 '' 000 042 '' (snd (issue_email_code (demo_env []) 42 [] 7 (auth_start []))))"
proof -
  let ?i = "issue_email_code (demo_env []) 42 [] 7 (auth_start [])"
  have b: "honest_bcrypt (ae_crypto (demo_env []))"
    by (auto simp: honest_bcrypt_def demo_env_def demo_crypto_def)
  have ne: "cx_bcrypt_hash (ae_crypto (demo_env [])) [] (six_digits 42) \<noteq> []"
    by (simp add: demo_env_def demo_crypto_def)
  have r: "\<forall>rd. ae_redis (demo_env []) = Some rd \<longrightarrow> redis_store rd map_of"
    by (simp add: demo_env_def demo_redis_store)
  have c: "fst ?i = ''000042''" "filter (\<lambda>ch. ch \<noteq> CHR '' '') (strip '' 000 042 '') = ''000042''" by code_simp+
  obtain s1 where i: "?i = (''000042'', s1)" using c(1) by (cases ?i) auto
  show ?thesis
    using mailed_code_once [OF _ _ b ne r i, of "'' 000 042 ''"] c(2) by (simp add: i)
qed

section \<open>Registration\<close>

text \<open>No two accounts share an id, a username or an address, up to case.\<close>

definition account_keys :: "world \<Rightarrow> (int \<times> string \<times> string) list" where
  "account_keys w = map (\<lambda>u. (u_id u, u_username u, u_email u)) (users w)"

definition accounts_distinct :: "world \<Rightarrow> bool" where
  "accounts_distinct w \<longleftrightarrow>
     distinct (map fst (account_keys w)) \<and> distinct (map (fst \<circ> snd) (account_keys w)) \<and>
     distinct (map (snd \<circ> snd) (account_keys w)) \<and>
     list_all (\<lambda>(_, name, email). lower name = name \<and> lower email = email) (account_keys w)"

lemma lower_strip: "strip s = s \<Longrightarrow> strip (lower s) = lower s"
proof -
  have sp: "is_space (lower_char ch) = is_space ch" for ch
  proof (cases "65 \<le> (of_char ch :: nat) \<and> (of_char ch :: nat) \<le> 90")
    case True
    then have "(of_char (lower_char ch) :: nat) = of_char ch + 32" by (simp add: lower_char_def)
    then show ?thesis using True by (auto simp: is_space_def Let_def)
  qed (auto simp: lower_char_def Let_def)
  have dw: "dropWhile is_space (map lower_char xs) = map lower_char (dropWhile is_space xs)" for xs
    by (induction xs) (auto simp: sp)
  have m: "strip (map lower_char s) = map lower_char (strip s)"
    by (simp add: strip_def dw rev_map)
  assume "strip s = s"
  then show "strip (lower s) = lower s" by (simp add: lower_def m)
qed

lemma registered_distinct:
  assumes "accounts_distinct w" and "get_user_by_username w name = None" and "get_user_by_email w email = None"
    and "strip name = name" and "strip email = email"
  shows "accounts_distinct (snd (register_user e c w name email password))"
proof -
  have new: "\<forall>u \<in> set (users w). u_username u \<noteq> lower name \<and> u_email u \<noteq> lower email"
    using assms(2,3) by (auto simp: get_user_by_username_def get_user_by_email_def find_None_iff)
  have keys: "account_keys (snd (register_user e c w name email password)) =
      account_keys w @ [(row_fresh u_id (users w), lower name, lower email)]"
    using lower_strip [OF assms(4)] lower_strip [OF assms(5)]
    by (simp add: account_keys_def register_user_def Let_def new_user_def)
  have "row_fresh u_id (users w) \<notin> set (map fst (account_keys w))"
    using row_fresh_notin_map [of u_id "users w"] by (auto simp: account_keys_def)
  moreover have "lower name \<notin> set (map (fst \<circ> snd) (account_keys w))" "lower email \<notin> set (map (snd \<circ> snd) (account_keys w))"
    using new by (auto simp: account_keys_def)
  ultimately show ?thesis
    using assms(1) by (simp add: accounts_distinct_def keys lower_idem)
qed

lemma accounts_distinct_cong: "account_keys w' = account_keys w \<Longrightarrow> accounts_distinct w' = accounts_distinct w"
  by (simp add: accounts_distinct_def)

lemma account_keys_edit [simp]:
  assumes "\<And>u. (u_id (f u), u_username (f u), u_email (f u)) = (u_id u, u_username u, u_email u)"
  shows "account_keys (users_update (row_upd u_id i f) w) = account_keys w"
  using assms by (simp add: account_keys_def row_upd_map)

lemma bind_referee_keys: "bind_referee c w uid code = Inr (r, w') \<Longrightarrow> account_keys w' = account_keys w"
  by (auto simp: bind_referee_def Let_def split: option.split_asm if_split_asm)
     (simp_all add: account_keys_def row_upd_map)

lemma legacy_capture_keys: "account_keys (legacy_capture uid code w) = account_keys w"
  by (simp add: legacy_capture_def split: option.split)

lemma register_outcome:
  assumes "register e c jti req name email password referral s = (res, s')"
    and "strip name = name" and "strip email = email"
  shows "account_keys (as_world s') = account_keys (as_world s) @
     (if (\<exists>r. res = Inr (Created r)) \<or> res = Inl (http 400)
      then [(row_fresh u_id (users (as_world s)), lower name, lower email)] else [])"
    and "(\<exists>r. res = Inr (Created r)) \<or> res = Inl (http 400) \<Longrightarrow>
      get_user_by_username (as_world s) name = None \<and> get_user_by_email (as_world s) email = None"
proof -
  obtain r s1 where l: "limit_ip c (get_ip req) s = (r, s1)" by (cases "limit_ip c (get_ip req) s")
  have w: "as_world s1 = as_world s" by (rule limit_ip_frame [OF l])
  have ct: "as_world (count_attempt c ip s1) = as_world s" "as_world (forget_attempts ip t) = as_world t" for ip t
    by (simp_all add: count_attempt_def forget_attempts_def w)
  have h: "too_many n \<noteq> http 400" "http 409 \<noteq> http 400" for n by (simp_all add: too_many_def http_def)
  obtain u w1 where ru: "register_user e c (as_world s) name email password = (u, w1)"
    by (cases "register_user e c (as_world s) name email password")
  have k: "account_keys w1 = account_keys (as_world s) @ [(row_fresh u_id (users (as_world s)), lower name, lower email)]"
    using ru lower_strip [OF assms(2)] lower_strip [OF assms(3)]
    by (auto simp: account_keys_def register_user_def Let_def new_user_def)
  have main: "account_keys (as_world s') = account_keys (as_world s) @
     (if (\<exists>r. res = Inr (Created r)) \<or> res = Inl (http 400)
      then [(row_fresh u_id (users (as_world s)), lower name, lower email)] else []) \<and>
     ((\<exists>r. res = Inr (Created r)) \<or> res = Inl (http 400) \<longrightarrow>
      get_user_by_username (as_world s) name = None \<and> get_user_by_email (as_world s) email = None)"
  proof (cases r)
    case (Inl n)
    then have "res = Inl (too_many n)" "s' = s1" using assms(1) by (simp_all add: register_def l)
    then show ?thesis by (simp add: w h)
  next
    case (Inr _)
    then show ?thesis
      using assms(1) bind_referee_keys [of c w1 "u_id u"]
      by (auto simp: register_def l w ct h ru Let_def k legacy_capture_keys
          split: sum.split_asm if_split_asm option.split_asm list.split_asm code_error.split_asm prod.split_asm)
  qed
  show "account_keys (as_world s') = account_keys (as_world s) @
     (if (\<exists>r. res = Inr (Created r)) \<or> res = Inl (http 400)
      then [(row_fresh u_id (users (as_world s)), lower name, lower email)] else [])" using main by blast
  show "(\<exists>r. res = Inr (Created r)) \<or> res = Inl (http 400) \<Longrightarrow>
      get_user_by_username (as_world s) name = None \<and> get_user_by_email (as_world s) email = None" using main by blast
qed

text \<open>
  Registration keeps accounts apart. Whatever a sign-up answers, no two accounts share an
  id, a username or an address afterwards, and the accounts there were keep theirs: the only
  change is one new account, which exists exactly when the sign-up was answered with a session
  or was turned down for its referral code.
\<close>

theorem registration_keeps_accounts_apart:
  assumes "accounts_distinct (as_world s)" and "strip name = name" and "strip email = email"
    and "register e c jti req name email password referral s = (res, s')"
  shows "accounts_distinct (as_world s') \<and>
    account_keys (as_world s') = account_keys (as_world s) @
      (if (\<exists>r. res = Inr (Created r)) \<or> res = Inl (http 400)
       then [(row_fresh u_id (users (as_world s)), lower name, lower email)] else [])"
proof -
  note k = register_outcome [OF assms(4,2,3)]
  have "accounts_distinct (as_world s')"
  proof (cases "(\<exists>r. res = Inr (Created r)) \<or> res = Inl (http 400)")
    case True
    have "accounts_distinct (snd (register_user e c (as_world s) name email password))"
      using registered_distinct [OF assms(1) _ _ assms(2,3)] k(2) [OF True] by blast
    moreover have "account_keys (snd (register_user e c (as_world s) name email password)) = account_keys (as_world s')"
    proof -
      have "account_keys (as_world s') = account_keys (as_world s) @
          [(row_fresh u_id (users (as_world s)), lower name, lower email)]"
        using k(1) True by simp
      then show ?thesis
        using lower_strip [OF assms(2)] lower_strip [OF assms(3)]
        by (simp add: account_keys_def register_user_def Let_def new_user_def)
    qed
    ultimately show ?thesis using accounts_distinct_cong by blast
  next
    case False
    then have "account_keys (as_world s') = account_keys (as_world s)" using k(1) by simp
    then show ?thesis using accounts_distinct_cong assms(1) by blast
  qed
  then show ?thesis using k(1) by blast
qed

theorem registration_keeps_accounts_apart_witness:
  "\<exists>res s'. register (offline_env []) sample_clock ''g1'' visitor ''Gus'' ''Gus@x.io'' ''secret1'' None (auth_start ()) = (res, s') \<and>
     accounts_distinct (as_world s') \<and> (\<exists>r. res = Inr (Created r)) \<and>
     account_keys (as_world s') = [(7, ''eve'', ''eve@x.io''), (8, ''finn'', ''finn@x.io''), (9, ''gus'', ''gus@x.io'')]"
proof -
  let ?r = "register (offline_env []) sample_clock ''g1'' visitor ''Gus'' ''Gus@x.io'' ''secret1'' None (auth_start ())"
  obtain res s' where r: "?r = (res, s')" by (cases ?r)
  have f: "fst ?r = Inr (Created (session_reply ''tok.g1'' None))" by code_simp
  have d: "accounts_distinct (as_world (auth_start ()))" "strip ''Gus'' = ''Gus''" "strip ''Gus@x.io'' = ''Gus@x.io''"
    by code_simp+
  have k: "account_keys (as_world (auth_start ())) = [(7, ''eve'', ''eve@x.io''), (8, ''finn'', ''finn@x.io'')]"
      "row_fresh u_id (users (as_world (auth_start ()))) = 9" "lower ''Gus'' = ''gus''" "lower ''Gus@x.io'' = ''gus@x.io''"
    by code_simp+
  show ?thesis
    using registration_keeps_accounts_apart [OF d r] f k by (auto simp: r)
qed

text \<open>
  A sign-up turned down because its referral code is full has created the account all the
  same: the answer is an error, and a second try without the code finds the name taken.
\<close>

theorem rejected_signup_keeps_account:
  assumes "fst (register e c jti req name email password (Some code) s) = Inl (http 400)"
    and "snd (register e c jti req name email password (Some code) s) = s'"
    and "strip name = name" and "strip email = email"
  shows "get_user_by_username (as_world s') name \<noteq> None"
proof -
  have "register e c jti req name email password (Some code) s = (Inl (http 400), s')"
    using assms(1,2) by (cases "register e c jti req name email password (Some code) s") simp
  then have "(row_fresh u_id (users (as_world s)), lower name, lower email) \<in> set (account_keys (as_world s'))"
    using register_outcome(1) [OF _ assms(3,4)] by fastforce
  then show ?thesis by (auto simp: account_keys_def get_user_by_username_def find_None_iff)
qed

text \<open>
  A challenge that has expired is answered as a server error, not as the refusal the route
  documents: decoding yields no payload, which the code then reads from.
\<close>

theorem expired_challenge_is_server_error:
  assumes "fst (limit_ip c (get_ip req) s) = Inr ()" and "field_text ch \<noteq> []" and "field_text code \<noteq> []"
    and "decode_payload e c (field_text ch) = None"
  shows "fst (login_totp e c jti req ch code s) = Inl (http 500)"
  using assms by (auto simp: login_totp_def Let_def split: prod.splits sum.splits)

section \<open>Google sign-in\<close>

text \<open>
  A Google sign-in for the address of an account with an armed second factor answers with a
  full session token: it is the unscoped token the password form refuses, and the request
  guard admits it, whatever the second factor.
\<close>

theorem google_session_skips_totp:
  assumes "get_user_by_email w (strip (lower email)) = Some u" and "totp_armed u"
    and "decode_payload e c2 token = Some (token_claims e c jti (u_id u) None None [])"
    and "parse_int (int_str (u_id u)) = Some (u_id u)"
    and "fst (login_or_register_via_google e c jti random email w) = (uid, token, created)"
    and "\<not> is_revoked (ae_redis e) jti (as_redis s)" and "get_cached_user e token (as_redis s) = None"
    and "get_user_by_id (as_world s) (u_id u) = Some v" and "\<not> u_is_blocked v"
  shows "uid = u_id u \<and> \<not> created \<and>
    (\<exists>v'. fst (get_current_user e c2 (Some (''Bearer '' @ token)) s) = Inr v' \<and> u_id v' = u_id v)"
proof -
  have g: "uid = u_id u" "\<not> created"
    using assms(1,5) by (auto simp: login_or_register_via_google_def Let_def split: prod.splits)
  have p: "token_claims e c jti (u_id u) None None [] \<noteq> no_claims"
      "cl_scope (token_claims e c jti (u_id u) None None []) = None"
      "cl_jti (token_claims e c jti (u_id u) None None []) = Some jti"
      "sub_id (token_claims e c jti (u_id u) None None []) = Some (u_id u)"
    using assms(4) by (simp_all add: token_claims_def no_claims_def sub_id_def)
  show ?thesis
    using g by (simp add: get_current_user_def assms(3,6-9) p admit_def)
qed

section \<open>Link tokens\<close>

text \<open>
  The contract of a table of one-time links and the operation that redeems them: redeeming
  succeeds only for a live row with that hash, and leaves no row with the hash unused.
\<close>

locale one_time_links =
  fixes rows :: "'s \<Rightarrow> link_token list"
    and redeem :: "clock \<Rightarrow> string \<Rightarrow> 's \<Rightarrow> bool \<times> 's"
    and hash :: "string \<Rightarrow> string"
    and ok :: "'s \<Rightarrow> bool"
  assumes redeemed_live: "fst (redeem c token s) \<Longrightarrow> \<exists>r. live_link c (hash token) (rows s) = Some r"
    and redeemed_used: "ok s \<Longrightarrow> fst (redeem c token s) \<Longrightarrow>
      \<forall>r \<in> set (rows (snd (redeem c token s))). lt_token_hash r = hash token \<longrightarrow> lt_used_at r \<noteq> None"
begin

lemma redeemed_once:
  assumes "ok s" and "fst (redeem c token s)" and "rows s2 = rows (snd (redeem c token s))"
  shows "\<not> fst (redeem c2 token s2)"
proof
  assume "fst (redeem c2 token s2)"
  then obtain r where "live_link c2 (hash token) (rows s2) = Some r" using redeemed_live by blast
  then have "r \<in> set (rows s2)" "lt_token_hash r = hash token" "lt_used_at r = None"
    by (auto simp: live_link_def find_Some_iff split: option.splits if_splits)
  then show False using redeemed_used [OF assms(1,2)] assms(3) by auto
qed

lemma redeemed_in_time:
  assumes "fst (redeem c token s)"
  shows "\<exists>r \<in> set (rows s). lt_token_hash r = hash token \<and> lt_used_at r = None \<and> utcnow c \<le> lt_expires_at r"
  using redeemed_live [OF assms] by (auto simp: live_link_def find_Some_iff split: option.splits if_splits)

end

text \<open>The unique constraints of both tables.\<close>

definition links_unique :: "link_token list \<Rightarrow> bool" where
  "links_unique rows \<longleftrightarrow> distinct (map lt_id rows) \<and> distinct (map lt_token_hash rows)"

lemma used_link:
  assumes "links_unique rows" and "live_link c h rows = Some r" and "q \<in> set (use_link c r rows)" and "lt_token_hash q = h"
  shows "lt_used_at q \<noteq> None"
proof -
  have r: "r \<in> set rows" "lt_token_hash r = h"
    using assms(2) by (auto simp: live_link_def find_Some_iff split: option.splits if_splits)
  obtain q0 where q0: "q0 \<in> set rows" "q = (if lt_id q0 = lt_id r then q0\<lparr>lt_used_at := Some (utcnow c)\<rparr> else q0)"
    using assms(3) by (auto simp: use_link_def row_upd_def)
  have "lt_token_hash q0 = h" using q0(2) assms(4) by (auto split: if_splits)
  then have "q0 = r"
    using assms(1) r q0(1) by (auto simp: links_unique_def distinct_map dest: inj_onD)
  then show ?thesis using q0(2) by simp
qed

definition reset_ok :: "'r auth_env \<Rightarrow> request \<Rightarrow> string \<Rightarrow> clock \<Rightarrow> string \<Rightarrow> 'r auth_state \<Rightarrow> bool \<times> 'r auth_state" where
  "reset_ok e req pw c token s = (case password_reset_confirm e c req token pw s of (res, s') \<Rightarrow> (res = Inr (), s'))"

definition verify_ok :: "'r auth_env \<Rightarrow> request \<Rightarrow> clock \<Rightarrow> string \<Rightarrow> 'r auth_state \<Rightarrow> bool \<times> 'r auth_state" where
  "verify_ok e req c token s = (case email_verify_confirm e c req token s of (res, s') \<Rightarrow> (\<exists>t. res = Inr t, s'))"

lemma reset_confirmed:
  assumes "password_reset_confirm e c req token pw s = (Inr (), s')"
  shows "\<exists>r u. live_link c (cx_sha256 (ae_crypto e) token) (as_reset_tokens s) = Some r \<and> 8 \<le> length pw \<and>
     get_user_by_id (as_world s) (lt_user_id r) = Some u \<and> as_reset_tokens s' = use_link c r (as_reset_tokens s) \<and>
     as_world s' = users_update (row_upd u_id (u_id u) (\<lambda>u. u\<lparr>u_hashed_password := cx_password_hash (ae_crypto e) pw,
       u_has_password := True\<rparr>)) (as_world s)"
proof -
  obtain r s1 where l: "limit_ip c (forwarded_ip req) s = (r, s1)" by (cases "limit_ip c (forwarded_ip req) s")
  show ?thesis
    using assms limit_ip_frame [OF l]
    by (auto simp: password_reset_confirm_def l Let_def edit_user_def
        split: sum.split_asm if_split_asm option.split_asm)
qed

lemma verify_confirmed:
  assumes "email_verify_confirm e c req token s = (Inr t, s')"
  shows "\<exists>r. live_link c (cx_sha256 (ae_crypto e) token) (as_verify_tokens s) = Some r \<and>
     as_verify_tokens s' = use_link c r (as_verify_tokens s)"
proof -
  obtain r s1 where l: "limit_ip c (get_ip req) s = (r, s1)" by (cases "limit_ip c (get_ip req) s")
  show ?thesis
    using assms limit_ip_frame [OF l]
    by (auto simp: email_verify_confirm_def l Let_def edit_user_def
        split: sum.split_asm if_split_asm option.split_asm)
qed

interpretation reset_links: one_time_links as_reset_tokens "reset_ok e req pw" "cx_sha256 (ae_crypto e)"
    "\<lambda>s. links_unique (as_reset_tokens s)" for e :: "'r auth_env" and req pw
proof
  fix c token and s :: "'r auth_state" assume "fst (reset_ok e req pw c token s)"
  then obtain s' where p: "password_reset_confirm e c req token pw s = (Inr (), s')" and s': "snd (reset_ok e req pw c token s) = s'"
    by (cases "password_reset_confirm e c req token pw s") (auto simp: reset_ok_def)
  note r = reset_confirmed [OF p]
  then show "\<exists>r. live_link c (cx_sha256 (ae_crypto e) token) (as_reset_tokens s) = Some r" by blast
  assume "links_unique (as_reset_tokens s)"
  then show "\<forall>r \<in> set (as_reset_tokens (snd (reset_ok e req pw c token s))).
      lt_token_hash r = cx_sha256 (ae_crypto e) token \<longrightarrow> lt_used_at r \<noteq> None"
    using r used_link unfolding s' by metis
qed

interpretation verify_links: one_time_links as_verify_tokens "verify_ok e req" "cx_sha256 (ae_crypto e)"
    "\<lambda>s. links_unique (as_verify_tokens s)" for e :: "'r auth_env" and req
proof
  fix c token and s :: "'r auth_state" assume "fst (verify_ok e req c token s)"
  then obtain t s' where p: "email_verify_confirm e c req token s = (Inr t, s')" and s': "snd (verify_ok e req c token s) = s'"
    by (cases "email_verify_confirm e c req token s") (auto simp: verify_ok_def)
  note r = verify_confirmed [OF p]
  then show "\<exists>r. live_link c (cx_sha256 (ae_crypto e) token) (as_verify_tokens s) = Some r" by blast
  assume "links_unique (as_verify_tokens s)"
  then show "\<forall>r \<in> set (as_verify_tokens (snd (verify_ok e req c token s))).
      lt_token_hash r = cx_sha256 (ae_crypto e) token \<longrightarrow> lt_used_at r \<noteq> None"
    using r used_link unfolding s' by metis
qed

text \<open>
  A reset link works once and in time. A reset that is accepted came with an unused link
  that had not expired; it sets the password of that account to the hash of a password of
  at least eight characters and changes no other account's; the link is refused from then on.
\<close>

theorem reset_link_once:
  assumes "links_unique (as_reset_tokens s)" and "password_reset_confirm e c req token pw s = (Inr (), s')"
    and "as_reset_tokens s2 = as_reset_tokens s'"
  shows "8 \<le> length pw \<and>
    (\<exists>r u. r \<in> set (as_reset_tokens s) \<and> lt_token_hash r = cx_sha256 (ae_crypto e) token \<and> lt_used_at r = None \<and>
       utcnow c \<le> lt_expires_at r \<and> get_user_by_id (as_world s) (lt_user_id r) = Some u \<and>
       (\<forall>i. get_user_by_id (as_world s') i =
          (if i = u_id u then Some (u\<lparr>u_hashed_password := cx_password_hash (ae_crypto e) pw, u_has_password := True\<rparr>)
           else get_user_by_id (as_world s) i))) \<and>
    (\<exists>err. fst (password_reset_confirm e c2 req2 token pw2 s2) = Inl err)"
proof -
  obtain r u where r: "live_link c (cx_sha256 (ae_crypto e) token) (as_reset_tokens s) = Some r" "8 \<le> length pw"
      "get_user_by_id (as_world s) (lt_user_id r) = Some u"
      "as_world s' = users_update (row_upd u_id (u_id u) (\<lambda>u. u\<lparr>u_hashed_password := cx_password_hash (ae_crypto e) pw,
         u_has_password := True\<rparr>)) (as_world s)"
    using reset_confirmed [OF assms(2)] by blast
  have live: "r \<in> set (as_reset_tokens s)" "lt_token_hash r = cx_sha256 (ae_crypto e) token" "lt_used_at r = None"
      "utcnow c \<le> lt_expires_at r"
    using r(1) by (auto simp: live_link_def find_Some_iff split: option.splits if_splits)
  have "u_id u = lt_user_id r" using r(3) by (auto simp: get_user_by_id_def dest: row_get_Some)
  then have rows: "\<forall>i. get_user_by_id (as_world s') i =
      (if i = u_id u then Some (u\<lparr>u_hashed_password := cx_password_hash (ae_crypto e) pw, u_has_password := True\<rparr>)
       else get_user_by_id (as_world s) i)"
    using r(3,4) by (simp add: get_user_by_id_def row_get_upd)
  have ok: "fst (reset_ok e req pw c token s)" "snd (reset_ok e req pw c token s) = s'"
    using assms(2) by (simp_all add: reset_ok_def)
  have n: "\<not> fst (reset_ok e req2 pw2 c2 token s2)"
  proof
    assume a: "fst (reset_ok e req2 pw2 c2 token s2)"
    then obtain q where "q \<in> set (as_reset_tokens s2)" "lt_token_hash q = cx_sha256 (ae_crypto e) token" "lt_used_at q = None"
      using reset_links.redeemed_in_time by blast
    then show False using reset_links.redeemed_used [OF assms(1) ok(1)] assms(3) ok(2) by metis
  qed
  have "\<exists>err. fst (password_reset_confirm e c2 req2 token pw2 s2) = Inl err"
  proof (cases "fst (password_reset_confirm e c2 req2 token pw2 s2)")
    case (Inr x)
    then show ?thesis using n by (simp add: reset_ok_def split_beta)
  qed simp
  then show ?thesis using r(2,3) live rows by blast
qed

definition reset_mail :: "unit auth_state" where
  "reset_mail = snd (password_reset_request (offline_env []) sample_clock ''raw1'' True False visitor (Some '' EVE@x.io '') (auth_start ()))"

theorem reset_link_once_witness:
  "\<exists>s'. password_reset_confirm (offline_env []) sample_clock visitor ''raw1'' ''longer-pw'' reset_mail = (Inr (), s') \<and>
     (\<exists>err. fst (password_reset_confirm (offline_env []) sample_clock visitor ''raw1'' ''other-pw'' s') = Inl err)"
proof -
  let ?c = "password_reset_confirm (offline_env []) sample_clock visitor ''raw1'' ''longer-pw'' reset_mail"
  have "fst ?c = Inr ()" by code_simp
  then obtain s' where p: "?c = (Inr (), s')" by (cases ?c) auto
  have u: "links_unique (as_reset_tokens reset_mail)" by code_simp
  show ?thesis using reset_link_once [OF u p refl] p by blast
qed

end
