(* ===== verification/Spreads.thy ===== *)
theory Spreads
  imports Prelude
begin

text \<open>
  Order books and the spreads the trading panel acts on: the size-aware averages of
  \<^verbatim>\<open>backend/services/trigger_order_service.py\<close> and the executable-spread calculator of
  \<^verbatim>\<open>backend/services/slippage_service.py\<close>. Floats are rationals, so rounding errors of the
  machine are not part of the model.
\<close>

section \<open>Walking a book side\<close>

type_synonym levels = "(rat \<times> rat) list"

fun take_levels :: "levels \<Rightarrow> rat \<Rightarrow> rat \<Rightarrow> rat \<Rightarrow> rat \<times> rat" where
  "take_levels [] qty filled px_qty = (filled, px_qty)"
| "take_levels ((px, lvl_qty) # ls) qty filled px_qty =
     (if qty \<le> filled then (filled, px_qty)
      else let taken = min lvl_qty (qty - filled)
           in take_levels ls qty (filled + taken) (px_qty + px * taken))"

definition vwap_from_levels :: "levels \<Rightarrow> rat \<Rightarrow> rat option" where
  "vwap_from_levels ls qty =
     (if ls = [] \<or> qty \<le> 0 then None
      else let (filled, px_qty) = take_levels ls qty 0 0
           in if filled < qty * (999 / 1000) then None else Some (px_qty / filled))"

text \<open>
  The calculator of the slippage service fills an amount of money instead of a quantity;
  the second component is the money actually spent.
\<close>

fun walk_levels :: "levels \<Rightarrow> rat \<Rightarrow> rat \<Rightarrow> rat \<Rightarrow> rat \<times> rat" where
  "walk_levels [] size_usd spent tokens = (if tokens \<noteq> 0 then spent / tokens else 0, spent)"
| "walk_levels ((price, qty) # ls) size_usd spent tokens =
     (if size_usd \<le> spent + price * qty
      then let needed = size_usd - spent; tokens = tokens + needed / price; spent = spent + needed
           in (if tokens \<noteq> 0 then spent / tokens else price, spent)
      else walk_levels ls size_usd (spent + price * qty) (tokens + qty))"

definition walk :: "levels \<Rightarrow> rat \<Rightarrow> rat \<times> rat" where
  "walk ls size_usd = walk_levels ls size_usd 0 0"

section \<open>The merged book cache\<close>

record book =
  ob_bids :: "levels option"
  ob_asks :: "levels option"
  ob_ts :: "rat option"
  ob_timestamp :: "rat option"

text \<open>A value of the cache file: a book, a venue's books by symbol, or anything else.\<close>

datatype cache_value = Book book | Venue "string \<Rightarrow> book option" | Junk

type_synonym books = "string \<Rightarrow> cache_value option"

definition books_stale_max_s :: rat where
  "books_stale_max_s = 5"

definition book_entry :: "books \<Rightarrow> string \<Rightarrow> string \<Rightarrow> book option" where
  "book_entry books ex symbol =
     (case books (ex @ '':'' @ upper symbol) of
        Some (Book b) \<Rightarrow> Some b
      | Some _ \<Rightarrow> None
      | None \<Rightarrow>
          (case books ex of
             Some (Venue per_ex) \<Rightarrow> (case per_ex (upper symbol) of Some b \<Rightarrow> Some b | None \<Rightarrow> per_ex symbol)
           | _ \<Rightarrow> None))"

text \<open>\<open>now\<close> is \<open>time.time()\<close>; timestamps above a trillion are milliseconds.\<close>

definition read_book_for_leg :: "rat \<Rightarrow> books \<Rightarrow> string \<Rightarrow> string \<Rightarrow> book option" where
  "read_book_for_leg now books exchange symbol =
     (if exchange = [] \<or> symbol = [] then None
      else case book_entry books (lower exchange) symbol of
        None \<Rightarrow> None
      | Some b \<Rightarrow>
          (case (if truthy (ob_ts b) then ob_ts b else ob_timestamp b) of
             None \<Rightarrow> None
           | Some ts \<Rightarrow>
               let ts_s = (if 1000000000000 < ts then ts / 1000 else ts)
               in if books_stale_max_s < now - ts_s then None else Some b))"

definition side :: "levels option \<Rightarrow> levels" where
  "side ls = (case ls of Some xs \<Rightarrow> xs | None \<Rightarrow> [])"

text \<open>A missing, zero or negative price of the dividing leg yields no spread.\<close>

definition spread_pct :: "rat option \<Rightarrow> rat option \<Rightarrow> rat option" where
  "spread_pct sell buy =
     (case (sell, buy) of
        (Some s, Some b) \<Rightarrow> if s = 0 \<or> b = 0 \<or> b \<le> 0 then None else Some ((s - b) / b * 100)
      | _ \<Rightarrow> None)"

record pair =
  pr_long_exchange :: string
  pr_long_symbol :: string
  pr_short_exchange :: string
  pr_short_symbol :: string

definition compute_effective_spread :: "rat \<Rightarrow> books \<Rightarrow> pair \<Rightarrow> rat \<Rightarrow> rat option" where
  "compute_effective_spread now books p qty =
     (case (read_book_for_leg now books (pr_long_exchange p) (pr_long_symbol p),
            read_book_for_leg now books (pr_short_exchange p) (pr_short_symbol p)) of
        (Some lb, Some sb) \<Rightarrow>
          spread_pct (vwap_from_levels (side (ob_bids sb)) qty) (vwap_from_levels (side (ob_asks lb)) qty)
      | _ \<Rightarrow> None)"

definition compute_exit_spread :: "rat \<Rightarrow> books \<Rightarrow> pair \<Rightarrow> rat \<Rightarrow> rat option" where
  "compute_exit_spread now books p qty =
     (case (read_book_for_leg now books (pr_long_exchange p) (pr_long_symbol p),
            read_book_for_leg now books (pr_short_exchange p) (pr_short_symbol p)) of
        (Some lb, Some sb) \<Rightarrow>
          spread_pct (vwap_from_levels (side (ob_bids lb)) qty) (vwap_from_levels (side (ob_asks sb)) qty)
      | _ \<Rightarrow> None)"

section \<open>What a fill costs\<close>

text \<open>
  The reference: quantity and cost of the best \<open>r\<close> units of a book side, by recursion on
  the levels.
\<close>

fun filled_of :: "levels \<Rightarrow> rat \<Rightarrow> rat" where
  "filled_of [] r = 0"
| "filled_of ((px, l) # ls) r = (if r \<le> 0 then 0 else min l r + filled_of ls (r - min l r))"

fun cost_of :: "levels \<Rightarrow> rat \<Rightarrow> rat" where
  "cost_of [] r = 0"
| "cost_of ((px, l) # ls) r = (if r \<le> 0 then 0 else px * min l r + cost_of ls (r - min l r))"

definition levels_ok :: "levels \<Rightarrow> bool" where
  "levels_ok ls \<longleftrightarrow> (\<forall>(px, l) \<in> set ls. 0 \<le> l)"

lemma take_levels_eq:
  "take_levels ls qty f p = (f + filled_of ls (qty - f), p + cost_of ls (qty - f))"
proof (induction ls arbitrary: f p)
  case (Cons lv ls)
  obtain px l where lv: "lv = (px, l)" by (cases lv)
  have "qty - (f + min l (qty - f)) = qty - f - min l (qty - f)" by simp
  then show ?case using Cons.IH by (simp add: lv Let_def algebra_simps)
qed simp

lemma filled_nonpos [simp]: "r \<le> 0 \<Longrightarrow> filled_of ls r = 0"
  and cost_nonpos [simp]: "r \<le> 0 \<Longrightarrow> cost_of ls r = 0"
  by (cases ls; auto)+

lemma levels_ok_Cons [simp]: "levels_ok ((px, l) # ls) \<longleftrightarrow> 0 \<le> l \<and> levels_ok ls"
  by (auto simp: levels_ok_def)

lemma filled_le: "levels_ok ls \<Longrightarrow> 0 \<le> r \<Longrightarrow> 0 \<le> filled_of ls r \<and> filled_of ls r \<le> r"
proof (induction ls arbitrary: r)
  case (Cons lv ls)
  obtain px l where lv: "lv = (px, l)" by (cases lv)
  have "0 \<le> filled_of ls (r - min l r) \<and> filled_of ls (r - min l r) \<le> r - min l r"
    using Cons.IH [of "r - min l r"] Cons.prems by (simp add: lv min_def)
  then show ?case using Cons.prems by (auto simp: lv min_def split: if_splits)
qed simp

text \<open>Cost per unit lies between any bounds of the prices.\<close>

lemma cost_step:
  assumes "levels_ok ls" and "\<forall>(px, l) \<in> set ls. lo \<le> px" and "r \<le> q"
  shows "lo * (filled_of ls q - filled_of ls r) \<le> cost_of ls q - cost_of ls r \<and> filled_of ls r \<le> filled_of ls q"
  using assms
proof (induction ls arbitrary: r q)
  case (Cons lv ls)
  obtain px l where lv: "lv = (px, l)" by (cases lv)
  have ok: "0 \<le> l" "levels_ok ls" "lo \<le> px" "\<forall>(px, l) \<in> set ls. lo \<le> px"
    using Cons.prems(1,2) by (auto simp: lv)
  define a where "a = (if r \<le> 0 then 0 else min l r)"
  define b where "b = (if q \<le> 0 then 0 else min l q)"
  have ab: "a \<le> b" "0 \<le> a" using Cons.prems(3) ok(1) by (auto simp: a_def b_def)
  have rq: "(if r \<le> 0 then 0 else r - a) \<le> (if q \<le> 0 then 0 else q - b)"
    using Cons.prems(3) by (auto simp: a_def b_def min_def)
  have "filled_of (lv # ls) r = a + filled_of ls (if r \<le> 0 then 0 else r - a)"
      "filled_of (lv # ls) q = b + filled_of ls (if q \<le> 0 then 0 else q - b)"
      "cost_of (lv # ls) r = px * a + cost_of ls (if r \<le> 0 then 0 else r - a)"
      "cost_of (lv # ls) q = px * b + cost_of ls (if q \<le> 0 then 0 else q - b)"
    by (auto simp: lv a_def b_def)
  moreover note Cons.IH [OF ok(2,4) rq]
  moreover have "lo * (b - a) \<le> px * (b - a)" using ab ok(3) by (intro mult_right_mono) auto
  ultimately show ?case using ab by (simp add: algebra_simps)
qed simp

lemma cost_lower: "levels_ok ls \<Longrightarrow> \<forall>(px, l) \<in> set ls. lo \<le> px \<Longrightarrow> lo * filled_of ls r \<le> cost_of ls r"
  using cost_step [of ls lo 0 r] cost_step [of ls lo r 0] by (cases "r \<le> 0") auto

lemma cost_upper: "levels_ok ls \<Longrightarrow> \<forall>(px, l) \<in> set ls. px \<le> hi \<Longrightarrow> cost_of ls r \<le> hi * filled_of ls r"
proof (induction ls arbitrary: r)
  case (Cons lv ls)
  obtain px l where lv: "lv = (px, l)" by (cases lv)
  show ?case
  proof (cases "r \<le> 0")
    case False
    then have "px * min l r \<le> hi * min l r"
      using Cons.prems by (auto simp: lv intro!: mult_right_mono)
    moreover have "cost_of ls (r - min l r) \<le> hi * filled_of ls (r - min l r)"
      using Cons.IH Cons.prems by (auto simp: lv)
    ultimately show ?thesis using False by (simp add: lv distrib_left)
  qed simp
qed simp

text \<open>The unit cost of more is worse: for a side sorted by price the average moves with the size.\<close>

lemma cost_per_unit_mono:
  assumes "levels_ok ls" and "sorted (map fst ls)" and "r \<le> q"
  shows "cost_of ls r * filled_of ls q \<le> cost_of ls q * filled_of ls r"
  using assms
proof (induction ls arbitrary: r q)
  case (Cons lv ls)
  obtain px l where lv: "lv = (px, l)" by (cases lv)
  have ok: "0 \<le> l" "levels_ok ls" and s: "sorted (map fst ls)" "\<forall>x \<in> set ls. px \<le> fst x"
    using Cons.prems(1,2) by (auto simp: lv)
  show ?case
  proof (cases "r \<le> 0")
    case False
    define r' where "r' = r - min l r"
    define q' where "q' = q - min l q"
    define a where "a = min l r"
    define b where "b = min l q"
    have eq: "filled_of (lv # ls) r = a + filled_of ls r'" "cost_of (lv # ls) r = px * a + cost_of ls r'"
        "filled_of (lv # ls) q = b + filled_of ls q'" "cost_of (lv # ls) q = px * b + cost_of ls q'"
      using False Cons.prems(3) by (simp_all add: lv r'_def q'_def a_def b_def)
    have "r' \<le> q'" using Cons.prems(3) by (auto simp: r'_def q'_def min_def)
    then have IH: "cost_of ls r' * filled_of ls q' \<le> cost_of ls q' * filled_of ls r'"
      by (rule Cons.IH [OF ok(2) s(1)])
    have s': "\<forall>(p, l) \<in> set ls. px \<le> p" using s(2) by auto
    have lo: "px * filled_of ls x \<le> cost_of ls x" for x by (rule cost_lower [OF ok(2) s'])
    show ?thesis
    proof (cases "l \<le> r")
      case True
      then have ab: "a = l" "b = l" using Cons.prems(3) by (simp_all add: a_def b_def)
      have mono: "cost_of ls r' - px * filled_of ls r' \<le> cost_of ls q' - px * filled_of ls q'"
        using cost_step [OF ok(2) s' \<open>r' \<le> q'\<close>] by (simp add: algebra_simps)
      have "l * (cost_of ls r' - px * filled_of ls r') \<le> l * (cost_of ls q' - px * filled_of ls q')"
        using mono ok(1) by (rule mult_left_mono)
      then show ?thesis using IH by (simp add: eq ab algebra_simps)
    next
      case le: False
      then have "r' = 0" "a = r" by (simp_all add: r'_def a_def)
      then show ?thesis
        using mult_right_mono [OF lo [of q'], of r] False by (simp add: eq algebra_simps)
    qed
  qed simp
qed simp

text \<open>Selling walks the bids, which fall: the mirror image.\<close>

definition mirror :: "levels \<Rightarrow> levels" where
  "mirror ls = map (\<lambda>(px, l). (- px, l)) ls"

lemma filled_mirror [simp]: "filled_of (mirror ls) r = filled_of ls r"
  by (induction ls arbitrary: r) (auto simp: mirror_def)

lemma cost_mirror [simp]: "cost_of (mirror ls) r = - cost_of ls r"
  by (induction ls arbitrary: r) (auto simp: mirror_def)

lemma levels_ok_mirror [simp]: "levels_ok (mirror ls) = levels_ok ls"
  by (induction ls) (auto simp: mirror_def levels_ok_def)

definition ascending :: "levels \<Rightarrow> bool" where "ascending ls \<longleftrightarrow> sorted (map fst ls)"
definition descending :: "levels \<Rightarrow> bool" where "descending ls \<longleftrightarrow> sorted_wrt (\<ge>) (map fst ls)"

lemma ascending_mirror: "descending ls \<Longrightarrow> sorted (map fst (mirror ls))"
  by (induction ls) (auto simp: descending_def mirror_def)

lemma cost_per_unit_antimono:
  assumes "levels_ok ls" and "descending ls" and "r \<le> q"
  shows "cost_of ls q * filled_of ls r \<le> cost_of ls r * filled_of ls q"
  using cost_per_unit_mono [of "mirror ls" r q] assms by (simp add: ascending_mirror)

lemma vwap_eq:
  "vwap_from_levels ls qty =
     (if ls = [] \<or> qty \<le> 0 \<or> filled_of ls qty < qty * (999 / 1000) then None
      else Some (cost_of ls qty / filled_of ls qty))"
  by (simp add: vwap_from_levels_def take_levels_eq)

lemma filled_min:
  assumes "levels_ok ls" and "0 \<le> r" and "r \<le> q"
  shows "min r (filled_of ls q) \<le> filled_of ls r"
  using assms
proof (induction ls arbitrary: r q)
  case (Cons lv ls)
  obtain px l where lv: "lv = (px, l)" by (cases lv)
  show ?case
  proof (cases "r \<le> 0")
    case False
    have l: "0 \<le> l" "levels_ok ls" using Cons.prems(1) by (auto simp: lv)
    have "min (r - min l r) (filled_of ls (q - min l q)) \<le> filled_of ls (r - min l r)"
      by (rule Cons.IH) (use Cons.prems(3) l in \<open>auto simp: min_def\<close>)
    then show ?thesis using False Cons.prems(3) l(1) by (auto simp: lv min_def split: if_splits)
  qed (use Cons.prems in simp)
qed simp

text \<open>Depth for more is depth for less.\<close>

lemma vwap_depth:
  assumes "levels_ok ls" and "0 < r" and "r \<le> q" and "vwap_from_levels ls q = Some v"
  shows "0 < filled_of ls q \<and> 0 < filled_of ls r \<and> vwap_from_levels ls r = Some (cost_of ls r / filled_of ls r)"
proof -
  have q: "ls \<noteq> []" "q * (999 / 1000) \<le> filled_of ls q"
    using assms(2-4) by (auto simp: vwap_eq split: if_splits)
  have "min r (filled_of ls q) \<le> filled_of ls r" by (rule filled_min) (use assms in auto)
  then have "r * (999 / 1000) \<le> filled_of ls r" using q(2) assms(2,3) by (auto simp: min_def split: if_splits)
  then show ?thesis using q assms(2,3) by (auto simp: vwap_eq)
qed

lemma asks_worsen:
  assumes "levels_ok ls" and "ascending ls" and "0 < r" and "r \<le> q" and "vwap_from_levels ls q = Some v"
  shows "\<exists>u. vwap_from_levels ls r = Some u \<and> u \<le> v"
proof -
  note d = vwap_depth [OF assms(1,3,4,5)]
  have v: "v = cost_of ls q / filled_of ls q" using assms(5) by (auto simp: vwap_eq split: if_splits)
  have "cost_of ls r * filled_of ls q \<le> cost_of ls q * filled_of ls r"
    using cost_per_unit_mono [OF assms(1) _ assms(4)] assms(2) by (simp add: ascending_def)
  then have "cost_of ls r / filled_of ls r \<le> v" using d by (simp add: v field_simps)
  then show ?thesis using d by blast
qed

lemma bids_worsen:
  assumes "levels_ok ls" and "descending ls" and "0 < r" and "r \<le> q" and "vwap_from_levels ls q = Some v"
  shows "\<exists>u. vwap_from_levels ls r = Some u \<and> v \<le> u"
proof -
  note d = vwap_depth [OF assms(1,3,4,5)]
  have v: "v = cost_of ls q / filled_of ls q" using assms(5) by (auto simp: vwap_eq split: if_splits)
  have "cost_of ls q * filled_of ls r \<le> cost_of ls r * filled_of ls q"
    by (rule cost_per_unit_antimono [OF assms(1,2,4)])
  then have "v \<le> cost_of ls r / filled_of ls r" using d by (simp add: v field_simps)
  then show ?thesis using d by blast
qed

lemma vwap_between:
  assumes "levels_ok ls" and "\<forall>(px, l) \<in> set ls. lo \<le> px \<and> px \<le> hi" and "vwap_from_levels ls q = Some v"
  shows "lo \<le> v \<and> v \<le> hi"
proof -
  have q: "0 < q" using assms(3) by (auto simp: vwap_eq split: if_splits)
  have f: "0 < filled_of ls q" using vwap_depth [OF assms(1) q order_refl assms(3)] by blast
  have "lo * filled_of ls q \<le> cost_of ls q" "cost_of ls q \<le> hi * filled_of ls q"
    using cost_lower [OF assms(1), of lo q] cost_upper [OF assms(1), of hi q] assms(2) by fastforce+
  moreover have v: "v = cost_of ls q / filled_of ls q" using assms(3) by (auto simp: vwap_eq split: if_splits)
  ultimately show ?thesis using f by (simp add: v pos_le_divide_eq pos_divide_le_eq)
qed

lemma spread_pct_Some:
  "spread_pct sell buy = Some x \<longleftrightarrow> (\<exists>s b. sell = Some s \<and> buy = Some b \<and> s \<noteq> 0 \<and> 0 < b \<and> x = (s - b) / b * 100)"
  by (auto simp: spread_pct_def split: option.splits)

lemma spread_worse:
  assumes "spread_pct (Some s2) (Some b2) = Some x2" and "s2 \<le> s1" and "b1 \<le> b2" and "0 < b1" and "0 \<le> s2"
  shows "\<exists>x1. spread_pct (Some s1) (Some b1) = Some x1 \<and> x2 \<le> x1"
proof -
  have b: "0 < b2" "s2 \<noteq> 0" "x2 = (s2 - b2) / b2 * 100" using assms(1) by (auto simp: spread_pct_Some)
  have "s2 * b1 \<le> s1 * b2"
    by (rule mult_mono) (use assms b in auto)
  then have "(s2 - b2) / b2 \<le> (s1 - b1) / b1"
    using assms(4) b(1) by (simp add: field_simps)
  then have "x2 \<le> (s1 - b1) / b1 * 100" unfolding b(3) by (intro mult_right_mono) auto
  moreover have "s1 \<noteq> 0" using assms(2,5) b(2) by linarith
  ultimately show ?thesis using assms(4) by (auto simp: spread_pct_def)
qed

section \<open>Properties\<close>

text \<open>A book as a venue sends it: positive prices, no negative sizes, best price first.\<close>

definition good_book :: "book \<Rightarrow> bool" where
  "good_book b \<longleftrightarrow> levels_ok (side (ob_asks b)) \<and> ascending (side (ob_asks b)) \<and>
     levels_ok (side (ob_bids b)) \<and> descending (side (ob_bids b)) \<and>
     list_all (\<lambda>(px, _). 0 < px) (side (ob_asks b)) \<and> list_all (\<lambda>(px, _). 0 < px) (side (ob_bids b))"

lemma positive_average:
  assumes "levels_ok ls" and "list_all (\<lambda>(px, _). 0 < px) ls" and "vwap_from_levels ls q = Some v"
  shows "0 < v"
proof -
  have ne: "ls \<noteq> []" using assms(3) by (auto simp: vwap_eq split: if_splits)
  define lo where "lo = Min (set (map fst ls))"
  define hi where "hi = Max (set (map fst ls))"
  have "lo \<in> set (map fst ls)" unfolding lo_def using ne by (intro Min_in) auto
  then have "0 < lo" using assms(2) by (auto simp: list_all_iff)
  have "\<forall>(px, l) \<in> set ls. lo \<le> px \<and> px \<le> hi"
    unfolding lo_def hi_def using ne by (force intro!: Min_le Max_ge)
  from vwap_between [OF assms(1) this assms(3)] \<open>0 < lo\<close> show ?thesis by linarith
qed

text \<open>
  Size only hurts. Where both books are in order and deep enough for some size, they are
  for every smaller size, and the spread of the smaller size, to enter as well as to leave,
  is at least that of the larger one.
\<close>

theorem spread_worsens_with_size:
  assumes "read_book_for_leg now books (pr_long_exchange p) (pr_long_symbol p) = Some lb" and "good_book lb"
    and "read_book_for_leg now books (pr_short_exchange p) (pr_short_symbol p) = Some sb" and "good_book sb"
    and "0 < r" and "r \<le> q"
  shows "(\<forall>x. compute_effective_spread now books p q = Some x \<longrightarrow>
            (\<exists>y. compute_effective_spread now books p r = Some y \<and> x \<le> y)) \<and>
         (\<forall>x. compute_exit_spread now books p q = Some x \<longrightarrow>
            (\<exists>y. compute_exit_spread now books p r = Some y \<and> x \<le> y))"
proof -
  have main: "\<exists>y. spread_pct (vwap_from_levels (side (ob_bids sell)) r) (vwap_from_levels (side (ob_asks buy)) r) = Some y \<and> x \<le> y"
    if g: "good_book sell" "good_book buy"
      and x: "spread_pct (vwap_from_levels (side (ob_bids sell)) q) (vwap_from_levels (side (ob_asks buy)) q) = Some x"
    for sell buy x
  proof -
    obtain s2 b2 where v2: "vwap_from_levels (side (ob_bids sell)) q = Some s2" "vwap_from_levels (side (ob_asks buy)) q = Some b2"
      using x by (auto simp: spread_pct_Some)
    obtain s1 where s1: "vwap_from_levels (side (ob_bids sell)) r = Some s1" "s2 \<le> s1"
      using bids_worsen [OF _ _ assms(5,6) v2(1)] g(1) by (auto simp: good_book_def)
    obtain b1 where b1: "vwap_from_levels (side (ob_asks buy)) r = Some b1" "b1 \<le> b2"
      using asks_worsen [OF _ _ assms(5,6) v2(2)] g(2) by (auto simp: good_book_def)
    have "0 < b1" "0 < s2"
      using positive_average [OF _ _ b1(1)] positive_average [OF _ _ v2(1)] g by (auto simp: good_book_def)
    then show ?thesis using spread_worse [of s2 b2 x s1 b1] x s1 b1 v2 by simp
  qed
  show ?thesis
    using main assms(2,4) by (auto simp: compute_effective_spread_def compute_exit_spread_def assms(1,3))
qed

definition sample_book :: "rat \<Rightarrow> book" where
  "sample_book mid = \<lparr>ob_bids = Some [(mid - 1, 5), (mid - 2, 5)], ob_asks = Some [(mid + 1, 5), (mid + 2, 5)],
     ob_ts = Some 100, ob_timestamp = None\<rparr>"

definition sample_books :: books where
  "sample_books key = map_of [(''okx:BTC'', Book (sample_book 100)), (''gate:BTC'', Book (sample_book 110))] key"

definition sample_pair :: pair where
  "sample_pair = \<lparr>pr_long_exchange = ''OKX'', pr_long_symbol = ''btc'', pr_short_exchange = ''gate'', pr_short_symbol = ''BTC''\<rparr>"

theorem spread_worsens_with_size_witness:
  "\<exists>x y. compute_effective_spread 103 sample_books sample_pair 10 = Some x \<and>
     compute_effective_spread 103 sample_books sample_pair 4 = Some y \<and> x \<le> y"
proof -
  have b: "read_book_for_leg 103 sample_books (pr_long_exchange sample_pair) (pr_long_symbol sample_pair) = Some (sample_book 100)"
      "read_book_for_leg 103 sample_books (pr_short_exchange sample_pair) (pr_short_symbol sample_pair) = Some (sample_book 110)"
    by code_simp+
  have g: "good_book (sample_book 100)" "good_book (sample_book 110)"
    by (auto simp: good_book_def sample_book_def side_def levels_ok_def ascending_def descending_def)
  have "compute_effective_spread 103 sample_books sample_pair 10 \<noteq> None" by code_simp
  then show ?thesis
    using spread_worsens_with_size [OF b(1) g(1) b(2) g(2), of 4 10] by auto
qed

text \<open>
  Two walkers, one price. What the slippage calculator pays for an amount of money that the
  book can absorb is the average the trigger service computes for the quantity it buys.
\<close>

lemma walk_levels_eq:
  assumes "levels_ok ls" and "list_all (\<lambda>(px, _). 0 < px) ls" and "spent < usd"
    and "usd - spent \<le> sum_list (map (\<lambda>(px, l). px * l) ls)" and "0 \<le> tokens"
  shows "\<exists>q. 0 < q \<and> filled_of ls q = q \<and> cost_of ls q = usd - spent \<and>
    walk_levels ls usd spent tokens = (usd / (tokens + q), usd)"
  using assms
proof (induction ls arbitrary: spent tokens)
  case (Cons lv ls)
  obtain px l where lv: "lv = (px, l)" by (cases lv)
  have px: "0 < px" "0 \<le> l" "levels_ok ls" "list_all (\<lambda>(px, _). 0 < px) ls"
    using Cons.prems(1,2) by (auto simp: lv)
  show ?case
  proof (cases "usd \<le> spent + px * l")
    case True
    define q where "q = (usd - spent) / px"
    have q: "0 < q" "q \<le> l" "px * q = usd - spent"
      using True px(1) Cons.prems(3) by (auto simp: q_def field_simps)
    then have "filled_of (lv # ls) q = q" "cost_of (lv # ls) q = usd - spent" by (simp_all add: lv)
    moreover have "walk_levels (lv # ls) usd spent tokens = (usd / (tokens + q), usd)"
      using True q(1) Cons.prems(5) by (simp add: lv Let_def q_def)
    ultimately show ?thesis using q(1) by blast
  next
    case False
    obtain q where q: "0 < q" "filled_of ls q = q" "cost_of ls q = usd - (spent + px * l)"
        "walk_levels ls usd (spent + px * l) (tokens + l) = (usd / (tokens + l + q), usd)"
      using Cons.IH [OF px(3,4), of "spent + px * l" "tokens + l"] False Cons.prems(4,5) px(2) by (auto simp: lv)
    have "filled_of (lv # ls) (l + q) = l + q" "cost_of (lv # ls) (l + q) = usd - spent"
      using q px(2) by (auto simp: lv)
    moreover have "walk_levels (lv # ls) usd spent tokens = (usd / (tokens + (l + q)), usd)"
      using False q(4) by (simp add: lv add.assoc)
    ultimately show ?thesis using q(1) px(2) by (intro exI [of _ "l + q"]) auto
  qed
qed simp

theorem walkers_agree:
  assumes "levels_ok ls" and "list_all (\<lambda>(px, _). 0 < px) ls" and "0 < usd"
    and "usd \<le> sum_list (map (\<lambda>(px, l). px * l) ls)"
  shows "snd (walk ls usd) = usd \<and> 0 < fst (walk ls usd) \<and>
    vwap_from_levels ls (usd / fst (walk ls usd)) = Some (fst (walk ls usd))"
proof -
  obtain q where q: "0 < q" "filled_of ls q = q" "cost_of ls q = usd" "walk ls usd = (usd / q, usd)"
    using walk_levels_eq [of ls 0 usd 0] assms by (auto simp: walk_def)
  have "ls \<noteq> []" using assms(3,4) by auto
  moreover have "usd / (usd / q) = q" using assms(3) q(1) by simp
  ultimately show ?thesis using q assms(3) by (simp add: vwap_eq)
qed

theorem walkers_agree_witness:
  "walk [(10, 5), (20, 5)] 100 = (40 / 3, 100) \<and> vwap_from_levels [(10, 5), (20, 5)] (15 / 2) = Some (40 / 3)"
proof -
  have w: "walk [(10, 5), (20, 5)] 100 = (40 / 3, 100)" by code_simp
  then show ?thesis using walkers_agree [of "[(10, 5), (20, 5)]" 100] by (simp add: levels_ok_def)
qed

end
