(* ===== verification/Trade_Store.thy ===== *)
theory Trade_Store
  imports Store Spreads
begin

text \<open>
  The trading tables of \<^verbatim>\<open>backend/db/models.py\<close>: arbitrage positions, trigger orders,
  execution legs and the order log, and the trading database the trigger service, the
  panel's routes and the reconciliation worker share. The billing database is part of it,
  since plans bound the number of triggers and wallets carry the legs.
\<close>

section \<open>Tables\<close>

datatype pair_kind = Long_Short | Spot_Short

datatype pos_status =
  AP_Pending | AP_Opening | AP_Open | AP_Closing | AP_Closed | AP_Partial | AP_Cancelled

record arb_position =
  ap_id :: int
  ap_user_id :: int
  ap_kind :: pair_kind
  ap_long_exchange :: string
  ap_long_symbol :: string
  ap_long_wallet_id :: "int option"
  ap_short_exchange :: string
  ap_short_symbol :: string
  ap_short_wallet_id :: "int option"
  ap_target_qty_token :: "rat option"
  ap_leverage :: "int option"
  ap_margin_mode :: string
  ap_entry_spread_pct :: "rat option"
  ap_long_entry_price :: "rat option"
  ap_short_entry_price :: "rat option"
  ap_long_qty :: rat
  ap_short_qty :: rat
  ap_opened_at :: "time option"
  ap_exit_spread_pct :: "rat option"
  ap_long_exit_price :: "rat option"
  ap_short_exit_price :: "rat option"
  ap_realized_pnl_usd :: "rat option"
  ap_closed_at :: "time option"
  ap_status :: pos_status
  ap_synced_externally :: bool
  ap_closed_externally :: bool
  ap_created_at :: time
  ap_updated_at :: time

definition new_arb_position :: "int \<Rightarrow> int \<Rightarrow> time \<Rightarrow> arb_position" where
  "new_arb_position i uid now = \<lparr>
     ap_id = i, ap_user_id = uid, ap_kind = Long_Short, ap_long_exchange = [], ap_long_symbol = [],
     ap_long_wallet_id = None, ap_short_exchange = [], ap_short_symbol = [], ap_short_wallet_id = None,
     ap_target_qty_token = None, ap_leverage = None, ap_margin_mode = ''isolated'',
     ap_entry_spread_pct = None, ap_long_entry_price = None, ap_short_entry_price = None,
     ap_long_qty = 0, ap_short_qty = 0, ap_opened_at = None, ap_exit_spread_pct = None,
     ap_long_exit_price = None, ap_short_exit_price = None, ap_realized_pnl_usd = None,
     ap_closed_at = None, ap_status = AP_Pending, ap_synced_externally = False,
     ap_closed_externally = False, ap_created_at = now, ap_updated_at = now \<rparr>"

datatype order_kind = K_Open | K_Close | K_Tp | K_Sl | K_Other string

datatype order_status = T_Scheduled | T_Pending | T_Firing | T_Fired | T_Failed | T_Cancelled

record trigger =
  to_id :: int
  to_user_id :: int
  to_arb_position_id :: "int option"
  to_parent_trigger_id :: "int option"
  to_kind :: order_kind
  to_trigger_spread_pct :: "rat option"
  to_long_exchange :: "string option"
  to_long_symbol :: "string option"
  to_long_wallet_id :: "int option"
  to_short_exchange :: "string option"
  to_short_symbol :: "string option"
  to_short_wallet_id :: "int option"
  to_total_qty_token :: "rat option"
  to_portion_size_token :: "rat option"
  to_portions_filled :: int
  to_portions_target :: "int option"
  to_infinite_fill :: bool
  to_activate_at :: "time option"
  to_leverage :: "int option"
  to_margin_mode :: string
  to_reduce_only :: bool
  to_status :: order_status
  to_last_fired_at :: "time option"
  to_error_kind :: "string option"
  to_error_message :: "string option"
  to_created_at :: time
  to_updated_at :: time

definition new_trigger :: "int \<Rightarrow> int \<Rightarrow> order_kind \<Rightarrow> time \<Rightarrow> trigger" where
  "new_trigger i uid k now = \<lparr>
     to_id = i, to_user_id = uid, to_arb_position_id = None, to_parent_trigger_id = None,
     to_kind = k, to_trigger_spread_pct = None, to_long_exchange = None, to_long_symbol = None,
     to_long_wallet_id = None, to_short_exchange = None, to_short_symbol = None,
     to_short_wallet_id = None, to_total_qty_token = None, to_portion_size_token = None,
     to_portions_filled = 0, to_portions_target = None, to_infinite_fill = False,
     to_activate_at = None, to_leverage = None, to_margin_mode = ''isolated'',
     to_reduce_only = False, to_status = T_Pending, to_last_fired_at = None,
     to_error_kind = None, to_error_message = None, to_created_at = now, to_updated_at = now \<rparr>"

text \<open>
  Execution legs. The second leg of a \<open>pair\<close> row is written by the fills backfill only and
  enters the sums below through its two result columns.
\<close>

datatype leg_kind = Single_Leg | Pair_Legs

record trade_position =
  tp_id :: int
  tp_user_id :: int
  tp_kind :: leg_kind
  tp_status :: string
  tp_symbol :: string
  tp_leg_a_wallet_id :: "int option"
  tp_leg_a_exchange :: string
  tp_leg_a_side :: string
  tp_leg_a_qty :: rat
  tp_leg_a_entry_price :: "rat option"
  tp_leg_a_exit_price :: "rat option"
  tp_leg_a_realized_pnl_usd :: "rat option"
  tp_leg_a_funding_pnl_usd :: "rat option"
  tp_leg_a_fees_usd :: "rat option"
  tp_leg_a_market :: string
  tp_leg_a_open_order_id :: "int option"
  tp_leg_a_close_order_id :: "int option"
  tp_leg_b_realized_pnl_usd :: "rat option"
  tp_leg_b_funding_pnl_usd :: "rat option"
  tp_source :: string
  tp_realized_pnl_usd :: "rat option"
  tp_opened_externally :: bool
  tp_closed_externally :: bool
  tp_opened_at :: time
  tp_closed_at :: "time option"
  tp_arb_position_id :: "int option"

record trade_order =
  od_id :: int
  od_user_id :: int
  od_wallet_id :: "int option"
  od_position_id :: "int option"
  od_exchange :: string
  od_symbol :: string
  od_side :: string
  od_intent :: string
  od_order_type :: string
  od_requested_qty :: rat
  od_leverage :: "int option"
  od_margin_mode :: "string option"
  od_status :: string
  od_exchange_order_id :: "string option"
  od_filled_qty :: "rat option"
  od_avg_fill_price :: "rat option"
  od_error_kind :: "string option"
  od_error_message :: "string option"
  od_created_at :: time
  od_finalized_at :: "time option"

record trading =
  tr_world :: world
  tr_positions :: "arb_position list"
  tr_triggers :: "trigger list"
  tr_legs :: "trade_position list"
  tr_orders :: "trade_order list"

definition empty_trading :: "world \<Rightarrow> trading" where
  "empty_trading w = \<lparr>tr_world = w, tr_positions = [], tr_triggers = [], tr_legs = [], tr_orders = []\<rparr>"

interpretation position_tab: table ap_id tr_positions tr_positions_update
  by unfold_locales simp
interpretation trigger_tab: table to_id tr_triggers tr_triggers_update
  by unfold_locales simp
interpretation leg_tab: table tp_id tr_legs tr_legs_update
  by unfold_locales simp
interpretation order_tab: table od_id tr_orders tr_orders_update
  by unfold_locales simp

section \<open>Row access\<close>

text \<open>
  A flushed change of a loaded row: the row replaces its old version and, as both tables
  declare \<open>onupdate\<close>, carries the time of the change.
\<close>

definition get_trigger :: "trading \<Rightarrow> int \<Rightarrow> trigger option" where
  "get_trigger tr i = row_get to_id (tr_triggers tr) i"

definition get_position :: "trading \<Rightarrow> int \<Rightarrow> arb_position option" where
  "get_position tr i = row_get ap_id (tr_positions tr) i"

definition put_trigger :: "clock \<Rightarrow> trigger \<Rightarrow> trading \<Rightarrow> trading" where
  "put_trigger c t = tr_triggers_update (row_upd to_id (to_id t) (\<lambda>_. t\<lparr>to_updated_at := utcnow c\<rparr>))"

definition put_position :: "clock \<Rightarrow> arb_position \<Rightarrow> trading \<Rightarrow> trading" where
  "put_position c p = tr_positions_update (row_upd ap_id (ap_id p) (\<lambda>_. p\<lparr>ap_updated_at := utcnow c\<rparr>))"

text \<open>\<open>UPDATE arb_trigger_orders SET status = st, updated_at = now WHERE P\<close>.\<close>

definition set_status_where :: "clock \<Rightarrow> order_status \<Rightarrow> (trigger \<Rightarrow> bool) \<Rightarrow> trading \<Rightarrow> trading" where
  "set_status_where c st P =
     tr_triggers_update (row_upd_where P (\<lambda>t. t\<lparr>to_status := st, to_updated_at := utcnow c\<rparr>))"

definition arb_position_of :: "trading \<Rightarrow> trigger \<Rightarrow> arb_position option" where
  "arb_position_of tr t = (case to_arb_position_id t of None \<Rightarrow> None | Some i \<Rightarrow> get_position tr i)"

lemma put_trigger_fields [simp]:
  "tr_world (put_trigger c t tr) = tr_world tr" "tr_positions (put_trigger c t tr) = tr_positions tr"
  "tr_legs (put_trigger c t tr) = tr_legs tr" "tr_orders (put_trigger c t tr) = tr_orders tr"
  by (simp_all add: put_trigger_def)

lemma put_position_fields [simp]:
  "tr_world (put_position c p tr) = tr_world tr" "tr_triggers (put_position c p tr) = tr_triggers tr"
  "tr_legs (put_position c p tr) = tr_legs tr" "tr_orders (put_position c p tr) = tr_orders tr"
  by (simp_all add: put_position_def)

lemma set_status_where_fields [simp]:
  "tr_world (set_status_where c st P tr) = tr_world tr" "tr_positions (set_status_where c st P tr) = tr_positions tr"
  "tr_legs (set_status_where c st P tr) = tr_legs tr" "tr_orders (set_status_where c st P tr) = tr_orders tr"
  by (simp_all add: set_status_where_def)

lemma get_put_trigger:
  "get_trigger (put_trigger c t tr) i =
     (if i = to_id t then map_option (\<lambda>_. t\<lparr>to_updated_at := utcnow c\<rparr>) (get_trigger tr i) else get_trigger tr i)"
  by (simp add: get_trigger_def put_trigger_def row_get_upd_const)

lemma get_put_position:
  "get_position (put_position c p tr) i =
     (if i = ap_id p then map_option (\<lambda>_. p\<lparr>ap_updated_at := utcnow c\<rparr>) (get_position tr i) else get_position tr i)"
  by (simp add: get_position_def put_position_def row_get_upd_const)

lemma get_set_status_where:
  "get_trigger (set_status_where c st P tr) i =
     map_option (\<lambda>t. if P t then t\<lparr>to_status := st, to_updated_at := utcnow c\<rparr> else t) (get_trigger tr i)"
  unfolding get_trigger_def set_status_where_def by (rule trigger_tab.get_bulk) simp

lemma get_trigger_put_position [simp]: "get_trigger (put_position c p tr) i = get_trigger tr i"
  and get_position_put_trigger [simp]: "get_position (put_trigger c t tr) i = get_position tr i"
  and get_position_set_status [simp]: "get_position (set_status_where c st P tr) i = get_position tr i"
  by (simp_all add: get_trigger_def get_position_def)

lemma get_trigger_id: "get_trigger tr i = Some t \<Longrightarrow> to_id t = i"
  unfolding get_trigger_def using row_get_Some by fastforce

lemma get_position_id: "get_position tr i = Some p \<Longrightarrow> ap_id p = i"
  unfolding get_position_def using row_get_Some by fastforce

end
