(* ===== verification/Triggers.thy ===== *)
theory Triggers
  imports Trade_Store Rate_Limits
begin

text \<open>
  The trigger orders of \<^verbatim>\<open>backend/services/trigger_order_service.py\<close>: the condition of a
  trigger, the atomic claim, the accumulation of portions into a position, both execution
  paths, one tick of the loop and the pairing of execution legs. What a venue answers to
  an order is an argument; so are the books file and the time the books are read.
\<close>

section \<open>Conditions\<close>

definition condition_met :: "trigger \<Rightarrow> rat \<Rightarrow> bool" where
  "condition_met t current_spread =
     (case to_trigger_spread_pct t of
        None \<Rightarrow> True
      | Some threshold \<Rightarrow>
          (case to_kind t of
             K_Open \<Rightarrow> threshold \<le> current_spread
           | K_Tp \<Rightarrow> threshold \<le> current_spread
           | K_Close \<Rightarrow> current_spread \<le> threshold
           | K_Sl \<Rightarrow> current_spread \<le> threshold
           | K_Other _ \<Rightarrow> False))"

definition vwap_merge :: "rat option \<Rightarrow> rat \<Rightarrow> rat \<Rightarrow> rat \<Rightarrow> rat" where
  "vwap_merge prev_price prev_qty new_price new_qty =
     (case prev_price of
        None \<Rightarrow> new_price
      | Some p \<Rightarrow>
          if prev_qty \<le> 0 then new_price
          else let total = prev_qty + new_qty
               in if total \<le> 0 then new_price else (p * prev_qty + new_price * new_qty) / total)"

text \<open>\<open>UPDATE ... WHERE id = :id AND status = 'pending'\<close>; true when one row was changed.\<close>

definition claim_for_fire :: "clock \<Rightarrow> int \<Rightarrow> trading \<Rightarrow> bool \<times> trading" where
  "claim_for_fire c i tr =
     (count_over (\<lambda>t. to_id t = i \<and> to_status t = T_Pending) (tr_triggers tr) = 1,
      set_status_where c T_Firing (\<lambda>t. to_id t = i \<and> to_status t = T_Pending) tr)"

section \<open>Accumulating portions\<close>

definition text_or_empty :: "string option \<Rightarrow> string" where
  "text_or_empty s = (case s of Some x \<Rightarrow> x | None \<Rightarrow> [])"

definition position_for :: "clock \<Rightarrow> trading \<Rightarrow> trigger \<Rightarrow> arb_position" where
  "position_for c tr t = (new_arb_position (row_fresh ap_id (tr_positions tr)) (to_user_id t) (utcnow c))
     \<lparr>ap_long_exchange := text_or_empty (to_long_exchange t), ap_long_symbol := text_or_empty (to_long_symbol t),
      ap_long_wallet_id := to_long_wallet_id t,
      ap_short_exchange := text_or_empty (to_short_exchange t), ap_short_symbol := text_or_empty (to_short_symbol t),
      ap_short_wallet_id := to_short_wallet_id t,
      ap_target_qty_token := to_total_qty_token t, ap_leverage := to_leverage t,
      ap_margin_mode := to_margin_mode t, ap_status := AP_Open, ap_opened_at := Some (utcnow c)\<rparr>"

text \<open>The fields of the position after a portion, the status aside.\<close>

definition merge_fill :: "clock \<Rightarrow> arb_position \<Rightarrow> rat \<Rightarrow> rat \<Rightarrow> rat \<Rightarrow> rat \<Rightarrow> arb_position" where
  "merge_fill c p long_price long_qty short_price short_qty =
     (let lp = vwap_merge (ap_long_entry_price p) (ap_long_qty p) long_price long_qty;
          sp = vwap_merge (ap_short_entry_price p) (ap_short_qty p) short_price short_qty
      in p\<lparr>ap_long_entry_price := Some lp, ap_short_entry_price := Some sp,
           ap_long_qty := ap_long_qty p + long_qty, ap_short_qty := ap_short_qty p + short_qty,
           ap_entry_spread_pct := (if 0 < lp then Some ((sp - lp) / lp * 100) else ap_entry_spread_pct p),
           ap_opened_at := (case ap_opened_at p of None \<Rightarrow> Some (utcnow c) | Some x \<Rightarrow> Some x),
           ap_status := AP_Open\<rparr>)"

text \<open>
  \<open>accumulate_position\<close>: the position of the trigger, created on the first fill and linked
  to it, with the portion merged in. The result is the position, the trigger row and the
  database with both written.
\<close>

definition accumulate_position ::
  "clock \<Rightarrow> trading \<Rightarrow> trigger \<Rightarrow> rat \<Rightarrow> rat \<Rightarrow> rat \<Rightarrow> rat \<Rightarrow> arb_position \<times> trigger \<times> trading" where
  "accumulate_position c tr t long_price long_qty short_price short_qty =
     (case arb_position_of tr t of
        Some p \<Rightarrow>
          let p' = merge_fill c p long_price long_qty short_price short_qty
          in (p', t, put_position c p' tr)
      | None \<Rightarrow>
          let p = position_for c tr t; t' = t\<lparr>to_arb_position_id := Some (ap_id p)\<rparr>;
              p' = merge_fill c p long_price long_qty short_price short_qty
          in (p', t', put_position c p' (put_trigger c t' (tr_positions_update (\<lambda>ps. ps @ [p]) tr))))"

section \<open>Firing one portion\<close>

text \<open>
  What the trading service returns for one leg: a result dictionary with the entries the
  code reads, some other value, or an exception; the last two with their text.
\<close>

record fill =
  fl_avg_fill_price :: "rat option"
  fl_price :: "rat option"
  fl_filled_qty :: "rat option"

datatype leg_reply = Filled fill | Odd_Reply string | Raised string

record open_request =
  oq_user_id :: int
  oq_wallet_id :: int
  oq_symbol :: string
  oq_side :: string
  oq_quantity :: rat
  oq_leverage :: int
  oq_margin_mode :: string
  oq_market_type :: string

record close_request =
  cq_user_id :: int
  cq_wallet_id :: int
  cq_symbol :: string
  cq_side :: string

text \<open>The answers of the venues during one execution, by request.\<close>

record venue =
  vn_open :: "open_request \<Rightarrow> leg_reply"
  vn_close :: "close_request \<Rightarrow> leg_reply"

definition or_opt :: "'a::zero option \<Rightarrow> 'a option \<Rightarrow> 'a option" where
  "or_opt a b = (if truthy a then a else b)"

definition portion_qty :: "trigger \<Rightarrow> rat option" where
  "portion_qty t = or_opt (to_portion_size_token t) (to_total_qty_token t)"

fun short_err :: "leg_reply \<Rightarrow> string" where
  "short_err (Raised s) = take 150 s"
| "short_err (Odd_Reply s) = take 150 s"
| "short_err (Filled _) = []"

fun is_fill :: "leg_reply \<Rightarrow> bool" where
  "is_fill (Filled _) = True"
| "is_fill _ = False"

fun is_raised :: "leg_reply \<Rightarrow> bool" where
  "is_raised (Raised _) = True"
| "is_raised _ = False"

text \<open>The entries of a reply, for a portion whose \<open>price\<close> entry counts and one where it does not.\<close>

definition fill_price :: "leg_reply \<Rightarrow> rat" where
  "fill_price r = (case r of Filled f \<Rightarrow> or_else (or_opt (fl_avg_fill_price f) (fl_price f)) 0 | _ \<Rightarrow> 0)"

definition avg_price :: "leg_reply \<Rightarrow> rat" where
  "avg_price r = (case r of Filled f \<Rightarrow> or_else (fl_avg_fill_price f) 0 | _ \<Rightarrow> 0)"

definition filled_qty :: "leg_reply \<Rightarrow> rat \<Rightarrow> rat" where
  "filled_qty r qty = (case r of Filled f \<Rightarrow> or_else (fl_filled_qty f) qty | _ \<Rightarrow> qty)"

definition join_errors :: "(string \<times> leg_reply \<times> bool) list \<Rightarrow> string" where
  "join_errors es =
     (case map (\<lambda>(name, r, _). name @ '': '' @ short_err r) (filter (\<lambda>(_, _, ok). \<not> ok) es) of
        [] \<Rightarrow> [] | m # ms \<Rightarrow> take 400 (m @ concat (map (\<lambda>x. ''; '' @ x) ms)))"

definition fail_trigger :: "clock \<Rightarrow> string \<Rightarrow> string \<Rightarrow> trigger \<Rightarrow> trading \<Rightarrow> trading" where
  "fail_trigger c kind msg t =
     put_trigger c (t\<lparr>to_status := T_Failed, to_error_kind := Some kind, to_error_message := Some msg\<rparr>)"

text \<open>\<open>Wallet.id == x\<close> when the trigger names a wallet.\<close>

definition wallet_of :: "trading \<Rightarrow> int option \<Rightarrow> wallet option" where
  "wallet_of tr i = (case i of None \<Rightarrow> None | Some i \<Rightarrow> if i = 0 then None else row_get w_id (wallets (tr_world tr)) i)"

definition open_requests :: "trigger \<Rightarrow> wallet \<Rightarrow> wallet \<Rightarrow> rat \<Rightarrow> open_request \<times> open_request" where
  "open_requests t long_w short_w qty =
     (let leverage = or_else (to_leverage t) 1;
          margin_mode = (if to_margin_mode t = [] then ''isolated'' else to_margin_mode t);
          long_market = (if to_kind t = K_Other ''spot_short'' then ''spot'' else ''futures'')
      in (\<lparr>oq_user_id = to_user_id t, oq_wallet_id = w_id long_w, oq_symbol = text_or_empty (to_long_symbol t),
           oq_side = ''buy'', oq_quantity = qty, oq_leverage = (if long_market = ''spot'' then 1 else leverage),
           oq_margin_mode = margin_mode, oq_market_type = long_market\<rparr>,
          \<lparr>oq_user_id = to_user_id t, oq_wallet_id = w_id short_w, oq_symbol = text_or_empty (to_short_symbol t),
           oq_side = ''sell'', oq_quantity = qty, oq_leverage = leverage,
           oq_margin_mode = margin_mode, oq_market_type = ''futures''\<rparr>))"

text \<open>Both legs were filled: count the portion, then re-arm, finish or wait for the next one.\<close>

definition after_portion :: "trigger \<Rightarrow> order_status" where
  "after_portion t =
     (if to_infinite_fill t then T_Pending
      else if or_else (to_portions_target t) 1 \<le> to_portions_filled t then T_Fired
      else T_Pending)"

definition portion_done :: "clock \<Rightarrow> trigger \<Rightarrow> trading \<Rightarrow> trading" where
  "portion_done c t tr =
     (let t1 = t\<lparr>to_portions_filled := to_portions_filled t + 1, to_last_fired_at := Some (utcnow c)\<rparr>;
          t2 = t1\<lparr>to_status := after_portion t1\<rparr>;
          tr1 = put_trigger c t2 tr
      in if to_status t2 = T_Fired
         then set_status_where c T_Pending
                (\<lambda>x. to_parent_trigger_id x = Some (to_id t) \<and> to_status x = T_Scheduled) tr1
         else tr1)"

text \<open>A leg failed: the order fails, and a leg that did open is kept as a partial position.\<close>

definition portion_failed :: "clock \<Rightarrow> trigger \<Rightarrow> rat \<Rightarrow> leg_reply \<Rightarrow> leg_reply \<Rightarrow> trading \<Rightarrow> trading" where
  "portion_failed c t qty long_res short_res tr =
     (let long_ok = is_fill long_res; short_ok = is_fill short_res;
          t1 = t\<lparr>to_status := T_Failed,
                 to_error_kind := Some (if long_ok \<or> short_ok then ''partial'' else ''exchange''),
                 to_error_message := Some (join_errors [(''long'', long_res, long_ok), (''short'', short_res, short_ok)]),
                 to_last_fired_at := Some (utcnow c)\<rparr>;
          tr1 = put_trigger c t1 tr
      in if long_ok \<or> short_ok
         then let (p, _, tr2) = accumulate_position c tr1 t1
                    (if long_ok then avg_price long_res else 0) (if long_ok then filled_qty long_res qty else 0)
                    (if short_ok then avg_price short_res else 0) (if short_ok then filled_qty short_res qty else 0)
              in put_position c (p\<lparr>ap_status := AP_Partial\<rparr>) tr2
         else tr1)"

definition execute_open_portion :: "clock \<Rightarrow> venue \<Rightarrow> trigger \<Rightarrow> trading \<Rightarrow> trading" where
  "execute_open_portion c v t tr =
     (case portion_qty t of
        None \<Rightarrow> fail_trigger c ''user'' ''trigger has no qty'' t tr
      | Some qty \<Rightarrow>
          if qty = 0 then fail_trigger c ''user'' ''trigger has no qty'' t tr
          else (case (wallet_of tr (to_long_wallet_id t), wallet_of tr (to_short_wallet_id t)) of
            (Some long_w, Some short_w) \<Rightarrow>
              let (long_rq, short_rq) = open_requests t long_w short_w qty;
                  long_res = vn_open v long_rq; short_res = vn_open v short_rq
              in if is_fill long_res \<and> is_fill short_res
                 then let (_, t1, tr1) = accumulate_position c tr t
                            (fill_price long_res) (filled_qty long_res qty)
                            (fill_price short_res) (filled_qty short_res qty)
                      in portion_done c t1 tr1
                 else portion_failed c t qty long_res short_res tr
          | _ \<Rightarrow> fail_trigger c ''user'' ''wallet missing'' t tr))"

section \<open>Closing\<close>

definition closable :: "arb_position \<Rightarrow> bool" where
  "closable p \<longleftrightarrow> ap_status p = AP_Open \<or> ap_status p = AP_Partial"

definition close_request_of :: "trigger \<Rightarrow> int \<Rightarrow> string \<Rightarrow> string \<Rightarrow> close_request" where
  "close_request_of t w symbol sd = \<lparr>cq_user_id = to_user_id t, cq_wallet_id = w, cq_symbol = symbol, cq_side = sd\<rparr>"

definition exit_spread :: "rat option \<Rightarrow> rat option \<Rightarrow> rat option \<Rightarrow> rat option" where
  "exit_spread long_exit short_exit old =
     (case (long_exit, short_exit) of
        (Some l, Some s) \<Rightarrow> if l \<noteq> 0 \<and> 0 < l \<and> s \<noteq> 0 then Some ((s - l) / l * 100) else old
      | _ \<Rightarrow> old)"

definition exit_price :: "leg_reply \<Rightarrow> rat option \<Rightarrow> rat option" where
  "exit_price r old = (case r of Filled _ \<Rightarrow> Some (avg_price r) | _ \<Rightarrow> old)"

definition close_done :: "clock \<Rightarrow> trigger \<Rightarrow> arb_position \<Rightarrow> leg_reply \<Rightarrow> leg_reply \<Rightarrow> trading \<Rightarrow> trading" where
  "close_done c t p long_res short_res tr =
     (let le = exit_price long_res (ap_long_exit_price p); se = exit_price short_res (ap_short_exit_price p);
          p' = p\<lparr>ap_status := AP_Closed, ap_closed_at := Some (utcnow c), ap_long_exit_price := le,
                 ap_short_exit_price := se, ap_exit_spread_pct := exit_spread le se (ap_exit_spread_pct p)\<rparr>;
          tr1 = set_status_where c T_Cancelled
                  (\<lambda>x. to_arb_position_id x = Some (ap_id p) \<and> to_status x \<in> {T_Pending, T_Scheduled} \<and> to_id x \<noteq> to_id t) tr;
          tr2 = set_status_where c T_Cancelled
                  (\<lambda>x. to_arb_position_id x = Some (ap_id p) \<and> to_kind x = K_Open \<and> to_status x = T_Pending) tr1
      in put_position c p' (put_trigger c (t\<lparr>to_status := T_Fired, to_last_fired_at := Some (utcnow c)\<rparr>) tr2))"

definition close_failed :: "clock \<Rightarrow> trigger \<Rightarrow> arb_position \<Rightarrow> leg_reply \<Rightarrow> leg_reply \<Rightarrow> trading \<Rightarrow> trading" where
  "close_failed c t p long_res short_res tr =
     (let long_ok = \<not> is_raised long_res; short_ok = \<not> is_raised short_res;
          t' = t\<lparr>to_status := T_Failed,
                 to_error_kind := Some (if long_ok \<or> short_ok then ''partial'' else ''exchange''),
                 to_error_message := Some (join_errors [(''long-close'', long_res, long_ok), (''short-close'', short_res, short_ok)])\<rparr>
      in put_position c (p\<lparr>ap_status := (if long_ok \<or> short_ok then AP_Partial else AP_Open)\<rparr>) (put_trigger c t' tr))"

definition execute_close :: "clock \<Rightarrow> venue \<Rightarrow> trigger \<Rightarrow> trading \<Rightarrow> trading" where
  "execute_close c v t tr =
     (case arb_position_of tr t of
        None \<Rightarrow> fail_trigger c ''user'' ''no open position to close'' t tr
      | Some p \<Rightarrow>
          if \<not> closable p then fail_trigger c ''user'' ''no open position to close'' t tr
          else if \<not> truthy (ap_long_wallet_id p) \<or> \<not> truthy (ap_short_wallet_id p)
          then fail_trigger c ''user'' ''position has no wallet refs'' t tr
          else
            let p1 = p\<lparr>ap_status := AP_Closing\<rparr>; tr1 = put_position c p1 tr;
                long_res = vn_close v (close_request_of t (the (ap_long_wallet_id p)) (ap_long_symbol p) ''sell'');
                short_res = vn_close v (close_request_of t (the (ap_short_wallet_id p)) (ap_short_symbol p) ''buy'')
            in if \<not> is_raised long_res \<and> \<not> is_raised short_res
               then close_done c t p1 long_res short_res tr1
               else close_failed c t p1 long_res short_res tr1)"

fun kind_name :: "order_kind \<Rightarrow> string" where
  "kind_name K_Open = ''open''"
| "kind_name K_Close = ''close''"
| "kind_name K_Tp = ''tp''"
| "kind_name K_Sl = ''sl''"
| "kind_name (K_Other s) = s"

definition execute_portion :: "clock \<Rightarrow> venue \<Rightarrow> trigger \<Rightarrow> trading \<Rightarrow> trading" where
  "execute_portion c v t tr =
     (case to_kind t of
        K_Open \<Rightarrow> execute_open_portion c v t tr
      | K_Other s \<Rightarrow> fail_trigger c ''internal'' (''unknown trigger kind: '' @ s) t tr
      | _ \<Rightarrow> execute_close c v t tr)"

section \<open>The loop\<close>

text \<open>
  One tick. Scheduled orders whose time has come are armed; then the orders pending at
  that moment are taken in turn. \<open>spread_for\<close> is the spread an order is compared with, None
  where the loop passes over it. The venues' answers may differ from order to order.
\<close>

definition promote_due :: "clock \<Rightarrow> trading \<Rightarrow> trading" where
  "promote_due c =
     set_status_where c T_Pending
       (\<lambda>t. to_status t = T_Scheduled \<and> (case to_activate_at t of Some x \<Rightarrow> x \<le> utcnow c | None \<Rightarrow> False))"

definition filled_text :: "string option \<Rightarrow> string \<Rightarrow> string" where
  "filled_text s d = (if text_or_empty s = [] then d else text_or_empty s)"

definition watched :: "trading \<Rightarrow> trigger \<Rightarrow> (pair \<times> rat) option" where
  "watched tr t =
     (case portion_qty t of
        None \<Rightarrow> None
      | Some qty \<Rightarrow>
          if qty \<le> 0 then None
          else
            let own = (\<lparr>pr_long_exchange = text_or_empty (to_long_exchange t), pr_long_symbol = text_or_empty (to_long_symbol t),
                        pr_short_exchange = text_or_empty (to_short_exchange t), pr_short_symbol = text_or_empty (to_short_symbol t)\<rparr>, qty);
                (pr, q) = (if to_kind t = K_Tp \<or> to_kind t = K_Sl
                  then (case arb_position_of tr t of
                      None \<Rightarrow> own
                    | Some p \<Rightarrow>
                        (\<lparr>pr_long_exchange = filled_text (to_long_exchange t) (ap_long_exchange p),
                          pr_long_symbol = filled_text (to_long_symbol t) (ap_long_symbol p),
                          pr_short_exchange = filled_text (to_short_exchange t) (ap_short_exchange p),
                          pr_short_symbol = filled_text (to_short_symbol t) (ap_short_symbol p)\<rparr>,
                         if ap_long_qty p = 0 then qty else ap_long_qty p))
                  else own)
            in if pr_long_exchange pr = [] \<or> pr_short_exchange pr = [] then None else Some (pr, q))"

definition spread_for :: "rat \<Rightarrow> books \<Rightarrow> trading \<Rightarrow> trigger \<Rightarrow> rat option" where
  "spread_for now books tr t =
     (case watched tr t of
        None \<Rightarrow> None
      | Some (pr, q) \<Rightarrow>
          if to_kind t = K_Open then compute_effective_spread now books pr q
          else compute_exit_spread now books pr q)"

definition due :: "rat \<Rightarrow> books \<Rightarrow> trading \<Rightarrow> trigger \<Rightarrow> bool" where
  "due now books tr t = (case spread_for now books tr t of None \<Rightarrow> False | Some x \<Rightarrow> condition_met t x)"

definition tick_order :: "clock \<Rightarrow> rat \<Rightarrow> books \<Rightarrow> (int \<Rightarrow> venue) \<Rightarrow> trading \<Rightarrow> int \<Rightarrow> trading" where
  "tick_order c now books v tr i =
     (case get_trigger tr i of
        None \<Rightarrow> tr
      | Some t \<Rightarrow>
          if \<not> due now books tr t then tr
          else let (won, tr1) = claim_for_fire c i tr
               in if \<not> won then tr1
                  else (case get_trigger tr1 i of
                          None \<Rightarrow> tr1
                        | Some t1 \<Rightarrow> execute_portion c (v i) t1 tr1))"

definition pending_ids :: "trading \<Rightarrow> int list" where
  "pending_ids tr = map to_id (filter (\<lambda>t. to_status t = T_Pending) (tr_triggers tr))"

definition tick :: "clock \<Rightarrow> rat \<Rightarrow> books option \<Rightarrow> (int \<Rightarrow> venue) \<Rightarrow> trading \<Rightarrow> trading" where
  "tick c now books v tr =
     (let tr1 = promote_due c tr
      in case books of
           None \<Rightarrow> tr1
         | Some b \<Rightarrow> foldl (tick_order c now b v) tr1 (pending_ids tr1))"

section \<open>Laws of the rows\<close>

definition triggers_distinct :: "trading \<Rightarrow> bool" where
  "triggers_distinct tr \<longleftrightarrow> distinct (map to_id (tr_triggers tr))"

lemma count_claims: "distinct (map to_id ts) \<Longrightarrow>
  count_over (\<lambda>t. to_id t = i \<and> to_status t = T_Pending) ts =
    (case row_get to_id ts i of Some t \<Rightarrow> if to_status t = T_Pending then 1 else 0 | None \<Rightarrow> 0)"
proof (induction ts)
  case (Cons t ts)
  have "i \<notin> to_id ` set ts \<Longrightarrow> count_over (\<lambda>t. to_id t = i \<and> to_status t = T_Pending) ts = 0"
    by (simp add: count_over_def) (metis (mono_tags, lifting) filter_False image_eqI length_0_conv)
  then show ?case using Cons by auto
qed simp

lemma claim_won: "triggers_distinct tr \<Longrightarrow> get_trigger tr i = Some t \<Longrightarrow>
  claim_for_fire c i tr = (to_status t = T_Pending, set_status_where c T_Firing (\<lambda>t. to_id t = i \<and> to_status t = T_Pending) tr)"
  by (simp add: claim_for_fire_def triggers_distinct_def get_trigger_def count_claims)

lemma keys_where [simp]: "map to_id (tr_triggers (set_status_where c st P tr)) = map to_id (tr_triggers tr)"
  by (simp add: set_status_where_def row_upd_where_map)

lemma keys_put [simp]: "map to_id (tr_triggers (put_trigger c t tr)) = map to_id (tr_triggers tr)"
  by (simp add: put_trigger_def row_upd_const_keys)

lemma distinct_where [simp]: "triggers_distinct (set_status_where c st P tr) = triggers_distinct tr"
  and distinct_put [simp]: "triggers_distinct (put_trigger c t tr) = triggers_distinct tr"
  and distinct_put_position [simp]: "triggers_distinct (put_position c p tr) = triggers_distinct tr"
  by (simp_all add: triggers_distinct_def)

lemma add_position_frame [simp]:
  "tr_triggers (tr_positions_update f tr) = tr_triggers tr" "get_trigger (tr_positions_update f tr) i = get_trigger tr i"
  "triggers_distinct (tr_positions_update f tr) = triggers_distinct tr"
  by (simp_all add: get_trigger_def triggers_distinct_def)

lemma get_added_position:
  "ap_id p = row_fresh ap_id (tr_positions tr) \<Longrightarrow>
   get_position (tr_positions_update (\<lambda>ps. ps @ [p]) tr) i = (if i = ap_id p then Some p else get_position tr i)"
  by (auto simp: get_position_def row_get_append split: option.splits)

lemma merge_fill_id [simp]: "ap_id (merge_fill c p a b d e) = ap_id p"
  by (simp add: merge_fill_def Let_def)

lemma position_for_id [simp]: "ap_id (position_for c tr t) = row_fresh ap_id (tr_positions tr)"
  by (simp add: position_for_def new_arb_position_def)

text \<open>What accumulating a portion does, whether the position is new or not.\<close>

definition base_position :: "clock \<Rightarrow> trading \<Rightarrow> trigger \<Rightarrow> arb_position" where
  "base_position c tr t = (case arb_position_of tr t of Some p \<Rightarrow> p | None \<Rightarrow> position_for c tr t)"

lemma accumulate_spec:
  assumes "accumulate_position c tr t a b d e = (p, t', tr')" and "get_trigger tr (to_id t) \<noteq> None"
  shows "p = merge_fill c (base_position c tr t) a b d e"
    and "t' = t\<lparr>to_arb_position_id := Some (ap_id p)\<rparr>"
    and "get_position tr' (ap_id p) = Some (p\<lparr>ap_updated_at := utcnow c\<rparr>)"
    and "\<And>i. i \<noteq> to_id t \<Longrightarrow> get_trigger tr' i = get_trigger tr i"
    and "get_trigger tr' (to_id t) \<noteq> None"
    and "triggers_distinct tr' = triggers_distinct tr"
    and "tr_world tr' = tr_world tr" and "tr_legs tr' = tr_legs tr" and "tr_orders tr' = tr_orders tr"
    and "\<And>i. i \<noteq> ap_id p \<Longrightarrow> get_position tr' i = get_position tr i"
proof -
  have "p = merge_fill c (base_position c tr t) a b d e \<and> t' = t\<lparr>to_arb_position_id := Some (ap_id p)\<rparr> \<and>
      get_position tr' (ap_id p) = Some (p\<lparr>ap_updated_at := utcnow c\<rparr>) \<and>
      (\<forall>i. i \<noteq> to_id t \<longrightarrow> get_trigger tr' i = get_trigger tr i) \<and> get_trigger tr' (to_id t) \<noteq> None \<and>
      triggers_distinct tr' = triggers_distinct tr \<and>
      tr_world tr' = tr_world tr \<and> tr_legs tr' = tr_legs tr \<and> tr_orders tr' = tr_orders tr \<and>
      (\<forall>i. i \<noteq> ap_id p \<longrightarrow> get_position tr' i = get_position tr i)"
  proof (cases "arb_position_of tr t")
    case (Some q)
    then obtain i where i: "to_arb_position_id t = Some i" "get_position tr i = Some q"
      by (auto simp: arb_position_of_def split: option.splits)
    then have "ap_id q = i" by (simp add: get_position_id)
    moreover have "t\<lparr>to_arb_position_id := Some i\<rparr> = t" using i(1) by simp
    ultimately show ?thesis
      using assms i Some by (auto simp: accumulate_position_def base_position_def Let_def get_put_position)
  next
    case None
    then show ?thesis
      using assms by (auto simp: accumulate_position_def base_position_def Let_def get_put_position get_put_trigger
          get_added_position)
  qed
  then show "p = merge_fill c (base_position c tr t) a b d e" "t' = t\<lparr>to_arb_position_id := Some (ap_id p)\<rparr>"
    "get_position tr' (ap_id p) = Some (p\<lparr>ap_updated_at := utcnow c\<rparr>)"
    "\<And>i. i \<noteq> to_id t \<Longrightarrow> get_trigger tr' i = get_trigger tr i" "get_trigger tr' (to_id t) \<noteq> None"
    "triggers_distinct tr' = triggers_distinct tr"
    "tr_world tr' = tr_world tr" "tr_legs tr' = tr_legs tr" "tr_orders tr' = tr_orders tr"
    "\<And>i. i \<noteq> ap_id p \<Longrightarrow> get_position tr' i = get_position tr i"
    by auto
qed

section \<open>One portion after the other\<close>

text \<open>The part of a trigger that firing never changes.\<close>

definition core :: "trigger \<Rightarrow> trigger" where
  "core t = t\<lparr>to_arb_position_id := None, to_portions_filled := 0, to_status := T_Pending,
     to_last_fired_at := None, to_error_kind := None, to_error_message := None, to_updated_at := 0\<rparr>"

lemma core_fields:
  assumes "core t = core t'"
  shows "to_id t = to_id t'" "to_kind t = to_kind t'" "to_user_id t = to_user_id t'"
    "to_trigger_spread_pct t = to_trigger_spread_pct t'"
    "to_long_exchange t = to_long_exchange t'" "to_long_symbol t = to_long_symbol t'"
    "to_short_exchange t = to_short_exchange t'" "to_short_symbol t = to_short_symbol t'"
    "to_long_wallet_id t = to_long_wallet_id t'" "to_short_wallet_id t = to_short_wallet_id t'"
    "to_total_qty_token t = to_total_qty_token t'" "to_portion_size_token t = to_portion_size_token t'"
    "to_portions_target t = to_portions_target t'" "to_infinite_fill t = to_infinite_fill t'"
    "to_leverage t = to_leverage t'" "to_margin_mode t = to_margin_mode t'"
  using assms by (cases t; cases t'; simp add: core_def)+

lemma watched_open: "to_kind t = K_Open \<Longrightarrow> watched tr t =
  (case portion_qty t of
     None \<Rightarrow> None
   | Some qty \<Rightarrow>
       if qty \<le> 0 \<or> text_or_empty (to_long_exchange t) = [] \<or> text_or_empty (to_short_exchange t) = [] then None
       else Some (\<lparr>pr_long_exchange = text_or_empty (to_long_exchange t), pr_long_symbol = text_or_empty (to_long_symbol t),
         pr_short_exchange = text_or_empty (to_short_exchange t), pr_short_symbol = text_or_empty (to_short_symbol t)\<rparr>, qty))"
  by (simp add: watched_def Let_def split: option.split)

lemma due_core:
  assumes "core t = core t'" and "to_kind t = K_Open"
  shows "due now b tr t = due now b tr' t'"
proof -
  note eqs = core_fields [OF assms(1)]
  have k: "to_kind t' = K_Open" using assms(2) eqs(2) by simp
  have "watched tr t = watched tr' t'"
    unfolding watched_open [OF assms(2)] watched_open [OF k] portion_qty_def eqs ..
  then have sp: "spread_for now b tr t = spread_for now b tr' t'"
    unfolding spread_for_def assms(2) k by simp
  have cm: "condition_met t = condition_met t'"
    by (rule ext) (unfold condition_met_def eqs, rule refl)
  show ?thesis unfolding due_def sp cm ..
qed

lemma core_ops [simp]:
  "core (t\<lparr>to_status := st\<rparr>) = core t" "core (t\<lparr>to_updated_at := u\<rparr>) = core t"
  "core (t\<lparr>to_arb_position_id := a\<rparr>) = core t" "core (t\<lparr>to_portions_filled := n\<rparr>) = core t"
  "core (t\<lparr>to_last_fired_at := l\<rparr>) = core t"
  by (simp_all add: core_def)

lemma tick_order_due:
  assumes "triggers_distinct tr" and "get_trigger tr i = Some t" and "to_status t = T_Pending" and "due now b tr t"
  shows "tick_order c now b v tr i =
    execute_portion c (v i) (t\<lparr>to_status := T_Firing, to_updated_at := utcnow c\<rparr>)
      (set_status_where c T_Firing (\<lambda>t. to_id t = i \<and> to_status t = T_Pending) tr)"
  using assms get_trigger_id [OF assms(2)]
  by (simp add: tick_order_def claim_won get_set_status_where)

text \<open>The two replies to a portion, and how much of either leg the trigger's position holds.\<close>

definition leg_replies :: "venue \<Rightarrow> trigger \<Rightarrow> wallet \<Rightarrow> wallet \<Rightarrow> leg_reply \<times> leg_reply" where
  "leg_replies v t long_w short_w =
     (let (l, s) = open_requests t long_w short_w (or_else (portion_qty t) 0) in (vn_open v l, vn_open v s))"

definition held :: "trading \<Rightarrow> trigger \<Rightarrow> rat \<times> rat" where
  "held tr t = (case arb_position_of tr t of None \<Rightarrow> (0, 0) | Some p \<Rightarrow> (ap_long_qty p, ap_short_qty p))"

lemma leg_replies_core: "core t = core t' \<Longrightarrow> leg_replies v t a b = leg_replies v t' a b"
  unfolding leg_replies_def open_requests_def portion_qty_def by (simp only: core_fields [of t t'])

lemma base_held: "ap_long_qty (base_position c tr t) = fst (held tr t)" "ap_short_qty (base_position c tr t) = snd (held tr t)"
  by (auto simp: base_position_def held_def position_for_def new_arb_position_def split: option.split)+

lemma merge_fill_qty: "ap_long_qty (merge_fill c p a b d e) = ap_long_qty p + b"
    "ap_short_qty (merge_fill c p a b d e) = ap_short_qty p + e" "ap_status (merge_fill c p a b d e) = AP_Open"
  by (simp_all add: merge_fill_def Let_def)

lemma portion_done_spec:
  assumes "get_trigger tr (to_id t) \<noteq> None"
  shows "\<exists>u. get_trigger (portion_done c t tr) (to_id t) = Some u \<and> core u = core t \<and>
      to_portions_filled u = to_portions_filled t + 1 \<and>
      to_status u = after_portion (t\<lparr>to_portions_filled := to_portions_filled t + 1\<rparr>) \<and>
      to_arb_position_id u = to_arb_position_id t"
    and "triggers_distinct (portion_done c t tr) = triggers_distinct tr"
    and "tr_world (portion_done c t tr) = tr_world tr"
    and "get_position (portion_done c t tr) j = get_position tr j"
  using assms by (auto simp: portion_done_def Let_def get_put_trigger get_set_status_where after_portion_def)

lemma open_portion_fills:
  assumes w: "wallet_of tr (to_long_wallet_id t) = Some lw" "wallet_of tr (to_short_wallet_id t) = Some sw"
    and q: "portion_qty t = Some q" "q \<noteq> 0" and r: "leg_replies v t lw sw = (l, s)" "is_fill l" "is_fill s"
    and t: "get_trigger tr (to_id t) \<noteq> None"
  shows "\<exists>u p. get_trigger (execute_open_portion c v t tr) (to_id t) = Some u \<and> core u = core t \<and>
      to_portions_filled u = to_portions_filled t + 1 \<and>
      to_status u = after_portion (t\<lparr>to_portions_filled := to_portions_filled t + 1\<rparr>) \<and>
      arb_position_of (execute_open_portion c v t tr) u = Some p \<and> ap_status p = AP_Open \<and>
      held (execute_open_portion c v t tr) u = (fst (held tr t) + filled_qty l q, snd (held tr t) + filled_qty s q)"
    and "triggers_distinct (execute_open_portion c v t tr) = triggers_distinct tr"
    and "tr_world (execute_open_portion c v t tr) = tr_world tr"
proof -
  obtain p t1 tr1 where acc: "accumulate_position c tr t (fill_price l) (filled_qty l q) (fill_price s) (filled_qty s q) = (p, t1, tr1)"
    by (metis prod_cases3)
  note a = accumulate_spec [OF acc t]
  have ex: "execute_open_portion c v t tr = portion_done c t1 tr1"
    using w q r acc by (auto simp: execute_open_portion_def leg_replies_def split: prod.splits)
  have id: "to_id t1 = to_id t" by (simp add: a(2))
  have tp: "to_arb_position_id t1 = Some (ap_id p)" by (simp add: a(2))
  have pd: "get_trigger tr1 (to_id t1) \<noteq> None" using a(5) by (simp add: id)
  note d = portion_done_spec [OF pd]
  obtain u where u: "get_trigger (portion_done c t1 tr1) (to_id t1) = Some u" "core u = core t1"
      "to_portions_filled u = to_portions_filled t1 + 1"
      "to_status u = after_portion (t1\<lparr>to_portions_filled := to_portions_filled t1 + 1\<rparr>)"
      "to_arb_position_id u = to_arb_position_id t1"
    using d(1) by blast
  have pos: "arb_position_of (portion_done c t1 tr1) u = Some (p\<lparr>ap_updated_at := utcnow c\<rparr>)"
    by (simp add: arb_position_of_def u(5) tp d(4) a(3))
  have "held (portion_done c t1 tr1) u = (fst (held tr t) + filled_qty l q, snd (held tr t) + filled_qty s q)"
    using pos by (simp add: held_def [of "portion_done c t1 tr1"] a(1) merge_fill_qty base_held)
  then show "\<exists>u p. get_trigger (execute_open_portion c v t tr) (to_id t) = Some u \<and> core u = core t \<and>
      to_portions_filled u = to_portions_filled t + 1 \<and>
      to_status u = after_portion (t\<lparr>to_portions_filled := to_portions_filled t + 1\<rparr>) \<and>
      arb_position_of (execute_open_portion c v t tr) u = Some p \<and> ap_status p = AP_Open \<and>
      held (execute_open_portion c v t tr) u = (fst (held tr t) + filled_qty l q, snd (held tr t) + filled_qty s q)"
    unfolding ex using u pos by (auto simp: a(1,2) merge_fill_qty after_portion_def)
  show "triggers_distinct (execute_open_portion c v t tr) = triggers_distinct tr"
    and "tr_world (execute_open_portion c v t tr) = tr_world tr"
    unfolding ex using d(2,3) a(6,7) by simp_all
qed

text \<open>
  A round is one pass of the loop over the order: the clock, the time the books are read, the
  books, and what the venues answer. It fills when the condition holds and both legs do.
\<close>

type_synonym round = "clock \<times> rat \<times> books \<times> venue"

definition round_fills :: "trading \<Rightarrow> trigger \<Rightarrow> wallet \<Rightarrow> wallet \<Rightarrow> round \<Rightarrow> bool" where
  "round_fills tr t lw sw = (\<lambda>(c, now, b, v).
     due now b tr t \<and> is_fill (fst (leg_replies v t lw sw)) \<and> is_fill (snd (leg_replies v t lw sw)))"

definition round_step :: "int \<Rightarrow> trading \<Rightarrow> round \<Rightarrow> trading" where
  "round_step i tr = (\<lambda>(c, now, b, v). tick_order c now b (\<lambda>_. v) tr i)"

definition round_qty :: "trigger \<Rightarrow> wallet \<Rightarrow> wallet \<Rightarrow> round \<Rightarrow> rat \<times> rat" where
  "round_qty t lw sw = (\<lambda>(c, now, b, v).
     (filled_qty (fst (leg_replies v t lw sw)) (or_else (portion_qty t) 0),
      filled_qty (snd (leg_replies v t lw sw)) (or_else (portion_qty t) 0)))"

lemma round_one:
  assumes "triggers_distinct tr" and "get_trigger tr i = Some t" and "to_status t = T_Pending" and "to_kind t = K_Open"
    and "wallet_of tr (to_long_wallet_id t) = Some lw" and "wallet_of tr (to_short_wallet_id t) = Some sw"
    and "round_fills tr t lw sw r"
  shows "\<exists>u p. get_trigger (round_step i tr r) i = Some u \<and> core u = core t \<and>
      to_portions_filled u = to_portions_filled t + 1 \<and>
      to_status u = after_portion (t\<lparr>to_portions_filled := to_portions_filled t + 1\<rparr>) \<and>
      arb_position_of (round_step i tr r) u = Some p \<and> ap_status p = AP_Open \<and>
      held (round_step i tr r) u = (fst (held tr t) + fst (round_qty t lw sw r), snd (held tr t) + snd (round_qty t lw sw r))"
    and "triggers_distinct (round_step i tr r)" and "tr_world (round_step i tr r) = tr_world tr"
proof -
  obtain c now b v where r: "r = (c, now, b, v)" by (metis prod_cases4)
  define t0 where "t0 = t\<lparr>to_status := T_Firing, to_updated_at := utcnow c\<rparr>"
  define tr0 where "tr0 = set_status_where c T_Firing (\<lambda>t. to_id t = i \<and> to_status t = T_Pending) tr"
  have due: "due now b tr t" and f: "is_fill (fst (leg_replies v t lw sw))" "is_fill (snd (leg_replies v t lw sw))"
    using assms(7) by (simp_all add: round_fills_def r)
  have id: "to_id t0 = i" using get_trigger_id [OF assms(2)] by (simp add: t0_def)
  have step: "round_step i tr r = execute_open_portion c v t0 tr0"
    using tick_order_due [OF assms(1-3) due] assms(4) by (simp add: round_step_def r t0_def tr0_def execute_portion_def)
  obtain q where q: "portion_qty t = Some q" "0 < q"
    using due assms(4) by (auto simp: due_def spread_for_def watched_open split: option.splits if_splits)
  have core: "core t0 = core t" by (simp add: t0_def)
  have rep: "leg_replies v t0 lw sw = (fst (leg_replies v t lw sw), snd (leg_replies v t lw sw))"
    by (simp add: leg_replies_core [OF core])
  have same: "wallet_of tr0 = wallet_of tr" "held tr0 t0 = held tr t" "portion_qty t0 = portion_qty t"
    by (auto simp: wallet_of_def tr0_def held_def arb_position_of_def t0_def portion_qty_def fun_eq_iff split: option.splits)
  have g: "get_trigger tr0 (to_id t0) \<noteq> None" unfolding id using assms(2) by (simp add: tr0_def get_set_status_where)
  have w: "wallet_of tr0 (to_long_wallet_id t0) = Some lw" "wallet_of tr0 (to_short_wallet_id t0) = Some sw"
    using assms(5,6) by (simp_all add: same(1) t0_def)
  have q0: "portion_qty t0 = Some q" "q \<noteq> 0" using q same(3) by auto
  note x = open_portion_fills [OF w q0 rep f g, of c, unfolded id core same(2)]
  have "round_qty t lw sw r = (filled_qty (fst (leg_replies v t lw sw)) q, filled_qty (snd (leg_replies v t lw sw)) q)"
    using q by (simp add: round_qty_def r)
  moreover have "to_portions_filled t0 = to_portions_filled t"
      "after_portion (t0\<lparr>to_portions_filled := n\<rparr>) = after_portion (t\<lparr>to_portions_filled := n\<rparr>)" for n
    by (simp_all add: t0_def after_portion_def)
  ultimately show "\<exists>u p. get_trigger (round_step i tr r) i = Some u \<and> core u = core t \<and>
      to_portions_filled u = to_portions_filled t + 1 \<and>
      to_status u = after_portion (t\<lparr>to_portions_filled := to_portions_filled t + 1\<rparr>) \<and>
      arb_position_of (round_step i tr r) u = Some p \<and> ap_status p = AP_Open \<and>
      held (round_step i tr r) u = (fst (held tr t) + fst (round_qty t lw sw r), snd (held tr t) + snd (round_qty t lw sw r))"
    using x(1) unfolding step by simp
  show "triggers_distinct (round_step i tr r)" "tr_world (round_step i tr r) = tr_world tr"
    using x(2,3) assms(1) by (simp_all add: step tr0_def)
qed

lemma rounds_fill:
  assumes "triggers_distinct tr" and "get_trigger tr i = Some t" and "to_status t = T_Pending" and "to_kind t = K_Open"
    and "wallet_of tr (to_long_wallet_id t) = Some lw" and "wallet_of tr (to_short_wallet_id t) = Some sw"
    and "\<not> to_infinite_fill t" and "to_portions_target t = Some n" and "n \<noteq> 0" and "rs \<noteq> []"
    and "to_portions_filled t + int (length rs) \<le> n" and "list_all (round_fills tr t lw sw) rs"
  shows "\<exists>u p. get_trigger (foldl (round_step i) tr rs) i = Some u \<and>
      to_portions_filled u = to_portions_filled t + int (length rs) \<and>
      to_status u = (if to_portions_filled u = n then T_Fired else T_Pending) \<and>
      arb_position_of (foldl (round_step i) tr rs) u = Some p \<and> ap_status p = AP_Open \<and>
      held (foldl (round_step i) tr rs) u =
        (fst (held tr t) + sum_list (map (\<lambda>r. fst (round_qty t lw sw r)) rs),
         snd (held tr t) + sum_list (map (\<lambda>r. snd (round_qty t lw sw r)) rs))"
  using assms
proof (induction rs arbitrary: tr t)
  case (Cons r rs)
  have rf: "round_fills tr t lw sw r" and rest: "list_all (round_fills tr t lw sw) rs" using Cons.prems(12) by simp_all
  note one = round_one [OF Cons.prems(1-6) rf]
  define tr1 where "tr1 = round_step i tr r"
  obtain u p where u: "get_trigger tr1 i = Some u" "core u = core t" "to_portions_filled u = to_portions_filled t + 1"
      "to_status u = after_portion (t\<lparr>to_portions_filled := to_portions_filled t + 1\<rparr>)"
      "arb_position_of tr1 u = Some p" "ap_status p = AP_Open"
      "held tr1 u = (fst (held tr t) + fst (round_qty t lw sw r), snd (held tr t) + snd (round_qty t lw sw r))"
    using one(1) unfolding tr1_def by blast
  have st: "to_status u = (if to_portions_filled u = n then T_Fired else T_Pending)"
    using Cons.prems(7-9,11) u(3,4) by (auto simp: after_portion_def)
  show ?case
  proof (cases "rs = []")
    case True
    then show ?thesis using u st by (auto simp: tr1_def [symmetric])
  next
    case False
    note cf = core_fields [OF u(2)]
    have less: "to_portions_filled u < n" using False Cons.prems(11) u(3) by (cases rs) auto
    have fills: "list_all (round_fills tr1 u lw sw) rs"
      using rest Cons.prems(4) by (auto simp: list_all_iff round_fills_def leg_replies_core [OF u(2)]
          due_core [OF u(2), of _ _ tr1 tr] cf(2))
    have w: "wallet_of tr1 = wallet_of tr" using one(3) by (simp add: wallet_of_def tr1_def fun_eq_iff split: option.split)
    have q: "round_qty u lw sw = round_qty t lw sw"
      unfolding round_qty_def leg_replies_core [OF u(2)] portion_qty_def cf ..
    have "\<exists>u' p. get_trigger (foldl (round_step i) tr1 rs) i = Some u' \<and>
      to_portions_filled u' = to_portions_filled u + int (length rs) \<and>
      to_status u' = (if to_portions_filled u' = n then T_Fired else T_Pending) \<and>
      arb_position_of (foldl (round_step i) tr1 rs) u' = Some p \<and> ap_status p = AP_Open \<and>
      held (foldl (round_step i) tr1 rs) u' =
        (fst (held tr1 u) + sum_list (map (\<lambda>r. fst (round_qty u lw sw r)) rs),
         snd (held tr1 u) + sum_list (map (\<lambda>r. snd (round_qty u lw sw r)) rs))"
    proof (rule Cons.IH [OF _ u(1) _ _ _ _ _ _ Cons.prems(9) False])
      show "triggers_distinct tr1" using one(2) by (simp add: tr1_def)
      show "to_status u = T_Pending" using st less by simp
      show "wallet_of tr1 (to_long_wallet_id u) = Some lw" "wallet_of tr1 (to_short_wallet_id u) = Some sw"
        "to_kind u = K_Open" "\<not> to_infinite_fill u" "to_portions_target u = Some n"
        using Cons.prems(4-8) cf w by simp_all
      show "to_portions_filled u + int (length rs) \<le> n" using Cons.prems(11) u(3) by simp
      show "list_all (round_fills tr1 u lw sw) rs" by (rule fills)
    qed
    then show ?thesis using u(3,7) by (simp add: tr1_def [symmetric] q add.assoc)
  qed
qed simp

end
