(* ===== verification/Arb_Orders.thy ===== *)
theory Arb_Orders
  imports Triggers Plans
begin

text \<open>
  The routes of the trading panel, \<^verbatim>\<open>backend/api/v1/arb_orders.py\<close>: creating, editing and
  cancelling trigger orders, attaching take-profit and stop-loss orders to a position, and
  the money set aside for waiting orders, \<^verbatim>\<open>_pending_open_trigger_reservations\<close> of
  \<^verbatim>\<open>backend/services/trade_service.py\<close>. The price list, the books file, the cached
  balances and the venues' pre-flight checks are arguments.
\<close>

section \<open>Requests\<close>

record tp_sl_spec =
  ts_trigger_spread_pct :: rat
  ts_portion_size_token :: "rat option"

datatype create_kind = C_Open | C_Close

record arb_order_create =
  ac_kind :: create_kind
  ac_pair_kind :: pair_kind
  ac_long_exchange :: string
  ac_long_symbol :: string
  ac_long_wallet_id :: int
  ac_short_exchange :: string
  ac_short_symbol :: string
  ac_short_wallet_id :: int
  ac_trigger_spread_pct :: "rat option"
  ac_total_qty_token :: rat
  ac_portion_size_token :: "rat option"
  ac_infinite_fill :: bool
  ac_activate_at :: "time option"
  ac_leverage :: int
  ac_margin_mode :: string
  ac_reduce_only :: bool
  ac_tp :: "tp_sl_spec option"
  ac_sl :: "tp_sl_spec option"
  ac_force :: bool
  ac_arb_position_id :: "int option"

fun order_kind_of :: "create_kind \<Rightarrow> order_kind" where
  "order_kind_of C_Open = K_Open"
| "order_kind_of C_Close = K_Close"

text \<open>The field constraints and the model validator: a body that fails them is answered 422.\<close>

definition spec_ok :: "tp_sl_spec option \<Rightarrow> bool" where
  "spec_ok s = (case s of None \<Rightarrow> True | Some x \<Rightarrow> (case ts_portion_size_token x of None \<Rightarrow> True | Some q \<Rightarrow> 0 \<le> q))"

definition body_ok :: "arb_order_create \<Rightarrow> bool" where
  "body_ok b \<longleftrightarrow>
     0 < ac_total_qty_token b \<and>
     (case ac_portion_size_token b of None \<Rightarrow> True | Some q \<Rightarrow> 0 < q) \<and>
     1 \<le> ac_leverage b \<and> ac_leverage b \<le> 125 \<and>
     ac_margin_mode b \<in> {''isolated'', ''cross''} \<and> spec_ok (ac_tp b) \<and> spec_ok (ac_sl b) \<and>
     (ac_infinite_fill b \<longrightarrow> truthy (ac_portion_size_token b)) \<and>
     (case ac_portion_size_token b of None \<Rightarrow> True | Some q \<Rightarrow> q \<noteq> 0 \<longrightarrow> q \<le> ac_total_qty_token b) \<and>
     (ac_kind b = C_Close \<longrightarrow> ac_arb_position_id b \<noteq> None) \<and>
     (ac_tp b \<noteq> None \<longrightarrow> ac_kind b = C_Open) \<and> (ac_sl b \<noteq> None \<longrightarrow> ac_kind b = C_Open)"

section \<open>What the routes consult\<close>

datatype preflight = No_Preflight | Preflight_Ok | Preflight_Refused string

record panel_env =
  pe_books :: "books option"
  pe_now :: rat
  pe_marks :: "string \<Rightarrow> rat option"
  pe_balances :: "(int \<times> rat option) list option"
  pe_preflight :: "string \<Rightarrow> string \<Rightarrow> rat \<Rightarrow> int \<Rightarrow> preflight"

datatype trade_error =
    Invalid_Body
  | Wallet_Not_Owned int
  | No_Such_User
  | Limits_Unavailable
  | Trigger_Limit int int
  | Insufficient_Balance string int rat rat rat
  | Qty_Rejected string string string rat string
  | Child_Exists order_kind
  | Not_Found
  | Not_Editable
  | Not_Attachable
  | Nothing_To_Attach
  | Integrity_Error

definition active :: "trigger \<Rightarrow> bool" where
  "active t \<longleftrightarrow> to_status t \<in> {T_Pending, T_Firing, T_Scheduled}"

definition owned_wallets :: "world \<Rightarrow> int \<Rightarrow> int list" where
  "owned_wallets w uid = map w_id (filter (\<lambda>x. w_user_id x = Some uid) (wallets w))"

definition verify_user_owns_wallets :: "world \<Rightarrow> int \<Rightarrow> int list \<Rightarrow> trade_error + unit" where
  "verify_user_owns_wallets w uid ids =
     (case find (\<lambda>i. i \<notin> set (owned_wallets w uid)) ids of
        Some i \<Rightarrow> Inl (Wallet_Not_Owned i)
      | None \<Rightarrow> Inr ())"

definition portions_target_of :: "rat option \<Rightarrow> rat option \<Rightarrow> int option" where
  "portions_target_of amount portion =
     (if \<not> truthy amount \<or> \<not> truthy portion \<or> the portion \<le> 0
      then (if truthy amount then Some 1 else None)
      else Some (max 1 \<lceil>the amount / the portion\<rceil>))"

text \<open>
  The cap on active triggers. The limits have no \<open>features\<close>, so the number always follows
  from the trade delay.
\<close>

definition trigger_cap :: "limit_set \<Rightarrow> int" where
  "trigger_cap l = (if el_trade_delay_ms l = 0 then 50 else 3)"

definition active_count :: "trading \<Rightarrow> int \<Rightarrow> int" where
  "active_count tr uid = count_over (\<lambda>t. to_user_id t = uid \<and> active t) (tr_triggers tr)"

definition enforce_trigger_limit :: "clock \<Rightarrow> trading \<Rightarrow> int \<Rightarrow> (trade_error + unit) \<times> trading" where
  "enforce_trigger_limit c tr uid =
     (case row_get u_id (users (tr_world tr)) uid of
        None \<Rightarrow> (Inl No_Such_User, tr)
      | Some u \<Rightarrow>
          (case effective_limits c (tr_world tr) u of
             (Inl _, w) \<Rightarrow> (Inl Limits_Unavailable, tr\<lparr>tr_world := w\<rparr>)
           | (Inr l, w) \<Rightarrow>
               (if trigger_cap l \<le> active_count tr uid then Inl (Trigger_Limit (active_count tr uid) (trigger_cap l))
                else Inr (), tr\<lparr>tr_world := w\<rparr>)))"

section \<open>Reservations\<close>

definition price_or_zero :: "rat option \<Rightarrow> rat" where
  "price_or_zero p = (case p of Some x \<Rightarrow> x | None \<Rightarrow> 0)"

definition top_of :: "levels option \<Rightarrow> rat" where
  "top_of ls = (case side ls of [] \<Rightarrow> 0 | (px, _) # _ \<Rightarrow> px)"

definition book_mid :: "books option \<Rightarrow> string \<Rightarrow> string \<Rightarrow> rat" where
  "book_mid books ex symbol =
     (case (case books of None \<Rightarrow> None | Some b \<Rightarrow> b (lower ex @ '':'' @ upper symbol)) of
        Some (Book b) \<Rightarrow>
          let bid = top_of (ob_bids b); ask = top_of (ob_asks b)
          in if 0 < bid \<and> 0 < ask then (bid + ask) / 2 else if bid \<noteq> 0 then bid else ask
      | _ \<Rightarrow> 0)"

definition mark_of :: "panel_env \<Rightarrow> trigger \<Rightarrow> rat" where
  "mark_of e t =
     (let symbol = upper (text_or_empty (to_long_symbol t)); m0 = price_or_zero (pe_marks e symbol);
          m1 = (if m0 \<le> 0 \<and> text_or_empty (to_long_exchange t) \<noteq> []
                then book_mid (pe_books e) (text_or_empty (to_long_exchange t)) symbol else m0)
      in if m1 \<le> 0 \<and> text_or_empty (to_short_exchange t) \<noteq> []
         then book_mid (pe_books e) (text_or_empty (to_short_exchange t)) symbol else m1)"

definition qty_remaining :: "trigger \<Rightarrow> rat" where
  "qty_remaining t =
     (let target = or_else (to_portions_target t) 1; done = to_portions_filled t in
      if to_infinite_fill t then or_else (portion_qty t) 0
      else if truthy (to_portion_size_token t)
      then the (to_portion_size_token t) * of_int (max 0 (target - done))
      else if done < target then or_else (to_total_qty_token t) 0 else 0)"

definition order_leverage :: "trigger \<Rightarrow> rat" where
  "order_leverage t = of_int (max 1 (or_else (to_leverage t) 1))"

definition is_spot_short :: "trading \<Rightarrow> trigger \<Rightarrow> bool" where
  "is_spot_short tr t = (case arb_position_of tr t of Some p \<Rightarrow> ap_kind p = Spot_Short | None \<Rightarrow> False)"

text \<open>What one order sets aside in a wallet.\<close>

definition reserved_by :: "panel_env \<Rightarrow> trading \<Rightarrow> trigger \<Rightarrow> int \<Rightarrow> rat" where
  "reserved_by e tr t wid =
     (if qty_remaining t \<le> 0 \<or> mark_of e t \<le> 0 then 0
      else let notional = qty_remaining t * mark_of e t in
        (if truthy (to_long_wallet_id t) \<and> to_long_wallet_id t = Some wid
         then notional / (if is_spot_short tr t then 1 else order_leverage t) else 0) +
        (if truthy (to_short_wallet_id t) \<and> to_short_wallet_id t = Some wid
         then notional / order_leverage t else 0))"

definition pending_open_trigger_reservations :: "panel_env \<Rightarrow> trading \<Rightarrow> int \<Rightarrow> int \<Rightarrow> rat" where
  "pending_open_trigger_reservations e tr uid wid =
     sum_over (\<lambda>t. to_user_id t = uid \<and> to_kind t = K_Open \<and> active t) (\<lambda>t. reserved_by e tr t wid) (tr_triggers tr)"

text \<open>Rows of the cached balances by wallet: of rows with the same wallet the last one counts.\<close>

definition cached_balance :: "(int \<times> rat option) list \<Rightarrow> int \<Rightarrow> rat option" where
  "cached_balance rows wid = (case map_of (rev rows) wid of Some b \<Rightarrow> b | None \<Rightarrow> None)"

definition leg_affordable ::
  "panel_env \<Rightarrow> trading \<Rightarrow> int \<Rightarrow> (int \<times> rat option) list \<Rightarrow> string \<Rightarrow> int \<Rightarrow> rat \<Rightarrow> trade_error + unit" where
  "leg_affordable e tr uid rows leg wid req =
     (case cached_balance rows wid of
        None \<Rightarrow> Inr ()
      | Some bal \<Rightarrow>
          let reserved = pending_open_trigger_reservations e tr uid wid; avail = max 0 (bal - reserved)
          in guard_res (Insufficient_Balance leg wid (round_places 2 reserved) (round_places 2 avail) (round_places 2 req))
               (req \<le> avail + 1 / 100))"

definition validate_balance_with_reservations ::
  "panel_env \<Rightarrow> trading \<Rightarrow> int \<Rightarrow> arb_order_create \<Rightarrow> trade_error + unit" where
  "validate_balance_with_reservations e tr uid b =
     (let mark = price_or_zero (pe_marks e (upper (ac_long_symbol b))) in
      if mark \<le> 0 then Inr ()
      else let notional = ac_total_qty_token b * mark; leverage = of_int (max 1 (ac_leverage b));
               long_req = notional / (if ac_pair_kind b = Spot_Short then 1 else leverage);
               short_req = notional / leverage
           in case pe_balances e of
                None \<Rightarrow> Inr ()
              | Some rows \<Rightarrow>
                  bind_res (leg_affordable e tr uid rows ''long'' (ac_long_wallet_id b) long_req) (\<lambda>_.
                  leg_affordable e tr uid rows ''short'' (ac_short_wallet_id b) short_req))"

definition leg_quantity_ok ::
  "panel_env \<Rightarrow> string \<Rightarrow> string \<Rightarrow> string \<Rightarrow> rat \<Rightarrow> int \<Rightarrow> trade_error + unit" where
  "leg_quantity_ok e leg ex symbol qty leverage =
     (if ex = [] \<or> symbol = [] then Inr ()
      else case pe_preflight e (lower ex) symbol qty leverage of
        Preflight_Refused reason \<Rightarrow>
          Inl (Qty_Rejected leg (lower ex) symbol qty (if reason = [] then ''Pre-flight check failed'' else reason))
      | _ \<Rightarrow> Inr ())"

definition create_qty :: "arb_order_create \<Rightarrow> rat" where
  "create_qty b = or_else (ac_portion_size_token b) (ac_total_qty_token b)"

definition validate_min_qty_per_leg :: "panel_env \<Rightarrow> arb_order_create \<Rightarrow> rat \<Rightarrow> trade_error + unit" where
  "validate_min_qty_per_leg e b qty =
     bind_res (leg_quantity_ok e ''long'' (ac_long_exchange b) (ac_long_symbol b) qty (ac_leverage b)) (\<lambda>_.
     leg_quantity_ok e ''short'' (ac_short_exchange b) (ac_short_symbol b) qty (ac_leverage b))"

section \<open>Creating an order\<close>

text \<open>\<open>_current_effective_spread\<close>: the spread the new order is compared with, by its kind.\<close>

definition body_pair :: "arb_order_create \<Rightarrow> pair" where
  "body_pair b = \<lparr>pr_long_exchange = ac_long_exchange b, pr_long_symbol = ac_long_symbol b,
     pr_short_exchange = ac_short_exchange b, pr_short_symbol = ac_short_symbol b\<rparr>"

definition current_effective_spread :: "panel_env \<Rightarrow> arb_order_create \<Rightarrow> rat option" where
  "current_effective_spread e b =
     (case pe_books e of
        None \<Rightarrow> None
      | Some books \<Rightarrow>
          if ac_kind b = C_Open then compute_effective_spread (pe_now e) books (body_pair b) (create_qty b)
          else compute_exit_spread (pe_now e) books (body_pair b) (create_qty b))"

text \<open>Whether a threshold of a kind is already passed, by the condition the loop applies.\<close>

definition already_met :: "order_kind \<Rightarrow> rat \<Rightarrow> rat option \<Rightarrow> bool" where
  "already_met k threshold spread =
     (case spread of
        None \<Rightarrow> False
      | Some x \<Rightarrow> condition_met ((new_trigger 0 0 k 0)\<lparr>to_trigger_spread_pct := Some threshold\<rparr>) x)"

datatype create_reply =
    Immediate order_kind rat rat
  | Created int order_status "int list"

definition immediate_warning :: "panel_env \<Rightarrow> arb_order_create \<Rightarrow> create_reply option" where
  "immediate_warning e b =
     (case (ac_force b, ac_trigger_spread_pct b) of
        (False, Some threshold) \<Rightarrow>
          let own = current_effective_spread e b; k = order_kind_of (ac_kind b);
              exit_sp = (case pe_books e of None \<Rightarrow> None
                         | Some books \<Rightarrow> compute_exit_spread (pe_now e) books (body_pair b) (create_qty b));
              met = (\<lambda>k s. case s of None \<Rightarrow> False | Some x \<Rightarrow> already_met k (ts_trigger_spread_pct x) exit_sp)
          in if already_met k threshold own then Some (Immediate k (round_places 4 (the own)) threshold)
             else if met K_Tp (ac_tp b)
             then Some (Immediate K_Tp (round_places 4 (the exit_sp)) (ts_trigger_spread_pct (the (ac_tp b))))
             else if met K_Sl (ac_sl b)
             then Some (Immediate K_Sl (round_places 4 (the exit_sp)) (ts_trigger_spread_pct (the (ac_sl b))))
             else None
      | _ \<Rightarrow> None)"

definition initial_status :: "clock \<Rightarrow> time option \<Rightarrow> order_status" where
  "initial_status c activate = (case activate of Some x \<Rightarrow> if utcnow c < x then T_Scheduled else T_Pending | None \<Rightarrow> T_Pending)"

definition order_row :: "clock \<Rightarrow> int \<Rightarrow> int \<Rightarrow> arb_order_create \<Rightarrow> trigger" where
  "order_row c i uid b = (new_trigger i uid (order_kind_of (ac_kind b)) (utcnow c))
     \<lparr>to_arb_position_id := ac_arb_position_id b, to_trigger_spread_pct := ac_trigger_spread_pct b,
      to_long_exchange := Some (ac_long_exchange b), to_long_symbol := Some (ac_long_symbol b),
      to_long_wallet_id := Some (ac_long_wallet_id b),
      to_short_exchange := Some (ac_short_exchange b), to_short_symbol := Some (ac_short_symbol b),
      to_short_wallet_id := Some (ac_short_wallet_id b),
      to_total_qty_token := Some (ac_total_qty_token b), to_portion_size_token := ac_portion_size_token b,
      to_portions_target := portions_target_of (Some (ac_total_qty_token b)) (ac_portion_size_token b),
      to_infinite_fill := ac_infinite_fill b, to_activate_at := ac_activate_at b,
      to_leverage := Some (ac_leverage b), to_margin_mode := ac_margin_mode b,
      to_reduce_only := (ac_reduce_only b \<or> ac_kind b = C_Close),
      to_status := initial_status c (ac_activate_at b)\<rparr>"

definition existing_child :: "trading \<Rightarrow> int option \<Rightarrow> order_kind \<Rightarrow> bool" where
  "existing_child tr pid k =
     (pid \<noteq> None \<and> list_ex (\<lambda>t. to_arb_position_id t = pid \<and> to_kind t = k \<and> active t) (tr_triggers tr))"

definition make_child :: "clock \<Rightarrow> int \<Rightarrow> trigger \<Rightarrow> order_kind \<Rightarrow> tp_sl_spec \<Rightarrow> trigger" where
  "make_child c i parent k spec = (new_trigger i (to_user_id parent) k (utcnow c))
     \<lparr>to_parent_trigger_id := Some (to_id parent), to_trigger_spread_pct := Some (ts_trigger_spread_pct spec),
      to_long_exchange := to_long_exchange parent, to_long_symbol := to_long_symbol parent,
      to_long_wallet_id := to_long_wallet_id parent,
      to_short_exchange := to_short_exchange parent, to_short_symbol := to_short_symbol parent,
      to_short_wallet_id := to_short_wallet_id parent,
      to_portion_size_token := ts_portion_size_token spec,
      to_leverage := to_leverage parent, to_margin_mode := to_margin_mode parent,
      to_reduce_only := True, to_status := T_Scheduled\<rparr>"

text \<open>Rows added one after the other, each with the next free key.\<close>

fun add_triggers :: "(int \<Rightarrow> trigger) list \<Rightarrow> trading \<Rightarrow> int list \<times> trading" where
  "add_triggers [] tr = ([], tr)"
| "add_triggers (f # fs) tr =
     (let i = row_fresh to_id (tr_triggers tr);
          (is, tr') = add_triggers fs (tr_triggers_update (\<lambda>ts. ts @ [f i]) tr)
      in (i # is, tr'))"

definition child_makers :: "(order_kind \<Rightarrow> tp_sl_spec \<Rightarrow> int \<Rightarrow> trigger) \<Rightarrow> tp_sl_spec option \<Rightarrow> tp_sl_spec option \<Rightarrow> (int \<Rightarrow> trigger) list" where
  "child_makers mk tp sl =
     (case tp of None \<Rightarrow> [] | Some x \<Rightarrow> [mk K_Tp x]) @ (case sl of None \<Rightarrow> [] | Some x \<Rightarrow> [mk K_Sl x])"

definition child_conflict :: "trading \<Rightarrow> int option \<Rightarrow> tp_sl_spec option \<Rightarrow> tp_sl_spec option \<Rightarrow> trade_error + unit" where
  "child_conflict tr pid tp sl =
     (if tp \<noteq> None \<and> existing_child tr pid K_Tp then Inl (Child_Exists K_Tp)
      else if sl \<noteq> None \<and> existing_child tr pid K_Sl then Inl (Child_Exists K_Sl)
      else Inr ())"

text \<open>
  \<open>insert_order\<close>: a position the request names must exist, by the foreign key; whose position
  it is is not checked.
\<close>

definition insert_order :: "clock \<Rightarrow> int \<Rightarrow> arb_order_create \<Rightarrow> trading \<Rightarrow> (trade_error + create_reply) \<times> trading" where
  "insert_order c uid b tr =
     (let i = row_fresh to_id (tr_triggers tr); t = order_row c i uid b;
          tr1 = tr_triggers_update (\<lambda>ts. ts @ [t]) tr
      in if (case ac_arb_position_id b of None \<Rightarrow> False | Some pid \<Rightarrow> get_position tr pid = None)
         then (Inl Integrity_Error, tr)
         else case child_conflict tr1 (ac_arb_position_id b) (ac_tp b) (ac_sl b) of
           Inl e \<Rightarrow> (Inl e, tr)
         | Inr _ \<Rightarrow>
             let (is, tr2) = add_triggers (child_makers (\<lambda>k x j. make_child c j t k x) (ac_tp b) (ac_sl b)) tr1
             in (Inr (Created i (to_status t) is), tr2))"

definition create_arb_order ::
  "panel_env \<Rightarrow> clock \<Rightarrow> int \<Rightarrow> arb_order_create \<Rightarrow> trading \<Rightarrow> (trade_error + create_reply) \<times> trading" where
  "create_arb_order e c uid b tr =
     (if \<not> body_ok b then (Inl Invalid_Body, tr)
      else case verify_user_owns_wallets (tr_world tr) uid [ac_long_wallet_id b, ac_short_wallet_id b] of
        Inl err \<Rightarrow> (Inl err, tr)
      | Inr _ \<Rightarrow>
          (case enforce_trigger_limit c tr uid of
             (Inl err, tr1) \<Rightarrow> (Inl err, tr1)
           | (Inr _, tr1) \<Rightarrow>
               (case (if ac_kind b = C_Open
                      then bind_res (validate_balance_with_reservations e tr1 uid b)
                             (\<lambda>_. validate_min_qty_per_leg e b (create_qty b))
                      else Inr ()) of
                  Inl err \<Rightarrow> (Inl err, tr1)
                | Inr _ \<Rightarrow>
                    (case immediate_warning e b of
                       Some w \<Rightarrow> (Inr w, tr1)
                     | None \<Rightarrow> insert_order c uid b tr1))))"

section \<open>Editing, cancelling, attaching\<close>

record arb_order_patch =
  pt_trigger_spread_pct :: "rat option"
  pt_total_qty_token :: "rat option"
  pt_portion_size_token :: "rat option"
  pt_infinite_fill :: "bool option"
  pt_activate_at :: "time option"
  pt_leverage :: "int option"
  pt_margin_mode :: "string option"
  pt_force :: bool

definition positive_or_none :: "rat option \<Rightarrow> bool" where
  "positive_or_none x = (case x of None \<Rightarrow> True | Some q \<Rightarrow> 0 < q)"

definition patch_ok :: "arb_order_patch \<Rightarrow> bool" where
  "patch_ok b \<longleftrightarrow> positive_or_none (pt_total_qty_token b) \<and> positive_or_none (pt_portion_size_token b) \<and>
     (case pt_leverage b of None \<Rightarrow> True | Some l \<Rightarrow> 1 \<le> l \<and> l \<le> 125) \<and>
     (case pt_margin_mode b of None \<Rightarrow> True | Some m \<Rightarrow> m \<in> {''isolated'', ''cross''})"

definition editable :: "trigger \<Rightarrow> bool" where
  "editable t \<longleftrightarrow> to_status t = T_Pending \<or> to_status t = T_Scheduled"

definition own_order :: "trading \<Rightarrow> int \<Rightarrow> int \<Rightarrow> trigger option" where
  "own_order tr uid i = (case get_trigger tr i of Some t \<Rightarrow> if to_user_id t = uid then Some t else None | None \<Rightarrow> None)"

definition patched :: "arb_order_patch \<Rightarrow> trigger \<Rightarrow> trigger" where
  "patched b t =
     (let set_opt = (\<lambda>new old. case new of None \<Rightarrow> old | Some x \<Rightarrow> Some x);
          t1 = t\<lparr>to_trigger_spread_pct := set_opt (pt_trigger_spread_pct b) (to_trigger_spread_pct t),
                 to_total_qty_token := set_opt (pt_total_qty_token b) (to_total_qty_token t),
                 to_portion_size_token := set_opt (pt_portion_size_token b) (to_portion_size_token t),
                 to_infinite_fill := (case pt_infinite_fill b of None \<Rightarrow> to_infinite_fill t | Some x \<Rightarrow> x),
                 to_activate_at := (case pt_activate_at b of None \<Rightarrow> to_activate_at t | Some x \<Rightarrow> Some x),
                 to_leverage := (case pt_leverage b of None \<Rightarrow> to_leverage t | Some x \<Rightarrow> Some x),
                 to_margin_mode := (case pt_margin_mode b of None \<Rightarrow> to_margin_mode t | Some x \<Rightarrow> x)\<rparr>
      in if pt_total_qty_token b \<noteq> None \<or> pt_portion_size_token b \<noteq> None
         then t1\<lparr>to_portions_target := portions_target_of (to_total_qty_token t1) (to_portion_size_token t1)\<rparr>
         else t1)"

definition patch_warning :: "panel_env \<Rightarrow> arb_order_patch \<Rightarrow> trigger \<Rightarrow> create_reply option" where
  "patch_warning e b t =
     (case (pt_force b, pt_trigger_spread_pct b, pe_books e) of
        (False, Some threshold, Some books) \<Rightarrow>
          let qty = or_opt (pt_portion_size_token b) (portion_qty t);
              pr = \<lparr>pr_long_exchange = text_or_empty (to_long_exchange t), pr_long_symbol = text_or_empty (to_long_symbol t),
                    pr_short_exchange = text_or_empty (to_short_exchange t), pr_short_symbol = text_or_empty (to_short_symbol t)\<rparr>;
              spread = (if \<not> truthy qty then None
                else if to_kind t = K_Open then compute_effective_spread (pe_now e) books pr (the qty)
                else compute_exit_spread (pe_now e) books pr (the qty))
          in if already_met (to_kind t) threshold spread
             then Some (Immediate (to_kind t) (round_places 4 (the spread)) threshold) else None
      | _ \<Rightarrow> None)"

definition patch_order ::
  "panel_env \<Rightarrow> clock \<Rightarrow> int \<Rightarrow> int \<Rightarrow> arb_order_patch \<Rightarrow> trading \<Rightarrow> (trade_error + create_reply) \<times> trading" where
  "patch_order e c uid i b tr =
     (if \<not> patch_ok b then (Inl Invalid_Body, tr)
      else case own_order tr uid i of
        None \<Rightarrow> (Inl Not_Found, tr)
      | Some t \<Rightarrow>
          if \<not> editable t then (Inl Not_Editable, tr)
          else (case patch_warning e b t of
            Some w \<Rightarrow> (Inr w, tr)
          | None \<Rightarrow> (Inr (Created i (to_status t) []), put_trigger c (patched b t) tr)))"

definition cancel_order :: "clock \<Rightarrow> int \<Rightarrow> int \<Rightarrow> trading \<Rightarrow> (trade_error + int) \<times> trading" where
  "cancel_order c uid i tr =
     (case own_order tr uid i of
        None \<Rightarrow> (Inl Not_Found, tr)
      | Some t \<Rightarrow>
          if \<not> editable t then (Inl Not_Editable, tr)
          else (Inr i, put_trigger c (t\<lparr>to_status := T_Cancelled\<rparr>)
                  (set_status_where c T_Cancelled (\<lambda>x. to_parent_trigger_id x = Some i) tr)))"

definition attach_child :: "clock \<Rightarrow> int \<Rightarrow> arb_position \<Rightarrow> order_kind \<Rightarrow> tp_sl_spec \<Rightarrow> trigger" where
  "attach_child c i p k spec = (new_trigger i (ap_user_id p) k (utcnow c))
     \<lparr>to_arb_position_id := Some (ap_id p), to_trigger_spread_pct := Some (ts_trigger_spread_pct spec),
      to_long_exchange := Some (ap_long_exchange p), to_long_symbol := Some (ap_long_symbol p),
      to_long_wallet_id := ap_long_wallet_id p,
      to_short_exchange := Some (ap_short_exchange p), to_short_symbol := Some (ap_short_symbol p),
      to_short_wallet_id := ap_short_wallet_id p,
      to_portion_size_token := ts_portion_size_token spec, to_leverage := ap_leverage p,
      to_margin_mode := (if ap_margin_mode p = [] then ''isolated'' else ap_margin_mode p),
      to_reduce_only := True, to_status := T_Pending\<rparr>"

definition attach_tp_sl ::
  "clock \<Rightarrow> int \<Rightarrow> int \<Rightarrow> tp_sl_spec option \<Rightarrow> tp_sl_spec option \<Rightarrow> trading \<Rightarrow> (trade_error + int list) \<times> trading" where
  "attach_tp_sl c uid pid tp sl tr =
     (if \<not> spec_ok tp \<or> \<not> spec_ok sl then (Inl Invalid_Body, tr)
      else case (case get_position tr pid of
                   Some p \<Rightarrow> if ap_user_id p = uid then Some p else None | None \<Rightarrow> None) of
        None \<Rightarrow> (Inl Not_Found, tr)
      | Some p \<Rightarrow>
          if \<not> closable p then (Inl Not_Attachable, tr)
          else if tp = None \<and> sl = None then (Inl Nothing_To_Attach, tr)
          else (case child_conflict tr (Some pid) tp sl of
                  Inl e \<Rightarrow> (Inl e, tr)
                | Inr _ \<Rightarrow>
                    let (is, tr1) = add_triggers (child_makers (\<lambda>k x j. attach_child c j p k x) tp sl) tr
                    in (Inr is, tr1)))"

definition list_active_orders :: "trading \<Rightarrow> int \<Rightarrow> trigger list" where
  "list_active_orders tr uid =
     rev (sort_key to_created_at (rev (filter (\<lambda>t. to_user_id t = uid \<and> active t) (tr_triggers tr))))"

definition list_history :: "trading \<Rightarrow> int \<Rightarrow> int \<Rightarrow> trigger list" where
  "list_history tr uid limit =
     take (nat (max 1 (min 200 limit)))
       (rev (sort_key to_updated_at (rev (filter (\<lambda>t. to_user_id t = uid \<and> \<not> active t) (tr_triggers tr)))))"

end
