(* ===== verification/Reconcile.thy ===== *)
theory Reconcile
  imports Triggers
begin

text \<open>
  Pairing execution legs (\<open>auto_pair_internal_legs\<close> of
  \<^verbatim>\<open>backend/services/trigger_order_service.py\<close>) and the reconciliation worker,
  \<^verbatim>\<open>backend/services/reconcile_service.py\<close>, which brings the trading tables in line with
  what the venues report. The live positions are an argument.
\<close>

section \<open>Pairing legs\<close>

definition leg_notional :: "trade_position \<Rightarrow> rat" where
  "leg_notional p = or_else (tp_leg_a_entry_price p) 0 * tp_leg_a_qty p"

definition symbol_pair_notional_tolerance :: rat where "symbol_pair_notional_tolerance = 12 / 100"
definition pair_time_window_s :: int where "pair_time_window_s = 600"

definition can_pair :: "trade_position \<Rightarrow> trade_position \<Rightarrow> bool" where
  "can_pair a b \<longleftrightarrow>
     tp_leg_a_side a \<noteq> tp_leg_a_side b \<and> tp_leg_a_exchange a \<noteq> tp_leg_a_exchange b \<and>
     0 < leg_notional a \<and> 0 < leg_notional b \<and>
     \<bar>leg_notional a - leg_notional b\<bar> / ((leg_notional a + leg_notional b) / 2) \<le> symbol_pair_notional_tolerance \<and>
     \<bar>tp_opened_at a - tp_opened_at b\<bar> \<le> seconds_us pair_time_window_s"

text \<open>The legs of one symbol: each takes the first later leg it fits that is still free.\<close>

function pair_group :: "trade_position list \<Rightarrow> (trade_position \<times> trade_position) list" where
  "pair_group [] = []"
| "pair_group (a # rest) =
     (case find (can_pair a) rest of
        None \<Rightarrow> pair_group rest
      | Some b \<Rightarrow> (a, b) # pair_group (filter (\<lambda>x. tp_id x \<noteq> tp_id b) rest))"
  by pat_completeness auto

termination
  by (relation "measure length") (auto simp: less_Suc_eq_le)

definition unwrapped :: "trading \<Rightarrow> int \<Rightarrow> trade_position list" where
  "unwrapped tr uid =
     filter (\<lambda>p. tp_user_id p = uid \<and> tp_arb_position_id p = None \<and> tp_status p = ''open'' \<and> tp_kind p = Single_Leg)
       (tr_legs tr)"

definition pairs_of :: "trade_position list \<Rightarrow> (trade_position \<times> trade_position) list" where
  "pairs_of ps =
     concat (map (\<lambda>s. pair_group (filter (\<lambda>p. upper (tp_symbol p) = s) ps))
       (first_seen (map (\<lambda>p. upper (tp_symbol p)) ps)))"

definition oriented :: "trade_position \<times> trade_position \<Rightarrow> trade_position \<times> trade_position" where
  "oriented ab = (if tp_leg_a_side (fst ab) = ''buy'' then ab else (snd ab, fst ab))"

definition paired_position :: "clock \<Rightarrow> int \<Rightarrow> int \<Rightarrow> trade_position \<Rightarrow> trade_position \<Rightarrow> arb_position" where
  "paired_position c i uid l s = (new_arb_position i uid (utcnow c))
     \<lparr>ap_long_exchange := tp_leg_a_exchange l, ap_long_symbol := tp_symbol l, ap_long_wallet_id := tp_leg_a_wallet_id l,
      ap_short_exchange := tp_leg_a_exchange s, ap_short_symbol := tp_symbol s, ap_short_wallet_id := tp_leg_a_wallet_id s,
      ap_long_entry_price := tp_leg_a_entry_price l, ap_short_entry_price := tp_leg_a_entry_price s,
      ap_long_qty := tp_leg_a_qty l, ap_short_qty := tp_leg_a_qty s,
      ap_opened_at := Some (min (tp_opened_at l) (tp_opened_at s)), ap_status := AP_Open,
      ap_entry_spread_pct := (case (tp_leg_a_entry_price l, tp_leg_a_entry_price s) of
          (Some x, Some y) \<Rightarrow> if 0 < x then Some ((y - x) / x * 100) else None
        | _ \<Rightarrow> None)\<rparr>"

definition wrap_pair :: "clock \<Rightarrow> int \<Rightarrow> trading \<Rightarrow> trade_position \<times> trade_position \<Rightarrow> trading" where
  "wrap_pair c uid tr ab =
     (let (l, s) = oriented ab; i = row_fresh ap_id (tr_positions tr)
      in tr\<lparr>tr_positions := tr_positions tr @ [paired_position c i uid l s],
            tr_legs := row_upd_where (\<lambda>p. tp_id p = tp_id l \<or> tp_id p = tp_id s)
                         (\<lambda>p. p\<lparr>tp_arb_position_id := Some i\<rparr>) (tr_legs tr)\<rparr>)"

definition auto_pair_internal_legs :: "clock \<Rightarrow> int \<Rightarrow> trading \<Rightarrow> trading" where
  "auto_pair_internal_legs c uid tr = foldl (wrap_pair c uid) tr (pairs_of (unwrapped tr uid))"

section \<open>Legs against live positions\<close>

text \<open>An entry of the venues' position lists, with the values the code reads.\<close>

record live_position =
  lv_wallet_id :: "int option"
  lv_exchange :: string
  lv_symbol :: string
  lv_side :: string
  lv_quantity :: "rat option"
  lv_entry_price :: "rat option"
  lv_funding_pnl_usd :: "rat option"

type_synonym fingerprint = "int \<times> string \<times> string"

definition fingerprint_of :: "live_position \<Rightarrow> fingerprint" where
  "fingerprint_of p = (or_else (lv_wallet_id p) 0, upper (lv_symbol p), lower (lv_side p))"

definition live_by_fp :: "live_position list \<Rightarrow> fingerprint \<Rightarrow> live_position option" where
  "live_by_fp live = map_of (rev (map (\<lambda>p. (fingerprint_of p, p)) (filter (\<lambda>p. fst (fingerprint_of p) \<noteq> 0) live)))"

definition leg_fp :: "trade_position \<Rightarrow> fingerprint" where
  "leg_fp r = (or_else (tp_leg_a_wallet_id r) 0, upper (tp_symbol r), lower (tp_leg_a_side r))"

definition open_link_window_s :: int where "open_link_window_s = 600"
definition close_link_window_s :: int where "close_link_window_s = 600"

definition newest_order :: "trade_order list \<Rightarrow> int option" where
  "newest_order os = (case order_first (\<lambda>x. - od_created_at x) os of None \<Rightarrow> None | Some x \<Rightarrow> Some (od_id x))"

definition link_recent_open_order :: "clock \<Rightarrow> trading \<Rightarrow> int \<Rightarrow> int \<Rightarrow> string \<Rightarrow> string \<Rightarrow> int option" where
  "link_recent_open_order c tr uid wid symbol sd =
     newest_order (filter (\<lambda>x. od_user_id x = uid \<and> od_wallet_id x = Some wid \<and> od_symbol x = upper symbol \<and>
       od_side x = lower sd \<and> od_intent x = ''open'' \<and> od_status x = ''filled'' \<and> od_position_id x = None \<and>
       utcnow c - seconds_us open_link_window_s \<le> od_created_at x) (tr_orders tr))"

definition link_recent_close_order :: "clock \<Rightarrow> trading \<Rightarrow> int \<Rightarrow> int option \<Rightarrow> string \<Rightarrow> int option" where
  "link_recent_close_order c tr uid wid symbol =
     newest_order (filter (\<lambda>x. od_user_id x = uid \<and> od_wallet_id x = wid \<and> od_symbol x = upper symbol \<and>
       od_intent x = ''close'' \<and> od_status x = ''filled'' \<and>
       utcnow c - seconds_us close_link_window_s \<le> od_created_at x) (tr_orders tr))"

definition open_single :: "int \<Rightarrow> trade_position \<Rightarrow> bool" where
  "open_single uid r \<longleftrightarrow> tp_user_id r = uid \<and> tp_status r = ''open'' \<and> tp_kind r = Single_Leg"

definition refresh_leg :: "live_position \<Rightarrow> trade_position \<Rightarrow> trade_position" where
  "refresh_leg p r = r\<lparr>
     tp_leg_a_qty := or_else (lv_quantity p) (tp_leg_a_qty r),
     tp_leg_a_entry_price := (case lv_entry_price p of None \<Rightarrow> tp_leg_a_entry_price r | Some x \<Rightarrow> Some x),
     tp_leg_a_funding_pnl_usd := (case lv_funding_pnl_usd p of None \<Rightarrow> tp_leg_a_funding_pnl_usd r | Some x \<Rightarrow> Some x)\<rparr>"

definition leg_sign :: "trade_position \<Rightarrow> rat" where
  "leg_sign r = (if lower (tp_leg_a_side r) = ''buy'' then 1 else - 1)"

definition close_leg :: "clock \<Rightarrow> trading \<Rightarrow> trade_position \<Rightarrow> trade_position" where
  "close_leg c tr r =
     (let oid = link_recent_close_order c tr (tp_user_id r) (tp_leg_a_wallet_id r) (tp_symbol r);
          pnl = (if truthy (tp_leg_a_entry_price r) \<and> tp_leg_a_qty r \<noteq> 0 \<and> truthy (tp_leg_a_exit_price r)
            then Some (leg_sign r * (the (tp_leg_a_exit_price r) - the (tp_leg_a_entry_price r)) * tp_leg_a_qty r)
            else tp_leg_a_realized_pnl_usd r)
      in r\<lparr>tp_status := ''closed'', tp_closed_at := Some (utcnow c),
           tp_leg_a_close_order_id := (if truthy oid then oid else tp_leg_a_close_order_id r),
           tp_closed_externally := (if truthy oid then tp_closed_externally r else True),
           tp_leg_a_realized_pnl_usd := pnl, tp_realized_pnl_usd := pnl\<rparr>)"

definition settle_leg :: "clock \<Rightarrow> trading \<Rightarrow> live_position list \<Rightarrow> int \<Rightarrow> trade_position \<Rightarrow> trade_position" where
  "settle_leg c tr live uid r =
     (if \<not> open_single uid r then r
      else case live_by_fp live (leg_fp r) of Some p \<Rightarrow> refresh_leg p r | None \<Rightarrow> close_leg c tr r)"

text \<open>
  A live position no open row accounts for becomes a row of its own, linked to the order
  that opened it where there is one. The set the code iterates over has no order; here the
  new positions come in the order of the live list.
\<close>

definition new_leg :: "clock \<Rightarrow> int \<Rightarrow> int \<Rightarrow> fingerprint \<Rightarrow> live_position \<Rightarrow> int option \<Rightarrow> trade_position" where
  "new_leg c i uid fp p oid = \<lparr>
     tp_id = i, tp_user_id = uid, tp_kind = Single_Leg, tp_status = ''open'', tp_symbol = fst (snd fp),
     tp_leg_a_wallet_id = Some (fst fp), tp_leg_a_exchange = lower (lv_exchange p), tp_leg_a_side = snd (snd fp),
     tp_leg_a_qty = or_else (lv_quantity p) 0, tp_leg_a_entry_price = lv_entry_price p, tp_leg_a_exit_price = None,
     tp_leg_a_realized_pnl_usd = None, tp_leg_a_funding_pnl_usd = None,
     tp_leg_a_fees_usd = None, tp_leg_a_market = ''futures'', tp_leg_a_open_order_id = oid,
     tp_leg_a_close_order_id = None, tp_leg_b_realized_pnl_usd = None, tp_leg_b_funding_pnl_usd = None,
     tp_source = ''platform'', tp_realized_pnl_usd = None, tp_opened_externally = (oid = None), tp_closed_externally = False,
     tp_opened_at = utcnow c, tp_closed_at = None, tp_arb_position_id = None\<rparr>"

definition insert_leg :: "clock \<Rightarrow> int \<Rightarrow> live_position list \<Rightarrow> trading \<Rightarrow> fingerprint \<Rightarrow> trading" where
  "insert_leg c uid live tr fp =
     (case live_by_fp live fp of
        None \<Rightarrow> tr
      | Some p \<Rightarrow>
          let (wid, symbol, sd) = fp; oid = link_recent_open_order c tr uid wid symbol sd;
              i = row_fresh tp_id (tr_legs tr)
          in tr\<lparr>tr_legs := tr_legs tr @ [new_leg c i uid fp p oid],
                tr_orders := (if truthy oid
                  then row_upd_where (\<lambda>x. Some (od_id x) = oid \<and> od_position_id x = None)
                         (\<lambda>x. x\<lparr>od_position_id := Some i\<rparr>) (tr_orders tr)
                  else tr_orders tr)\<rparr>)"

definition seen_fps :: "trading \<Rightarrow> int \<Rightarrow> fingerprint list" where
  "seen_fps tr uid = map leg_fp (filter (open_single uid) (tr_legs tr))"

definition new_fps :: "trading \<Rightarrow> int \<Rightarrow> live_position list \<Rightarrow> fingerprint list" where
  "new_fps tr uid live =
     filter (\<lambda>fp. fp \<notin> set (seen_fps tr uid))
       (first_seen (map fingerprint_of (filter (\<lambda>p. fst (fingerprint_of p) \<noteq> 0) live)))"

definition reconcile_legs :: "clock \<Rightarrow> int \<Rightarrow> live_position list \<Rightarrow> trading \<Rightarrow> trading" where
  "reconcile_legs c uid live tr =
     foldl (insert_leg c uid live) (tr\<lparr>tr_legs := map (settle_leg c tr live uid) (tr_legs tr)\<rparr>) (new_fps tr uid live)"

section \<open>Positions against live positions\<close>

definition live_qty :: "live_position option \<Rightarrow> rat" where
  "live_qty p = (case p of None \<Rightarrow> 0 | Some x \<Rightarrow> or_else (lv_quantity x) 0)"

definition long_fp :: "arb_position \<Rightarrow> fingerprint" where
  "long_fp p = (or_else (ap_long_wallet_id p) 0, upper (ap_long_symbol p), ''buy'')"

definition short_fp :: "arb_position \<Rightarrow> fingerprint" where
  "short_fp p = (or_else (ap_short_wallet_id p) 0, upper (ap_short_symbol p), ''sell'')"

text \<open>Which legs the worker takes for closed; a partial position counts as closed altogether.\<close>

definition legs_closed :: "arb_position \<Rightarrow> rat \<Rightarrow> rat \<Rightarrow> bool \<times> bool" where
  "legs_closed p long_live short_live =
     (let long_gone = (long_live = 0 \<and> 0 < ap_long_qty p); short_gone = (short_live = 0 \<and> 0 < ap_short_qty p)
      in if ap_status p = AP_Partial \<and> (long_gone \<or> short_gone) then (True, True) else (long_gone, short_gone))"

fun last_exit :: "string \<Rightarrow> trade_position list \<Rightarrow> rat option \<Rightarrow> rat option" where
  "last_exit sd [] acc = acc"
| "last_exit sd (r # rs) acc =
     last_exit sd rs (if tp_leg_a_side r = sd \<and> truthy (tp_leg_a_exit_price r) then tp_leg_a_exit_price r else acc)"

definition leg_result :: "trade_position \<Rightarrow> rat" where
  "leg_result r = or_else (tp_leg_a_realized_pnl_usd r) 0 + or_else (tp_leg_b_realized_pnl_usd r) 0 +
     (or_else (tp_leg_a_funding_pnl_usd r) 0 + or_else (tp_leg_b_funding_pnl_usd r) 0)"

definition finalize_position :: "clock \<Rightarrow> trade_position list \<Rightarrow> arb_position \<Rightarrow> arb_position" where
  "finalize_position c children p =
     (let le = (case last_exit ''buy'' children None of None \<Rightarrow> ap_long_exit_price p | Some x \<Rightarrow> Some x);
          se = (case last_exit ''sell'' children None of None \<Rightarrow> ap_short_exit_price p | Some x \<Rightarrow> Some x)
      in p\<lparr>ap_status := AP_Closed, ap_closed_externally := True, ap_closed_at := Some (utcnow c),
           ap_long_exit_price := le, ap_short_exit_price := se,
           ap_exit_spread_pct := exit_spread le se (ap_exit_spread_pct p),
           ap_realized_pnl_usd := Some (sum_list (map leg_result children))\<rparr>)"

definition shrink_position :: "arb_position \<Rightarrow> bool \<times> bool \<Rightarrow> live_position option \<Rightarrow> live_position option \<Rightarrow> arb_position" where
  "shrink_position p gone live_long live_short =
     p\<lparr>ap_status := AP_Partial,
       ap_long_qty := (if fst gone then 0 else if live_long \<noteq> None then live_qty live_long else ap_long_qty p),
       ap_short_qty := (if snd gone then 0 else if live_short \<noteq> None then live_qty live_short else ap_short_qty p)\<rparr>"

definition sync_qty :: "live_position option \<Rightarrow> rat \<Rightarrow> rat" where
  "sync_qty live own =
     (if live \<noteq> None \<and> 1 / 1000000000 < \<bar>live_qty live - own\<bar> then live_qty live else own)"

definition put_changed :: "clock \<Rightarrow> arb_position \<Rightarrow> arb_position \<Rightarrow> trading \<Rightarrow> trading" where
  "put_changed c old new tr = (if new = old then tr else put_position c new tr)"

definition cancel_closed :: "clock \<Rightarrow> int \<Rightarrow> trading \<Rightarrow> trading" where
  "cancel_closed c pid =
     tr_triggers_update (row_upd_where
       (\<lambda>t. to_arb_position_id t = Some pid \<and> to_status t \<in> {T_Pending, T_Firing, T_Scheduled})
       (\<lambda>t. t\<lparr>to_status := T_Cancelled, to_error_kind := Some ''pos_closed_ext'',
              to_error_message := Some ''reconcile detected external close'', to_updated_at := utcnow c\<rparr>))"

definition reconcile_position :: "clock \<Rightarrow> live_position list \<Rightarrow> trading \<Rightarrow> arb_position \<Rightarrow> trading" where
  "reconcile_position c live tr p =
     (let live_long = live_by_fp live (long_fp p); live_short = live_by_fp live (short_fp p);
          gone = legs_closed p (live_qty live_long) (live_qty live_short)
      in if fst gone \<and> snd gone
         then cancel_closed c (ap_id p)
                (put_position c (finalize_position c (filter (\<lambda>r. tp_arb_position_id r = Some (ap_id p)) (tr_legs tr)) p) tr)
         else if fst gone \<or> snd gone then put_changed c p (shrink_position p gone live_long live_short) tr
         else put_changed c p (p\<lparr>ap_long_qty := sync_qty live_long (ap_long_qty p),
                                ap_short_qty := sync_qty live_short (ap_short_qty p)\<rparr>) tr)"

definition reconcile_arb_positions :: "clock \<Rightarrow> int \<Rightarrow> live_position list \<Rightarrow> trading \<Rightarrow> trading" where
  "reconcile_arb_positions c uid live tr =
     auto_pair_internal_legs c uid
       (foldl (reconcile_position c live) tr
         (filter (\<lambda>p. ap_user_id p = uid \<and> ap_status p \<in> {AP_Open, AP_Partial, AP_Closing}) (tr_positions tr)))"

text \<open>
  One user's pass. \<open>live\<close> is None when asking the venues raised: then nothing happens.
  The counters are the positions opened, closed and still open.
\<close>

definition reconcile_user ::
  "clock \<Rightarrow> int \<Rightarrow> live_position list option \<Rightarrow> trading \<Rightarrow> (nat \<times> nat \<times> nat) \<times> trading" where
  "reconcile_user c uid live tr =
     (case live of
        None \<Rightarrow> ((0, 0, 0), tr)
      | Some lv \<Rightarrow>
          let open_rows = filter (open_single uid) (tr_legs tr);
              still = length (filter (\<lambda>r. live_by_fp lv (leg_fp r) \<noteq> None) open_rows)
          in ((length (new_fps tr uid lv), length open_rows - still, still),
              reconcile_arb_positions c uid lv (reconcile_legs c uid lv tr)))"

definition users_with_trade_wallets :: "world \<Rightarrow> int list" where
  "users_with_trade_wallets w =
     first_seen (map (the \<circ> w_user_id) (filter (\<lambda>x. w_wallet_type x \<in> {''exchange'', ''perpdex''} \<and>
       w_purpose x \<in> {Screener, Both} \<and> \<not> w_is_archived x \<and> w_user_id x \<noteq> None) (wallets w)))"

definition reconcile_pass :: "clock \<Rightarrow> (int \<Rightarrow> live_position list option) \<Rightarrow> trading \<Rightarrow> trading" where
  "reconcile_pass c live tr =
     foldl (\<lambda>tr uid. snd (reconcile_user c uid (live uid) tr)) tr (users_with_trade_wallets (tr_world tr))"

end
