(* ===== verification/Trigger_Safety.thy ===== *)
theory Trigger_Safety
  imports Triggers Samples
begin

text \<open>
  What the trigger service guarantees: an order with portions completes after exactly as many
  filled portions, the entry price of a position is the average of its fills, a close settles
  the position and its orders, and a portion of which only one leg was filled leaves that
  leg visible.
\<close>

section \<open>A sample database\<close>

definition sample_order :: trigger where
  "sample_order = (new_trigger 1 1 K_Open 0)\<lparr>to_long_exchange := Some ''OKX'', to_long_symbol := Some ''btc'',
     to_long_wallet_id := Some 2, to_short_exchange := Some ''gate'', to_short_symbol := Some ''BTC'',
     to_short_wallet_id := Some 4, to_trigger_spread_pct := Some 5, to_total_qty_token := Some 6,
     to_portion_size_token := Some 3, to_portions_target := Some 2, to_leverage := Some 2\<rparr>"

definition sample_trading :: trading where
  "sample_trading = (empty_trading sample_world)\<lparr>tr_triggers := [sample_order]\<rparr>"

definition calm_venue :: venue where
  "calm_venue = \<lparr>vn_open = (\<lambda>q. Filled \<lparr>fl_avg_fill_price = Some (if oq_side q = ''buy'' then 101 else 109),
       fl_price = None, fl_filled_qty = Some (oq_quantity q)\<rparr>),
     vn_close = (\<lambda>q. Filled \<lparr>fl_avg_fill_price = Some 105, fl_price = None, fl_filled_qty = None\<rparr>)\<rparr>"

text \<open>A venue that refuses every sale.\<close>

definition half_venue :: venue where
  "half_venue = calm_venue\<lparr>vn_open := (\<lambda>q. if oq_side q = ''sell'' then Raised ''no margin'' else vn_open calm_venue q),
     vn_close := (\<lambda>q. if cq_side q = ''sell'' then Raised ''timeout'' else vn_close calm_venue q)\<rparr>"

definition sample_arb :: arb_position where
  "sample_arb = (new_arb_position 7 1 0)\<lparr>ap_long_exchange := ''okx'', ap_long_symbol := ''BTC'', ap_long_wallet_id := Some 2,
     ap_short_exchange := ''gate'', ap_short_symbol := ''BTC'', ap_short_wallet_id := Some 4,
     ap_long_entry_price := Some 101, ap_short_entry_price := Some 109, ap_long_qty := 3, ap_short_qty := 3,
     ap_status := AP_Open\<rparr>"

definition sample_tp :: "int \<Rightarrow> order_kind \<Rightarrow> order_status \<Rightarrow> trigger" where
  "sample_tp i k st = (new_trigger i 1 k 0)\<lparr>to_arb_position_id := Some 7, to_trigger_spread_pct := Some 1,
     to_portion_size_token := Some 3, to_status := st\<rparr>"

definition closing_trading :: trading where
  "closing_trading = (empty_trading sample_world)\<lparr>tr_positions := [sample_arb],
     tr_triggers := [sample_tp 1 K_Tp T_Firing, sample_tp 2 K_Sl T_Pending]\<rparr>"

section \<open>Portions\<close>

text \<open>
  C12. An order completes. An armed open order with portions outstanding whose condition holds
  and whose two legs are filled in each of as many rounds as portions are missing is still
  armed after each round but the last, which finishes it with exactly the target of
  portions; its position is open and holds, per leg, what it held plus what the rounds
  filled.
\<close>

theorem portions_complete:
  assumes "triggers_distinct tr" and "get_trigger tr i = Some t" and "to_status t = T_Pending" and "to_kind t = K_Open"
    and "wallet_of tr (to_long_wallet_id t) = Some lw" and "wallet_of tr (to_short_wallet_id t) = Some sw"
    and "\<not> to_infinite_fill t" and "to_portions_target t = Some n" and "n \<noteq> 0" and "to_portions_filled t < n"
    and "to_portions_filled t + int (length rs) = n" and "list_all (round_fills tr t lw sw) rs"
  shows "(\<exists>u p. get_trigger (foldl (round_step i) tr rs) i = Some u \<and> to_status u = T_Fired \<and> to_portions_filled u = n \<and>
        arb_position_of (foldl (round_step i) tr rs) u = Some p \<and> ap_status p = AP_Open \<and>
        held (foldl (round_step i) tr rs) u =
          (fst (held tr t) + sum_list (map (\<lambda>r. fst (round_qty t lw sw r)) rs),
           snd (held tr t) + sum_list (map (\<lambda>r. snd (round_qty t lw sw r)) rs))) \<and>
    (\<forall>k < length rs. \<exists>u. get_trigger (foldl (round_step i) tr (take k rs)) i = Some u \<and> to_status u = T_Pending)"
proof (intro conjI allI impI)
  have "rs \<noteq> []" using assms(10,11) by auto
  then show "\<exists>u p. get_trigger (foldl (round_step i) tr rs) i = Some u \<and> to_status u = T_Fired \<and> to_portions_filled u = n \<and>
        arb_position_of (foldl (round_step i) tr rs) u = Some p \<and> ap_status p = AP_Open \<and>
        held (foldl (round_step i) tr rs) u =
          (fst (held tr t) + sum_list (map (\<lambda>r. fst (round_qty t lw sw r)) rs),
           snd (held tr t) + sum_list (map (\<lambda>r. snd (round_qty t lw sw r)) rs))"
    using rounds_fill [OF assms(1-9), of rs] assms(11,12) by fastforce
next
  fix k assume k: "k < length rs"
  show "\<exists>u. get_trigger (foldl (round_step i) tr (take k rs)) i = Some u \<and> to_status u = T_Pending"
  proof (cases "k = 0")
    case False
    have "list_all (round_fills tr t lw sw) (take k rs)" using assms(12) by (auto simp: list_all_iff dest: in_set_takeD)
    then show ?thesis
      using rounds_fill [OF assms(1-9), of "take k rs"] k False assms(11) by fastforce
  qed (use assms(2,3) in simp)
qed

theorem portions_complete_witness:
  "\<exists>u. get_trigger (foldl (round_step 1) sample_trading (replicate 2 (sample_clock, 103, sample_books, calm_venue))) 1 = Some u \<and>
     to_status u = T_Fired"
proof -
  define lw where "lw = new_wallet 2 1 Both 30"
  define sw where "sw = new_wallet 4 1 Screener 10"
  have w: "wallet_of sample_trading (to_long_wallet_id sample_order) = Some lw"
      "wallet_of sample_trading (to_short_wallet_id sample_order) = Some sw"
    unfolding lw_def sw_def by code_simp+
  have d: "due 103 sample_books sample_trading sample_order" by code_simp
  have r: "round_fills sample_trading sample_order lw sw (sample_clock, 103, sample_books, calm_venue)"
    using d by (simp add: round_fills_def leg_replies_def open_requests_def calm_venue_def Let_def split_beta)
  have t: "triggers_distinct sample_trading" "get_trigger sample_trading 1 = Some sample_order"
      "to_status sample_order = T_Pending" "to_kind sample_order = K_Open" "\<not> to_infinite_fill sample_order"
      "to_portions_target sample_order = Some 2" "to_portions_filled sample_order = 0"
    by (simp_all add: triggers_distinct_def get_trigger_def sample_trading_def empty_trading_def sample_order_def new_trigger_def)
  show ?thesis
    using portions_complete [OF t(1-4) w t(5,6), of "replicate 2 (sample_clock, 103, sample_books, calm_venue)"] r t(7)
    by (auto simp: list_all_iff)
qed

section \<open>Averages\<close>

text \<open>A run of fills accumulated into the position of one trigger.\<close>

type_synonym fills = "(rat \<times> rat \<times> rat \<times> rat) list"

fun accumulate_fills :: "clock \<Rightarrow> trading \<times> trigger \<Rightarrow> fills \<Rightarrow> trading \<times> trigger" where
  "accumulate_fills c (tr, t) [] = (tr, t)"
| "accumulate_fills c (tr, t) ((lp, lq, sp, sq) # fs) =
     (case accumulate_position c tr t lp lq sp sq of (_, t', tr') \<Rightarrow> accumulate_fills c (tr', t') fs)"

definition leg_value :: "rat option \<Rightarrow> rat \<Rightarrow> rat" where
  "leg_value price qty = (case price of None \<Rightarrow> 0 | Some x \<Rightarrow> x * qty)"

definition costed :: "arb_position \<Rightarrow> bool" where
  "costed p \<longleftrightarrow> 0 \<le> ap_long_qty p \<and> 0 \<le> ap_short_qty p \<and>
     (ap_long_entry_price p = None \<longrightarrow> ap_long_qty p = 0) \<and> (ap_short_entry_price p = None \<longrightarrow> ap_short_qty p = 0)"

lemma merge_value:
  assumes "0 \<le> Q" and "P = None \<longrightarrow> Q = 0" and "0 < q"
  shows "vwap_merge P Q x q * (Q + q) = leg_value P Q + x * q"
  using assms by (auto simp: vwap_merge_def leg_value_def Let_def split: option.split)

lemma merge_fill_value:
  assumes "costed p" and "0 < b" and "0 < e"
  shows "costed (merge_fill c p a b d e)"
    and "leg_value (ap_long_entry_price (merge_fill c p a b d e)) (ap_long_qty (merge_fill c p a b d e)) =
      leg_value (ap_long_entry_price p) (ap_long_qty p) + a * b"
    and "leg_value (ap_short_entry_price (merge_fill c p a b d e)) (ap_short_qty (merge_fill c p a b d e)) =
      leg_value (ap_short_entry_price p) (ap_short_qty p) + d * e"
  using assms merge_value [of "ap_long_qty p" "ap_long_entry_price p" b a]
    merge_value [of "ap_short_qty p" "ap_short_entry_price p" e d]
  by (auto simp: costed_def merge_fill_def Let_def leg_value_def [of "Some _"])

fun long_filled :: "rat \<times> rat \<times> rat \<times> rat \<Rightarrow> rat" where "long_filled (lp, lq, sp, sq) = lq"
fun short_filled :: "rat \<times> rat \<times> rat \<times> rat \<Rightarrow> rat" where "short_filled (lp, lq, sp, sq) = sq"
fun long_cost :: "rat \<times> rat \<times> rat \<times> rat \<Rightarrow> rat" where "long_cost (lp, lq, sp, sq) = lp * lq"
fun short_cost :: "rat \<times> rat \<times> rat \<times> rat \<Rightarrow> rat" where "short_cost (lp, lq, sp, sq) = sp * sq"

definition fills_total :: "(rat \<times> rat \<times> rat \<times> rat \<Rightarrow> rat) \<Rightarrow> fills \<Rightarrow> rat" where
  "fills_total f fs = sum_list (map f fs)"

lemma accumulate_fills_value:
  assumes "arb_position_of tr t = Some p" and "costed p" and "get_trigger tr (to_id t) \<noteq> None"
    and "list_all (\<lambda>f. 0 < long_filled f \<and> 0 < short_filled f) fs" and "accumulate_fills c (tr, t) fs = (tr', t')"
  shows "\<exists>p'. arb_position_of tr' t' = Some p' \<and> costed p' \<and>
      ap_long_qty p' = ap_long_qty p + fills_total long_filled fs \<and>
      ap_short_qty p' = ap_short_qty p + fills_total short_filled fs \<and>
      leg_value (ap_long_entry_price p') (ap_long_qty p') =
        leg_value (ap_long_entry_price p) (ap_long_qty p) + fills_total long_cost fs \<and>
      leg_value (ap_short_entry_price p') (ap_short_qty p') =
        leg_value (ap_short_entry_price p) (ap_short_qty p) + fills_total short_cost fs"
  using assms
proof (induction fs arbitrary: tr t p)
  case Nil
  then show ?case by (auto simp: fills_total_def)
next
  case (Cons f fs)
  obtain a b d e where f: "f = (a, b, d, e)" by (metis prod_cases4)
  obtain q t1 tr1 where acc: "accumulate_position c tr t a b d e = (q, t1, tr1)" by (metis prod_cases3)
  note s = accumulate_spec [OF acc Cons.prems(3)]
  have q: "q = merge_fill c p a b d e" using s(1) Cons.prems(1) by (simp add: base_position_def)
  define q1 where "q1 = q\<lparr>ap_updated_at := utcnow c\<rparr>"
  have be: "0 < b" "0 < e" using Cons.prems(4) by (simp_all add: f)
  note v = merge_fill_value [OF Cons.prems(2) be, of c a d, folded q]
  have "arb_position_of tr1 t1 = Some q1" using s(2,3) by (simp add: arb_position_of_def q1_def)
  moreover have "costed q1" using v(1) by (simp add: costed_def q1_def)
  moreover have "get_trigger tr1 (to_id t1) \<noteq> None" using s(2,5) by simp
  moreover have "accumulate_fills c (tr1, t1) fs = (tr', t')" using Cons.prems(5) by (simp add: f acc)
  moreover have "list_all (\<lambda>f. 0 < long_filled f \<and> 0 < short_filled f) fs" using Cons.prems(4) by simp
  ultimately obtain p' where p': "arb_position_of tr' t' = Some p'" "costed p'"
      "ap_long_qty p' = ap_long_qty q1 + fills_total long_filled fs"
      "ap_short_qty p' = ap_short_qty q1 + fills_total short_filled fs"
      "leg_value (ap_long_entry_price p') (ap_long_qty p') =
        leg_value (ap_long_entry_price q1) (ap_long_qty q1) + fills_total long_cost fs"
      "leg_value (ap_short_entry_price p') (ap_short_qty p') =
        leg_value (ap_short_entry_price q1) (ap_short_qty q1) + fills_total short_cost fs"
    using Cons.IH by blast
  have "ap_long_qty q1 = ap_long_qty p + b" "ap_short_qty q1 = ap_short_qty p + e"
    by (simp_all add: q1_def q merge_fill_qty)
  then show ?case using p' v(2,3) by (auto simp: f fills_total_def q1_def)
qed

text \<open>
  C28. The entry price is the average of the fills. When portions are accumulated into a
  trigger that has no position yet, the quantities of the new position are the sums of the
  filled quantities and its entry prices the averages of the fill prices weighted by
  quantity, whatever the order of the portions.
\<close>

theorem entry_price_is_average:
  assumes "arb_position_of tr t = None" and "get_trigger tr (to_id t) \<noteq> None" and "fs \<noteq> []"
    and "list_all (\<lambda>f. 0 < long_filled f \<and> 0 < short_filled f) fs" and "accumulate_fills c (tr, t) fs = (tr', t')"
  shows "\<exists>p. arb_position_of tr' t' = Some p \<and>
      ap_long_qty p = fills_total long_filled fs \<and> ap_short_qty p = fills_total short_filled fs \<and>
      ap_long_entry_price p =
        Some (fills_total long_cost fs / fills_total long_filled fs) \<and>
      ap_short_entry_price p =
        Some (fills_total short_cost fs / fills_total short_filled fs)"
proof -
  obtain a b d e gs where fs: "fs = (a, b, d, e) # gs" using assms(3) by (metis list.exhaust prod_cases4)
  obtain q t1 tr1 where acc: "accumulate_position c tr t a b d e = (q, t1, tr1)" by (metis prod_cases3)
  note s = accumulate_spec [OF acc assms(2)]
  define q1 where "q1 = q\<lparr>ap_updated_at := utcnow c\<rparr>"
  have be: "0 < b" "0 < e" and rest: "list_all (\<lambda>f. 0 < long_filled f \<and> 0 < short_filled f) gs" using assms(4) by (simp_all add: fs)
  have q: "q = merge_fill c (position_for c tr t) a b d e" using s(1) assms(1) by (simp add: base_position_def)
  have new: "ap_long_qty (position_for c tr t) = 0" "ap_short_qty (position_for c tr t) = 0"
      "ap_long_entry_price (position_for c tr t) = None" "ap_short_entry_price (position_for c tr t) = None"
    by (simp_all add: position_for_def new_arb_position_def)
  then have "costed (position_for c tr t)" by (simp add: costed_def)
  note v = merge_fill_value [OF this be, of c a d, folded q]
  have "arb_position_of tr1 t1 = Some q1" using s(2,3) by (simp add: arb_position_of_def q1_def)
  moreover have "costed q1" using v(1) by (simp add: costed_def q1_def)
  moreover have "get_trigger tr1 (to_id t1) \<noteq> None" using s(2,5) by simp
  moreover have "accumulate_fills c (tr1, t1) gs = (tr', t')" using assms(5) by (simp add: fs acc)
  ultimately obtain p where p: "arb_position_of tr' t' = Some p" "costed p"
      "ap_long_qty p = ap_long_qty q1 + fills_total long_filled gs"
      "ap_short_qty p = ap_short_qty q1 + fills_total short_filled gs"
      "leg_value (ap_long_entry_price p) (ap_long_qty p) =
        leg_value (ap_long_entry_price q1) (ap_long_qty q1) + fills_total long_cost gs"
      "leg_value (ap_short_entry_price p) (ap_short_qty p) =
        leg_value (ap_short_entry_price q1) (ap_short_qty q1) + fills_total short_cost gs"
    using accumulate_fills_value rest by blast
  have q1: "ap_long_qty q1 = b" "ap_short_qty q1 = e" by (simp_all add: q1_def q merge_fill_qty new)
  have nonneg: "0 \<le> fills_total long_filled gs" "0 \<le> fills_total short_filled gs"
    unfolding fills_total_def using rest by (fastforce simp: list_all_iff intro!: sum_list_nonneg)+
  have tot: "ap_long_qty p = fills_total long_filled fs" "ap_short_qty p = fills_total short_filled fs"
    using p(3,4) q1 by (simp_all add: fs fills_total_def)
  moreover have "0 < ap_long_qty p" "0 < ap_short_qty p" using p(3,4) q1 be nonneg by simp_all
  moreover have "leg_value (ap_long_entry_price p) (ap_long_qty p) = fills_total long_cost fs"
      "leg_value (ap_short_entry_price p) (ap_short_qty p) = fills_total short_cost fs"
    using p(5,6) v(2,3) new by (simp_all add: fs fills_total_def q1_def leg_value_def [of None])
  ultimately show ?thesis
    using p(1,2) by (auto simp: costed_def leg_value_def eq_divide_eq split: option.splits)
qed

theorem entry_price_is_average_witness:
  "\<exists>p. arb_position_of (fst (accumulate_fills sample_clock (sample_trading, sample_order) [(100, 1, 110, 2), (103, 2, 104, 1)]))
        (snd (accumulate_fills sample_clock (sample_trading, sample_order) [(100, 1, 110, 2), (103, 2, 104, 1)])) = Some p \<and>
     ap_long_entry_price p = Some 102 \<and> ap_short_entry_price p = Some 108"
proof -
  define r where "r = accumulate_fills sample_clock (sample_trading, sample_order) [(100, 1, 110, 2), (103, 2, 104, 1)]"
  have "arb_position_of sample_trading sample_order = None" "get_trigger sample_trading (to_id sample_order) \<noteq> None"
    by (simp_all add: arb_position_of_def get_trigger_def sample_trading_def empty_trading_def sample_order_def new_trigger_def)
  from entry_price_is_average [OF this, of "[(100, 1, 110, 2), (103, 2, 104, 1)]" sample_clock "fst r" "snd r"]
  show ?thesis unfolding r_def by (simp add: fills_total_def del: accumulate_fills.simps) blast
qed

section \<open>Closing a position\<close>

lemma put_get_trigger: "get_trigger tr (to_id t) \<noteq> None \<Longrightarrow>
  get_trigger (put_trigger c t tr) (to_id t) = Some (t\<lparr>to_updated_at := utcnow c\<rparr>)"
  by (auto simp: get_put_trigger)

lemma put_get_position: "get_position tr (ap_id p) \<noteq> None \<Longrightarrow>
  get_position (put_position c p tr) (ap_id p) = Some (p\<lparr>ap_updated_at := utcnow c\<rparr>)"
  by (auto simp: get_put_position)

definition closed_position :: "clock \<Rightarrow> arb_position \<Rightarrow> leg_reply \<Rightarrow> leg_reply \<Rightarrow> arb_position" where
  "closed_position c p l s =
     (let le = exit_price l (ap_long_exit_price p); se = exit_price s (ap_short_exit_price p)
      in p\<lparr>ap_status := AP_Closed, ap_closed_at := Some (utcnow c), ap_long_exit_price := le,
           ap_short_exit_price := se, ap_exit_spread_pct := exit_spread le se (ap_exit_spread_pct p)\<rparr>)"

lemma close_done_views:
  "get_position tr (ap_id p) \<noteq> None \<Longrightarrow>
     get_position (close_done c t p l s tr) (ap_id p) = Some ((closed_position c p l s)\<lparr>ap_updated_at := utcnow c\<rparr>)"
  "j \<noteq> ap_id p \<Longrightarrow> get_position (close_done c t p l s tr) j = get_position tr j"
  "get_trigger tr (to_id t) \<noteq> None \<Longrightarrow> get_trigger (close_done c t p l s tr) (to_id t) =
     Some (t\<lparr>to_status := T_Fired, to_last_fired_at := Some (utcnow c), to_updated_at := utcnow c\<rparr>)"
  by (auto simp: close_done_def closed_position_def Let_def get_put_position get_put_trigger get_set_status_where)

lemma closed_position_fields:
  "ap_status (closed_position c p l s) = AP_Closed" "ap_closed_at (closed_position c p l s) = Some (utcnow c)"
  "is_fill l \<Longrightarrow> ap_long_exit_price (closed_position c p l s) = Some (avg_price l)"
  "is_fill s \<Longrightarrow> ap_short_exit_price (closed_position c p l s) = Some (avg_price s)"
  by (cases l; cases s; simp add: closed_position_def Let_def exit_price_def)+

lemma in_set_where:
  "x \<in> set (tr_triggers (set_status_where c st P tr)) \<longleftrightarrow>
     (\<exists>y \<in> set (tr_triggers tr). x = (if P y then y\<lparr>to_status := st, to_updated_at := utcnow c\<rparr> else y))"
  unfolding set_status_where_def row_upd_where_def by (simp only: trigger_tab.rows_rows_update set_map image_iff)

lemma in_put_trigger: "x \<in> set (tr_triggers (put_trigger c t tr)) \<Longrightarrow>
  (x \<in> set (tr_triggers tr) \<and> to_id x \<noteq> to_id t) \<or> x = t\<lparr>to_updated_at := utcnow c\<rparr>"
  by (auto simp: put_trigger_def dest: set_row_upd)

lemma close_done_sweeps:
  assumes "x \<in> set (tr_triggers (close_done c t p l s tr))" and "to_arb_position_id x = Some (ap_id p)"
  shows "to_status x \<notin> {T_Pending, T_Scheduled}"
proof -
  define tr1 where "tr1 = set_status_where c T_Cancelled
    (\<lambda>x. to_arb_position_id x = Some (ap_id p) \<and> to_status x \<in> {T_Pending, T_Scheduled} \<and> to_id x \<noteq> to_id t) tr"
  define tr2 where "tr2 = set_status_where c T_Cancelled
    (\<lambda>x. to_arb_position_id x = Some (ap_id p) \<and> to_kind x = K_Open \<and> to_status x = T_Pending) tr1"
  have "x \<in> set (tr_triggers (put_trigger c (t\<lparr>to_status := T_Fired, to_last_fired_at := Some (utcnow c)\<rparr>) tr2))"
    using assms(1) by (simp add: close_done_def Let_def tr1_def tr2_def)
  then consider (other) "x \<in> set (tr_triggers tr2)" "to_id x \<noteq> to_id t" | (own) "to_status x = T_Fired"
    by (auto dest: in_put_trigger)
  then show ?thesis
  proof cases
    case other
    let ?A = "\<lambda>z. to_arb_position_id z = Some (ap_id p) \<and> to_status z \<in> {T_Pending, T_Scheduled} \<and> to_id z \<noteq> to_id t"
    let ?B = "\<lambda>z. to_arb_position_id z = Some (ap_id p) \<and> to_kind z = K_Open \<and> to_status z = T_Pending"
    obtain y where y: "y \<in> set (tr_triggers tr1)" "x = (if ?B y then y\<lparr>to_status := T_Cancelled, to_updated_at := utcnow c\<rparr> else y)"
      using other(1) unfolding tr2_def in_set_where by blast
    obtain z where z: "y = (if ?A z then z\<lparr>to_status := T_Cancelled, to_updated_at := utcnow c\<rparr> else z)"
      using y(1) unfolding tr1_def in_set_where by blast
    have "to_status x = T_Cancelled \<or> x = y" using y(2) by (cases "?B y") simp_all
    moreover have "to_status y = T_Cancelled \<or> (y = z \<and> \<not> ?A z)" using z by (cases "?A z") simp_all
    ultimately show ?thesis using other(2) assms(2) by auto
  qed simp
qed

text \<open>
  C40. What a close does. For an order on an open or partial position with both wallets, if
  neither venue call raises, the position is closed now with the reported exit prices, the
  order is fired and no order of the position is left waiting. Otherwise the order fails
  with a reason, the position is partial if one leg went through and open again if none did,
  and no other order changes. No other position is touched either way.
\<close>

theorem close_outcome:
  assumes "get_trigger tr i = Some t" and "to_arb_position_id t = Some pid" and "get_position tr pid = Some p"
    and "closable p" and "truthy (ap_long_wallet_id p)" and "truthy (ap_short_wallet_id p)"
    and "l = vn_close v (close_request_of t (the (ap_long_wallet_id p)) (ap_long_symbol p) ''sell'')"
    and "s = vn_close v (close_request_of t (the (ap_short_wallet_id p)) (ap_short_symbol p) ''buy'')"
    and "tr' = execute_close c v t tr"
  shows "(\<not> is_raised l \<and> \<not> is_raised s \<longrightarrow>
      (\<exists>p' t'. get_position tr' pid = Some p' \<and> ap_status p' = AP_Closed \<and> ap_closed_at p' = Some (utcnow c) \<and>
        (is_fill l \<longrightarrow> ap_long_exit_price p' = Some (avg_price l)) \<and>
        (is_fill s \<longrightarrow> ap_short_exit_price p' = Some (avg_price s)) \<and>
        get_trigger tr' i = Some t' \<and> to_status t' = T_Fired) \<and>
      (\<forall>x \<in> set (tr_triggers tr'). to_arb_position_id x = Some pid \<longrightarrow> to_status x \<notin> {T_Pending, T_Scheduled})) \<and>
    (is_raised l \<or> is_raised s \<longrightarrow>
      (\<exists>p' t'. get_position tr' pid = Some p' \<and>
        ap_status p' = (if is_raised l \<and> is_raised s then AP_Open else AP_Partial) \<and>
        get_trigger tr' i = Some t' \<and> to_status t' = T_Failed \<and> to_error_message t' \<noteq> None) \<and>
      (\<forall>j. j \<noteq> i \<longrightarrow> get_trigger tr' j = get_trigger tr j)) \<and>
    (\<forall>j. j \<noteq> pid \<longrightarrow> get_position tr' j = get_position tr j)"
proof -
  have id: "to_id t = i" "ap_id p = pid" using assms(1,3) by (simp_all add: get_trigger_id get_position_id)
  have pos: "arb_position_of tr t = Some p" using assms(2,3) by (simp add: arb_position_of_def)
  define p1 where "p1 = p\<lparr>ap_status := AP_Closing\<rparr>"
  define tr1 where "tr1 = put_position c p1 tr"
  have ex: "tr' = (if \<not> is_raised l \<and> \<not> is_raised s then close_done c t p1 l s tr1 else close_failed c t p1 l s tr1)"
    using pos assms(4-9) by (simp add: execute_close_def p1_def tr1_def Let_def)
  have id1: "ap_id p1 = pid" by (simp add: p1_def id)
  have g1: "get_position tr1 pid \<noteq> None" "get_trigger tr1 i = Some t" "\<And>j. get_trigger tr1 j = get_trigger tr j"
      "\<And>j. j \<noteq> pid \<Longrightarrow> get_position tr1 j = get_position tr j"
    using assms(1,3) by (simp_all add: tr1_def get_put_position id1)
  show ?thesis
  proof (cases "\<not> is_raised l \<and> \<not> is_raised s")
    case True
    then have tr': "tr' = close_done c t p1 l s tr1" using ex by simp
    have "\<forall>x \<in> set (tr_triggers tr'). to_arb_position_id x = Some pid \<longrightarrow> to_status x \<notin> {T_Pending, T_Scheduled}"
      unfolding tr' using close_done_sweeps [of _ c t p1 l s tr1] id1 by blast
    moreover have "\<exists>p' t'. get_position tr' pid = Some p' \<and> ap_status p' = AP_Closed \<and> ap_closed_at p' = Some (utcnow c) \<and>
        (is_fill l \<longrightarrow> ap_long_exit_price p' = Some (avg_price l)) \<and>
        (is_fill s \<longrightarrow> ap_short_exit_price p' = Some (avg_price s)) \<and>
        get_trigger tr' i = Some t' \<and> to_status t' = T_Fired"
      using close_done_views(1) [of tr1 p1 c t l s] close_done_views(3) [of tr1 t c p1 l s]
        g1(1,2) id id1 by (auto simp: tr' closed_position_fields)
    moreover have "\<forall>j. j \<noteq> pid \<longrightarrow> get_position tr' j = get_position tr j"
      using g1(4) close_done_views(2) [of _ p1 c t l s tr1] id1 by (simp add: tr')
    ultimately show ?thesis using True by blast
  next
    case False
    then have tr': "tr' = close_failed c t p1 l s tr1" by (metis ex)
    have "\<exists>p' t'. get_position tr' pid = Some p' \<and>
        ap_status p' = (if is_raised l \<and> is_raised s then AP_Open else AP_Partial) \<and>
        get_trigger tr' i = Some t' \<and> to_status t' = T_Failed \<and> to_error_message t' \<noteq> None"
      using g1(1,2) id id1 unfolding tr' close_failed_def Let_def
      by (auto simp: get_put_position get_put_trigger)
    moreover have "\<forall>j. j \<noteq> i \<longrightarrow> get_trigger tr' j = get_trigger tr j" "\<forall>j. j \<noteq> pid \<longrightarrow> get_position tr' j = get_position tr j"
      using g1(3,4) id id1 unfolding tr' close_failed_def Let_def by (simp_all add: get_put_position get_put_trigger)
    ultimately show ?thesis using False by blast
  qed
qed

theorem close_outcome_witness:
  "\<exists>p. get_position (execute_close sample_clock calm_venue (sample_tp 1 K_Tp T_Firing) closing_trading) 7 = Some p \<and>
     ap_status p = AP_Closed"
proof -
  have "get_trigger closing_trading 1 = Some (sample_tp 1 K_Tp T_Firing)" "to_arb_position_id (sample_tp 1 K_Tp T_Firing) = Some 7"
      "get_position closing_trading 7 = Some sample_arb" "closable sample_arb"
      "truthy (ap_long_wallet_id sample_arb)" "truthy (ap_short_wallet_id sample_arb)"
    by (simp_all add: get_trigger_def get_position_def closing_trading_def empty_trading_def sample_tp_def new_trigger_def
        sample_arb_def new_arb_position_def closable_def)
  from close_outcome [OF this refl refl refl, of calm_venue sample_clock] show ?thesis
    by (auto simp: calm_venue_def)
qed

text \<open>
  C27. An exposed leg is kept. When exactly one leg of a portion is filled, the order fails
  with kind partial and is not tried again by any later tick that finds it failed, and its position is
  partial and holds the filled quantity of that leg on top of what it held.
\<close>

theorem one_leg_kept:
  assumes "wallet_of tr (to_long_wallet_id t) = Some lw" and "wallet_of tr (to_short_wallet_id t) = Some sw"
    and "portion_qty t = Some q" and "q \<noteq> 0" and "leg_replies v t lw sw = (l, s)" and "is_fill l \<noteq> is_fill s"
    and "get_trigger tr (to_id t) \<noteq> None" and "tr' = execute_open_portion c v t tr"
  shows "\<exists>u p. get_trigger tr' (to_id t) = Some u \<and> to_status u = T_Failed \<and> to_error_kind u = Some ''partial'' \<and>
      arb_position_of tr' u = Some p \<and> ap_status p = AP_Partial \<and>
      held tr' u = (fst (held tr t) + (if is_fill l then filled_qty l q else 0),
                    snd (held tr t) + (if is_fill s then filled_qty s q else 0))"
proof -
  define t1 where "t1 = t\<lparr>to_status := T_Failed, to_error_kind := Some ''partial'',
    to_error_message := Some (join_errors [(''long'', l, is_fill l), (''short'', s, is_fill s)]), to_last_fired_at := Some (utcnow c)\<rparr>"
  define tr1 where "tr1 = put_trigger c t1 tr"
  obtain p t2 tr2 where acc: "accumulate_position c tr1 t1
      (if is_fill l then avg_price l else 0) (if is_fill l then filled_qty l q else 0)
      (if is_fill s then avg_price s else 0) (if is_fill s then filled_qty s q else 0) = (p, t2, tr2)"
    by (metis prod_cases3)
  have ex: "tr' = put_position c (p\<lparr>ap_status := AP_Partial\<rparr>) tr2"
    using assms acc by (auto simp: execute_open_portion_def leg_replies_def portion_failed_def Let_def t1_def tr1_def
        split: prod.splits)
  have id: "to_id t1 = to_id t" by (simp add: t1_def)
  have g: "get_trigger tr1 (to_id t1) = Some (t1\<lparr>to_updated_at := utcnow c\<rparr>)"
    using put_get_trigger [of tr t1 c] assms(7) by (simp add: tr1_def id)
  note a = accumulate_spec [OF acc, unfolded g, simplified]
  have h: "held tr1 t1 = held tr t" by (simp add: held_def arb_position_of_def tr1_def t1_def split: option.split)
  have "\<exists>u. get_trigger tr2 (to_id t) = Some u \<and> to_status u = T_Failed \<and> to_error_kind u = Some ''partial'' \<and>
      to_arb_position_id u = Some (ap_id p)"
  proof (cases "arb_position_of tr1 t1")
    case None
    then show ?thesis
      using acc g id by (auto simp: accumulate_position_def Let_def get_put_trigger t1_def)
  next
    case (Some p0)
    then have "to_arb_position_id t1 = Some (ap_id p0)"
      by (auto simp: arb_position_of_def get_position_id split: option.splits)
    then show ?thesis using acc g id Some by (auto simp: accumulate_position_def Let_def t1_def)
  qed
  then obtain u where u: "get_trigger tr2 (to_id t) = Some u" "to_status u = T_Failed" "to_error_kind u = Some ''partial''"
      "to_arb_position_id u = Some (ap_id p)" by blast
  have pos: "arb_position_of tr' u = Some (p\<lparr>ap_status := AP_Partial, ap_updated_at := utcnow c\<rparr>)"
    using a(3) u(4) by (simp add: ex arb_position_of_def get_put_position)
  then have "held tr' u = (fst (held tr t) + (if is_fill l then filled_qty l q else 0),
                    snd (held tr t) + (if is_fill s then filled_qty s q else 0))"
    by (simp add: held_def [of tr'] a(1) merge_fill_qty base_held h)
  then show ?thesis using u pos by (simp add: ex)
qed

theorem one_leg_kept_witness:
  "\<exists>u. get_trigger (execute_open_portion sample_clock half_venue sample_order sample_trading) 1 = Some u \<and>
     to_status u = T_Failed \<and>
     held (execute_open_portion sample_clock half_venue sample_order sample_trading) u = (3, 0)"
proof -
  have w: "wallet_of sample_trading (to_long_wallet_id sample_order) = Some (new_wallet 2 1 Both 30)"
      "wallet_of sample_trading (to_short_wallet_id sample_order) = Some (new_wallet 4 1 Screener 10)"
      "portion_qty sample_order = Some 3" "(3 :: rat) \<noteq> 0" by code_simp+
  define r where "r = leg_replies half_venue sample_order (new_wallet 2 1 Both 30) (new_wallet 4 1 Screener 10)"
  have r: "leg_replies half_venue sample_order (new_wallet 2 1 Both 30) (new_wallet 4 1 Screener 10) = (fst r, snd r)"
      "is_fill (fst r)" "\<not> is_fill (snd r)" "filled_qty (fst r) 3 = 3"
    unfolding r_def by (simp, code_simp, code_simp, code_simp)
  have g: "get_trigger sample_trading (to_id sample_order) \<noteq> None" "to_id sample_order = 1" "held sample_trading sample_order = (0, 0)"
    by (simp_all add: held_def arb_position_of_def get_trigger_def sample_trading_def empty_trading_def sample_order_def new_trigger_def)
  show ?thesis
    using one_leg_kept [OF w r(1) _ g(1) refl, of sample_clock] r(2-4) g(2,3) by auto
qed

end
