(* ===== verification/Reconcile_Safety.thy ===== *)
theory Reconcile_Safety
  imports Reconcile Trigger_Safety
begin

text \<open>
  What pairing and reconciliation guarantee: legs are paired disjointly and completely, the
  open rows become an image of the venues' positions, and a position found closed takes its
  waiting orders with it.
\<close>

section \<open>Pairing\<close>

lemma can_pair_sym: "can_pair a b \<longleftrightarrow> can_pair b a"
  by (auto simp: can_pair_def abs_minus_commute add.commute)

lemma pair_groupD: "(a, b) \<in> set (pair_group ps) \<Longrightarrow> a \<in> set ps \<and> b \<in> set ps \<and> can_pair a b"
proof (induction ps rule: pair_group.induct)
  case (2 x rest)
  then show ?case by (auto split: option.splits simp: find_Some_iff)
qed simp

definition used_ids :: "(trade_position \<times> trade_position) list \<Rightarrow> int list" where
  "used_ids ab = concat (map (\<lambda>(a, b). [tp_id a, tp_id b]) ab)"

lemma used_ids_simps [simp]: "used_ids [] = []" "used_ids ((a, b) # ab) = tp_id a # tp_id b # used_ids ab"
    "used_ids (xs @ ys) = used_ids xs @ used_ids ys"
  by (simp_all add: used_ids_def)

lemma used_ids_subset: "set (used_ids (pair_group ps)) \<subseteq> tp_id ` set ps"
  by (auto simp: used_ids_def dest!: pair_groupD)

lemma pair_group_disjoint: "distinct (map tp_id ps) \<Longrightarrow> distinct (used_ids (pair_group ps))"
proof (induction ps rule: pair_group.induct)
  case (2 a rest)
  show ?case
  proof (cases "find (can_pair a) rest")
    case (Some b)
    let ?r = "filter (\<lambda>x. tp_id x \<noteq> tp_id b) rest"
    have "b \<in> set rest" using Some by (auto simp: find_Some_iff)
    moreover have "distinct (map tp_id ?r)" using 2(3) by (simp add: distinct_map inj_on_def)
    ultimately show ?thesis
      using 2(2) [OF Some] 2(3) used_ids_subset [of ?r] by (auto simp: Some)
  qed (use 2 in auto)
qed simp

text \<open>The group is exhausted: no two legs left over fit.\<close>

lemma pair_group_complete:
  assumes "distinct (map tp_id ps)" and "a \<in> set ps" and "b \<in> set ps" and "tp_id a \<noteq> tp_id b"
    and "tp_id a \<notin> set (used_ids (pair_group ps))" and "tp_id b \<notin> set (used_ids (pair_group ps))"
  shows "\<not> can_pair a b"
  using assms
proof (induction ps arbitrary: a b rule: pair_group.induct)
  case (2 x rest)
  show ?case
  proof (cases "find (can_pair x) rest")
    case None
    have free: "y \<in> set rest \<Longrightarrow> \<not> can_pair x y" for y using None by (auto simp: find_None_iff)
    show ?thesis
      using 2(1) [OF None, of a b] 2(3-) None free can_pair_sym by (auto split: option.splits)
  next
    case (Some y)
    let ?r = "filter (\<lambda>z. tp_id z \<noteq> tp_id y) rest"
    have "distinct (map tp_id ?r)" using 2(3) by (simp add: distinct_map inj_on_def)
    then show ?thesis using 2(2) [OF Some, of a b] 2(3-) by (auto simp: Some)
  qed
qed simp

lemma pair_group_none: "(\<And>a b. a \<in> set ps \<Longrightarrow> b \<in> set ps \<Longrightarrow> tp_id a \<noteq> tp_id b \<Longrightarrow> \<not> can_pair a b) \<Longrightarrow>
  distinct (map tp_id ps) \<Longrightarrow> pair_group ps = []"
proof (induction ps rule: pair_group.induct)
  case (2 a rest)
  have "find (can_pair a) rest = None"
    unfolding find_None_iff using 2(3) [of a] 2(4) by (fastforce simp: image_iff)
  then show ?case using 2(1) 2(3,4) by auto
qed simp

lemma in_pairs_of: "(a, b) \<in> set (pairs_of ps) \<Longrightarrow>
  a \<in> set ps \<and> b \<in> set ps \<and> can_pair a b \<and> upper (tp_symbol a) = upper (tp_symbol b)"
  by (auto simp: pairs_of_def dest!: pair_groupD)

abbreviation bucket_of :: "string \<Rightarrow> trade_position list \<Rightarrow> trade_position list" where
  "bucket_of s ps \<equiv> filter (\<lambda>p. upper (tp_symbol p) = s) ps"

lemma used_in_bucket:
  "i \<in> set (used_ids (pairs_of ps)) \<longleftrightarrow> (\<exists>s \<in> set (map (\<lambda>p. upper (tp_symbol p)) ps). i \<in> set (used_ids (pair_group (bucket_of s ps))))"
  by (auto simp: pairs_of_def used_ids_def)

lemma pairs_of_disjoint:
  assumes "distinct (map tp_id ps)"
  shows "distinct (used_ids (pairs_of ps))"
proof -
  have "distinct (used_ids (concat (map (\<lambda>s. pair_group (bucket_of s ps)) ss)))" if "distinct ss" for ss
    using that
  proof (induction ss)
    case (Cons s ss)
    have d: "distinct (map tp_id (bucket_of s ps))" for s using assms by (simp add: distinct_map inj_on_def)
    have "i \<notin> set (used_ids (concat (map (\<lambda>s. pair_group (bucket_of s ps)) ss)))"
      if i: "i \<in> set (used_ids (pair_group (bucket_of s ps)))" for i
    proof
      assume "i \<in> set (used_ids (concat (map (\<lambda>s. pair_group (bucket_of s ps)) ss)))"
      then obtain s' where s': "s' \<in> set ss" "i \<in> set (used_ids (pair_group (bucket_of s' ps)))"
        by (auto simp: used_ids_def)
      obtain p where "p \<in> set (bucket_of s ps)" "tp_id p = i"
        using used_ids_subset [of "bucket_of s ps"] i by auto
      moreover obtain p' where "p' \<in> set (bucket_of s' ps)" "tp_id p' = i"
        using used_ids_subset [of "bucket_of s' ps"] s'(2) by auto
      ultimately show False using assms s'(1) Cons.prems by (auto simp: distinct_map inj_on_def)
    qed
    then show ?case using Cons pair_group_disjoint [OF d] by auto
  qed simp
  then show ?thesis by (simp add: pairs_of_def)
qed

text \<open>What wrapping does to the legs.\<close>

definition legs_distinct :: "trading \<Rightarrow> bool" where
  "legs_distinct tr \<longleftrightarrow> distinct (map tp_id (tr_legs tr))"

definition wrapped_leg :: "int set \<Rightarrow> trade_position \<Rightarrow> trade_position \<Rightarrow> bool" where
  "wrapped_leg A r r' \<longleftrightarrow> (if tp_id r \<in> A then \<exists>i. r' = r\<lparr>tp_arb_position_id := Some i\<rparr> else r' = r)"

lemma wrapped_leg_trans: "wrapped_leg A r q \<Longrightarrow> wrapped_leg B q p \<Longrightarrow> wrapped_leg (A \<union> B) r p"
  by (auto simp: wrapped_leg_def split: if_splits)

lemma wrap_pair_legs: "list_all2 (wrapped_leg {tp_id a, tp_id b}) (tr_legs tr) (tr_legs (wrap_pair c uid tr (a, b)))"
  by (auto simp: wrap_pair_def oriented_def Let_def row_upd_where_def wrapped_leg_def list_all2_map2
      intro!: list_all2_same [THEN iffD2] split: if_splits)

lemma wrap_legs: "list_all2 (wrapped_leg (set (used_ids ab))) (tr_legs tr) (tr_legs (foldl (wrap_pair c uid) tr ab))"
proof (induction ab arbitrary: tr)
  case Nil
  show ?case by (auto simp: wrapped_leg_def intro!: list_all2_same [THEN iffD2])
next
  case (Cons x ab)
  obtain a b where x: "x = (a, b)" by (cases x)
  have "list_all2 (wrapped_leg ({tp_id a, tp_id b} \<union> set (used_ids ab))) (tr_legs tr)
      (tr_legs (foldl (wrap_pair c uid) (wrap_pair c uid tr (a, b)) ab))"
    by (rule list_all2_trans [OF wrapped_leg_trans wrap_pair_legs Cons.IH])
  then show ?case by (simp add: x insert_commute)
qed

lemma wrapped_free:
  "list_all2 (wrapped_leg A) rs rs' \<Longrightarrow>
   filter (\<lambda>p. tp_user_id p = uid \<and> tp_arb_position_id p = None \<and> tp_status p = ''open'' \<and> tp_kind p = Single_Leg) rs' =
   filter (\<lambda>p. tp_id p \<notin> A)
     (filter (\<lambda>p. tp_user_id p = uid \<and> tp_arb_position_id p = None \<and> tp_status p = ''open'' \<and> tp_kind p = Single_Leg) rs)"
  by (induction rule: list_all2_induct) (auto simp: wrapped_leg_def split: if_splits)

lemma unwrapped_after:
  "unwrapped (auto_pair_internal_legs c uid tr) uid =
     filter (\<lambda>p. tp_id p \<notin> set (used_ids (pairs_of (unwrapped tr uid)))) (unwrapped tr uid)"
  unfolding auto_pair_internal_legs_def unwrapped_def [of _ uid] by (rule wrapped_free) (rule wrap_legs)

lemma wrap_positions: "length (tr_positions (foldl (wrap_pair c uid) tr ab)) = length (tr_positions tr) + length ab"
proof (induction ab arbitrary: tr)
  case (Cons x ab)
  have "length (tr_positions (wrap_pair c uid tr x)) = Suc (length (tr_positions tr))"
    by (simp add: wrap_pair_def Let_def split: prod.split)
  then show ?case using Cons by simp
qed simp

text \<open>
  C29. Pairing is disjoint, sound and complete. The legs a user has free are split into pairs
  in which no leg occurs twice; the two legs of a pair have the same symbol, opposite sides,
  different venues, matching notionals and close opening times; one position is created
  per pair; and no two free legs that fit are left, so pairing again changes nothing.
\<close>

theorem pairing_settles:
  assumes "legs_distinct tr" and "ab = pairs_of (unwrapped tr uid)" and "tr' = auto_pair_internal_legs c uid tr"
  shows "distinct (used_ids ab) \<and>
    (\<forall>(a, b) \<in> set ab. a \<in> set (unwrapped tr uid) \<and> b \<in> set (unwrapped tr uid) \<and>
       can_pair a b \<and> upper (tp_symbol a) = upper (tp_symbol b)) \<and>
    length (tr_positions tr') = length (tr_positions tr) + length ab \<and>
    auto_pair_internal_legs c' uid tr' = tr'"
proof -
  have d: "distinct (map tp_id (unwrapped tr uid))"
    using assms(1) by (simp add: legs_distinct_def unwrapped_def distinct_map inj_on_def)
  let ?free = "filter (\<lambda>p. tp_id p \<notin> set (used_ids ab)) (unwrapped tr uid)"
  have "pair_group (bucket_of s ?free) = []" for s
  proof (rule pair_group_none)
    show "distinct (map tp_id (bucket_of s ?free))" using d by (simp add: distinct_map inj_on_def)
    fix a b assume ab: "a \<in> set (bucket_of s ?free)" "b \<in> set (bucket_of s ?free)" "tp_id a \<noteq> tp_id b"
    have "x \<in> set (bucket_of s ?free) \<Longrightarrow> tp_id x \<notin> set (used_ids (pair_group (bucket_of s (unwrapped tr uid))))" for x
      using used_in_bucket [of "tp_id x" "unwrapped tr uid"] by (auto simp: assms(2))
    moreover have "distinct (map tp_id (bucket_of s (unwrapped tr uid)))" using d by (simp add: distinct_map inj_on_def)
    ultimately show "\<not> can_pair a b"
      using pair_group_complete [of "bucket_of s (unwrapped tr uid)" a b] ab by auto
  qed
  then have "pairs_of ?free = []" by (simp add: pairs_of_def)
  then have "auto_pair_internal_legs c' uid tr' = tr'"
    by (simp add: assms(2,3) auto_pair_internal_legs_def [of c' uid "auto_pair_internal_legs c uid tr"] unwrapped_after)
  moreover have "distinct (used_ids ab)" using pairs_of_disjoint [OF d] by (simp add: assms(2))
  moreover have "length (tr_positions tr') = length (tr_positions tr) + length ab"
    by (simp add: assms(2,3) auto_pair_internal_legs_def wrap_positions)
  ultimately show ?thesis using in_pairs_of by (auto simp: assms(2))
qed

definition sample_leg :: "int \<Rightarrow> int \<Rightarrow> string \<Rightarrow> string \<Rightarrow> string \<Rightarrow> rat \<Rightarrow> time \<Rightarrow> trade_position" where
  "sample_leg i wid ex symbol sd price opened = \<lparr>
     tp_id = i, tp_user_id = 1, tp_kind = Single_Leg, tp_status = ''open'', tp_symbol = symbol,
     tp_leg_a_wallet_id = Some wid, tp_leg_a_exchange = ex, tp_leg_a_side = sd, tp_leg_a_qty = 3,
     tp_leg_a_entry_price = Some price, tp_leg_a_exit_price = None, tp_leg_a_realized_pnl_usd = None,
     tp_leg_a_funding_pnl_usd = None,
     tp_leg_a_fees_usd = None, tp_leg_a_market = ''futures'', tp_leg_a_open_order_id = None, tp_leg_a_close_order_id = None,
     tp_leg_b_realized_pnl_usd = None, tp_leg_b_funding_pnl_usd = None, tp_source = ''platform'', tp_realized_pnl_usd = None,
     tp_opened_externally = False, tp_closed_externally = False, tp_opened_at = opened, tp_closed_at = None,
     tp_arb_position_id = None\<rparr>"

definition legs_trading :: trading where
  "legs_trading = (empty_trading sample_world)\<lparr>tr_legs :=
     [sample_leg 1 2 ''okx'' ''BTC'' ''buy'' 101 0, sample_leg 2 4 ''gate'' ''btc'' ''sell'' 109 60000000,
      sample_leg 3 4 ''gate'' ''ETH'' ''sell'' 109 0]\<rparr>"

theorem pairing_settles_witness:
  "map (\<lambda>(a, b). (tp_id a, tp_id b)) (pairs_of (unwrapped legs_trading 1)) = [(1, 2)] \<and>
   auto_pair_internal_legs later_clock 1 (auto_pair_internal_legs sample_clock 1 legs_trading) =
     auto_pair_internal_legs sample_clock 1 legs_trading"
proof -
  have "legs_distinct legs_trading" by code_simp
  moreover have "map (\<lambda>(a, b). (tp_id a, tp_id b)) (pairs_of (unwrapped legs_trading 1)) = [(1, 2)]" by code_simp
  ultimately show ?thesis
    using pairing_settles [of legs_trading _ 1, OF _ refl refl, of sample_clock later_clock] by blast
qed

section \<open>Legs\<close>

lemma live_by_fp_dom: "live_by_fp live fp \<noteq> None \<longleftrightarrow> fp \<in> set (map fingerprint_of (filter (\<lambda>p. fst (fingerprint_of p) \<noteq> 0) live))"
  unfolding live_by_fp_def by (force simp: map_of_eq_None_iff rev_map)

lemma live_fp_normal:
  assumes "live_by_fp live fp \<noteq> None"
  shows "fst fp \<noteq> 0 \<and> upper (fst (snd fp)) = fst (snd fp) \<and> lower (snd (snd fp)) = snd (snd fp)"
  using assms unfolding live_by_fp_dom by (auto simp: fingerprint_of_def text_simps)

lemma settle_leg_fp [simp]: "leg_fp (settle_leg c tr live uid r) = leg_fp r"
  by (simp add: settle_leg_def leg_fp_def refresh_leg_def close_leg_def Let_def split: option.split)

lemma open_settled: "open_single uid (settle_leg c tr live uid r) \<longleftrightarrow> open_single uid r \<and> live_by_fp live (leg_fp r) \<noteq> None"
  by (auto simp: settle_leg_def open_single_def refresh_leg_def close_leg_def Let_def split: option.split)

lemma settled_other [simp]: "tp_user_id r \<noteq> uid \<Longrightarrow> settle_leg c tr live uid r = r"
  by (simp add: settle_leg_def open_single_def)

lemma settled_user [simp]: "tp_user_id (settle_leg c tr live uid r) = tp_user_id r"
  by (simp add: settle_leg_def refresh_leg_def close_leg_def Let_def split: option.split)

definition mirrors :: "live_position list \<Rightarrow> int \<Rightarrow> trade_position \<Rightarrow> bool" where
  "mirrors live uid r \<longleftrightarrow> (open_single uid r \<longrightarrow>
     live_by_fp live (leg_fp r) \<noteq> None \<and>
     (live_qty (live_by_fp live (leg_fp r)) \<noteq> 0 \<longrightarrow> tp_leg_a_qty r = live_qty (live_by_fp live (leg_fp r))))"

lemma or_else_value: "(case x of None \<Rightarrow> 0 | Some y \<Rightarrow> y) \<noteq> 0 \<Longrightarrow> or_else x d = (case x of None \<Rightarrow> 0 | Some y \<Rightarrow> y)"
  by (cases x) auto

lemma settled_mirrors: "mirrors live uid (settle_leg c tr live uid r)"
  by (cases "live_by_fp live (leg_fp r)"; cases "open_single uid r")
     (auto simp: mirrors_def open_settled settle_leg_def refresh_leg_def live_qty_def close_leg_def Let_def open_single_def
        leg_fp_def or_else_value)

lemma new_leg_fp:
  assumes "live_by_fp live fp = Some p"
  shows "leg_fp (new_leg c i uid fp p oid) = fp" and "open_single uid (new_leg c i uid fp p oid)"
    and "mirrors live uid (new_leg c i uid fp p oid)"
proof -
  show fp: "leg_fp (new_leg c i uid fp p oid) = fp"
    using live_fp_normal [of live fp] assms by (simp add: leg_fp_def new_leg_def)
  show "open_single uid (new_leg c i uid fp p oid)" by (simp add: open_single_def new_leg_def)
  show "mirrors live uid (new_leg c i uid fp p oid)"
    using fp assms by (simp add: mirrors_def live_qty_def) (simp add: new_leg_def)
qed

lemma insert_leg_legs:
  assumes "live_by_fp live fp = Some p"
  shows "\<exists>i oid. tr_legs (insert_leg c uid live tr fp) = tr_legs tr @ [new_leg c i uid fp p oid]"
  using assms by (cases fp) (auto simp: insert_leg_def Let_def)

lemma insert_legs:
  assumes "\<forall>fp \<in> set fps. live_by_fp live fp \<noteq> None"
  shows "\<exists>new. tr_legs (foldl (insert_leg c uid live) tr fps) = tr_legs tr @ new \<and> map leg_fp new = fps \<and>
    (\<forall>r \<in> set new. open_single uid r \<and> mirrors live uid r)"
  using assms
proof (induction fps arbitrary: tr)
  case (Cons fp fps)
  then obtain p where p: "live_by_fp live fp = Some p" by auto
  obtain i oid where n: "tr_legs (insert_leg c uid live tr fp) = tr_legs tr @ [new_leg c i uid fp p oid]"
    using insert_leg_legs [OF p] by blast
  obtain new where "tr_legs (foldl (insert_leg c uid live) (insert_leg c uid live tr fp) fps) =
      tr_legs (insert_leg c uid live tr fp) @ new" "map leg_fp new = fps" "\<forall>r \<in> set new. open_single uid r \<and> mirrors live uid r"
    using Cons by (metis list.set_intros(2))
  then show ?case using n new_leg_fp [OF p] by (intro exI [of _ "new_leg c i uid fp p oid # new"]) auto
qed simp

lemma reconciled_legs:
  "\<exists>new. tr_legs (reconcile_legs c uid live tr) = map (settle_leg c tr live uid) (tr_legs tr) @ new \<and>
     map leg_fp new = new_fps tr uid live \<and> (\<forall>r \<in> set new. open_single uid r \<and> mirrors live uid r)"
proof -
  have "\<forall>fp \<in> set (new_fps tr uid live). live_by_fp live fp \<noteq> None"
    unfolding live_by_fp_dom by (auto simp: new_fps_def)
  from insert_legs [OF this, of c uid "tr\<lparr>tr_legs := map (settle_leg c tr live uid) (tr_legs tr)\<rparr>"]
  show ?thesis by (simp add: reconcile_legs_def)
qed

lemma set_new_fps: "set (new_fps tr uid live) = {fp. live_by_fp live fp \<noteq> None} - set (seen_fps tr uid)"
  unfolding live_by_fp_dom by (auto simp: new_fps_def)

lemma seen_after: "set (seen_fps (reconcile_legs c uid live tr) uid) = {fp. live_by_fp live fp \<noteq> None}"
proof -
  obtain new where n: "tr_legs (reconcile_legs c uid live tr) = map (settle_leg c tr live uid) (tr_legs tr) @ new"
      "map leg_fp new = new_fps tr uid live" "\<forall>r \<in> set new. open_single uid r"
    using reconciled_legs [of c uid live tr] by blast
  have "set (seen_fps (reconcile_legs c uid live tr) uid) =
      {leg_fp r |r. r \<in> set (tr_legs tr) \<and> open_single uid r \<and> live_by_fp live (leg_fp r) \<noteq> None} \<union> leg_fp ` set new"
  proof -
    have "set (seen_fps (reconcile_legs c uid live tr) uid) =
        leg_fp ` (set (filter (open_single uid) (map (settle_leg c tr live uid) (tr_legs tr))) \<union> set new)"
      using n(3) by (simp add: seen_fps_def n(1) image_Un inf.absorb1 subset_iff filter_id_conv)
    also have "leg_fp ` set (filter (open_single uid) (map (settle_leg c tr live uid) rs)) =
        {leg_fp r |r. r \<in> set rs \<and> open_single uid r \<and> live_by_fp live (leg_fp r) \<noteq> None}" for rs
      by (induction rs) (auto simp: open_settled)
    ultimately show ?thesis by (simp add: image_Un)
  qed
  also have "leg_fp ` set new = set (new_fps tr uid live)" using n(2) by (metis set_map)
  finally show ?thesis by (auto simp: set_new_fps seen_fps_def)
qed

lemma mirrored_after: "\<forall>r \<in> set (tr_legs (reconcile_legs c uid live tr)). mirrors live uid r"
  using reconciled_legs [of c uid live tr] settled_mirrors by auto

lemma others_after:
  "filter (\<lambda>r. tp_user_id r \<noteq> uid) (tr_legs (reconcile_legs c uid live tr)) = filter (\<lambda>r. tp_user_id r \<noteq> uid) (tr_legs tr)"
proof -
  obtain new where n: "tr_legs (reconcile_legs c uid live tr) = map (settle_leg c tr live uid) (tr_legs tr) @ new"
      "\<forall>r \<in> set new. open_single uid r"
    using reconciled_legs [of c uid live tr] by blast
  have "filter (\<lambda>r. tp_user_id r \<noteq> uid) new = []" using n(2) by (auto simp: filter_empty_conv open_single_def)
  moreover have "filter (\<lambda>r. tp_user_id r \<noteq> uid) (map (settle_leg c tr live uid) rs) = filter (\<lambda>r. tp_user_id r \<noteq> uid) rs" for rs
    by (induction rs) auto
  ultimately show ?thesis by (simp add: n(1))
qed

text \<open>What follows in the same pass changes of the legs only the position they belong to.\<close>

lemma put_changed_legs [simp]: "tr_legs (put_changed c p q tr) = tr_legs tr"
  and put_changed_triggers [simp]: "tr_triggers (put_changed c p q tr) = tr_triggers tr"
  and cancel_closed_frame [simp]: "tr_legs (cancel_closed c i tr) = tr_legs tr" "tr_positions (cancel_closed c i tr) = tr_positions tr"
  by (simp_all add: put_changed_def cancel_closed_def)

lemma reconcile_position_legs [simp]: "tr_legs (reconcile_position c live tr p) = tr_legs tr"
  unfolding reconcile_position_def Let_def by simp

lemma reconcile_positions_legs: "tr_legs (foldl (reconcile_position c live) tr ps) = tr_legs tr"
  by (induction ps arbitrary: tr) simp_all

lemma wrapped_leg_view:
  assumes "wrapped_leg A r r'"
  shows "open_single uid r' = open_single uid r" "leg_fp r' = leg_fp r" "mirrors live uid r' = mirrors live uid r"
    "tp_user_id r' = tp_user_id r"
  using assms by (auto simp: wrapped_leg_def open_single_def leg_fp_def mirrors_def split: if_splits)

lemma pass_legs:
  "\<exists>A. list_all2 (wrapped_leg A) (tr_legs (reconcile_legs c uid live tr)) (tr_legs (snd (reconcile_user c uid (Some live) tr)))"
proof -
  let ?ps = "filter (\<lambda>p. ap_user_id p = uid \<and> ap_status p \<in> {AP_Open, AP_Partial, AP_Closing}) (tr_positions (reconcile_legs c uid live tr))"
  let ?tr = "foldl (reconcile_position c live) (reconcile_legs c uid live tr) ?ps"
  have "snd (reconcile_user c uid (Some live) tr) = auto_pair_internal_legs c uid ?tr"
    by (simp add: reconcile_user_def Let_def reconcile_arb_positions_def)
  moreover have "tr_legs ?tr = tr_legs (reconcile_legs c uid live tr)" by (rule reconcile_positions_legs)
  ultimately show ?thesis
    using wrap_legs [of "pairs_of (unwrapped ?tr uid)" ?tr c uid] by (auto simp: auto_pair_internal_legs_def)
qed

lemma wrapped_filter:
  "list_all2 (wrapped_leg A) rs rs' \<Longrightarrow>
     map leg_fp (filter (open_single uid) rs') = map leg_fp (filter (open_single uid) rs) \<and>
     ((\<forall>r \<in> set rs'. mirrors live uid r) \<longleftrightarrow> (\<forall>r \<in> set rs. mirrors live uid r))"
  by (induction rule: list_all2_induct) (auto simp: wrapped_leg_view)

text \<open>
  C16. The open rows mirror the venues. After the leg pass the fingerprints (wallet, symbol,
  side) of a user's open rows are exactly those of the live positions; every open row carries
  the live quantity where the venue reports one; the rows of other users are untouched; and a
  second pass over the same positions opens and closes nothing.
\<close>

theorem open_rows_mirror_venues:
  assumes "reconcile_user c uid (Some live) tr = (n, tr')"
  shows "set (seen_fps tr' uid) = {fp. live_by_fp live fp \<noteq> None} \<and>
    (\<forall>r \<in> set (tr_legs tr'). open_single uid r \<longrightarrow> live_qty (live_by_fp live (leg_fp r)) \<noteq> 0 \<longrightarrow>
       tp_leg_a_qty r = live_qty (live_by_fp live (leg_fp r))) \<and>
    filter (\<lambda>r. tp_user_id r \<noteq> uid) (tr_legs (reconcile_legs c uid live tr)) = filter (\<lambda>r. tp_user_id r \<noteq> uid) (tr_legs tr) \<and>
    fst (reconcile_user c' uid (Some live) tr') = (0, 0, length (seen_fps tr' uid))"
proof -
  have tr': "tr' = snd (reconcile_user c uid (Some live) tr)" using assms by simp
  obtain A where A: "list_all2 (wrapped_leg A) (tr_legs (reconcile_legs c uid live tr)) (tr_legs tr')"
    unfolding tr' using pass_legs by blast
  have seen: "set (seen_fps tr' uid) = {fp. live_by_fp live fp \<noteq> None}"
    using wrapped_filter [OF A, of uid] seen_after [of c uid live tr] by (simp add: seen_fps_def)
  have mir: "\<forall>r \<in> set (tr_legs tr'). mirrors live uid r"
    using wrapped_filter [OF A] mirrored_after by blast
  have "filter (\<lambda>r. live_by_fp live (leg_fp r) \<noteq> None) (filter (open_single uid) (tr_legs tr')) = filter (open_single uid) (tr_legs tr')"
    using mir by (auto simp: mirrors_def intro!: filter_cong)
  moreover have "new_fps tr' uid live = []" using set_new_fps [of tr' uid live] seen by auto
  ultimately have "fst (reconcile_user c' uid (Some live) tr') = (0, 0, length (seen_fps tr' uid))"
    by (simp add: reconcile_user_def Let_def seen_fps_def)
  then show ?thesis using seen mir others_after by (auto simp: mirrors_def)
qed

definition sample_live :: "live_position list" where
  "sample_live =
     [\<lparr>lv_wallet_id = Some 2, lv_exchange = ''OKX'', lv_symbol = ''btc'', lv_side = ''buy'', lv_quantity = Some 4,
       lv_entry_price = Some 101, lv_funding_pnl_usd = None\<rparr>,
      \<lparr>lv_wallet_id = Some 4, lv_exchange = ''GATE'', lv_symbol = ''SOL'', lv_side = ''Sell'', lv_quantity = Some 2,
       lv_entry_price = Some 7, lv_funding_pnl_usd = None\<rparr>]"

theorem open_rows_mirror_venues_witness:
  "set (seen_fps (snd (reconcile_user sample_clock 1 (Some sample_live) legs_trading)) 1) = {(2, ''BTC'', ''buy''), (4, ''SOL'', ''sell'')} \<and>
   fst (reconcile_user sample_clock 1 (Some sample_live) legs_trading) = (1, 2, 1)"
proof -
  obtain n tr' where r: "reconcile_user sample_clock 1 (Some sample_live) legs_trading = (n, tr')"
    by (cases "reconcile_user sample_clock 1 (Some sample_live) legs_trading")
  have "set (map fingerprint_of (filter (\<lambda>p. fst (fingerprint_of p) \<noteq> 0) sample_live)) = {(2, ''BTC'', ''buy''), (4, ''SOL'', ''sell'')}"
    by code_simp
  then have "{fp. live_by_fp sample_live fp \<noteq> None} = {(2, ''BTC'', ''buy''), (4, ''SOL'', ''sell'')}"
    unfolding live_by_fp_dom by blast
  moreover have "fst (reconcile_user sample_clock 1 (Some sample_live) legs_trading) = (1, 2, 1)" by code_simp
  ultimately show ?thesis using open_rows_mirror_venues [OF r, of sample_clock] by (simp add: r)
qed

section \<open>Positions\<close>

lemma in_cancel_closed:
  assumes "x \<in> set (tr_triggers (cancel_closed c i tr))" and "to_arb_position_id x = Some i"
  shows "to_status x \<notin> {T_Pending, T_Firing, T_Scheduled}"
proof -
  obtain y where y: "x = (if to_arb_position_id y = Some i \<and> to_status y \<in> {T_Pending, T_Firing, T_Scheduled}
       then y\<lparr>to_status := T_Cancelled, to_error_kind := Some ''pos_closed_ext'',
              to_error_message := Some ''reconcile detected external close'', to_updated_at := utcnow c\<rparr> else y)"
    using assms(1) unfolding cancel_closed_def row_upd_where_def
    by (simp only: trigger_tab.rows_rows_update set_map image_iff) blast
  show ?thesis
    by (cases "to_arb_position_id y = Some i \<and> to_status y \<in> {T_Pending, T_Firing, T_Scheduled}")
       (use y assms(2) in auto)
qed

lemma get_put_changed:
  "get_position tr (ap_id p) = Some p \<Longrightarrow> ap_id q = ap_id p \<Longrightarrow>
     \<exists>p'. get_position (put_changed c p q tr) (ap_id p) = Some p' \<and> p'\<lparr>ap_updated_at := 0\<rparr> = q\<lparr>ap_updated_at := 0\<rparr>"
  by (auto simp: put_changed_def get_put_position)

lemma same_but_updated:
  assumes "p\<lparr>ap_updated_at := 0\<rparr> = q\<lparr>ap_updated_at := 0\<rparr>"
  shows "ap_status p = ap_status q" "ap_long_qty p = ap_long_qty q" "ap_short_qty p = ap_short_qty q"
  using assms by (cases p; cases q; simp)+



text \<open>
  Where this meets the trigger service: after a close of which only the long leg went through
  the position is partial and still carries both quantities, so the next pass, which sees
  that the long leg is gone and the short one alive, writes the whole position off and
  cancels its orders while the short leg stays open at the venue.
\<close>

definition short_only :: "live_position list" where
  "short_only = [\<lparr>lv_wallet_id = Some 4, lv_exchange = ''gate'', lv_symbol = ''BTC'', lv_side = ''sell'', lv_quantity = Some 3,
     lv_entry_price = Some 109, lv_funding_pnl_usd = None\<rparr>]"

definition no_cover_venue :: venue where
  "no_cover_venue = calm_venue\<lparr>vn_close := (\<lambda>q. if cq_side q = ''buy'' then Raised ''timeout'' else vn_close calm_venue q)\<rparr>"

theorem half_closed_written_off:
  "(let tr1 = execute_close sample_clock no_cover_venue (sample_tp 1 K_Tp T_Firing) closing_trading;
        tr2 = snd (reconcile_user later_clock 1 (Some short_only) tr1)
    in map ap_status (tr_positions tr1) = [AP_Partial] \<and>
       map (\<lambda>p. live_qty (live_by_fp short_only (short_fp p))) (tr_positions tr1) = [3] \<and>
       map ap_status (tr_positions tr2) = [AP_Closed] \<and> map to_status (tr_triggers tr2) = [T_Failed, T_Cancelled])"
  by code_simp

end
