(* ===== verification/Arb_Safety.thy ===== *)
theory Arb_Safety
  imports Arb_Orders Reconcile_Safety
begin

text \<open>
  The trading panel as a whole: the routes, the loop and the reconciliation worker acting on one
  database in any order. What they keep of the trigger orders, what the guards of order
  creation achieve, and where they fall short.
\<close>

section \<open>Calm changes of the orders\<close>

text \<open>
  Most operations change the orders row by row, never give one another kind, never reactivate a
  finished one, never take back a portion, and link none but an opening order to a position.
\<close>

definition calm_row :: "trigger \<Rightarrow> trigger \<Rightarrow> bool" where
  "calm_row t t' \<longleftrightarrow> to_id t' = to_id t \<and> to_kind t' = to_kind t \<and> to_user_id t' = to_user_id t \<and>
     (active t' \<longrightarrow> active t) \<and> to_portions_filled t \<le> to_portions_filled t' \<and>
     (to_kind t \<noteq> K_Open \<longrightarrow> to_arb_position_id t' = to_arb_position_id t)"

definition calm :: "trading \<Rightarrow> trading \<Rightarrow> bool" where
  "calm tr tr' \<longleftrightarrow> list_all2 calm_row (tr_triggers tr) (tr_triggers tr')"

lemma calm_row_refl [simp]: "calm_row t t"
  by (simp add: calm_row_def)

lemma calm_row_trans: "calm_row a b \<Longrightarrow> calm_row b d \<Longrightarrow> calm_row a d"
  by (auto simp: calm_row_def)

lemma calm_same [simp]: "tr_triggers tr' = tr_triggers tr \<Longrightarrow> calm tr tr'"
  by (simp add: calm_def list_all2_same)

lemma calm_trans: "calm a b \<Longrightarrow> calm b d \<Longrightarrow> calm a d"
  unfolding calm_def by (rule list_all2_trans [OF calm_row_trans])

lemma calm_ids: "calm tr tr' \<Longrightarrow> map to_id (tr_triggers tr') = map to_id (tr_triggers tr)"
  unfolding calm_def by (induction rule: list_all2_induct) (auto simp: calm_row_def)

lemma calm_distinct: "calm tr tr' \<Longrightarrow> triggers_distinct tr' = triggers_distinct tr"
  by (simp add: triggers_distinct_def calm_ids)

lemma calm_get: "calm tr tr' \<Longrightarrow> get_trigger tr i = Some t \<Longrightarrow> \<exists>t'. get_trigger tr' i = Some t' \<and> calm_row t t'"
proof -
  have "list_all2 calm_row ts ts' \<Longrightarrow> row_get to_id ts i = Some t \<Longrightarrow> \<exists>t'. row_get to_id ts' i = Some t' \<and> calm_row t t'" for ts ts'
    by (induction rule: list_all2_induct) (auto simp: calm_row_def split: if_splits)
  then show "calm tr tr' \<Longrightarrow> get_trigger tr i = Some t \<Longrightarrow> ?thesis" by (simp add: calm_def get_trigger_def)
qed

lemma calm_where:
  assumes "\<And>t. P t \<Longrightarrow> active t \<or> st \<notin> {T_Pending, T_Firing, T_Scheduled}"
  shows "calm tr (set_status_where c st P tr)"
proof -
  have "list_all2 calm_row ts (row_upd_where P (\<lambda>t. t\<lparr>to_status := st, to_updated_at := utcnow c\<rparr>) ts)" for ts
    using assms by (induction ts) (auto simp: row_upd_where_def calm_row_def active_def)
  then show ?thesis by (simp add: calm_def set_status_where_def)
qed

lemma calm_put:
  assumes "triggers_distinct tr" and "get_trigger tr (to_id t') = Some t" and "calm_row t t'"
  shows "calm tr (put_trigger c t' tr)"
proof -
  have "distinct (map to_id ts) \<Longrightarrow> row_get to_id ts (to_id t') = Some t \<Longrightarrow>
      list_all2 calm_row ts (row_upd to_id (to_id t') (\<lambda>_. t'\<lparr>to_updated_at := utcnow c\<rparr>) ts)" for ts
  proof (induction ts)
    case (Cons x ts)
    have same: "list_all2 calm_row ts ts" by (simp add: list_all2_same)
    have "calm_row t (t'\<lparr>to_updated_at := utcnow c\<rparr>)" using assms(3) by (simp add: calm_row_def active_def)
    then show ?case using Cons same by (auto simp: row_upd_absent image_iff split: if_splits)
  qed simp
  then show ?thesis using assms(1,2) by (simp add: calm_def triggers_distinct_def get_trigger_def put_trigger_def)
qed

lemma calm_position [simp]: "calm tr (put_position c p tr)"
  by simp

section \<open>The loop is calm\<close>

lemma accumulate_calm:
  assumes "triggers_distinct tr" and "get_trigger tr (to_id t) = Some u" and "to_kind t = K_Open" and "calm_row u t"
    and "accumulate_position c tr t a b d e = (p, t', tr')"
  shows "calm tr tr' \<and> to_kind t' = K_Open \<and> to_id t' = to_id t \<and>
    (\<exists>u'. get_trigger tr' (to_id t) = Some u' \<and> calm_row u' t') \<and> to_portions_filled t' = to_portions_filled t \<and> active t' = active t"
proof (cases "arb_position_of tr t")
  case (Some q)
  then show ?thesis using assms by (auto simp: accumulate_position_def Let_def)
next
  case None
  let ?t = "t\<lparr>to_arb_position_id := Some (ap_id (position_for c tr t))\<rparr>"
  let ?tr = "tr_positions_update (\<lambda>ps. ps @ [position_for c tr t]) tr"
  have t': "t' = ?t" and tr': "tr' = put_position c p (put_trigger c ?t ?tr)"
    using assms(5) None by (auto simp: accumulate_position_def Let_def)
  have row: "calm_row u ?t" using assms(3,4) by (auto simp: calm_row_def active_def)
  have "calm ?tr (put_trigger c ?t ?tr)" by (rule calm_put) (use assms(1,2) row in simp_all)
  then have "calm tr tr'" by (simp add: calm_def tr')
  moreover have "\<exists>u'. get_trigger tr' (to_id t) = Some u' \<and> calm_row u' t'"
    using assms(2) by (auto simp: tr' t' get_put_trigger calm_row_def active_def)
  ultimately show ?thesis using assms(3) by (simp add: t' active_def)
qed

lemma fail_trigger_calm:
  assumes "triggers_distinct tr" and "get_trigger tr (to_id t) = Some t"
  shows "calm tr (fail_trigger c k m t tr)"
  unfolding fail_trigger_def by (rule calm_put [OF assms(1), of _ t]) (use assms(2) in \<open>simp_all add: calm_row_def active_def\<close>)

lemma portion_done_calm:
  assumes "triggers_distinct tr" and "get_trigger tr (to_id t) = Some u" and "calm_row u t" and "active u"
  shows "calm tr (portion_done c t tr)"
proof -
  define t2 where "t2 = t\<lparr>to_portions_filled := to_portions_filled t + 1, to_last_fired_at := Some (utcnow c),
    to_status := after_portion (t\<lparr>to_portions_filled := to_portions_filled t + 1, to_last_fired_at := Some (utcnow c)\<rparr>)\<rparr>"
  have "calm tr (put_trigger c t2 tr)"
    by (rule calm_put [OF assms(1), of _ u]) (use assms(2-4) in \<open>simp_all add: t2_def calm_row_def\<close>)
  moreover have "calm tr1 (set_status_where c T_Pending (\<lambda>x. to_parent_trigger_id x = Some (to_id t) \<and> to_status x = T_Scheduled) tr1)" for tr1
    by (rule calm_where) (simp add: active_def)
  moreover have "portion_done c t tr = (if to_status t2 = T_Fired
      then set_status_where c T_Pending (\<lambda>x. to_parent_trigger_id x = Some (to_id t) \<and> to_status x = T_Scheduled) (put_trigger c t2 tr)
      else put_trigger c t2 tr)"
    by (simp add: portion_done_def Let_def t2_def)
  ultimately show ?thesis by (auto intro: calm_trans)
qed

lemma execute_open_calm:
  assumes "triggers_distinct tr" and "get_trigger tr (to_id t) = Some t" and "to_kind t = K_Open" and "active t"
  shows "calm tr (execute_open_portion c v t tr)"
proof -
  have failed: "calm tr (portion_failed c t q l s tr)" for q l s
  proof -
    define t1 where "t1 = t\<lparr>to_status := T_Failed,
      to_error_kind := Some (if is_fill l \<or> is_fill s then ''partial'' else ''exchange''),
      to_error_message := Some (join_errors [(''long'', l, is_fill l), (''short'', s, is_fill s)]),
      to_last_fired_at := Some (utcnow c)\<rparr>"
    have row: "calm_row t t1" "to_kind t1 = K_Open" "to_id t1 = to_id t"
      using assms(3) by (simp_all add: t1_def calm_row_def active_def)
    have put: "calm tr (put_trigger c t1 tr)" by (rule calm_put [OF assms(1), of _ t]) (use assms(2) row in simp_all)
    have d: "triggers_distinct (put_trigger c t1 tr)" using assms(1) by simp
    have g: "get_trigger (put_trigger c t1 tr) (to_id t1) = Some (t1\<lparr>to_updated_at := utcnow c\<rparr>)"
      using put_get_trigger [of tr t1 c] assms(2) row(3) by simp
    have r: "calm_row (t1\<lparr>to_updated_at := utcnow c\<rparr>) t1" by (simp add: calm_row_def active_def)
    obtain p t2 tr2 where acc: "accumulate_position c (put_trigger c t1 tr) t1
        (if is_fill l then avg_price l else 0) (if is_fill l then filled_qty l q else 0)
        (if is_fill s then avg_price s else 0) (if is_fill s then filled_qty s q else 0) = (p, t2, tr2)"
      by (metis prod_cases3)
    have "calm (put_trigger c t1 tr) tr2" using accumulate_calm [OF d g row(2) r acc] by blast
    then have "calm tr (put_position c q' tr2)" for q' using put by (meson calm_position calm_trans)
    moreover have "portion_failed c t q l s tr = (if is_fill l \<or> is_fill s
        then put_position c (p\<lparr>ap_status := AP_Partial\<rparr>) tr2 else put_trigger c t1 tr)"
      unfolding portion_failed_def Let_def t1_def [symmetric] acc by simp
    ultimately show ?thesis using put by simp
  qed
  have filled: "calm tr (portion_done c t1 tr1)" if "accumulate_position c tr t a b d e = (p, t1, tr1)" for a b d e p t1 tr1
  proof -
    have "calm_row t t" by simp
    note ac = accumulate_calm [OF assms(1,2,3) this that]
    then obtain u where u: "get_trigger tr1 (to_id t1) = Some u" "calm_row u t1" by auto
    then have "active u" using ac assms(4) by (auto simp: calm_row_def)
    then show ?thesis
      using portion_done_calm [OF _ u] ac assms(1) calm_distinct [of tr tr1] calm_trans by blast
  qed
  show ?thesis
    unfolding execute_open_portion_def Let_def
    using failed filled fail_trigger_calm [OF assms(1,2)]
    by (auto split: option.split prod.split)
qed

lemma execute_close_calm:
  assumes "triggers_distinct tr" and "get_trigger tr (to_id t) = Some t" and "to_kind t \<noteq> K_Open"
  shows "calm tr (execute_close c v t tr)"
proof -
  have swept: "calm tr1 (set_status_where c T_Cancelled P tr1)" for P tr1 by (rule calm_where) simp
  have closes: "calm tr1 (close_done c t p l s tr1)" if tr1: "triggers_distinct tr1" "get_trigger tr1 (to_id t) = Some t" for p l s tr1
  proof -
    define tr2 where "tr2 = set_status_where c T_Cancelled (\<lambda>x. to_arb_position_id x = Some (ap_id p) \<and> to_kind x = K_Open \<and> to_status x = T_Pending)
      (set_status_where c T_Cancelled (\<lambda>x. to_arb_position_id x = Some (ap_id p) \<and> to_status x \<in> {T_Pending, T_Scheduled} \<and> to_id x \<noteq> to_id t) tr1)"
    have "calm tr1 tr2" unfolding tr2_def using swept calm_trans by blast
    moreover have "get_trigger tr2 (to_id t) = Some t" using tr1(2) assms(3) by (simp add: tr2_def get_set_status_where)
    moreover have "triggers_distinct tr2" using tr1(1) by (simp add: tr2_def)
    ultimately have "calm tr1 (put_trigger c (t\<lparr>to_status := T_Fired, to_last_fired_at := Some (utcnow c)\<rparr>) tr2)"
      using calm_put [of tr2 "t\<lparr>to_status := T_Fired, to_last_fired_at := Some (utcnow c)\<rparr>" t c]
      by (auto simp: calm_row_def active_def intro: calm_trans)
    moreover have "\<exists>q. close_done c t p l s tr1 =
        put_position c q (put_trigger c (t\<lparr>to_status := T_Fired, to_last_fired_at := Some (utcnow c)\<rparr>) tr2)"
      unfolding close_done_def Let_def tr2_def by blast
    ultimately show ?thesis using calm_position calm_trans by metis
  qed
  have failed: "calm tr1 (close_failed c t p l s tr1)" if tr1: "triggers_distinct tr1" "get_trigger tr1 (to_id t) = Some t" for p l s tr1
  proof -
    have "calm tr1 (put_trigger c (t\<lparr>to_status := T_Failed, to_error_kind := k, to_error_message := m\<rparr>) tr1)" for k m
      by (rule calm_put [OF tr1(1), of _ t]) (use tr1(2) in \<open>simp_all add: calm_row_def active_def\<close>)
    moreover have "\<exists>q k m. close_failed c t p l s tr1 =
        put_position c q (put_trigger c (t\<lparr>to_status := T_Failed, to_error_kind := k, to_error_message := m\<rparr>) tr1)"
      unfolding close_failed_def Let_def by blast
    ultimately show ?thesis using calm_position calm_trans by metis
  qed
  have pos: "triggers_distinct (put_position c p tr)" "get_trigger (put_position c p tr) (to_id t) = Some t" for p
    using assms(1,2) by simp_all
  have "calm tr (close_done c t p l s (put_position c q tr))" "calm tr (close_failed c t p l s (put_position c q tr))" for p l s q
    using calm_trans [OF calm_position closes [OF pos]] calm_trans [OF calm_position failed [OF pos]] by blast+
  then show ?thesis
    unfolding execute_close_def Let_def
    using fail_trigger_calm [OF assms(1,2)] by (auto split: option.split)
qed

lemma execute_portion_calm:
  assumes "triggers_distinct tr" and "get_trigger tr (to_id t) = Some t" and "active t"
  shows "calm tr (execute_portion c v t tr)"
  using execute_open_calm [OF assms(1,2) _ assms(3)] execute_close_calm [OF assms(1,2)] fail_trigger_calm [OF assms(1,2)]
  by (auto simp: execute_portion_def split: order_kind.split)

lemma tick_order_calm:
  assumes "triggers_distinct tr"
  shows "calm tr (tick_order c now b v tr i)"
proof (cases "get_trigger tr i")
  case (Some t)
  define tr1 where "tr1 = set_status_where c T_Firing (\<lambda>t. to_id t = i \<and> to_status t = T_Pending) tr"
  have claim: "calm tr tr1" unfolding tr1_def by (rule calm_where) (simp add: active_def)
  have d: "triggers_distinct tr1" using assms by (simp add: tr1_def)
  have id: "to_id t = i" using Some by (rule get_trigger_id)
  show ?thesis
  proof (cases "due now b tr t \<and> to_status t = T_Pending")
    case True
    let ?t = "t\<lparr>to_status := T_Firing, to_updated_at := utcnow c\<rparr>"
    have "get_trigger tr1 (to_id ?t) = Some ?t" "active ?t"
      using Some True id by (simp_all add: tr1_def get_set_status_where active_def)
    then have "calm tr1 (execute_portion c (v i) ?t tr1)" by (rule execute_portion_calm [OF d])
    then show ?thesis
      using tick_order_due [OF assms Some] True claim calm_trans by (auto simp: tr1_def)
  next
    case False
    then show ?thesis using Some claim claim_won [OF assms Some, of c] by (auto simp: tick_order_def tr1_def)
  qed
qed (simp add: tick_order_def)

lemma tick_calm:
  assumes "triggers_distinct tr"
  shows "calm tr (tick c now b v tr)"
proof -
  have fold: "triggers_distinct tr \<Longrightarrow> calm tr (foldl (tick_order c now b v) tr is)" for b tr "is"
  proof (induction "is" arbitrary: tr)
    case (Cons i "is")
    have "calm tr (tick_order c now b v tr i)" by (rule tick_order_calm [OF Cons.prems])
    then show ?case using Cons calm_distinct calm_trans by (metis foldl_Cons)
  qed simp
  have "calm tr (promote_due c tr)" unfolding promote_due_def by (rule calm_where) (simp add: active_def)
  then show ?thesis using fold assms calm_distinct calm_trans unfolding tick_def Let_def
    by (metis (no_types, lifting) option.case_eq_if)
qed

section \<open>The worker and the routes\<close>

lemma cancel_closed_calm: "calm tr (cancel_closed c i tr)"
proof -
  have "list_all2 calm_row ts (row_upd_where
       (\<lambda>t. to_arb_position_id t = Some i \<and> to_status t \<in> {T_Pending, T_Firing, T_Scheduled})
       (\<lambda>t. t\<lparr>to_status := T_Cancelled, to_error_kind := Some ''pos_closed_ext'',
              to_error_message := Some ''reconcile detected external close'', to_updated_at := utcnow c\<rparr>) ts)" for ts
    by (induction ts) (auto simp: row_upd_where_def calm_row_def active_def)
  then show ?thesis by (simp add: calm_def cancel_closed_def)
qed

lemma reconcile_position_calm: "calm tr (reconcile_position c live tr p)"
proof -
  have "calm tr (cancel_closed c i (put_position c q tr))" for i q
    using cancel_closed_calm [of "put_position c q tr" c i] by (simp add: calm_def)
  then show ?thesis unfolding reconcile_position_def Let_def by simp
qed

lemma insert_legs_triggers: "tr_triggers (foldl (insert_leg c uid live) tr fps) = tr_triggers tr"
proof (induction fps arbitrary: tr)
  case (Cons fp fps)
  have "tr_triggers (insert_leg c uid live tr fp) = tr_triggers tr"
    by (simp add: insert_leg_def Let_def split: option.split prod.split)
  then show ?case using Cons by simp
qed simp

lemma wrap_triggers: "tr_triggers (foldl (wrap_pair c uid) tr ab) = tr_triggers tr"
proof (induction ab arbitrary: tr)
  case (Cons x ab)
  have "tr_triggers (wrap_pair c uid tr x) = tr_triggers tr" by (simp add: wrap_pair_def Let_def split: prod.split)
  then show ?case using Cons by simp
qed simp

lemma reconcile_calm: "calm tr (snd (reconcile_user c uid live tr))"
proof (cases live)
  case (Some lv)
  have fold: "calm tr (foldl (reconcile_position c lv) tr ps)" for tr ps
  proof (induction ps arbitrary: tr)
    case (Cons p ps)
    then show ?case using reconcile_position_calm calm_trans by (metis foldl_Cons)
  qed simp
  have "calm tr (reconcile_legs c uid lv tr)" by (simp add: reconcile_legs_def insert_legs_triggers)
  moreover have "calm tr1 (reconcile_arb_positions c uid lv tr1)" for tr1
    using fold by (simp add: reconcile_arb_positions_def auto_pair_internal_legs_def calm_def wrap_triggers)
  ultimately show ?thesis using calm_trans by (simp add: Some reconcile_user_def Let_def)
qed (simp add: reconcile_user_def)

lemma own_orderD: "own_order tr uid i = Some t \<Longrightarrow> get_trigger tr i = Some t \<and> to_id t = i \<and> to_user_id t = uid"
  by (auto simp: own_order_def get_trigger_id split: option.splits if_splits)

lemma patch_calm:
  assumes "triggers_distinct tr"
  shows "calm tr (snd (patch_order e c uid i b tr))"
proof -
  have "calm tr (put_trigger c (patched b t) tr)" if "own_order tr uid i = Some t" for t
    by (rule calm_put [OF assms, of _ t]) (use own_orderD [OF that] in \<open>simp_all add: patched_def Let_def calm_row_def active_def\<close>)
  then show ?thesis by (simp add: patch_order_def split: option.split)
qed

lemma cancel_calm:
  assumes "triggers_distinct tr"
  shows "calm tr (snd (cancel_order c uid i tr))"
proof -
  have "calm tr (put_trigger c (t\<lparr>to_status := T_Cancelled\<rparr>) (set_status_where c T_Cancelled P tr))"
    if own: "own_order tr uid i = Some t" for t P
  proof -
    let ?tr = "set_status_where c T_Cancelled P tr"
    have "calm tr ?tr" by (rule calm_where) simp
    moreover obtain u where "get_trigger ?tr (to_id t) = Some u" "calm_row u (t\<lparr>to_status := T_Cancelled\<rparr>)"
      using own_orderD [OF own] by (auto simp: get_set_status_where calm_row_def active_def)
    then have "calm ?tr (put_trigger c (t\<lparr>to_status := T_Cancelled\<rparr>) ?tr)"
      using calm_put [of ?tr "t\<lparr>to_status := T_Cancelled\<rparr>" u c] assms by simp
    ultimately show ?thesis by (rule calm_trans)
  qed
  then show ?thesis by (simp add: cancel_order_def split: option.split)
qed

text \<open>Rows added by the routes: fresh keys, and the rows the makers describe.\<close>

lemma add_triggers_spec:
  assumes "add_triggers fs tr = (is, tr')" and "\<forall>f \<in> set fs. \<forall>i. to_id (f i) = i"
  shows "tr_triggers tr' = tr_triggers tr @ map2 (\<lambda>f i. f i) fs is \<and> length is = length fs \<and>
    (triggers_distinct tr \<longrightarrow> triggers_distinct tr') \<and> tr_positions tr' = tr_positions tr \<and> tr_world tr' = tr_world tr"
  using assms
proof (induction fs arbitrary: tr "is")
  case (Cons f fs)
  let ?i = "row_fresh to_id (tr_triggers tr)"
  let ?tr = "tr_triggers_update (\<lambda>ts. ts @ [f ?i]) tr"
  obtain js where js: "add_triggers fs ?tr = (js, tr')" "is = ?i # js"
    using Cons.prems(1) by (auto simp: Let_def split: prod.splits)
  have id: "to_id (f ?i) = ?i" using Cons.prems(2) by simp
  have "triggers_distinct tr \<longrightarrow> triggers_distinct ?tr"
    using trigger_tab.distinct_add [of tr "f ?i"] id by (simp add: triggers_distinct_def)
  then show ?case using Cons.IH [OF js(1)] Cons.prems(2) js(2) by auto
qed auto

text \<open>At most one active order of a kind per position, the kinds that close.\<close>

definition child_count :: "trigger list \<Rightarrow> int \<Rightarrow> order_kind \<Rightarrow> int" where
  "child_count ts pid k = count_over (\<lambda>t. to_arb_position_id t = Some pid \<and> to_kind t = k \<and> active t) ts"

definition panel_inv :: "trading \<Rightarrow> bool" where
  "panel_inv tr \<longleftrightarrow> triggers_distinct tr \<and> (\<forall>pid. \<forall>k \<in> {K_Tp, K_Sl}. child_count (tr_triggers tr) pid k \<le> 1)"

lemma calm_child_count:
  assumes "list_all2 calm_row ts ts'" and "k \<noteq> K_Open"
  shows "child_count ts' pid k \<le> child_count ts pid k"
  using assms(1)
proof (induction rule: list_all2_induct)
  case (Cons t ts t' ts')
  then show ?case using assms(2) by (auto simp: child_count_def calm_row_def)
qed simp

lemma calm_inv: "panel_inv tr \<Longrightarrow> calm tr tr' \<Longrightarrow> panel_inv tr'"
proof -
  assume i: "panel_inv tr" and m: "calm tr tr'"
  have "child_count (tr_triggers tr') pid k \<le> 1" if k: "k \<in> {K_Tp, K_Sl}" for pid k
  proof -
    have "child_count (tr_triggers tr') pid k \<le> child_count (tr_triggers tr) pid k"
      by (rule calm_child_count) (use m k in \<open>auto simp: calm_def\<close>)
    also have "\<dots> \<le> 1" using i k by (auto simp: panel_inv_def)
    finally show ?thesis .
  qed
  then show ?thesis using i calm_distinct [OF m] by (simp add: panel_inv_def)
qed

lemma child_count_append: "child_count (xs @ ys) pid k = child_count xs pid k + child_count ys pid k"
  by (simp add: child_count_def count_over_append)

lemma existing_child_count: "\<not> existing_child tr (Some pid) k \<Longrightarrow> child_count (tr_triggers tr) pid k = 0"
  by (auto simp: existing_child_def child_count_def count_over_def list_ex_iff filter_empty_conv)

lemma made_rows: "(\<And>k x i. P (mk k x i)) \<Longrightarrow> \<forall>f \<in> set (child_makers mk tp sl). \<forall>i. P (f i)"
  by (auto simp: child_makers_def split: option.splits)

lemma made_ids: "(\<And>k x i. to_id (mk k x i) = i) \<Longrightarrow> \<forall>f \<in> set (child_makers mk tp sl). \<forall>i. to_id (f i) = i"
  by (auto simp: child_makers_def split: option.splits)

lemma in_applied: "t \<in> set (map2 (\<lambda>f i. f i) fs is) \<Longrightarrow> \<exists>f \<in> set fs. \<exists>i. t = f i"
  by (auto dest: set_zip_leftD)

lemma child_fields [simp]:
  "to_id (attach_child c i p k x) = i" "to_kind (attach_child c i p k x) = k"
  "to_arb_position_id (attach_child c i p k x) = Some (ap_id p)" "active (attach_child c i p k x)"
  "to_id (make_child c i t k x) = i" "to_arb_position_id (make_child c i t k x) = None"
  "to_id (order_row c i uid b) = i" "to_kind (order_row c i uid b) = order_kind_of (ac_kind b)"
  by (simp_all add: attach_child_def make_child_def order_row_def new_trigger_def active_def)

definition grown :: "trading \<Rightarrow> trading \<Rightarrow> bool" where
  "grown tr tr' \<longleftrightarrow> (\<exists>mid new. list_all2 calm_row (tr_triggers tr) mid \<and> tr_triggers tr' = mid @ new)"

lemma calm_grown: "calm tr tr' \<Longrightarrow> grown tr tr'"
  unfolding calm_def grown_def by (intro exI [of _ "tr_triggers tr'"] exI [of _ "[]"]) simp

lemma appended_grown: "tr_triggers tr' = tr_triggers tr @ new \<Longrightarrow> grown tr tr'"
  unfolding grown_def by (intro exI [of _ "tr_triggers tr"] exI [of _ new]) (simp add: list_all2_same)

lemma insert_order_inv:
  assumes "panel_inv tr"
  shows "panel_inv (snd (insert_order c uid b tr)) \<and> grown tr (snd (insert_order c uid b tr))"
proof (cases "fst (insert_order c uid b tr)")
  case (Inl e)
  then have "snd (insert_order c uid b tr) = tr"
    by (auto simp: insert_order_def Let_def split: if_splits sum.splits prod.splits)
  then show ?thesis using assms by (simp add: calm_grown)
next
  case (Inr r)
  let ?i = "row_fresh to_id (tr_triggers tr)"
  let ?t = "order_row c ?i uid b"
  let ?tr1 = "tr_triggers_update (\<lambda>ts. ts @ [?t]) tr"
  let ?fs = "child_makers (\<lambda>k x j. make_child c j ?t k x) (ac_tp b) (ac_sl b)"
  obtain "is" tr2 where add: "add_triggers ?fs ?tr1 = (is, tr2)" and res: "snd (insert_order c uid b tr) = tr2"
    using Inr by (auto simp: insert_order_def Let_def split: if_splits sum.splits prod.splits)
  have id: "to_id ?t = ?i" by simp
  have ids: "\<forall>f \<in> set ?fs. \<forall>i. to_id (f i) = i"
    by (rule made_ids) simp
  note spec = add_triggers_spec [OF add ids]
  let ?new = "?t # map2 (\<lambda>f i. f i) ?fs is"
  have ts: "tr_triggers tr2 = tr_triggers tr @ ?new" using spec by simp
  have "triggers_distinct ?tr1"
    using assms trigger_tab.distinct_add [of tr ?t] id by (simp add: panel_inv_def triggers_distinct_def)
  then have d: "triggers_distinct tr2" using spec by blast
  have "t \<in> set (map2 (\<lambda>f i. f i) ?fs is) \<Longrightarrow> to_arb_position_id t = None" for t
    using in_applied [of t ?fs "is"] made_rows [of "\<lambda>t. to_arb_position_id t = None" "\<lambda>k x j. make_child c j ?t k x"]
    by fastforce
  moreover have "to_kind ?t \<notin> {K_Tp, K_Sl}" by (cases "ac_kind b") simp_all
  ultimately have "k \<in> {K_Tp, K_Sl} \<Longrightarrow> child_count ?new pid k = 0" for pid k
    by (auto simp: child_count_def count_over_def filter_empty_conv)
  then have "panel_inv tr2" using assms d by (auto simp: panel_inv_def ts child_count_append)
  then show ?thesis using appended_grown [OF ts] by (simp add: res)
qed

lemma enforce_limit_frame: "tr_triggers (snd (enforce_trigger_limit c tr uid)) = tr_triggers tr"
  by (simp add: enforce_trigger_limit_def split: option.split prod.split sum.split)

lemma create_inv:
  assumes "panel_inv tr"
  shows "panel_inv (snd (create_arb_order e c uid b tr)) \<and> grown tr (snd (create_arb_order e c uid b tr))"
proof -
  define tr1 where "tr1 = snd (enforce_trigger_limit c tr uid)"
  have m: "calm tr tr1" using enforce_limit_frame [of c tr uid] by (simp add: tr1_def)
  have i1: "panel_inv tr1" using assms m by (rule calm_inv)
  have "snd (create_arb_order e c uid b tr) \<in> {tr, tr1, snd (insert_order c uid b tr1)}"
    by (auto simp: create_arb_order_def tr1_def split: sum.split prod.split option.split if_splits)
  moreover have "grown tr (snd (insert_order c uid b tr1))"
    using insert_order_inv [OF i1, of c uid b] enforce_limit_frame [of c tr uid] by (simp add: grown_def tr1_def)
  ultimately show ?thesis using assms i1 m insert_order_inv [OF i1, of c uid b] calm_grown [OF calm_same [OF refl]] calm_grown [OF m]
    by auto
qed

lemma attach_inv:
  assumes "panel_inv tr"
  shows "panel_inv (snd (attach_tp_sl c uid pid tp sl tr)) \<and> grown tr (snd (attach_tp_sl c uid pid tp sl tr))"
proof (cases "fst (attach_tp_sl c uid pid tp sl tr)")
  case (Inl e)
  then have "snd (attach_tp_sl c uid pid tp sl tr) = tr"
    by (auto simp: attach_tp_sl_def Let_def split: if_splits sum.splits prod.splits option.splits)
  then show ?thesis using assms by (simp add: calm_grown)
next
  case (Inr r)
  then obtain p "is" tr2 where p: "get_position tr pid = Some p" "child_conflict tr (Some pid) tp sl = Inr ()"
      and add: "add_triggers (child_makers (\<lambda>k x j. attach_child c j p k x) tp sl) tr = (is, tr2)"
      and res: "snd (attach_tp_sl c uid pid tp sl tr) = tr2"
    by (auto simp: attach_tp_sl_def Let_def split: if_splits sum.splits prod.splits option.splits)
  let ?fs = "child_makers (\<lambda>k x j. attach_child c j p k x) tp sl"
  have ids: "\<forall>f \<in> set ?fs. \<forall>i. to_id (f i) = i"
    by (rule made_ids) simp
  note spec = add_triggers_spec [OF add ids]
  let ?new = "map2 (\<lambda>f i. f i) ?fs is"
  have ts: "tr_triggers tr2 = tr_triggers tr @ ?new" and len: "length is = length ?fs" using spec by simp_all
  have pid: "ap_id p = pid" using p(1) by (rule get_position_id)
  have new: "child_count ?new q k \<le> (if q = pid \<and> (k = K_Tp \<and> tp \<noteq> None \<or> k = K_Sl \<and> sl \<noteq> None) then 1 else 0)" for q k
    using len by (cases tp; cases sl) (auto simp: child_makers_def child_count_def pid length_Suc_conv)
  have free: "tp \<noteq> None \<Longrightarrow> child_count (tr_triggers tr) pid K_Tp = 0" "sl \<noteq> None \<Longrightarrow> child_count (tr_triggers tr) pid K_Sl = 0"
    using p(2) existing_child_count [of tr pid] by (auto simp: child_conflict_def split: if_splits)
  have "child_count (tr_triggers tr2) q k \<le> 1" if k: "k \<in> {K_Tp, K_Sl}" for q k
  proof (cases "q = pid \<and> (k = K_Tp \<and> tp \<noteq> None \<or> k = K_Sl \<and> sl \<noteq> None)")
    case True
    then have "child_count (tr_triggers tr) q k = 0" using free by auto
    then show ?thesis using new [of q k] True by (simp add: ts child_count_append)
  next
    case False
    then have "child_count ?new q k \<le> 0" using new [of q k] by (simp only: if_False)
    moreover have "child_count (tr_triggers tr) q k \<le> 1" using assms k by (auto simp: panel_inv_def)
    ultimately show ?thesis by (simp add: ts child_count_append)
  qed
  then have "panel_inv tr2" using spec assms by (simp add: panel_inv_def)
  then show ?thesis using appended_grown [OF ts] by (simp add: res)
qed

section \<open>Runs of the panel\<close>

text \<open>
  Everything that acts on the orders: the five routes, one tick of the loop and one user's
  reconciliation pass, each with the clock and what it consults.
\<close>

datatype panel_op =
    Op_Create int arb_order_create
  | Op_Patch int int arb_order_patch
  | Op_Cancel int int
  | Op_Attach int int "tp_sl_spec option" "tp_sl_spec option"
  | Op_Sync int
  | Op_Tick "int \<Rightarrow> venue"
  | Op_Reconcile int "live_position list option"

type_synonym panel_event = "clock \<times> panel_env \<times> panel_op"

fun panel_step :: "trading \<Rightarrow> panel_event \<Rightarrow> trading" where
  "panel_step tr (c, e, Op_Create uid b) = snd (create_arb_order e c uid b tr)"
| "panel_step tr (c, e, Op_Patch uid i b) = snd (patch_order e c uid i b tr)"
| "panel_step tr (c, e, Op_Cancel uid i) = snd (cancel_order c uid i tr)"
| "panel_step tr (c, e, Op_Attach uid pid tp sl) = snd (attach_tp_sl c uid pid tp sl tr)"
| "panel_step tr (c, e, Op_Sync uid) = auto_pair_internal_legs c uid tr"
| "panel_step tr (c, e, Op_Tick v) = tick c (pe_now e) (pe_books e) v tr"
| "panel_step tr (c, e, Op_Reconcile uid live) = snd (reconcile_user c uid live tr)"

lemma calm_step: "panel_inv tr \<Longrightarrow> calm tr tr' \<Longrightarrow> panel_inv tr' \<and> grown tr tr'"
  using calm_inv calm_grown by blast

lemma inv_distinct: "panel_inv tr \<Longrightarrow> triggers_distinct tr"
  by (simp add: panel_inv_def)

lemma panel_step_inv: "panel_inv tr \<Longrightarrow> panel_inv (panel_step tr ev) \<and> grown tr (panel_step tr ev)"
proof (induction tr ev rule: panel_step.induct)
  case (1 tr c e uid b)
  show ?case unfolding panel_step.simps by (rule create_inv [OF 1])
next
  case (2 tr c e uid i b)
  show ?case unfolding panel_step.simps by (rule calm_step [OF 2 patch_calm [OF inv_distinct [OF 2]]])
next
  case (3 tr c e uid i)
  show ?case unfolding panel_step.simps by (rule calm_step [OF 3 cancel_calm [OF inv_distinct [OF 3]]])
next
  case (4 tr c e uid pid tp sl)
  show ?case unfolding panel_step.simps by (rule attach_inv [OF 4])
next
  case (5 tr c e uid)
  have "calm tr (auto_pair_internal_legs c uid tr)" by (simp add: auto_pair_internal_legs_def wrap_triggers)
  then show ?case unfolding panel_step.simps by (rule calm_step [OF 5])
next
  case (6 tr c e v)
  show ?case unfolding panel_step.simps by (rule calm_step [OF 6 tick_calm [OF inv_distinct [OF 6]]])
next
  case (7 tr c e uid live)
  show ?case unfolding panel_step.simps by (rule calm_step [OF 7 reconcile_calm])
qed

text \<open>The stage of an order: unknown, active, finished.\<close>

definition order_stage :: "trading \<Rightarrow> int \<Rightarrow> nat" where
  "order_stage tr i = (case get_trigger tr i of None \<Rightarrow> 0 | Some t \<Rightarrow> if active t then 1 else 2)"

lemma grown_get:
  assumes "grown tr tr'" and "get_trigger tr i = Some t"
  shows "\<exists>t'. get_trigger tr' i = Some t' \<and> calm_row t t'"
proof -
  obtain mid new where m: "list_all2 calm_row (tr_triggers tr) mid" "tr_triggers tr' = mid @ new"
    using assms(1) by (auto simp: grown_def)
  have "calm tr (tr_triggers_update (\<lambda>_. mid) tr)" using m(1) by (simp add: calm_def)
  from calm_get [OF this assms(2)] show ?thesis by (auto simp: get_trigger_def m(2) row_get_def find_append)
qed

lemma grown_stage: "grown tr tr' \<Longrightarrow> order_stage tr i \<le> order_stage tr' i"
  by (cases "get_trigger tr i") (auto simp: order_stage_def calm_row_def dest!: grown_get)

interpretation panel_machine: rank_machine panel_step panel_inv order_stage
  by unfold_locales (use panel_step_inv grown_stage in blast)+

text \<open>
  C15. Any run of the panel is safe. From a sound database, whatever routes, ticks and
  reconciliation passes follow in any order, order ids stay unique, no position ever has two
  active take-profit or two active stop-loss orders, no order disappears, and an order that
  is fired, failed or cancelled is never active again.
\<close>

theorem panel_runs_safe:
  assumes "panel_inv tr"
  shows "panel_inv (foldl panel_step tr evs) \<and>
    (\<forall>i t. get_trigger tr i = Some t \<longrightarrow>
       (\<exists>t'. get_trigger (foldl panel_step tr evs) i = Some t' \<and> (\<not> active t \<longrightarrow> \<not> active t')))"
proof (intro conjI allI impI)
  show "panel_inv (foldl panel_step tr evs)" by (rule panel_machine.run_inv [OF assms])
  fix i t assume t: "get_trigger tr i = Some t"
  have "order_stage tr i \<le> order_stage (foldl panel_step tr evs) i" by (rule panel_machine.run_rank [OF assms])
  then show "\<exists>t'. get_trigger (foldl panel_step tr evs) i = Some t' \<and> (\<not> active t \<longrightarrow> \<not> active t')"
    using t by (auto simp: order_stage_def split: option.splits if_splits)
qed

definition sample_env :: panel_env where
  "sample_env = \<lparr>pe_books = Some sample_books, pe_now = 103, pe_marks = (\<lambda>_. Some 100),
     pe_balances = Some [(2, Some 500), (4, Some 2000)], pe_preflight = (\<lambda>_ _ _ _. Preflight_Ok)\<rparr>"

theorem panel_runs_safe_witness:
  "map to_status (tr_triggers (foldl panel_step closing_trading
     [(sample_clock, sample_env, Op_Cancel 1 2), (later_clock, sample_env, Op_Tick (\<lambda>_. calm_venue))])) = [T_Firing, T_Cancelled] \<and>
   panel_inv (foldl panel_step closing_trading
     [(sample_clock, sample_env, Op_Cancel 1 2), (later_clock, sample_env, Op_Tick (\<lambda>_. calm_venue))])"
proof -
  have "panel_inv closing_trading"
    by (auto simp: panel_inv_def triggers_distinct_def child_count_def closing_trading_def empty_trading_def sample_tp_def new_trigger_def)
  moreover have "map to_status (tr_triggers (foldl panel_step closing_trading
     [(sample_clock, sample_env, Op_Cancel 1 2), (later_clock, sample_env, Op_Tick (\<lambda>_. calm_venue))])) = [T_Firing, T_Cancelled]"
    by code_simp
  ultimately show ?thesis using panel_runs_safe by blast
qed

section \<open>Creating orders\<close>

lemma insert_order_created:
  assumes "insert_order c uid b tr = (Inr r, tr')"
  shows "\<exists>new. r = Created (row_fresh to_id (tr_triggers tr)) (initial_status c (ac_activate_at b)) (map to_id new) \<and>
      tr_triggers tr' = tr_triggers tr @ order_row c (row_fresh to_id (tr_triggers tr)) uid b # new \<and>
      (\<forall>t \<in> set new. to_kind t \<in> {K_Tp, K_Sl} \<and> to_arb_position_id t = None) \<and>
      tr_positions tr' = tr_positions tr \<and> tr_world tr' = tr_world tr"
proof -
  let ?i = "row_fresh to_id (tr_triggers tr)"
  let ?t = "order_row c ?i uid b"
  let ?tr1 = "tr_triggers_update (\<lambda>ts. ts @ [?t]) tr"
  let ?fs = "child_makers (\<lambda>k x j. make_child c j ?t k x) (ac_tp b) (ac_sl b)"
  obtain "is" where add: "add_triggers ?fs ?tr1 = (is, tr')" and r: "r = Created ?i (to_status ?t) is"
    using assms by (auto simp: insert_order_def Let_def split: if_splits sum.splits prod.splits)
  have ids: "\<forall>f \<in> set ?fs. \<forall>i. to_id (f i) = i" by (rule made_ids) simp
  note spec = add_triggers_spec [OF add ids]
  let ?new = "map2 (\<lambda>f i. f i) ?fs is"
  have "\<forall>f \<in> set ?fs. \<forall>i. to_kind (f i) \<in> {K_Tp, K_Sl} \<and> to_arb_position_id (f i) = None"
    by (auto simp: child_makers_def make_child_def new_trigger_def split: option.splits)
  then have "\<forall>t \<in> set ?new. to_kind t \<in> {K_Tp, K_Sl} \<and> to_arb_position_id t = None"
    using in_applied [of _ ?fs "is"] by fastforce
  moreover have "map to_id ?new = is"
  proof -
    have "length js = length fs \<Longrightarrow> \<forall>f \<in> set fs. \<forall>i. to_id (f i) = i \<Longrightarrow> map to_id (map2 (\<lambda>f i. f i) fs js) = js" for fs js
      by (induction js fs rule: list_induct2) auto
    then show ?thesis using spec ids by blast
  qed
  moreover have "to_status ?t = initial_status c (ac_activate_at b)" by (simp add: order_row_def)
  ultimately show ?thesis using spec r by (intro exI [of _ ?new]) auto
qed

lemma enforce_limit_world: "tr_positions (snd (enforce_trigger_limit c tr uid)) = tr_positions tr"
  by (simp add: enforce_trigger_limit_def split: option.split prod.split sum.split)

lemma create_cases:
  assumes "create_arb_order e c uid b tr = (r, tr')"
  shows "(\<exists>tr1. tr1 = snd (enforce_trigger_limit c tr uid) \<and> body_ok b \<and>
      verify_user_owns_wallets (tr_world tr) uid [ac_long_wallet_id b, ac_short_wallet_id b] = Inr () \<and>
      fst (enforce_trigger_limit c tr uid) = Inr () \<and>
      (ac_kind b = C_Open \<longrightarrow> validate_balance_with_reservations e tr1 uid b = Inr ()) \<and>
      immediate_warning e b = None \<and> insert_order c uid b tr1 = (r, tr')) \<or>
    (tr_triggers tr' = tr_triggers tr \<and> tr_positions tr' = tr_positions tr \<and> (\<forall>i st is. r \<noteq> Inr (Created i st is)))"
  using assms enforce_limit_frame [of c tr uid] enforce_limit_world [of c tr uid]
  by (auto simp: create_arb_order_def bind_res_Inr immediate_warning_def Let_def split: if_splits sum.splits prod.splits option.splits bool.splits)

text \<open>
  What creation accepts. A request is answered with a new order only if its body is
  valid, both wallets are the user's, and fewer orders are active than the user's cap; then the
  order has a fresh id, belongs to the user and is scheduled exactly if its time lies ahead.
  Any other answer leaves orders and positions as they were.
\<close>

theorem creation_guards:
  assumes "create_arb_order e c uid b tr = (r, tr')"
  shows "case r of
      Inr (Created i st is) \<Rightarrow>
        body_ok b \<and> {ac_long_wallet_id b, ac_short_wallet_id b} \<subseteq> set (owned_wallets (tr_world tr) uid) \<and>
        (\<exists>u l. row_get u_id (users (tr_world tr)) uid = Some u \<and> fst (effective_limits c (tr_world tr) u) = Inr l \<and>
           active_count tr uid < trigger_cap l) \<and>
        get_trigger tr i = None \<and> get_trigger tr' i = Some (order_row c i uid b) \<and>
        (st = T_Scheduled \<longleftrightarrow> (\<exists>x. ac_activate_at b = Some x \<and> utcnow c < x))
    | _ \<Rightarrow> tr_triggers tr' = tr_triggers tr \<and> tr_positions tr' = tr_positions tr"
  using create_cases [OF assms]
proof (elim disjE exE conjE)
  fix tr1
  assume a: "tr1 = snd (enforce_trigger_limit c tr uid)" "body_ok b"
    "verify_user_owns_wallets (tr_world tr) uid [ac_long_wallet_id b, ac_short_wallet_id b] = Inr ()"
    "fst (enforce_trigger_limit c tr uid) = Inr ()" "insert_order c uid b tr1 = (r, tr')"
  have ts: "tr_triggers tr1 = tr_triggers tr" "tr_positions tr1 = tr_positions tr"
    using enforce_limit_frame enforce_limit_world by (simp_all add: a(1))
  show ?thesis
  proof (cases r)
    case (Inl x)
    then have "tr' = tr1" using a(5) by (auto simp: insert_order_def Let_def split: if_splits sum.splits prod.splits)
    then show ?thesis by (simp add: Inl ts)
  next
    case (Inr x)
    note ins = insert_order_created [of c uid b tr1 x tr']
    obtain new where n: "x = Created (row_fresh to_id (tr_triggers tr)) (initial_status c (ac_activate_at b)) (map to_id new)"
        "tr_triggers tr' = tr_triggers tr @ order_row c (row_fresh to_id (tr_triggers tr)) uid b # new"
      using ins a(5) by (auto simp: Inr ts)
    have "get_trigger tr' (row_fresh to_id (tr_triggers tr)) = Some (order_row c (row_fresh to_id (tr_triggers tr)) uid b)"
      "get_trigger tr (row_fresh to_id (tr_triggers tr)) = None"
      using row_get_fresh [of to_id "tr_triggers tr"] by (simp_all add: get_trigger_def n(2) row_get_def find_append)
    moreover have "{ac_long_wallet_id b, ac_short_wallet_id b} \<subseteq> set (owned_wallets (tr_world tr) uid)"
      using a(3) by (auto simp: verify_user_owns_wallets_def split: option.splits if_splits)
    moreover have "\<exists>u l. row_get u_id (users (tr_world tr)) uid = Some u \<and> fst (effective_limits c (tr_world tr) u) = Inr l \<and>
           active_count tr uid < trigger_cap l"
      using a(4) by (auto simp: enforce_trigger_limit_def split: option.splits prod.splits sum.splits if_splits)
    moreover have "initial_status c (ac_activate_at b) = T_Scheduled \<longleftrightarrow> (\<exists>x. ac_activate_at b = Some x \<and> utcnow c < x)"
      by (auto simp: initial_status_def split: option.splits if_splits)
    ultimately show ?thesis using a(2) by (simp add: Inr n(1))
  qed
qed (cases r; auto split: create_reply.splits)

definition sample_body :: arb_order_create where
  "sample_body = \<lparr>ac_kind = C_Open, ac_pair_kind = Long_Short, ac_long_exchange = ''okx'', ac_long_symbol = ''BTC'',
     ac_long_wallet_id = 2, ac_short_exchange = ''gate'', ac_short_symbol = ''BTC'', ac_short_wallet_id = 4,
     ac_trigger_spread_pct = Some 20, ac_total_qty_token = 3, ac_portion_size_token = None, ac_infinite_fill = False,
     ac_activate_at = None, ac_leverage = 2, ac_margin_mode = ''cross'', ac_reduce_only = False, ac_tp = None, ac_sl = None,
     ac_force = False, ac_arb_position_id = None\<rparr>"

theorem creation_guards_witness:
  "fst (create_arb_order sample_env sample_clock 1 sample_body sample_trading) = Inr (Created 2 T_Pending []) \<and>
   get_trigger (snd (create_arb_order sample_env sample_clock 1 sample_body sample_trading)) 2 = Some (order_row sample_clock 2 1 sample_body)"
proof -
  obtain r tr' where r: "create_arb_order sample_env sample_clock 1 sample_body sample_trading = (r, tr')"
    by (cases "create_arb_order sample_env sample_clock 1 sample_body sample_trading")
  moreover have "fst (create_arb_order sample_env sample_clock 1 sample_body sample_trading) = Inr (Created 2 T_Pending [])"
    by code_simp
  ultimately show ?thesis using creation_guards [OF r] by simp
qed

section \<open>Money set aside\<close>

lemma reserved_by_cong:
  assumes "tr_positions tr' = tr_positions tr"
  shows "reserved_by e tr' t wid = reserved_by e tr t wid"
  unfolding reserved_by_def is_spot_short_def arb_position_of_def get_position_def assms ..

lemma new_order_reserves:
  assumes "ac_portion_size_token b = None" and "ac_arb_position_id b = None" and "0 < ac_total_qty_token b"
    and "pe_marks e (upper (ac_long_symbol b)) = Some m" and "0 < m" and "1 \<le> ac_leverage b" and "\<not> ac_infinite_fill b"
    and "ac_long_wallet_id b \<noteq> ac_short_wallet_id b" and "wid \<in> {ac_long_wallet_id b, ac_short_wallet_id b}" and "wid \<noteq> 0"
  shows "reserved_by e tr (order_row c i uid b) wid = ac_total_qty_token b * m / of_int (ac_leverage b)"
proof -
  have q: "qty_remaining (order_row c i uid b) = ac_total_qty_token b"
    using assms(1,3,7) by (simp add: qty_remaining_def order_row_def new_trigger_def portions_target_of_def Let_def)
  have m: "mark_of e (order_row c i uid b) = m"
    using assms(4,5) by (simp add: mark_of_def order_row_def new_trigger_def text_or_empty_def price_or_zero_def Let_def)
  have l: "order_leverage (order_row c i uid b) = of_int (ac_leverage b)"
    using assms(6) by (simp add: order_leverage_def order_row_def max_def)
  have s: "\<not> is_spot_short tr (order_row c i uid b)"
    using assms(2) by (simp add: is_spot_short_def arb_position_of_def order_row_def)
  have w: "to_long_wallet_id (order_row c i uid b) = Some (ac_long_wallet_id b)"
      "to_short_wallet_id (order_row c i uid b) = Some (ac_short_wallet_id b)"
    by (simp_all add: order_row_def)
  show ?thesis using assms(3,5,8-10) by (auto simp: reserved_by_def q m l s w Let_def)
qed



end
