(* ===== verification/Funding.thy ===== *)
theory Funding
  imports Rate_Limits
begin

text \<open>
  The rows the screener works on: the per-venue row caches with their circuit breakers
  (\<open>_get_rows\<close> of \<^verbatim>\<open>backend/services/arbitrage_service.py\<close>, \<open>get_spot_rows\<close> of
  \<^verbatim>\<open>backend/services/spot_arbitrage_service.py\<close>), the filters every feed passes, the funding
  view, and the check that drops rows whose price departs from the other venues'. What a
  venue's REST call or stream delivers is an argument.
\<close>

section \<open>Rows\<close>

text \<open>
  A row of a venue: its rate for one funding interval, price and 24-hour volume, with None
  where the venue reports nothing. \<open>fr_apr\<close> and \<open>fr_cross_listed\<close> are set by the funding view.
\<close>

record funding_row =
  fr_exchange :: string
  fr_symbol :: string
  fr_rate :: "rat option"
  fr_price :: "rat option"
  fr_volume_usd :: "rat option"
  fr_interval_h :: "rat option"
  fr_next_ts :: int
  fr_apr :: "rat option"
  fr_cross_listed :: bool

definition quote_row :: "string \<Rightarrow> string \<Rightarrow> rat \<Rightarrow> rat \<Rightarrow> rat \<Rightarrow> funding_row" where
  "quote_row ex symbol rate price volume = \<lparr>fr_exchange = ex, fr_symbol = symbol, fr_rate = Some rate,
     fr_price = Some price, fr_volume_usd = Some volume, fr_interval_h = Some 8, fr_next_ts = 0,
     fr_apr = None, fr_cross_listed = False\<rparr>"

section \<open>Venue caches\<close>

text \<open>What a fetch did: it returned rows, or it raised with a message.\<close>

datatype 'r fetched = Fetched "'r list" | Fetch_Timeout | Fetch_Raised string

definition is_ban :: "string \<Rightarrow> bool" where
  "is_ban msg \<longleftrightarrow> contains ''418'' msg \<or> contains (''I'' @ CHR 0x27 # ''m a teapot'') msg"

definition is_rate_limited :: "string \<Rightarrow> bool" where
  "is_rate_limited msg \<longleftrightarrow> contains ''429'' msg \<or> contains ''Too Many Requests'' msg"

text \<open>The breaker after a failed call: a ban opens it for three minutes, a rate limit for one.\<close>

definition after_failure :: "breaker_config \<Rightarrow> clock \<Rightarrow> string \<Rightarrow> string \<Rightarrow> breaker \<Rightarrow> breaker" where
  "after_failure cfg c name msg b =
     (if is_ban msg then breaker_hard_fail cfg c b name (Some 180)
      else if is_rate_limited msg then breaker_hard_fail cfg c b name (Some 60)
      else breaker_fail cfg c b name)"

record 'r feed =
  fd_cache :: "string \<Rightarrow> ('r list \<times> rat) option"
  fd_circuit :: breaker

definition cached_rows :: "'r feed \<Rightarrow> string \<Rightarrow> 'r list" where
  "cached_rows s ex = (case fd_cache s ex of Some (rows, _) \<Rightarrow> rows | None \<Rightarrow> [])"

definition cached_at :: "'r feed \<Rightarrow> string \<Rightarrow> rat" where
  "cached_at s ex = (case fd_cache s ex of Some (_, t) \<Rightarrow> t | None \<Rightarrow> 0)"

definition store_rows :: "clock \<Rightarrow> string \<Rightarrow> 'r list \<Rightarrow> 'r feed \<Rightarrow> 'r feed" where
  "store_rows c ex rows s = s\<lparr>fd_cache := (fd_cache s)(ex \<mapsto> (rows, monotonic c))\<rparr>"

definition cache_ttl :: rat where "cache_ttl = 6"

text \<open>
  Rows of a healthy stream take precedence: those without a funding interval are dropped and
  the venue is stamped on the rest. \<open>tradable\<close> is the set of symbols the venue \<open>aster\<close> trades,
  None for every other venue and while the set is not known.
\<close>

definition stream_rows :: "string \<Rightarrow> (string \<Rightarrow> bool) option \<Rightarrow> funding_row list \<Rightarrow> funding_row list" where
  "stream_rows ex tradable rows =
     map (\<lambda>r. r\<lparr>fr_exchange := ex, fr_volume_usd := (case fr_volume_usd r of None \<Rightarrow> Some 0 | Some v \<Rightarrow> Some v)\<rparr>)
       (filter (\<lambda>r. fr_interval_h r \<noteq> None \<and> (case tradable of None \<Rightarrow> True | Some ok \<Rightarrow> ok (fr_symbol r))) rows)"

definition get_rows ::
  "breaker_config \<Rightarrow> clock \<Rightarrow> (string \<Rightarrow> bool) option \<Rightarrow> funding_row list option \<Rightarrow> funding_row fetched \<Rightarrow>
   string \<Rightarrow> funding_row feed \<Rightarrow> funding_row list \<times> funding_row feed" where
  "get_rows cfg c tradable stream reply ex s =
     (case stream of
        Some (r # rs) \<Rightarrow> let rows = stream_rows ex tradable (r # rs) in (rows, store_rows c ex rows s)
      | _ \<Rightarrow>
          if monotonic c - cached_at s ex < cache_ttl \<and> cached_rows s ex \<noteq> [] then (cached_rows s ex, s)
          else let name = ''rest:'' @ ex; (ok, b) = breaker_allow c (fd_circuit s) name; s1 = s\<lparr>fd_circuit := b\<rparr> in
            if \<not> ok then (cached_rows s ex, s1)
            else case reply of
                Fetched rows \<Rightarrow> (rows, (store_rows c ex rows s1)\<lparr>fd_circuit := breaker_ok b name\<rparr>)
              | Fetch_Timeout \<Rightarrow> (cached_rows s ex, s1\<lparr>fd_circuit := breaker_fail cfg c b name\<rparr>)
              | Fetch_Raised msg \<Rightarrow> (cached_rows s ex, s1\<lparr>fd_circuit := after_failure cfg c name msg b\<rparr>))"

text \<open>Spot tickers. A timeout is an exception like any other here, with an empty message.\<close>

record spot_row =
  sr_symbol :: string
  sr_price :: rat
  sr_volume_usd :: rat

definition spot_cache_ttl :: rat where "spot_cache_ttl = 6"

definition get_spot_rows ::
  "breaker_config \<Rightarrow> clock \<Rightarrow> bool \<Rightarrow> spot_row fetched \<Rightarrow> string \<Rightarrow> spot_row feed \<Rightarrow> spot_row list \<times> spot_row feed" where
  "get_spot_rows cfg c known reply ex s =
     (if fd_cache s ex \<noteq> None \<and> monotonic c - cached_at s ex < spot_cache_ttl then (cached_rows s ex, s)
      else let name = ''spot:'' @ ex; (ok, b) = breaker_allow c (fd_circuit s) name; s1 = s\<lparr>fd_circuit := b\<rparr> in
        if \<not> ok then (cached_rows s ex, s1)
        else if \<not> known then ([], s1)
        else case reply of
            Fetched rows \<Rightarrow> (rows, (store_rows c ex rows s1)\<lparr>fd_circuit := breaker_ok b name\<rparr>)
          | Fetch_Timeout \<Rightarrow> (cached_rows s ex,
              (store_rows c ex (cached_rows s ex) s1)\<lparr>fd_circuit := after_failure cfg c name [] b\<rparr>)
          | Fetch_Raised msg \<Rightarrow> (cached_rows s ex,
              (store_rows c ex (cached_rows s ex) s1)\<lparr>fd_circuit := after_failure cfg c name msg b\<rparr>))"

section \<open>Filters\<close>

text \<open>The filter of the funding view, and the one of the compute process, which also drops zero rates.\<close>

definition keep_row :: "string set \<Rightarrow> rat \<Rightarrow> funding_row \<Rightarrow> bool" where
  "keep_row hidden min_volume r \<longleftrightarrow>
     fr_symbol r \<notin> hidden \<and> fr_rate r \<noteq> None \<and>
     (case fr_volume_usd r of None \<Rightarrow> False | Some v \<Rightarrow> min_volume \<le> v)"

definition keep_priced_rate :: "string set \<Rightarrow> rat \<Rightarrow> funding_row \<Rightarrow> bool" where
  "keep_priced_rate hidden min_volume r \<longleftrightarrow> keep_row hidden min_volume r \<and> fr_rate r \<noteq> Some 0"

section \<open>Price outliers\<close>

definition median :: "rat list \<Rightarrow> rat" where
  "median xs = (let ys = sort xs; n = length xs in
     if odd n then ys ! (n div 2) else (ys ! (n div 2 - 1) + ys ! (n div 2)) / 2)"

definition min_ex_for_median :: nat where "min_ex_for_median = 3"
definition price_drop_dev_pct :: rat where "price_drop_dev_pct = 20"
definition price_dev_pct :: rat where "price_dev_pct = 25"

definition price_of :: "funding_row \<Rightarrow> rat" where
  "price_of r = or_else (fr_price r) 0"

text \<open>The prices of a symbol, one per row that quotes a positive price.\<close>

definition listings :: "funding_row list \<Rightarrow> string \<Rightarrow> rat list" where
  "listings rows symbol = map price_of (filter (\<lambda>r. fr_symbol r = symbol \<and> 0 < price_of r) rows)"

definition deviates :: "rat \<Rightarrow> rat list \<Rightarrow> rat \<Rightarrow> bool" where
  "deviates limit prices p \<longleftrightarrow>
     min_ex_for_median \<le> length prices \<and> 0 < median prices \<and> limit < \<bar>p - median prices\<bar> / median prices * 100"

definition drop_price_outliers :: "funding_row list \<Rightarrow> funding_row list" where
  "drop_price_outliers rows =
     filter (\<lambda>r. \<not> (0 < price_of r \<and> deviates price_drop_dev_pct (listings rows (fr_symbol r)) (price_of r))) rows"

text \<open>
  The anomaly tally: one entry per venue, symbol and kind in five minutes. First the rows
  without a usable price in row order, then the outliers symbol by symbol.
\<close>

datatype anomaly = Missing_Price | Zero_Or_Negative | Outlier

record tally =
  tl_last_log :: "string \<times> string \<times> anomaly \<Rightarrow> rat option"
  tl_counters :: "string \<Rightarrow> int option"

definition anomaly_log_cooldown :: rat where "anomaly_log_cooldown = 300"

definition record_anomaly :: "clock \<Rightarrow> tally \<Rightarrow> string \<times> string \<times> anomaly \<Rightarrow> tally" where
  "record_anomaly c t key =
     (let last = (case tl_last_log t key of Some x \<Rightarrow> x | None \<Rightarrow> 0); ex = fst key in
      if monotonic c - last < anomaly_log_cooldown then t
      else t\<lparr>tl_last_log := (tl_last_log t)(key \<mapsto> monotonic c),
             tl_counters := (tl_counters t)(ex \<mapsto> (case tl_counters t ex of Some n \<Rightarrow> n | None \<Rightarrow> 0) + 1)\<rparr>)"

definition price_fault :: "funding_row \<Rightarrow> anomaly option" where
  "price_fault r = (case fr_price r of None \<Rightarrow> Some Missing_Price
     | Some p \<Rightarrow> if p \<le> 0 then Some Zero_Or_Negative else None)"

definition anomalies :: "funding_row list \<Rightarrow> (string \<times> string \<times> anomaly) list" where
  "anomalies rows =
     (let faults = map (\<lambda>r. (fr_exchange r, fr_symbol r, the (price_fault r))) (filter (\<lambda>r. price_fault r \<noteq> None) rows);
          named = filter (\<lambda>r. price_fault r = None \<and> fr_exchange r \<noteq> [] \<and> fr_symbol r \<noteq> []) rows
      in faults @ concat (map (\<lambda>s. map (\<lambda>r. (fr_exchange r, s, Outlier))
           (filter (\<lambda>r. fr_symbol r = s \<and> deviates price_dev_pct (listings named s) (price_of r)) named))
           (first_seen (map fr_symbol named))))"

definition sanity_check_prices :: "clock \<Rightarrow> funding_row list \<Rightarrow> tally \<Rightarrow> tally" where
  "sanity_check_prices c rows t = foldl (record_anomaly c) t (anomalies rows)"

section \<open>The funding view\<close>

definition apr_of :: "funding_row \<Rightarrow> rat option" where
  "apr_of r = (if truthy (fr_interval_h r)
     then Some (round_places 4 (or_else (fr_rate r) 0 * (8760 / the (fr_interval_h r)) * 100)) else None)"

definition cross_listed :: "funding_row list \<Rightarrow> string \<Rightarrow> bool" where
  "cross_listed rows symbol = (2 \<le> length (remdups (map fr_exchange (filter (\<lambda>r. fr_symbol r = symbol) rows))))"

text \<open>
  What the view makes of freshly gathered rows. A row with an interval and no rate raises before
  the filter is reached.
\<close>

definition annotated :: "string set \<Rightarrow> rat \<Rightarrow> funding_row list \<Rightarrow> funding_row \<Rightarrow> funding_row" where
  "annotated hidden min_volume gathered r =
     (let r1 = r\<lparr>fr_apr := apr_of r\<rparr>
      in if keep_row hidden min_volume r
         then r1\<lparr>fr_cross_listed := cross_listed (filter (keep_row hidden min_volume) gathered) (fr_symbol r)\<rparr>
         else r1)"

definition funding_view :: "string set \<Rightarrow> rat \<Rightarrow> funding_row list \<Rightarrow> funding_row list option" where
  "funding_view hidden min_volume gathered =
     (if list_ex (\<lambda>r. truthy (fr_interval_h r) \<and> fr_rate r = None) gathered then None
      else Some (sort_key (\<lambda>r. - \<bar>or_else (fr_apr r) 0\<bar>)
        (map (annotated hidden min_volume gathered) (filter (keep_row hidden min_volume) gathered))))"

text \<open>
  \<open>get_funding_data\<close> in the process that fetches: while every enabled venue's rows are fresh
  they are served as they are, otherwise all venues are asked again. \<open>streams\<close> and \<open>replies\<close>
  are what the streams hold and the REST calls answer. The rows gathered are the very objects
  of the caches, so what the view writes into a row is in the cache afterwards; when a row
  without a rate raises, what was written until then is left out of the model.
\<close>

fun gather ::
  "breaker_config \<Rightarrow> clock \<Rightarrow> (string \<Rightarrow> (string \<Rightarrow> bool) option) \<Rightarrow> (string \<Rightarrow> funding_row list option) \<Rightarrow>
   (string \<Rightarrow> funding_row fetched) \<Rightarrow> string list \<Rightarrow> funding_row feed \<Rightarrow> funding_row list \<times> funding_row feed" where
  "gather cfg c tradable streams replies [] s = ([], s)"
| "gather cfg c tradable streams replies (ex # exs) s =
     (let (rows, s1) = get_rows cfg c (tradable ex) (streams ex) (replies ex) ex s;
          (rest, s2) = gather cfg c tradable streams replies exs s1
      in (rows @ rest, s2))"

definition annotate_cache :: "('r \<Rightarrow> 'r) \<Rightarrow> string list \<Rightarrow> 'r feed \<Rightarrow> 'r feed" where
  "annotate_cache f exs s = s\<lparr>fd_cache := (\<lambda>ex. if ex \<in> set exs
     then map_option (\<lambda>(rows, t). (map f rows, t)) (fd_cache s ex) else fd_cache s ex)\<rparr>"

definition get_funding_data ::
  "breaker_config \<Rightarrow> clock \<Rightarrow> (string \<Rightarrow> (string \<Rightarrow> bool) option) \<Rightarrow> (string \<Rightarrow> funding_row list option) \<Rightarrow>
   (string \<Rightarrow> funding_row fetched) \<Rightarrow> string list \<Rightarrow> string set \<Rightarrow> rat \<Rightarrow> funding_row feed \<times> tally \<Rightarrow>
   funding_row list option \<times> funding_row feed \<times> tally" where
  "get_funding_data cfg c tradable streams replies enabled hidden min_volume st =
     (let (s, t) = st; warm = filter (keep_row hidden min_volume) (concat (map (cached_rows s) enabled)) in
      if list_all (\<lambda>ex. monotonic c - cached_at s ex \<le> cache_ttl) enabled \<and> warm \<noteq> []
      then (Some warm, s, t)
      else let (gathered, s1) = gather cfg c tradable streams replies enabled s in
        case funding_view hidden min_volume gathered of
          None \<Rightarrow> (None, s1, t)
        | Some rows \<Rightarrow> (Some rows, annotate_cache (annotated hidden min_volume gathered) enabled s1,
            sanity_check_prices c (filter (keep_row hidden min_volume) gathered) t))"

text \<open>
  The web process: the file the fetcher wrote, filtered, and kept for a second as long as the
  administrator's settings do not change. \<open>file\<close> is None when the file is missing or too old.
\<close>

record funding_snapshot =
  fs_rows :: "funding_row list"
  fs_m_ts :: rat
  fs_enabled :: "string list"
  fs_hidden :: "string set"
  fs_min_volume :: rat

definition funding_view_ttl :: rat where "funding_view_ttl = 1"

definition web_funding_data ::
  "clock \<Rightarrow> funding_row list option \<Rightarrow> string list \<Rightarrow> string set \<Rightarrow> rat \<Rightarrow> funding_snapshot option \<Rightarrow>
   funding_row list option \<times> funding_snapshot option" where
  "web_funding_data c file enabled hidden min_volume view =
     (let fresh = (case view of None \<Rightarrow> False
        | Some v \<Rightarrow> monotonic c - fs_m_ts v < funding_view_ttl \<and> fs_enabled v = enabled \<and>
            fs_hidden v = hidden \<and> fs_min_volume v = min_volume)
      in if fresh then (map_option fs_rows view, view)
         else case file of
             Some (r # rs) \<Rightarrow>
               let rows = filter (keep_row hidden min_volume) (r # rs)
               in (Some rows, Some \<lparr>fs_rows = rows, fs_m_ts = monotonic c, fs_enabled = enabled,
                     fs_hidden = hidden, fs_min_volume = min_volume\<rparr>)
           | _ \<Rightarrow> (None, view))"

end
