(* ===== verification/Screener.thy ===== *)
theory Screener
  imports Funding "HOL-Library.List_Lexorder"
begin

text \<open>
  The screener: the token registry that tells ticker collisions apart
  (\<^verbatim>\<open>backend/services/token_registry.py\<close>), the long/short opportunities with their hysteresis,
  the administrator's filters and the file copy (\<^verbatim>\<open>backend/services/arbitrage_service.py\<close>), one
  cycle of the compute process (\<^verbatim>\<open>backend/services/arb_compute_service.py\<close>) and the spot/short
  opportunities (\<^verbatim>\<open>backend/services/spot_arbitrage_service.py\<close>).
\<close>

section \<open>Token registry\<close>

definition chain_aliases :: "(string \<times> string) list" where
  "chain_aliases =
     [(''erc20'', ''ethereum''), (''eth'', ''ethereum''), (''ether'', ''ethereum''), (''ethereum'', ''ethereum''),
      (''bep20'', ''bsc''), (''bsc'', ''bsc''), (''bnb smart chain'', ''bsc''), (''binance smart chain'', ''bsc''),
      (''trc20'', ''tron''), (''tron'', ''tron''), (''trx'', ''tron''),
      (''arbitrum'', ''arbitrum''), (''arb'', ''arbitrum''), (''arbitrum one'', ''arbitrum''),
      (''optimism'', ''optimism''), (''op'', ''optimism''),
      (''polygon'', ''polygon''), (''matic'', ''polygon''), (''base'', ''base''),
      (''avax-c'', ''avalanche''), (''avalanche c-chain'', ''avalanche''), (''avalanche'', ''avalanche''), (''avax'', ''avalanche''),
      (''solana'', ''solana''), (''sol'', ''solana''), (''zksync'', ''zksync''), (''zksync era'', ''zksync''),
      (''linea'', ''linea''), (''scroll'', ''scroll''), (''mantle'', ''mantle''), (''blast'', ''blast''),
      (''ton'', ''ton''), (''sui'', ''sui''), (''aptos'', ''aptos'')]"

definition canon_chain :: "string \<Rightarrow> string" where
  "canon_chain name = (if name = [] then [] else
     let k = lower (strip name) in case map_of chain_aliases k of Some x \<Rightarrow> x | None \<Rightarrow> k)"

text \<open>
  A coin of a venue's listing: its ticker and its chains, each a contract address and the
  name or names the venue gives the chain. Missing entries are empty strings. Chains without
  an address or a name are skipped, a later chain of the same name replaces an earlier one,
  and so do later coins.
\<close>

type_synonym contracts = "(string \<times> string) list"

definition dict_put :: "'k \<Rightarrow> 'v \<Rightarrow> ('k \<times> 'v) list \<Rightarrow> ('k \<times> 'v) list" where
  "dict_put k v d = (if k \<in> fst ` set d then map (\<lambda>(a, b). (a, if a = k then v else b)) d else d @ [(k, v)])"

record raw_chain =
  rw_address :: string
  rw_name :: string
  rw_alt_name :: string

definition add_chain :: "(raw_chain \<Rightarrow> string) \<Rightarrow> contracts \<Rightarrow> raw_chain \<Rightarrow> contracts" where
  "add_chain name d ch =
     (let addr = lower (strip (rw_address ch)); chain = canon_chain (name ch)
      in if addr \<noteq> [] \<and> chain \<noteq> [] then dict_put chain addr d else d)"

definition coin_contracts :: "(raw_chain \<Rightarrow> string) \<Rightarrow> raw_chain list \<Rightarrow> contracts" where
  "coin_contracts name chs = foldl (add_chain name) [] chs"

definition listing_of :: "(raw_chain \<Rightarrow> string) \<Rightarrow> (string \<times> raw_chain list) list \<Rightarrow> string \<Rightarrow> contracts option" where
  "listing_of name coins =
     map_of (rev (map (\<lambda>(s, chs). (upper s, coin_contracts name chs))
       (filter (\<lambda>(s, chs). s \<noteq> [] \<and> coin_contracts name chs \<noteq> []) coins)))"

text \<open>KuCoin and HTX offer a second name for a chain; the other venues have one.\<close>

definition first_name :: "raw_chain \<Rightarrow> string" where
  "first_name ch = (if rw_name ch \<noteq> [] then rw_name ch else rw_alt_name ch)"

type_synonym registry = "string \<Rightarrow> string \<Rightarrow> contracts option"

definition refresh_once :: "(string \<Rightarrow> (string \<times> raw_chain list) list option) \<Rightarrow> registry" where
  "refresh_once coins ex =
     (case coins ex of
        None \<Rightarrow> (\<lambda>_. None)
      | Some cs \<Rightarrow>
          if ex \<in> {''kucoin'', ''htx''} then listing_of first_name cs
          else if ex \<in> {''binance'', ''gate'', ''bitget''} then listing_of rw_name cs
          else (\<lambda>_. None))"

definition pair_verdict_ttl_s :: rat where "pair_verdict_ttl_s = 604800"
definition negative_ttl_s :: rat where "negative_ttl_s = 3600"

type_synonym verdicts = "string \<times> string \<times> string \<Rightarrow> (bool \<times> rat) option"

definition verdict_key :: "string \<Rightarrow> string \<Rightarrow> string \<Rightarrow> string \<times> string \<times> string" where
  "verdict_key symbol ex_a ex_b =
     (let a = lower ex_a; b = lower ex_b in (upper symbol, if a \<le> b then a else b, if a \<le> b then b else a))"

definition cached_verdict :: "clock \<Rightarrow> verdicts \<Rightarrow> string \<times> string \<times> string \<Rightarrow> bool option" where
  "cached_verdict c vc k =
     (case vc k of
        Some (v, ts) \<Rightarrow> if wall c - ts < (if v then pair_verdict_ttl_s else negative_ttl_s) then Some v else None
      | None \<Rightarrow> None)"

definition same_contract :: "contracts \<Rightarrow> contracts \<Rightarrow> bool" where
  "same_contract ra rb = list_ex (\<lambda>(chain, _). map_of rb chain \<noteq> None \<and> map_of ra chain = map_of rb chain) ra"

definition listed_verdict :: "registry \<Rightarrow> string \<times> string \<times> string \<Rightarrow> bool option" where
  "listed_verdict reg k =
     (case (reg (fst (snd k)) (fst k), reg (snd (snd k)) (fst k)) of
        (Some ra, Some rb) \<Rightarrow> if ra = [] \<or> rb = [] then None else Some (same_contract ra rb)
      | _ \<Rightarrow> None)"

definition validate_pair_identity ::
  "registry \<Rightarrow> clock \<Rightarrow> string \<Rightarrow> string \<Rightarrow> string \<Rightarrow> verdicts \<Rightarrow> bool option \<times> verdicts" where
  "validate_pair_identity reg c symbol ex_a ex_b vc =
     (let k = verdict_key symbol ex_a ex_b in
      case cached_verdict c vc k of
        Some v \<Rightarrow> (Some v, vc)
      | None \<Rightarrow>
          (case listed_verdict reg k of
             None \<Rightarrow> (None, vc)
           | Some v \<Rightarrow> (Some v, vc(k \<mapsto> (v, wall c)))))"

section \<open>Long/short opportunities\<close>

definition exchange_fees :: "(string \<times> rat) list" where
  "exchange_fees =
     [(''binance'', 4 / 10000), (''bybit'', 55 / 100000), (''okx'', 5 / 10000), (''gate'', 5 / 10000),
      (''kucoin'', 6 / 10000), (''mexc'', 2 / 10000), (''bitget'', 6 / 10000), (''hyperliquid'', 35 / 100000),
      (''aster'', 5 / 10000), (''ethereal'', 3 / 10000), (''whitebit'', 6 / 10000), (''bingx'', 5 / 10000),
      (''paradex'', 3 / 10000)]"

definition fee_of :: "string \<Rightarrow> rat" where
  "fee_of ex = (case map_of exchange_fees ex of Some f \<Rightarrow> f | None \<Rightarrow> 6 / 10000)"

record entry =
  en_row :: funding_row
  en_rate :: rat
  en_fee :: rat
  en_mark :: rat

text \<open>
  Rows come here filtered: each has a rate. Rows of excluded venues and rows without a funding
  interval are left out.
\<close>

definition entry_of :: "funding_row \<Rightarrow> entry" where
  "entry_of r = \<lparr>en_row = r, en_rate = or_else (fr_rate r) 0 * (8 / or_else (fr_interval_h r) 0),
     en_fee = fee_of (fr_exchange r), en_mark = or_else (fr_price r) 0\<rparr>"

definition by_symbol :: "string set \<Rightarrow> funding_row list \<Rightarrow> (string \<times> funding_row list) list" where
  "by_symbol exclude rows =
     (let usable = filter (\<lambda>r. fr_exchange r \<notin> exclude \<and> truthy (fr_interval_h r)) rows
      in map (\<lambda>s. (s, filter (\<lambda>r. fr_symbol r = s) usable)) (first_seen (map fr_symbol usable)))"

text \<open>Every entry as the long leg with every other one as the short leg.\<close>

definition leg_pairs :: "'a list \<Rightarrow> ('a \<times> 'a) list" where
  "leg_pairs xs = concat (map (\<lambda>i. map (\<lambda>j. (xs ! i, xs ! j)) (filter (\<lambda>j. j \<noteq> i) [0..<length xs])) [0..<length xs])"

record opportunity =
  op_symbol :: string
  op_long_exchange :: string
  op_short_exchange :: string
  op_long_rate :: rat
  op_short_rate :: rat
  op_long_price :: rat
  op_short_price :: rat
  op_long_volume :: rat
  op_short_volume :: rat
  op_gross_funding :: rat
  op_price_spread :: rat
  op_fee_long :: rat
  op_fee_short :: rat
  op_total_fees :: rat
  op_net_profit :: rat
  op_gross_apr :: rat
  op_net_apr :: rat
  op_valid_price :: bool
  op_next_ts_long :: int
  op_next_ts_short :: int
  op_long_interval_h :: "rat option"
  op_short_interval_h :: "rat option"

definition spread_of :: "entry \<Rightarrow> entry \<Rightarrow> rat" where
  "spread_of l s = (en_mark s - en_mark l) / en_mark l"

definition gross_of :: "entry \<Rightarrow> entry \<Rightarrow> rat" where
  "gross_of l s = en_rate s - en_rate l"

definition fees_of :: "entry \<Rightarrow> entry \<Rightarrow> rat" where
  "fees_of l s = 2 * (en_fee l + en_fee s)"

definition net_of :: "entry \<Rightarrow> entry \<Rightarrow> rat" where
  "net_of l s = gross_of l s + spread_of l s - fees_of l s"

definition opportunity_of :: "string \<Rightarrow> entry \<times> entry \<Rightarrow> opportunity" where
  "opportunity_of symbol ls = (case ls of (l, s) \<Rightarrow> \<lparr>
     op_symbol = symbol, op_long_exchange = fr_exchange (en_row l), op_short_exchange = fr_exchange (en_row s),
     op_long_rate = round_places 6 (en_rate l * 100), op_short_rate = round_places 6 (en_rate s * 100),
     op_long_price = en_mark l, op_short_price = en_mark s,
     op_long_volume = or_else (fr_volume_usd (en_row l)) 0, op_short_volume = or_else (fr_volume_usd (en_row s)) 0,
     op_gross_funding = round_places 6 (gross_of l s * 100), op_price_spread = round_places 4 (spread_of l s * 100),
     op_fee_long = round_places 4 (en_fee l * 100), op_fee_short = round_places 4 (en_fee s * 100),
     op_total_fees = round_places 4 (fees_of l s * 100), op_net_profit = round_places 6 (net_of l s * 100),
     op_gross_apr = round_places 4 (gross_of l s * (8760 / 8) * 100),
     op_net_apr = round_places 4 (net_of l s * (8760 / 8) * 100), op_valid_price = (en_mark l \<le> en_mark s),
     op_next_ts_long = fr_next_ts (en_row l), op_next_ts_short = fr_next_ts (en_row s),
     op_long_interval_h = fr_interval_h (en_row l), op_short_interval_h = fr_interval_h (en_row s)\<rparr>)"

text \<open>
  The hysteresis: when a pair was first and last quoted. A pair is shown once it has been
  known for three seconds, and forgotten when it was not quoted for thirty.
\<close>

type_synonym pair_key = "string \<times> string \<times> string"

record screener =
  sn_first :: "pair_key \<Rightarrow> rat option"
  sn_last :: "pair_key \<Rightarrow> rat option"
  sn_verdicts :: verdicts

definition opp_min_lifetime_s :: rat where "opp_min_lifetime_s = 3"
definition opp_purge_after_s :: rat where "opp_purge_after_s = 30"
definition high_spread_threshold :: rat where "high_spread_threshold = 1"

definition key_of :: "string \<Rightarrow> entry \<times> entry \<Rightarrow> pair_key" where
  "key_of symbol ls = (symbol, fr_exchange (en_row (fst ls)), fr_exchange (en_row (snd ls)))"

definition visit ::
  "registry \<Rightarrow> clock \<Rightarrow> rat \<Rightarrow> string \<Rightarrow> screener \<times> opportunity list \<Rightarrow> entry \<times> entry \<Rightarrow> screener \<times> opportunity list" where
  "visit reg c ts symbol st ls =
     (let (s, opps) = st; (l, sh) = ls in
      if en_mark l \<le> 0 \<or> en_mark sh \<le> 0 then (s, opps)
      else let (ok, vc) = (if high_spread_threshold < \<bar>spread_of l sh\<bar>
                 then validate_pair_identity reg c symbol (fr_exchange (en_row l)) (fr_exchange (en_row sh)) (sn_verdicts s)
                 else (None, sn_verdicts s));
               s1 = s\<lparr>sn_verdicts := vc\<rparr>; k = key_of symbol ls
           in if ok = Some False then (s1, opps)
              else case sn_first s1 k of
                  None \<Rightarrow> (s1\<lparr>sn_first := (sn_first s1)(k \<mapsto> ts), sn_last := (sn_last s1)(k \<mapsto> ts)\<rparr>, opps)
                | Some first \<Rightarrow>
                    let s2 = s1\<lparr>sn_last := (sn_last s1)(k \<mapsto> ts)\<rparr>
                    in if ts - first < opp_min_lifetime_s then (s2, opps)
                       else (s2, opps @ [opportunity_of symbol ls]))"

definition visit_symbol ::
  "registry \<Rightarrow> clock \<Rightarrow> rat \<Rightarrow> screener \<times> opportunity list \<Rightarrow> string \<times> funding_row list \<Rightarrow> screener \<times> opportunity list" where
  "visit_symbol reg c ts st g =
     (if length (snd g) < 2 then st
      else foldl (visit reg c ts (fst g)) st (leg_pairs (map entry_of (snd g))))"

definition purge :: "rat \<Rightarrow> screener \<Rightarrow> screener" where
  "purge ts s =
     (let stale = (\<lambda>k. case sn_last s k of Some t \<Rightarrow> t < ts - opp_purge_after_s | None \<Rightarrow> False)
      in s\<lparr>sn_first := (\<lambda>k. if stale k then None else sn_first s k),
           sn_last := (\<lambda>k. if stale k then None else sn_last s k)\<rparr>)"

definition compute_arb ::
  "registry \<Rightarrow> clock \<Rightarrow> rat \<Rightarrow> string set \<Rightarrow> funding_row list \<Rightarrow> screener \<Rightarrow> opportunity list \<times> screener" where
  "compute_arb reg c ts exclude rows s =
     (let (s1, opps) = foldl (visit_symbol reg c ts) (s, []) (by_symbol exclude rows)
      in (sort_key (\<lambda>x. - op_net_profit x) opps, purge ts s1))"

section \<open>What is served\<close>

text \<open>
  The administrator's filters at read time. An opportunity of any feed has a symbol and the
  venues of its legs; hidden symbols are in upper case, disabled venues in lower case.
\<close>

definition filtered_out :: "string set \<Rightarrow> string set \<Rightarrow> string \<Rightarrow> string list \<Rightarrow> bool" where
  "filtered_out hidden disabled symbol venues \<longleftrightarrow>
     upper symbol \<in> hidden \<or> list_ex (\<lambda>v. v \<noteq> [] \<and> lower v \<in> disabled) venues"

definition apply_admin_filters ::
  "('o \<Rightarrow> string) \<Rightarrow> ('o \<Rightarrow> string list) \<Rightarrow> string set \<Rightarrow> string set \<Rightarrow> 'o list \<Rightarrow> 'o list \<times> nat option" where
  "apply_admin_filters symbol venues hidden disabled opps =
     (if opps = [] \<or> hidden = {} \<and> disabled = {} then (opps, None)
      else let keep = filter (\<lambda>x. \<not> filtered_out hidden disabled (symbol x) (venues x)) opps
           in (keep, Some (length opps - length keep)))"

definition op_venues :: "opportunity \<Rightarrow> string list" where
  "op_venues x = [op_long_exchange x, op_short_exchange x]"

definition arb_file_top_n :: nat where "arb_file_top_n = 500"

definition slim_for_file :: "opportunity list \<Rightarrow> opportunity list \<times> nat option" where
  "slim_for_file opps =
     (if length opps \<le> arb_file_top_n then (opps, None) else (take arb_file_top_n opps, Some (length opps)))"

text \<open>
  \<open>get_arbitrage_opportunities\<close>: the result kept in memory while it is young, the file
  otherwise, and in the fetching process a computation on the funding view. \<open>file\<close> is the
  file's content when it is young enough for the role, \<open>compute\<close> the computation.
\<close>

record result_cache =
  rc_data :: "opportunity list option"
  rc_ts :: rat

definition arb_cache_ttl :: rat where "arb_cache_ttl = 7 / 10"

definition served ::
  "string set \<Rightarrow> string set \<Rightarrow> opportunity list \<Rightarrow> opportunity list \<times> nat option" where
  "served hidden disabled = apply_admin_filters op_symbol op_venues hidden disabled"

definition arb_uncached ::
  "clock \<Rightarrow> bool \<Rightarrow> bool \<Rightarrow> string set \<Rightarrow> string set \<Rightarrow> opportunity list option \<Rightarrow>
   (screener \<Rightarrow> opportunity list \<times> screener) \<Rightarrow> result_cache \<Rightarrow> screener \<Rightarrow>
   (opportunity list \<times> nat option) \<times> result_cache \<times> screener" where
  "arb_uncached c web force hidden disabled file compute rc s =
     (case (if force then None else file) of
        Some (x # xs) \<Rightarrow> (served hidden disabled (x # xs), \<lparr>rc_data = Some (x # xs), rc_ts = wall c\<rparr>, s)
      | _ \<Rightarrow>
          if web \<and> \<not> force then (([], None), rc, s)
          else let (opps, s1) = compute s
               in (served hidden disabled opps, \<lparr>rc_data = Some opps, rc_ts = wall c\<rparr>, s1))"

definition get_arbitrage_opportunities ::
  "clock \<Rightarrow> bool \<Rightarrow> bool \<Rightarrow> string set \<Rightarrow> string set \<Rightarrow> opportunity list option \<Rightarrow>
   (screener \<Rightarrow> opportunity list \<times> screener) \<Rightarrow> result_cache \<times> screener \<Rightarrow>
   (opportunity list \<times> nat option) \<times> result_cache \<times> screener" where
  "get_arbitrage_opportunities c web force hidden disabled file compute st =
     (let (rc, s) = st in
      case (if \<not> force \<and> wall c - rc_ts rc < arb_cache_ttl then rc_data rc else None) of
        Some opps \<Rightarrow> (served hidden disabled opps, rc, s)
      | None \<Rightarrow> arb_uncached c web force hidden disabled file compute rc s)"

section \<open>The compute process\<close>

text \<open>
  One cycle. \<open>cw_file\<close> is what was last written. A result less than half as long as the last
  good one is not written for five seconds after it.
\<close>

record admin_state =
  ad_disabled :: "string set"
  ad_hidden :: "string set"
  ad_min_volume :: rat
  ad_exclude :: "string set"

record compute_worker =
  cw_screener :: screener
  cw_last_good_count :: nat
  cw_last_write_ts :: rat
  cw_file :: "opportunity list"

definition cycle_rows :: "admin_state \<Rightarrow> funding_row list \<Rightarrow> funding_row list" where
  "cycle_rows a rows =
     drop_price_outliers (filter (keep_priced_rate (ad_hidden a) (ad_min_volume a))
       (filter (\<lambda>r. fr_exchange r \<notin> ad_disabled a) rows))"

definition too_thin :: "rat \<Rightarrow> compute_worker \<Rightarrow> nat \<Rightarrow> bool" where
  "too_thin now w n \<longleftrightarrow>
     10 < cw_last_good_count w \<and> now - cw_last_write_ts w < 5 \<and> of_nat n < of_nat (cw_last_good_count w) * (1 / 2 :: rat)"

definition compute_cycle ::
  "registry \<Rightarrow> clock \<Rightarrow> admin_state \<Rightarrow> funding_row list \<Rightarrow> compute_worker \<Rightarrow> compute_worker" where
  "compute_cycle reg c a rows w =
     (let rs = cycle_rows a rows in
      if rs = [] then w
      else let (opps, s1) = compute_arb reg c (wall c) (ad_exclude a) rs (cw_screener w); n = length opps;
               w1 = w\<lparr>cw_screener := s1\<rparr>
           in if too_thin (wall c) w n then w1
              else let w2 = w1\<lparr>cw_file := fst (slim_for_file opps)\<rparr>
                   in if 0 < n then w2\<lparr>cw_last_good_count := n, cw_last_write_ts := wall c\<rparr> else w2)"

section \<open>Spot/short opportunities\<close>

definition spot_fees :: "(string \<times> rat) list" where
  "spot_fees =
     [(''binance'', 1 / 1000), (''bybit'', 1 / 1000), (''okx'', 1 / 1000), (''gate'', 1 / 1000), (''kucoin'', 1 / 1000),
      (''mexc'', 0), (''bitget'', 1 / 1000), (''bingx'', 1 / 1000), (''upbit'', 25 / 10000), (''binancealpha'', 1 / 1000)]"

definition spot_fee :: "string \<Rightarrow> rat" where
  "spot_fee ex = (case map_of spot_fees ex of Some f \<Rightarrow> f | None \<Rightarrow> 1 / 1000)"

record spot_opportunity =
  so_symbol :: string
  so_spot_exchange :: string
  so_short_exchange :: string
  so_spot_price :: rat
  so_perp_price :: rat
  so_spot_volume_usd :: rat
  so_perp_volume_usd :: rat
  so_funding_rate :: rat
  so_short_funding_8h :: rat
  so_basis_pct :: rat
  so_gross :: rat
  so_fee_spot :: rat
  so_fee_perp :: rat
  so_total_fees :: rat
  so_net_profit :: rat
  so_net_apr :: rat
  so_interval_h :: rat
  so_next_ts :: int

definition spot_opportunity_of :: "string \<Rightarrow> string \<Rightarrow> spot_row \<Rightarrow> string \<Rightarrow> funding_row \<Rightarrow> spot_opportunity" where
  "spot_opportunity_of symbol spot_ex sd perp_ex pd =
     (let perp_price = or_else (fr_price pd) 0; rate_f = or_else (fr_rate pd) 0; interval_h = or_else (fr_interval_h pd) 8;
          short_funding = rate_f * (8 / interval_h) * 100; basis_pct = (perp_price - sr_price sd) / sr_price sd * 100;
          gross = short_funding + basis_pct; fee_spot_rt = spot_fee spot_ex * 100 * 2; fee_perp_rt = fee_of perp_ex * 100 * 2;
          total_fees = fee_spot_rt + fee_perp_rt; funding_only = short_funding - total_fees
      in \<lparr>so_symbol = symbol, so_spot_exchange = spot_ex, so_short_exchange = perp_ex, so_spot_price = sr_price sd,
          so_perp_price = perp_price, so_spot_volume_usd = sr_volume_usd sd,
          so_perp_volume_usd = or_else (fr_volume_usd pd) 0, so_funding_rate = rate_f,
          so_short_funding_8h = short_funding, so_basis_pct = basis_pct, so_gross = gross, so_fee_spot = fee_spot_rt,
          so_fee_perp = fee_perp_rt, so_total_fees = total_fees, so_net_profit = gross - total_fees,
          so_net_apr = (if 0 < funding_only then funding_only * (365 * 3) else 0),
          so_interval_h = interval_h, so_next_ts = fr_next_ts pd\<rparr>)"

text \<open>Whether a spot and a perpetual row are combined, apart from the identity check.\<close>

definition spot_usable :: "rat \<Rightarrow> spot_row \<Rightarrow> bool" where
  "spot_usable min_vol sd \<longleftrightarrow> 0 < sr_price sd \<and> min_vol \<le> sr_volume_usd sd"

definition perp_usable :: "rat \<Rightarrow> funding_row \<Rightarrow> bool" where
  "perp_usable min_vol pd \<longleftrightarrow>
     0 < or_else (fr_price pd) 0 \<and> truthy (fr_rate pd) \<and> min_vol \<le> or_else (fr_volume_usd pd) 0"

definition visit_spot ::
  "registry \<Rightarrow> clock \<Rightarrow> rat \<Rightarrow> string \<Rightarrow> verdicts \<times> spot_opportunity list \<Rightarrow>
   (string \<times> spot_row) \<times> string \<times> funding_row \<Rightarrow> verdicts \<times> spot_opportunity list" where
  "visit_spot reg c min_vol symbol st p =
     (let (vc, opps) = st; ((spot_ex, sd), perp_ex, pd) = p;
          x = spot_opportunity_of symbol spot_ex sd perp_ex pd
      in if \<not> spot_usable min_vol sd \<or> \<not> perp_usable min_vol pd \<or> 100 < \<bar>so_basis_pct x\<bar> then (vc, opps)
         else let (verdict, vc1) = (if 5 < \<bar>so_basis_pct x\<bar>
                then validate_pair_identity reg c symbol spot_ex perp_ex vc else (None, vc))
              in if verdict = Some False then (vc1, opps) else (vc1, opps @ [x]))"

text \<open>Venues in the order of the program's tables; per venue the last row of a symbol counts.\<close>

definition latest :: "('r \<Rightarrow> string) \<Rightarrow> (string \<times> 'r list) list \<Rightarrow> string \<Rightarrow> (string \<times> 'r) list" where
  "latest symbol venues s =
     concat (map (\<lambda>(ex, rows). case find (\<lambda>r. symbol r = s) (rev rows) of None \<Rightarrow> [] | Some r \<Rightarrow> [(ex, r)]) venues)"

definition spot_short_opportunities ::
  "registry \<Rightarrow> clock \<Rightarrow> rat \<Rightarrow> (string \<times> spot_row list) list \<Rightarrow> (string \<times> funding_row list) list \<Rightarrow> verdicts \<Rightarrow>
   spot_opportunity list \<times> verdicts" where
  "spot_short_opportunities reg c min_vol spots perps vc =
     (let symbols = filter (\<lambda>s. s \<noteq> []) (first_seen (concat (map (\<lambda>(_, rows). map sr_symbol rows) spots)));
          visits = (\<lambda>st s. foldl (visit_spot reg c min_vol s) st
            (List.product (latest sr_symbol spots s) (latest fr_symbol perps s)));
          (vc1, opps) = foldl visits (vc, []) symbols
      in (take 200 (sort_key (\<lambda>x. - so_net_profit x) opps), vc1))"

end
