(* ===== verification/Screener_Safety.thy ===== *)
theory Screener_Safety
  imports Screener "HOL-Library.Multiset"
begin

text \<open>
  What the screener guarantees: what one computation shows, given by a closed formula; that
  what is shown has been quoted for a while; that the price check agrees with the median
  whatever the order of the rows; that an identity verdict does not depend on which venue is
  named first; and that what the administrator hides is not served.
\<close>

section \<open>Token identity\<close>

lemma verdict_key_swap: "verdict_key s a b = verdict_key s b a"
  by (auto simp: verdict_key_def Let_def)

lemma validate_swap: "validate_pair_identity reg c s a b = validate_pair_identity reg c s b a"
  by (rule ext) (simp add: validate_pair_identity_def verdict_key_swap [of s a b])

lemma verdict_stable [simp]:
  "fst (validate_pair_identity reg c s a b (snd (validate_pair_identity reg c s' a' b' vc))) =
   fst (validate_pair_identity reg c s a b vc)"
  by (auto simp: validate_pair_identity_def Let_def cached_verdict_def pair_verdict_ttl_s_def negative_ttl_s_def
      split: option.splits if_splits)

section \<open>One computation\<close>

text \<open>Whether a pair of entries is quoted, and the pairs of a computation in order.\<close>

definition quotable :: "registry \<Rightarrow> clock \<Rightarrow> verdicts \<Rightarrow> string \<times> entry \<times> entry \<Rightarrow> bool" where
  "quotable reg c vc q = (case q of (s, l, sh) \<Rightarrow>
     0 < en_mark l \<and> 0 < en_mark sh \<and>
     (high_spread_threshold < \<bar>spread_of l sh\<bar> \<longrightarrow>
        fst (validate_pair_identity reg c s (fr_exchange (en_row l)) (fr_exchange (en_row sh)) vc) \<noteq> Some False))"

definition candidates :: "string set \<Rightarrow> funding_row list \<Rightarrow> (string \<times> entry \<times> entry) list" where
  "candidates exclude rows =
     concat (map (\<lambda>(s, rs). map (Pair s) (leg_pairs (map entry_of rs))) (by_symbol exclude rows))"

definition settled :: "(pair_key \<Rightarrow> rat option) \<Rightarrow> rat \<Rightarrow> pair_key \<Rightarrow> bool" where
  "settled first ts k = (case first k of None \<Rightarrow> False | Some f \<Rightarrow> opp_min_lifetime_s \<le> ts - f)"

definition quoted :: "registry \<Rightarrow> clock \<Rightarrow> verdicts \<Rightarrow> string set \<Rightarrow> funding_row list \<Rightarrow> pair_key list" where
  "quoted reg c vc exclude rows =
     map (\<lambda>q. key_of (fst q) (snd q)) (filter (quotable reg c vc) (candidates exclude rows))"

lemma visit_step:
  assumes "visit reg c ts (fst q) (s, opps) (snd q) = (s', opps')"
  shows "quotable reg c (sn_verdicts s') = quotable reg c (sn_verdicts s)"
    and "quotable reg c (sn_verdicts s) q \<Longrightarrow>
      sn_first s' = (sn_first s)(key_of (fst q) (snd q) \<mapsto> (case sn_first s (key_of (fst q) (snd q)) of None \<Rightarrow> ts | Some f \<Rightarrow> f)) \<and>
      sn_last s' = (sn_last s)(key_of (fst q) (snd q) \<mapsto> ts)"
    and "\<not> quotable reg c (sn_verdicts s) q \<Longrightarrow> sn_first s' = sn_first s \<and> sn_last s' = sn_last s"
    and "opps' = opps @ (if quotable reg c (sn_verdicts s) q \<and> settled (sn_first s) ts (key_of (fst q) (snd q))
       then [opportunity_of (fst q) (snd q)] else [])"
proof -
  obtain sy l sh where q: "q = (sy, l, sh)" by (metis prod_cases3)
  obtain ok vc where v: "validate_pair_identity reg c sy (fr_exchange (en_row l)) (fr_exchange (en_row sh)) (sn_verdicts s) = (ok, vc)"
    by fastforce
  have "fst (validate_pair_identity reg c s' a b vc) = fst (validate_pair_identity reg c s' a b (sn_verdicts s))" for s' a b
    using verdict_stable [of reg c s' a b sy "fr_exchange (en_row l)" "fr_exchange (en_row sh)" "sn_verdicts s"] by (simp add: v)
  then have st: "quotable reg c vc = quotable reg c (sn_verdicts s)"
    by (simp add: quotable_def fun_eq_iff)
  note d = assms [unfolded visit_def q, simplified, unfolded v]
  show "quotable reg c (sn_verdicts s') = quotable reg c (sn_verdicts s)"
    using d st by (auto simp: v Let_def split: if_split_asm option.split_asm prod.split_asm)
  show "quotable reg c (sn_verdicts s) q \<Longrightarrow>
      sn_first s' = (sn_first s)(key_of (fst q) (snd q) \<mapsto> (case sn_first s (key_of (fst q) (snd q)) of None \<Rightarrow> ts | Some f \<Rightarrow> f)) \<and>
      sn_last s' = (sn_last s)(key_of (fst q) (snd q) \<mapsto> ts)"
    using d by (auto simp: q quotable_def v Let_def fun_upd_idem split: if_split_asm option.split_asm prod.split_asm)
  show "\<not> quotable reg c (sn_verdicts s) q \<Longrightarrow> sn_first s' = sn_first s \<and> sn_last s' = sn_last s"
    using d by (auto simp: q quotable_def v Let_def split: if_split_asm option.split_asm prod.split_asm)
  show "opps' = opps @ (if quotable reg c (sn_verdicts s) q \<and> settled (sn_first s) ts (key_of (fst q) (snd q))
       then [opportunity_of (fst q) (snd q)] else [])"
    using d by (auto simp: q quotable_def v Let_def settled_def split: if_split_asm option.split_asm prod.split_asm)
qed


lemma visits_spec:
  assumes "foldl (\<lambda>st q. visit reg c ts (fst q) st (snd q)) (s, opps) qs = (s', opps')"
  shows "(\<forall>k. sn_first s' k = (if k \<in> set (map (\<lambda>q. key_of (fst q) (snd q)) (filter (quotable reg c (sn_verdicts s)) qs))
      then Some (case sn_first s k of None \<Rightarrow> ts | Some f \<Rightarrow> f) else sn_first s k)) \<and>
    (\<forall>k. sn_last s' k = (if k \<in> set (map (\<lambda>q. key_of (fst q) (snd q)) (filter (quotable reg c (sn_verdicts s)) qs))
      then Some ts else sn_last s k)) \<and>
    opps' = opps @ map (\<lambda>q. opportunity_of (fst q) (snd q))
      (filter (\<lambda>q. quotable reg c (sn_verdicts s) q \<and> settled (sn_first s) ts (key_of (fst q) (snd q))) qs)"
  using assms
proof (induction qs arbitrary: s opps)
  case (Cons q qs)
  obtain s1 o1 where v: "visit reg c ts (fst q) (s, opps) (snd q) = (s1, o1)" by fastforce
  have rest: "foldl (\<lambda>st q. visit reg c ts (fst q) st (snd q)) (s1, o1) qs = (s', opps')"
    using Cons.prems v by simp
  note ih = Cons.IH [OF rest]
  note d = visit_step [OF v]
  have first: "settled (sn_first s1) ts k \<longleftrightarrow> settled (sn_first s) ts k" for k
    using d(2,3) by (cases "quotable reg c (sn_verdicts s) q")
      (auto simp: settled_def opp_min_lifetime_s_def split: option.splits)
  have "sn_first s' k = (if k \<in> set (map (\<lambda>q. key_of (fst q) (snd q)) (filter (quotable reg c (sn_verdicts s)) (q # qs)))
      then Some (case sn_first s k of None \<Rightarrow> ts | Some f \<Rightarrow> f) else sn_first s k)" for k
    using ih [THEN conjunct1, THEN spec, of k] d(1-3) by (cases "quotable reg c (sn_verdicts s) q"; cases "k = key_of (fst q) (snd q)"; cases "sn_first s k") simp_all
  moreover have "sn_last s' k = (if k \<in> set (map (\<lambda>q. key_of (fst q) (snd q)) (filter (quotable reg c (sn_verdicts s)) (q # qs)))
      then Some ts else sn_last s k)" for k
    using ih [THEN conjunct2, THEN conjunct1, THEN spec, of k] d(1-3) by (cases "quotable reg c (sn_verdicts s) q"; cases "k = key_of (fst q) (snd q)") simp_all
  moreover have "opps' = opps @ map (\<lambda>q. opportunity_of (fst q) (snd q))
      (filter (\<lambda>q. quotable reg c (sn_verdicts s) q \<and> settled (sn_first s) ts (key_of (fst q) (snd q))) (q # qs))"
    using ih [THEN conjunct2, THEN conjunct2] d(1,4) by (simp add: first)
  ultimately show ?case by blast
qed simp

lemma leg_pairs_short: "length xs < 2 \<Longrightarrow> leg_pairs xs = []"
  by (cases xs) (auto simp: leg_pairs_def)

lemma by_symbols_flat:
  "foldl (visit_symbol reg c ts) st gs =
   foldl (\<lambda>st q. visit reg c ts (fst q) st (snd q)) st
     (concat (map (\<lambda>(s, rs). map (Pair s) (leg_pairs (map entry_of rs))) gs))"
proof (induction gs arbitrary: st)
  case (Cons g gs)
  have "visit_symbol reg c ts st g = foldl (\<lambda>st q. visit reg c ts (fst q) st (snd q)) st (map (Pair (fst g)) (leg_pairs (map entry_of (snd g))))"
    by (simp add: visit_symbol_def leg_pairs_short foldl_map)
  then show ?case using Cons.IH by (simp add: split_beta)
qed simp

text \<open>
  The state after a computation and its result, pair by pair: a pair's clock starts when it is
  first quoted, and what is shown are the pairs quoted now whose clock has run long enough.
\<close>

lemma compute_arb_state:
  assumes "compute_arb reg c ts exclude rows s = (opps, s')"
  shows "sn_first s' k = (if k \<in> set (quoted reg c (sn_verdicts s) exclude rows)
      then Some (case sn_first s k of None \<Rightarrow> ts | Some f \<Rightarrow> f)
      else case sn_last s k of Some l \<Rightarrow> if l < ts - opp_purge_after_s then None else sn_first s k | None \<Rightarrow> sn_first s k)"
    and "sn_last s' k = (if k \<in> set (quoted reg c (sn_verdicts s) exclude rows) then Some ts
      else case sn_last s k of Some l \<Rightarrow> if l < ts - opp_purge_after_s then None else Some l | None \<Rightarrow> None)"
    and "opps = sort_key (\<lambda>x. - op_net_profit x) (map (\<lambda>q. opportunity_of (fst q) (snd q))
      (filter (\<lambda>q. quotable reg c (sn_verdicts s) q \<and> settled (sn_first s) ts (key_of (fst q) (snd q)))
        (candidates exclude rows)))"
proof -
  obtain s1 o1 where f: "foldl (\<lambda>st q. visit reg c ts (fst q) st (snd q)) (s, []) (candidates exclude rows) = (s1, o1)"
    by fastforce
  have r: "opps = sort_key (\<lambda>x. - op_net_profit x) o1" "s' = purge ts s1"
    using assms f by (simp_all add: compute_arb_def by_symbols_flat candidates_def)
  note v = visits_spec [OF f, folded quoted_def]
  note first = v [THEN conjunct1, THEN spec, of k] and last = v [THEN conjunct2, THEN conjunct1, THEN spec, of k]
  show "sn_first s' k = (if k \<in> set (quoted reg c (sn_verdicts s) exclude rows)
      then Some (case sn_first s k of None \<Rightarrow> ts | Some f \<Rightarrow> f)
      else case sn_last s k of Some l \<Rightarrow> if l < ts - opp_purge_after_s then None else sn_first s k | None \<Rightarrow> sn_first s k)"
    using first last by (cases "sn_last s k"; cases "sn_first s k") (simp_all add: r(2) purge_def Let_def opp_purge_after_s_def)
  show "sn_last s' k = (if k \<in> set (quoted reg c (sn_verdicts s) exclude rows) then Some ts
      else case sn_last s k of Some l \<Rightarrow> if l < ts - opp_purge_after_s then None else Some l | None \<Rightarrow> None)"
    using last by (cases "sn_last s k") (simp_all add: r(2) purge_def Let_def opp_purge_after_s_def)
  show "opps = sort_key (\<lambda>x. - op_net_profit x) (map (\<lambda>q. opportunity_of (fst q) (snd q))
      (filter (\<lambda>q. quotable reg c (sn_verdicts s) q \<and> settled (sn_first s) ts (key_of (fst q) (snd q)))
        (candidates exclude rows)))"
    using v [THEN conjunct2, THEN conjunct2] by (simp add: r(1))
qed


section \<open>Runs of computations\<close>

text \<open>
  A pass is the clock, the time stamp of the rows, the excluded venues and the rows. \<open>tracked\<close>
  says what a pair's two time stamps are, from nothing but when it was quoted, newest pass
  first: the hysteresis of a single pair.
\<close>

type_synonym pass = "clock \<times> rat \<times> string set \<times> funding_row list"

definition fresh_screener :: screener where
  "fresh_screener = \<lparr>sn_first = (\<lambda>_. None), sn_last = (\<lambda>_. None), sn_verdicts = (\<lambda>_. None)\<rparr>"

definition arb_pass :: "registry \<Rightarrow> screener \<Rightarrow> pass \<Rightarrow> opportunity list \<times> screener" where
  "arb_pass reg s e = (case e of (c, ts, exclude, rows) \<Rightarrow> compute_arb reg c ts exclude rows s)"

definition quoted_at :: "registry \<Rightarrow> screener \<Rightarrow> pass \<Rightarrow> pair_key list" where
  "quoted_at reg s e = (case e of (c, ts, exclude, rows) \<Rightarrow> quoted reg c (sn_verdicts s) exclude rows)"

definition stamp_of :: "pass \<Rightarrow> rat" where
  "stamp_of e = fst (snd e)"

definition arb_after :: "registry \<Rightarrow> pass list \<Rightarrow> screener" where
  "arb_after reg es = foldl (\<lambda>s e. snd (arb_pass reg s e)) fresh_screener es"

fun tracked :: "(rat \<times> pair_key list) list \<Rightarrow> pair_key \<Rightarrow> (rat \<times> rat) option" where
  "tracked [] k = None"
| "tracked ((ts, ks) # h) k =
     (if k \<in> set ks then Some (case tracked h k of None \<Rightarrow> ts | Some (first, _) \<Rightarrow> first, ts)
      else case tracked h k of
          None \<Rightarrow> None
        | Some (first, recent) \<Rightarrow> if recent < ts - opp_purge_after_s then None else Some (first, recent))"

fun history :: "registry \<Rightarrow> screener \<Rightarrow> pass list \<Rightarrow> (rat \<times> pair_key list) list" where
  "history reg s [] = []"
| "history reg s (e # es) = history reg (snd (arb_pass reg s e)) es @ [(stamp_of e, quoted_at reg s e)]"

definition opp_key :: "opportunity \<Rightarrow> pair_key" where
  "opp_key x = (op_symbol x, op_long_exchange x, op_short_exchange x)"

lemma history_snoc:
  "history reg s (es @ [e]) =
   (stamp_of e, quoted_at reg (foldl (\<lambda>s e. snd (arb_pass reg s e)) s es) e) # history reg s es"
  by (induction es arbitrary: s) auto

lemma opp_key_of [simp]: "opp_key (opportunity_of s p) = key_of s p"
  by (cases p) (simp add: opp_key_def opportunity_of_def key_of_def)

lemma tracked_state:
  "sn_first (arb_after reg es) k = map_option fst (tracked (history reg fresh_screener es) k) \<and>
   sn_last (arb_after reg es) k = map_option snd (tracked (history reg fresh_screener es) k)"
proof (induction es rule: rev_induct)
  case Nil
  then show ?case by (simp add: arb_after_def fresh_screener_def)
next
  case (snoc e es)
  obtain c ts exclude rows where e: "e = (c, ts, exclude, rows)" by (metis prod_cases4)
  obtain opps s' where p: "compute_arb reg c ts exclude rows (arb_after reg es) = (opps, s')" by fastforce
  have after: "arb_after reg (es @ [e]) = s'" using p by (simp add: arb_after_def arb_pass_def e)
  have hist: "history reg fresh_screener (es @ [e]) =
      (ts, quoted reg c (sn_verdicts (arb_after reg es)) exclude rows) # history reg fresh_screener es"
    unfolding history_snoc by (simp add: arb_after_def stamp_of_def quoted_at_def e)
  show ?case
    unfolding after hist using snoc.IH compute_arb_state(1,2) [OF p, of k]
    by (cases "tracked (history reg fresh_screener es) k") auto
qed

lemma tracked_first:
  "tracked h k = Some (first, recent) \<Longrightarrow> \<exists>q \<in> set h. fst q = first \<and> k \<in> set (snd q)"
proof (induction h arbitrary: first recent)
  case (Cons q h)
  then show ?case by (cases q) (fastforce split: if_splits option.splits)
qed simp

lemma set_history:
  "set (history reg s es) =
   (\<lambda>i. (stamp_of (es ! i), quoted_at reg (foldl (\<lambda>s e. snd (arb_pass reg s e)) s (take i es)) (es ! i))) ` {..<length es}"
proof (induction es arbitrary: s)
  case (Cons e es)
  have "{..<length (e # es)} = insert 0 (Suc ` {..<length es})"
    by (auto simp: image_iff) (metis lessThan_iff less_Suc_eq_0_disj)
  then show ?case by (simp add: Cons.IH image_image)
qed simp

lemma image_Collect_conj: "f ` {q \<in> A. P q \<and> Q (f q)} = {k \<in> f ` {q \<in> A. P q}. Q k}"
  by auto

lemma pass_shows:
  "opp_key ` set (fst (arb_pass reg s e)) = {k \<in> set (quoted_at reg s e). settled (sn_first s) (stamp_of e) k}"
proof -
  obtain c ts exclude rows where e: "e = (c, ts, exclude, rows)" by (metis prod_cases4)
  obtain opps s' where p: "compute_arb reg c ts exclude rows s = (opps, s')" by fastforce
  have "opp_key ` set opps = (\<lambda>q. key_of (fst q) (snd q)) `
      {q \<in> set (candidates exclude rows). quotable reg c (sn_verdicts s) q \<and> settled (sn_first s) ts (key_of (fst q) (snd q))}"
    by (simp add: compute_arb_state(3) [OF p] image_image)
  then show ?thesis
    using p by (simp add: arb_pass_def quoted_at_def stamp_of_def e quoted_def) (rule image_Collect_conj)
qed


text \<open>
  Nothing flashes. Whatever passes went before, an opportunity that is shown is quoted in
  this pass and was quoted in an earlier pass at least three seconds older.
\<close>

theorem nothing_flashes:
  assumes "x \<in> set (fst (arb_pass reg (arb_after reg es) e))"
  shows "opp_key x \<in> set (quoted_at reg (arb_after reg es) e) \<and>
    (\<exists>i < length es. opp_key x \<in> set (quoted_at reg (arb_after reg (take i es)) (es ! i)) \<and>
       stamp_of (es ! i) + 3 \<le> stamp_of e)"
proof -
  have "opp_key x \<in> opp_key ` set (fst (arb_pass reg (arb_after reg es) e))" using assms by blast
  then have q: "opp_key x \<in> set (quoted_at reg (arb_after reg es) e)"
    and t: "settled (sn_first (arb_after reg es)) (stamp_of e) (opp_key x)"
    by (auto simp: pass_shows)
  obtain first recent where f: "tracked (history reg fresh_screener es) (opp_key x) = Some (first, recent)"
      "3 \<le> stamp_of e - first"
    using t tracked_state [of reg es "opp_key x"]
    by (cases "tracked (history reg fresh_screener es) (opp_key x)") (auto simp: settled_def opp_min_lifetime_s_def)
  then show ?thesis
    using q tracked_first [OF f(1)] by (auto simp: set_history arb_after_def)
qed

definition no_registry :: registry where
  "no_registry = (\<lambda>_ _. None)"

definition sample_pass :: "rat \<Rightarrow> pass" where
  "sample_pass ts = (\<lparr>utcnow = 0, monotonic = ts\<rparr>, ts, {},
     [quote_row ''okx'' ''BTC'' (1 / 10000) 100 1000000, quote_row ''gate'' ''BTC'' (3 / 10000) 101 1000000])"

theorem nothing_flashes_witness:
  "\<exists>x. opp_key x \<in> set (quoted_at no_registry (arb_after no_registry [sample_pass 10]) (sample_pass 14)) \<and>
     (\<exists>i < 1. opp_key x \<in> set (quoted_at no_registry (arb_after no_registry (take i [sample_pass 10])) ([sample_pass 10] ! i)) \<and>
        stamp_of ([sample_pass 10] ! i) + 3 \<le> stamp_of (sample_pass 14))"
proof -
  have "fst (arb_pass no_registry (arb_after no_registry [sample_pass 10]) (sample_pass 14)) \<noteq> []" by code_simp
  then obtain x where "x \<in> set (fst (arb_pass no_registry (arb_after no_registry [sample_pass 10]) (sample_pass 14)))"
    by (meson list.set_sel(1))
  from nothing_flashes [OF this] show ?thesis by (intro exI [of _ x]) simp
qed

section \<open>The price check\<close>

lemma sort_perm: "mset xs = mset ys \<Longrightarrow> sort xs = sort ys" for xs :: "rat list"
  by (rule properties_for_sort) simp_all

lemma median_perm:
  assumes "mset xs = mset ys"
  shows "median xs = median ys"
proof -
  have "length xs = length ys" using assms by (rule mset_eq_length)
  then show ?thesis using sort_perm [OF assms] by (simp add: median_def)
qed

lemma median_odd: "odd (length xs) \<Longrightarrow> median xs \<in> set xs"
proof -
  assume "odd (length xs)"
  then have "sort xs ! (length xs div 2) \<in> set (sort xs)" by (intro nth_mem) (auto elim: oddE)
  then show ?thesis using \<open>odd (length xs)\<close> by (simp add: median_def)
qed

lemma listings_perm: "mset rows = mset rows' \<Longrightarrow> mset (listings rows s) = mset (listings rows' s)"
  by (simp add: listings_def)

lemma deviates_perm:
  assumes "mset xs = mset ys"
  shows "deviates limit xs = deviates limit ys"
  using median_perm [OF assms] mset_eq_length [OF assms] by (simp add: deviates_def fun_eq_iff)

lemma median_stays:
  assumes "odd (length (listings rows s))"
  shows "\<exists>r \<in> set (drop_price_outliers rows). fr_symbol r = s"
proof -
  obtain r where r: "r \<in> set rows" "fr_symbol r = s" "0 < price_of r" "price_of r = median (listings rows s)"
    using median_odd [OF assms] by (auto simp: listings_def)
  then have "\<not> deviates price_drop_dev_pct (listings rows s) (price_of r)"
    by (simp add: deviates_def price_drop_dev_pct_def)
  then show ?thesis using r by (auto simp: drop_price_outliers_def)
qed

text \<open>
  The price check. It drops the same rows whatever order the venues' rows come in; of a
  symbol with an odd number of quotes it never drops every row; and rows of a symbol on fewer
  than three venues are never dropped.
\<close>

theorem outliers_by_agreement:
  assumes "mset rows = mset rows'"
  shows "mset (drop_price_outliers rows) = mset (drop_price_outliers rows') \<and>
    (odd (length (listings rows s)) \<longrightarrow> s \<in> fr_symbol ` set (drop_price_outliers rows)) \<and>
    (length (listings rows s) < 3 \<longrightarrow>
      filter (\<lambda>r. fr_symbol r = s) (drop_price_outliers rows) = filter (\<lambda>r. fr_symbol r = s) rows)"
proof (intro conjI impI)
  have "deviates l (listings rows x) = deviates l (listings rows' x)" for l x
    by (rule deviates_perm [OF listings_perm [OF assms]])
  then show "mset (drop_price_outliers rows) = mset (drop_price_outliers rows')"
    using assms by (simp add: drop_price_outliers_def)
  show "s \<in> fr_symbol ` set (drop_price_outliers rows)" if "odd (length (listings rows s))"
    using median_stays [OF that] by (auto simp: image_iff)
  show "filter (\<lambda>r. fr_symbol r = s) (drop_price_outliers rows) = filter (\<lambda>r. fr_symbol r = s) rows"
    if "length (listings rows s) < 3"
    using that by (auto simp: drop_price_outliers_def deviates_def min_ex_for_median_def intro: filter_cong)
qed

theorem outliers_by_agreement_witness:
  "mset (drop_price_outliers [quote_row ''okx'' ''BTC'' 0 100 1, quote_row ''gate'' ''BTC'' 0 101 1, quote_row ''mexc'' ''BTC'' 0 7 1]) =
     mset (drop_price_outliers [quote_row ''mexc'' ''BTC'' 0 7 1, quote_row ''gate'' ''BTC'' 0 101 1, quote_row ''okx'' ''BTC'' 0 100 1]) \<and>
   length (drop_price_outliers [quote_row ''okx'' ''BTC'' 0 100 1, quote_row ''gate'' ''BTC'' 0 101 1, quote_row ''mexc'' ''BTC'' 0 7 1]) = 2"
proof
  have "length (drop_price_outliers [quote_row ''okx'' ''BTC'' 0 100 1, quote_row ''gate'' ''BTC'' 0 101 1, quote_row ''mexc'' ''BTC'' 0 7 1]) = 2"
    by code_simp
  then show "length (drop_price_outliers [quote_row ''okx'' ''BTC'' 0 100 1, quote_row ''gate'' ''BTC'' 0 101 1, quote_row ''mexc'' ''BTC'' 0 7 1]) = 2" .
qed (rule outliers_by_agreement [THEN conjunct1], simp)

section \<open>What is served\<close>

text \<open>
  Hidden is hidden. Whatever \<open>get_arbitrage_opportunities\<close> answers from, memory, file or a
  new computation, no opportunity of a hidden symbol or with a leg on a disabled venue is in
  the answer.
\<close>

theorem hidden_never_served:
  "list_all (\<lambda>x. upper (op_symbol x) \<notin> hidden \<and>
      (op_long_exchange x \<noteq> [] \<longrightarrow> lower (op_long_exchange x) \<notin> disabled) \<and>
      (op_short_exchange x \<noteq> [] \<longrightarrow> lower (op_short_exchange x) \<notin> disabled))
    (fst (fst (get_arbitrage_opportunities c web force hidden disabled file compute st)))"
proof -
  have s: "list_all (\<lambda>x. upper (op_symbol x) \<notin> hidden \<and>
      (op_long_exchange x \<noteq> [] \<longrightarrow> lower (op_long_exchange x) \<notin> disabled) \<and>
      (op_short_exchange x \<noteq> [] \<longrightarrow> lower (op_short_exchange x) \<notin> disabled)) (fst (served hidden disabled opps))" for opps
    by (auto simp: served_def apply_admin_filters_def filtered_out_def op_venues_def list_all_iff Let_def)
  show ?thesis
    unfolding get_arbitrage_opportunities_def arb_uncached_def
    by (auto simp: s split: prod.split option.split list.split)
qed

theorem hidden_never_served_witness:
  "list_all (\<lambda>x. upper (op_symbol x) \<notin> {''BTC''} \<and>
      (op_long_exchange x \<noteq> [] \<longrightarrow> lower (op_long_exchange x) \<notin> {}) \<and>
      (op_short_exchange x \<noteq> [] \<longrightarrow> lower (op_short_exchange x) \<notin> {}))
    (fst (fst (get_arbitrage_opportunities \<lparr>utcnow = 0, monotonic = 0\<rparr> True False {''BTC''} {}
      (Some [opportunity_of ''BTC'' (entry_of (quote_row ''okx'' ''BTC'' 0 100 1), entry_of (quote_row ''gate'' ''BTC'' 0 101 1))])
      (Pair []) (\<lparr>rc_data = None, rc_ts = 0\<rparr>, fresh_screener))))"
  by (rule hidden_never_served)

text \<open>
  The funding view of the web process: requests with the file and the settings of their time.
  Rows that are served satisfy the settings of the request, also from the snapshot.
\<close>

type_synonym view_request = "clock \<times> funding_row list option \<times> string list \<times> string set \<times> rat"

definition view_step :: "funding_snapshot option \<Rightarrow> view_request \<Rightarrow> funding_snapshot option" where
  "view_step v e = (case e of (c, file, enabled, hidden, min_volume) \<Rightarrow> snd (web_funding_data c file enabled hidden min_volume v))"

definition view_inv :: "funding_snapshot option \<Rightarrow> bool" where
  "view_inv v = (case v of None \<Rightarrow> True | Some x \<Rightarrow> list_all (keep_row (fs_hidden x) (fs_min_volume x)) (fs_rows x))"

lemma view_step_inv: "view_inv v \<Longrightarrow> view_inv (view_step v e)"
  by (cases e) (auto simp: view_step_def view_inv_def web_funding_data_def Let_def list_all_iff split: option.splits list.splits)

interpretation view_machine: inv_machine view_step view_inv
  by unfold_locales (rule view_step_inv)

text \<open>
  A change of the settings takes effect at once. After any requests, the rows the web
  process serves satisfy the filter with the hidden symbols and the volume floor of the
  request itself, although a snapshot is served for a second.
\<close>

theorem funding_view_obeys_settings:
  assumes "fst (web_funding_data c file enabled hidden min_volume (foldl view_step None es)) = Some rows"
  shows "list_all (keep_row hidden min_volume) rows"
proof -
  have "view_inv (foldl view_step None es)" by (rule view_machine.run_inv) (simp add: view_inv_def)
  then show ?thesis
    using assms by (auto simp: web_funding_data_def view_inv_def Let_def list_all_iff split: option.splits list.splits if_splits)
qed

theorem funding_view_obeys_settings_witness:
  "list_all (keep_row {''BTC''} 0) [quote_row ''okx'' ''ETH'' 0 10 1]"
  by (rule funding_view_obeys_settings [of "\<lparr>utcnow = 0, monotonic = 1 / 2\<rparr>"
        "Some [quote_row ''okx'' ''BTC'' 0 100 1, quote_row ''okx'' ''ETH'' 0 10 1]" "[''okx'']" "{''BTC''}" 0
        "[(\<lparr>utcnow = 0, monotonic = 0\<rparr>, Some [quote_row ''okx'' ''BTC'' 0 100 1], [''okx''], {}, 0)]"]) code_simp

text \<open>
  The snapshot's filter does not look at the venues: rows of a venue that is not enabled are
  served when the file holds them.
\<close>

theorem disabled_venue_in_funding_view:
  "fst (web_funding_data \<lparr>utcnow = 0, monotonic = 0\<rparr> (Some [quote_row ''okx'' ''BTC'' 0 100 1]) [''gate''] {} 0 None) =
   Some [quote_row ''okx'' ''BTC'' 0 100 1]"
  by code_simp

section \<open>Venue caches\<close>

text \<open>
  A venue that bans the program is left alone. When a REST call is answered with a ban, the
  cached rows are served, and for three minutes every further call without a stream serves
  them and changes nothing, whatever the venue would answer.
\<close>

theorem banned_venue_left_alone:
  assumes "get_rows cfg c tradable None (Fetch_Raised msg) ex s = (rows, s')" and "is_ban msg"
    and "cache_ttl \<le> monotonic c - cached_at s ex" and "cache_ttl \<le> monotonic c' - cached_at s ex"
    and "fst (breaker_allow c (fd_circuit s) (''rest:'' @ ex))"
    and "wall c' < wall c + 180"
  shows "rows = cached_rows s ex \<and> get_rows cfg c' tradable' None reply ex s' = (cached_rows s ex, s')"
proof -
  obtain b where b: "breaker_allow c (fd_circuit s) (''rest:'' @ ex) = (True, b)"
    using assms(5) by (metis prod.collapse)
  have s': "rows = cached_rows s ex" "s' = s\<lparr>fd_circuit := breaker_hard_fail cfg c b (''rest:'' @ ex) (Some 180)\<rparr>"
    using assms(1-3) b by (simp_all add: get_rows_def after_failure_def Let_def)
  have "breaker_allow c' (fd_circuit s') (''rest:'' @ ex) = (False, fd_circuit s')"
    using assms(6) by (simp add: s'(2) breaker_allow_def breaker_hard_fail_def)
  moreover have "cached_rows s' ex = cached_rows s ex" "cached_at s' ex = cached_at s ex"
    by (simp_all add: s'(2) cached_rows_def cached_at_def)
  ultimately show ?thesis using s'(1) assms(4) by (simp add: get_rows_def Let_def)
qed

definition cold_feed :: "funding_row feed" where
  "cold_feed = \<lparr>fd_cache = (\<lambda>_. None), fd_circuit = closed_breaker\<rparr>"

theorem banned_venue_left_alone_witness:
  "\<exists>s'. get_rows default_breaker \<lparr>utcnow = 100000000, monotonic = 100\<rparr> None None (Fetch_Raised ''Client Error (418)'') ''okx'' cold_feed = ([], s') \<and>
     get_rows default_breaker \<lparr>utcnow = 200000000, monotonic = 200\<rparr> None None (Fetched [quote_row ''okx'' ''BTC'' 0 100 1]) ''okx'' s' = ([], s')"
proof -
  obtain rows s' where g: "get_rows default_breaker \<lparr>utcnow = 100000000, monotonic = 100\<rparr> None None (Fetch_Raised ''Client Error (418)'') ''okx'' cold_feed = (rows, s')"
    by fastforce
  have "is_ban ''Client Error (418)''" by code_simp
  from banned_venue_left_alone [OF g this, of "\<lparr>utcnow = 200000000, monotonic = 200\<rparr>" None "Fetched [quote_row ''okx'' ''BTC'' 0 100 1]"]
  show ?thesis using g by (auto simp: cold_feed_def cached_at_def cached_rows_def cache_ttl_def closed_breaker_def breaker_allow_def wall_def)
qed

end
