(* ===== verification/Trade_Desk.thy ===== *)
theory Trade_Desk
  imports Arb_Orders Funding
begin

text \<open>
  The trade dispatcher, \<^verbatim>\<open>backend/services/trade_service.py\<close>: placing and closing orders through
  the Go engine (\<^verbatim>\<open>backend/services/trade_proxy.py\<close>) with the Python adapters as fallback, the
  order log, the caches an order invalidates, and the status of a pair. The engines, the
  venues' pre-flight checks and balances and the administrator's blocks are an argument,
  \<open>trade_env\<close>. Leverage is set beside the pre-flight check and its failure is ignored; it does
  not appear here.
\<close>

section \<open>Orders and engines\<close>

record order_request =
  rq_user_id :: int
  rq_wallet_id :: int
  rq_exchange :: string
  rq_symbol :: string
  rq_side :: string
  rq_quantity :: rat
  rq_leverage :: int
  rq_margin_mode :: string
  rq_market_type :: string
  rq_order_type :: string
  rq_limit_price :: "rat option"
  rq_stop_price :: "rat option"
  rq_spread_pct :: "rat option"

record venue_result =
  vr_order_id :: string
  vr_avg_price :: "rat option"
  vr_fill_price :: "rat option"
  vr_price :: "rat option"
  vr_filled_qty :: "rat option"
  vr_qty :: "rat option"

text \<open>
  The Go engine raises an error with a kind; a kind other than \<open>user\<close> and \<open>exchange\<close>, a network
  error among them, makes the dispatcher fall back. An adapter raises a RuntimeError for what
  the venue refused and any other exception for the rest.
\<close>

datatype proxy_reply = Go_Ok venue_result | Go_Error string string
datatype adapter_reply = Ad_Ok venue_result | Ad_Runtime string | Ad_Other string
datatype preflight_reply = Pre_None | Pre_Raised | Pre_Refused string | Pre_Ok "rat option"

record close_order =
  co_user_id :: int
  co_wallet_id :: int
  co_exchange :: string
  co_symbol :: string
  co_side :: string
  co_market_type :: string

datatype engine_call =
    Proxy_Open order_request | Adapter_Open order_request | Proxy_Close close_order | Adapter_Close close_order

text \<open>
  What an adapter reports of a balance, with None for what it leaves out, and of the open
  positions of an account. \<open>mark_source\<close>, \<open>mark_age_s\<close> and \<open>mark_tick_ts\<close> are set by the program.
\<close>

datatype balance_entry = Amount rat | Free_Total "rat option" "rat option"

record venue_balance =
  vb_USDT :: "balance_entry option"
  vb_usdt :: "balance_entry option"
  vb_usdt_balance :: "balance_entry option"
  vb_available :: "rat option"
  vb_free :: "rat option"
  vb_equity :: "rat option"
  vb_spot_usd :: "rat option"
  vb_futures_usd :: "rat option"

record held_position =
  hp_position_id :: string
  hp_wallet_id :: int
  hp_exchange :: string
  hp_symbol :: string
  hp_side :: string
  hp_quantity :: "rat option"
  hp_entry_price :: "rat option"
  hp_mark_price :: "rat option"
  hp_unrealized_pnl_usd :: "rat option"
  hp_mark_source :: "string option"
  hp_mark_age_s :: "rat option"
  hp_mark_tick_ts :: "rat option"

datatype positions_reply = Rows_Ok "held_position list" | Rows_Raised string | Rows_Timeout

record trade_env =
  te_supported :: "string \<Rightarrow> bool"
  te_blocked :: "string \<Rightarrow> bool"
  te_max_leverage :: "string \<Rightarrow> string \<Rightarrow> int option"
  te_preflight :: "order_request \<Rightarrow> preflight_reply"
  te_proxy_enabled :: "string \<Rightarrow> bool"
  te_proxy_open :: "order_request \<Rightarrow> proxy_reply"
  te_adapter_open :: "order_request \<Rightarrow> adapter_reply"
  te_spot_native :: "string \<Rightarrow> bool"
  te_proxy_close :: "close_order \<Rightarrow> proxy_reply"
  te_adapter_close :: "close_order \<Rightarrow> adapter_reply"
  te_balance :: "wallet \<Rightarrow> string + venue_balance"
  te_stream :: "int \<Rightarrow> held_position list option"
  te_positions :: "int \<Rightarrow> string \<Rightarrow> positions_reply"
  te_live_marks :: "(string \<times> funding_row list \<times> rat) list"
  te_local_upnl :: bool

text \<open>A \<open>TradeError\<close> has a kind and a message; messages the service composes are constructors.\<close>

datatype trade_reason =
    Bad_Symbol | Bad_Side | Bad_Market_Type | Bad_Margin_Mode | Bad_Quantity
  | No_Wallet | Portfolio_Wallet | Unsupported_Exchange | Needs_Paid_Plan | Spread_Over_Cap
  | Blocked_By_Admin | Leverage_Over_Max int | Spot_Needs_Proxy | Only_Market_Orders
  | Wrong_Leg_Fallback | Reason string

datatype trade_fail = User_Fail trade_reason | Venue_Fail string string | Internal_Fail | Limits_Fail

section \<open>The desk\<close>

text \<open>
  The trading database with the in-process caches, and the calls made to the engines, in
  order. A pair's status is cached per user, symbol, long and short venue.
\<close>

record leg_status =
  ls_wallet_id :: "int option"
  ls_status :: string
  ls_balance_usdt :: "rat option"
  ls_balance_error :: "string option"
  ls_reserved_usdt :: rat
  ls_available_usdt :: "rat option"

type_synonym status_key = "int \<times> string \<times> string \<times> string"

text \<open>A row of the balances tab.\<close>

record balance_row =
  bw_wallet_id :: int
  bw_exchange :: string
  bw_name :: string
  bw_purpose :: purpose
  bw_can_trade :: bool
  bw_is_main :: bool
  bw_balance_usdt :: "rat option"
  bw_spot_usdt :: "rat option"
  bw_futures_usdt :: "rat option"
  bw_error :: "string option"
  bw_reserved_usdt :: rat
  bw_available_usdt :: "rat option"

record desk =
  dk_trading :: trading
  dk_status :: "status_key \<Rightarrow> ((leg_status \<times> leg_status) \<times> rat) option"
  dk_positions :: "int \<times> string \<Rightarrow> (held_position list \<times> rat) option"
  dk_refreshing :: "(int \<times> string) set"
  dk_lastgood :: "int \<times> int \<times> string \<Rightarrow> (held_position list \<times> rat) option"
  dk_balances :: "int \<Rightarrow> (balance_row list \<times> rat) option"
  dk_calls :: "engine_call list"

definition invalidate_pair_status_cache :: "int \<Rightarrow> string option \<Rightarrow> desk \<Rightarrow> desk" where
  "invalidate_pair_status_cache uid ex d = d\<lparr>dk_status := (\<lambda>k. case k of (u, _, long_ex, short_ex) \<Rightarrow>
     if u = uid \<and> (case ex of None \<Rightarrow> True | Some x \<Rightarrow> x = long_ex \<or> x = short_ex) then None else dk_status d k)\<rparr>"

definition invalidate_positions_cache :: "int \<Rightarrow> desk \<Rightarrow> desk" where
  "invalidate_positions_cache uid d = d\<lparr>
     dk_positions := (\<lambda>k. if fst k = uid then None else dk_positions d k),
     dk_lastgood := (\<lambda>k. if fst k = uid then None else dk_lastgood d k),
     dk_balances := (dk_balances d)(uid := None)\<rparr>"

definition put_order :: "trade_order \<Rightarrow> desk \<Rightarrow> desk" where
  "put_order r d = d\<lparr>dk_trading := tr_orders_update (row_upd od_id (od_id r) (\<lambda>_. r)) (dk_trading d)\<rparr>"

section \<open>The order log\<close>

definition pending_row ::
  "clock \<Rightarrow> int \<Rightarrow> int \<Rightarrow> int \<Rightarrow> string \<Rightarrow> string \<Rightarrow> string \<Rightarrow> string \<Rightarrow> rat \<Rightarrow> int option \<Rightarrow> string option \<Rightarrow> trade_order" where
  "pending_row c i uid wid ex symbol sd intent qty leverage margin_mode = \<lparr>
     od_id = i, od_user_id = uid, od_wallet_id = Some wid, od_position_id = None, od_exchange = ex,
     od_symbol = symbol, od_side = sd, od_intent = intent, od_order_type = ''market'', od_requested_qty = qty,
     od_leverage = leverage, od_margin_mode = margin_mode, od_status = ''pending'', od_exchange_order_id = None,
     od_filled_qty = None, od_avg_fill_price = None, od_error_kind = None, od_error_message = None,
     od_created_at = utcnow c, od_finalized_at = None\<rparr>"

definition log_order :: "trade_order \<Rightarrow> desk \<Rightarrow> desk" where
  "log_order r d = d\<lparr>dk_trading := tr_orders_update (\<lambda>rs. rs @ [r]) (dk_trading d)\<rparr>"

definition next_order_id :: "desk \<Rightarrow> int" where
  "next_order_id d = row_fresh od_id (tr_orders (dk_trading d))"

definition finalize_failed :: "clock \<Rightarrow> string \<Rightarrow> string \<Rightarrow> trade_order \<Rightarrow> trade_order" where
  "finalize_failed c kind msg r = r\<lparr>od_status := ''failed'', od_error_kind := Some kind,
     od_error_message := Some msg, od_finalized_at := Some (utcnow c)\<rparr>"

definition or_first :: "'a::zero option list \<Rightarrow> 'a option" where
  "or_first xs = (case filter truthy xs of x # _ \<Rightarrow> x | [] \<Rightarrow> None)"

definition finalize_filled :: "clock \<Rightarrow> string \<Rightarrow> venue_result \<Rightarrow> rat option \<Rightarrow> rat option \<Rightarrow> trade_order \<Rightarrow> trade_order" where
  "finalize_filled c status res qty price r = r\<lparr>od_status := status,
     od_exchange_order_id := (if vr_order_id res = [] then od_exchange_order_id r else Some (vr_order_id res)),
     od_filled_qty := (case qty of None \<Rightarrow> od_filled_qty r | Some q \<Rightarrow> Some q),
     od_avg_fill_price := (case price of None \<Rightarrow> od_avg_fill_price r | Some p \<Rightarrow> Some p),
     od_finalized_at := Some (utcnow c)\<rparr>"

section \<open>Placing an order\<close>

definition request_fault :: "order_request \<Rightarrow> trade_reason option" where
  "request_fault q =
     (let symbol = rq_symbol q in
      if symbol = [] \<or> \<not> list_all is_alnum symbol \<or> 16 < length symbol then Some Bad_Symbol
      else if rq_side q \<notin> {''buy'', ''sell''} then Some Bad_Side
      else if rq_market_type q \<notin> {''futures'', ''spot''} then Some Bad_Market_Type
      else if rq_market_type q \<noteq> ''spot'' \<and> rq_margin_mode q \<notin> {''isolated'', ''cross''} then Some Bad_Margin_Mode
      else if rq_quantity q \<le> 0 then Some Bad_Quantity
      else None)"

definition trade_wallet :: "trade_env \<Rightarrow> trading \<Rightarrow> int \<Rightarrow> int \<Rightarrow> bool \<Rightarrow> trade_reason + string" where
  "trade_wallet e tr uid wid lower_name =
     (case row_get w_id (wallets (tr_world tr)) wid of
        None \<Rightarrow> Inl No_Wallet
      | Some w \<Rightarrow>
          if w_user_id w \<noteq> Some uid then Inl No_Wallet
          else if w_purpose w \<notin> {Screener, Both} then Inl Portfolio_Wallet
          else let ex = (if lower_name then lower (w_type_value w) else w_type_value w)
               in if te_supported e ex then Inr ex else Inl Unsupported_Exchange)"

text \<open>What the user's plan allows; for a user row that is gone there is no check.\<close>

definition plan_allows :: "limit_set \<Rightarrow> order_request \<Rightarrow> trade_reason option" where
  "plan_allows l q =
     (if rq_order_type q \<in> {''stop_market'', ''take_profit_market'', ''take_profit'', ''stop_loss''} \<and> \<not> el_allow_tp_sl_orders l
      then Some Needs_Paid_Plan
      else case rq_spread_pct q of
          Some x \<Rightarrow> if el_max_spread_pct l < 100 \<and> el_max_spread_pct l < \<bar>x\<bar> then Some Spread_Over_Cap else None
        | None \<Rightarrow> None)"

definition plan_guard :: "clock \<Rightarrow> order_request \<Rightarrow> trading \<Rightarrow> (trade_fail + unit) \<times> trading" where
  "plan_guard c q tr =
     (case row_get u_id (users (tr_world tr)) (rq_user_id q) of
        None \<Rightarrow> (Inr (), tr)
      | Some u \<Rightarrow>
          (case effective_limits c (tr_world tr) u of
             (Inl _, w) \<Rightarrow> (Inl Limits_Fail, tr\<lparr>tr_world := w\<rparr>)
           | (Inr l, w) \<Rightarrow> (case plan_allows l q of
                Some r \<Rightarrow> (Inl (User_Fail r), tr\<lparr>tr_world := w\<rparr>)
              | None \<Rightarrow> (Inr (), tr\<lparr>tr_world := w\<rparr>))))"

definition venue_guard :: "trade_env \<Rightarrow> order_request \<Rightarrow> trade_fail + unit" where
  "venue_guard e q =
     (if te_blocked e (rq_exchange q) then Inl (User_Fail Blocked_By_Admin)
      else case te_max_leverage e (rq_exchange q) (rq_symbol q) of
          Some m \<Rightarrow> if m \<noteq> 0 \<and> m < rq_leverage q then Inl (User_Fail (Leverage_Over_Max m)) else Inr ()
        | None \<Rightarrow> Inr ())"

text \<open>
  The engines: the Go engine when the venue is on its list, the adapter when it is not or
  failed on its own account. What the outcome does to the logged row is part of it:
  \<open>Refused_Unlogged\<close> are the errors raised without touching the row.
\<close>

datatype dispatch =
    Executed venue_result
  | Refused string string
  | Refused_Unlogged trade_reason
  | Refused_Logged trade_reason string
  | Broken string

definition adapter_open :: "trade_env \<Rightarrow> order_request \<Rightarrow> dispatch \<times> engine_call list" where
  "adapter_open e q =
     (if rq_market_type q = ''spot'' \<and> \<not> te_spot_native e (rq_exchange q) then (Refused_Unlogged Spot_Needs_Proxy, [])
      else if rq_order_type q \<noteq> ''market'' then (Refused_Unlogged Only_Market_Orders, [])
      else (case te_adapter_open e q of
          Ad_Ok r \<Rightarrow> Executed r | Ad_Runtime msg \<Rightarrow> Refused ''exchange'' msg | Ad_Other msg \<Rightarrow> Broken msg,
        [Adapter_Open q]))"

definition dispatch_open :: "trade_env \<Rightarrow> order_request \<Rightarrow> dispatch \<times> engine_call list" where
  "dispatch_open e q =
     (if te_proxy_enabled e (rq_exchange q)
      then case te_proxy_open e q of
          Go_Ok r \<Rightarrow> (Executed r, [Proxy_Open q])
        | Go_Error kind msg \<Rightarrow>
            if kind \<in> {''user'', ''exchange''} then (Refused kind msg, [Proxy_Open q])
            else let (d, calls) = adapter_open e q in (d, Proxy_Open q # calls)
      else adapter_open e q)"

definition fill_status :: "rat \<Rightarrow> rat \<Rightarrow> string" where
  "fill_status req fill =
     (if 0 < req \<and> fill \<le> 0 then ''cancelled''
      else if 0 < req \<and> fill / req < 98 / 100 then ''partial'' else ''filled'')"

definition open_result :: "order_request \<Rightarrow> venue_result \<Rightarrow> rat \<times> rat option" where
  "open_result q r =
     (or_else (or_first [vr_filled_qty r, vr_qty r]) (rq_quantity q),
      or_first [vr_avg_price r, vr_fill_price r, vr_price r])"

text \<open>What the caller of \<open>place_open_order\<close> gets: the venue's reply and the logged row.\<close>

definition settle_open :: "clock \<Rightarrow> order_request \<Rightarrow> trade_order \<Rightarrow> dispatch \<Rightarrow> desk \<Rightarrow> (trade_fail + venue_result \<times> int) \<times> desk" where
  "settle_open c q row out d =
     (case out of
        Executed r \<Rightarrow>
          let (fill, price) = open_result q r in
          (Inr (r, od_id row),
           invalidate_positions_cache (rq_user_id q) (invalidate_pair_status_cache (rq_user_id q) (Some (rq_exchange q))
             (put_order (finalize_filled c (fill_status (rq_quantity q) fill) r (Some fill) price row) d)))
      | Refused kind msg \<Rightarrow> (Inl (Venue_Fail kind msg), put_order (finalize_failed c kind msg row) d)
      | Refused_Unlogged reason \<Rightarrow> (Inl (User_Fail reason), d)
      | Refused_Logged reason msg \<Rightarrow> (Inl (User_Fail reason), put_order (finalize_failed c ''user'' msg row) d)
      | Broken msg \<Rightarrow> (Inl Internal_Fail, put_order (finalize_failed c ''internal'' msg row) d))"

definition send_open :: "trade_env \<Rightarrow> clock \<Rightarrow> order_request \<Rightarrow> desk \<Rightarrow> (trade_fail + venue_result \<times> int) \<times> desk" where
  "send_open e c q d =
     (let row = pending_row c (next_order_id d) (rq_user_id q) (rq_wallet_id q) (rq_exchange q) (rq_symbol q) (rq_side q)
                  ''open'' (rq_quantity q) (Some (rq_leverage q)) (Some (rq_margin_mode q));
          d1 = log_order row d
      in case te_preflight e q of
          Pre_Refused reason \<Rightarrow>
            let msg = (if reason = [] then ''Pre-flight check failed'' else reason)
            in (Inl (User_Fail (Reason msg)), put_order (finalize_failed c ''user'' msg row) d1)
        | pre \<Rightarrow>
            let q1 = (case pre of Pre_Ok qty \<Rightarrow> if truthy qty then q\<lparr>rq_quantity := the qty\<rparr> else q | _ \<Rightarrow> q);
                row1 = row\<lparr>od_requested_qty := rq_quantity q1\<rparr>;
                (out, calls) = dispatch_open e q1
            in settle_open c q1 row1 out (put_order row1 (d1\<lparr>dk_calls := dk_calls d1 @ calls\<rparr>)))"

definition place_open_order ::
  "trade_env \<Rightarrow> clock \<Rightarrow> order_request \<Rightarrow> desk \<Rightarrow> (trade_fail + venue_result \<times> int) \<times> desk" where
  "place_open_order e c q d =
     (let q1 = q\<lparr>rq_symbol := upper (strip (rq_symbol q))\<rparr> in
      case request_fault q1 of
        Some r \<Rightarrow> (Inl (User_Fail r), d)
      | None \<Rightarrow>
          (case trade_wallet e (dk_trading d) (rq_user_id q1) (rq_wallet_id q1) True of
             Inl r \<Rightarrow> (Inl (User_Fail r), d)
           | Inr ex \<Rightarrow>
               let q2 = q1\<lparr>rq_exchange := ex\<rparr>; (allowed, tr1) = plan_guard c q2 (dk_trading d);
                   d1 = d\<lparr>dk_trading := tr1\<rparr>
               in (case bind_res allowed (\<lambda>_. venue_guard e q2) of
                     Inl f \<Rightarrow> (Inl f, d1)
                   | Inr _ \<Rightarrow> send_open e c q2 d1)))"

section \<open>Closing a position\<close>

text \<open>
  The plan's delay is looked up, which may fail, and nothing else of the plan is asked. The
  dash of the refusal's text is written as \<open>-\<close>.
\<close>

definition close_delay :: "clock \<Rightarrow> int \<Rightarrow> trading \<Rightarrow> (trade_fail + unit) \<times> trading" where
  "close_delay c uid tr =
     (case row_get u_id (users (tr_world tr)) uid of
        None \<Rightarrow> (Inr (), tr)
      | Some u \<Rightarrow>
          (case effective_limits c (tr_world tr) u of
             (Inl _, w) \<Rightarrow> (Inl Limits_Fail, tr\<lparr>tr_world := w\<rparr>)
           | (Inr _, w) \<Rightarrow> (Inr (), tr\<lparr>tr_world := w\<rparr>)))"

definition python_close_fallback_unsafe :: "string \<Rightarrow> string \<Rightarrow> string option" where
  "python_close_fallback_unsafe ex market =
     (if ex = ''backpack'' \<and> market = ''futures''
      then Some (''Backpack Python close_position is a spot-sell - would close the '' @
        ''wrong leg of a perp/spot arb. Go close path required. Retry once Go '' @
        ''engine is reachable; do not close manually via spot in the meantime.'')
      else None)"

definition adapter_close :: "trade_env \<Rightarrow> close_order \<Rightarrow> dispatch \<times> engine_call list" where
  "adapter_close e q =
     (case python_close_fallback_unsafe (co_exchange q) (co_market_type q) of
        Some msg \<Rightarrow> (Refused_Logged Wrong_Leg_Fallback msg, [])
      | None \<Rightarrow> (case te_adapter_close e q of
          Ad_Ok r \<Rightarrow> Executed r | Ad_Runtime msg \<Rightarrow> Refused ''exchange'' msg | Ad_Other msg \<Rightarrow> Broken msg,
          [Adapter_Close q]))"

definition dispatch_close :: "trade_env \<Rightarrow> close_order \<Rightarrow> dispatch \<times> engine_call list" where
  "dispatch_close e q =
     (if te_proxy_enabled e (co_exchange q)
      then case te_proxy_close e q of
          Go_Ok r \<Rightarrow> (Executed r, [Proxy_Close q])
        | Go_Error kind msg \<Rightarrow>
            if kind \<in> {''user'', ''exchange''} then (Refused kind msg, [Proxy_Close q])
            else let (d, calls) = adapter_close e q in (d, Proxy_Close q # calls)
      else adapter_close e q)"

definition close_result :: "venue_result \<Rightarrow> rat option \<times> rat option" where
  "close_result r =
     (if truthy (vr_filled_qty r) then vr_filled_qty r else vr_qty r, or_first [vr_avg_price r, vr_price r])"

definition settle_close :: "clock \<Rightarrow> close_order \<Rightarrow> trade_order \<Rightarrow> dispatch \<Rightarrow> desk \<Rightarrow> (trade_fail + venue_result) \<times> desk" where
  "settle_close c q row out d =
     (case out of
        Executed r \<Rightarrow>
          let (qty, price) = close_result r in
          (Inr r,
           invalidate_pair_status_cache (co_user_id q) (Some (co_exchange q)) (invalidate_positions_cache (co_user_id q)
             (put_order (finalize_filled c ''filled'' r qty price row) d)))
      | Refused kind msg \<Rightarrow> (Inl (Venue_Fail kind msg), put_order (finalize_failed c kind msg row) d)
      | Refused_Unlogged reason \<Rightarrow> (Inl (User_Fail reason), d)
      | Refused_Logged reason msg \<Rightarrow> (Inl (User_Fail reason), put_order (finalize_failed c ''user'' msg row) d)
      | Broken msg \<Rightarrow> (Inl Internal_Fail, put_order (finalize_failed c ''internal'' msg row) d))"

text \<open>
  The side is passed on as it was given; the logged row has it cleaned and \<open>sell\<close> when it is
  empty. The venue's name is not put in lower case here.
\<close>

definition close_position ::
  "trade_env \<Rightarrow> clock \<Rightarrow> int \<Rightarrow> int \<Rightarrow> string \<Rightarrow> string \<Rightarrow> string \<Rightarrow> desk \<Rightarrow> (trade_fail + venue_result) \<times> desk" where
  "close_position e c uid wid symbol sd market d =
     (case trade_wallet e (dk_trading d) uid wid False of
        Inl r \<Rightarrow> (Inl (User_Fail r), d)
      | Inr ex \<Rightarrow>
          let (allowed, tr1) = close_delay c uid (dk_trading d); d1 = d\<lparr>dk_trading := tr1\<rparr> in
          (case allowed of
             Inl f \<Rightarrow> (Inl f, d1)
           | Inr _ \<Rightarrow>
               let q = \<lparr>co_user_id = uid, co_wallet_id = wid, co_exchange = ex, co_symbol = symbol, co_side = sd,
                         co_market_type = market\<rparr>;
                   clean = lower (strip sd);
                   row = pending_row c (next_order_id d1) uid wid ex (upper (strip symbol))
                           (if clean = [] then ''sell'' else clean) ''close'' 0 None None;
                   (out, calls) = dispatch_close e q
               in settle_close c q row out (log_order row d1\<lparr>dk_calls := dk_calls d1 @ calls\<rparr>)))"

section \<open>Readiness of a pair\<close>

definition newest_wallet :: "(wallet \<Rightarrow> bool) \<Rightarrow> world \<Rightarrow> int \<Rightarrow> string \<Rightarrow> wallet option" where
  "newest_wallet ok w uid ex = order_first (\<lambda>x. - w_id x)
     (filter (\<lambda>x. w_user_id x = Some uid \<and> w_wallet_type x \<in> {''exchange'', ''perpdex''} \<and>
        w_type_value x = lower ex \<and> \<not> w_is_archived x \<and> ok x) (wallets w))"

definition find_wallet :: "world \<Rightarrow> int \<Rightarrow> string \<Rightarrow> wallet option" where
  "find_wallet = newest_wallet (\<lambda>x. w_purpose x \<in> {Screener, Both})"

definition find_any_wallet :: "world \<Rightarrow> int \<Rightarrow> string \<Rightarrow> wallet option" where
  "find_any_wallet = newest_wallet (\<lambda>_. True)"

definition leg_state :: "wallet option \<Rightarrow> string" where
  "leg_state w = (case w of None \<Rightarrow> ''missing''
     | Some x \<Rightarrow> if w_purpose x \<notin> {Screener, Both} then ''disabled'' else ''ok'')"

text \<open>
  The USDT entry of a balance. An entry split in free and total makes \<open>float\<close> raise; it is a
  failure of the fetch like any other. The dashes of the hints are written as \<open>-\<close>.
\<close>

definition fetch_usdt :: "trade_env \<Rightarrow> wallet \<Rightarrow> string + rat" where
  "fetch_usdt e w =
     (case te_balance e w of
        Inl msg \<Rightarrow> Inl msg
      | Inr b \<Rightarrow> (case vb_usdt b of
          None \<Rightarrow> Inr 0
        | Some (Amount x) \<Rightarrow> Inr (round_places 2 x)
        | Some (Free_Total _ _) \<Rightarrow>
            Inl (''float() argument must be a string or a real number, not '' @ CHR 0x27 # ''dict'' @ [CHR 0x27])))"

definition balance_hint :: "string \<Rightarrow> string" where
  "balance_hint msg =
     (let low = lower msg in
      if contains ''10010'' msg \<or> contains ''Unmatched IP'' msg \<or> contains ''IP'' msg \<and> contains ''whitelist'' low
      then ''IP not whitelisted on the API key - add prod IP on the venue.''
      else if contains ''10003'' msg \<or> contains ''10004'' msg \<or> contains ''Invalid'' low \<and> contains ''key'' low
      then ''API key invalid or revoked - re-issue on the venue.''
      else if contains ''permission'' low \<or> contains ''forbidden'' low
      then ''API key lacks required permission (Read + Trade Futures).''
      else take 140 msg)"

definition res_option :: "'e + 'a \<Rightarrow> 'a option" where
  "res_option r = (case r of Inl _ \<Rightarrow> None | Inr x \<Rightarrow> Some x)"

definition leg_row :: "int option \<Rightarrow> string \<Rightarrow> rat option \<Rightarrow> string option \<Rightarrow> leg_status" where
  "leg_row wid status bal err = \<lparr>ls_wallet_id = wid, ls_status = status, ls_balance_usdt = bal, ls_balance_error = err,
     ls_reserved_usdt = 0, ls_available_usdt = None\<rparr>"

definition leg_report :: "trade_env \<Rightarrow> world \<Rightarrow> int \<Rightarrow> string \<Rightarrow> leg_status" where
  "leg_report e w uid ex =
     (let any_w = find_any_wallet w uid ex; fw = find_wallet w uid ex in
      if \<not> te_supported e ex then leg_row None ''missing'' None None
      else if te_blocked e ex
      then leg_row None ''admin_blocked'' (case any_w of None \<Rightarrow> None | Some a \<Rightarrow> res_option (fetch_usdt e a)) None
      else let fetched = (if leg_state fw = ''ok'' then fetch_usdt e (the fw) else Inl []);
               err = (case fetched of Inl msg \<Rightarrow> if leg_state fw = ''ok'' then Some (balance_hint msg) else None | Inr _ \<Rightarrow> None);
               status = (if err = None then leg_state fw else ''disabled'');
               bal = (if status \<in> {''missing'', ''disabled''}
                 then case any_w of
                     Some a \<Rightarrow> if map_option w_id fw \<noteq> Some (w_id a) then res_option (fetch_usdt e a) else None
                   | None \<Rightarrow> None
                 else res_option fetched)
           in leg_row (map_option w_id fw) status bal err)"

text \<open>What waiting orders set aside is subtracted.\<close>

definition with_reserved :: "panel_env \<Rightarrow> trading \<Rightarrow> int \<Rightarrow> leg_status \<Rightarrow> leg_status" where
  "with_reserved pe tr uid l =
     (let reserved = (if truthy (ls_wallet_id l) then pending_open_trigger_reservations pe tr uid (the (ls_wallet_id l)) else 0)
      in l\<lparr>ls_reserved_usdt := round_places 2 reserved,
           ls_available_usdt := map_option (\<lambda>b. round_places 2 (max 0 (b - reserved))) (ls_balance_usdt l)\<rparr>)"

definition pair_status_ttl :: rat where "pair_status_ttl = 3"

definition get_pair_status ::
  "trade_env \<Rightarrow> panel_env \<Rightarrow> clock \<Rightarrow> int \<Rightarrow> string \<Rightarrow> string \<Rightarrow> string \<Rightarrow> desk \<Rightarrow> (leg_status \<times> leg_status) \<times> desk" where
  "get_pair_status e pe c uid symbol long_ex short_ex d =
     (let k = (uid, symbol, long_ex, short_ex);
          fresh = (case dk_status d k of Some (r, t) \<Rightarrow> if monotonic c - t < pair_status_ttl then Some r else None | None \<Rightarrow> None)
      in case fresh of
           Some r \<Rightarrow> (r, d)
         | None \<Rightarrow>
             let report = (\<lambda>ex. with_reserved pe (dk_trading d) uid (leg_report e (tr_world (dk_trading d)) uid ex));
                 r = (report long_ex, report short_ex)
             in (r, d\<lparr>dk_status := (dk_status d)(k \<mapsto> (r, monotonic c))\<rparr>))"

section \<open>Order history\<close>

text \<open>An internal error's text is replaced by a constant before it leaves the program.\<close>

definition serialize_order :: "trade_order \<Rightarrow> trade_order" where
  "serialize_order r = r\<lparr>od_error_message := (case od_error_message r of
       Some (x # xs) \<Rightarrow> Some (if od_error_kind r = Some ''internal''
         then ''Unexpected error - please contact support if this persists'' else x # xs)
     | m \<Rightarrow> m)\<rparr>"

definition list_user_orders :: "trading \<Rightarrow> int \<Rightarrow> int \<Rightarrow> string \<Rightarrow> trade_order list" where
  "list_user_orders tr uid limit symbol =
     (let s = strip (upper symbol);
          rows = filter (\<lambda>r. od_user_id r = uid \<and> (s \<noteq> [] \<longrightarrow> od_symbol r = s)) (tr_orders tr)
      in map serialize_order (take (nat (max 1 (min limit 500))) (sort_key (\<lambda>r. - od_created_at r) rows)))"

end
