(* ===== verification/Positions.thy ===== *)
theory Positions
  imports Trade_Desk
begin

text \<open>
  The positions and balances of a user's trading wallets, \<^verbatim>\<open>list_user_positions\<close> and
  \<^verbatim>\<open>list_user_balances\<close> of \<^verbatim>\<open>backend/services/trade_service.py\<close>, with their caches: the answer
  of a whole listing, kept for fifteen seconds and served while it is refreshed in the
  background for half an hour, and the last good answer of each wallet, which stands in for
  five minutes when a venue fails. Wallets are asked in parallel by the program; each touches
  its own entry only, so they are asked in turn here. An empty symbol stands for none.
\<close>

section \<open>Local marks\<close>

definition local_upnl_max_mark_age_s :: rat where "local_upnl_max_mark_age_s = 10"
definition pair_mark_max_diff_s :: rat where "pair_mark_max_diff_s = 2"

definition get_live_mark :: "trade_env \<Rightarrow> clock \<Rightarrow> string \<Rightarrow> string \<Rightarrow> rat option \<times> rat option \<times> rat option" where
  "get_live_mark e c ex symbol =
     (case map_of (te_live_marks e) (lower ex) of
        None \<Rightarrow> (None, None, None)
      | Some (rows, t) \<Rightarrow>
          if rows = [] then (None, None, None)
          else let age = monotonic c - t in
            if local_upnl_max_mark_age_s < age then (None, Some age, Some t)
            else (case find (\<lambda>r. upper (fr_symbol r) = upper symbol) rows of
                Some r \<Rightarrow> (fr_price r, Some age, Some t)
              | None \<Rightarrow> (None, Some age, Some t)))"

definition apply_local_upnl :: "trade_env \<Rightarrow> clock \<Rightarrow> held_position \<Rightarrow> held_position" where
  "apply_local_upnl e c r =
     (if \<not> te_local_upnl e then r
      else let entry = or_else (hp_entry_price r) 0; qty = or_else (hp_quantity r) 0; sd = lower (hp_side r) in
        if entry \<le> 0 \<or> qty \<le> 0 \<or> sd \<notin> {''buy'', ''sell''} then r\<lparr>hp_mark_source := Some ''venue''\<rparr>
        else let (mark, age, tick) = get_live_mark e c (hp_exchange r) (hp_symbol r) in
          if mark = None \<or> the mark \<le> 0
          then r\<lparr>hp_mark_source := Some ''venue'',
                 hp_mark_age_s := (case age of None \<Rightarrow> hp_mark_age_s r | Some a \<Rightarrow> Some (round_places 2 a))\<rparr>
          else r\<lparr>hp_mark_price := mark,
                 hp_unrealized_pnl_usd := Some (round_places 6 ((the mark - entry) * qty * (if sd = ''buy'' then 1 else - 1))),
                 hp_mark_source := Some ''live'', hp_mark_age_s := Some (round_places 2 (the age)),
                 hp_mark_tick_ts := (case tick of None \<Rightarrow> hp_mark_tick_ts r | Some t \<Rightarrow> Some (round_places 4 t))\<rparr>)"

definition pair_mark_stale :: "held_position \<Rightarrow> held_position \<Rightarrow> bool" where
  "pair_mark_stale a b = (case (hp_mark_tick_ts a, hp_mark_tick_ts b) of
     (Some x, Some y) \<Rightarrow> pair_mark_max_diff_s < \<bar>x - y\<bar> | _ \<Rightarrow> False)"

section \<open>Listing positions\<close>

definition trade_wallets :: "trade_env \<Rightarrow> world \<Rightarrow> int \<Rightarrow> wallet list" where
  "trade_wallets e w uid = filter (\<lambda>x. w_user_id x = Some uid \<and> w_wallet_type x \<in> {''exchange'', ''perpdex''} \<and>
     w_purpose x \<in> {Screener, Both} \<and> \<not> w_is_archived x \<and> te_supported e (w_type_value x)) (wallets w)"

text \<open>A venue is skipped when the symbol is quoted somewhere and not there.\<close>

definition quotes_symbol :: "string \<Rightarrow> funding_row list \<times> rat \<Rightarrow> bool" where
  "quotes_symbol symbol b = list_ex (\<lambda>r. fr_symbol r = symbol) (fst b)"

definition venue_skipped :: "trade_env \<Rightarrow> string \<Rightarrow> string \<Rightarrow> bool" where
  "venue_skipped e symbol ex \<longleftrightarrow> symbol \<noteq> [] \<and> list_ex (\<lambda>(_, b). quotes_symbol symbol b) (te_live_marks e) \<and>
     \<not> (case map_of (te_live_marks e) ex of Some b \<Rightarrow> quotes_symbol symbol b | None \<Rightarrow> False)"

definition symbol_not_on_venue :: "string \<Rightarrow> bool" where
  "symbol_not_on_venue msg = list_ex (\<lambda>s. contains s msg) [''51001'', ''-1121'', ''Instrument ID'', ''Invalid symbol'']"

definition positions_lastgood_ttl_s :: rat where "positions_lastgood_ttl_s = 300"
definition positions_cache_ttl_s :: rat where "positions_cache_ttl_s = 15"
definition positions_stale_max_s :: rat where "positions_stale_max_s = 1800"

definition last_good :: "clock \<Rightarrow> desk \<Rightarrow> int \<times> int \<times> string \<Rightarrow> held_position list" where
  "last_good c d k = (case dk_lastgood d k of
     Some (rows, t) \<Rightarrow> if wall c - t < positions_lastgood_ttl_s then rows else [] | None \<Rightarrow> [])"

definition streamed_rows :: "trade_env \<Rightarrow> string \<Rightarrow> bool \<Rightarrow> wallet \<Rightarrow> held_position list" where
  "streamed_rows e symbol fresh_only w =
     (if fresh_only then []
      else case te_stream e (w_id w) of
          None \<Rightarrow> []
        | Some rows \<Rightarrow> if symbol = [] then rows else filter (\<lambda>r. upper (hp_symbol r) = strip (upper symbol)) rows)"

text \<open>
  The rows of one wallet. The listing overrides mark and profit in the very rows it caches, so
  the override is applied before they are stored; the rows the stream holds are overridden
  with them.
\<close>

definition ask_wallet ::
  "trade_env \<Rightarrow> clock \<Rightarrow> int \<Rightarrow> string \<Rightarrow> bool \<Rightarrow> wallet \<Rightarrow> desk \<Rightarrow> held_position list \<times> desk" where
  "ask_wallet e c uid symbol fresh_only w d =
     (let k = (uid, w_id w, upper symbol);
          keep = (\<lambda>rows t. (rows, d\<lparr>dk_lastgood := (dk_lastgood d)(k \<mapsto> (rows, t))\<rparr>));
          store = (\<lambda>rows. keep (map (\<lambda>r. apply_local_upnl e c (r\<lparr>hp_wallet_id := w_id w\<rparr>)) rows) (wall c));
          fall_back = (if fresh_only \<or> last_good c d k = [] then ([], d)
            else keep (map (apply_local_upnl e c) (last_good c d k)) (snd (the (dk_lastgood d k))))
      in if venue_skipped e symbol (w_type_value w) then ([], d)
         else if streamed_rows e symbol fresh_only w \<noteq> [] then store (streamed_rows e symbol fresh_only w)
         else case te_positions e (w_id w) symbol of
             Rows_Ok rows \<Rightarrow> store rows
           | Rows_Raised msg \<Rightarrow> if symbol_not_on_venue msg then ([], d) else fall_back
           | Rows_Timeout \<Rightarrow> fall_back)"

fun ask_wallets ::
  "trade_env \<Rightarrow> clock \<Rightarrow> int \<Rightarrow> string \<Rightarrow> bool \<Rightarrow> wallet list \<Rightarrow> desk \<Rightarrow> held_position list \<times> desk" where
  "ask_wallets e c uid symbol fresh_only [] d = ([], d)"
| "ask_wallets e c uid symbol fresh_only (w # ws) d =
     (let (rows, d1) = ask_wallet e c uid symbol fresh_only w d;
          (rest, d2) = ask_wallets e c uid symbol fresh_only ws d1
      in (rows @ rest, d2))"

definition list_user_positions_inner ::
  "trade_env \<Rightarrow> clock \<Rightarrow> int \<Rightarrow> string \<Rightarrow> bool \<Rightarrow> desk \<Rightarrow> held_position list \<times> desk" where
  "list_user_positions_inner e c uid symbol fresh_only d =
     (let (rows, d1) = ask_wallets e c uid symbol fresh_only (trade_wallets e (tr_world (dk_trading d)) uid) d
      in (rows, d1\<lparr>dk_positions := (dk_positions d1)((uid, upper symbol) \<mapsto> (rows, wall c))\<rparr>))"

text \<open>
  A cached answer that is no longer fresh is served while \<open>refresh_positions\<close> renews it in the
  background; a second request meanwhile asks the venues itself.
\<close>

definition list_user_positions ::
  "trade_env \<Rightarrow> clock \<Rightarrow> int \<Rightarrow> string \<Rightarrow> bool \<Rightarrow> desk \<Rightarrow> held_position list \<times> desk" where
  "list_user_positions e c uid symbol authoritative d =
     (if authoritative then list_user_positions_inner e c uid symbol True d
      else let k = (uid, upper symbol) in
        case dk_positions d k of
          None \<Rightarrow> list_user_positions_inner e c uid symbol False d
        | Some (rows, t) \<Rightarrow>
            if wall c - t < positions_cache_ttl_s then (rows, d)
            else if wall c - t < positions_stale_max_s \<and> k \<notin> dk_refreshing d
            then (rows, d\<lparr>dk_refreshing := insert k (dk_refreshing d)\<rparr>)
            else list_user_positions_inner e c uid symbol False d)"

definition refresh_positions :: "trade_env \<Rightarrow> clock \<Rightarrow> int \<Rightarrow> string \<Rightarrow> desk \<Rightarrow> desk" where
  "refresh_positions e c uid symbol d =
     (let d1 = snd (list_user_positions_inner e c uid symbol False d)
      in d1\<lparr>dk_refreshing := dk_refreshing d1 - {(uid, upper symbol)}\<rparr>)"

section \<open>Listing balances\<close>

definition entry_value :: "balance_entry option \<Rightarrow> rat option" where
  "entry_value b = (case b of None \<Rightarrow> None | Some (Amount x) \<Rightarrow> Some x
     | Some (Free_Total f t) \<Rightarrow> (case f of None \<Rightarrow> t | Some x \<Rightarrow> Some x))"

definition first_known :: "rat option list \<Rightarrow> rat option" where
  "first_known xs = (case filter (\<lambda>x. x \<noteq> None) xs of x # _ \<Rightarrow> x | [] \<Rightarrow> None)"

definition usdt_of :: "venue_balance \<Rightarrow> rat option" where
  "usdt_of b = first_known [entry_value (vb_USDT b), entry_value (vb_usdt b), entry_value (vb_usdt_balance b),
     vb_available b, vb_free b, vb_equity b]"

definition balance_row_of :: "trade_env \<Rightarrow> wallet \<Rightarrow> balance_row" where
  "balance_row_of e w =
     (let ex = lower (w_type_value w);
          blank = \<lparr>bw_wallet_id = w_id w, bw_exchange = ex, bw_name = (if w_name w = [] then ex else w_name w),
            bw_purpose = w_purpose w, bw_can_trade = (w_can_trade w \<or> w_purpose w \<in> {Screener, Both}),
            bw_is_main = w_is_main w, bw_balance_usdt = None, bw_spot_usdt = None, bw_futures_usdt = None,
            bw_error = None, bw_reserved_usdt = 0, bw_available_usdt = None\<rparr>
      in if \<not> te_supported e ex then blank\<lparr>bw_error := Some ''unsupported''\<rparr>
         else case te_balance e w of
             Inl msg \<Rightarrow> blank\<lparr>bw_error := Some (take 80 msg)\<rparr>
           | Inr b \<Rightarrow> blank\<lparr>bw_balance_usdt := map_option (round_places 2) (usdt_of b),
               bw_spot_usdt := map_option (round_places 2) (vb_spot_usd b),
               bw_futures_usdt := map_option (round_places 2) (vb_futures_usd b)\<rparr>)"

definition balance_with_reserved :: "panel_env \<Rightarrow> trading \<Rightarrow> int \<Rightarrow> balance_row \<Rightarrow> balance_row" where
  "balance_with_reserved pe tr uid b =
     (let reserved = pending_open_trigger_reservations pe tr uid (bw_wallet_id b)
      in b\<lparr>bw_reserved_usdt := round_places 2 reserved,
           bw_available_usdt := map_option (\<lambda>x. round_places 2 (max 0 (x - reserved))) (bw_balance_usdt b)\<rparr>)"

definition balances_cache_ttl_s :: rat where "balances_cache_ttl_s = 30"

definition list_user_balances ::
  "trade_env \<Rightarrow> panel_env \<Rightarrow> clock \<Rightarrow> int \<Rightarrow> desk \<Rightarrow> balance_row list \<times> desk" where
  "list_user_balances e pe c uid d =
     (let fresh = (case dk_balances d uid of
            Some (rows, t) \<Rightarrow> if wall c - t < balances_cache_ttl_s then Some rows else None | None \<Rightarrow> None)
      in case fresh of
           Some rows \<Rightarrow> (rows, d)
         | None \<Rightarrow>
             let rows = map (\<lambda>w. balance_with_reserved pe (dk_trading d) uid (balance_row_of e w))
                   (trade_wallets e (tr_world (dk_trading d)) uid)
             in (rows, d\<lparr>dk_balances := (dk_balances d)(uid \<mapsto> (rows, wall c))\<rparr>))"

end
