(* ===== verification/Trade_Desk_Safety.thy ===== *)
theory Trade_Desk_Safety
  imports Trade_Desk Samples
begin

text \<open>
  What the trade dispatcher keeps: no engine is called for a request a guard refuses, every
  call leaves a row in the order log whose status says how it ended, an adapter never stands
  in for the Go engine where it would do something else, and an order drops the caches it
  makes stale.
\<close>

section \<open>The logged row\<close>

text \<open>\<open>logged xs r d\<close>: the order log of the desk is \<open>xs\<close> and the row \<open>r\<close>, under a new id.\<close>

definition logged :: "trade_order list \<Rightarrow> trade_order \<Rightarrow> desk \<Rightarrow> bool" where
  "logged xs r d \<longleftrightarrow> tr_orders (dk_trading d) = xs @ [r] \<and> od_id r \<notin> od_id ` set xs"

definition same_order :: "trade_order \<Rightarrow> trade_order \<Rightarrow> bool" where
  "same_order a b \<longleftrightarrow> od_id a = od_id b \<and> od_user_id a = od_user_id b \<and> od_wallet_id a = od_wallet_id b \<and>
     od_exchange a = od_exchange b \<and> od_symbol a = od_symbol b \<and> od_intent a = od_intent b"

lemma same_order_refl [simp]: "same_order r r"
  by (simp add: same_order_def)

lemma same_order_final [simp]:
  "same_order (finalize_failed c k msg r) r0 = same_order r r0"
  "same_order (finalize_filled c st res qty price r) r0 = same_order r r0"
  "same_order (r\<lparr>od_requested_qty := n\<rparr>) r0 = same_order r r0"
  by (simp_all add: same_order_def finalize_failed_def finalize_filled_def)

lemma same_order_id: "same_order a b \<Longrightarrow> od_id a = od_id b"
  by (simp add: same_order_def)

lemma finalize_simps [simp]:
  "od_id (finalize_failed c k msg r) = od_id r"
  "od_status (finalize_failed c k msg r) = ''failed''"
  "od_error_kind (finalize_failed c k msg r) = Some k"
  "od_error_message (finalize_failed c k msg r) = Some msg"
  "od_id (finalize_filled c st res qty price r) = od_id r"
  "od_status (finalize_filled c st res qty price r) = st"
  by (simp_all add: finalize_failed_def finalize_filled_def)

lemma put_order_simps [simp]:
  "dk_calls (put_order r d) = dk_calls d"
  "tr_world (dk_trading (put_order r d)) = tr_world (dk_trading d)"
  by (simp_all add: put_order_def)

lemma invalidate_simps [simp]:
  "dk_calls (invalidate_pair_status_cache u x d) = dk_calls d"
  "dk_trading (invalidate_pair_status_cache u x d) = dk_trading d"
  "dk_calls (invalidate_positions_cache u d) = dk_calls d"
  "dk_trading (invalidate_positions_cache u d) = dk_trading d"
  by (simp_all add: invalidate_pair_status_cache_def invalidate_positions_cache_def)

lemma logged_cong [simp]:
  "logged xs r (invalidate_pair_status_cache u x d) = logged xs r d"
  "logged xs r (invalidate_positions_cache u d) = logged xs r d"
  "logged xs r (d\<lparr>dk_calls := cs\<rparr>) = logged xs r d"
  by (simp_all add: logged_def)

lemma logged_put: "logged xs r0 d \<Longrightarrow> same_order r r0 \<Longrightarrow> logged xs r (put_order r d)"
  by (auto simp: logged_def put_order_def same_order_def row_upd_append row_upd_absent)

lemma logged_log: "logged (tr_orders (dk_trading d)) (pending_row c (next_order_id d) u w x s sd i q l m)
    (log_order (pending_row c (next_order_id d) u w x s sd i q l m) d)"
  using row_fresh_notin [of od_id "tr_orders (dk_trading d)"]
  by (simp add: logged_def log_order_def pending_row_def next_order_id_def)

lemma log_order_calls [simp]: "dk_calls (log_order r d) = dk_calls d"
  by (simp add: log_order_def)

section \<open>What an engine is asked\<close>

text \<open>The statuses an answered order can have in the log.\<close>

definition status_tells :: "trade_fail + 'a \<Rightarrow> string \<Rightarrow> bool" where
  "status_tells out st =
     (case out of
        Inr _ \<Rightarrow> st \<in> {''filled'', ''partial'', ''cancelled''}
      | Inl (User_Fail r) \<Rightarrow> st = (if r \<in> {Spot_Needs_Proxy, Only_Market_Orders} then ''pending'' else ''failed'')
      | Inl _ \<Rightarrow> st = ''failed'')"

definition order_calls :: "order_request \<Rightarrow> engine_call list \<Rightarrow> bool" where
  "order_calls q calls \<longleftrightarrow> set calls \<subseteq> {Proxy_Open q, Adapter_Open q} \<and>
     (Adapter_Open q \<in> set calls \<longrightarrow> rq_order_type q = ''market'')"

lemma adapter_open_calls: "adapter_open e q = (out, calls) \<Longrightarrow> order_calls q calls"
  by (auto simp: adapter_open_def order_calls_def split: if_split_asm)

lemma dispatch_open_calls: "dispatch_open e q = (out, calls) \<Longrightarrow> order_calls q calls"
  by (auto simp: dispatch_open_def order_calls_def split: if_split_asm proxy_reply.split_asm prod.split_asm
      dest!: adapter_open_calls)

lemma adapter_open_unlogged:
  "adapter_open e q = (Refused_Unlogged r, calls) \<Longrightarrow> r \<in> {Spot_Needs_Proxy, Only_Market_Orders}"
  by (auto simp: adapter_open_def split: if_split_asm adapter_reply.split_asm)

lemma dispatch_open_unlogged:
  "dispatch_open e q = (Refused_Unlogged r, calls) \<Longrightarrow> r \<in> {Spot_Needs_Proxy, Only_Market_Orders}"
  by (auto simp: dispatch_open_def split: if_split_asm proxy_reply.split_asm prod.split_asm
      dest!: adapter_open_unlogged)

lemma adapter_open_no_logged: "adapter_open e q \<noteq> (Refused_Logged r msg, calls)"
  by (auto simp: adapter_open_def split: if_split_asm adapter_reply.split_asm)

lemma dispatch_open_no_logged: "dispatch_open e q \<noteq> (Refused_Logged r msg, calls)"
  by (auto simp: dispatch_open_def adapter_open_no_logged split: if_split_asm proxy_reply.split_asm prod.split_asm)

lemma fill_status_range: "fill_status a b \<in> {''filled'', ''partial'', ''cancelled''}"
  by (simp add: fill_status_def)

lemma settle_open_logged:
  assumes "logged xs row d" and "settle_open c q row out d = (res, d')"
    and "\<And>r. out = Refused_Unlogged r \<Longrightarrow> r \<in> {Spot_Needs_Proxy, Only_Market_Orders}"
    and "\<And>r msg. out \<noteq> Refused_Logged r msg" and "od_status row = ''pending''"
  shows "(\<exists>r. logged xs r d' \<and> same_order r row \<and> status_tells res (od_status r) \<and>
      (\<forall>v i. res = Inr (v, i) \<longrightarrow> i = od_id r)) \<and> dk_calls d' = dk_calls d"
proof (cases out)
  case (Executed v)
  obtain fill price where op: "open_result q v = (fill, price)" by fastforce
  let ?r = "finalize_filled c (fill_status (rq_quantity q) fill) v (Some fill) price row"
  have "logged xs ?r (put_order ?r d)" using logged_put [OF assms(1), of ?r] by simp
  then show ?thesis using assms(2) Executed op fill_status_range [of "rq_quantity q" fill]
    by (auto simp: settle_open_def status_tells_def intro!: exI [of _ ?r])
next
  case (Refused kind msg)
  then show ?thesis using assms(1,2) logged_put [OF assms(1), of "finalize_failed c kind msg row"]
    by (auto simp: settle_open_def status_tells_def)
next
  case (Refused_Unlogged r)
  then show ?thesis using assms by (auto simp: settle_open_def status_tells_def)
next
  case (Refused_Logged r msg)
  then show ?thesis using assms(4) by simp
next
  case (Broken msg)
  then show ?thesis using assms(1,2) logged_put [OF assms(1), of "finalize_failed c ''internal'' msg row"]
    by (auto simp: settle_open_def status_tells_def)
qed

lemma order_calls_quantity:
  "order_calls q calls \<Longrightarrow> call \<in> set calls \<Longrightarrow> call = Proxy_Open q \<or> call = Adapter_Open q \<and> rq_order_type q = ''market''"
  by (auto simp: order_calls_def)

text \<open>What an order of a request is: the request, up to its quantity, which the pre-flight check may round.\<close>

definition same_request :: "order_request \<Rightarrow> order_request \<Rightarrow> bool" where
  "same_request a b \<longleftrightarrow> a = b\<lparr>rq_quantity := rq_quantity a\<rparr>"

lemma same_request_refl [simp]: "same_request q q"
  by (simp add: same_request_def)

lemma same_request_round [simp]: "same_request (q\<lparr>rq_quantity := x\<rparr>) q"
  by (simp add: same_request_def)

definition row_of :: "order_request \<Rightarrow> trade_order \<Rightarrow> bool" where
  "row_of q r \<longleftrightarrow> od_user_id r = rq_user_id q \<and> od_wallet_id r = Some (rq_wallet_id q) \<and>
     od_exchange r = rq_exchange q \<and> od_symbol r = rq_symbol q \<and> od_intent r = ''open''"

lemma row_of_same: "same_order r r0 \<Longrightarrow> row_of q r0 \<Longrightarrow> row_of q r"
  by (simp add: row_of_def same_order_def)

lemma send_open_logged:
  assumes "send_open e c q d = (res, d')"
  shows "\<exists>r calls. logged (tr_orders (dk_trading d)) r d' \<and> row_of q r \<and> status_tells res (od_status r) \<and>
      (\<forall>v i. res = Inr (v, i) \<longrightarrow> i = od_id r) \<and> dk_calls d' = dk_calls d @ calls \<and>
      (\<exists>q1. same_request q1 q \<and> order_calls q1 calls)"
proof -
  define row where "row = pending_row c (next_order_id d) (rq_user_id q) (rq_wallet_id q) (rq_exchange q)
    (rq_symbol q) (rq_side q) ''open'' (rq_quantity q) (Some (rq_leverage q)) (Some (rq_margin_mode q))"
  define d1 where "d1 = log_order row d"
  have l1: "logged (tr_orders (dk_trading d)) row d1" unfolding row_def d1_def by (rule logged_log)
  have ro: "row_of q row" and st: "od_status row = ''pending''" by (simp_all add: row_of_def row_def pending_row_def)
  have send: "send_open e c q d = (case te_preflight e q of
        Pre_Refused reason \<Rightarrow>
          (Inl (User_Fail (Reason (if reason = [] then ''Pre-flight check failed'' else reason))),
           put_order (finalize_failed c ''user'' (if reason = [] then ''Pre-flight check failed'' else reason) row) d1)
      | pre \<Rightarrow>
          let q1 = (case pre of Pre_Ok qty \<Rightarrow> if truthy qty then q\<lparr>rq_quantity := the qty\<rparr> else q | _ \<Rightarrow> q);
              row1 = row\<lparr>od_requested_qty := rq_quantity q1\<rparr>; (out, calls) = dispatch_open e q1
          in settle_open c q1 row1 out (put_order row1 (d1\<lparr>dk_calls := dk_calls d1 @ calls\<rparr>)))"
    by (simp add: send_open_def row_def d1_def Let_def split: preflight_reply.split)
  show ?thesis
  proof (cases "\<exists>reason. te_preflight e q = Pre_Refused reason")
    case True
    then obtain reason where pre: "te_preflight e q = Pre_Refused reason" by blast
    let ?m = "if reason = [] then ''Pre-flight check failed'' else reason"
    have "logged (tr_orders (dk_trading d)) (finalize_failed c ''user'' ?m row) (put_order (finalize_failed c ''user'' ?m row) d1)"
      using logged_put [OF l1] by simp
    then show ?thesis using assms ro unfolding send pre
      by (auto simp: status_tells_def row_of_def order_calls_def d1_def finalize_failed_def
          intro!: exI [of _ "finalize_failed c ''user'' ?m row"] exI [of _ q])
  next
    case False
    define q1 where "q1 = (case te_preflight e q of Pre_Ok qty \<Rightarrow> if truthy qty then q\<lparr>rq_quantity := the qty\<rparr> else q | _ \<Rightarrow> q)"
    define row1 where "row1 = row\<lparr>od_requested_qty := rq_quantity q1\<rparr>"
    obtain out calls where dis: "dispatch_open e q1 = (out, calls)" by fastforce
    let ?d2 = "put_order row1 (d1\<lparr>dk_calls := dk_calls d1 @ calls\<rparr>)"
    have set: "settle_open c q1 row1 out ?d2 = (res, d')"
      using assms False dis unfolding send q1_def row1_def by (cases "te_preflight e q") (auto simp: Let_def)
    have "logged (tr_orders (dk_trading d)) row1 ?d2"
      using logged_put [of "tr_orders (dk_trading d)" row "d1\<lparr>dk_calls := dk_calls d1 @ calls\<rparr>" row1] l1
      by (simp add: row1_def)
    note L = settle_open_logged [OF this set]
    have "(\<exists>r. logged (tr_orders (dk_trading d)) r d' \<and> same_order r row1 \<and> status_tells res (od_status r) \<and>
      (\<forall>v i. res = Inr (v, i) \<longrightarrow> i = od_id r)) \<and> dk_calls d' = dk_calls ?d2"
      by (rule L) (use dis dispatch_open_unlogged dispatch_open_no_logged st in \<open>auto simp: row1_def\<close>)
    moreover have "same_request q1 q" by (auto simp: q1_def split: preflight_reply.split)
    moreover have "order_calls q1 calls" using dis by (rule dispatch_open_calls)
    moreover have "row_of q row1" using ro by (simp add: row_of_def row1_def)
    moreover have "dk_calls ?d2 = dk_calls d @ calls" by (simp add: d1_def)
    ultimately show ?thesis by (metis row_of_same)
  qed
qed

section \<open>Clearance\<close>

text \<open>The request as the service reads it: symbol cleaned, venue taken from the wallet.\<close>

definition normalised :: "trading \<Rightarrow> order_request \<Rightarrow> order_request" where
  "normalised tr q = q\<lparr>rq_symbol := upper (strip (rq_symbol q)),
     rq_exchange := (case row_get w_id (wallets (tr_world tr)) (rq_wallet_id q) of
        Some w \<Rightarrow> lower (w_type_value w) | None \<Rightarrow> rq_exchange q)\<rparr>"

text \<open>
  When an order may reach a venue: the request is well formed, the wallet is the user's own and
  meant for trading, the user's plan allows the order, and neither the administrator nor the
  venue's maximal leverage stands against it.
\<close>

definition well_formed :: "order_request \<Rightarrow> bool" where
  "well_formed q \<longleftrightarrow> rq_symbol q \<noteq> [] \<and> list_all is_alnum (rq_symbol q) \<and> length (rq_symbol q) \<le> 16 \<and>
     rq_side q \<in> {''buy'', ''sell''} \<and>
     (rq_market_type q = ''spot'' \<or> rq_market_type q = ''futures'' \<and> rq_margin_mode q \<in> {''isolated'', ''cross''}) \<and>
     0 < rq_quantity q"

definition own_trading_wallet :: "trading \<Rightarrow> order_request \<Rightarrow> bool" where
  "own_trading_wallet tr q \<longleftrightarrow> (\<exists>w. row_get w_id (wallets (tr_world tr)) (rq_wallet_id q) = Some w \<and>
     w_user_id w = Some (rq_user_id q) \<and> w_purpose w \<in> {Screener, Both})"

definition plan_permits :: "clock \<Rightarrow> trading \<Rightarrow> order_request \<Rightarrow> bool" where
  "plan_permits c tr q \<longleftrightarrow> (\<forall>u. row_get u_id (users (tr_world tr)) (rq_user_id q) = Some u \<longrightarrow>
     (\<exists>l w. effective_limits c (tr_world tr) u = (Inr l, w) \<and>
        (rq_order_type q \<in> {''stop_market'', ''take_profit_market'', ''take_profit'', ''stop_loss''} \<longrightarrow> el_allow_tp_sl_orders l) \<and>
        (\<forall>x. rq_spread_pct q = Some x \<longrightarrow> el_max_spread_pct l < 100 \<longrightarrow> \<bar>x\<bar> \<le> el_max_spread_pct l)))"

definition venue_permits :: "trade_env \<Rightarrow> order_request \<Rightarrow> bool" where
  "venue_permits e q \<longleftrightarrow> te_supported e (rq_exchange q) \<and> \<not> te_blocked e (rq_exchange q) \<and>
     (\<forall>m. te_max_leverage e (rq_exchange q) (rq_symbol q) = Some m \<longrightarrow> m \<noteq> 0 \<longrightarrow> rq_leverage q \<le> m)"

definition cleared :: "trade_env \<Rightarrow> clock \<Rightarrow> trading \<Rightarrow> order_request \<Rightarrow> bool" where
  "cleared e c tr q \<longleftrightarrow> well_formed q \<and> own_trading_wallet tr q \<and> plan_permits c tr q \<and> venue_permits e q"

lemma request_fault_iff: "request_fault q = None \<longleftrightarrow> well_formed q"
  by (auto simp: request_fault_def well_formed_def Let_def not_less)

lemma request_fault_exchange [simp]: "request_fault (q\<lparr>rq_exchange := x\<rparr>) = request_fault q"
  by (simp add: request_fault_def)

lemma trade_wallet_Inr:
  "trade_wallet e tr uid wid True = Inr ex \<longleftrightarrow>
   (\<exists>w. row_get w_id (wallets (tr_world tr)) wid = Some w \<and> w_user_id w = Some uid \<and>
      w_purpose w \<in> {Screener, Both} \<and> ex = lower (w_type_value w) \<and> te_supported e ex)"
  by (auto simp: trade_wallet_def Let_def split: option.split)

lemma plan_allows_None:
  "plan_allows l q = None \<longleftrightarrow>
     (rq_order_type q \<in> {''stop_market'', ''take_profit_market'', ''take_profit'', ''stop_loss''} \<longrightarrow> el_allow_tp_sl_orders l) \<and>
     (\<forall>x. rq_spread_pct q = Some x \<longrightarrow> el_max_spread_pct l < 100 \<longrightarrow> \<bar>x\<bar> \<le> el_max_spread_pct l)"
  by (auto simp: plan_allows_def not_less split: option.split)

lemma plan_permits_alt:
  "plan_permits c tr q \<longleftrightarrow> (\<forall>u. row_get u_id (users (tr_world tr)) (rq_user_id q) = Some u \<longrightarrow>
     (\<exists>l w. effective_limits c (tr_world tr) u = (Inr l, w) \<and> plan_allows l q = None))"
  by (simp only: plan_permits_def plan_allows_None)

lemma plan_guard_Inr: "(\<exists>u. fst (plan_guard c q tr) = Inr u) \<longleftrightarrow> plan_permits c tr q"
  by (auto simp: plan_guard_def plan_permits_alt split: option.splits prod.splits sum.splits)

lemma plan_guard_orders: "plan_guard c q tr = (r, tr') \<Longrightarrow> tr_orders tr' = tr_orders tr"
  by (auto simp: plan_guard_def split: option.splits prod.splits sum.splits)

lemma venue_guard_Inr: "te_supported e (rq_exchange q) \<Longrightarrow> (\<exists>u. venue_guard e q = Inr u) \<longleftrightarrow> venue_permits e q"
  by (auto simp: venue_guard_def venue_permits_def not_less split: option.splits)

lemma bind_unit: "bind_res x (\<lambda>_. y) = Inr u \<longleftrightarrow> (\<exists>v. x = Inr v) \<and> y = Inr u"
  by (cases x) auto

lemma place_open_order_cleared:
  assumes "cleared e c (dk_trading d) (normalised (dk_trading d) q)"
  shows "\<exists>tr1. tr_orders tr1 = tr_orders (dk_trading d) \<and>
     place_open_order e c q d = send_open e c (normalised (dk_trading d) q) (d\<lparr>dk_trading := tr1\<rparr>)"
proof -
  let ?n = "normalised (dk_trading d) q"
  obtain w where w: "row_get w_id (wallets (tr_world (dk_trading d))) (rq_wallet_id q) = Some w"
      "w_user_id w = Some (rq_user_id q)" "w_purpose w \<in> {Screener, Both}"
    using assms by (auto simp: cleared_def own_trading_wallet_def normalised_def)
  have n: "?n = q\<lparr>rq_symbol := upper (strip (rq_symbol q)), rq_exchange := lower (w_type_value w)\<rparr>"
    using w(1) by (simp add: normalised_def)
  have sup: "te_supported e (lower (w_type_value w))" using assms n by (simp add: cleared_def venue_permits_def)
  have tw: "trade_wallet e (dk_trading d) (rq_user_id q) (rq_wallet_id q) True = Inr (lower (w_type_value w))"
    using w sup by (simp add: trade_wallet_Inr)
  have rf: "request_fault (q\<lparr>rq_symbol := upper (strip (rq_symbol q))\<rparr>) = None"
    using assms n request_fault_iff [of ?n] by (simp add: cleared_def)
  obtain u tr1 where pg: "plan_guard c ?n (dk_trading d) = (Inr u, tr1)"
    using assms plan_guard_Inr [of c ?n "dk_trading d"] by (metis cleared_def prod.collapse)
  obtain v where vg: "venue_guard e ?n = Inr v"
    using assms sup venue_guard_Inr [of e ?n] n by (auto simp: cleared_def)
  show ?thesis using rf tw pg vg plan_guard_orders [OF pg] unfolding n
    by (intro exI [of _ tr1]) (simp add: place_open_order_def)
qed

lemma place_open_order_refused:
  assumes "\<not> cleared e c (dk_trading d) (normalised (dk_trading d) q)"
  shows "\<exists>f tr1. tr_orders tr1 = tr_orders (dk_trading d) \<and> place_open_order e c q d = (Inl f, d\<lparr>dk_trading := tr1\<rparr>)"
proof -
  let ?n = "normalised (dk_trading d) q"
  let ?q1 = "q\<lparr>rq_symbol := upper (strip (rq_symbol q))\<rparr>"
  show ?thesis
  proof (cases "request_fault ?q1")
    case (Some r)
    then show ?thesis by (auto simp: place_open_order_def intro!: exI [of _ "dk_trading d"])
  next
    case None
    then have wf: "well_formed ?n" using request_fault_iff [of ?n] by (simp add: normalised_def)
    show ?thesis
    proof (cases "trade_wallet e (dk_trading d) (rq_user_id q) (rq_wallet_id q) True")
      case (Inl r)
      with None show ?thesis by (auto simp: place_open_order_def intro!: exI [of _ "dk_trading d"])
    next
      case (Inr ex)
      then obtain w where w: "row_get w_id (wallets (tr_world (dk_trading d))) (rq_wallet_id q) = Some w"
          "w_user_id w = Some (rq_user_id q)" "w_purpose w \<in> {Screener, Both}" "ex = lower (w_type_value w)" "te_supported e ex"
        by (auto simp: trade_wallet_Inr)
      have n: "?n = ?q1\<lparr>rq_exchange := ex\<rparr>" using w by (simp add: normalised_def)
      have own: "own_trading_wallet (dk_trading d) ?n" using w by (auto simp: own_trading_wallet_def n)
      obtain al tr1 where pg: "plan_guard c ?n (dk_trading d) = (al, tr1)" by fastforce
      have "\<not> plan_permits c (dk_trading d) ?n \<or> \<not> venue_permits e ?n" using assms wf own by (simp add: cleared_def)
      then have "\<nexists>u. bind_res al (\<lambda>_. venue_guard e ?n) = Inr u"
        using plan_guard_Inr [of c ?n "dk_trading d"] venue_guard_Inr [of e ?n] w(5) pg n by (auto simp: bind_unit)
      then obtain f where "bind_res al (\<lambda>_. venue_guard e ?n) = Inl f" by (cases "bind_res al (\<lambda>_. venue_guard e ?n)") auto
      then show ?thesis using None Inr pg plan_guard_orders [OF pg] unfolding n
        by (auto simp: place_open_order_def)
    qed
  qed
qed


section \<open>Closing\<close>

definition close_row_of :: "close_order \<Rightarrow> trade_order \<Rightarrow> bool" where
  "close_row_of q r \<longleftrightarrow> od_user_id r = co_user_id q \<and> od_wallet_id r = Some (co_wallet_id q) \<and>
     od_exchange r = co_exchange q \<and> od_symbol r = upper (strip (co_symbol q)) \<and> od_intent r = ''close''"

definition close_calls :: "close_order \<Rightarrow> engine_call list \<Rightarrow> bool" where
  "close_calls q calls \<longleftrightarrow> set calls \<subseteq> {Proxy_Close q, Adapter_Close q} \<and>
     (Adapter_Close q \<in> set calls \<longrightarrow> \<not> (co_exchange q = ''backpack'' \<and> co_market_type q = ''futures''))"

lemma close_row_of_same: "same_order r r0 \<Longrightarrow> close_row_of q r0 \<Longrightarrow> close_row_of q r"
  by (simp add: close_row_of_def same_order_def)

lemma adapter_close_calls: "adapter_close e q = (out, calls) \<Longrightarrow> close_calls q calls"
  by (auto simp: adapter_close_def python_close_fallback_unsafe_def close_calls_def split: if_split_asm)

lemma dispatch_close_calls: "dispatch_close e q = (out, calls) \<Longrightarrow> close_calls q calls"
  by (auto simp: dispatch_close_def close_calls_def split: if_split_asm proxy_reply.split_asm prod.split_asm
      dest!: adapter_close_calls)

lemma adapter_close_logged: "adapter_close e q \<noteq> (Refused_Unlogged r, calls)"
  by (auto simp: adapter_close_def split: option.split_asm adapter_reply.split_asm)

lemma dispatch_close_logged: "dispatch_close e q \<noteq> (Refused_Unlogged r, calls)"
  by (auto simp: dispatch_close_def adapter_close_logged split: if_split_asm proxy_reply.split_asm prod.split_asm)

lemma settle_close_logged:
  assumes "logged xs row d" and "settle_close c q row out d = (res, d')" and "\<And>r. out \<noteq> Refused_Unlogged r"
  shows "(\<exists>r. logged xs r d' \<and> same_order r row \<and> od_status r = (if isl res then ''failed'' else ''filled'')) \<and>
     dk_calls d' = dk_calls d"
proof (cases out)
  case (Executed v)
  obtain qty price where op: "close_result v = (qty, price)" by fastforce
  let ?r = "finalize_filled c ''filled'' v qty price row"
  have "logged xs ?r (put_order ?r d)" using logged_put [OF assms(1), of ?r] by simp
  then show ?thesis using assms(2) Executed op by (auto simp: settle_close_def intro!: exI [of _ ?r])
next
  case (Refused kind msg)
  then show ?thesis using assms(1,2) logged_put [OF assms(1), of "finalize_failed c kind msg row"]
    by (auto simp: settle_close_def)
next
  case (Refused_Unlogged r)
  then show ?thesis using assms(3) by simp
next
  case (Refused_Logged r msg)
  then show ?thesis using assms(1,2) logged_put [OF assms(1), of "finalize_failed c ''user'' msg row"]
    by (auto simp: settle_close_def)
next
  case (Broken msg)
  then show ?thesis using assms(1,2) logged_put [OF assms(1), of "finalize_failed c ''internal'' msg row"]
    by (auto simp: settle_close_def)
qed

lemma close_delay_orders: "close_delay c u tr = (r, tr') \<Longrightarrow> tr_orders tr' = tr_orders tr"
  by (auto simp: close_delay_def split: option.splits prod.splits sum.splits)

lemma close_position_logged:
  assumes "close_position e c uid wid symbol sd market d = (res, d')"
  shows "(isl res \<and> tr_orders (dk_trading d') = tr_orders (dk_trading d) \<and> dk_calls d' = dk_calls d) \<or>
    (\<exists>r q calls. logged (tr_orders (dk_trading d)) r d' \<and> close_row_of q r \<and>
       co_user_id q = uid \<and> co_wallet_id q = wid \<and> co_symbol q = symbol \<and> co_market_type q = market \<and>
       od_status r = (if isl res then ''failed'' else ''filled'') \<and>
       dk_calls d' = dk_calls d @ calls \<and> close_calls q calls)"
proof (cases "trade_wallet e (dk_trading d) uid wid False")
  case (Inl r)
  with assms show ?thesis by (auto simp: close_position_def)
next
  case (Inr ex)
  obtain al tr1 where cd: "close_delay c uid (dk_trading d) = (al, tr1)" by fastforce
  show ?thesis
  proof (cases al)
    case (Inl f)
    with assms Inr cd close_delay_orders [OF cd] show ?thesis by (auto simp: close_position_def)
  next
    case (Inr u)
    define q where "q = \<lparr>co_user_id = uid, co_wallet_id = wid, co_exchange = ex, co_symbol = symbol, co_side = sd,
      co_market_type = market\<rparr>"
    define row where "row = pending_row c (next_order_id (d\<lparr>dk_trading := tr1\<rparr>)) uid wid ex (upper (strip symbol))
      (if lower (strip sd) = [] then ''sell'' else lower (strip sd)) ''close'' 0 None None"
    obtain out calls where dis: "dispatch_close e q = (out, calls)" by fastforce
    let ?d1 = "log_order row (d\<lparr>dk_trading := tr1\<rparr>)"
    have l: "logged (tr_orders (dk_trading d)) row (?d1\<lparr>dk_calls := dk_calls d @ calls\<rparr>)"
      using logged_log [of "d\<lparr>dk_trading := tr1\<rparr>"] close_delay_orders [OF cd] by (simp add: row_def)
    have "settle_close c q row out (?d1\<lparr>dk_calls := dk_calls d @ calls\<rparr>) = (res, d')"
      using assms \<open>trade_wallet e (dk_trading d) uid wid False = Inr ex\<close> cd Inr dis
      by (simp add: close_position_def q_def row_def Let_def log_order_def)
    moreover have "\<And>r. out \<noteq> Refused_Unlogged r" using dis dispatch_close_logged by metis
    ultimately obtain r where
      "logged (tr_orders (dk_trading d)) r d'" "same_order r row"
      "od_status r = (if isl res then ''failed'' else ''filled'')" "dk_calls d' = dk_calls d @ calls"
      using settle_close_logged [OF l] by fastforce
    moreover from this(2) have "close_row_of q r"
      by (rule close_row_of_same) (simp add: close_row_of_def q_def row_def pending_row_def)
    ultimately show ?thesis using dispatch_close_calls [OF dis]
      by (intro disjI2 exI [of _ r] exI [of _ q] exI [of _ calls]) (simp add: q_def)
  qed
qed

section \<open>Runs\<close>

text \<open>Any sequence of orders, closings and readiness checks, with the venues answering anything.\<close>

datatype desk_op =
    Place trade_env clock order_request
  | Close trade_env clock int int string string string
  | Ask trade_env panel_env clock int string string string

fun desk_step :: "desk \<Rightarrow> desk_op \<Rightarrow> desk" where
  "desk_step d (Place e c q) = snd (place_open_order e c q d)"
| "desk_step d (Close e c uid wid symbol sd market) = snd (close_position e c uid wid symbol sd market d)"
| "desk_step d (Ask e pe c uid symbol long_ex short_ex) = snd (get_pair_status e pe c uid symbol long_ex short_ex d)"

text \<open>
  A call is accounted for when a row of the log belongs to it, and faithful when it does at
  the venue what was asked for: adapters place market orders only, and the adapter that sells
  the spot balance is not used to close a perpetual.
\<close>

fun accounted :: "trade_order list \<Rightarrow> engine_call \<Rightarrow> bool" where
  "accounted rows (Proxy_Open q) = (\<exists>r \<in> set rows. row_of q r)"
| "accounted rows (Adapter_Open q) = (\<exists>r \<in> set rows. row_of q r)"
| "accounted rows (Proxy_Close q) = (\<exists>r \<in> set rows. close_row_of q r)"
| "accounted rows (Adapter_Close q) = (\<exists>r \<in> set rows. close_row_of q r)"

fun faithful :: "engine_call \<Rightarrow> bool" where
  "faithful (Adapter_Open q) = (rq_order_type q = ''market'')"
| "faithful (Adapter_Close q) = (\<not> (co_exchange q = ''backpack'' \<and> co_market_type q = ''futures''))"
| "faithful _ = True"

definition desk_inv :: "desk \<Rightarrow> bool" where
  "desk_inv d \<longleftrightarrow> distinct (map od_id (tr_orders (dk_trading d))) \<and>
     (\<forall>call \<in> set (dk_calls d). accounted (tr_orders (dk_trading d)) call \<and> faithful call)"

lemma accounted_mono: "accounted xs call \<Longrightarrow> accounted (xs @ [r]) call"
  by (cases call) auto

lemma desk_inv_extend:
  assumes "desk_inv d" and "logged (tr_orders (dk_trading d)) r d'" and "dk_calls d' = dk_calls d @ calls"
    and "\<And>call. call \<in> set calls \<Longrightarrow> accounted [r] call \<and> faithful call"
  shows "desk_inv d'"
proof -
  have "accounted [r] call \<Longrightarrow> accounted (tr_orders (dk_trading d) @ [r]) call" for call by (cases call) auto
  then show ?thesis using assms by (auto simp: desk_inv_def logged_def accounted_mono)
qed

lemma row_of_request: "same_request q1 q \<Longrightarrow> row_of q r \<Longrightarrow> row_of q1 r"
  unfolding same_request_def row_of_def by (metis order_request.select_convs(1-4) order_request.surjective order_request.update_convs(6))

lemma place_inv: "desk_inv d \<Longrightarrow> desk_inv (snd (place_open_order e c q d))"
proof (cases "cleared e c (dk_trading d) (normalised (dk_trading d) q)")
  case True
  let ?n = "normalised (dk_trading d) q"
  assume i: "desk_inv d"
  obtain tr1 where t: "tr_orders tr1 = tr_orders (dk_trading d)"
    "place_open_order e c q d = send_open e c ?n (d\<lparr>dk_trading := tr1\<rparr>)"
    using place_open_order_cleared [OF True] by metis
  obtain res d' where s: "send_open e c ?n (d\<lparr>dk_trading := tr1\<rparr>) = (res, d')" by fastforce
  obtain r calls q1 where f: "logged (tr_orders (dk_trading d)) r d'" "row_of ?n r"
      "dk_calls d' = dk_calls d @ calls" "same_request q1 ?n" "order_calls q1 calls"
    using send_open_logged [OF s] t(1) by auto
  have "accounted [r] call \<and> faithful call" if "call \<in> set calls" for call
    using order_calls_quantity [OF f(5) that] row_of_request [OF f(4,2)] by auto
  with desk_inv_extend [OF i f(1,3)] show ?thesis by (simp add: t(2) s)
next
  case False
  assume "desk_inv d"
  with place_open_order_refused [OF False] show ?thesis by (auto simp: desk_inv_def)
qed

lemma close_inv: "desk_inv d \<Longrightarrow> desk_inv (snd (close_position e c uid wid symbol sd market d))"
proof -
  assume i: "desk_inv d"
  obtain res d' where s: "close_position e c uid wid symbol sd market d = (res, d')" by fastforce
  from close_position_logged [OF s] show ?thesis
  proof (elim disjE exE conjE)
    assume "tr_orders (dk_trading d') = tr_orders (dk_trading d)" "dk_calls d' = dk_calls d"
    with i show ?thesis by (simp add: s desk_inv_def)
  next
    fix r q calls
    assume f: "logged (tr_orders (dk_trading d)) r d'" "close_row_of q r" "dk_calls d' = dk_calls d @ calls" "close_calls q calls"
    have "accounted [r] call \<and> faithful call" if "call \<in> set calls" for call
      using f(2,4) that by (auto simp: close_calls_def)
    with desk_inv_extend [OF i f(1,3)] show ?thesis by (simp add: s)
  qed
qed

lemma ask_inv: "desk_inv d \<Longrightarrow> desk_inv (snd (get_pair_status e pe c uid symbol long_ex short_ex d))"
  by (auto simp: get_pair_status_def desk_inv_def Let_def split: option.split)

interpretation desk_machine: inv_machine desk_step desk_inv
proof
  fix d op assume "desk_inv d"
  then show "desk_inv (desk_step d op)" by (cases op) (simp_all add: place_inv close_inv ask_inv)
qed


section \<open>Caches\<close>

lemma settle_open_caches:
  assumes "settle_open c q row out d = (Inr r, d')"
  shows "dk_status d' = dk_status (invalidate_pair_status_cache (rq_user_id q) (Some (rq_exchange q)) d) \<and>
    dk_positions d' = dk_positions (invalidate_positions_cache (rq_user_id q) d) \<and>
    dk_lastgood d' = dk_lastgood (invalidate_positions_cache (rq_user_id q) d) \<and>
    dk_balances d' = dk_balances (invalidate_positions_cache (rq_user_id q) d)"
  using assms by (auto simp: settle_open_def invalidate_pair_status_cache_def invalidate_positions_cache_def put_order_def
      split: dispatch.split_asm prod.split_asm)

lemma send_open_caches:
  assumes "send_open e c q d = (Inr r, d')"
  shows "dk_status d' = dk_status (invalidate_pair_status_cache (rq_user_id q) (Some (rq_exchange q)) d) \<and>
    dk_positions d' = dk_positions (invalidate_positions_cache (rq_user_id q) d) \<and>
    dk_lastgood d' = dk_lastgood (invalidate_positions_cache (rq_user_id q) d) \<and>
    dk_balances d' = dk_balances (invalidate_positions_cache (rq_user_id q) d)"
  using assms
  by (auto simp: send_open_def Let_def log_order_def put_order_def invalidate_pair_status_cache_def invalidate_positions_cache_def
      split: preflight_reply.split_asm prod.split_asm if_split_asm dest!: settle_open_caches)

text \<open>
  What an executed order makes stale is dropped: the readiness of every pair with a leg on
  the order's venue, and the user's positions, last good answers and balances. What is cached
  for other users, and for pairs on other venues, stays.
\<close>

theorem order_drops_caches:
  assumes "place_open_order e c q d = (Inr r, d')" and "n = normalised (dk_trading d) q"
  shows "dk_status d' (u, symbol, long_ex, short_ex) =
      (if u = rq_user_id n \<and> rq_exchange n \<in> {long_ex, short_ex} then None else dk_status d (u, symbol, long_ex, short_ex)) \<and>
    dk_positions d' (u, symbol) = (if u = rq_user_id n then None else dk_positions d (u, symbol)) \<and>
    dk_lastgood d' (u, wid, symbol) = (if u = rq_user_id n then None else dk_lastgood d (u, wid, symbol)) \<and>
    dk_balances d' u = (if u = rq_user_id n then None else dk_balances d u)"
proof (cases "cleared e c (dk_trading d) (normalised (dk_trading d) q)")
  case True
  from place_open_order_cleared [OF True] assms obtain tr1 where
    "send_open e c n (d\<lparr>dk_trading := tr1\<rparr>) = (Inr r, d')" by metis
  from send_open_caches [OF this] show ?thesis
    by (simp add: invalidate_pair_status_cache_def invalidate_positions_cache_def)
next
  case False
  from place_open_order_refused [OF False] assms show ?thesis by auto
qed

section \<open>Fallback\<close>

text \<open>
  A market order the Go engine did not confirm is placed again. When the engine fails for
  a reason of its own, a reply lost on the way included, the same order goes to the adapter;
  an order the engine refused, for the user's or the venue's sake, does not.
\<close>

theorem unconfirmed_order_repeated:
  assumes "te_proxy_enabled e (rq_exchange q)" and "te_proxy_open e q = Go_Error kind msg"
    and "rq_market_type q = ''futures''" and "rq_order_type q = ''market''"
  shows "snd (dispatch_open e q) =
     (if kind \<in> {''user'', ''exchange''} then [Proxy_Open q] else [Proxy_Open q, Adapter_Open q])"
  using assms by (auto simp: dispatch_open_def adapter_open_def)

text \<open>A venue's answer that nothing was filled is recorded as a complete fill.\<close>

theorem zero_fill_recorded_full:
  assumes "0 < rq_quantity q" and "vr_filled_qty r = Some 0" and "vr_qty r \<in> {None, Some 0}"
  shows "fst (open_result q r) = rq_quantity q \<and> fill_status (rq_quantity q) (fst (open_result q r)) = ''filled''"
  using assms by (auto simp: open_result_def or_first_def fill_status_def)

text \<open>The hint about an invalid key looks for a capital letter in a text in lower case.\<close>

lemma contains_set: "contains pat s \<Longrightarrow> set pat \<subseteq> set s"
proof (induction s)
  case (Cons x xs)
  then show ?case by (metis contains.simps(2) set_take_subset set_subset_Cons subset_trans)
qed simp

lemma lower_char_not_I: "lower_char x \<noteq> CHR ''I''"
proof
  assume "lower_char x = CHR ''I''"
  then have "lower_char (CHR ''I'') = CHR ''I''" using lower_char_idem [of x] by simp
  moreover have "lower_char (CHR ''I'') = CHR ''i''" by code_simp
  ultimately show False by simp
qed

theorem invalid_key_hint_unreachable: "\<not> contains ''Invalid'' (lower msg)"
proof
  assume "contains ''Invalid'' (lower msg)"
  then have "CHR ''I'' \<in> set (lower msg)" using contains_set by fastforce
  then show False using lower_char_not_I [THEN not_sym] by (auto simp: lower_def)
qed

section \<open>A concrete desk\<close>

text \<open>
  Ann's wallet 2 trades on Binance. The Go engine takes Binance orders and fails with a network
  error; the adapter fills them.
\<close>

definition sample_fill :: venue_result where
  "sample_fill = \<lparr>vr_order_id = ''X1'', vr_avg_price = Some 100, vr_fill_price = None, vr_price = None,
     vr_filled_qty = Some 2, vr_qty = None\<rparr>"

definition failing_proxy :: trade_env where
  "failing_proxy = \<lparr>te_supported = (\<lambda>_. True), te_blocked = (\<lambda>_. False), te_max_leverage = (\<lambda>_ _. Some 20),
     te_preflight = (\<lambda>_. Pre_None), te_proxy_enabled = (\<lambda>_. True),
     te_proxy_open = (\<lambda>_. Go_Error ''transient'' ''proxy network error''), te_adapter_open = (\<lambda>_. Ad_Ok sample_fill),
     te_spot_native = (\<lambda>_. False), te_proxy_close = (\<lambda>_. Go_Error ''transient'' ''proxy network error''),
     te_adapter_close = (\<lambda>_. Ad_Ok sample_fill), te_balance = (\<lambda>_. Inl ''down''), te_stream = (\<lambda>_. None),
     te_positions = (\<lambda>_ _. Rows_Timeout), te_live_marks = [], te_local_upnl = False\<rparr>"

definition sample_desk :: desk where
  "sample_desk = \<lparr>dk_trading = empty_trading sample_world, dk_status = (\<lambda>_. None), dk_positions = (\<lambda>_. None),
     dk_refreshing = {}, dk_lastgood = (\<lambda>_. None), dk_balances = (\<lambda>_. None), dk_calls = []\<rparr>"

definition sample_request :: order_request where
  "sample_request = \<lparr>rq_user_id = 1, rq_wallet_id = 2, rq_exchange = [], rq_symbol = '' btc'', rq_side = ''buy'',
     rq_quantity = 2, rq_leverage = 5, rq_margin_mode = ''cross'', rq_market_type = ''futures'',
     rq_order_type = ''market'', rq_limit_price = None, rq_stop_price = None, rq_spread_pct = None\<rparr>"

lemma sample_order_result:
  "fst (place_open_order failing_proxy sample_clock sample_request sample_desk) = Inr (sample_fill, 1)"
  by code_simp

lemma sample_order_calls:
  "length (dk_calls (snd (place_open_order failing_proxy sample_clock sample_request sample_desk))) = 2"
  by code_simp

abbreviation (input) after_sample :: desk where
  "after_sample \<equiv> snd (place_open_order failing_proxy sample_clock sample_request sample_desk)"



theorem order_drops_caches_witness:
  "dk_balances (snd (place_open_order failing_proxy sample_clock sample_request
       (sample_desk\<lparr>dk_balances := (\<lambda>_. Some ([], 0))\<rparr>))) 1 = None \<and>
   dk_balances (snd (place_open_order failing_proxy sample_clock sample_request
       (sample_desk\<lparr>dk_balances := (\<lambda>_. Some ([], 0))\<rparr>))) 2 = Some ([], 0)"
proof -
  let ?d = "sample_desk\<lparr>dk_balances := (\<lambda>_. Some ([], 0))\<rparr>"
  let ?p = "place_open_order failing_proxy sample_clock sample_request ?d"
  have "fst ?p = Inr (sample_fill, 1)" by code_simp
  then have p: "?p = (Inr (sample_fill, 1), snd ?p)" by (metis prod.collapse)
  have u: "rq_user_id (normalised (dk_trading ?d) sample_request) = 1" by (simp add: normalised_def sample_request_def)
  from order_drops_caches [OF p refl, of 1 _ _ _ 0] order_drops_caches [OF p refl, of 2 _ _ _ 0] u show ?thesis by simp
qed

theorem unconfirmed_order_repeated_witness:
  "snd (dispatch_open failing_proxy sample_request) = [Proxy_Open sample_request, Adapter_Open sample_request]"
  using unconfirmed_order_repeated [of failing_proxy sample_request "''transient''" "''proxy network error''"]
  by (simp add: failing_proxy_def sample_request_def)

end
