(* ===== verification/Positions_Safety.thy ===== *)
theory Positions_Safety
  imports Positions Trade_Desk_Safety
begin

text \<open>
  How old and how true listed positions can be: an authoritative listing shows what the venues
  answer now and nothing else, so does the first listing after an order, and any other listing
  shows rows a venue or stream reported at most thirty-five minutes ago.
\<close>

section \<open>Live rows\<close>

definition live_rows :: "trade_env \<Rightarrow> clock \<Rightarrow> string \<Rightarrow> bool \<Rightarrow> wallet \<Rightarrow> held_position list" where
  "live_rows e c symbol fresh_only w =
     (if venue_skipped e symbol (w_type_value w) then []
      else map (\<lambda>r. apply_local_upnl e c (r\<lparr>hp_wallet_id := w_id w\<rparr>))
        (if streamed_rows e symbol fresh_only w \<noteq> [] then streamed_rows e symbol fresh_only w
         else case te_positions e (w_id w) symbol of Rows_Ok rows \<Rightarrow> rows | _ \<Rightarrow> []))"

lemma ask_wallet_live:
  assumes "fresh_only \<or> dk_lastgood d (uid, w_id w, upper symbol) = None"
  shows "fst (ask_wallet e c uid symbol fresh_only w d) = live_rows e c symbol fresh_only w"
proof -
  have "fresh_only \<or> last_good c d (uid, w_id w, upper symbol) = []" using assms by (auto simp: last_good_def)
  then show ?thesis by (auto simp: ask_wallet_def live_rows_def Let_def split: positions_reply.split)
qed

lemma ask_wallet_frame:
  "k \<noteq> (uid, w_id w, upper symbol) \<Longrightarrow> dk_lastgood (snd (ask_wallet e c uid symbol fresh_only w d)) k = dk_lastgood d k"
  by (auto simp: ask_wallet_def Let_def split: positions_reply.split)

lemma ask_wallets_live:
  assumes "fresh_only \<or> distinct (map w_id ws) \<and> (\<forall>w \<in> set ws. dk_lastgood d (uid, w_id w, upper symbol) = None)"
  shows "fst (ask_wallets e c uid symbol fresh_only ws d) = concat (map (live_rows e c symbol fresh_only) ws)"
  using assms
proof (induction ws arbitrary: d)
  case (Cons w ws)
  let ?a = "ask_wallet e c uid symbol fresh_only w d"
  have "fst ?a = live_rows e c symbol fresh_only w" using Cons.prems by (intro ask_wallet_live) auto
  moreover have "fresh_only \<or> distinct (map w_id ws) \<and> (\<forall>x \<in> set ws. dk_lastgood (snd ?a) (uid, w_id x, upper symbol) = None)"
  proof (cases fresh_only)
    case False
    then have "w_id w \<notin> w_id ` set ws" using Cons.prems by simp
    then have "w_id x \<noteq> w_id w" if "x \<in> set ws" for x using that by (metis imageI)
    then show ?thesis using Cons.prems False by (simp add: ask_wallet_frame)
  qed simp
  ultimately show ?case using Cons.IH [of "snd ?a"] by (simp add: case_prod_beta)
qed simp

lemma trade_wallets_distinct: "distinct (map w_id (wallets w)) \<Longrightarrow> distinct (map w_id (trade_wallets e w uid))"
  by (simp add: trade_wallets_def distinct_map_filter)


text \<open>
  C37. An order shows at once. After an executed order the user's next listing, whoever asks and
  whatever was cached before, consists of the rows streams and venues report then; no answer
  from before the order is served.
\<close>

theorem listing_after_order_is_live:
  assumes "place_open_order e c q d = (Inr r, d')" and "distinct (map w_id (wallets (tr_world (dk_trading d'))))"
  shows "fst (list_user_positions e2 c2 (rq_user_id q) symbol False d') =
     concat (map (live_rows e2 c2 symbol False) (trade_wallets e2 (tr_world (dk_trading d')) (rq_user_id q)))"
proof -
  let ?u = "rq_user_id q"
  have u: "rq_user_id (normalised (dk_trading d) q) = ?u" by (simp add: normalised_def)
  have pos: "dk_positions d' (?u, upper symbol) = None" and good: "dk_lastgood d' (?u, wid, upper symbol) = None" for wid
    using order_drops_caches [OF assms(1) refl, of ?u] u by simp_all
  then show ?thesis using trade_wallets_distinct [OF assms(2)]
    by (simp add: list_user_positions_def list_user_positions_inner_def ask_wallets_live case_prod_beta)
qed

section \<open>Age\<close>

text \<open>
  The history of a desk: the listings made of it, foreground and background, oldest first. A
  row was seen at a time when a stream or venue reported it, up to the mark's override, to a
  listing made then.
\<close>

datatype listing = Listing (lg_env: trade_env) (lg_clock: clock) (lg_user: int) (lg_symbol: string) (lg_auth: bool) | Refresh (lg_env: trade_env) (lg_clock: clock) (lg_user: int) (lg_symbol: string)

fun listing_step :: "desk \<Rightarrow> listing \<Rightarrow> desk" where
  "listing_step d (Listing e c uid symbol auth) = snd (list_user_positions e c uid symbol auth d)"
| "listing_step d (Refresh e c uid symbol) = refresh_positions e c uid symbol d"

definition same_position :: "held_position \<Rightarrow> held_position \<Rightarrow> bool" where
  "same_position a b \<longleftrightarrow> hp_position_id a = hp_position_id b \<and> hp_exchange a = hp_exchange b \<and>
     hp_symbol a = hp_symbol b \<and> hp_side a = hp_side b \<and> hp_quantity a = hp_quantity b \<and> hp_entry_price a = hp_entry_price b"

definition reported :: "trade_env \<Rightarrow> int \<Rightarrow> held_position \<Rightarrow> bool" where
  "reported e wid r \<longleftrightarrow> (\<exists>rows r0. r0 \<in> set rows \<and> same_position r r0 \<and>
     (te_stream e wid = Some rows \<or> (\<exists>symbol. te_positions e wid symbol = Rows_Ok rows)))"

definition seen :: "listing list \<Rightarrow> rat \<Rightarrow> held_position \<Rightarrow> bool" where
  "seen hist t r \<longleftrightarrow> (\<exists>l \<in> set hist. wall (lg_clock l) = t \<and> reported (lg_env l) (hp_wallet_id r) r)"

lemma same_position_refl [simp]: "same_position r r"
  by (simp add: same_position_def)

lemma apply_local_upnl_same [simp]:
  "same_position (apply_local_upnl e c r) r0 = same_position r r0"
  "hp_wallet_id (apply_local_upnl e c r) = hp_wallet_id r"
  by (auto simp: apply_local_upnl_def same_position_def Let_def split: prod.split)

lemma reported_override [simp]: "reported e' wid (apply_local_upnl e c r) = reported e' wid r"
  by (simp add: reported_def)

lemma seen_override [simp]: "seen hist t (apply_local_upnl e c r) = seen hist t r"
  by (simp add: seen_def reported_def)

lemma seen_mono: "seen hist t r \<Longrightarrow> set hist \<subseteq> set hist' \<Longrightarrow> seen hist' t r"
  by (auto simp: seen_def)

text \<open>Last good rows carry the time they were seen; cached rows were seen within five minutes of their caching.\<close>

definition good_inv :: "listing list \<Rightarrow> desk \<Rightarrow> bool" where
  "good_inv hist d \<longleftrightarrow> (\<forall>k rows t. dk_lastgood d k = Some (rows, t) \<longrightarrow> (\<forall>r \<in> set rows. seen hist t r))"

definition cache_inv :: "listing list \<Rightarrow> desk \<Rightarrow> bool" where
  "cache_inv hist d \<longleftrightarrow> (\<forall>k rows t. dk_positions d k = Some (rows, t) \<longrightarrow>
     (\<forall>r \<in> set rows. \<exists>t0. seen hist t0 r \<and> t - t0 < positions_lastgood_ttl_s))"

lemma streamed_reported: "r \<in> set (streamed_rows e symbol fresh_only w) \<Longrightarrow> reported e (w_id w) r"
  by (auto simp: streamed_rows_def reported_def split: if_split_asm option.split_asm) (metis same_position_refl)+

lemma venue_reported: "te_positions e (w_id w) symbol = Rows_Ok rows \<Longrightarrow> r \<in> set rows \<Longrightarrow> reported e (w_id w) r"
  by (auto simp: reported_def) (metis same_position_refl)

lemma reported_stamp [simp]: "reported e wid (r\<lparr>hp_wallet_id := i\<rparr>) = reported e wid r"
  by (simp add: reported_def same_position_def)

lemma ask_wallet_inv:
  assumes "good_inv hist d" and "l \<in> set hist" and "lg_env l = e" and "lg_clock l = c"
  shows "good_inv hist (snd (ask_wallet e c uid symbol fresh_only w d)) \<and>
    dk_positions (snd (ask_wallet e c uid symbol fresh_only w d)) = dk_positions d \<and>
    (\<forall>r \<in> set (fst (ask_wallet e c uid symbol fresh_only w d)). \<exists>t0. seen hist t0 r \<and> wall c - t0 < positions_lastgood_ttl_s)"
proof -
  let ?k = "(uid, w_id w, upper symbol)"
  have now: "reported e (w_id w) r \<Longrightarrow> seen hist (wall c) (apply_local_upnl e c (r\<lparr>hp_wallet_id := w_id w\<rparr>))" for r
    using assms(2-4) by (auto simp: seen_def)
  have old: "\<forall>r \<in> set (last_good c d ?k). seen hist (snd (the (dk_lastgood d ?k))) r \<and>
      wall c - snd (the (dk_lastgood d ?k)) < positions_lastgood_ttl_s"
  proof (cases "dk_lastgood d ?k")
    case None
    then show ?thesis by (simp add: last_good_def)
  next
    case (Some p)
    then show ?thesis using assms(1) [unfolded good_inv_def, rule_format, of ?k "fst p" "snd p"]
      by (cases p) (auto simp: last_good_def)
  qed
  have ttl: "0 < positions_lastgood_ttl_s" by (simp add: positions_lastgood_ttl_s_def)
  have now2: "reported e (w_id w) r \<Longrightarrow> \<exists>t0. seen hist t0 (r\<lparr>hp_wallet_id := w_id w\<rparr>) \<and> wall c - t0 < positions_lastgood_ttl_s" for r
    using now [of r] ttl by (intro exI [of _ "wall c"]) simp
  define fall where "fall = (if fresh_only \<or> last_good c d ?k = [] then ([], d)
    else (map (apply_local_upnl e c) (last_good c d ?k), d\<lparr>dk_lastgood := (dk_lastgood d)(?k \<mapsto>
      (map (apply_local_upnl e c) (last_good c d ?k), snd (the (dk_lastgood d ?k))))\<rparr>))"
  define store where "store rows = (map (\<lambda>r. apply_local_upnl e c (r\<lparr>hp_wallet_id := w_id w\<rparr>)) rows,
    d\<lparr>dk_lastgood := (dk_lastgood d)(?k \<mapsto> (map (\<lambda>r. apply_local_upnl e c (r\<lparr>hp_wallet_id := w_id w\<rparr>)) rows, wall c))\<rparr>)" for rows
  have ask: "ask_wallet e c uid symbol fresh_only w d =
      (if venue_skipped e symbol (w_type_value w) then ([], d)
       else if streamed_rows e symbol fresh_only w \<noteq> [] then store (streamed_rows e symbol fresh_only w)
       else case te_positions e (w_id w) symbol of Rows_Ok rows \<Rightarrow> store rows
         | Rows_Raised msg \<Rightarrow> if symbol_not_on_venue msg then ([], d) else fall | Rows_Timeout \<Rightarrow> fall)"
    by (simp only: ask_wallet_def fall_def store_def Let_def)
  define P where "P x \<longleftrightarrow> good_inv hist (snd x) \<and> dk_positions (snd x) = dk_positions d \<and>
    (\<forall>r \<in> set (fst x). \<exists>t0. seen hist t0 r \<and> wall c - t0 < positions_lastgood_ttl_s)" for x :: "held_position list \<times> desk"
  have pf: "P fall" using assms(1) old by (auto simp: P_def fall_def good_inv_def)
  have ps: "P (store rows)" if "\<forall>r \<in> set rows. reported e (w_id w) r" for rows
    using assms(1) now now2 that by (auto simp: P_def store_def good_inv_def)
  have pst: "P (store (streamed_rows e symbol fresh_only w))" using ps streamed_reported by blast
  have po: "te_positions e (w_id w) symbol = Rows_Ok rows \<Longrightarrow> P (store rows)" for rows using ps venue_reported by blast
  have pn: "P ([], d)" using assms(1) by (simp add: P_def)
  have "P (ask_wallet e c uid symbol fresh_only w d)" unfolding ask
    using pf pn po pst by (auto split: positions_reply.split)
  then show ?thesis by (simp add: P_def)
qed

lemma ask_wallets_inv:
  assumes "good_inv hist d" and "l \<in> set hist" and "lg_env l = e" and "lg_clock l = c"
  shows "good_inv hist (snd (ask_wallets e c uid symbol fresh_only ws d)) \<and>
    dk_positions (snd (ask_wallets e c uid symbol fresh_only ws d)) = dk_positions d \<and>
    (\<forall>r \<in> set (fst (ask_wallets e c uid symbol fresh_only ws d)). \<exists>t0. seen hist t0 r \<and> wall c - t0 < positions_lastgood_ttl_s)"
  using assms(1)
proof (induction ws arbitrary: d)
  case (Cons w ws)
  from ask_wallet_inv [OF Cons.prems assms(2-4), of uid symbol fresh_only w]
    Cons.IH [of "snd (ask_wallet e c uid symbol fresh_only w d)"]
  show ?case by (auto simp: case_prod_beta)
qed simp

lemma inner_inv:
  assumes "good_inv hist d" and "cache_inv hist d" and "l \<in> set hist" and "lg_env l = e" and "lg_clock l = c"
  shows "good_inv hist (snd (list_user_positions_inner e c uid symbol fresh_only d)) \<and>
    cache_inv hist (snd (list_user_positions_inner e c uid symbol fresh_only d)) \<and>
    (\<forall>r \<in> set (fst (list_user_positions_inner e c uid symbol fresh_only d)).
       \<exists>t0. seen hist t0 r \<and> wall c - t0 < positions_lastgood_ttl_s)"
  using ask_wallets_inv [OF assms(1,3-5), of uid symbol fresh_only "trade_wallets e (tr_world (dk_trading d)) uid"] assms(2)
  by (auto simp: list_user_positions_inner_def cache_inv_def good_inv_def case_prod_beta)

definition age_limit_s :: rat where "age_limit_s = positions_lastgood_ttl_s + positions_stale_max_s"

lemma list_inv:
  assumes "good_inv hist d" and "cache_inv hist d" and "l \<in> set hist" and "lg_env l = e" and "lg_clock l = c"
  shows "good_inv hist (snd (list_user_positions e c uid symbol auth d)) \<and>
    cache_inv hist (snd (list_user_positions e c uid symbol auth d)) \<and>
    (\<forall>r \<in> set (fst (list_user_positions e c uid symbol auth d)). \<exists>t0. seen hist t0 r \<and> wall c - t0 < age_limit_s)"
proof -
  have stale: "wall c - t < positions_stale_max_s \<Longrightarrow> t - t0 < positions_lastgood_ttl_s \<Longrightarrow> wall c - t0 < age_limit_s" for t t0
    by (simp add: age_limit_s_def)
  have short: "positions_cache_ttl_s < positions_stale_max_s" "positions_lastgood_ttl_s < age_limit_s"
    by (simp_all add: positions_cache_ttl_s_def positions_stale_max_s_def age_limit_s_def)
  define P where "P x \<longleftrightarrow> good_inv hist (snd x) \<and> cache_inv hist (snd x) \<and>
    (\<forall>r \<in> set (fst x). \<exists>t0. seen hist t0 r \<and> wall c - t0 < age_limit_s)" for x :: "held_position list \<times> desk"
  have pi: "P (list_user_positions_inner e c uid symbol f d)" for f
    using inner_inv [OF assms, of uid symbol f] short(2) by (auto simp: P_def) (meson less_trans)
  have aged: "\<exists>t0. seen hist t0 r \<and> wall c - t0 < age_limit_s"
    if "dk_positions d k = Some (rows, t)" "wall c - t < positions_stale_max_s" "r \<in> set rows" for k rows t r
    using assms(2) [unfolded cache_inv_def, rule_format, OF that(1,3)] stale [OF that(2)] by blast
  have pc: "P (rows, d)" "P (rows, d\<lparr>dk_refreshing := x\<rparr>)"
    if "dk_positions d k = Some (rows, t)" "wall c - t < positions_stale_max_s" for k rows t x
    using assms(1,2) aged [OF that] by (auto simp: P_def good_inv_def cache_inv_def)
  have "P (list_user_positions e c uid symbol auth d)"
    using pi pc short(1) by (auto simp: list_user_positions_def Let_def split: option.split)
  then show ?thesis by (simp add: P_def)
qed

lemma history_inv:
  assumes "dk_positions d0 = (\<lambda>_. None)" and "dk_lastgood d0 = (\<lambda>_. None)"
  shows "good_inv hist (foldl listing_step d0 hist) \<and> cache_inv hist (foldl listing_step d0 hist)"
proof (induction hist rule: rev_induct)
  case Nil
  then show ?case using assms by (simp add: good_inv_def cache_inv_def)
next
  case (snoc l hist)
  let ?d = "foldl listing_step d0 hist" and ?h = "hist @ [l]"
  have g: "good_inv ?h ?d" "cache_inv ?h ?d" using snoc seen_mono [of hist _ _ ?h]
    by (auto simp: good_inv_def cache_inv_def) blast+
  show ?case
  proof (cases l)
    case (Listing e c uid symbol auth)
    with list_inv [OF g, of l e c uid symbol auth] show ?thesis by simp
  next
    case (Refresh e c uid symbol)
    with inner_inv [OF g, of l e c uid symbol False] show ?thesis
      by (simp add: refresh_positions_def good_inv_def cache_inv_def Let_def)
  qed
qed


section \<open>A concrete listing\<close>

definition sample_position :: held_position where
  "sample_position = \<lparr>hp_position_id = ''p1'', hp_wallet_id = 0, hp_exchange = ''binance'', hp_symbol = ''BTC'',
     hp_side = ''buy'', hp_quantity = Some 2, hp_entry_price = Some 100, hp_mark_price = Some 101,
     hp_unrealized_pnl_usd = Some 2, hp_mark_source = None, hp_mark_age_s = None, hp_mark_tick_ts = None\<rparr>"

definition answering :: trade_env where
  "answering = failing_proxy\<lparr>te_positions := (\<lambda>_ _. Rows_Ok [sample_position])\<rparr>"

definition quarter_hour_later :: clock where
  "quarter_hour_later = \<lparr>utcnow = days_us 100 + 900000000, monotonic = 1900\<rparr>"


theorem listing_after_order_is_live_witness:
  "fst (list_user_positions answering quarter_hour_later 1 [] False after_sample) =
     [sample_position\<lparr>hp_wallet_id := 2\<rparr>, sample_position\<lparr>hp_wallet_id := 4\<rparr>]"
proof -
  have p: "place_open_order failing_proxy sample_clock sample_request sample_desk = (Inr (sample_fill, 1), after_sample)"
    using sample_order_result by (metis prod.collapse)
  have "distinct (map w_id (wallets (tr_world (dk_trading after_sample))))" by code_simp
  moreover have "concat (map (live_rows answering quarter_hour_later [] False)
      (trade_wallets answering (tr_world (dk_trading after_sample)) 1)) =
    [sample_position\<lparr>hp_wallet_id := 2\<rparr>, sample_position\<lparr>hp_wallet_id := 4\<rparr>]" by code_simp
  ultimately show ?thesis
    using listing_after_order_is_live [OF p, of answering quarter_hour_later "[]"] by (simp add: sample_request_def)
qed

text \<open>
  An authoritative listing is cached like any other: when it finds a venue down, the next
  fifteen seconds' listings show the venue's positions as gone although the last good answer
  is at hand.
\<close>

theorem authoritative_hides_positions:
  "fst (list_user_positions failing_proxy quarter_hour_later 1 [] False
      (foldl listing_step sample_desk [Listing answering sample_clock 1 [] False, Listing failing_proxy quarter_hour_later 1 [] True])) = [] \<and>
   last_good sample_clock
      (foldl listing_step sample_desk [Listing answering sample_clock 1 [] False, Listing failing_proxy quarter_hour_later 1 [] True]) (1, 2, []) =
     [sample_position\<lparr>hp_wallet_id := 2\<rparr>]"
  by code_simp

end
