(* ===== verification/Live_Pairs.thy ===== *)
theory Live_Pairs
  imports Positions
begin

text \<open>
  Pairs of live positions, in \<^verbatim>\<open>backend/services/trade_service.py\<close>: the user's stored decisions
  which legs belong together, the grouping of listed positions in pairs and single legs, and
  the spot holdings that go with a short. Balance snapshots, the prices file and the cost
  basis venues report are arguments.
\<close>

section \<open>Decisions\<close>

record pair_decision =
  pd_id :: int
  pd_user_id :: int
  pd_leg_a_key :: string
  pd_leg_b_key :: string
  pd_decision :: string
  pd_created_at :: time
  pd_updated_at :: time

text \<open>\<open>s.split("|")\<close>, and its unpacking in three parts.\<close>

fun split_bar :: "string \<Rightarrow> string list" where
  "split_bar [] = [[]]"
| "split_bar (c # cs) =
     (if c = CHR ''|'' then [] # split_bar cs
      else case split_bar cs of x # xs \<Rightarrow> (c # x) # xs | [] \<Rightarrow> [[c]])"

definition three_parts :: "string \<Rightarrow> (string \<times> string \<times> string) option" where
  "three_parts s = (case split_bar s of [a, b, c] \<Rightarrow> Some (a, b, c) | _ \<Rightarrow> None)"

definition bar_key :: "string \<Rightarrow> string \<Rightarrow> string \<Rightarrow> string" where
  "bar_key a b c = a @ ''|'' @ b @ ''|'' @ c"

definition pair_legs_for :: "string \<Rightarrow> string \<Rightarrow> string \<Rightarrow> string \<times> string" where
  "pair_legs_for symbol long_ex short_ex =
     (let s = strip (upper symbol)
      in (bar_key s (strip (lower long_ex)) ''buy'', bar_key s (strip (lower short_ex)) ''sell''))"

definition spot_short_pair_decision_keys :: "string \<Rightarrow> int \<Rightarrow> string \<Rightarrow> int \<Rightarrow> string \<times> string" where
  "spot_short_pair_decision_keys symbol spot_wid short_ex short_wid =
     (bar_key symbol ''spot'' (int_str spot_wid), bar_key symbol short_ex (int_str short_wid))"

definition store_decision :: "clock \<Rightarrow> int \<Rightarrow> string \<times> string \<Rightarrow> string \<Rightarrow> pair_decision list \<Rightarrow> pair_decision list" where
  "store_decision c uid ks decision rows =
     (case find (\<lambda>r. pd_user_id r = uid \<and> pd_leg_a_key r = fst ks \<and> pd_leg_b_key r = snd ks) rows of
        Some r \<Rightarrow> row_upd pd_id (pd_id r) (\<lambda>x. x\<lparr>pd_decision := decision, pd_updated_at := utcnow c\<rparr>) rows
      | None \<Rightarrow> rows @ [\<lparr>pd_id = row_fresh pd_id rows, pd_user_id = uid, pd_leg_a_key = fst ks, pd_leg_b_key = snd ks,
          pd_decision = decision, pd_created_at = utcnow c, pd_updated_at = utcnow c\<rparr>])"

text \<open>Any other word than \<open>paired\<close> and \<open>unpaired\<close> is refused.\<close>

definition set_pair_decision ::
  "clock \<Rightarrow> int \<Rightarrow> string \<Rightarrow> string \<Rightarrow> string \<Rightarrow> string \<Rightarrow> pair_decision list \<Rightarrow> bool \<times> pair_decision list" where
  "set_pair_decision c uid symbol long_ex short_ex decision rows =
     (if decision \<notin> {''paired'', ''unpaired''} then (False, rows)
      else (True, store_decision c uid (pair_legs_for symbol long_ex short_ex) decision rows))"

definition set_spot_short_pair_decision ::
  "clock \<Rightarrow> int \<Rightarrow> string \<Rightarrow> int \<Rightarrow> string \<Rightarrow> int \<Rightarrow> string \<Rightarrow> pair_decision list \<Rightarrow> bool \<times> pair_decision list" where
  "set_spot_short_pair_decision c uid symbol spot_wid short_ex short_wid decision rows =
     (if decision \<notin> {''paired'', ''unpaired''} then (False, rows)
      else (True, store_decision c uid
        (spot_short_pair_decision_keys (upper symbol) spot_wid (lower short_ex) short_wid) decision rows))"

definition starts_with :: "string \<Rightarrow> string \<Rightarrow> bool" where
  "starts_with pat s = (take (length pat) s = pat)"

definition is_spot_key :: "string \<Rightarrow> bool" where
  "is_spot_key k \<longleftrightarrow> starts_with ''spot|'' k \<or> contains ''|spot|'' k"

text \<open>Symbol, long venue and short venue of the user's \<open>paired\<close> decisions on two perpetual legs.\<close>

definition decided_pair :: "pair_decision \<Rightarrow> (string \<times> string \<times> string) option" where
  "decided_pair r =
     (case (three_parts (pd_leg_a_key r), three_parts (pd_leg_b_key r)) of
        (Some (s, l, _), Some (_, sh, _)) \<Rightarrow> Some (s, l, sh) | _ \<Rightarrow> None)"

definition paired_rows :: "int \<Rightarrow> pair_decision list \<Rightarrow> (string \<times> string \<times> string) list" where
  "paired_rows uid rows = List.map_filter decided_pair
     (filter (\<lambda>r. pd_user_id r = uid \<and> pd_decision r = ''paired'' \<and> \<not> is_spot_key (pd_leg_a_key r)) rows)"

definition load_manual_pairs_for_user :: "int \<Rightarrow> pair_decision list \<Rightarrow> (string \<times> string \<times> string) list" where
  "load_manual_pairs_for_user uid rows = map (\<lambda>(s, l, sh). (upper s, lower l, lower sh)) (paired_rows uid rows)"

definition open_key :: "held_position list \<Rightarrow> string \<Rightarrow> string \<Rightarrow> string \<Rightarrow> bool" where
  "open_key live symbol ex sd = list_ex (\<lambda>p. upper (hp_symbol p) = symbol \<and> lower (hp_exchange p) = ex \<and>
     lower (hp_side p) = sd \<and> hp_symbol p \<noteq> [] \<and> hp_exchange p \<noteq> [] \<and> hp_side p \<noteq> [] \<and>
     0 < \<bar>or_else (hp_quantity p) 0\<bar>) live"

definition list_pair_decisions :: "int \<Rightarrow> held_position list option \<Rightarrow> pair_decision list \<Rightarrow> (string \<times> string \<times> string) list" where
  "list_pair_decisions uid live rows =
     (case live of
        None \<Rightarrow> paired_rows uid rows
      | Some ps \<Rightarrow> filter (\<lambda>(s, l, sh). open_key ps (upper s) (lower l) ''buy'' \<or> open_key ps (upper s) (lower sh) ''sell'')
          (paired_rows uid rows))"

section \<open>Grouping live positions\<close>

text \<open>A position with the key that marks it as used, and its notional value.\<close>

record tagged =
  tg_position :: held_position
  tg_key :: string
  tg_notional :: rat

record live_pair =
  lp_symbol :: string
  lp_long :: held_position
  lp_short :: held_position
  lp_manual :: bool
  lp_mark_stale :: bool

definition pair_notional_tolerance_pct :: rat where "pair_notional_tolerance_pct = 12"

definition tag :: "nat \<times> held_position \<Rightarrow> tagged" where
  "tag ip = (case ip of (i, p) \<Rightarrow> \<lparr>tg_position = p,
     tg_key = (if hp_position_id p = [] then lower (hp_exchange p) @ '':'' @ upper (hp_symbol p) @ '':'' @ nat_str i else hp_position_id p),
     tg_notional = \<bar>or_else (hp_quantity p) 0\<bar> * or_else (hp_mark_price p) 0\<rparr>)"

definition tag_all :: "held_position list \<Rightarrow> tagged list" where
  "tag_all ps = map tag (zip [0..<length ps] ps)"

definition tg_symbol :: "tagged \<Rightarrow> string" where "tg_symbol t = upper (hp_symbol (tg_position t))"
definition tg_side :: "tagged \<Rightarrow> string" where "tg_side t = lower (hp_side (tg_position t))"
definition tg_venue :: "tagged \<Rightarrow> string" where "tg_venue t = lower (hp_exchange (tg_position t))"

definition pair_of :: "string \<Rightarrow> bool \<Rightarrow> tagged \<times> tagged \<Rightarrow> live_pair" where
  "pair_of symbol manual ls = \<lparr>lp_symbol = symbol, lp_long = tg_position (fst ls), lp_short = tg_position (snd ls),
     lp_manual = manual, lp_mark_stale = pair_mark_stale (tg_position (fst ls)) (tg_position (snd ls))\<rparr>"

type_synonym grouping = "string list \<times> live_pair list"

definition take_pair :: "string \<Rightarrow> bool \<Rightarrow> tagged \<times> tagged \<Rightarrow> grouping \<Rightarrow> grouping" where
  "take_pair symbol manual ls g = (fst g @ [tg_key (fst ls), tg_key (snd ls)], snd g @ [pair_of symbol manual ls])"

definition free_leg :: "tagged list \<Rightarrow> string \<Rightarrow> string \<Rightarrow> string \<Rightarrow> string list \<Rightarrow> tagged option" where
  "free_leg ts symbol ex sd used =
     find (\<lambda>t. tg_symbol t = symbol \<and> tg_venue t = ex \<and> tg_side t = sd \<and> tg_key t \<notin> set used) ts"

definition manual_pair :: "tagged list \<Rightarrow> grouping \<Rightarrow> string \<times> string \<times> string \<Rightarrow> grouping" where
  "manual_pair ts g mp =
     (let (symbol, long_ex, short_ex) = mp in
      case (free_leg ts (upper symbol) (lower long_ex) ''buy'' (fst g), free_leg ts (upper symbol) (lower short_ex) ''sell'' (fst g)) of
        (Some l, Some s) \<Rightarrow> take_pair (upper symbol) True (l, s) g
      | _ \<Rightarrow> g)"

text \<open>How far two legs' difference in size is from their difference in entry price, both in per cent.\<close>

definition deviation :: "tagged \<times> tagged \<Rightarrow> rat" where
  "deviation ls =
     (let (l, s) = ls; m = max (tg_notional l) (tg_notional s);
          le = or_else (hp_entry_price (tg_position l)) 0; se = or_else (hp_entry_price (tg_position s)) 0;
          spread_pct = (if 0 < le \<and> 0 < se then \<bar>(se - le) / le\<bar> * 100 else 0);
          diff_pct = \<bar>tg_notional l - tg_notional s\<bar> / m * 100
      in \<bar>diff_pct - spread_pct\<bar>)"

definition pairable :: "tagged \<times> tagged \<Rightarrow> bool" where
  "pairable ls \<longleftrightarrow> 0 < max (tg_notional (fst ls)) (tg_notional (snd ls)) \<and> deviation ls \<le> pair_notional_tolerance_pct"

definition free_side :: "tagged list \<Rightarrow> string \<Rightarrow> string \<Rightarrow> string list \<Rightarrow> tagged list" where
  "free_side ts symbol sd used = filter (\<lambda>t. tg_symbol t = symbol \<and> tg_side t = sd \<and> tg_key t \<notin> set used) ts"

definition pair_candidates :: "tagged list \<Rightarrow> string \<Rightarrow> string list \<Rightarrow> (tagged \<times> tagged) list" where
  "pair_candidates ts symbol used = sort_key deviation (filter pairable
     (List.product (free_side ts symbol ''buy'' used) (free_side ts symbol ''sell'' used)))"

definition auto_pair :: "string \<Rightarrow> grouping \<Rightarrow> tagged \<times> tagged \<Rightarrow> grouping" where
  "auto_pair symbol g ls =
     (if tg_key (fst ls) \<in> set (fst g) \<or> tg_key (snd ls) \<in> set (fst g) then g else take_pair symbol False ls g)"

definition auto_symbol :: "tagged list \<Rightarrow> grouping \<Rightarrow> string \<Rightarrow> grouping" where
  "auto_symbol ts g symbol = foldl (auto_pair symbol) g (pair_candidates ts symbol (fst g))"

definition group_live_positions ::
  "held_position list \<Rightarrow> (string \<times> string \<times> string) list \<Rightarrow> live_pair list \<times> held_position list" where
  "group_live_positions positions manual =
     (let ts = tag_all positions; g1 = foldl (manual_pair ts) ([], []) manual;
          (used, pairs) = foldl (auto_symbol ts) g1 (first_seen (map tg_symbol ts))
      in (pairs, map tg_position (filter (\<lambda>t. tg_key t \<notin> set used) ts)))"

definition list_user_arb_pairs ::
  "trade_env \<Rightarrow> clock \<Rightarrow> int \<Rightarrow> string \<Rightarrow> pair_decision list \<Rightarrow> desk \<Rightarrow> (live_pair list \<times> held_position list) \<times> desk" where
  "list_user_arb_pairs e c uid symbol decisions d =
     (let (rows, d1) = list_user_positions e c uid symbol False d
      in (group_live_positions rows (load_manual_pairs_for_user uid decisions), d1))"

section \<open>Spot holdings and shorts\<close>

text \<open>A wallet's stored balances, one quantity per asset, and the time they were taken.\<close>

record balance_snapshot =
  bs_wallet_id :: int
  bs_user_id :: int
  bs_totals :: "(string \<times> rat) list"
  bs_snapshot_at :: "time option"

record spot_holding =
  sh_wallet_id :: int
  sh_exchange :: string
  sh_wallet_name :: string
  sh_asset :: string
  sh_qty :: rat
  sh_snapshot_at :: "time option"

definition spot_stable :: "string list" where
  "spot_stable = [''USDT'', ''USDC'', ''USD'', ''DAI'', ''FDUSD'', ''TUSD'', ''BUSD'']"

definition spot_notional_tolerance_pct :: rat where "spot_notional_tolerance_pct = 12"
definition spot_time_window :: time where "spot_time_window = seconds_us 600"
definition spot_refresh_stale :: time where "spot_refresh_stale = seconds_us 300"

definition held_in :: "wallet \<Rightarrow> balance_snapshot \<Rightarrow> spot_holding list" where
  "held_in w b = List.map_filter (\<lambda>(asset, qty).
     if asset = [] \<or> upper asset \<in> set spot_stable \<or> qty \<le> 0 then None
     else Some \<lparr>sh_wallet_id = w_id w, sh_exchange = w_type_value w, sh_wallet_name = w_name w, sh_asset = upper asset,
       sh_qty = qty, sh_snapshot_at = bs_snapshot_at b\<rparr>) (bs_totals b)"

definition list_user_spot_holdings :: "world \<Rightarrow> balance_snapshot list \<Rightarrow> int \<Rightarrow> spot_holding list" where
  "list_user_spot_holdings w snaps uid = concat (map (\<lambda>b. case row_get w_id (wallets w) (bs_wallet_id b) of
       None \<Rightarrow> []
     | Some x \<Rightarrow> if \<not> w_is_archived x \<and> w_wallet_type x \<in> {''exchange'', ''perpdex''} then held_in x b else [])
     (filter (\<lambda>b. bs_user_id b = uid) snaps))"

text \<open>The wallets whose balances are fetched again in the background, as no or an old snapshot exists.\<close>

definition stale_spot_wallets :: "clock \<Rightarrow> world \<Rightarrow> balance_snapshot list \<Rightarrow> int \<Rightarrow> wallet list" where
  "stale_spot_wallets c w snaps uid = filter (\<lambda>x. w_user_id x = Some uid \<and> \<not> w_is_archived x \<and>
     w_wallet_type x \<in> {''exchange'', ''perpdex''} \<and>
     (case find (\<lambda>b. bs_wallet_id b = w_id x \<and> bs_user_id b = uid) (rev snaps) of
        Some b \<Rightarrow> (case bs_snapshot_at b of Some t \<Rightarrow> t < utcnow c - spot_refresh_stale | None \<Rightarrow> True)
      | None \<Rightarrow> True)) (wallets w)"

text \<open>The first positive price of a symbol in the fetcher's file.\<close>

definition spot_price_lookup :: "funding_row list \<Rightarrow> string \<Rightarrow> rat option" where
  "spot_price_lookup rows symbol =
     (case find (\<lambda>r. upper (fr_symbol r) = symbol \<and> 0 < or_else (fr_price r) 0) rows of Some r \<Rightarrow> fr_price r | None \<Rightarrow> None)"

datatype match_reason = No_Spot_Price | Zero_Qty | Zero_Notional | Notional_Diff rat | Notional_Within rat "bool option"

text \<open>Whether a holding hedges a short: sizes at current prices, and the time only as a remark.\<close>

definition spot_short_can_pair :: "spot_holding \<Rightarrow> held_position \<Rightarrow> time option \<Rightarrow> rat \<Rightarrow> bool \<times> match_reason" where
  "spot_short_can_pair h p opened_at price =
     (let qty = or_else (hp_quantity p) 0; entry = or_else (hp_entry_price p) 0; mark = or_else (hp_mark_price p) 0;
          short_now = qty * (if 0 < mark then mark else entry); spot_now = sh_qty h * price; base = max short_now spot_now;
          diff_pct = \<bar>short_now - spot_now\<bar> / base * 100;
          time_match = (case (opened_at, sh_snapshot_at h) of (Some a, Some b) \<Rightarrow> Some (\<bar>b - a\<bar> \<le> spot_time_window) | _ \<Rightarrow> None)
      in if price \<le> 0 then (False, No_Spot_Price)
         else if qty \<le> 0 \<or> sh_qty h \<le> 0 then (False, Zero_Qty)
         else if base \<le> 0 then (False, Zero_Notional)
         else if spot_notional_tolerance_pct < diff_pct then (False, Notional_Diff diff_pct)
         else (True, Notional_Within diff_pct time_match))"

record spot_short_pair =
  ss_symbol :: string
  ss_spot :: spot_holding
  ss_qty_usd :: rat
  ss_avg_entry_price :: "rat option"
  ss_short :: held_position
  ss_auto_paired :: bool
  ss_decision :: string
  ss_match_reason :: match_reason
  ss_spot_price_estimate :: rat

definition decision_on :: "pair_decision list \<Rightarrow> int \<Rightarrow> string \<times> string \<Rightarrow> string option" where
  "decision_on rows uid ks = map_option pd_decision
     (find (\<lambda>r. pd_user_id r = uid \<and> (pd_leg_a_key r, pd_leg_b_key r) = ks) (rev rows))"

definition spot_short_offer ::
  "pair_decision list \<Rightarrow> int \<Rightarrow> (string \<times> int \<Rightarrow> time option) \<Rightarrow> (string \<Rightarrow> rat option) \<Rightarrow> (int \<Rightarrow> string \<Rightarrow> rat option) \<Rightarrow>
   held_position \<Rightarrow> spot_holding \<Rightarrow> spot_short_pair option" where
  "spot_short_offer decisions uid opened prices entries p h =
     (let symbol = upper (hp_symbol p);
          price = (if truthy (prices symbol) then the (prices symbol) else or_else (hp_entry_price p) 0);
          (ok, reason) = spot_short_can_pair h p (opened (symbol, hp_wallet_id p)) price;
          decision = decision_on decisions uid
            (spot_short_pair_decision_keys symbol (sh_wallet_id h) (lower (hp_exchange p)) (hp_wallet_id p))
      in if reason \<in> {No_Spot_Price, Zero_Qty, Zero_Notional} \<or> decision = Some ''unpaired'' then None
         else Some \<lparr>ss_symbol = symbol, ss_spot = h, ss_qty_usd = sh_qty h * price,
           ss_avg_entry_price = entries (sh_wallet_id h) symbol, ss_short = p,
           ss_auto_paired = (decision = Some ''paired'' \<or> decision = None \<and> ok),
           ss_decision = (case decision of Some x \<Rightarrow> x | None \<Rightarrow> if ok then ''auto'' else ''candidate''),
           ss_match_reason = reason, ss_spot_price_estimate = price\<rparr>)"

text \<open>When the user's open short legs were opened, by symbol and wallet; a later row replaces an earlier one.\<close>

definition short_opened_at :: "trading \<Rightarrow> int \<Rightarrow> string \<times> int \<Rightarrow> time option" where
  "short_opened_at tr uid k = map_option tp_opened_at
     (find (\<lambda>r. tp_user_id r = uid \<and> tp_kind r = Single_Leg \<and> tp_status r = ''open'' \<and> tp_leg_a_side r = ''sell'' \<and>
        truthy (tp_leg_a_wallet_id r) \<and> (upper (tp_symbol r), the (tp_leg_a_wallet_id r)) = k) (rev (tr_legs tr)))"

definition list_user_spot_short_pairs ::
  "trade_env \<Rightarrow> clock \<Rightarrow> int \<Rightarrow> balance_snapshot list \<Rightarrow> funding_row list \<Rightarrow> (int \<Rightarrow> string \<Rightarrow> rat option) \<Rightarrow>
   pair_decision list \<Rightarrow> desk \<Rightarrow> spot_short_pair list \<times> desk" where
  "list_user_spot_short_pairs e c uid snaps prices entries decisions d =
     (let (rows, d1) = list_user_positions e c uid [] False d; shorts = filter (\<lambda>p. lower (hp_side p) = ''sell'') rows;
          spots = list_user_spot_holdings (tr_world (dk_trading d)) snaps uid
      in (concat (map (\<lambda>p. List.map_filter
            (spot_short_offer decisions uid (short_opened_at (dk_trading d) uid) (spot_price_lookup prices) entries p)
            (filter (\<lambda>h. sh_asset h = upper (hp_symbol p)) spots)) shorts), d1))"

end
