(* ===== verification/Live_Pairs_Safety.thy ===== *)
theory Live_Pairs_Safety
  imports Live_Pairs Samples "HOL-Library.Multiset"
begin

text \<open>
  Grouping splits the listed positions without losing or doubling one, pairs only legs that
  belong together and leaves no two that do; and the stored decisions are a map from pairs to
  the user's last word.
\<close>

section \<open>Grouping\<close>

definition members :: "live_pair list \<Rightarrow> held_position list" where
  "members ps = concat (map (\<lambda>p. [lp_long p, lp_short p]) ps)"

lemma members_simps [simp]: "members [] = []" "members (xs @ ys) = members xs @ members ys"
  "members [p] = [lp_long p, lp_short p]"
  by (simp_all add: members_def)

text \<open>The legs of the pairs made so far, as tagged positions.\<close>

definition drawn :: "tagged list \<Rightarrow> grouping \<Rightarrow> tagged list \<Rightarrow> bool" where
  "drawn ts g ms \<longleftrightarrow> set ms \<subseteq> set ts \<and> map tg_key ms = fst g \<and> map tg_position ms = members (snd g) \<and> distinct (fst g)"

definition auto_sound :: "live_pair \<Rightarrow> bool" where
  "auto_sound p \<longleftrightarrow> lp_manual p \<or>
     upper (hp_symbol (lp_long p)) = lp_symbol p \<and> upper (hp_symbol (lp_short p)) = lp_symbol p \<and>
     lower (hp_side (lp_long p)) = ''buy'' \<and> lower (hp_side (lp_short p)) = ''sell'' \<and>
     pairable (tag (0, lp_long p), tag (0, lp_short p))"

lemma tag_simps [simp]: "tg_position (tag ip) = snd ip"
  "tg_notional (tag ip) = \<bar>or_else (hp_quantity (snd ip)) 0\<bar> * or_else (hp_mark_price (snd ip)) 0"
  by (simp_all add: tag_def split: prod.split)

lemma map_position_tag_all [simp]: "map tg_position (tag_all ps) = ps"
  by (simp add: tag_all_def comp_def)

lemma tag_all_notional: "t \<in> set (tag_all ps) \<Longrightarrow>
    tg_notional t = \<bar>or_else (hp_quantity (tg_position t)) 0\<bar> * or_else (hp_mark_price (tg_position t)) 0"
  by (auto simp: tag_all_def)

lemma pairable_tag:
  "l \<in> set (tag_all ps) \<Longrightarrow> s \<in> set (tag_all ps) \<Longrightarrow>
   pairable (tag (0, tg_position l), tag (0, tg_position s)) = pairable (l, s)"
proof -
  assume "l \<in> set (tag_all ps)" and "s \<in> set (tag_all ps)"
  then have n: "tg_notional (tag (0, tg_position l)) = tg_notional l" "tg_notional (tag (0, tg_position s)) = tg_notional s"
    using tag_all_notional [of l ps] tag_all_notional [of s ps] by simp_all
  have "deviation (tag (0, tg_position l), tag (0, tg_position s)) = deviation (l, s)"
    by (simp only: deviation_def Let_def prod.case n tag_simps(1) snd_conv)
  then show ?thesis by (simp only: pairable_def fst_conv snd_conv n)
qed

lemma drawn_take:
  assumes "drawn ts g ms" and "l \<in> set ts" and "s \<in> set ts" and "tg_key l \<notin> set (fst g)" and "tg_key s \<notin> set (fst g)"
    and "tg_key l \<noteq> tg_key s"
  shows "drawn ts (take_pair symbol manual (l, s) g) (ms @ [l, s])"
  using assms by (auto simp: drawn_def take_pair_def pair_of_def)

lemma same_key: "distinct (map tg_key ts) \<Longrightarrow> l \<in> set ts \<Longrightarrow> s \<in> set ts \<Longrightarrow> tg_key l = tg_key s \<Longrightarrow> l = s"
  by (metis distinct_map inj_onD)

lemma sides_differ:
  assumes "distinct (map tg_key ts)" and "l \<in> set ts" and "s \<in> set ts" and "tg_side l = ''buy''" and "tg_side s = ''sell''"
  shows "tg_key l \<noteq> tg_key s"
proof
  assume "tg_key l = tg_key s"
  with assms(1-3) have "l = s" by (rule same_key)
  with assms(4,5) show False by simp
qed

lemma free_legD: "free_leg ts symbol ex sd used = Some t \<Longrightarrow> t \<in> set ts \<and> tg_side t = sd \<and> tg_key t \<notin> set used"
  by (auto simp: free_leg_def find_Some_iff)

lemma manual_drawn:
  assumes "distinct (map tg_key ts)" and "drawn ts g ms" and "list_all auto_sound (snd g)"
  shows "(\<exists>ms'. drawn ts (manual_pair ts g mp) ms') \<and> list_all auto_sound (snd (manual_pair ts g mp))"
proof -
  obtain symbol long_ex short_ex where mp: "mp = (symbol, long_ex, short_ex)" by (cases mp)
  show ?thesis
  proof (cases "\<exists>l s. free_leg ts (upper symbol) (lower long_ex) ''buy'' (fst g) = Some l \<and>
      free_leg ts (upper symbol) (lower short_ex) ''sell'' (fst g) = Some s")
    case True
    then obtain l s where f: "free_leg ts (upper symbol) (lower long_ex) ''buy'' (fst g) = Some l"
      "free_leg ts (upper symbol) (lower short_ex) ''sell'' (fst g) = Some s" by blast
    note fd = free_legD [OF f(1)] free_legD [OF f(2)]
    have "drawn ts (take_pair (upper symbol) True (l, s) g) (ms @ [l, s])"
      using fd sides_differ [OF assms(1), of l s] by (intro drawn_take assms(2)) auto
    then show ?thesis using f assms(3)
      by (auto simp: manual_pair_def mp take_pair_def auto_sound_def pair_of_def)
  next
    case False
    then have "manual_pair ts g mp = g" by (auto simp: manual_pair_def mp split: option.split)
    then show ?thesis using assms(2,3) by auto
  qed
qed

lemma auto_drawn:
  assumes "ts = tag_all ps" and "distinct (map tg_key ts)" and "drawn ts g ms" and "list_all auto_sound (snd g)"
    and "set cs \<subseteq> set (filter pairable (List.product (free_side ts symbol ''buy'' u) (free_side ts symbol ''sell'' u)))"
  shows "(\<exists>ms'. drawn ts (foldl (auto_pair symbol) g cs) ms') \<and> list_all auto_sound (snd (foldl (auto_pair symbol) g cs))"
  using assms(3-5)
proof (induction cs arbitrary: g ms)
  case (Cons ls cs)
  obtain l s where ls: "ls = (l, s)" by (cases ls)
  have m: "l \<in> set ts" "s \<in> set ts" "tg_side l = ''buy''" "tg_side s = ''sell''" "pairable (l, s)"
      "tg_symbol l = symbol" "tg_symbol s = symbol"
    using Cons.prems(3) by (auto simp: ls free_side_def)
  show ?case
  proof (cases "tg_key l \<in> set (fst g) \<or> tg_key s \<in> set (fst g)")
    case True
    then show ?thesis using Cons.IH [OF Cons.prems(1,2)] Cons.prems(3) by (auto simp: auto_pair_def ls)
  next
    case False
    have d: "drawn ts (take_pair symbol False (l, s) g) (ms @ [l, s])"
      using False m sides_differ [OF assms(2), of l s] by (intro drawn_take Cons.prems(1)) auto
    have "auto_sound (pair_of symbol False (l, s))" using m pairable_tag [of l ps s] assms(1)
      by (simp add: auto_sound_def pair_of_def tg_symbol_def tg_side_def)
    then have "list_all auto_sound (snd (take_pair symbol False (l, s) g))" using Cons.prems(2) by (simp add: take_pair_def)
    from Cons.IH [OF d this] Cons.prems(3) False show ?thesis by (auto simp: auto_pair_def ls)
  qed
qed auto

lemma groups_drawn:
  assumes "distinct (map tg_key (tag_all ps))"
    and "g = foldl (auto_symbol (tag_all ps)) (foldl (manual_pair (tag_all ps)) ([], []) manual) symbols"
  shows "(\<exists>ms. drawn (tag_all ps) g ms) \<and> list_all auto_sound (snd g)"
proof -
  let ?ts = "tag_all ps"
  have 1: "(\<exists>ms. drawn ?ts (foldl (manual_pair ?ts) ([], []) manual) ms) \<and>
      list_all auto_sound (snd (foldl (manual_pair ?ts) ([], []) manual))"
  proof (induction manual rule: rev_induct)
    case Nil
    have "drawn ?ts ([], []) []" by (simp add: drawn_def)
    then show ?case by auto
  next
    case (snoc mp manual)
    then obtain ms where "drawn ?ts (foldl (manual_pair ?ts) ([], []) manual) ms"
      "list_all auto_sound (snd (foldl (manual_pair ?ts) ([], []) manual))" by blast
    from manual_drawn [OF assms(1) this, of mp] show ?case by simp
  qed
  have "(\<exists>ms. drawn ?ts (foldl (auto_symbol ?ts) g0 symbols) ms) \<and> list_all auto_sound (snd (foldl (auto_symbol ?ts) g0 symbols))"
    if "(\<exists>ms. drawn ?ts g0 ms) \<and> list_all auto_sound (snd g0)" for g0
    using that
  proof (induction symbols rule: rev_induct)
    case (snoc symbol symbols)
    let ?g = "foldl (auto_symbol ?ts) g0 symbols"
    from snoc obtain ms where "drawn ?ts ?g ms" "list_all auto_sound (snd ?g)" by blast
    from auto_drawn [OF refl assms(1) this, of "pair_candidates ?ts symbol (fst ?g)" symbol "fst ?g"]
    have "(\<exists>ms. drawn ?ts (auto_symbol ?ts ?g symbol) ms) \<and> list_all auto_sound (snd (auto_symbol ?ts ?g symbol))"
      by (simp add: auto_symbol_def pair_candidates_def)
    then show ?case by simp
  qed simp
  from this [OF 1] show ?thesis by (simp add: assms(2))
qed


lemma auto_used_mono: "set (fst g) \<subseteq> set (fst (foldl (auto_pair symbol) g cs))"
proof (induction cs arbitrary: g)
  case (Cons ls cs)
  have "set (fst g) \<subseteq> set (fst (auto_pair symbol g ls))" by (auto simp: auto_pair_def take_pair_def)
  also have "\<dots> \<subseteq> set (fst (foldl (auto_pair symbol) (auto_pair symbol g ls) cs))" by (rule Cons.IH)
  finally show ?case by simp
qed simp

lemma auto_used: "ls \<in> set cs \<Longrightarrow>
  tg_key (fst ls) \<in> set (fst (foldl (auto_pair symbol) g cs)) \<or> tg_key (snd ls) \<in> set (fst (foldl (auto_pair symbol) g cs))"
proof (induction cs arbitrary: g)
  case (Cons x cs)
  show ?case
  proof (cases "ls = x")
    case True
    have "tg_key (fst x) \<in> set (fst (auto_pair symbol g x)) \<or> tg_key (snd x) \<in> set (fst (auto_pair symbol g x))"
      by (auto simp: auto_pair_def take_pair_def)
    then show ?thesis using auto_used_mono [of "auto_pair symbol g x" symbol cs] True by auto
  next
    case False
    then show ?thesis using Cons by simp
  qed
qed simp

text \<open>Two legs that could be paired with neither of them used.\<close>

definition left_over :: "tagged list \<Rightarrow> grouping \<Rightarrow> tagged \<Rightarrow> tagged \<Rightarrow> bool" where
  "left_over ts g l s \<longleftrightarrow> l \<in> set ts \<and> s \<in> set ts \<and> tg_symbol l = tg_symbol s \<and> tg_side l = ''buy'' \<and> tg_side s = ''sell'' \<and>
     pairable (l, s) \<and> tg_key l \<notin> set (fst g) \<and> tg_key s \<notin> set (fst g)"

lemma auto_symbol_mono: "set (fst g) \<subseteq> set (fst (auto_symbol ts g symbol))"
  by (simp add: auto_symbol_def auto_used_mono)

lemma auto_symbol_done: "tg_symbol l = symbol \<Longrightarrow> \<not> left_over ts (auto_symbol ts g symbol) l s"
proof
  assume sy: "tg_symbol l = symbol" and lo: "left_over ts (auto_symbol ts g symbol) l s"
  have "tg_key l \<notin> set (fst g)" "tg_key s \<notin> set (fst g)" using lo auto_symbol_mono [of g ts symbol] by (auto simp: left_over_def)
  then have "(l, s) \<in> set (pair_candidates ts symbol (fst g))" using lo sy by (simp add: left_over_def pair_candidates_def free_side_def)
  from auto_used [OF this, of symbol g] lo show False by (simp add: left_over_def auto_symbol_def)
qed

lemma auto_all_done: "tg_symbol l \<in> set symbols \<Longrightarrow> \<not> left_over ts (foldl (auto_symbol ts) g symbols) l s"
proof (induction symbols rule: rev_induct)
  case (snoc symbol symbols)
  show ?case
  proof (cases "tg_symbol l = symbol")
    case True
    then show ?thesis by (simp add: auto_symbol_done)
  next
    case False
    then have "\<not> left_over ts (foldl (auto_symbol ts) g symbols) l s" using snoc by simp
    then show ?thesis using auto_symbol_mono [of "foldl (auto_symbol ts) g symbols" ts symbol] by (auto simp: left_over_def)
  qed
qed simp

text \<open>
  Pairs belong together and none is missed. Every pair the program found by itself is a
  long and a short leg of one symbol whose difference in size is within twelve points of their
  difference in entry price; and of the single legs left over no two are such a pair.
\<close>

theorem groups_sound_and_maximal:
  assumes "distinct (map tg_key (tag_all positions))" and "group_live_positions positions manual = (pairs, singles)"
  shows "(\<forall>p \<in> set pairs. auto_sound p) \<and>
    (\<forall>p \<in> set singles. \<forall>q \<in> set singles. upper (hp_symbol p) = upper (hp_symbol q) \<longrightarrow>
       lower (hp_side p) = ''buy'' \<longrightarrow> lower (hp_side q) = ''sell'' \<longrightarrow> \<not> pairable (tag (0, p), tag (0, q)))"
proof -
  let ?ts = "tag_all positions"
  define g where "g = foldl (auto_symbol ?ts) (foldl (manual_pair ?ts) ([], []) manual) (first_seen (map tg_symbol ?ts))"
  have p: "pairs = snd g" and s: "singles = map tg_position (filter (\<lambda>t. tg_key t \<notin> set (fst g)) ?ts)"
    using assms(2) by (auto simp: group_live_positions_def g_def Let_def case_prod_beta)
  have exhausted: "\<not> left_over ?ts g l x" if "l \<in> set ?ts" for l x
    using auto_all_done [of l "first_seen (map tg_symbol ?ts)" ?ts _ x] that by (simp add: g_def)
  have "\<not> pairable (tag (0, a), tag (0, b))"
    if ab: "a \<in> set singles" "b \<in> set singles" "upper (hp_symbol a) = upper (hp_symbol b)" "lower (hp_side a) = ''buy''"
      "lower (hp_side b) = ''sell''" for a b
  proof
    assume pa: "pairable (tag (0, a), tag (0, b))"
    obtain l where l: "l \<in> set ?ts" "tg_key l \<notin> set (fst g)" "a = tg_position l" using ab(1) s by auto
    obtain x where x: "x \<in> set ?ts" "tg_key x \<notin> set (fst g)" "b = tg_position x" using ab(2) s by auto
    have "left_over ?ts g l x" using l x ab(3-5) pa pairable_tag [OF l(1) x(1)]
      by (simp add: left_over_def tg_symbol_def tg_side_def)
    with exhausted [OF l(1)] show False by blast
  qed
  moreover have "list_all auto_sound (snd g)" using groups_drawn [OF assms(1) g_def] by blast
  ultimately show ?thesis by (auto simp: p list_all_iff)
qed

section \<open>Concrete positions\<close>

definition sample_held :: "string \<Rightarrow> string \<Rightarrow> string \<Rightarrow> string \<Rightarrow> rat \<Rightarrow> held_position" where
  "sample_held i ex symbol sd qty = \<lparr>hp_position_id = i, hp_wallet_id = 1, hp_exchange = ex, hp_symbol = symbol,
     hp_side = sd, hp_quantity = Some qty, hp_entry_price = Some 100, hp_mark_price = Some 100,
     hp_unrealized_pnl_usd = None, hp_mark_source = None, hp_mark_age_s = None, hp_mark_tick_ts = None\<rparr>"

definition sample_book_positions :: "held_position list" where
  "sample_book_positions = [sample_held ''a'' ''bybit'' ''BTC'' ''buy'' 10, sample_held ''b'' ''okx'' ''BTC'' ''sell'' 10,
     sample_held ''c'' ''gate'' ''BTC'' ''sell'' 5]"

lemma sample_grouping:
  "group_live_positions sample_book_positions [] =
    ([\<lparr>lp_symbol = ''BTC'', lp_long = sample_held ''a'' ''bybit'' ''BTC'' ''buy'' 10, lp_short = sample_held ''b'' ''okx'' ''BTC'' ''sell'' 10,
       lp_manual = False, lp_mark_stale = False\<rparr>], [sample_held ''c'' ''gate'' ''BTC'' ''sell'' 5])"
  by code_simp

lemma sample_keys: "distinct (map tg_key (tag_all sample_book_positions))"
  by code_simp


theorem groups_sound_and_maximal_witness:
  "pairable (tag (0, sample_held ''a'' ''bybit'' ''BTC'' ''buy'' 10), tag (0, sample_held ''b'' ''okx'' ''BTC'' ''sell'' 10))"
  using groups_sound_and_maximal [OF sample_keys sample_grouping] by (simp add: auto_sound_def)

text \<open>Two venues may give positions the same id; the second one then disappears with the first's pair.\<close>

theorem same_id_hides_position:
  "snd (group_live_positions [sample_held ''7'' ''bybit'' ''BTC'' ''buy'' 10, sample_held ''8'' ''okx'' ''BTC'' ''sell'' 10,
     sample_held ''7'' ''gate'' ''ETH'' ''buy'' 3] []) = []"
  by code_simp

section \<open>Decisions\<close>

definition no_bar :: "string \<Rightarrow> bool" where
  "no_bar s \<longleftrightarrow> CHR ''|'' \<notin> set s"

lemma split_bar_not_Nil [simp]: "split_bar s \<noteq> []"
  by (induction s) (auto split: list.split)

lemma split_bar_single: "no_bar s \<Longrightarrow> split_bar s = [s]"
  by (induction s) (auto simp: no_bar_def)

lemma split_bar_append: "split_bar (a @ CHR ''|'' # b) = split_bar a @ split_bar b"
  by (induction a) (auto split: list.split simp: Cons_eq_append_conv)

lemma split_bar_key: "no_bar a \<Longrightarrow> no_bar b \<Longrightarrow> no_bar c \<Longrightarrow> split_bar (bar_key a b c) = [a, b, c]"
  using split_bar_append [of a "b @ ''|'' @ c"] split_bar_append [of b c] by (simp add: bar_key_def split_bar_single)

lemma three_parts_key: "no_bar a \<Longrightarrow> no_bar b \<Longrightarrow> no_bar c \<Longrightarrow> three_parts (bar_key a b c) = Some (a, b, c)"
  by (simp add: three_parts_def split_bar_key)

lemma contains_iff: "contains pat s \<longleftrightarrow> (\<exists>us vs. s = us @ pat @ vs)"
proof
  show "contains pat s \<Longrightarrow> \<exists>us vs. s = us @ pat @ vs"
  proof (induction s)
    case (Cons c cs)
    then consider "take (length pat) (c # cs) = pat" | "contains pat cs" by auto
    then show ?case
    proof cases
      case 1
      then have "c # cs = [] @ pat @ drop (length pat) (c # cs)" by (metis append_Nil append_take_drop_id)
      then show ?thesis by blast
    next
      case 2
      with Cons.IH obtain us vs where "cs = us @ pat @ vs" by blast
      then have "c # cs = (c # us) @ pat @ vs" by simp
      then show ?thesis by blast
    qed
  qed simp
next
  assume "\<exists>us vs. s = us @ pat @ vs"
  then obtain us vs where "s = us @ pat @ vs" by blast
  then show "contains pat s"
  proof (induction us arbitrary: s)
    case Nil
    then have "take (length pat) s = pat" by simp
    then show ?case by (cases s) auto
  qed auto
qed

lemma spot_key_middle: "split_bar k = [a, b, c] \<Longrightarrow> contains ''|spot|'' k \<Longrightarrow> b = ''spot''"
proof -
  assume k: "split_bar k = [a, b, c]" and "contains ''|spot|'' k"
  then obtain us vs where "k = us @ CHR ''|'' # (''spot'' @ CHR ''|'' # vs)" by (auto simp: contains_iff)
  then have "split_bar k = split_bar us @ [''spot''] @ split_bar vs"
    by (simp only: split_bar_append) (simp add: split_bar_single no_bar_def)
  with k show "b = ''spot''"
    by (cases "split_bar us"; cases "split_bar vs") (auto simp: append_eq_Cons_conv Cons_eq_append_conv)
qed

text \<open>A cleaned triple: symbol in upper, venues in lower case, no bars, and no venue called \<open>spot\<close>.\<close>

definition clean :: "string \<times> string \<times> string \<Rightarrow> bool" where
  "clean t = (case t of (s, l, sh) \<Rightarrow> no_bar s \<and> no_bar l \<and> no_bar sh \<and> upper s = s \<and> lower l = l \<and> lower sh = sh \<and> l \<noteq> ''spot'')"

definition long_key :: "string \<times> string \<times> string \<Rightarrow> string" where "long_key t = (case t of (s, l, sh) \<Rightarrow> bar_key s l ''buy'')"
definition short_key :: "string \<times> string \<times> string \<Rightarrow> string" where "short_key t = (case t of (s, l, sh) \<Rightarrow> bar_key s sh ''sell'')"

lemma no_bar_words [simp]: "no_bar ''buy''" "no_bar ''sell''" "no_bar ''spot''"
  by (simp_all add: no_bar_def)

lemma upper_char_not_s: "upper_char x \<noteq> CHR ''s''"
proof
  assume "upper_char x = CHR ''s''"
  then have "upper_char (CHR ''s'') = CHR ''s''" using upper_char_idem [of x] by simp
  moreover have "upper_char (CHR ''s'') = CHR ''S''" by code_simp
  ultimately show False by simp
qed

lemma key_not_spot: "clean t \<Longrightarrow> \<not> is_spot_key (long_key t)"
proof -
  assume t: "clean t"
  obtain s l sh where t': "t = (s, l, sh)" by (cases t)
  have sp: "split_bar (long_key t) = [s, l, ''buy'']" using t by (simp add: t' long_key_def clean_def split_bar_key)
  then have "\<not> contains ''|spot|'' (long_key t)" using t spot_key_middle by (fastforce simp: t' clean_def)
  moreover have "\<not> starts_with ''spot|'' (long_key t)"
  proof
    assume "starts_with ''spot|'' (long_key t)"
    then have "take 5 (long_key t) = ''spot|''" by (simp add: starts_with_def numeral_eq_Suc)
    then have "long_key t = ''spot'' @ CHR ''|'' # drop 5 (long_key t)"
      using append_take_drop_id [of 5 "long_key t"] by simp
    then have "split_bar (long_key t) = ''spot'' # split_bar (drop 5 (long_key t))"
      using split_bar_append [of "''spot''" "drop 5 (long_key t)"] by (simp add: split_bar_single no_bar_def)
    then have "s = ''spot''" using sp by simp
    moreover have "upper s = s" using t by (simp add: t' clean_def)
    ultimately have "upper_char (CHR ''s'') = CHR ''s''" by (simp add: upper_def)
    with upper_char_not_s show False by blast
  qed
  ultimately show ?thesis by (simp add: is_spot_key_def)
qed

lemma decided_clean: "clean t \<Longrightarrow> pd_leg_a_key r = long_key t \<Longrightarrow> pd_leg_b_key r = short_key t \<Longrightarrow> decided_pair r = Some t"
  by (cases t) (simp add: decided_pair_def long_key_def short_key_def three_parts_key clean_def)

lemma keys_inj: "clean t \<Longrightarrow> clean u \<Longrightarrow> long_key t = long_key u \<Longrightarrow> short_key t = short_key u \<Longrightarrow> t = u"
  using decided_clean [of t] decided_clean [of u]
  by (metis option.inject pair_decision.select_convs(3,4))

text \<open>Requests to store decisions, and what they mean: a map from user and pair to the last word.\<close>

datatype decision_op =
    Decide clock int string string string string
  | Decide_Spot clock int string int string int string

fun decide :: "pair_decision list \<Rightarrow> decision_op \<Rightarrow> pair_decision list" where
  "decide rows (Decide c uid symbol l sh word) = snd (set_pair_decision c uid symbol l sh word rows)"
| "decide rows (Decide_Spot c uid symbol sw sh w word) = snd (set_spot_short_pair_decision c uid symbol sw sh w word rows)"

definition cleaned :: "string \<Rightarrow> string \<Rightarrow> string \<Rightarrow> string \<times> string \<times> string" where
  "cleaned symbol l sh = (strip (upper symbol), strip (lower l), strip (lower sh))"

fun last_word :: "(int \<times> string \<times> string \<times> string \<Rightarrow> string option) \<Rightarrow> decision_op \<Rightarrow> (int \<times> string \<times> string \<times> string \<Rightarrow> string option)" where
  "last_word m (Decide c uid symbol l sh word) =
     (if word \<in> {''paired'', ''unpaired''} then m((uid, cleaned symbol l sh) \<mapsto> word) else m)"
| "last_word m (Decide_Spot c uid symbol sw sh w word) = m"

text \<open>A request names venues and symbols without bars, and no venue called \<open>spot\<close>.\<close>

fun plain_op :: "decision_op \<Rightarrow> bool" where
  "plain_op (Decide c uid symbol l sh word) \<longleftrightarrow> no_bar symbol \<and> no_bar l \<and> no_bar sh \<and> strip (lower l) \<noteq> ''spot''"
| "plain_op (Decide_Spot c uid symbol sw sh w word) \<longleftrightarrow> True"

definition ukeys :: "pair_decision \<Rightarrow> int \<times> string \<times> string" where
  "ukeys r = (pd_user_id r, pd_leg_a_key r, pd_leg_b_key r)"

definition word_of :: "(int \<times> string \<times> string) \<Rightarrow> pair_decision list \<Rightarrow> string option" where
  "word_of k rows = map_option pd_decision (find (\<lambda>r. ukeys r = k) rows)"

definition decisions_inv :: "pair_decision list \<Rightarrow> bool" where
  "decisions_inv rows \<longleftrightarrow> distinct (map pd_id rows) \<and> distinct (map ukeys rows) \<and>
     (\<forall>r \<in> set rows. is_spot_key (pd_leg_a_key r) \<or>
        (\<exists>t. clean t \<and> pd_leg_a_key r = long_key t \<and> pd_leg_b_key r = short_key t))"

lemma find_map: "(\<And>x. P (f x) = P x) \<Longrightarrow> find P (map f xs) = map_option f (find P xs)"
  by (induction xs) auto

lemma of_lower_char: "(of_char (lower_char x) :: nat) =
    (if 65 \<le> (of_char x :: nat) \<and> (of_char x :: nat) \<le> 90 then of_char x + 32 else of_char x)"
  by (simp add: lower_char_def Let_def)

lemma of_upper_char: "(of_char (upper_char x) :: nat) =
    (if 97 \<le> (of_char x :: nat) \<and> (of_char x :: nat) \<le> 122 then of_char x - 32 else of_char x)"
  by (auto simp: upper_char_def Let_def intro!: mod_less)

lemma is_bar: "x = CHR ''|'' \<longleftrightarrow> (of_char x :: nat) = 124"
proof -
  have "(of_char (CHR ''|'') :: nat) = 124" by simp
  then show ?thesis by (metis of_char_eq_iff)
qed

lemma lower_char_bar: "lower_char x = CHR ''|'' \<longleftrightarrow> x = CHR ''|''"
proof -
  have "lower_char x = CHR ''|'' \<longleftrightarrow> (of_char (lower_char x) :: nat) = 124" by (rule is_bar)
  also have "\<dots> \<longleftrightarrow> (of_char x :: nat) = 124" by (subst of_lower_char) auto
  also have "\<dots> \<longleftrightarrow> x = CHR ''|''" by (rule is_bar [symmetric])
  finally show ?thesis .
qed

lemma upper_char_bar: "upper_char x = CHR ''|'' \<longleftrightarrow> x = CHR ''|''"
proof -
  have "upper_char x = CHR ''|'' \<longleftrightarrow> (of_char (upper_char x) :: nat) = 124" by (rule is_bar)
  also have "\<dots> \<longleftrightarrow> (of_char x :: nat) = 124" by (subst of_upper_char) auto
  also have "\<dots> \<longleftrightarrow> x = CHR ''|''" by (rule is_bar [symmetric])
  finally show ?thesis .
qed

lemma no_bar_alt: "no_bar s \<longleftrightarrow> (\<forall>x \<in> set s. x \<noteq> CHR ''|'')"
  by (metis no_bar_def)

lemma no_bar_cased [simp]: "no_bar (lower s) = no_bar s" "no_bar (upper s) = no_bar s"
  by (simp_all only: no_bar_alt lower_def upper_def set_map ball_simps lower_char_bar upper_char_bar)

lemma no_bar_strip: "no_bar s \<Longrightarrow> no_bar (strip s)"
  using set_strip [of s] by (auto simp: no_bar_def)

lemma upper_stripped: "upper (strip (upper s)) = strip (upper s)"
proof -
  have "\<forall>c \<in> set (strip (upper s)). upper_char c = c" using set_strip [of "upper s"] by (auto simp: upper_def)
  then show ?thesis by (simp add: upper_def map_idI)
qed

lemma lower_stripped: "lower (strip (lower s)) = strip (lower s)"
proof -
  have "\<forall>c \<in> set (strip (lower s)). lower_char c = c" using set_strip [of "lower s"] by (auto simp: lower_def)
  then show ?thesis by (simp add: lower_def map_idI)
qed

lemma clean_cleaned: "no_bar symbol \<Longrightarrow> no_bar l \<Longrightarrow> no_bar sh \<Longrightarrow> strip (lower l) \<noteq> ''spot'' \<Longrightarrow> clean (cleaned symbol l sh)"
  by (simp add: clean_def cleaned_def no_bar_strip upper_stripped lower_stripped)

lemma pair_legs_cleaned: "pair_legs_for symbol l sh = (long_key (cleaned symbol l sh), short_key (cleaned symbol l sh))"
  by (simp add: pair_legs_for_def cleaned_def long_key_def short_key_def Let_def)

text \<open>Storing a decision changes one entry of the map.\<close>

lemma find_ukeys: "find (\<lambda>r. pd_user_id r = uid \<and> pd_leg_a_key r = fst ks \<and> pd_leg_b_key r = snd ks) rows =
    find (\<lambda>r. ukeys r = (uid, ks)) rows"
  by (rule arg_cong [of _ _ "\<lambda>P. find P rows"]) (auto simp: ukeys_def)

lemma row_eq_id: "distinct (map pd_id rows) \<Longrightarrow> a \<in> set rows \<Longrightarrow> b \<in> set rows \<Longrightarrow> pd_id a = pd_id b \<Longrightarrow> a = b"
  by (metis distinct_map inj_onD)

lemma find_in: "find P xs = Some x \<Longrightarrow> x \<in> set xs \<and> P x"
  by (auto simp: find_Some_iff)

lemma word_of_store:
  assumes "distinct (map pd_id rows)"
  shows "word_of k (store_decision c uid ks word rows) = (if k = (uid, ks) then Some word else word_of k rows)"
proof (cases "find (\<lambda>r. ukeys r = (uid, ks)) rows")
  case None
  then show ?thesis
    by (auto simp: store_decision_def find_ukeys word_of_def find_append ukeys_def split: option.split)
next
  case (Some r)
  let ?f = "\<lambda>x. if pd_id x = pd_id r then x\<lparr>pd_decision := word, pd_updated_at := utcnow c\<rparr> else x"
  have r: "r \<in> set rows" "ukeys r = (uid, ks)" using find_in [OF Some] by auto
  have st: "store_decision c uid ks word rows = map ?f rows" using Some by (simp add: store_decision_def find_ukeys row_upd_def)
  have "find (\<lambda>x. ukeys x = k) (map ?f rows) = map_option ?f (find (\<lambda>x. ukeys x = k) rows)"
    by (rule find_map) (simp add: ukeys_def)
  moreover have "pd_id x \<noteq> pd_id r" if "find (\<lambda>x. ukeys x = k) rows = Some x" "k \<noteq> (uid, ks)" for x
    using find_in [OF that(1)] row_eq_id [OF assms _ r(1)] r(2) that(2) by metis
  ultimately show ?thesis using Some by (cases "find (\<lambda>x. ukeys x = k) rows") (auto simp: word_of_def st)
qed

lemma store_inv:
  assumes "decisions_inv rows"
    and "is_spot_key (fst ks) \<or> (\<exists>t. clean t \<and> fst ks = long_key t \<and> snd ks = short_key t)"
  shows "decisions_inv (store_decision c uid ks word rows)"
proof (cases "find (\<lambda>r. ukeys r = (uid, ks)) rows")
  case None
  then have "(uid, ks) \<notin> ukeys ` set rows" by (auto simp: find_None_iff)
  then show ?thesis using assms None row_fresh_notin [of pd_id rows]
    by (auto simp: decisions_inv_def store_decision_def find_ukeys ukeys_def)
next
  case (Some r)
  let ?f = "\<lambda>x. x\<lparr>pd_decision := word, pd_updated_at := utcnow c\<rparr>"
  have st: "store_decision c uid ks word rows = row_upd pd_id (pd_id r) ?f rows"
    using Some by (simp add: store_decision_def find_ukeys)
  have "map pd_id (row_upd pd_id (pd_id r) ?f rows) = map pd_id rows" by (rule row_upd_keys) simp
  moreover have "map ukeys (row_upd pd_id (pd_id r) ?f rows) = map ukeys rows" by (rule row_upd_map) (simp add: ukeys_def)
  moreover have "\<exists>y \<in> set rows. pd_leg_a_key x = pd_leg_a_key y \<and> pd_leg_b_key x = pd_leg_b_key y"
    if "x \<in> set (row_upd pd_id (pd_id r) ?f rows)" for x using set_row_upd [OF that] by auto
  ultimately show ?thesis using assms(1) unfolding st decisions_inv_def by metis
qed

lemma contains_append: "contains pat (us @ pat @ vs)"
  by (auto simp: contains_iff)

lemma spot_key_spot: "is_spot_key (bar_key a ''spot'' c)"
  using contains_append [of "''|spot|''" a c] by (simp add: is_spot_key_def bar_key_def)

text \<open>The rows agree with the map on clean triples.\<close>

definition refines :: "pair_decision list \<Rightarrow> (int \<times> string \<times> string \<times> string \<Rightarrow> string option) \<Rightarrow> bool" where
  "refines rows m \<longleftrightarrow> (\<forall>uid t. clean t \<longrightarrow> word_of (uid, long_key t, short_key t) rows = m (uid, t))"

lemma decide_refines:
  assumes "decisions_inv rows" and "refines rows m" and "plain_op x"
  shows "decisions_inv (decide rows x) \<and> refines (decide rows x) (last_word m x)"
proof (cases x)
  case (Decide c uid symbol l sh word)
  let ?t = "cleaned symbol l sh"
  have t: "clean ?t" using assms(3) by (simp add: Decide clean_cleaned)
  show ?thesis
  proof (cases "word \<in> {''paired'', ''unpaired''}")
    case True
    have d: "decide rows x = store_decision c uid (long_key ?t, short_key ?t) word rows"
      using True by (auto simp: Decide set_pair_decision_def pair_legs_cleaned)
    have "decisions_inv (decide rows x)" unfolding d
      by (intro store_inv [OF assms(1)] disjI2 exI [of _ ?t]) (simp add: t)
    moreover have "word_of (u, long_key s, short_key s) (decide rows x) = last_word m x (u, s)" if "clean s" for u s
    proof -
      have m: "word_of (u, long_key s, short_key s) rows = m (u, s)" using assms(2) that unfolding refines_def by blast
      have "distinct (map pd_id rows)" using assms(1) by (simp add: decisions_inv_def)
      then have "word_of (u, long_key s, short_key s) (decide rows x) =
          (if (u, long_key s, short_key s) = (uid, long_key ?t, short_key ?t) then Some word else m (u, s))"
        using m by (simp add: d word_of_store)
      moreover have "(u, long_key s, short_key s) = (uid, long_key ?t, short_key ?t) \<longleftrightarrow> (u, s) = (uid, ?t)"
        using keys_inj [OF that t] by auto
      moreover have "last_word m x (u, s) = (if (u, s) = (uid, ?t) then Some word else m (u, s))"
        using True by (simp add: Decide)
      ultimately show ?thesis by presburger
    qed
    ultimately show ?thesis by (simp add: refines_def)
  next
    case False
    then show ?thesis using assms(1,2) by (simp add: Decide set_pair_decision_def)
  qed
next
  case (Decide_Spot c uid symbol sw sh w word)
  show ?thesis
  proof (cases "word \<in> {''paired'', ''unpaired''}")
    case True
    let ?k = "spot_short_pair_decision_keys (upper symbol) sw (lower sh) w"
    have d: "decide rows x = store_decision c uid ?k word rows"
      using True by (auto simp: Decide_Spot set_spot_short_pair_decision_def)
    have k: "is_spot_key (fst ?k)" by (simp add: spot_short_pair_decision_keys_def spot_key_spot)
    then have "decisions_inv (decide rows x)" unfolding d by (intro store_inv assms(1)) blast
    moreover have "word_of (u, long_key s, short_key s) (decide rows x) = m (u, s)" if "clean s" for u s
    proof -
      have "(u, long_key s, short_key s) \<noteq> (uid, ?k)" using key_not_spot [OF that] k by (metis prod.inject prod.collapse)
      moreover have "word_of (u, long_key s, short_key s) rows = m (u, s)" using assms(2) that unfolding refines_def by blast
      moreover have "distinct (map pd_id rows)" using assms(1) by (simp add: decisions_inv_def)
      ultimately show ?thesis by (auto simp add: d word_of_store)
    qed
    ultimately show ?thesis by (simp add: refines_def Decide_Spot)
  next
    case False
    then show ?thesis using assms(1,2) by (simp add: Decide_Spot set_spot_short_pair_decision_def)
  qed
qed

lemma loaded_iff:
  assumes "decisions_inv rows"
  shows "t \<in> set (load_manual_pairs_for_user uid rows) \<longleftrightarrow> clean t \<and> word_of (uid, long_key t, short_key t) rows = Some ''paired''"
proof -
  have ld: "t \<in> set (load_manual_pairs_for_user uid rows) \<longleftrightarrow>
      (\<exists>r \<in> set rows. pd_user_id r = uid \<and> pd_decision r = ''paired'' \<and> \<not> is_spot_key (pd_leg_a_key r) \<and>
         (\<exists>u. decided_pair r = Some u \<and> t = (case u of (s, l, sh) \<Rightarrow> (upper s, lower l, lower sh))))"
    by (auto simp: load_manual_pairs_for_user_def paired_rows_def map_filter_def image_iff)
  have norm: "(case u of (s, l, sh) \<Rightarrow> (upper s, lower l, lower sh)) = u" if "clean u" for u
    using that by (cases u) (simp add: clean_def)
  show ?thesis
  proof
    assume "t \<in> set (load_manual_pairs_for_user uid rows)"
    then obtain r u where r: "r \<in> set rows" "pd_user_id r = uid" "pd_decision r = ''paired''" "\<not> is_spot_key (pd_leg_a_key r)"
        "decided_pair r = Some u" "t = (case u of (s, l, sh) \<Rightarrow> (upper s, lower l, lower sh))" using ld by blast
    obtain v where v: "clean v" "pd_leg_a_key r = long_key v" "pd_leg_b_key r = short_key v"
      using assms r(1,4) by (auto simp: decisions_inv_def)
    have "u = v" using decided_clean [OF v] r(5) by simp
    then have t: "t = v" using r(6) norm [OF v(1)] by simp
    have "find (\<lambda>x. ukeys x = ukeys r) rows = Some r"
    proof -
      have "find (\<lambda>x. ukeys x = ukeys r) rows \<noteq> None" using r(1) by (auto simp: find_None_iff)
      then obtain x where x: "find (\<lambda>x. ukeys x = ukeys r) rows = Some x" by blast
      then have "x = r" using find_in [OF x] r(1) assms unfolding decisions_inv_def by (metis distinct_map inj_onD)
      with x show ?thesis by simp
    qed
    then have "word_of (uid, long_key t, short_key t) rows = Some ''paired''"
      using r(2,3) v(2,3) by (simp add: word_of_def ukeys_def t)
    with v t show "clean t \<and> word_of (uid, long_key t, short_key t) rows = Some ''paired''" by simp
  next
    assume a: "clean t \<and> word_of (uid, long_key t, short_key t) rows = Some ''paired''"
    then obtain r where "find (\<lambda>r. ukeys r = (uid, long_key t, short_key t)) rows = Some r" "pd_decision r = ''paired''"
      by (auto simp: word_of_def)
    then have r: "r \<in> set rows" "pd_user_id r = uid" "pd_leg_a_key r = long_key t" "pd_leg_b_key r = short_key t" "pd_decision r = ''paired''"
      using find_in by (fastforce simp: ukeys_def)+
    then show "t \<in> set (load_manual_pairs_for_user uid rows)" unfolding ld
      using a key_not_spot [of t] decided_clean [of t r] norm [of t] by (intro bexI [of _ r]) auto
  qed
qed

text \<open>
  C23. The table of decisions is a map. After any requests to pair or unpair legs, of long/short
  and of spot/short pairs, by any users, the pairs loaded for a user are exactly the clean
  triples on which the user's last word was \<open>paired\<close>.
\<close>

theorem decisions_are_last_words:
  assumes "\<forall>x \<in> set ops. plain_op x"
  shows "set (load_manual_pairs_for_user uid (foldl decide [] ops)) =
     {t. clean t \<and> foldl last_word (\<lambda>_. None) ops (uid, t) = Some ''paired''}"
proof -
  have "decisions_inv (foldl decide [] ops) \<and> refines (foldl decide [] ops) (foldl last_word (\<lambda>_. None) ops)"
    using assms
  proof (induction ops rule: rev_induct)
    case Nil
    then show ?case by (simp add: decisions_inv_def refines_def word_of_def)
  next
    case (snoc x ops)
    then show ?case using decide_refines [of "foldl decide [] ops" "foldl last_word (\<lambda>_. None) ops" x] by simp
  qed
  then show ?thesis using loaded_iff [of "foldl decide [] ops"] by (auto simp: refines_def)
qed

theorem decisions_are_last_words_witness:
  "set (load_manual_pairs_for_user 1 (foldl decide [] [Decide sample_clock 1 ''btc '' ''Bybit'' ''okx'' ''paired'',
      Decide sample_clock 1 ''eth'' ''bybit'' ''okx'' ''paired'', Decide sample_clock 1 ''ETH'' ''bybit'' '' okx'' ''unpaired''])) =
   {(''BTC'', ''bybit'', ''okx'')}"
proof -
  let ?ops = "[Decide sample_clock 1 ''btc '' ''Bybit'' ''okx'' ''paired'',
      Decide sample_clock 1 ''eth'' ''bybit'' ''okx'' ''paired'', Decide sample_clock 1 ''ETH'' ''bybit'' '' okx'' ''unpaired'']"
  have p: "\<forall>x \<in> set ?ops. plain_op x" unfolding no_bar_def plain_op.simps list.set ball_simps by code_simp
  have c: "cleaned ''btc '' ''Bybit'' ''okx'' = (''BTC'', ''bybit'', ''okx'')" "cleaned ''eth'' ''bybit'' ''okx'' = (''ETH'', ''bybit'', ''okx'')"
    "cleaned ''ETH'' ''bybit'' '' okx'' = (''ETH'', ''bybit'', ''okx'')" by code_simp+
  have k: "clean (''BTC'', ''bybit'', ''okx'')" unfolding clean_def no_bar_def by code_simp
  show ?thesis unfolding decisions_are_last_words [OF p] using k by (auto simp: c)
qed

end
