(* ===== verification/Pnl_Book.thy ===== *)
theory Pnl_Book
  imports Live_Pairs
begin

text \<open>
  The profit and loss of closed legs, in \<^verbatim>\<open>backend/services/trade_service.py\<close>: which closed legs
  form a pair, what the tab shows of pairs and single legs, which pairs wait for their second
  leg, and the spot holdings offered as partners of live shorts.
\<close>

section \<open>Which legs belong together\<close>

type_synonym decided = "(string \<times> string \<times> string) list"

text \<open>Decisions of both kinds, as symbol, long and short venue.\<close>

definition pnl_pair_decisions :: "int \<Rightarrow> pair_decision list \<Rightarrow> decided \<times> decided" where
  "pnl_pair_decisions uid rows =
     (let mine = filter (\<lambda>r. pd_user_id r = uid) rows;
          norm = List.map_filter (\<lambda>r. map_option (\<lambda>(s, l, sh). (upper s, lower l, lower sh)) (decided_pair r))
      in (norm (filter (\<lambda>r. pd_decision r = ''paired'') mine), norm (filter (\<lambda>r. pd_decision r \<noteq> ''paired'') mine)))"

definition pnl_notional :: "trade_position \<Rightarrow> rat" where
  "pnl_notional r = tp_leg_a_qty r * or_else (tp_leg_a_entry_price r) 0"

definition within_window :: "time \<Rightarrow> time \<Rightarrow> bool" where
  "within_window a b \<longleftrightarrow> \<bar>a - b\<bar> \<le> seconds_us 300"

definition pnl_can_pair :: "decided \<times> decided \<Rightarrow> trade_position \<Rightarrow> trade_position \<Rightarrow> bool" where
  "pnl_can_pair dec l s =
     (let k = (upper (tp_symbol l), lower (tp_leg_a_exchange l), lower (tp_leg_a_exchange s));
          le = or_else (tp_leg_a_entry_price l) 0; se = or_else (tp_leg_a_entry_price s) 0;
          max_n = max (pnl_notional l) (pnl_notional s)
      in if k \<in> set (snd dec) then False
         else if k \<in> set (fst dec) then True
         else 0 < le \<and> 0 < se \<and> 0 < max_n \<and>
           \<bar>\<bar>pnl_notional l - pnl_notional s\<bar> / max_n * 100 - \<bar>(se - le) / le\<bar> * 100\<bar> \<le> 12 \<and>
           within_window (tp_opened_at l) (tp_opened_at s))"

text \<open>Symbol and short venue of paired spot decisions.\<close>

definition spot_short_paired_keys :: "int \<Rightarrow> pair_decision list \<Rightarrow> (string \<times> string) list" where
  "spot_short_paired_keys uid rows = List.map_filter
     (\<lambda>r. case (three_parts (pd_leg_a_key r), three_parts (pd_leg_b_key r)) of
        (Some (s, k, _), Some (_, sh, _)) \<Rightarrow> if k = ''spot'' then Some (upper s, lower sh) else None
      | _ \<Rightarrow> None)
     (filter (\<lambda>r. pd_user_id r = uid \<and> pd_decision r = ''paired'') rows)"

definition spot_short_decisions_keyed :: "int \<Rightarrow> pair_decision list \<Rightarrow> (string \<times> string) list \<times> (string \<times> string) list" where
  "spot_short_decisions_keyed uid rows =
     (let mine = filter (\<lambda>r. pd_user_id r = uid \<and> contains ''|spot|'' (pd_leg_a_key r)) rows; ks = map (\<lambda>r. (pd_leg_a_key r, pd_leg_b_key r))
      in (ks (filter (\<lambda>r. pd_decision r = ''paired'') mine), ks (filter (\<lambda>r. pd_decision r \<noteq> ''paired'') mine)))"

definition pnl_can_pair_spot_short ::
  "(string \<times> string) list \<times> (string \<times> string) list \<Rightarrow> trade_position \<Rightarrow> trade_position \<Rightarrow> bool" where
  "pnl_can_pair_spot_short dec sl fs =
     (let symbol = upper (tp_symbol sl);
          k = spot_short_pair_decision_keys symbol (or_else (tp_leg_a_wallet_id sl) 0)
                (lower (tp_leg_a_exchange fs)) (or_else (tp_leg_a_wallet_id fs) 0);
          le = or_else (tp_leg_a_entry_price sl) 0; se = or_else (tp_leg_a_entry_price fs) 0;
          max_n = max (pnl_notional sl) (pnl_notional fs)
      in if upper (tp_symbol fs) \<noteq> symbol then False
         else if k \<in> set (snd dec) then False
         else if k \<in> set (fst dec) then True
         else 0 < le \<and> 0 < se \<and> 0 < max_n \<and> \<bar>pnl_notional sl - pnl_notional fs\<bar> / max_n * 100 \<le> 12 \<and>
           (case (tp_closed_at sl, tp_closed_at fs) of (Some a, Some b) \<Rightarrow> within_window a b | _ \<Rightarrow> True))"

section \<open>Rows of the tab\<close>

record pnl_leg =
  pg_exchange :: string
  pg_market :: "string option"
  pg_qty :: rat
  pg_entry_price :: "rat option"
  pg_exit_price :: "rat option"
  pg_realized_pnl_usd :: rat
  pg_funding_pnl_usd :: rat
  pg_fees_usd :: rat
  pg_opened_externally :: bool
  pg_closed_externally :: bool

record pnl_single =
  ps_kind :: string
  ps_id :: int
  ps_symbol :: string
  ps_exchange :: string
  ps_market :: string
  ps_side :: string
  ps_qty :: rat
  ps_entry_price :: "rat option"
  ps_exit_price :: "rat option"
  ps_realized_pnl_usd :: "rat option"
  ps_funding_pnl_usd :: "rat option"
  ps_fees_usd :: "rat option"
  ps_total_pnl_usd :: rat
  ps_opened_at :: time
  ps_closed_at :: "time option"
  ps_opened_externally :: bool
  ps_closed_externally :: bool
  ps_source :: string
  ps_paired_with_spot :: bool

record pnl_pair =
  pp_pair_kind :: string
  pp_id :: "int \<times> int"
  pp_symbol :: string
  pp_long :: pnl_leg
  pp_short :: pnl_leg
  pp_total_realized_pnl_usd :: rat
  pp_total_funding_pnl_usd :: rat
  pp_total_fees_usd :: rat
  pp_total_pnl_usd :: rat
  pp_entry_spread_pct :: "rat option"
  pp_opened_at :: time
  pp_closed_at :: "time option"

datatype pnl_row = Single_Row pnl_single | Pair_Row pnl_pair

definition market_of :: "trade_position \<Rightarrow> string" where
  "market_of r = (if tp_leg_a_market r = [] then ''futures'' else tp_leg_a_market r)"

definition realized_of :: "trade_position \<Rightarrow> rat" where "realized_of r = or_else (tp_leg_a_realized_pnl_usd r) 0"
definition funding_of :: "trade_position \<Rightarrow> rat" where "funding_of r = or_else (tp_leg_a_funding_pnl_usd r) 0"
definition leg_fees :: "trade_position \<Rightarrow> rat" where "leg_fees r = or_else (tp_leg_a_fees_usd r) 0"

definition serialize_pnl_single :: "bool \<Rightarrow> trade_position \<Rightarrow> pnl_row" where
  "serialize_pnl_single paired_with_spot r = Single_Row \<lparr>
     ps_kind = (if paired_with_spot then ''spot_short_paired'' else ''single''), ps_id = tp_id r, ps_symbol = tp_symbol r,
     ps_exchange = tp_leg_a_exchange r, ps_market = market_of r, ps_side = tp_leg_a_side r, ps_qty = tp_leg_a_qty r,
     ps_entry_price = tp_leg_a_entry_price r, ps_exit_price = tp_leg_a_exit_price r,
     ps_realized_pnl_usd = tp_leg_a_realized_pnl_usd r, ps_funding_pnl_usd = tp_leg_a_funding_pnl_usd r,
     ps_fees_usd = tp_leg_a_fees_usd r, ps_total_pnl_usd = realized_of r + funding_of r - leg_fees r,
     ps_opened_at = tp_opened_at r, ps_closed_at = tp_closed_at r, ps_opened_externally = tp_opened_externally r,
     ps_closed_externally = tp_closed_externally r,
     ps_source = (if tp_source r = [] then ''platform'' else tp_source r), ps_paired_with_spot = paired_with_spot\<rparr>"

definition pnl_leg_of :: "string option \<Rightarrow> trade_position \<Rightarrow> pnl_leg" where
  "pnl_leg_of market r = \<lparr>pg_exchange = tp_leg_a_exchange r, pg_market = market, pg_qty = tp_leg_a_qty r,
     pg_entry_price = tp_leg_a_entry_price r, pg_exit_price = tp_leg_a_exit_price r, pg_realized_pnl_usd = realized_of r,
     pg_funding_pnl_usd = funding_of r, pg_fees_usd = leg_fees r, pg_opened_externally = tp_opened_externally r,
     pg_closed_externally = tp_closed_externally r\<rparr>"

definition later_of :: "time option \<Rightarrow> time option \<Rightarrow> time option" where
  "later_of a b = (case (a, b) of (Some x, Some y) \<Rightarrow> Some (max x y) | (None, y) \<Rightarrow> y | (x, None) \<Rightarrow> x)"

definition pair_row :: "string \<Rightarrow> string option \<Rightarrow> string option \<Rightarrow> trade_position \<Rightarrow> trade_position \<Rightarrow> pnl_row" where
  "pair_row kind long_market short_market l s =
     (let le = or_else (tp_leg_a_entry_price l) 0; se = or_else (tp_leg_a_entry_price s) 0
      in Pair_Row \<lparr>pp_pair_kind = kind, pp_id = (tp_id l, tp_id s), pp_symbol = tp_symbol l,
           pp_long = pnl_leg_of long_market l, pp_short = pnl_leg_of short_market s,
           pp_total_realized_pnl_usd = realized_of l + realized_of s, pp_total_funding_pnl_usd = funding_of l + funding_of s,
           pp_total_fees_usd = leg_fees l + leg_fees s,
           pp_total_pnl_usd = realized_of l + realized_of s + funding_of l + funding_of s - leg_fees l - leg_fees s,
           pp_entry_spread_pct = (if 0 < le then Some (\<bar>(se - le) / le\<bar> * 100) else None),
           pp_opened_at = max (tp_opened_at l) (tp_opened_at s), pp_closed_at = later_of (tp_closed_at l) (tp_closed_at s)\<rparr>)"

definition serialize_pnl_spot_short :: "trade_position \<Rightarrow> trade_position \<Rightarrow> pnl_row" where
  "serialize_pnl_spot_short = pair_row ''spot_short'' (Some ''spot'') (Some ''futures'')"

definition serialize_pnl_pair :: "trade_position \<Rightarrow> trade_position \<Rightarrow> pnl_row" where
  "serialize_pnl_pair = pair_row ''long_short'' None None"

section \<open>The tab\<close>

definition closed_legs :: "clock \<Rightarrow> trading \<Rightarrow> int \<Rightarrow> int \<Rightarrow> trade_position list" where
  "closed_legs c tr uid days = filter (\<lambda>r. tp_user_id r = uid \<and> tp_kind r = Single_Leg \<and> tp_status r = ''closed'' \<and>
     (case tp_closed_at r of Some t \<Rightarrow> utcnow c - days_us days \<le> t | None \<Rightarrow> False)) (tr_legs tr)"

definition open_legs :: "trading \<Rightarrow> int \<Rightarrow> trade_position list" where
  "open_legs tr uid = filter (\<lambda>r. tp_user_id r = uid \<and> tp_kind r = Single_Leg \<and> tp_status r = ''open'') (tr_legs tr)"

definition side_of :: "trade_position \<Rightarrow> string" where "side_of r = lower (tp_leg_a_side r)"

definition opposite :: "string \<Rightarrow> string" where "opposite sd = (if sd = ''buy'' then ''sell'' else ''buy'')"

definition on_side :: "trade_position list \<Rightarrow> string \<Rightarrow> string \<Rightarrow> trade_position list" where
  "on_side rows symbol sd = filter (\<lambda>r. upper (tp_symbol r) = symbol \<and> side_of r = sd) rows"

text \<open>The long leg first.\<close>

definition as_pair :: "trade_position \<Rightarrow> trade_position \<Rightarrow> trade_position \<times> trade_position" where
  "as_pair r x = (if side_of r = ''buy'' then (r, x) else (x, r))"

record pnl_rules =
  pr_decided :: "decided \<times> decided"
  pr_spot_keys :: "(string \<times> string) list"
  pr_spot_decided :: "(string \<times> string) list \<times> (string \<times> string) list"

type_synonym pnl_state = "int list \<times> pnl_row list"

definition spot_pass :: "pnl_rules \<Rightarrow> trade_position list \<Rightarrow> pnl_state \<Rightarrow> trade_position \<Rightarrow> pnl_state" where
  "spot_pass p shorts st sl =
     (let (used, rows) = st in
      if tp_id sl \<in> set used then st
      else case find (\<lambda>fs. tp_id fs \<notin> set used \<and> pnl_can_pair_spot_short (pr_spot_decided p) sl fs) shorts of
          None \<Rightarrow> st
        | Some fs \<Rightarrow> (used @ [tp_id sl, tp_id fs], rows @ [serialize_pnl_spot_short sl fs]))"

definition partly_open :: "trade_position list \<Rightarrow> trade_position \<Rightarrow> trade_position \<Rightarrow> bool" where
  "partly_open opens r match =
     (let symbol = upper (tp_symbol r) in
      list_ex (\<lambda>x. tp_leg_a_exchange x = tp_leg_a_exchange match) (on_side opens symbol (opposite (side_of r))) \<or>
      list_ex (\<lambda>x. tp_leg_a_exchange x = tp_leg_a_exchange r) (on_side opens symbol (side_of r)))"

definition waits_for_open :: "pnl_rules \<Rightarrow> trade_position list \<Rightarrow> trade_position \<Rightarrow> bool" where
  "waits_for_open p opens r =
     (case on_side opens (upper (tp_symbol r)) (opposite (side_of r)) of
        [] \<Rightarrow> False
      | x # _ \<Rightarrow> case_prod (pnl_can_pair (pr_decided p)) (as_pair r x))"

definition main_pass :: "pnl_rules \<Rightarrow> trade_position list \<Rightarrow> trade_position list \<Rightarrow> pnl_state \<Rightarrow> trade_position \<Rightarrow> pnl_state" where
  "main_pass p past opens st r =
     (let (used, rows) = st in
      if tp_id r \<in> set used then st
      else if market_of r \<noteq> ''futures'' then (used @ [tp_id r], rows @ [serialize_pnl_single False r])
      else case find (\<lambda>x. tp_id x \<notin> set used \<and> market_of x = ''futures'' \<and> case_prod (pnl_can_pair (pr_decided p)) (as_pair r x))
            (on_side past (upper (tp_symbol r)) (opposite (side_of r))) of
          Some x \<Rightarrow> (used @ [tp_id r, tp_id x],
            if partly_open opens r x then rows else rows @ [case_prod serialize_pnl_pair (as_pair r x)])
        | None \<Rightarrow> (used @ [tp_id r],
            if waits_for_open p opens r then rows
            else rows @ [serialize_pnl_single
              (side_of r = ''sell'' \<and> (upper (tp_symbol r), lower (tp_leg_a_exchange r)) \<in> set (pr_spot_keys p)) r]))"

definition rules_of :: "int \<Rightarrow> pair_decision list \<Rightarrow> pnl_rules" where
  "rules_of uid decisions = \<lparr>pr_decided = pnl_pair_decisions uid decisions,
     pr_spot_keys = spot_short_paired_keys uid decisions, pr_spot_decided = spot_short_decisions_keyed uid decisions\<rparr>"

definition list_user_pnl :: "clock \<Rightarrow> trading \<Rightarrow> pair_decision list \<Rightarrow> int \<Rightarrow> int \<Rightarrow> pnl_row list" where
  "list_user_pnl c tr decisions uid days =
     (let p = rules_of uid decisions; past = sort_key (\<lambda>r. - the (tp_closed_at r)) (closed_legs c tr uid days);
          opens = open_legs tr uid;
          spots = filter (\<lambda>r. market_of r = ''spot'' \<and> side_of r = ''buy'') past;
          shorts = filter (\<lambda>r. market_of r = ''futures'' \<and> side_of r = ''sell'') past
      in snd (foldl (main_pass p past opens) (foldl (spot_pass p shorts) ([], []) spots) past))"

text \<open>Pairs of which one leg is closed and the other open.\<close>

definition list_user_pnl_pending_pairs ::
  "clock \<Rightarrow> trading \<Rightarrow> pair_decision list \<Rightarrow> int \<Rightarrow> int \<Rightarrow> (trade_position \<times> trade_position) list" where
  "list_user_pnl_pending_pairs c tr decisions uid days =
     (let dec = pnl_pair_decisions uid decisions; opens = open_legs tr uid
      in List.map_filter (\<lambda>r. map_option (\<lambda>x. (r, x))
           (find (\<lambda>x. case_prod (pnl_can_pair dec) (as_pair r x)) (on_side opens (upper (tp_symbol r)) (opposite (side_of r)))))
         (closed_legs c tr uid days))"

end
