(* ===== verification/Pnl_Safety.thy ===== *)
theory Pnl_Safety
  imports Pnl_Book Samples "HOL-Library.Multiset"
begin

text \<open>
  The tab counts every closed leg at most once, its totals are the sums of the legs' results,
  and a leg it leaves out is one whose symbol the user still has a leg open in.
\<close>

fun row_ids :: "pnl_row \<Rightarrow> int list" where
  "row_ids (Single_Row s) = [ps_id s]"
| "row_ids (Pair_Row p) = [fst (pp_id p), snd (pp_id p)]"

fun row_pnl :: "pnl_row \<Rightarrow> rat" where
  "row_pnl (Single_Row s) = ps_total_pnl_usd s"
| "row_pnl (Pair_Row p) = pp_total_pnl_usd p"

definition leg_pnl :: "trade_position \<Rightarrow> rat" where
  "leg_pnl r = realized_of r + funding_of r - leg_fees r"

definition shown :: "pnl_row list \<Rightarrow> int list" where
  "shown rows = concat (map row_ids rows)"

definition still_open :: "trade_position list \<Rightarrow> trade_position \<Rightarrow> bool" where
  "still_open opens r \<longleftrightarrow> (\<exists>x \<in> set opens. upper (tp_symbol x) = upper (tp_symbol r))"

lemma shown_simps [simp]: "shown [] = []" "shown (xs @ ys) = shown xs @ shown ys"
  by (simp_all add: shown_def)

lemma shown_rows [simp]:
  "shown [serialize_pnl_single b r] = [tp_id r]" "row_pnl (serialize_pnl_single b r) = leg_pnl r"
  "shown [serialize_pnl_pair l s] = [tp_id l, tp_id s]" "row_pnl (serialize_pnl_pair l s) = leg_pnl l + leg_pnl s"
  "shown [serialize_pnl_spot_short l s] = [tp_id l, tp_id s]" "row_pnl (serialize_pnl_spot_short l s) = leg_pnl l + leg_pnl s"
  by (simp_all add: shown_def serialize_pnl_single_def serialize_pnl_pair_def serialize_pnl_spot_short_def pair_row_def
      leg_pnl_def Let_def)

text \<open>The legs by id, and what holds between the passes.\<close>

definition pnl_by_id :: "trade_position list \<Rightarrow> int \<Rightarrow> rat" where
  "pnl_by_id past i = (case row_get tp_id past i of Some r \<Rightarrow> leg_pnl r | None \<Rightarrow> 0)"

definition book_inv :: "trade_position list \<Rightarrow> trade_position list \<Rightarrow> pnl_state \<Rightarrow> bool" where
  "book_inv past opens st \<longleftrightarrow> distinct (shown (snd st)) \<and> set (shown (snd st)) \<subseteq> set (fst st) \<and>
     set (shown (snd st)) \<subseteq> tp_id ` set past \<and>
     sum_list (map row_pnl (snd st)) = sum_list (map (pnl_by_id past) (shown (snd st))) \<and>
     (\<forall>r \<in> set past. tp_id r \<in> set (fst st) \<longrightarrow> tp_id r \<in> set (shown (snd st)) \<or> still_open opens r)"

lemma pnl_by_id_leg: "distinct (map tp_id past) \<Longrightarrow> r \<in> set past \<Longrightarrow> pnl_by_id past (tp_id r) = leg_pnl r"
  by (simp add: pnl_by_id_def row_get_unique)

lemma same_leg: "distinct (map tp_id past) \<Longrightarrow> r \<in> set past \<Longrightarrow> x \<in> set past \<Longrightarrow> tp_id r = tp_id x \<Longrightarrow> r = x"
  by (metis distinct_map inj_onD)

lemma book_single:
  assumes "distinct (map tp_id past)" and "book_inv past opens (used, rows)" and "r \<in> set past" and "tp_id r \<notin> set used"
  shows "book_inv past opens (used @ [tp_id r], rows @ [serialize_pnl_single b r])"
  using assms by (auto simp: book_inv_def pnl_by_id_leg dest: same_leg)

lemma book_hidden:
  assumes "distinct (map tp_id past)" and "book_inv past opens (used, rows)"
    and "\<And>r. r \<in> set rs \<Longrightarrow> r \<in> set past \<and> still_open opens r"
  shows "book_inv past opens (used @ map tp_id rs, rows)"
proof -
  have "still_open opens r" if r: "r \<in> set past" "tp_id r \<in> set (map tp_id rs)" for r
  proof -
    obtain x where x: "x \<in> set rs" "tp_id r = tp_id x" using r(2) by auto
    then have "r = x" using same_leg [OF assms(1) r(1)] assms(3) by blast
    with x assms(3) show ?thesis by blast
  qed
  then show ?thesis using assms(2) by (auto simp: book_inv_def)
qed

lemma book_pair:
  assumes "distinct (map tp_id past)" and "book_inv past opens (used, rows)"
    and "l \<in> set past" and "s \<in> set past" and "l \<noteq> s" and "tp_id l \<notin> set used" and "tp_id s \<notin> set used"
    and "set ids = {tp_id l, tp_id s}" and "shown [row] = [tp_id l, tp_id s]" and "row_pnl row = leg_pnl l + leg_pnl s"
  shows "book_inv past opens (used @ ids, rows @ [row])"
proof -
  have "tp_id l \<noteq> tp_id s" using assms(1,3-5) same_leg by metis
  then show ?thesis using assms by (auto simp: book_inv_def pnl_by_id_leg)
qed

lemma find_SomeD: "find P xs = Some x \<Longrightarrow> x \<in> set xs \<and> P x"
  by (auto simp: find_Some_iff)

lemma spot_pass_inv:
  assumes "distinct (map tp_id past)" and "book_inv past opens st" and "sl \<in> set past" and "market_of sl = ''spot''"
    and "set shorts \<subseteq> {r \<in> set past. market_of r = ''futures''}"
  shows "book_inv past opens (spot_pass p shorts st sl)"
proof -
  obtain used rows where st: "st = (used, rows)" by (cases st)
  show ?thesis
  proof (cases "tp_id sl \<in> set used")
    case True
    then show ?thesis using assms(2) by (simp add: spot_pass_def st)
  next
    case False
    show ?thesis
    proof (cases "find (\<lambda>fs. tp_id fs \<notin> set used \<and> pnl_can_pair_spot_short (pr_spot_decided p) sl fs) shorts")
      case None
      then show ?thesis using assms(2) False by (simp add: spot_pass_def st)
    next
      case (Some fs)
      then have fs: "fs \<in> set past" "market_of fs = ''futures''" "tp_id fs \<notin> set used"
        using assms(5) find_SomeD [OF Some] by auto
      then have "sl \<noteq> fs" using assms(4) by auto
      then have "book_inv past opens (used @ [tp_id sl, tp_id fs], rows @ [serialize_pnl_spot_short sl fs])"
        using assms(1-3) fs False st by (intro book_pair) auto
      then show ?thesis using Some False by (simp add: spot_pass_def st)
    qed
  qed
qed

lemma on_side_iff: "x \<in> set (on_side rows symbol sd) \<longleftrightarrow> x \<in> set rows \<and> upper (tp_symbol x) = symbol \<and> side_of x = sd"
  by (auto simp: on_side_def)

lemma opposite_differs: "side_of x = opposite (side_of r) \<Longrightarrow> x \<noteq> r"
  by (auto simp: opposite_def split: if_split_asm)

lemma partly_open_still: "partly_open opens r x \<Longrightarrow> still_open opens r"
  by (auto simp: partly_open_def still_open_def list_ex_iff on_side_iff Let_def)

lemma waits_still: "waits_for_open p opens r \<Longrightarrow> still_open opens r"
  by (auto simp: waits_for_open_def still_open_def split: list.split_asm) (metis list.set_intros(1) on_side_iff)

lemma as_pair_rows: "case_prod serialize_pnl_pair (as_pair r x) = row \<Longrightarrow>
   (shown [row] = [tp_id r, tp_id x] \<or> shown [row] = [tp_id x, tp_id r]) \<and> row_pnl row = leg_pnl r + leg_pnl x"
  by (auto simp: as_pair_def)

lemma main_pass_inv:
  assumes "distinct (map tp_id past)" and "book_inv past opens st" and "r \<in> set past"
  shows "book_inv past opens (main_pass p past opens st r) \<and> tp_id r \<in> set (fst (main_pass p past opens st r)) \<and>
    set (fst st) \<subseteq> set (fst (main_pass p past opens st r))"
proof -
  obtain used rows where st: "st = (used, rows)" by (cases st)
  show ?thesis
  proof (cases "tp_id r \<in> set used")
    case True
    then show ?thesis using assms(2) by (simp add: main_pass_def st)
  next
    case new: False
    show ?thesis
    proof (cases "market_of r = ''futures''")
      case False
      then show ?thesis using book_single [OF assms(1), of opens used rows r False] assms(2,3) new st by (auto simp: main_pass_def)
    next
      case fut: True
      define m where "m = find (\<lambda>x. tp_id x \<notin> set used \<and> market_of x = ''futures'' \<and> case_prod (pnl_can_pair (pr_decided p)) (as_pair r x))
            (on_side past (upper (tp_symbol r)) (opposite (side_of r)))"
      show ?thesis
      proof (cases m)
        case None
        have "book_inv past opens (used @ [tp_id r], rows)" if "waits_for_open p opens r"
          using book_hidden [OF assms(1), of opens used rows "[r]"] assms(2,3) st waits_still [OF that] by simp
        then show ?thesis using book_single [OF assms(1), of opens used rows r] assms(2,3) new fut st None [unfolded m_def]
          by (auto simp: main_pass_def)
      next
        case (Some x)
        then have x: "x \<in> set past" "upper (tp_symbol x) = upper (tp_symbol r)" "side_of x = opposite (side_of r)" "tp_id x \<notin> set used"
          using find_SomeD [OF Some [unfolded m_def]] by (simp_all add: on_side_iff)
        have ne: "r \<noteq> x" using opposite_differs [OF x(3)] by auto
        have hid: "book_inv past opens (used @ [tp_id r, tp_id x], rows)" if "partly_open opens r x"
        proof -
          have "still_open opens r" using that by (rule partly_open_still)
          moreover from this have "still_open opens x" using x(2) by (simp add: still_open_def)
          ultimately show ?thesis using book_hidden [OF assms(1), of opens used rows "[r, x]"] assms(2,3) st x(1) by auto
        qed
        let ?row = "case_prod serialize_pnl_pair (as_pair r x)"
        have "book_inv past opens (used @ [tp_id r, tp_id x], rows @ [?row])"
        proof (cases "side_of r = ''buy''")
          case True
          show ?thesis by (rule book_pair [where l = r and s = x]) (use assms x ne new st True in \<open>simp_all add: as_pair_def\<close>)
        next
          case False
          show ?thesis by (rule book_pair [where l = x and s = r])
            (use assms x ne new st False in \<open>simp_all add: as_pair_def insert_commute\<close>)
        qed
        then show ?thesis using hid new fut st Some [unfolded m_def] by (auto simp: main_pass_def)
      qed
    qed
  qed
qed

section \<open>The whole tab\<close>

lemma passes_inv:
  assumes "distinct (map tp_id past)" and "book_inv past opens st" and "set rs \<subseteq> set past"
  shows "book_inv past opens (foldl (main_pass p past opens) st rs) \<and>
    tp_id ` set rs \<subseteq> set (fst (foldl (main_pass p past opens) st rs))"
  using assms(3)
proof (induction rs rule: rev_induct)
  case (snoc r rs)
  then have "book_inv past opens (foldl (main_pass p past opens) st rs)" "r \<in> set past"
    "tp_id ` set rs \<subseteq> set (fst (foldl (main_pass p past opens) st rs))" by auto
  from main_pass_inv [OF assms(1) this(1,2), of p] this(3) show ?case by auto
qed (use assms(2) in simp)

lemma spot_passes_inv:
  assumes "distinct (map tp_id past)" and "set rs \<subseteq> {r \<in> set past. market_of r = ''spot''}"
    and "set shorts \<subseteq> {r \<in> set past. market_of r = ''futures''}"
  shows "book_inv past opens (foldl (spot_pass p shorts) ([], []) rs)"
  using assms(2)
proof (induction rs rule: rev_induct)
  case Nil
  then show ?case by (simp add: book_inv_def)
next
  case (snoc r rs)
  then show ?case using spot_pass_inv [OF assms(1) _ _ _ assms(3)] by simp
qed

lemma tab_inv:
  assumes "distinct (map tp_id (tr_legs tr))" and "past = sort_key (\<lambda>r. - the (tp_closed_at r)) (closed_legs c tr uid days)"
  obtains used where "book_inv past (open_legs tr uid) (used, list_user_pnl c tr decisions uid days)"
    and "tp_id ` set past \<subseteq> set used"
proof -
  define p where "p = rules_of uid decisions"
  let ?opens = "open_legs tr uid"
  let ?spots = "filter (\<lambda>r. market_of r = ''spot'' \<and> side_of r = ''buy'') past"
  let ?shorts = "filter (\<lambda>r. market_of r = ''futures'' \<and> side_of r = ''sell'') past"
  define st where "st = foldl (main_pass p past ?opens) (foldl (spot_pass p ?shorts) ([], []) ?spots) past"
  have ids: "distinct (map tp_id (closed_legs c tr uid days))" using assms(1) by (simp add: closed_legs_def distinct_map_filter)
  have "mset (map tp_id past) = mset (map tp_id (closed_legs c tr uid days))" by (simp add: assms(2))
  then have d: "distinct (map tp_id past)" using ids by (metis mset_eq_imp_distinct_iff)
  have "book_inv past ?opens (foldl (spot_pass p ?shorts) ([], []) ?spots)" by (intro spot_passes_inv d) auto
  from passes_inv [OF d this, of past p] have "book_inv past ?opens st \<and> tp_id ` set past \<subseteq> set (fst st)"
    by (simp add: st_def)
  moreover have "list_user_pnl c tr decisions uid days = snd st"
    by (simp only: list_user_pnl_def Let_def st_def p_def assms(2))
  ultimately show thesis using that [of "fst st"] by simp
qed

text \<open>
  C17. Every leg is counted once. No closed leg is in two rows of the tab, every row is of legs
  the user closed in the period, and the totals of the rows add up to the results of exactly
  the legs shown: realized and funding profit less fees.
\<close>

theorem pnl_counts_each_leg_once:
  assumes "distinct (map tp_id (tr_legs tr))" and "rows = list_user_pnl c tr decisions uid days"
  shows "distinct (shown rows) \<and> set (shown rows) \<subseteq> tp_id ` set (closed_legs c tr uid days) \<and>
    sum_list (map row_pnl rows) = sum_over (\<lambda>r. tp_id r \<in> set (shown rows)) leg_pnl (closed_legs c tr uid days)"
proof -
  let ?cl = "closed_legs c tr uid days"
  define past where "past = sort_key (\<lambda>r. - the (tp_closed_at r)) ?cl"
  obtain used where i: "book_inv past (open_legs tr uid) (used, rows)"
    using tab_inv [OF assms(1) past_def, where decisions = decisions] assms(2) by metis
  have sp: "set past = set ?cl" by (simp add: past_def)
  have ids: "distinct (map tp_id ?cl)" using assms(1) by (simp add: closed_legs_def distinct_map_filter)
  have sub: "set (shown rows) \<subseteq> tp_id ` set ?cl" and dis: "distinct (shown rows)"
    and tot: "sum_list (map row_pnl rows) = sum_list (map (pnl_by_id past) (shown rows))"
    using i sp by (auto simp: book_inv_def)
  let ?f = "filter (\<lambda>r. tp_id r \<in> set (shown rows)) ?cl"
  have "distinct (map tp_id ?f)" using ids by (simp add: distinct_map_filter)
  moreover have "set (map tp_id ?f) = set (shown rows)" using sub by auto
  ultimately have m: "mset (shown rows) = mset (map tp_id ?f)" using dis by (metis set_eq_iff_mset_eq_distinct)
  have "mset (map (pnl_by_id past) (shown rows)) = mset (map (pnl_by_id past) (map tp_id ?f))"
    unfolding mset_map [of "pnl_by_id past"] m ..
  then have "sum_list (map (pnl_by_id past) (shown rows)) = sum_list (map (pnl_by_id past) (map tp_id ?f))"
    by (metis sum_mset_sum_list)
  also have "\<dots> = sum_list (map leg_pnl ?f)"
  proof -
    have "mset (map tp_id past) = mset (map tp_id ?cl)" by (simp add: past_def)
    then have "distinct (map tp_id past)" using ids by (metis mset_eq_imp_distinct_iff)
    then have "pnl_by_id past (tp_id r) = leg_pnl r" if "r \<in> set ?f" for r using that sp by (intro pnl_by_id_leg) auto
    then have "map (pnl_by_id past) (map tp_id ?f) = map leg_pnl ?f" unfolding map_map comp_def by (intro map_cong) auto
    then show ?thesis by (rule arg_cong)
  qed
  finally show ?thesis using tot sub dis by (simp add: sum_over_def)
qed

text \<open>
  Nothing finished is hidden. A leg the user closed in the period is on the tab unless the
  user has a leg of the same symbol open.
\<close>

theorem pnl_hides_only_open_symbols:
  assumes "distinct (map tp_id (tr_legs tr))" and "r \<in> set (closed_legs c tr uid days)"
    and "\<forall>x \<in> set (open_legs tr uid). upper (tp_symbol x) \<noteq> upper (tp_symbol r)"
  shows "tp_id r \<in> set (shown (list_user_pnl c tr decisions uid days))"
proof -
  define past where "past = sort_key (\<lambda>r. - the (tp_closed_at r)) (closed_legs c tr uid days)"
  obtain used where i: "book_inv past (open_legs tr uid) (used, list_user_pnl c tr decisions uid days)"
    "tp_id ` set past \<subseteq> set used"
    using tab_inv [OF assms(1) past_def, where decisions = decisions] by metis
  have "r \<in> set past" using assms(2) by (simp add: past_def)
  moreover have "\<not> still_open (open_legs tr uid) r" using assms(3) by (auto simp: still_open_def)
  ultimately show ?thesis using i by (auto simp: book_inv_def)
qed

section \<open>A concrete book\<close>

definition booked :: "int \<Rightarrow> string \<Rightarrow> string \<Rightarrow> string \<Rightarrow> rat \<Rightarrow> trade_position" where
  "booked i ex sd status pnl = \<lparr>tp_id = i, tp_user_id = 1, tp_kind = Single_Leg, tp_status = status, tp_symbol = ''BTC'',
     tp_leg_a_wallet_id = Some 2, tp_leg_a_exchange = ex, tp_leg_a_side = sd, tp_leg_a_qty = 10,
     tp_leg_a_entry_price = Some 100, tp_leg_a_exit_price = Some 101, tp_leg_a_realized_pnl_usd = Some pnl,
     tp_leg_a_funding_pnl_usd = None, tp_leg_a_fees_usd = Some 1, tp_leg_a_market = ''futures'',
     tp_leg_a_open_order_id = None, tp_leg_a_close_order_id = None, tp_leg_b_realized_pnl_usd = None,
     tp_leg_b_funding_pnl_usd = None, tp_source = ''platform'', tp_realized_pnl_usd = Some pnl,
     tp_opened_externally = False, tp_closed_externally = False, tp_opened_at = days_us 98,
     tp_closed_at = (if status = ''closed'' then Some (days_us 99) else None), tp_arb_position_id = None\<rparr>"

definition sample_legs :: trading where
  "sample_legs = (empty_trading sample_world)\<lparr>tr_legs := [booked 1 ''bybit'' ''buy'' ''closed'' 5, booked 2 ''okx'' ''sell'' ''closed'' 2]\<rparr>"

lemma sample_tab: "shown (list_user_pnl sample_clock sample_legs [] 1 30) = [1, 2]"
  by code_simp

theorem pnl_counts_each_leg_once_witness:
  "sum_list (map row_pnl (list_user_pnl sample_clock sample_legs [] 1 30)) = 5"
proof -
  have "distinct (map tp_id (tr_legs sample_legs))" by code_simp
  from pnl_counts_each_leg_once [OF this refl, of sample_clock "[]" 1 30]
  have "sum_list (map row_pnl (list_user_pnl sample_clock sample_legs [] 1 30)) =
      sum_over (\<lambda>r. tp_id r \<in> {1, 2}) leg_pnl (closed_legs sample_clock sample_legs 1 30)"
    by (simp add: sample_tab)
  also have "\<dots> = 5" by code_simp
  finally show ?thesis .
qed

theorem pnl_hides_only_open_symbols_witness: "2 \<in> set (shown (list_user_pnl sample_clock sample_legs [] 1 30))"
proof -
  have 1: "distinct (map tp_id (tr_legs sample_legs))" by code_simp
  have "closed_legs sample_clock sample_legs 1 30 = [booked 1 ''bybit'' ''buy'' ''closed'' 5, booked 2 ''okx'' ''sell'' ''closed'' 2]"
    by code_simp
  then have 2: "booked 2 ''okx'' ''sell'' ''closed'' 2 \<in> set (closed_legs sample_clock sample_legs 1 30)" by simp
  have "open_legs sample_legs 1 = []" by code_simp
  then have 3: "\<forall>x \<in> set (open_legs sample_legs 1). upper (tp_symbol x) \<noteq> upper (tp_symbol (booked 2 ''okx'' ''sell'' ''closed'' 2))"
    by simp
  from pnl_hides_only_open_symbols [OF 1 2 3, of "[]"] show ?thesis by (simp add: booked_def)
qed

text \<open>
  A finished pair leaves the tab when the user opens a new position in its symbol on one of its
  venues, although both its legs are closed.
\<close>

theorem reopening_hides_finished_pair:
  "list_user_pnl sample_clock (sample_legs\<lparr>tr_legs := tr_legs sample_legs @ [booked 3 ''bybit'' ''buy'' ''open'' 0]\<rparr>) [] 1 30 = []"
  by code_simp

end
