(* ===== verification/Json.thy ===== *)
theory Json
  imports Prelude "HOL-Library.AList"
begin

text \<open>
  JSON messages as Python sees them after \<open>json.loads\<close>, with the operations the stream adapters
  apply to them: each returns a value or the exception Python raises. An object is the list of its
  items, each key once; a dict that is updated is such a list too, \<open>AList.update\<close> and
  \<open>AList.delete\<close> being assignment and \<open>pop\<close> with the order of insertion kept.
\<close>

section \<open>Values and exceptions\<close>

datatype json =
    J_Null
  | J_Bool bool
  | J_Int int
  | J_Num rat
  | J_Str string
  | J_Arr "json list"
  | J_Obj "(string \<times> json) list"

datatype py_error = Attribute_Error | Type_Error | Key_Error | Index_Error | Value_Error

text \<open>\<open>try: x = m except (errs): \<dots>\<close>: a listed exception is \<open>None\<close>, another passes.\<close>

definition caught :: "py_error list \<Rightarrow> py_error + 'a \<Rightarrow> py_error + 'a option" where
  "caught errs m =
     (case m of Inr v \<Rightarrow> Inr (Some v)
      | Inl e \<Rightarrow> if e \<in> set errs then Inr None else Inl e)"

text \<open>Evaluation from left to right of the elements of a list.\<close>

fun map_res :: "('a \<Rightarrow> 'e + 'b) \<Rightarrow> 'a list \<Rightarrow> 'e + 'b list" where
  "map_res f [] = Inr []"
| "map_res f (x # xs) = bind_res (f x) (\<lambda>y. bind_res (map_res f xs) (\<lambda>ys. Inr (y # ys)))"

text \<open>The values that were not skipped.\<close>

definition somes :: "'a option list \<Rightarrow> 'a list" where
  "somes xs = List.map_filter (\<lambda>x. x) xs"

lemma somes_simps [simp]: "somes [] = []" "somes (None # xs) = somes xs" "somes (Some x # xs) = x # somes xs"
  by (simp_all add: somes_def List.map_filter_def)

section \<open>Operations\<close>

fun py_true :: "json \<Rightarrow> bool" where
  "py_true J_Null = False"
| "py_true (J_Bool b) = b"
| "py_true (J_Int n) = (n \<noteq> 0)"
| "py_true (J_Num x) = (x \<noteq> 0)"
| "py_true (J_Str s) = (s \<noteq> [])"
| "py_true (J_Arr xs) = (xs \<noteq> [])"
| "py_true (J_Obj kvs) = (kvs \<noteq> [])"

text \<open>\<open>a or b\<close>.\<close>

definition py_or :: "json \<Rightarrow> json \<Rightarrow> json" where
  "py_or a b = (if py_true a then a else b)"

text \<open>\<open>x.get(k, d)\<close> and \<open>x.get(k)\<close>; only a dict has the method.\<close>

fun get_or :: "json \<Rightarrow> string \<Rightarrow> json \<Rightarrow> py_error + json" where
  "get_or (J_Obj kvs) k d = Inr (case map_of kvs k of None \<Rightarrow> d | Some v \<Rightarrow> v)"
| "get_or _ k d = Inl Attribute_Error"

definition get_key :: "json \<Rightarrow> string \<Rightarrow> py_error + json" where
  "get_key x k = get_or x k J_Null"

text \<open>\<open>k in x\<close> for a text \<open>k\<close>.\<close>

fun has_key :: "json \<Rightarrow> string \<Rightarrow> py_error + bool" where
  "has_key (J_Obj kvs) k = Inr (map_of kvs k \<noteq> None)"
| "has_key (J_Arr xs) k = Inr (J_Str k \<in> set xs)"
| "has_key (J_Str s) k = Inr (contains k s)"
| "has_key _ k = Inl Type_Error"

text \<open>\<open>x[k]\<close> for a text \<open>k\<close>, and \<open>x[i]\<close> for a position \<open>i\<close>.\<close>

fun item_key :: "json \<Rightarrow> string \<Rightarrow> py_error + json" where
  "item_key (J_Obj kvs) k = (case map_of kvs k of None \<Rightarrow> Inl Key_Error | Some v \<Rightarrow> Inr v)"
| "item_key _ k = Inl Type_Error"

fun item_at :: "json \<Rightarrow> nat \<Rightarrow> py_error + json" where
  "item_at (J_Arr xs) i = (if i < length xs then Inr (xs ! i) else Inl Index_Error)"
| "item_at (J_Str s) i = (if i < length s then Inr (J_Str [s ! i]) else Inl Index_Error)"
| "item_at (J_Obj kvs) i = Inl Key_Error"
| "item_at _ i = Inl Type_Error"

text \<open>\<open>len(x)\<close>, and the elements \<open>for y in x\<close> visits.\<close>

fun py_len :: "json \<Rightarrow> py_error + nat" where
  "py_len (J_Arr xs) = Inr (length xs)"
| "py_len (J_Str s) = Inr (length s)"
| "py_len (J_Obj kvs) = Inr (length kvs)"
| "py_len _ = Inl Type_Error"

fun py_iter :: "json \<Rightarrow> py_error + json list" where
  "py_iter (J_Arr xs) = Inr xs"
| "py_iter (J_Str s) = Inr (map (\<lambda>c. J_Str [c]) s)"
| "py_iter (J_Obj kvs) = Inr (map (\<lambda>(k, v). J_Str k) kvs)"
| "py_iter _ = Inl Type_Error"

text \<open>A method of texts: \<open>startswith\<close>, \<open>endswith\<close>, \<open>split\<close>, \<open>upper\<close>, \<open>lower\<close>.\<close>

fun as_text :: "json \<Rightarrow> py_error + string" where
  "as_text (J_Str s) = Inr s"
| "as_text _ = Inl Attribute_Error"

text \<open>\<open>p, q = x\<close>.\<close>

definition unpack_pair :: "json \<Rightarrow> py_error + json \<times> json" where
  "unpack_pair x = bind_res (py_iter x) (\<lambda>ys. case ys of [p, q] \<Rightarrow> Inr (p, q) | _ \<Rightarrow> Inl Value_Error)"

section \<open>Texts\<close>

definition begins_with :: "string \<Rightarrow> string \<Rightarrow> bool" where
  "begins_with s p \<longleftrightarrow> take (length p) s = p"

definition ends_with :: "string \<Rightarrow> string \<Rightarrow> bool" where
  "ends_with s p \<longleftrightarrow> length p \<le> length s \<and> drop (length s - length p) s = p"

text \<open>\<open>s[:-n]\<close> of a text of at least \<open>n\<close> characters, \<open>s.split(c)[0]\<close>, \<open>s.split(c)[-1]\<close> and
  \<open>s.split(c, 1)[1]\<close> of a text in which \<open>c\<close> occurs.\<close>

definition chop :: "nat \<Rightarrow> string \<Rightarrow> string" where
  "chop n s = take (length s - n) s"

definition split_first :: "char \<Rightarrow> string \<Rightarrow> string" where
  "split_first c s = takeWhile (\<lambda>x. x \<noteq> c) s"

definition split_last :: "char \<Rightarrow> string \<Rightarrow> string" where
  "split_last c s = rev (takeWhile (\<lambda>x. x \<noteq> c) (rev s))"

definition split_rest :: "char \<Rightarrow> string \<Rightarrow> string" where
  "split_rest c s = tl (dropWhile (\<lambda>x. x \<noteq> c) s)"

section \<open>Numbers\<close>

text \<open>
  \<open>float(s)\<close> of a text: white space around, a sign, digits with a point, an exponent. The words
  for infinity and for not-a-number, which Python accepts too, have no rational value and are
  refused.
\<close>

definition parse_mantissa :: "string \<Rightarrow> rat option" where
  "parse_mantissa s =
     (let a = takeWhile (\<lambda>c. c \<noteq> CHR ''.'') s; b = dropWhile (\<lambda>c. c \<noteq> CHR ''.'') s
      in if b = [] then map_option of_int (digits_value 0 False a)
         else if a = [] \<and> tl b = [] then None
         else (case (if a = [] then Some 0 else digits_value 0 False a,
                     if tl b = [] then Some 0 else digits_value 0 False (tl b)) of
                 (Some x, Some y) \<Rightarrow> Some (of_int x + of_int y / 10 ^ length (filter is_digit (tl b)))
               | _ \<Rightarrow> None))"

definition parse_exponent :: "string \<Rightarrow> int option" where
  "parse_exponent s =
     (case s of
        [] \<Rightarrow> None
      | c # cs \<Rightarrow>
          if c = CHR ''-'' then map_option uminus (digits_value 0 False cs)
          else if c = CHR ''+'' then digits_value 0 False cs
          else digits_value 0 False s)"

definition ten_to :: "int \<Rightarrow> rat" where
  "ten_to n = (if 0 \<le> n then 10 ^ nat n else 1 / 10 ^ nat (- n))"

definition parse_unsigned :: "string \<Rightarrow> rat option" where
  "parse_unsigned s =
     (let m = takeWhile (\<lambda>c. c \<noteq> CHR ''e'' \<and> c \<noteq> CHR ''E'') s;
          x = dropWhile (\<lambda>c. c \<noteq> CHR ''e'' \<and> c \<noteq> CHR ''E'') s
      in if x = [] then parse_mantissa m
         else (case (parse_mantissa m, parse_exponent (tl x)) of
                 (Some v, Some n) \<Rightarrow> Some (v * ten_to n)
               | _ \<Rightarrow> None))"

definition parse_float :: "string \<Rightarrow> rat option" where
  "parse_float s =
     (case strip s of
        [] \<Rightarrow> None
      | c # cs \<Rightarrow>
          if c = CHR ''-'' then map_option uminus (parse_unsigned cs)
          else if c = CHR ''+'' then parse_unsigned cs
          else parse_unsigned (c # cs))"

text \<open>\<open>float(x)\<close>.\<close>

fun py_float :: "json \<Rightarrow> py_error + rat" where
  "py_float (J_Int n) = Inr (of_int n)"
| "py_float (J_Num x) = Inr x"
| "py_float (J_Bool b) = Inr (if b then 1 else 0)"
| "py_float (J_Str s) = (case parse_float s of None \<Rightarrow> Inl Value_Error | Some x \<Rightarrow> Inr x)"
| "py_float _ = Inl Type_Error"

text \<open>\<open>isinstance(x, int)\<close>: a bool is an int.\<close>

fun as_int :: "json \<Rightarrow> int option" where
  "as_int (J_Int n) = Some n"
| "as_int (J_Bool b) = Some (if b then 1 else 0)"
| "as_int _ = None"

section \<open>Laws\<close>

lemma caught_Inr: "caught errs m = Inr (Some v) \<longleftrightarrow> m = Inr v"
  by (cases m) (auto simp: caught_def)

lemma map_res_length: "map_res f xs = Inr ys \<Longrightarrow> length ys = length xs"
  by (induction xs arbitrary: ys) (auto simp: bind_res_Inr)

lemma map_res_Inr: "map_res f xs = Inr ys \<longleftrightarrow> list_all2 (\<lambda>x y. f x = Inr y) xs ys"
  by (induction xs arbitrary: ys) (auto simp: bind_res_Inr list_all2_Cons1)

lemma chop_append [text_simps]: "chop (length p) (s @ p) = s"
  by (simp add: chop_def)

lemma ends_with_append [text_simps]: "ends_with (s @ p) p"
  by (simp add: ends_with_def)

lemma ends_with_chop: "ends_with s p \<Longrightarrow> chop (length p) s @ p = s"
  unfolding ends_with_def chop_def by (metis append_take_drop_id)

lemma begins_with_append [text_simps]: "begins_with (p @ s) p"
  by (simp add: begins_with_def)

lemma split_rest_append [text_simps]: "c \<notin> set p \<Longrightarrow> split_rest c (p @ c # s) = s"
  unfolding split_rest_def by (subst dropWhile_append2) auto

lemma split_first_append [text_simps]: "c \<notin> set p \<Longrightarrow> split_first c (p @ c # s) = p"
  unfolding split_first_def by (subst takeWhile_append2) auto

lemma split_last_append [text_simps]: "c \<notin> set s \<Longrightarrow> split_last c (p @ c # s) = s"
  unfolding split_last_def by (simp add: takeWhile_append)

end
