(* ===== verification/Book_Streams.thy ===== *)
theory Book_Streams
  imports Json Spreads
begin

text \<open>
  The order book streams of \<^verbatim>\<open>backend/services/orderbook_ws/adapters.py\<close>: for each venue the frames that
  subscribe to its books (\<open>build_subscribe\<close>) and what one incoming message does to the books kept
  locally and hands on (\<open>parse_message\<close>). A message is its parsed JSON. An adapter that keeps books
  is a function from the message and the books to the result and the new books, which a raised
  exception leaves as far as they were changed.
\<close>

section \<open>Books kept locally\<close>

record depth =
  dp_bids :: levels
  dp_asks :: levels

type_synonym depths = "string \<Rightarrow> depth option"
type_synonym quote = "string \<times> levels \<times> levels"

definition empty_depth :: depth where
  "empty_depth = \<lparr>dp_bids = [], dp_asks = []\<rparr>"

text \<open>\<open>self._books.setdefault(token, {...})\<close>, and \<open>on_reconnect\<close>.\<close>

definition depth_of :: "depths \<Rightarrow> string \<Rightarrow> depth" where
  "depth_of bs token = (case bs token of None \<Rightarrow> empty_depth | Some d \<Rightarrow> d)"

definition on_reconnect :: "depths \<Rightarrow> depths" where
  "on_reconnect bs = (\<lambda>_. None)"

text \<open>Best levels first.\<close>

definition best_bids :: "nat \<Rightarrow> levels \<Rightarrow> levels" where
  "best_bids n s = take n (sort_key (\<lambda>l. - fst l) s)"

definition best_asks :: "nat \<Rightarrow> levels \<Rightarrow> levels" where
  "best_asks n s = take n (sort_key fst s)"

text \<open>One level of an update: no quantity removes the level.\<close>

definition put_level :: "rat \<Rightarrow> rat \<Rightarrow> levels \<Rightarrow> levels" where
  "put_level p q s = (if q \<le> 0 then AList.delete p s else AList.update p q s)"

text \<open>The loop over the levels of one side; \<open>read\<close> is its try block, \<open>None\<close> its \<open>continue\<close>.\<close>

fun merge_levels :: "(json \<Rightarrow> py_error + (rat \<times> rat) option) \<Rightarrow> json list \<Rightarrow> levels \<Rightarrow> (py_error + unit) \<times> levels" where
  "merge_levels read [] s = (Inr (), s)"
| "merge_levels read (l # ls) s =
     (case read l of
        Inl e \<Rightarrow> (Inl e, s)
      | Inr None \<Rightarrow> merge_levels read ls s
      | Inr (Some (p, q)) \<Rightarrow> merge_levels read ls (put_level p q s))"

definition merge_side :: "(json \<Rightarrow> py_error + (rat \<times> rat) option) \<Rightarrow> json \<Rightarrow> levels \<Rightarrow> (py_error + unit) \<times> levels" where
  "merge_side read raw s =
     (case py_iter raw of Inl e \<Rightarrow> (Inl e, s) | Inr ls \<Rightarrow> merge_levels read ls s)"

text \<open>Bids then asks, and asks then bids.\<close>

definition merge_depth :: "(json \<Rightarrow> py_error + (rat \<times> rat) option) \<Rightarrow> json \<Rightarrow> json \<Rightarrow> depth \<Rightarrow> (py_error + unit) \<times> depth" where
  "merge_depth read bids asks d =
     (let (r, b) = merge_side read bids (dp_bids d); d = d\<lparr>dp_bids := b\<rparr>
      in case r of
           Inl e \<Rightarrow> (Inl e, d)
         | Inr _ \<Rightarrow> (let (r, a) = merge_side read asks (dp_asks d) in (r, d\<lparr>dp_asks := a\<rparr>)))"

definition merge_depth_asks_first :: "(json \<Rightarrow> py_error + (rat \<times> rat) option) \<Rightarrow> json \<Rightarrow> json \<Rightarrow> depth \<Rightarrow> (py_error + unit) \<times> depth" where
  "merge_depth_asks_first read asks bids d =
     (let (r, a) = merge_side read asks (dp_asks d); d = d\<lparr>dp_asks := a\<rparr>
      in case r of
           Inl e \<Rightarrow> (Inl e, d)
         | Inr _ \<Rightarrow> (let (r, b) = merge_side read bids (dp_bids d) in (r, d\<lparr>dp_bids := b\<rparr>)))"

text \<open>\<open>data.get("bids") or []\<close> and the same for asks.\<close>

definition merge_data :: "(json \<Rightarrow> py_error + (rat \<times> rat) option) \<Rightarrow> json \<Rightarrow> depth \<Rightarrow> (py_error + unit) \<times> depth" where
  "merge_data read data d =
     (case (get_key data ''bids'', get_key data ''asks'') of
        (Inr b, Inr a) \<Rightarrow> merge_depth read (py_or b (J_Arr [])) (py_or a (J_Arr [])) d
      | (Inl e, _) \<Rightarrow> (Inl e, d)
      | (_, Inl e) \<Rightarrow> (Inl e, d))"

definition wiped :: "bool \<Rightarrow> depth \<Rightarrow> depth" where
  "wiped snapshot d = (if snapshot then empty_depth else d)"

text \<open>The merged book is kept; the best \<open>n\<close> levels of each side are handed on.\<close>

definition publish :: "nat \<Rightarrow> string \<Rightarrow> depths \<Rightarrow> (py_error + unit) \<times> depth \<Rightarrow> (py_error + quote option) \<times> depths" where
  "publish n token bs m =
     (case m of (r, d) \<Rightarrow>
        ((case r of Inl e \<Rightarrow> Inl e
          | Inr _ \<Rightarrow> Inr (Some (token, best_bids n (dp_bids d), best_asks n (dp_asks d)))),
         bs(token \<mapsto> d)))"

text \<open>The part of \<open>parse_message\<close> before the book is looked up may raise or return None.\<close>

definition with_frame :: "py_error + 'f option \<Rightarrow> depths \<Rightarrow> ('f \<Rightarrow> (py_error + quote option) \<times> depths) \<Rightarrow> (py_error + quote option) \<times> depths" where
  "with_frame r bs f =
     (case r of Inl e \<Rightarrow> (Inl e, bs) | Inr None \<Rightarrow> (Inr None, bs) | Inr (Some x) \<Rightarrow> f x)"

section \<open>Levels\<close>

text \<open>\<open>_to_book\<close>: every level must have a price and a quantity.\<close>

definition pair_level :: "json \<Rightarrow> py_error + rat \<times> rat" where
  "pair_level x =
     bind_res (item_at x 0) (\<lambda>p. bind_res (py_float p) (\<lambda>p.
     bind_res (item_at x 1) (\<lambda>q. bind_res (py_float q) (\<lambda>q. Inr (p, q)))))"

definition side_levels :: "json \<Rightarrow> py_error + levels" where
  "side_levels raw = (if py_true raw then bind_res (py_iter raw) (map_res pair_level) else Inr [])"

definition to_book :: "json \<Rightarrow> json \<Rightarrow> py_error + levels \<times> levels" where
  "to_book raw_bids raw_asks =
     bind_res (side_levels raw_bids) (\<lambda>b. bind_res (side_levels raw_asks) (\<lambda>a. Inr (b, a)))"

text \<open>The level of an update: unreadable ones are skipped.\<close>

definition read_level :: "json \<Rightarrow> py_error + (rat \<times> rat) option" where
  "read_level l = caught [Value_Error, Index_Error, Type_Error] (pair_level l)"

definition quote_of :: "string \<Rightarrow> py_error + levels \<times> levels \<Rightarrow> py_error + quote option" where
  "quote_of token m = bind_res m (\<lambda>(b, a). Inr (Some (token, b, a)))"

text \<open>The same where a book with two empty sides is no news.\<close>

definition quote_unless_empty :: "string \<Rightarrow> py_error + levels \<times> levels \<Rightarrow> py_error + quote option" where
  "quote_unless_empty token m =
     bind_res m (\<lambda>(b, a). Inr (if b = [] \<and> a = [] then None else Some (token, b, a)))"

section \<open>Binance, Aster and Bybit\<close>

text \<open>Twenty levels in every message; Binance spot and Aster use the same format.\<close>

definition binance_parse :: "json \<Rightarrow> py_error + quote option" where
  "binance_parse msg =
     bind_res (get_key msg ''result'') (\<lambda>res. bind_res (has_key msg ''params'') (\<lambda>params.
     if res = J_Null \<and> params then Inr None
     else bind_res (has_key msg ''s'') (\<lambda>has_s.
       if \<not> has_s then Inr None
       else bind_res (item_key msg ''s'') (\<lambda>s. bind_res (as_text s) (\<lambda>sym.
         if \<not> ends_with sym ''USDT'' then Inr None
         else bind_res (get_key msg ''b'') (\<lambda>b. bind_res (get_key msg ''a'') (\<lambda>a.
           quote_of (chop 4 sym) (to_book b a))))))))"

text \<open>Bybit sends a snapshot and then changes; a change must be a pair.\<close>

definition bybit_level :: "json \<Rightarrow> py_error + (rat \<times> rat)" where
  "bybit_level x =
     bind_res (unpack_pair x) (\<lambda>(p, q).
     bind_res (py_float p) (\<lambda>p. bind_res (py_float q) (\<lambda>q. Inr (p, q))))"

definition dict_of_levels :: "levels \<Rightarrow> levels" where
  "dict_of_levels ls = foldl (\<lambda>s (p, q). AList.update p q s) [] ls"

definition bybit_snapshot :: "json \<Rightarrow> string \<Rightarrow> py_error + levels" where
  "bybit_snapshot data k =
     bind_res (get_or data k (J_Arr [])) (\<lambda>raw. bind_res (py_iter raw) (\<lambda>ls.
     bind_res (map_res bybit_level ls) (\<lambda>ls. Inr (dict_of_levels ls))))"

fun bybit_changes :: "json list \<Rightarrow> levels \<Rightarrow> (py_error + unit) \<times> levels" where
  "bybit_changes [] s = (Inr (), s)"
| "bybit_changes (x # xs) s =
     (case bybit_level x of
        Inl e \<Rightarrow> (Inl e, s)
      | Inr (p, q) \<Rightarrow> bybit_changes xs (if q = 0 then AList.delete p s else AList.update p q s))"

definition bybit_delta :: "json \<Rightarrow> string \<Rightarrow> levels \<Rightarrow> (py_error + unit) \<times> levels" where
  "bybit_delta data k s =
     (case bind_res (get_or data k (J_Arr [])) py_iter of
        Inl e \<Rightarrow> (Inl e, s)
      | Inr ls \<Rightarrow> bybit_changes ls s)"

definition bybit_merge :: "bool \<Rightarrow> json \<Rightarrow> depth \<Rightarrow> (py_error + unit) \<times> depth" where
  "bybit_merge snapshot data d =
     (if snapshot
      then (case bybit_snapshot data ''b'' of
              Inl e \<Rightarrow> (Inl e, d)
            | Inr b \<Rightarrow>
                (let d = d\<lparr>dp_bids := b\<rparr>
                 in case bybit_snapshot data ''a'' of
                      Inl e \<Rightarrow> (Inl e, d)
                    | Inr a \<Rightarrow> (Inr (), d\<lparr>dp_asks := a\<rparr>)))
      else (let (r, b) = bybit_delta data ''b'' (dp_bids d); d = d\<lparr>dp_bids := b\<rparr>
            in case r of
                 Inl e \<Rightarrow> (Inl e, d)
               | Inr _ \<Rightarrow> (let (r, a) = bybit_delta data ''a'' (dp_asks d) in (r, d\<lparr>dp_asks := a\<rparr>))))"

definition bybit_frame :: "json \<Rightarrow> py_error + (string \<times> bool \<times> json) option" where
  "bybit_frame msg =
     bind_res (get_key msg ''op'') (\<lambda>op. bind_res (get_key msg ''success'') (\<lambda>success.
     if py_true op \<or> success \<noteq> J_Null then Inr None
     else bind_res (get_or msg ''topic'' (J_Str [])) (\<lambda>t. bind_res (as_text t) (\<lambda>topic.
       if \<not> begins_with topic ''orderbook.200.'' then Inr None
       else let sym_pair = split_last (CHR ''.'') topic
            in if \<not> ends_with sym_pair ''USDT'' then Inr None
               else bind_res (get_or msg ''data'' (J_Obj [])) (\<lambda>data.
                    bind_res (get_or msg ''type'' (J_Str [])) (\<lambda>msg_type.
                      Inr (Some (chop 4 sym_pair, msg_type = J_Str ''snapshot'', data))))))))"

definition bybit_parse :: "json \<Rightarrow> depths \<Rightarrow> (py_error + quote option) \<times> depths" where
  "bybit_parse msg bs = with_frame (bybit_frame msg) bs (\<lambda>(token, snapshot, data).
     publish 50 token bs (bybit_merge snapshot data (depth_of bs token)))"

section \<open>OKX and Bitget\<close>

text \<open>The perpetual and the spot channel of OKX differ in the suffix of the instrument.\<close>

definition okx_frame :: "string \<Rightarrow> json \<Rightarrow> py_error + (string \<times> bool \<times> json) option" where
  "okx_frame suffix msg =
     bind_res (get_key msg ''event'') (\<lambda>event.
     if py_true event then Inr None
     else bind_res (get_or msg ''arg'' (J_Obj [])) (\<lambda>arg. bind_res (get_key arg ''channel'') (\<lambda>channel.
       if channel \<noteq> J_Str ''books'' then Inr None
       else bind_res (get_or arg ''instId'' (J_Str [])) (\<lambda>i. bind_res (as_text i) (\<lambda>inst.
         if \<not> ends_with inst suffix then Inr None
         else bind_res (get_key msg ''data'') (\<lambda>data_list.
           if \<not> py_true data_list then Inr None
           else bind_res (item_at data_list 0) (\<lambda>data. bind_res (get_key msg ''action'') (\<lambda>a.
             bind_res (if py_true a then Inr a else
                         bind_res (get_key data ''action'') (\<lambda>a. Inr (py_or a (J_Str ''snapshot'')))) (\<lambda>action.
             Inr (Some (split_first (CHR ''-'') inst, action = J_Str ''snapshot'', data)))))))))))"

definition okx_parse :: "string \<Rightarrow> json \<Rightarrow> depths \<Rightarrow> (py_error + quote option) \<times> depths" where
  "okx_parse suffix msg bs = with_frame (okx_frame suffix msg) bs (\<lambda>(token, snapshot, data).
     publish 200 token bs (merge_data read_level data (wiped snapshot (depth_of bs token))))"

definition bitget_frame :: "json \<Rightarrow> py_error + (string \<times> bool \<times> json) option" where
  "bitget_frame msg =
     bind_res (get_key msg ''event'') (\<lambda>event.
     if py_true event then Inr None
     else bind_res (get_or msg ''arg'' (J_Obj [])) (\<lambda>arg. bind_res (get_key arg ''channel'') (\<lambda>channel.
       if channel \<noteq> J_Str ''books'' then Inr None
       else bind_res (get_or arg ''instId'' (J_Str [])) (\<lambda>i. bind_res (as_text i) (\<lambda>inst.
         if \<not> ends_with inst ''USDT'' then Inr None
         else bind_res (get_key msg ''action'') (\<lambda>action. bind_res (get_key msg ''data'') (\<lambda>data_list.
           bind_res (item_at (py_or data_list (J_Arr [J_Obj []])) 0) (\<lambda>data.
             Inr (Some (chop 4 inst, py_or action (J_Str ''snapshot'') = J_Str ''snapshot'', data))))))))))"

definition bitget_parse :: "json \<Rightarrow> depths \<Rightarrow> (py_error + quote option) \<times> depths" where
  "bitget_parse msg bs = with_frame (bitget_frame msg) bs (\<lambda>(token, snapshot, data).
     publish 200 token bs (merge_data read_level data (wiped snapshot (depth_of bs token))))"

definition bitget_spot_frame :: "json \<Rightarrow> py_error + (string \<times> bool \<times> json) option" where
  "bitget_spot_frame msg =
     bind_res (get_key msg ''event'') (\<lambda>event.
     if py_true event then Inr None
     else bind_res (get_or msg ''arg'' (J_Obj [])) (\<lambda>arg. bind_res (get_key arg ''channel'') (\<lambda>channel.
       if channel \<noteq> J_Str ''books'' then Inr None
       else bind_res (get_key arg ''instType'') (\<lambda>inst_type.
       if inst_type \<noteq> J_Str ''SPOT'' then Inr None
       else bind_res (get_or arg ''instId'' (J_Str [])) (\<lambda>i. bind_res (as_text i) (\<lambda>inst.
         if \<not> ends_with inst ''USDT'' then Inr None
         else bind_res (get_key msg ''data'') (\<lambda>data_list.
           if \<not> py_true data_list then Inr None
           else bind_res (item_at data_list 0) (\<lambda>data. bind_res (get_key msg ''action'') (\<lambda>action.
             Inr (Some (chop 4 inst, py_or action (J_Str ''snapshot'') = J_Str ''snapshot'', data)))))))))))"

definition bitget_spot_parse :: "json \<Rightarrow> depths \<Rightarrow> (py_error + quote option) \<times> depths" where
  "bitget_spot_parse msg bs = with_frame (bitget_spot_frame msg) bs (\<lambda>(token, snapshot, data).
     publish 200 token bs (merge_data read_level data (wiped snapshot (depth_of bs token))))"

section \<open>Gate, MEXC and WhiteBit\<close>

text \<open>A level of Gate is an object or a pair; a shorter list is skipped.\<close>

definition gate_values :: "json \<Rightarrow> json \<times> json" where
  "gate_values l =
     (case l of
        J_Obj kvs \<Rightarrow> ((case map_of kvs ''p'' of None \<Rightarrow> J_Null | Some v \<Rightarrow> v),
                      (case map_of kvs ''s'' of None \<Rightarrow> J_Null | Some v \<Rightarrow> v))
      | J_Arr (p # q # _) \<Rightarrow> (p, q)
      | _ \<Rightarrow> (J_Null, J_Null))"

definition gate_level :: "json \<Rightarrow> py_error + (rat \<times> rat) option" where
  "gate_level l =
     (let (p, q) = gate_values l
      in if p = J_Null \<or> q = J_Null then Inr None
         else caught [Type_Error, Value_Error]
                (bind_res (py_float p) (\<lambda>p. bind_res (py_float q) (\<lambda>q. Inr (p, q)))))"

definition gate_frame :: "json \<Rightarrow> py_error + (string \<times> bool \<times> json) option" where
  "gate_frame msg =
     bind_res (get_key msg ''channel'') (\<lambda>channel.
     if channel \<noteq> J_Str ''futures.order_book_update'' then Inr None
     else bind_res (get_key msg ''event'') (\<lambda>ev.
       if ev \<noteq> J_Str ''all'' \<and> ev \<noteq> J_Str ''update'' then Inr None
       else bind_res (get_key msg ''result'') (\<lambda>r. let res = py_or r (J_Obj []) in
         bind_res (get_key res ''s'') (\<lambda>s. bind_res (get_key res ''contract'') (\<lambda>c.
         bind_res (as_text (py_or s (py_or c (J_Str [])))) (\<lambda>contract.
           if \<not> ends_with contract ''_USDT'' then Inr None
           else Inr (Some (chop 5 contract, ev = J_Str ''all'', res))))))))"

definition gate_merge :: "json \<Rightarrow> depth \<Rightarrow> (py_error + unit) \<times> depth" where
  "gate_merge res d =
     (case (bind_res (get_key res ''b'') (\<lambda>b. bind_res (get_key res ''bids'') (\<lambda>bids. Inr (py_or b (py_or bids (J_Arr []))))),
            bind_res (get_key res ''a'') (\<lambda>a. bind_res (get_key res ''asks'') (\<lambda>asks. Inr (py_or a (py_or asks (J_Arr [])))))) of
        (Inr b, Inr a) \<Rightarrow> merge_depth gate_level b a d
      | (Inl e, _) \<Rightarrow> (Inl e, d)
      | (_, Inl e) \<Rightarrow> (Inl e, d))"

definition gate_parse :: "json \<Rightarrow> depths \<Rightarrow> (py_error + quote option) \<times> depths" where
  "gate_parse msg bs = with_frame (gate_frame msg) bs (\<lambda>(token, snapshot, res).
     publish 200 token bs (gate_merge res (wiped snapshot (depth_of bs token))))"

definition mexc_frame :: "json \<Rightarrow> py_error + (string \<times> bool \<times> json) option" where
  "mexc_frame msg =
     bind_res (get_key msg ''channel'') (\<lambda>ch.
     if ch \<noteq> J_Str ''push.depth'' \<and> ch \<noteq> J_Str ''push.depth.full'' then Inr None
     else bind_res (get_key msg ''data'') (\<lambda>data. bind_res (get_key msg ''symbol'') (\<lambda>s.
       bind_res (as_text (py_or s (J_Str []))) (\<lambda>sym.
         if \<not> ends_with sym ''_USDT'' then Inr None
         else Inr (Some (chop 5 sym, ch = J_Str ''push.depth.full'', py_or data (J_Obj [])))))))"

definition mexc_parse :: "json \<Rightarrow> depths \<Rightarrow> (py_error + quote option) \<times> depths" where
  "mexc_parse msg bs = with_frame (mexc_frame msg) bs (\<lambda>(token, snapshot, data).
     publish 200 token bs (merge_data read_level data (wiped snapshot (depth_of bs token))))"

definition whitebit_frame :: "json \<Rightarrow> py_error + (string \<times> bool \<times> json) option" where
  "whitebit_frame msg =
     bind_res (get_key msg ''method'') (\<lambda>m.
     if m \<noteq> J_Str ''depth_update'' then Inr None
     else bind_res (get_key msg ''params'') (\<lambda>p. let params = py_or p (J_Arr []) in
       bind_res (py_len params) (\<lambda>n.
       if n < 3 then Inr None
       else bind_res (item_at params 0) (\<lambda>snapshot. bind_res (item_at params 1) (\<lambda>payload.
         bind_res (item_at params 2) (\<lambda>market.
           case market of
             J_Str m \<Rightarrow> if \<not> ends_with m ''_PERP'' then Inr None
                        else Inr (Some (chop 5 m, py_true snapshot, py_or payload (J_Obj [])))
           | _ \<Rightarrow> Inr None))))))"

definition whitebit_parse :: "json \<Rightarrow> depths \<Rightarrow> (py_error + quote option) \<times> depths" where
  "whitebit_parse msg bs = with_frame (whitebit_frame msg) bs (\<lambda>(token, snapshot, payload).
     publish 200 token bs (merge_data read_level payload (wiped snapshot (depth_of bs token))))"

section \<open>Paradex, Kraken, Backpack and Lighter\<close>

text \<open>Paradex lists insertions and deletions, each with its side.\<close>

datatype book_side = Bid_Side | Ask_Side

definition paradex_side :: "json \<Rightarrow> py_error + book_side option" where
  "paradex_side entry =
     bind_res (get_or entry ''side'' (J_Str [])) (\<lambda>s. bind_res (as_text s) (\<lambda>s.
       Inr (if upper s = ''BUY'' then Some Bid_Side else if upper s = ''SELL'' then Some Ask_Side else None)))"

definition at_side :: "book_side \<Rightarrow> (levels \<Rightarrow> levels) \<Rightarrow> depth \<Rightarrow> depth" where
  "at_side sd f d = (case sd of Bid_Side \<Rightarrow> d\<lparr>dp_bids := f (dp_bids d)\<rparr> | Ask_Side \<Rightarrow> d\<lparr>dp_asks := f (dp_asks d)\<rparr>)"

definition paradex_entry :: "json \<Rightarrow> py_error + (rat \<times> rat) option" where
  "paradex_entry entry =
     caught [Key_Error, Type_Error, Value_Error]
       (bind_res (item_key entry ''price'') (\<lambda>p. bind_res (py_float p) (\<lambda>p.
        bind_res (item_key entry ''size'') (\<lambda>q. bind_res (py_float q) (\<lambda>q. Inr (p, q))))))"

fun paradex_inserts :: "json list \<Rightarrow> depth \<Rightarrow> (py_error + unit) \<times> depth" where
  "paradex_inserts [] d = (Inr (), d)"
| "paradex_inserts (x # xs) d =
     (case paradex_entry x of
        Inl e \<Rightarrow> (Inl e, d)
      | Inr None \<Rightarrow> paradex_inserts xs d
      | Inr (Some (p, q)) \<Rightarrow>
          (case paradex_side x of
             Inl e \<Rightarrow> (Inl e, d)
           | Inr None \<Rightarrow> paradex_inserts xs d
           | Inr (Some sd) \<Rightarrow> paradex_inserts xs (at_side sd (put_level p q) d)))"

fun paradex_deletes :: "json list \<Rightarrow> depth \<Rightarrow> (py_error + unit) \<times> depth" where
  "paradex_deletes [] d = (Inr (), d)"
| "paradex_deletes (x # xs) d =
     (case caught [Key_Error, Type_Error, Value_Error] (bind_res (item_key x ''price'') py_float) of
        Inl e \<Rightarrow> (Inl e, d)
      | Inr None \<Rightarrow> paradex_deletes xs d
      | Inr (Some p) \<Rightarrow>
          (case paradex_side x of
             Inl e \<Rightarrow> (Inl e, d)
           | Inr None \<Rightarrow> paradex_deletes xs d
           | Inr (Some sd) \<Rightarrow> paradex_deletes xs (at_side sd (AList.delete p) d)))"

definition paradex_frame :: "json \<Rightarrow> py_error + (string \<times> bool \<times> json) option" where
  "paradex_frame msg =
     bind_res (get_key msg ''method'') (\<lambda>m.
     if m \<noteq> J_Str ''subscription'' then Inr None
     else bind_res (get_key msg ''params'') (\<lambda>p. let params = py_or p (J_Obj []) in
       bind_res (get_key params ''channel'') (\<lambda>c. bind_res (as_text (py_or c (J_Str []))) (\<lambda>channel.
         if \<not> begins_with channel ''order_book.'' then Inr None
         else let market = split_first (CHR ''.'') (split_rest (CHR ''.'') channel)
              in if \<not> ends_with market ''-USD-PERP'' then Inr None
                 else bind_res (get_key params ''data'') (\<lambda>d. let data = py_or d (J_Obj []) in
                        bind_res (get_key data ''update_type'') (\<lambda>u.
                          Inr (Some (chop 9 market, py_or u (J_Str ''s'') = J_Str ''s'', data))))))))"

definition paradex_merge :: "json \<Rightarrow> depth \<Rightarrow> (py_error + unit) \<times> depth" where
  "paradex_merge data d =
     (case bind_res (get_key data ''inserts'') (\<lambda>i. py_iter (py_or i (J_Arr []))) of
        Inl e \<Rightarrow> (Inl e, d)
      | Inr ins \<Rightarrow>
          (case paradex_inserts ins d of
             (Inl e, d) \<Rightarrow> (Inl e, d)
           | (Inr _, d) \<Rightarrow>
               (case bind_res (get_key data ''deletes'') (\<lambda>i. py_iter (py_or i (J_Arr []))) of
                  Inl e \<Rightarrow> (Inl e, d)
                | Inr del \<Rightarrow> paradex_deletes del d)))"

definition paradex_parse :: "json \<Rightarrow> depths \<Rightarrow> (py_error + quote option) \<times> depths" where
  "paradex_parse msg bs = with_frame (paradex_frame msg) bs (\<lambda>(token, snapshot, data).
     publish 15 token bs (paradex_merge data (wiped snapshot (depth_of bs token))))"

text \<open>Kraken names its contracts \<open>PF_XBTUSD\<close>. A snapshot is stored as it comes; a change is one level.\<close>

definition kraken_norm :: "string \<Rightarrow> string" where
  "kraken_norm s = ''PF_'' @ (if upper s = ''BTC'' then ''XBT'' else upper s) @ ''USD''"

definition kraken_denorm :: "string \<Rightarrow> string" where
  "kraken_denorm p =
     (let s = (if begins_with p ''PF_'' then drop 3 p else p);
          s = (if ends_with s ''USD'' then chop 3 s else s)
      in if s = ''XBT'' then ''BTC'' else s)"

definition kraken_level :: "json \<Rightarrow> py_error + (rat \<times> rat) option" where
  "kraken_level l =
     caught [Key_Error, Type_Error, Value_Error]
       (bind_res (item_key l ''qty'') (\<lambda>q. bind_res (py_float q) (\<lambda>q.
        bind_res (item_key l ''price'') (\<lambda>p. bind_res (py_float p) (\<lambda>p. Inr (p, q))))))"

fun kraken_fill :: "json list \<Rightarrow> levels \<Rightarrow> (py_error + unit) \<times> levels" where
  "kraken_fill [] s = (Inr (), s)"
| "kraken_fill (l # ls) s =
     (case kraken_level l of
        Inl e \<Rightarrow> (Inl e, s)
      | Inr None \<Rightarrow> kraken_fill ls s
      | Inr (Some (p, q)) \<Rightarrow> kraken_fill ls (AList.update p q s))"

definition kraken_snapshot :: "json \<Rightarrow> (py_error + unit) \<times> depth" where
  "kraken_snapshot msg =
     (case bind_res (get_key msg ''bids'') (\<lambda>b. py_iter (py_or b (J_Arr []))) of
        Inl e \<Rightarrow> (Inl e, empty_depth)
      | Inr bids \<Rightarrow>
          (let (r, b) = kraken_fill bids []; d = empty_depth\<lparr>dp_bids := b\<rparr>
           in case r of
                Inl e \<Rightarrow> (Inl e, d)
              | Inr _ \<Rightarrow>
                  (case bind_res (get_key msg ''asks'') (\<lambda>a. py_iter (py_or a (J_Arr []))) of
                     Inl e \<Rightarrow> (Inl e, d)
                   | Inr asks \<Rightarrow> (let (r, a) = kraken_fill asks [] in (r, d\<lparr>dp_asks := a\<rparr>)))))"

definition kraken_change :: "json \<Rightarrow> py_error + (book_side \<times> rat \<times> rat) option" where
  "kraken_change msg =
     caught [Type_Error, Value_Error]
       (bind_res (get_key msg ''side'') (\<lambda>s. bind_res (as_text (py_or s (J_Str []))) (\<lambda>s.
        bind_res (get_key msg ''price'') (\<lambda>p. bind_res (py_float p) (\<lambda>p.
        bind_res (get_key msg ''qty'') (\<lambda>q. bind_res (py_float q) (\<lambda>q.
          Inr (if lower s = ''buy'' then Bid_Side else Ask_Side, p, q))))))))"

definition kraken_parse :: "json \<Rightarrow> depths \<Rightarrow> (py_error + quote option) \<times> depths" where
  "kraken_parse msg bs =
     (case msg of
        J_Obj _ \<Rightarrow>
          with_frame (bind_res (get_key msg ''feed'') (\<lambda>f. bind_res (get_key msg ''product_id'') (\<lambda>p.
              bind_res (as_text (py_or p (J_Str []))) (\<lambda>product.
                if \<not> begins_with product ''PF_'' then Inr None
                else Inr (Some (py_or f (J_Str []), kraken_denorm product)))))) bs
            (\<lambda>(feed, sym). let d = depth_of bs sym in
               if feed = J_Str ''book_snapshot'' then publish 50 sym bs (kraken_snapshot msg)
               else if feed = J_Str ''book''
               then (case kraken_change msg of
                       Inl e \<Rightarrow> (Inl e, bs(sym \<mapsto> d))
                     | Inr None \<Rightarrow> (Inr None, bs(sym \<mapsto> d))
                     | Inr (Some (sd, p, q)) \<Rightarrow> publish 50 sym bs (Inr (), at_side sd (put_level p q) d))
               else (Inr None, bs(sym \<mapsto> d)))
      | _ \<Rightarrow> (Inr None, bs))"

text \<open>Backpack sends changes only; the book is seeded over REST before the subscription.\<close>

definition backpack_frame :: "json \<Rightarrow> py_error + (string \<times> json) option" where
  "backpack_frame msg =
     (case msg of
        J_Obj _ \<Rightarrow>
          bind_res (get_key msg ''stream'') (\<lambda>s. bind_res (as_text (py_or s (J_Str []))) (\<lambda>stream.
            if \<not> begins_with stream ''depth.'' then Inr None
            else let sym = drop 6 stream
                 in if \<not> ends_with sym ''_USDC_PERP'' then Inr None
                    else bind_res (get_key msg ''data'') (\<lambda>data.
                           Inr (Some (chop 10 sym, py_or data (J_Obj []))))))
      | _ \<Rightarrow> Inr None)"

definition backpack_merge :: "json \<Rightarrow> depth \<Rightarrow> (py_error + unit) \<times> depth" where
  "backpack_merge data d =
     (case (get_key data ''a'', get_key data ''b'') of
        (Inr a, Inr b) \<Rightarrow> merge_depth_asks_first read_level (py_or a (J_Arr [])) (py_or b (J_Arr [])) d
      | (Inl e, _) \<Rightarrow> (Inl e, d)
      | (_, Inl e) \<Rightarrow> (Inl e, d))"

definition backpack_parse :: "json \<Rightarrow> depths \<Rightarrow> (py_error + quote option) \<times> depths" where
  "backpack_parse msg bs = with_frame (backpack_frame msg) bs (\<lambda>(sym, data).
     publish 50 sym bs (backpack_merge data (depth_of bs sym)))"

text \<open>
  \<open>_seed_rest\<close> with the answer of the venue: what it lists is written over the book. The symbol
  counts as seeded unless the request failed or the answer cannot be read.
\<close>

fun seed_levels :: "json list \<Rightarrow> levels \<Rightarrow> (py_error + unit) \<times> levels" where
  "seed_levels [] s = (Inr (), s)"
| "seed_levels (l # ls) s =
     (case caught [Type_Error, Value_Error, Index_Error]
             (bind_res (item_at l 1) (\<lambda>q. bind_res (py_float q) (\<lambda>q.
              bind_res (item_at l 0) (\<lambda>p. bind_res (py_float p) (\<lambda>p. Inr (p, q)))))) of
        Inl e \<Rightarrow> (Inl e, s)
      | Inr None \<Rightarrow> seed_levels ls s
      | Inr (Some (p, q)) \<Rightarrow> seed_levels ls (AList.update p q s))"

definition seed_side :: "json \<Rightarrow> string \<Rightarrow> levels \<Rightarrow> (py_error + unit) \<times> levels" where
  "seed_side d k s =
     (case bind_res (get_key d k) (\<lambda>b. py_iter (py_or b (J_Arr []))) of
        Inl e \<Rightarrow> (Inl e, s)
      | Inr ls \<Rightarrow> seed_levels ls s)"

definition seed_rest :: "json option \<Rightarrow> string \<Rightarrow> depths \<times> string list \<Rightarrow> (py_error + unit) \<times> depths \<times> string list" where
  "seed_rest answer token st =
     (let (bs, seeded) = st
      in if token \<in> set seeded then (Inr (), bs, seeded)
         else (case answer of
                 None \<Rightarrow> (Inr (), bs, seeded)
               | Some d \<Rightarrow>
                   (let d = py_or d (J_Obj []); old = depth_of bs token;
                        (r, b) = seed_side d ''bids'' (dp_bids old); new = old\<lparr>dp_bids := b\<rparr>
                    in case r of
                         Inl e \<Rightarrow> (Inl e, bs(token \<mapsto> new), seeded)
                       | Inr _ \<Rightarrow>
                           (let (r, a) = seed_side d ''asks'' (dp_asks new); bs = bs(token \<mapsto> new\<lparr>dp_asks := a\<rparr>)
                            in case r of Inl e \<Rightarrow> (Inl e, bs, seeded) | Inr _ \<Rightarrow> (Inr (), bs, token # seeded)))))"

text \<open>Lighter names books by number; \<open>sym_by_id\<close> is what the last refresh of the id map left.\<close>

definition lighter_level :: "json \<Rightarrow> py_error + (rat \<times> rat) option" where
  "lighter_level x =
     bind_res (caught [Type_Error, Value_Error]
       (bind_res (get_key x ''price'') (\<lambda>p. bind_res (py_float (py_or p (J_Int 0))) (\<lambda>p.
        bind_res (get_key x ''size'') (\<lambda>q. bind_res (py_float (py_or q (J_Int 0))) (\<lambda>q. Inr (p, q)))))))
     (\<lambda>m. Inr (case m of Some (p, q) \<Rightarrow> if p \<le> 0 then None else Some (p, q) | None \<Rightarrow> None))"

definition lighter_frame :: "(int \<Rightarrow> string option) \<Rightarrow> json \<Rightarrow> py_error + (string \<times> json) option" where
  "lighter_frame sym_by_id msg =
     (case msg of
        J_Obj _ \<Rightarrow>
          bind_res (get_key msg ''channel'') (\<lambda>c. bind_res (as_text (py_or c (J_Str []))) (\<lambda>ch.
            if \<not> begins_with ch ''order_book:'' then Inr None
            else (case parse_int (split_rest (CHR '':'') ch) of
                    None \<Rightarrow> Inr None
                  | Some mid \<Rightarrow>
                      (case sym_by_id mid of
                         None \<Rightarrow> Inr None
                       | Some token \<Rightarrow>
                           if token = [] then Inr None
                           else bind_res (get_key msg ''order_book'') (\<lambda>ob.
                                  Inr (Some (token, py_or ob (J_Obj []))))))))
      | _ \<Rightarrow> Inr None)"

definition lighter_merge :: "json \<Rightarrow> depth \<Rightarrow> (py_error + unit) \<times> depth" where
  "lighter_merge ob d =
     (case (get_key ob ''asks'', get_key ob ''bids'') of
        (Inr a, Inr b) \<Rightarrow> merge_depth_asks_first lighter_level (py_or a (J_Arr [])) (py_or b (J_Arr [])) d
      | (Inl e, _) \<Rightarrow> (Inl e, d)
      | (_, Inl e) \<Rightarrow> (Inl e, d))"

definition lighter_parse :: "(int \<Rightarrow> string option) \<Rightarrow> json \<Rightarrow> depths \<Rightarrow> (py_error + quote option) \<times> depths" where
  "lighter_parse sym_by_id msg bs = with_frame (lighter_frame sym_by_id msg) bs (\<lambda>(sym, ob).
     publish 50 sym bs (lighter_merge ob (depth_of bs sym)))"

text \<open>\<open>_refresh_id_map\<close> with the answer of the venue: an answer without a market changes nothing.\<close>

definition lighter_market :: "json \<Rightarrow> py_error + (string \<times> int) option" where
  "lighter_market b =
     bind_res (get_key b ''market_type'') (\<lambda>mt. bind_res (as_text (py_or mt (J_Str []))) (\<lambda>mt.
     if lower mt \<noteq> ''perp'' then Inr None
     else bind_res (get_key b ''status'') (\<lambda>st. bind_res (as_text (py_or st (J_Str []))) (\<lambda>st.
       if lower st \<noteq> ''active'' then Inr None
       else bind_res (get_key b ''symbol'') (\<lambda>s. bind_res (as_text (py_or s (J_Str []))) (\<lambda>s.
         bind_res (get_key b ''market_id'') (\<lambda>mid.
           Inr (case as_int mid of
                  Some i \<Rightarrow> if upper s = [] then None else Some (upper s, i)
                | None \<Rightarrow> None))))))))"

definition lighter_markets :: "json \<Rightarrow> py_error + (string \<times> int) list" where
  "lighter_markets data =
     bind_res (get_key (py_or data (J_Obj [])) ''order_books'') (\<lambda>books.
     bind_res (py_iter (py_or books (J_Arr []))) (\<lambda>bs.
     bind_res (map_res lighter_market bs) (\<lambda>ms. Inr (somes ms))))"

record id_map =
  im_id_by_sym :: "string \<Rightarrow> int option"
  im_sym_by_id :: "int \<Rightarrow> string option"
  im_at :: rat

definition refresh_id_map :: "rat \<Rightarrow> json option \<Rightarrow> id_map \<Rightarrow> py_error + id_map" where
  "refresh_id_map now answer m =
     (case answer of
        None \<Rightarrow> Inr m
      | Some data \<Rightarrow>
          bind_res (lighter_markets data) (\<lambda>ms.
            Inr (if ms = [] then m
                 else \<lparr>im_id_by_sym = foldl (\<lambda>f (s, i). f(s \<mapsto> i)) (\<lambda>_. None) ms,
                       im_sym_by_id = foldl (\<lambda>f (s, i). f(i \<mapsto> s)) (\<lambda>_. None) ms, im_at = now\<rparr>)))"

section \<open>Venues that send whole books\<close>

text \<open>BingX; its spot stream uses the same format.\<close>

definition bingx_parse :: "json \<Rightarrow> py_error + quote option" where
  "bingx_parse msg =
     bind_res (get_or msg ''dataType'' (J_Str [])) (\<lambda>dt. bind_res (has_key dt ''@depth'') (\<lambda>depth.
     if \<not> depth then Inr None
     else bind_res (as_text dt) (\<lambda>dt. let pair = split_first (CHR ''@'') dt in
       if \<not> ends_with pair ''-USDT'' then Inr None
       else bind_res (get_or msg ''data'' (J_Obj [])) (\<lambda>data.
            bind_res (get_key data ''bids'') (\<lambda>b. bind_res (get_key data ''asks'') (\<lambda>a.
              quote_of (split_first (CHR ''-'') pair) (to_book b a)))))))"

text \<open>The position of a list of levels; other values have none.\<close>

definition hyper_levels :: "json \<Rightarrow> nat \<Rightarrow> py_error + json list" where
  "hyper_levels levels i =
     bind_res (item_at levels i) (\<lambda>ls. bind_res (py_iter ls) (map_res (\<lambda>x.
       bind_res (item_key x ''px'') (\<lambda>p. bind_res (item_key x ''sz'') (\<lambda>q. Inr (J_Arr [p, q]))))))"

definition hyperliquid_parse :: "json \<Rightarrow> py_error + (json \<times> levels \<times> levels) option" where
  "hyperliquid_parse msg =
     bind_res (get_key msg ''channel'') (\<lambda>channel.
     if channel \<noteq> J_Str ''l2Book'' then Inr None
     else bind_res (get_key msg ''data'') (\<lambda>d. let data = py_or d (J_Obj []) in
       bind_res (get_key data ''coin'') (\<lambda>coin.
       if \<not> py_true coin then Inr None
       else bind_res (get_key data ''levels'') (\<lambda>l. let levels = py_or l (J_Arr [J_Arr [], J_Arr []]) in
         bind_res (hyper_levels levels 0) (\<lambda>b. bind_res (hyper_levels levels 1) (\<lambda>a.
         bind_res (to_book (J_Arr b) (J_Arr a)) (\<lambda>(b, a). Inr (Some (coin, b, a))))))))) "

definition kucoin_symbol :: "string \<Rightarrow> string" where
  "kucoin_symbol s = (if s = ''BTC'' then ''XBT'' else s) @ ''USDTM''"

definition kucoin_parse :: "json \<Rightarrow> py_error + quote option" where
  "kucoin_parse msg =
     bind_res (get_key msg ''type'') (\<lambda>ty.
     if ty \<noteq> J_Str ''message'' then Inr None
     else bind_res (get_or msg ''topic'' (J_Str [])) (\<lambda>t. bind_res (as_text t) (\<lambda>topic.
       if \<not> begins_with topic ''/contractMarket/level2Depth50:'' then Inr None
       else let sym_k = split_rest (CHR '':'') topic
            in if \<not> ends_with sym_k ''USDTM'' then Inr None
               else let base = chop 5 sym_k; token = (if base = ''XBT'' then ''BTC'' else base)
                    in bind_res (get_key msg ''data'') (\<lambda>d. let data = py_or d (J_Obj []) in
                         bind_res (get_key data ''bids'') (\<lambda>b. bind_res (get_key data ''asks'') (\<lambda>a.
                           quote_of token (to_book b a)))))))"

definition kucoin_spot_parse :: "json \<Rightarrow> py_error + quote option" where
  "kucoin_spot_parse msg =
     bind_res (get_key msg ''type'') (\<lambda>ty.
     if ty \<noteq> J_Str ''message'' then Inr None
     else bind_res (get_or msg ''topic'' (J_Str [])) (\<lambda>t. bind_res (as_text t) (\<lambda>topic.
       if \<not> begins_with topic ''/spotMarket/level2Depth50:'' then Inr None
       else let pair = split_rest (CHR '':'') topic
            in if \<not> ends_with pair ''-USDT'' then Inr None
               else bind_res (get_or msg ''data'' (J_Obj [])) (\<lambda>data.
                    bind_res (get_key data ''bids'') (\<lambda>b. bind_res (get_key data ''asks'') (\<lambda>a.
                      quote_unless_empty (split_first (CHR ''-'') pair) (to_book b a)))))))"

definition gate_spot_parse :: "json \<Rightarrow> py_error + quote option" where
  "gate_spot_parse msg =
     bind_res (get_key msg ''channel'') (\<lambda>channel.
     if channel \<noteq> J_Str ''spot.order_book'' then Inr None
     else bind_res (get_key msg ''event'') (\<lambda>ev.
       if ev \<noteq> J_Str ''update'' \<and> ev \<noteq> J_Str ''all'' then Inr None
       else bind_res (get_key msg ''result'') (\<lambda>r. let res = py_or r (J_Obj []) in
         bind_res (get_key res ''s'') (\<lambda>s. bind_res (as_text (py_or s (J_Str []))) (\<lambda>pair.
           if \<not> ends_with pair ''_USDT'' then Inr None
           else bind_res (get_key res ''bids'') (\<lambda>b. bind_res (get_key res ''asks'') (\<lambda>a.
                  quote_of (chop 5 pair) (to_book b a))))))))"

text \<open>HTX: the spot topics are \<open>market.btcusdt.depth.step0\<close>, those of the swaps \<open>market.BTC-USDT.depth.step0\<close>.\<close>

definition htx_topic :: "json \<Rightarrow> py_error + string option" where
  "htx_topic msg =
     bind_res (get_or msg ''ch'' (J_Str [])) (\<lambda>c. bind_res (as_text c) (\<lambda>ch.
       Inr (if \<not> begins_with ch ''market.'' \<or> \<not> ends_with ch ''.depth.step0'' then None
            else Some (split_first (CHR ''.'') (split_rest (CHR ''.'') ch)))))"

definition htx_parse_suffix :: "string \<Rightarrow> json \<Rightarrow> py_error + quote option" where
  "htx_parse_suffix suffix msg =
     bind_res (htx_topic msg) (\<lambda>topic.
       case topic of
         None \<Rightarrow> Inr None
       | Some sym_part \<Rightarrow>
           if \<not> ends_with sym_part suffix then Inr None
           else bind_res (get_or msg ''tick'' (J_Obj [])) (\<lambda>t. let tick = py_or t (J_Obj []) in
                  bind_res (get_key tick ''bids'') (\<lambda>b. bind_res (get_key tick ''asks'') (\<lambda>a.
                    quote_unless_empty (upper (chop (length suffix) sym_part)) (to_book b a)))))"

definition htx_spot_parse :: "json \<Rightarrow> py_error + quote option" where
  "htx_spot_parse = htx_parse_suffix ''usdt''"

definition htx_parse :: "json \<Rightarrow> py_error + quote option" where
  "htx_parse = htx_parse_suffix ''-USDT''"

text \<open>MEXC spot, in the file though not registered.\<close>

definition first_true :: "json \<Rightarrow> string list \<Rightarrow> py_error + json" where
  "first_true x ks = foldl (\<lambda>acc k. bind_res acc (\<lambda>v. if py_true v then Inr v else get_key x k)) (get_key x (hd ks)) (tl ks)"

definition mexc_spot_level :: "json \<Rightarrow> py_error + (rat \<times> rat) option" where
  "mexc_spot_level x =
     bind_res (case x of
         J_Obj _ \<Rightarrow> bind_res (first_true x [''p'', ''price'']) (\<lambda>p.
                    bind_res (first_true x [''v'', ''vol'', ''quantity'']) (\<lambda>v. Inr (p, v)))
       | J_Arr (p # v # _) \<Rightarrow> Inr (p, v)
       | _ \<Rightarrow> Inr (J_Null, J_Null)) (\<lambda>(p, v).
     if p = J_Null \<or> v = J_Null then Inr None
     else caught [Type_Error, Value_Error] (bind_res (py_float p) (\<lambda>p. bind_res (py_float v) (\<lambda>v. Inr (p, v)))))"

definition mexc_spot_side :: "json \<Rightarrow> py_error + levels" where
  "mexc_spot_side raw =
     bind_res (py_iter raw) (\<lambda>ls. bind_res (map_res mexc_spot_level ls) (\<lambda>ms. Inr (somes ms)))"

definition mexc_spot_parse :: "json \<Rightarrow> py_error + quote option" where
  "mexc_spot_parse msg =
     bind_res (first_true msg [''c'', ''channel'']) (\<lambda>c. bind_res (as_text (py_or c (J_Str []))) (\<lambda>ch.
     if \<not> begins_with ch ''spot@public.limit.depth.v3.api@'' then Inr None
     else let sy = split_first (CHR ''@'') (split_rest (CHR ''@'') (split_rest (CHR ''@'') ch))
          in if \<not> ends_with sy ''USDT'' then Inr None
             else bind_res (first_true msg [''d'', ''data'']) (\<lambda>d. let data = py_or d (J_Obj []) in
                  bind_res (first_true data [''bids'', ''b'']) (\<lambda>b. bind_res (first_true data [''asks'', ''a'']) (\<lambda>a.
                  bind_res (mexc_spot_side (py_or b (J_Arr []))) (\<lambda>bids. bind_res (mexc_spot_side (py_or a (J_Arr []))) (\<lambda>asks.
                    quote_unless_empty (chop 4 sy) (Inr (bids, asks)))))))))"

section \<open>The registry\<close>

text \<open>\<open>ADAPTERS\<close>: which stream a name stands for; an adapter without books of its own leaves them alone.\<close>

definition ws_names :: "string list" where
  "ws_names = [''binance'', ''bybit'', ''okx'', ''bitget'', ''bingx'', ''aster'', ''gate'', ''mexc'',
     ''whitebit'', ''hyperliquid'', ''kucoin'', ''paradex'', ''htx'', ''lighter'', ''kraken'', ''backpack'',
     ''binance_spot'', ''bybit_spot'', ''okx_spot'', ''gate_spot'', ''bitget_spot'', ''bingx_spot'',
     ''kucoin_spot'', ''htx_spot'']"

definition keep :: "depths \<Rightarrow> py_error + quote option \<Rightarrow> (py_error + quote option) \<times> depths" where
  "keep bs r = (r, bs)"

text \<open>The token of a quote is a text; a coin that is none, which the venue does not send, is refused here.\<close>

definition named_quote :: "py_error + (json \<times> levels \<times> levels) option \<Rightarrow> py_error + quote option" where
  "named_quote r = bind_res r (\<lambda>q. case q of None \<Rightarrow> Inr None
     | Some (coin, b, a) \<Rightarrow> bind_res (as_text coin) (\<lambda>token. Inr (Some (token, b, a))))"

definition parse_message :: "(int \<Rightarrow> string option) \<Rightarrow> string \<Rightarrow> json \<Rightarrow> depths \<Rightarrow> (py_error + quote option) \<times> depths" where
  "parse_message sym_by_id name msg bs =
     (if name \<in> {''binance'', ''aster'', ''binance_spot''} then keep bs (binance_parse msg)
      else if name \<in> {''bybit'', ''bybit_spot''} then bybit_parse msg bs
      else if name = ''okx'' then okx_parse ''-USDT-SWAP'' msg bs
      else if name = ''okx_spot'' then okx_parse ''-USDT'' msg bs
      else if name = ''bitget'' then bitget_parse msg bs
      else if name = ''bitget_spot'' then bitget_spot_parse msg bs
      else if name \<in> {''bingx'', ''bingx_spot''} then keep bs (bingx_parse msg)
      else if name = ''gate'' then gate_parse msg bs
      else if name = ''gate_spot'' then keep bs (gate_spot_parse msg)
      else if name = ''mexc'' then mexc_parse msg bs
      else if name = ''whitebit'' then whitebit_parse msg bs
      else if name = ''hyperliquid'' then keep bs (named_quote (hyperliquid_parse msg))
      else if name = ''kucoin'' then keep bs (kucoin_parse msg)
      else if name = ''kucoin_spot'' then keep bs (kucoin_spot_parse msg)
      else if name = ''paradex'' then paradex_parse msg bs
      else if name = ''htx'' then keep bs (htx_parse msg)
      else if name = ''htx_spot'' then keep bs (htx_spot_parse msg)
      else if name = ''lighter'' then lighter_parse sym_by_id msg bs
      else if name = ''kraken'' then kraken_parse msg bs
      else if name = ''backpack'' then backpack_parse msg bs
      else (Inr None, bs))"

section \<open>Subscriptions\<close>

text \<open>\<open>xs[i:i + n]\<close> for \<open>i\<close> in steps of \<open>n\<close>, and \<open>",".join(xs)\<close>.\<close>

function chunks :: "nat \<Rightarrow> 'a list \<Rightarrow> 'a list list" where
  "chunks n xs = (if n = 0 \<or> xs = [] then [] else take n xs # chunks n (drop n xs))"
  by pat_completeness auto
termination by (relation "measure (\<lambda>(_, xs). length xs)") (auto simp: neq_Nil_conv)

declare chunks.simps [simp del]

fun joined :: "string \<Rightarrow> string list \<Rightarrow> string" where
  "joined sep [] = []"
| "joined sep [x] = x"
| "joined sep (x # y # zs) = x @ sep @ joined sep (y # zs)"

text \<open>\<open>[f(i, s) for i, s in enumerate(xs)]\<close>.\<close>

definition enumerated :: "(nat \<Rightarrow> 'a \<Rightarrow> 'b) \<Rightarrow> 'a list \<Rightarrow> 'b list" where
  "enumerated f xs = map (\<lambda>(i, x). f i x) (zip [0..<length xs] xs)"

abbreviation texts :: "string list \<Rightarrow> json" where
  "texts ss \<equiv> J_Arr (map J_Str ss)"

text \<open>What the frames take from outside: the time in seconds and in milliseconds, and fresh uuids.\<close>

record frame_env =
  fe_seconds :: int
  fe_millis :: int
  fe_uuid :: "nat \<Rightarrow> string"

definition binance_subscribe :: "string list \<Rightarrow> json list" where
  "binance_subscribe symbols =
     [J_Obj [(''method'', J_Str ''SUBSCRIBE''),
             (''params'', texts (map (\<lambda>s. lower s @ ''usdt@depth20@100ms'') symbols)), (''id'', J_Int 1)]]"

definition aster_subscribe :: "string list \<Rightarrow> json list" where
  "aster_subscribe symbols =
     enumerated (\<lambda>i part.
       J_Obj [(''method'', J_Str ''SUBSCRIBE''),
              (''params'', texts (map (\<lambda>s. lower s @ ''usdt@depth20@100ms'') part)),
              (''id'', J_Int (int (5 * i) + 1))]) (chunks 5 symbols)"

definition bybit_subscribe :: "string list \<Rightarrow> json list" where
  "bybit_subscribe symbols =
     map (\<lambda>part. J_Obj [(''op'', J_Str ''subscribe''), (''args'', texts part)])
       (chunks 10 (map (\<lambda>s. ''orderbook.200.'' @ s @ ''USDT'') symbols))"

definition okx_subscribe :: "string \<Rightarrow> string list \<Rightarrow> json list" where
  "okx_subscribe suffix symbols =
     [J_Obj [(''op'', J_Str ''subscribe''),
             (''args'', J_Arr (map (\<lambda>s. J_Obj [(''channel'', J_Str ''books''), (''instId'', J_Str (s @ suffix))]) symbols))]]"

definition bitget_subscribe :: "string \<Rightarrow> string list \<Rightarrow> json list" where
  "bitget_subscribe inst_type symbols =
     [J_Obj [(''op'', J_Str ''subscribe''),
             (''args'', J_Arr (map (\<lambda>s. J_Obj [(''instType'', J_Str inst_type), (''channel'', J_Str ''books''),
                                               (''instId'', J_Str (s @ ''USDT''))]) symbols))]]"

definition bingx_subscribe :: "string list \<Rightarrow> json list" where
  "bingx_subscribe symbols =
     enumerated (\<lambda>i s. J_Obj [(''id'', J_Str (int_str (int i))), (''reqType'', J_Str ''sub''),
                             (''dataType'', J_Str (s @ ''-USDT@depth20''))]) symbols"

definition gate_subscribe :: "frame_env \<Rightarrow> string list \<Rightarrow> json list" where
  "gate_subscribe e symbols =
     map (\<lambda>s. J_Obj [(''time'', J_Int (fe_seconds e)), (''channel'', J_Str ''futures.order_book_update''),
                    (''event'', J_Str ''subscribe''), (''payload'', texts [s @ ''_USDT'', ''100ms'', ''20''])]) symbols"

definition gate_spot_subscribe :: "frame_env \<Rightarrow> string list \<Rightarrow> json list" where
  "gate_spot_subscribe e symbols =
     map (\<lambda>s. J_Obj [(''time'', J_Int (fe_seconds e)), (''channel'', J_Str ''spot.order_book''),
                    (''event'', J_Str ''subscribe''), (''payload'', texts [s @ ''_USDT'', ''20'', ''1000ms''])]) symbols"

definition mexc_subscribe :: "string list \<Rightarrow> json list" where
  "mexc_subscribe symbols =
     map (\<lambda>s. J_Obj [(''method'', J_Str ''sub.depth''),
                    (''param'', J_Obj [(''symbol'', J_Str (s @ ''_USDT'')), (''limit'', J_Int 20)])]) symbols"

definition mexc_spot_subscribe :: "string list \<Rightarrow> json list" where
  "mexc_spot_subscribe symbols =
     map (\<lambda>part. J_Obj [(''method'', J_Str ''SUBSCRIPTION''), (''params'', texts part)])
       (chunks 25 (map (\<lambda>s. ''spot@public.limit.depth.v3.api@'' @ upper s @ ''USDT@20'') symbols))"

definition whitebit_subscribe :: "string list \<Rightarrow> json list" where
  "whitebit_subscribe symbols =
     enumerated (\<lambda>i s. J_Obj [(''id'', J_Int (int i + 1)), (''method'', J_Str ''depth_subscribe''),
        (''params'', J_Arr [J_Str (s @ ''_PERP''), J_Int 20, J_Str ''0'', J_Bool (0 < i)])]) symbols"

definition hyperliquid_subscribe :: "string list \<Rightarrow> json list" where
  "hyperliquid_subscribe symbols =
     map (\<lambda>s. J_Obj [(''method'', J_Str ''subscribe''),
                    (''subscription'', J_Obj [(''type'', J_Str ''l2Book''), (''coin'', J_Str s)])]) symbols"

definition kucoin_subscribe :: "frame_env \<Rightarrow> string list \<Rightarrow> json list" where
  "kucoin_subscribe e symbols =
     enumerated (\<lambda>i part. J_Obj [(''id'', J_Str (fe_uuid e i)), (''type'', J_Str ''subscribe''),
        (''topic'', J_Str (''/contractMarket/level2Depth50:'' @ joined '','' part)), (''response'', J_Bool True)])
       (chunks 10 (map kucoin_symbol symbols))"

definition kucoin_spot_subscribe :: "frame_env \<Rightarrow> string list \<Rightarrow> json list" where
  "kucoin_spot_subscribe e symbols =
     enumerated (\<lambda>i part. J_Obj [(''id'', J_Str (int_str (fe_millis e) @ int_str (int (50 * i)))),
        (''type'', J_Str ''subscribe''), (''topic'', J_Str (''/spotMarket/level2Depth50:'' @ joined '','' part)),
        (''privateChannel'', J_Bool False), (''response'', J_Bool True)])
       (chunks 50 (map (\<lambda>s. upper s @ ''-USDT'') symbols))"

definition paradex_subscribe :: "string list \<Rightarrow> json list" where
  "paradex_subscribe symbols =
     enumerated (\<lambda>i s. J_Obj [(''jsonrpc'', J_Str ''2.0''), (''method'', J_Str ''subscribe''),
        (''params'', J_Obj [(''channel'', J_Str (''order_book.'' @ s @ ''-USD-PERP.snapshot@20@100ms''))]),
        (''id'', J_Int (int i + 1))]) symbols"

definition htx_spot_subscribe :: "string list \<Rightarrow> json list" where
  "htx_spot_subscribe symbols =
     enumerated (\<lambda>i s. J_Obj [(''sub'', J_Str (''market.'' @ lower s @ ''usdt.depth.step0'')),
                             (''id'', J_Str (''avalant_'' @ int_str (int i)))]) symbols"

definition htx_subscribe :: "string list \<Rightarrow> json list" where
  "htx_subscribe symbols =
     enumerated (\<lambda>i s. J_Obj [(''sub'', J_Str (''market.'' @ upper s @ ''-USDT.depth.step0'')),
                             (''id'', J_Str (''avalant_'' @ int_str (int i)))]) symbols"

definition kraken_subscribe :: "string list \<Rightarrow> json list" where
  "kraken_subscribe symbols =
     [J_Obj [(''event'', J_Str ''subscribe''), (''feed'', J_Str ''book''), (''product_ids'', texts (map kraken_norm symbols))]]"

definition backpack_subscribe :: "string list \<Rightarrow> json list" where
  "backpack_subscribe symbols =
     [J_Obj [(''method'', J_Str ''SUBSCRIBE''), (''params'', texts (map (\<lambda>s. ''depth.'' @ s @ ''_USDC_PERP'') symbols))]]"

text \<open>A symbol Lighter has no number for is left out.\<close>

definition lighter_subscribe :: "(string \<Rightarrow> int option) \<Rightarrow> string list \<Rightarrow> json list" where
  "lighter_subscribe id_by_sym symbols =
     List.map_filter (\<lambda>s. map_option (\<lambda>mid.
       J_Obj [(''type'', J_Str ''subscribe''), (''channel'', J_Str (''order_book/'' @ int_str mid))])
       (id_by_sym (upper s))) symbols"

definition build_subscribe :: "frame_env \<Rightarrow> (string \<Rightarrow> int option) \<Rightarrow> string \<Rightarrow> string list \<Rightarrow> json list" where
  "build_subscribe e id_by_sym name symbols =
     (if name \<in> {''binance'', ''binance_spot''} then binance_subscribe symbols
      else if name = ''aster'' then aster_subscribe symbols
      else if name \<in> {''bybit'', ''bybit_spot''} then bybit_subscribe symbols
      else if name = ''okx'' then okx_subscribe ''-USDT-SWAP'' symbols
      else if name = ''okx_spot'' then okx_subscribe ''-USDT'' symbols
      else if name = ''bitget'' then bitget_subscribe ''USDT-FUTURES'' symbols
      else if name = ''bitget_spot'' then bitget_subscribe ''SPOT'' symbols
      else if name \<in> {''bingx'', ''bingx_spot''} then bingx_subscribe symbols
      else if name = ''gate'' then gate_subscribe e symbols
      else if name = ''gate_spot'' then gate_spot_subscribe e symbols
      else if name = ''mexc'' then mexc_subscribe symbols
      else if name = ''whitebit'' then whitebit_subscribe symbols
      else if name = ''hyperliquid'' then hyperliquid_subscribe symbols
      else if name = ''kucoin'' then kucoin_subscribe e symbols
      else if name = ''kucoin_spot'' then kucoin_spot_subscribe e symbols
      else if name = ''paradex'' then paradex_subscribe symbols
      else if name = ''htx'' then htx_subscribe symbols
      else if name = ''htx_spot'' then htx_spot_subscribe symbols
      else if name = ''lighter'' then lighter_subscribe id_by_sym symbols
      else if name = ''kraken'' then kraken_subscribe symbols
      else if name = ''backpack'' then backpack_subscribe symbols
      else [])"

text \<open>Replies to the pings of a venue: a text frame or a dumped object.\<close>

datatype reply = Text_Frame string | Dumped json

definition bingx_pong :: "json \<Rightarrow> reply option" where
  "bingx_pong msg =
     (case msg of
        J_Str s \<Rightarrow> if s = ''Ping'' then Some (Text_Frame ''Pong'') else None
      | J_Obj kvs \<Rightarrow> (case map_of kvs ''ping'' of
                       Some v \<Rightarrow> if py_true v then Some (Text_Frame ''Pong'') else None
                     | None \<Rightarrow> None)
      | _ \<Rightarrow> None)"

definition htx_pong :: "json \<Rightarrow> reply option" where
  "htx_pong msg =
     (case msg of
        J_Obj kvs \<Rightarrow> (case map_of kvs ''ping'' of
                       Some v \<Rightarrow> if v = J_Null then None else Some (Dumped (J_Obj [(''pong'', v)]))
                     | None \<Rightarrow> None)
      | _ \<Rightarrow> None)"

definition kucoin_spot_pong :: "json \<Rightarrow> reply option" where
  "kucoin_spot_pong msg =
     (case msg of
        J_Obj kvs \<Rightarrow>
          (if map_of kvs ''type'' = Some (J_Str ''ping'')
           then Some (Dumped (J_Obj [
                  (''id'', case map_of kvs ''id'' of Some v \<Rightarrow> py_or v (J_Str ''0'') | None \<Rightarrow> J_Str ''0''),
                  (''type'', J_Str ''pong'')]))
           else None)
      | _ \<Rightarrow> None)"

definition pong_for :: "string \<Rightarrow> json \<Rightarrow> reply option" where
  "pong_for name msg =
     (if name = ''bingx'' then bingx_pong msg
      else if name \<in> {''htx'', ''htx_spot''} then htx_pong msg
      else if name = ''kucoin_spot'' then kucoin_spot_pong msg
      else None)"

definition heartbeat_frame :: "string \<Rightarrow> string option" where
  "heartbeat_frame name =
     (if name \<in> {''bybit'', ''bybit_spot''} then Some ''{\"op\":\"ping\"}''
      else if name \<in> {''okx'', ''okx_spot'', ''bitget'', ''bitget_spot''} then Some ''ping''
      else if name \<in> {''mexc'', ''hyperliquid''} then Some ''{\"method\":\"ping\"}''
      else if name = ''kucoin'' then Some ''{\"id\":\"ping\",\"type\":\"ping\"}''
      else if name = ''kucoin_spot'' then Some ''{\"id\": \"hb\", \"type\": \"ping\"}''
      else None)"

end
