(* ===== verification/Book_Rest.thy ===== *)
theory Book_Rest
  imports Book_Streams
begin

text \<open>
  Order books over REST, \<open>_fetch_direct_raw\<close> and its wrappers in
  \<^verbatim>\<open>backend/services/orderbook_cache.py\<close>: the request of each venue, the book read from its answer, the
  circuit breaker, and what a caller sees of a fetch. The answer to a URL is an argument: a JSON
  value, or none when the request or the decoding of its body raises.
\<close>

section \<open>Limits\<close>

definition valid_limits :: "string \<Rightarrow> int list" where
  "valid_limits exchange =
     (if exchange \<in> {''binance'', ''aster''} then [5, 10, 20, 50, 100, 500, 1000]
      else if exchange = ''bybit'' then [1, 50, 200, 500, 1000]
      else if exchange = ''bitget'' then [5, 15, 50, 100, 200, 1000]
      else if exchange = ''mexc'' then [5, 10, 20, 50, 100, 200, 500, 1000]
      else if exchange = ''okx'' then [1, 5, 10, 20, 50, 100, 200, 400]
      else if exchange = ''gate'' then [5, 10, 20, 50, 100]
      else if exchange = ''binance_spot'' then [5, 10, 20, 50, 100, 500, 1000, 5000]
      else if exchange = ''bitget_spot'' then [1, 5, 15, 50, 100, 200]
      else if exchange = ''mexc_spot'' then [5, 10, 20, 50, 100, 500, 1000, 5000]
      else if exchange = ''okx_spot'' then [1, 5, 10, 20, 50, 100, 200, 400]
      else [])"

definition canonical_limit :: "string \<Rightarrow> int \<Rightarrow> int" where
  "canonical_limit exchange limit =
     (let valid = valid_limits exchange
      in if valid = [] then limit
         else (case find (\<lambda>v. limit \<le> v) valid of Some v \<Rightarrow> v | None \<Rightarrow> last valid))"

section \<open>Requests\<close>

text \<open>The URL asked for a book; Hyperliquid is asked by a POST that names the coin in its body.\<close>

definition rest_url :: "string \<Rightarrow> string \<Rightarrow> int \<Rightarrow> string option" where
  "rest_url exchange symbol limit0 =
     (let limit = canonical_limit exchange limit0;
          clamp = (\<lambda>lo hi. int_str (max lo (min hi limit)));
          lim = int_str limit
      in if exchange = ''binance'' then Some (''https://fapi.binance.com/fapi/v1/depth?symbol='' @ symbol @ ''USDT&limit='' @ lim)
      else if exchange = ''bybit'' then Some (''https://api.bybit.com/v5/market/orderbook?category=linear&symbol='' @ symbol @ ''USDT&limit='' @ lim)
      else if exchange = ''okx'' then Some (''https://www.okx.com/api/v5/market/books?instId='' @ symbol @ ''-USDT-SWAP&sz='' @ lim)
      else if exchange = ''gate'' then Some (''https://api.gateio.ws/api/v4/futures/usdt/order_book?contract='' @ symbol @ ''_USDT&limit='' @ lim)
      else if exchange = ''kucoin'' then
        Some (''https://api-futures.kucoin.com/api/v1/level2/depth'' @ (if 20 < limit then ''100'' else ''20'') @ ''?symbol='' @ kucoin_symbol symbol)
      else if exchange = ''mexc'' then Some (''https://contract.mexc.com/api/v1/contract/depth/'' @ symbol @ ''_USDT?limit='' @ lim)
      else if exchange = ''bitget'' then
        Some (''https://api.bitget.com/api/v2/mix/market/merge-depth?symbol='' @ symbol @ ''USDT&productType=USDT-FUTURES&limit='' @ lim)
      else if exchange = ''aster'' then
        Some (''https://fapi.asterdex.com/fapi/v1/depth?symbol='' @ symbol @ ''USDT&limit='' @ int_str (canonical_limit ''aster'' limit))
      else if exchange = ''hyperliquid'' then Some (''https://api.hyperliquid.xyz/info l2Book '' @ symbol)
      else if exchange = ''bingx'' then Some (''https://open-api.bingx.com/openApi/swap/v2/quote/depth?symbol='' @ symbol @ ''-USDT&limit='' @ lim)
      else if exchange = ''whitebit'' then Some (''https://whitebit.com/api/v4/public/orderbook/'' @ symbol @ ''_PERP?limit='' @ lim @ ''&level=2'')
      else if exchange = ''paradex'' then Some (''https://api.prod.paradex.trade/v1/orderbook/'' @ symbol @ ''-USD-PERP?depth='' @ clamp 20 50)
      else if exchange = ''extended'' then Some (''https://api.starknet.extended.exchange/api/v1/info/markets/'' @ symbol @ ''-USD/orderbook'')
      else if exchange = ''htx'' then
        Some (''https://api.hbdm.com/linear-swap-ex/market/depth?contract_code='' @ symbol @ ''-USDT&type=step0'')
      else if exchange = ''kraken'' then
        Some (''https://futures.kraken.com/derivatives/api/v3/orderbook?symbol=PF_'' @ (if symbol = ''BTC'' then ''XBT'' else symbol) @ ''USD'')
      else if exchange = ''backpack'' then Some (''https://api.backpack.exchange/api/v1/depth?symbol='' @ symbol @ ''_USDC_PERP&limit='' @ lim)
      else if exchange = ''binance_spot'' then Some (''https://api.binance.com/api/v3/depth?symbol='' @ symbol @ ''USDT&limit='' @ lim)
      else if exchange = ''bybit_spot'' then
        Some (''https://api.bybit.com/v5/market/orderbook?category=spot&symbol='' @ symbol @ ''USDT&limit='' @ clamp 1 200)
      else if exchange = ''okx_spot'' then Some (''https://www.okx.com/api/v5/market/books?instId='' @ symbol @ ''-USDT&sz='' @ lim)
      else if exchange = ''gate_spot'' then
        Some (''https://api.gateio.ws/api/v4/spot/order_book?currency_pair='' @ symbol @ ''_USDT&limit='' @ clamp 1 100 @ ''&with_id=false'')
      else if exchange = ''kucoin_spot'' then
        Some (''https://api.kucoin.com/api/v1/market/orderbook/level2_'' @ (if limit \<le> 20 then ''20'' else ''100'') @ ''?symbol='' @ symbol @ ''-USDT'')
      else if exchange = ''bitget_spot'' then Some (''https://api.bitget.com/api/v2/spot/market/merge-depth?symbol='' @ symbol @ ''USDT&limit='' @ lim)
      else if exchange = ''bingx_spot'' then
        Some (''https://open-api.bingx.com/openApi/spot/v1/market/depth?symbol='' @ symbol @ ''-USDT&limit='' @ clamp 5 100)
      else if exchange = ''htx_spot'' then
        Some (''https://api.huobi.pro/market/depth?symbol='' @ lower (symbol @ ''usdt'') @ ''&type=step0&depth=20'')
      else if exchange = ''mexc_spot'' then Some (''https://api.mexc.com/api/v3/depth?symbol='' @ symbol @ ''USDT&limit='' @ lim)
      else None)"

section \<open>Answers\<close>

text \<open>\<open>[[float(x[0]), float(x[1])] for x in d.get(k, [])]\<close>, and the same with named fields.\<close>

definition rest_pairs :: "json \<Rightarrow> string \<Rightarrow> py_error + levels" where
  "rest_pairs d k = bind_res (get_or d k (J_Arr [])) (\<lambda>raw. bind_res (py_iter raw) (map_res pair_level))"

definition named_level :: "string \<Rightarrow> string \<Rightarrow> json \<Rightarrow> py_error + rat \<times> rat" where
  "named_level kp kq x =
     bind_res (item_key x kp) (\<lambda>p. bind_res (py_float p) (\<lambda>p.
     bind_res (item_key x kq) (\<lambda>q. bind_res (py_float q) (\<lambda>q. Inr (p, q)))))"

definition rest_named :: "string \<Rightarrow> string \<Rightarrow> json \<Rightarrow> string \<Rightarrow> py_error + levels" where
  "rest_named kp kq d k = bind_res (get_or d k (J_Arr [])) (\<lambda>raw. bind_res (py_iter raw) (map_res (named_level kp kq)))"

definition both_sides :: "py_error + levels \<Rightarrow> py_error + levels \<Rightarrow> py_error + depth" where
  "both_sides b a = bind_res b (\<lambda>b. bind_res a (\<lambda>a. Inr \<lparr>dp_bids = b, dp_asks = a\<rparr>))"

definition bids_asks :: "json \<Rightarrow> py_error + depth" where
  "bids_asks d = both_sides (rest_pairs d ''bids'') (rest_pairs d ''asks'')"

text \<open>\<open>x or {}\<close>.\<close>

definition or_empty :: "json \<Rightarrow> json" where
  "or_empty x = py_or x (J_Obj [])"

definition sorted_bids :: "levels \<Rightarrow> levels" where
  "sorted_bids ls = sort_key (\<lambda>l. - fst l) ls"

definition rest_book :: "string \<Rightarrow> json \<Rightarrow> py_error + depth" where
  "rest_book exchange answer =
     (if exchange \<in> {''binance'', ''aster'', ''whitebit'', ''binance_spot''} then bids_asks answer
      else if exchange \<in> {''paradex'', ''gate_spot'', ''mexc_spot''} then bids_asks (or_empty answer)
      else if exchange = ''bybit'' then
        bind_res (get_or answer ''result'' (J_Obj [])) (\<lambda>d. both_sides (rest_pairs d ''b'') (rest_pairs d ''a''))
      else if exchange = ''bybit_spot'' then
        bind_res (get_or answer ''result'' (J_Obj [])) (\<lambda>d. let d = or_empty d in both_sides (rest_pairs d ''b'') (rest_pairs d ''a''))
      else if exchange = ''okx'' then
        bind_res (get_key answer ''data'') (\<lambda>l. bind_res (item_at (py_or l (J_Arr [J_Obj []])) 0) bids_asks)
      else if exchange = ''okx_spot'' then
        bind_res (get_key answer ''data'') (\<lambda>l. bind_res (item_at (py_or l (J_Arr [J_Obj []])) 0) (\<lambda>d. bids_asks (or_empty d)))
      else if exchange \<in> {''kucoin'', ''mexc'', ''bitget'', ''bingx''} then
        bind_res (get_or answer ''data'' (J_Obj [])) bids_asks
      else if exchange \<in> {''kucoin_spot'', ''bitget_spot'', ''bingx_spot''} then
        bind_res (get_or (or_empty answer) ''data'' (J_Obj [])) (\<lambda>d. bids_asks (or_empty d))
      else if exchange \<in> {''htx'', ''htx_spot''} then
        bind_res (get_or (or_empty answer) ''tick'' (J_Obj [])) (\<lambda>d. bids_asks (or_empty d))
      else if exchange = ''gate'' then both_sides (rest_named ''p'' ''s'' answer ''bids'') (rest_named ''p'' ''s'' answer ''asks'')
      else if exchange = ''hyperliquid'' then
        bind_res (get_or answer ''levels'' (J_Arr [J_Arr [], J_Arr []])) (\<lambda>d.
          both_sides (bind_res (item_at d 0) (\<lambda>l. bind_res (py_iter l) (map_res (named_level ''px'' ''sz''))))
                     (bind_res (item_at d 1) (\<lambda>l. bind_res (py_iter l) (map_res (named_level ''px'' ''sz'')))))
      else if exchange = ''extended'' then
        bind_res (get_or (or_empty answer) ''data'' (J_Obj [])) (\<lambda>d. let d = or_empty d in
          both_sides (rest_named ''price'' ''qty'' d ''bid'') (rest_named ''price'' ''qty'' d ''ask''))
      else if exchange = ''kraken'' then
        bind_res (get_key (or_empty answer) ''orderBook'') (\<lambda>d. bind_res (bids_asks (or_empty d)) (\<lambda>b.
          Inr \<lparr>dp_bids = sorted_bids (dp_bids b), dp_asks = sort_key fst (dp_asks b)\<rparr>))
      else if exchange = ''backpack'' then
        bind_res (bids_asks (or_empty answer)) (\<lambda>b. Inr (b\<lparr>dp_bids := sorted_bids (dp_bids b)\<rparr>))
      else Inl Value_Error)"

text \<open>
  Lighter lists single orders by market number: the sizes at one price are added. An order that is no
  object raises.
\<close>

definition lighter_order :: "json \<Rightarrow> py_error + (rat \<times> rat) option" where
  "lighter_order x =
     bind_res (caught [Type_Error, Value_Error]
       (bind_res (get_key x ''price'') (\<lambda>p. bind_res (py_float (py_or p (J_Int 0))) (\<lambda>p.
        bind_res (get_key x ''remaining_base_amount'') (\<lambda>q. bind_res (py_float (py_or q (J_Int 0))) (\<lambda>q. Inr (p, q)))))))
     (\<lambda>m. Inr (case m of Some (p, q) \<Rightarrow> if p \<le> 0 \<or> q \<le> 0 then None else Some (p, q) | None \<Rightarrow> None))"

definition add_order :: "levels \<Rightarrow> rat \<times> rat \<Rightarrow> levels" where
  "add_order s l = AList.update (fst l) ((case map_of s (fst l) of None \<Rightarrow> 0 | Some x \<Rightarrow> x) + snd l) s"

definition lighter_side :: "json \<Rightarrow> string \<Rightarrow> py_error + levels" where
  "lighter_side d k =
     bind_res (get_key d k) (\<lambda>raw. bind_res (py_iter (py_or raw (J_Arr []))) (\<lambda>xs.
     bind_res (map_res lighter_order xs) (\<lambda>ms. Inr (foldl add_order [] (somes ms)))))"

definition lighter_book :: "json \<Rightarrow> py_error + depth" where
  "lighter_book answer =
     (let d = or_empty answer
      in bind_res (get_key d ''code'') (\<lambda>code.
           if code \<noteq> J_Int 200 \<and> code \<noteq> J_Num 200 then Inr empty_depth
           else both_sides (bind_res (lighter_side d ''bids'') (\<lambda>s. Inr (sorted_bids s)))
                           (bind_res (lighter_side d ''asks'') (\<lambda>s. Inr (sort_key fst s)))))"

record lighter_ids =
  li_ids :: "(string \<times> int) list"
  li_at :: rat

definition lighter_id_ttl :: rat where
  "lighter_id_ttl = 3600"

definition lighter_url :: string where
  "lighter_url = ''https://mainnet.zklighter.elliot.ai/api/v1/orderBooks''"

text \<open>\<open>_lighter_market_id\<close>: the markets are asked for once an hour; a failed request leaves the old ones in use.\<close>

definition lighter_market_id :: "rat \<Rightarrow> (string \<Rightarrow> json option) \<Rightarrow> lighter_ids \<Rightarrow> string \<Rightarrow> int option \<times> lighter_ids" where
  "lighter_market_id mt http c symbol =
     (let look = (\<lambda>ids. map_of ids (upper symbol))
      in if li_ids c \<noteq> [] \<and> mt - li_at c < lighter_id_ttl then (look (li_ids c), c)
         else (case http lighter_url of
                 None \<Rightarrow> (look (li_ids c), c)
               | Some data \<Rightarrow>
                   (case lighter_markets data of
                      Inl _ \<Rightarrow> (look (li_ids c), c)
                    | Inr ms \<Rightarrow>
                        (let ids = foldl (\<lambda>s (k, i). AList.update k i s) [] ms
                         in (look ids, \<lparr>li_ids = ids, li_at = mt\<rparr>)))))"

text \<open>A fetch may fail in the request, or in reading the answer.\<close>

datatype fetch_error = Request_Failed | Bad_Answer py_error | Unbound_Data

definition of_py :: "py_error + 'a \<Rightarrow> fetch_error + 'a" where
  "of_py m = (case m of Inl e \<Rightarrow> Inl (Bad_Answer e) | Inr x \<Rightarrow> Inr x)"

text \<open>\<open>None\<close> as a book: no handler for the venue, or no market number of the symbol.\<close>

definition fetch_direct_raw :: "rat \<Rightarrow> (string \<Rightarrow> json option) \<Rightarrow> lighter_ids \<Rightarrow> string \<Rightarrow> string \<Rightarrow> int \<Rightarrow>
    (fetch_error + depth option) \<times> lighter_ids" where
  "fetch_direct_raw mt http ids exchange symbol limit =
     (if exchange = ''lighter''
      then (let (mid, ids) = lighter_market_id mt http ids symbol
            in case mid of
                 None \<Rightarrow> (Inr None, ids)
               | Some n \<Rightarrow>
                   (case http (''https://mainnet.zklighter.elliot.ai/api/v1/orderBookOrders?market_id='' @ int_str n @
                               ''&limit='' @ int_str (max 1 (min 250 (canonical_limit exchange limit * 4)))) of
                      None \<Rightarrow> (Inl Request_Failed, ids)
                    | Some answer \<Rightarrow> (bind_res (of_py (lighter_book answer)) (\<lambda>d. Inr (Some d)), ids)))
      else (case rest_url exchange symbol limit of
              None \<Rightarrow> (Inr None, ids)
            | Some url \<Rightarrow>
                (case http url of
                   None \<Rightarrow> (Inl Request_Failed, ids)
                 | Some answer \<Rightarrow> (bind_res (of_py (rest_book exchange answer)) (\<lambda>d. Inr (Some d)), ids))))"

section \<open>The circuit breaker\<close>

record rest_breaker =
  rb_fails :: nat
  rb_first :: rat
  rb_open_until :: rat

definition cb_fail_threshold :: nat where "cb_fail_threshold = 5"
definition cb_window_s :: rat where "cb_window_s = 30"
definition cb_cooldown_s :: rat where "cb_cooldown_s = 60"

definition cb_is_open :: "rat \<Rightarrow> rest_breaker option \<Rightarrow> bool" where
  "cb_is_open now s =
     (case s of None \<Rightarrow> False | Some b \<Rightarrow> rb_open_until b \<noteq> 0 \<and> now < rb_open_until b)"

definition cb_record_error :: "rat \<Rightarrow> rest_breaker option \<Rightarrow> rest_breaker" where
  "cb_record_error now s =
     (let b = (case s of None \<Rightarrow> \<lparr>rb_fails = 0, rb_first = 0, rb_open_until = 0\<rparr> | Some b \<Rightarrow> b);
          b = (if rb_first b \<noteq> 0 \<and> cb_window_s < now - rb_first b then b\<lparr>rb_fails := 0, rb_first := now\<rparr> else b);
          b = (if rb_fails b = 0 then b\<lparr>rb_first := now\<rparr> else b);
          b = b\<lparr>rb_fails := rb_fails b + 1\<rparr>
      in if cb_fail_threshold \<le> rb_fails b then b\<lparr>rb_open_until := now + cb_cooldown_s\<rparr> else b)"

definition cb_record_success :: "rest_breaker option \<Rightarrow> rest_breaker option" where
  "cb_record_success s =
     map_option (\<lambda>b. if rb_fails b \<noteq> 0 \<or> rb_open_until b \<noteq> 0
                     then b\<lparr>rb_fails := 0, rb_first := 0, rb_open_until := 0\<rparr> else b) s"

section \<open>Fetching with a status\<close>

datatype fetch_outcome = F_Ok | F_Empty | F_Error

record rest_state =
  rs_breakers :: "string \<Rightarrow> rest_breaker option"
  rs_lighter :: lighter_ids

text \<open>
  \<open>_fetch_direct_with_status\<close>. The handler of a failed fetch only counts it: the return after the try
  block then reads a variable that was never assigned.
\<close>

definition fetch_direct_with_status :: "clock \<Rightarrow> rat \<Rightarrow> (string \<Rightarrow> json option) \<Rightarrow> rest_state \<Rightarrow> string \<Rightarrow> string \<Rightarrow> int \<Rightarrow>
    (fetch_error + fetch_outcome \<times> depth option \<times> string option) \<times> rest_state" where
  "fetch_direct_with_status c now http s exchange symbol limit =
     (if cb_is_open now (rs_breakers s exchange)
      then (Inr (F_Error, None, Some (exchange @ '' paused by circuit breaker'')), s)
      else (case fetch_direct_raw (monotonic c) http (rs_lighter s) exchange symbol limit of
              (Inl e, ids) \<Rightarrow>
                (Inl Unbound_Data,
                 s\<lparr>rs_lighter := ids,
                   rs_breakers := (rs_breakers s)(exchange \<mapsto> cb_record_error now (rs_breakers s exchange))\<rparr>)
            | (Inr data, ids) \<Rightarrow> (Inr (F_Ok, data, None), s\<lparr>rs_lighter := ids\<rparr>)))"

definition fetch_direct :: "clock \<Rightarrow> rat \<Rightarrow> (string \<Rightarrow> json option) \<Rightarrow> rest_state \<Rightarrow> string \<Rightarrow> string \<Rightarrow> int \<Rightarrow>
    (fetch_error + depth option) \<times> rest_state" where
  "fetch_direct c now http s exchange symbol limit =
     (case fetch_direct_with_status c now http s exchange symbol limit of
        (Inl e, s) \<Rightarrow> (Inl e, s)
      | (Inr (outcome, data, err), s) \<Rightarrow> (Inr (if outcome = F_Ok then data else None), s))"

end
