(* ===== verification/Book_Cache.thy ===== *)
theory Book_Cache
  imports Book_Rest "HOL-Library.List_Lexorder"
begin

text \<open>
  The book cache, \<^verbatim>\<open>backend/services/orderbook_cache.py\<close>, with the manager that fills it from the streams
  (\<^verbatim>\<open>orderbook_ws/manager.py\<close>), its Redis mirror (\<^verbatim>\<open>orderbook_redis.py\<close>) and the merger of the
  per-venue files (\<^verbatim>\<open>orderbook_ws_master.py\<close>). One process is a record with its dicts, in order of
  insertion where they are iterated; what processes share is a record with the files and Redis. The time
  is \<open>time.time()\<close>, read once by an operation.
\<close>

section \<open>State\<close>

record cache_entry =
  ce_data :: "depth option"
  ce_ts :: "rat option"
  ce_last :: "rat option"

type_synonym file_books = "(string \<times> depth \<times> rat) list"

record process =
  pc_books :: "(string \<times> cache_entry) list"
  pc_rest :: rest_state
  pc_pollers :: "string list"
  pc_memo :: file_books
  pc_memo_mtime :: rat
  pc_memo_check :: rat
  pc_redis_at :: "string \<Rightarrow> rat"

text \<open>A file is its content with the time of its last change, or nothing when it is missing or unreadable.\<close>

record shared =
  sd_books :: "(file_books \<times> rat) option"
  sd_slices :: "string \<Rightarrow> (file_books \<times> rat) option"
  sd_redis :: "string \<Rightarrow> (depth \<times> rat \<times> rat) option"
  sd_pending :: "(string \<times> string list) list option"
  sd_user_subs :: "(string \<times> rat) list option"

definition file_fresh_max :: rat where "file_fresh_max = 5"
definition file_degraded_max :: rat where "file_degraded_max = 15"
definition stale_serve_max :: rat where "stale_serve_max = 30"
definition stale_fallback :: rat where "stale_fallback = 10"
definition idle_timeout :: rat where "idle_timeout = 30"
definition poll_interval :: rat where "poll_interval = 1 / 2"
definition redis_ttl_s :: rat where "redis_ttl_s = 10"
definition redis_min_interval_s :: rat where "redis_min_interval_s = 1 / 20"
definition user_subs_ttl :: rat where "user_subs_ttl = 1200"

definition book_key :: "string \<Rightarrow> string \<Rightarrow> string" where
  "book_key exchange symbol = exchange @ '':'' @ symbol"

definition empty_entry :: cache_entry where
  "empty_entry = \<lparr>ce_data = None, ce_ts = None, ce_last = None\<rparr>"

definition entry_of_key :: "process \<Rightarrow> string \<Rightarrow> cache_entry option" where
  "entry_of_key p key = map_of (pc_books p) key"

text \<open>\<open>setdefault(key, {})\<close> followed by assignments to the entry.\<close>

definition put_entry :: "string \<Rightarrow> (cache_entry \<Rightarrow> cache_entry) \<Rightarrow> process \<Rightarrow> process" where
  "put_entry key f p =
     p\<lparr>pc_books := AList.update key (f (case entry_of_key p key of None \<Rightarrow> empty_entry | Some e \<Rightarrow> e)) (pc_books p)\<rparr>"

text \<open>\<open>entry.get(k, 0)\<close>.\<close>

definition or_zero :: "rat option \<Rightarrow> rat" where
  "or_zero x = (case x of None \<Rightarrow> 0 | Some t \<Rightarrow> t)"

text \<open>A book with a level on either side.\<close>

definition has_levels :: "depth \<Rightarrow> bool" where
  "has_levels d \<longleftrightarrow> dp_bids d \<noteq> [] \<or> dp_asks d \<noteq> []"

definition levels_in :: "depth option \<Rightarrow> depth option" where
  "levels_in d = (case d of Some b \<Rightarrow> if has_levels b then Some b else None | None \<Rightarrow> None)"

section \<open>Redis and the stream callback\<close>

definition write_single :: "bool \<Rightarrow> rat \<Rightarrow> string \<Rightarrow> depth \<times> rat \<Rightarrow> shared \<Rightarrow> shared" where
  "write_single redis now key e sh =
     (if redis then sh\<lparr>sd_redis := (sd_redis sh)(key \<mapsto> (fst e, snd e, now + redis_ttl_s))\<rparr> else sh)"

definition write_books :: "bool \<Rightarrow> rat \<Rightarrow> file_books \<Rightarrow> shared \<Rightarrow> shared" where
  "write_books redis now merged sh = foldl (\<lambda>sh (key, e). write_single redis now key e sh) sh merged"

definition read_book :: "bool \<Rightarrow> rat \<Rightarrow> string \<Rightarrow> string \<Rightarrow> shared \<Rightarrow> (depth \<times> rat) option" where
  "read_book redis now exchange symbol sh =
     (if redis
      then (case sd_redis sh (book_key exchange symbol) of
              Some (d, ts, expires) \<Rightarrow> if now < expires then Some (d, ts) else None
            | None \<Rightarrow> None)
      else None)"

definition read_books_batch :: "bool \<Rightarrow> rat \<Rightarrow> string list \<Rightarrow> shared \<Rightarrow> (string \<times> depth \<times> rat) list" where
  "read_books_batch redis now pairs sh =
     (if pairs = [] \<or> \<not> redis then []
      else foldl (\<lambda>out key. case sd_redis sh key of
              Some (d, ts, expires) \<Rightarrow> if now < expires then AList.update key (d, ts) out else out
            | None \<Rightarrow> out) [] pairs)"

definition update_cb :: "bool \<Rightarrow> rat \<Rightarrow> string \<Rightarrow> quote \<Rightarrow> process \<times> shared \<Rightarrow> process \<times> shared" where
  "update_cb redis now exchange q ps =
     (case (q, ps) of ((symbol, bids, asks), p, sh) \<Rightarrow>
        (let key = book_key exchange symbol; d = \<lparr>dp_bids = bids, dp_asks = asks\<rparr>;
             p = put_entry key (\<lambda>e. e\<lparr>ce_data := Some d, ce_ts := Some now,
                   ce_last := (if ce_last e = None \<or> 5 < now - or_zero (ce_last e) then Some now else ce_last e)\<rparr>) p
         in if redis_min_interval_s \<le> now - pc_redis_at p key
            then (p\<lparr>pc_redis_at := (pc_redis_at p)(key := now)\<rparr>, write_single redis now key (d, now) sh)
            else (p, sh)))"

section \<open>The shared file\<close>

definition file_check_interval :: rat where "file_check_interval = 1 / 10"

definition refresh_file_memo :: "rat \<Rightarrow> shared \<Rightarrow> process \<Rightarrow> process" where
  "refresh_file_memo now sh p =
     (if now - pc_memo_check p < file_check_interval then p
      else (let p = p\<lparr>pc_memo_check := now\<rparr>
            in case sd_books sh of
                 None \<Rightarrow> p
               | Some (data, mtime) \<Rightarrow>
                   if mtime = pc_memo_mtime p then p else p\<lparr>pc_memo := data, pc_memo_mtime := mtime\<rparr>))"

definition load_books_snapshot :: "rat \<Rightarrow> shared \<Rightarrow> file_books option" where
  "load_books_snapshot now sh =
     (case sd_books sh of
        None \<Rightarrow> None
      | Some (data, mtime) \<Rightarrow> if stale_serve_max < now - mtime then None else Some data)"

definition file_lookup :: "rat \<Rightarrow> rat \<Rightarrow> string \<Rightarrow> shared \<Rightarrow> process \<Rightarrow> depth option \<times> process" where
  "file_lookup now max_age key sh p =
     (let p = refresh_file_memo now sh p
      in (case map_of (pc_memo p) key of
            None \<Rightarrow> None
          | Some (d, ts) \<Rightarrow> if max_age < now - ts then None else Some d, p))"

definition file_lookup_stale :: "rat \<Rightarrow> string \<Rightarrow> shared \<Rightarrow> process \<Rightarrow> depth option \<times> process" where
  "file_lookup_stale now key sh p = file_lookup now stale_serve_max key sh p"

text \<open>One round of the dumper: the books of a venue's worker go to its slice, those of a single process to the file.\<close>

definition dumped :: "rat \<Rightarrow> string option \<Rightarrow> process \<Rightarrow> file_books" where
  "dumped now owned p =
     somes (map (\<lambda>(key, e).
       if (case owned of Some ex \<Rightarrow> \<not> begins_with key (ex @ '':'') | None \<Rightarrow> False) then None
       else if or_zero (ce_ts e) < now - stale_serve_max then None
       else map_option (\<lambda>d. (key, d, or_zero (ce_ts e))) (ce_data e)) (pc_books p))"

definition dump_once :: "rat \<Rightarrow> string option \<Rightarrow> string option \<Rightarrow> process \<Rightarrow> shared \<Rightarrow> shared" where
  "dump_once now owned slice p sh =
     (let snapshot = dumped now owned p
      in case slice of
           None \<Rightarrow> sh\<lparr>sd_books := Some (snapshot, now)\<rparr>
         | Some ex \<Rightarrow> sh\<lparr>sd_slices := (sd_slices sh)(ex \<mapsto> (snapshot, now))\<rparr>)"

text \<open>One round of the merger: changed slices are read again, entries past the ceiling are left out.\<close>

type_synonym merger = "(string \<times> file_books \<times> rat) list"

definition reread :: "shared \<Rightarrow> merger \<Rightarrow> string \<Rightarrow> merger" where
  "reread sh m ex =
     (case sd_slices sh ex of
        None \<Rightarrow> m
      | Some (data, mtime) \<Rightarrow>
          (case map_of m ex of
             Some (old, mt) \<Rightarrow> if mt = mtime then m else AList.update ex (data, mtime) m
           | None \<Rightarrow> AList.update ex (data, mtime) m))"

definition merged_books :: "rat \<Rightarrow> merger \<Rightarrow> file_books" where
  "merged_books now m =
     foldl (\<lambda>acc (key, d, ts). if ts < now - stale_serve_max then acc else AList.update key (d, ts) acc) []
       (concat (map (\<lambda>(ex, data, mt). data) m))"

definition merge_once :: "bool \<Rightarrow> rat \<Rightarrow> string list \<Rightarrow> merger \<times> shared \<Rightarrow> merger \<times> shared" where
  "merge_once redis now owned ms =
     (let m = foldl (reread (snd ms)) (fst ms) owned; merged = merged_books now m;
          sh = (snd ms)\<lparr>sd_books := Some (merged, now)\<rparr>
      in (m, write_books redis now merged sh))"

section \<open>Requests between processes\<close>

definition queue_subscribe_request :: "string \<Rightarrow> string \<Rightarrow> shared \<Rightarrow> shared" where
  "queue_subscribe_request exchange symbol sh =
     (let pending = (case sd_pending sh of None \<Rightarrow> [] | Some xs \<Rightarrow> xs);
          syms = (case map_of pending exchange of None \<Rightarrow> [] | Some ss \<Rightarrow> ss)
      in if symbol \<in> set syms then sh
         else sh\<lparr>sd_pending := Some (AList.update exchange (sort (remdups (symbol # syms))) pending)\<rparr>)"

definition drain_pending_subs :: "shared \<Rightarrow> (string \<times> string list) list \<times> shared" where
  "drain_pending_subs sh =
     (case sd_pending sh of None \<Rightarrow> ([], sh) | Some xs \<Rightarrow> (xs, sh\<lparr>sd_pending := None\<rparr>))"

definition touch_user_sub :: "rat \<Rightarrow> string \<Rightarrow> string \<Rightarrow> shared \<Rightarrow> shared" where
  "touch_user_sub now exchange symbol sh =
     (let key = book_key (lower exchange) (upper symbol);
          data = AList.update key now (case sd_user_subs sh of None \<Rightarrow> [] | Some xs \<Rightarrow> xs)
      in sh\<lparr>sd_user_subs := Some (filter (\<lambda>(k, ts). now - user_subs_ttl \<le> ts) data)\<rparr>)"

text \<open>\<open>key.partition(":")\<close>.\<close>

definition key_parts :: "string \<Rightarrow> string \<times> string" where
  "key_parts key = (split_first (CHR '':'') key, split_rest (CHR '':'') key)"

definition add_to :: "string \<Rightarrow> string \<Rightarrow> (string \<times> string list) list \<Rightarrow> (string \<times> string list) list" where
  "add_to ex s out = AList.update ex ((case map_of out ex of None \<Rightarrow> [] | Some ss \<Rightarrow> ss) @ [s]) out"

definition read_user_subs :: "rat \<Rightarrow> shared \<Rightarrow> (string \<times> string list) list" where
  "read_user_subs now sh =
     foldl (\<lambda>out (key, ts).
       if ts < now - user_subs_ttl then out
       else (case key_parts key of (ex, s) \<Rightarrow> if ex = [] \<or> s = [] then out else add_to ex s out)) []
       (case sd_user_subs sh of None \<Rightarrow> [] | Some xs \<Rightarrow> xs)"

section \<open>Pollers\<close>

text \<open>What one round of a poller ends with: a pause, the end of the poller, or its crash.\<close>

datatype poll_result = Pause rat | Stopped | Crashed

record poll_state =
  ps_empty :: nat
  ps_error :: nat

definition stop_poller :: "string \<Rightarrow> process \<Rightarrow> process" where
  "stop_poller key p = p\<lparr>pc_pollers := filter (\<lambda>k. k \<noteq> key) (pc_pollers p)\<rparr>"

text \<open>The rounds after a fetch with an outcome other than a book: the streaks and the pauses they cause.\<close>

definition poll_pause :: "fetch_outcome \<Rightarrow> poll_state \<Rightarrow> rat \<times> poll_state" where
  "poll_pause outcome st =
     (case outcome of
        F_Ok \<Rightarrow> (poll_interval, \<lparr>ps_empty = 0, ps_error = 0\<rparr>)
      | F_Empty \<Rightarrow>
          (let n = ps_empty st + 1; st = \<lparr>ps_empty = n, ps_error = 0\<rparr>
           in (if 20 \<le> n then 300 else if 5 \<le> n then 30 else poll_interval, st))
      | F_Error \<Rightarrow>
          (let n = ps_error st + 1; st = \<lparr>ps_empty = 0, ps_error = n\<rparr>
           in (if 5 \<le> n then 5 else poll_interval, st)))"

definition poll_once :: "clock \<Rightarrow> rat \<Rightarrow> (string \<Rightarrow> json option) \<Rightarrow> string \<Rightarrow> string \<Rightarrow> string \<Rightarrow> int \<Rightarrow>
    poll_state \<times> process \<Rightarrow> poll_result \<times> poll_state \<times> process" where
  "poll_once c now http key exchange symbol limit sp =
     (case sp of (st, p) \<Rightarrow>
        (case entry_of_key p key of
           None \<Rightarrow> (Stopped, st, stop_poller key p)
         | Some e \<Rightarrow>
             if e = empty_entry \<or> idle_timeout < now - or_zero (ce_last e) then (Stopped, st, stop_poller key p)
             else if or_zero (ce_ts e) \<noteq> 0 \<and> now - or_zero (ce_ts e) < file_fresh_max then (Pause poll_interval, st, p)
             else (case fetch_direct_with_status c now http (pc_rest p) exchange symbol limit of
                     (Inl _, r) \<Rightarrow> (Crashed, st, stop_poller key (p\<lparr>pc_rest := r\<rparr>))
                   | (Inr (outcome, data, err), r) \<Rightarrow>
                       (let p = p\<lparr>pc_rest := r\<rparr>
                        in if outcome = F_Error \<and> (case err of Some m \<Rightarrow> begins_with m ''unsupported exchange'' | None \<Rightarrow> False)
                           then (Stopped, st, stop_poller key p)
                           else (case poll_pause outcome st of (w, st) \<Rightarrow>
                                   (Pause w, st,
                                    if outcome = F_Ok
                                    then put_entry key (\<lambda>e. e\<lparr>ce_data := data, ce_ts := Some now\<rparr>) p
                                    else p))))))"

definition start_poller :: "string \<Rightarrow> process \<Rightarrow> process" where
  "start_poller key p =
     (if key \<in> set (pc_pollers p) then p else p\<lparr>pc_pollers := pc_pollers p @ [key]\<rparr>)"

definition prewarm_start_poller :: "rat \<Rightarrow> string \<Rightarrow> string \<Rightarrow> process \<Rightarrow> process" where
  "prewarm_start_poller now exchange symbol p =
     (let key = book_key (lower exchange) (upper symbol)
      in start_poller key (put_entry key (\<lambda>e. e\<lparr>ce_last := Some now\<rparr>) p))"

section \<open>Serving a book\<close>

definition is_ws_supported :: "string \<Rightarrow> bool" where
  "is_ws_supported exchange \<longleftrightarrow> lower exchange \<in> set ws_names"

definition ws_depth :: "string \<Rightarrow> int option" where
  "ws_depth exchange =
     map_of [(''binance'', 20), (''aster'', 20), (''gate'', 20), (''mexc'', 20), (''hyperliquid'', 20), (''kucoin'', 50),
       (''bingx'', 100), (''whitebit'', 100), (''bybit'', 200), (''okx'', 200), (''bitget'', 200),
       (''binance_spot'', 20), (''bybit_spot'', 50), (''okx_spot'', 50), (''gate_spot'', 20), (''kucoin_spot'', 100),
       (''bitget_spot'', 100), (''bingx_spot'', 100), (''htx_spot'', 20), (''mexc_spot'', 20)] exchange"

text \<open>\<open>_rest_fallback\<close>: a failed fetch, whatever it raises, is no book.\<close>

definition rest_fallback :: "clock \<Rightarrow> rat \<Rightarrow> (string \<Rightarrow> json option) \<Rightarrow> string \<Rightarrow> string \<Rightarrow> int \<Rightarrow> process \<Rightarrow> depth option \<times> process" where
  "rest_fallback c now http exchange symbol limit p =
     (let req = (case ws_depth exchange of Some n \<Rightarrow> min limit n | None \<Rightarrow> limit)
      in case fetch_direct c now http (pc_rest p) exchange symbol req of
           (r, rs) \<Rightarrow>
             (let p = p\<lparr>pc_rest := rs\<rparr>
              in case r of
                   Inl _ \<Rightarrow> (None, p)
                 | Inr data \<Rightarrow>
                     (case levels_in data of
                        None \<Rightarrow> (None, p)
                      | Some d \<Rightarrow>
                          (Some d, put_entry (book_key exchange symbol)
                             (\<lambda>e. e\<lparr>ce_data := Some d, ce_ts := Some now, ce_last := Some now\<rparr>) p))))"

text \<open>A recent book in memory, whose use is noted; and one in Redis.\<close>

definition memory_book :: "rat \<Rightarrow> string \<Rightarrow> process \<Rightarrow> depth option" where
  "memory_book now key p =
     (case entry_of_key p key of
        None \<Rightarrow> None
      | Some e \<Rightarrow> if now - or_zero (ce_ts e) < stale_fallback then levels_in (ce_data e) else None)"

definition in_use :: "rat \<Rightarrow> string \<Rightarrow> process \<Rightarrow> process" where
  "in_use now key p = put_entry key (\<lambda>e. e\<lparr>ce_last := Some now\<rparr>) p"

definition redis_book :: "bool \<Rightarrow> rat \<Rightarrow> string \<Rightarrow> string \<Rightarrow> shared \<Rightarrow> depth option" where
  "redis_book redis now exchange symbol sh =
     (case read_book redis now exchange symbol sh of
        Some (d, ts) \<Rightarrow> if now - ts < file_fresh_max then levels_in (Some d) else None
      | None \<Rightarrow> None)"

text \<open>
  The wait for a first push: what the memory and the files look like at each of the later checks is
  given, each with its time. The memory is looked at whatever its age.
\<close>

fun wait_for_push :: "string \<Rightarrow> (rat \<times> process \<times> shared) list \<Rightarrow> process \<times> shared \<Rightarrow> depth option \<times> process \<times> shared" where
  "wait_for_push key [] ps = (None, ps)"
| "wait_for_push key ((t, p, sh) # later) ps =
     (case levels_in (case entry_of_key p key of Some e \<Rightarrow> ce_data e | None \<Rightarrow> None) of
        Some d \<Rightarrow> (Some d, in_use t key p, sh)
      | None \<Rightarrow>
          (case file_lookup t file_fresh_max key sh p of
             (Some d, p) \<Rightarrow> if has_levels d then (Some d, p, sh) else wait_for_push key later (p, sh)
           | (None, p) \<Rightarrow> wait_for_push key later (p, sh)))"

record book_request =
  bq_clock :: clock
  bq_now :: rat
  bq_http :: "string \<Rightarrow> json option"
  bq_redis :: bool
  bq_manager :: bool
  bq_later :: "(rat \<times> process \<times> shared) list"

definition first_wait :: rat where "first_wait = 7 / 10"

text \<open>The checks that come before the deadline.\<close>

definition checks :: "book_request \<Rightarrow> (rat \<times> process \<times> shared) list" where
  "checks q = takeWhile (\<lambda>(t, _). t < bq_now q + first_wait) (bq_later q)"

text \<open>
  Steps 3 to 7 of \<open>get_cached_orderbook\<close>: nothing recent is at hand. The process that owns the stream
  manager subscribes there, which is no part of this state; another queues the request.
\<close>

definition fetch_orderbook :: "book_request \<Rightarrow> string \<Rightarrow> string \<Rightarrow> int \<Rightarrow> process \<times> shared \<Rightarrow> depth \<times> process \<times> shared" where
  "fetch_orderbook q exchange symbol limit ps =
     (case ps of (p, sh) \<Rightarrow>
        (let key = book_key exchange symbol; now = bq_now q;
             sh = (if is_ws_supported exchange \<and> \<not> bq_manager q then queue_subscribe_request exchange symbol sh else sh)
         in case rest_fallback (bq_clock q) now (bq_http q) exchange symbol limit p of
              (Some d, p) \<Rightarrow> (d, p, sh)
            | (None, p) \<Rightarrow>
                (case file_lookup_stale now key sh p of (stale, p) \<Rightarrow>
                   (case levels_in stale of
                      Some d \<Rightarrow> (d, p, sh)
                    | None \<Rightarrow>
                        (case wait_for_push key (checks q) (p, sh) of
                           (Some d, ps) \<Rightarrow> (d, ps)
                         | (None, p, sh) \<Rightarrow>
                             (let p = (if is_ws_supported exchange then p else start_poller key (in_use now key p))
                              in (case entry_of_key p key of
                                    Some e \<Rightarrow> (case ce_data e of Some d \<Rightarrow> d | None \<Rightarrow> empty_depth)
                                  | None \<Rightarrow> empty_depth, p, sh)))))))"

text \<open>Steps 1 and 2: memory, Redis, the shared file.\<close>

definition recent_orderbook :: "book_request \<Rightarrow> string \<Rightarrow> string \<Rightarrow> process \<times> shared \<Rightarrow> depth option \<times> process \<times> shared" where
  "recent_orderbook q exchange symbol ps =
     (case ps of (p, sh) \<Rightarrow>
        (let key = book_key exchange symbol; now = bq_now q
         in case memory_book now key p of
              Some d \<Rightarrow> (Some d, in_use now key p, sh)
            | None \<Rightarrow>
                (case redis_book (bq_redis q) now exchange symbol sh of
                   Some d \<Rightarrow> (Some d, p, sh)
                 | None \<Rightarrow>
                     (case file_lookup now file_fresh_max key sh p of (fd, p) \<Rightarrow> (levels_in fd, p, sh)))))"

definition deep_limit_threshold :: int where "deep_limit_threshold = 30"

text \<open>A request for a deep book tries memory, Redis and REST first.\<close>

definition deep_orderbook :: "book_request \<Rightarrow> string \<Rightarrow> string \<Rightarrow> int \<Rightarrow> process \<times> shared \<Rightarrow> depth option \<times> process \<times> shared" where
  "deep_orderbook q exchange symbol limit ps =
     (case ps of (p, sh) \<Rightarrow>
        (let key = book_key exchange symbol; now = bq_now q
         in case memory_book now key p of
              Some d \<Rightarrow> (Some d, in_use now key p, sh)
            | None \<Rightarrow>
                (case redis_book (bq_redis q) now exchange symbol sh of
                   Some d \<Rightarrow> (Some d, p, sh)
                 | None \<Rightarrow>
                     (case rest_fallback (bq_clock q) now (bq_http q) exchange symbol limit p of
                        (Some d, p) \<Rightarrow> (Some d, in_use now key p, sh)
                      | (None, p) \<Rightarrow> (None, p, sh)))))"

definition get_cached_orderbook :: "book_request \<Rightarrow> string \<Rightarrow> string \<Rightarrow> int \<Rightarrow> process \<times> shared \<Rightarrow> depth \<times> process \<times> shared" where
  "get_cached_orderbook q exchange0 symbol0 limit ps =
     (let exchange = lower exchange0; symbol = upper symbol0
      in case (if deep_limit_threshold < limit then deep_orderbook q exchange symbol limit ps else (None, ps)) of
           (Some d, ps) \<Rightarrow> (d, ps)
         | (None, ps) \<Rightarrow>
             (case recent_orderbook q exchange symbol ps of
                (Some d, ps) \<Rightarrow> (d, ps)
              | (None, ps) \<Rightarrow> fetch_orderbook q exchange symbol limit ps))"

text \<open>The best prices the arbitrage computation reads.\<close>

definition top_levels :: "rat \<Rightarrow> string \<Rightarrow> string \<Rightarrow> shared \<Rightarrow> process \<Rightarrow> (rat \<times> rat) option \<times> process" where
  "top_levels now exchange symbol sh p =
     (let key = book_key (lower exchange) (upper symbol);
          mem = (case entry_of_key p key of
                   Some e \<Rightarrow> if now - or_zero (ce_ts e) \<le> file_degraded_max then ce_data e else None
                 | None \<Rightarrow> None)
      in case (case mem of Some d \<Rightarrow> (Some d, p) | None \<Rightarrow> file_lookup now file_degraded_max key sh p) of
           (None, p) \<Rightarrow> (None, p)
         | (Some d, p) \<Rightarrow>
             ((case (dp_bids d, dp_asks d) of
                 (b # _, a # _) \<Rightarrow> Some (fst b, fst a)
               | _ \<Rightarrow> None), p))"

section \<open>Freshness\<close>

record freshness =
  fr_fresh :: nat
  fr_degraded :: nat
  fr_stale :: nat
  fr_total :: nat
  fr_healthy :: bool
  fr_min :: "rat option"
  fr_avg :: "rat option"
  fr_median :: "rat option"
  fr_max :: "rat option"
  fr_p90 :: "rat option"

text \<open>The ages of the books in memory, and of those in the file that are not in memory; a zero time counts as none.\<close>

definition book_ages :: "rat \<Rightarrow> process \<Rightarrow> (string \<times> rat) list" where
  "book_ages now p =
     (let mem = filter (\<lambda>(k, t). t \<noteq> 0) (map (\<lambda>(k, e). (k, or_zero (ce_ts e))) (pc_books p));
          file = filter (\<lambda>(k, t). t \<noteq> 0 \<and> k \<notin> fst ` set mem) (map (\<lambda>(k, d, t). (k, t)) (pc_memo p))
      in map (\<lambda>(k, t). (split_first (CHR '':'') k, max 0 (now - t))) (filter (\<lambda>(k, _). CHR '':'' \<in> set k) (mem @ file)))"

definition freshness_of :: "rat list \<Rightarrow> freshness" where
  "freshness_of ages =
     (let sorted_ages = sort ages; n = length ages;
          fresh = length (filter (\<lambda>a. a \<le> file_fresh_max) ages);
          degraded = length (filter (\<lambda>a. file_fresh_max < a \<and> a \<le> file_degraded_max) ages);
          at_rank = (\<lambda>i. if n = 0 then None else Some (round_places 2 (sorted_ages ! i)))
      in \<lparr>fr_fresh = fresh, fr_degraded = degraded, fr_stale = n - fresh - degraded, fr_total = n,
          fr_healthy = (0 < fresh), fr_min = at_rank 0,
          fr_avg = (if n = 0 then None else Some (round_places 2 (sum_list ages / of_nat n))),
          fr_median = at_rank (n div 2), fr_max = at_rank (n - 1), fr_p90 = at_rank (min (n - 1) (n * 9 div 10))\<rparr>)"

definition freshness_by_exchange :: "rat \<Rightarrow> shared \<Rightarrow> process \<Rightarrow> (string \<times> freshness) list \<times> process" where
  "freshness_by_exchange now sh p =
     (let p = refresh_file_memo now sh p; ages = book_ages now p
      in (map (\<lambda>ex. (ex, freshness_of (map snd (filter (\<lambda>(x, _). x = ex) ages)))) (first_seen (map fst ages)), p))"

section \<open>The hot list\<close>

text \<open>
  One round of the prewarm loop: which streams to subscribe and which venues to poll, from the
  opportunities, the funding rows, the spot opportunities and the requests of other processes. A
  missing venue is the empty text.
\<close>

record hot_opp =
  ho_symbol :: string
  ho_venues :: "string list"
  ho_spread :: rat

record hot_row =
  hr_symbol :: string
  hr_exchange :: string
  hr_volume :: rat

record hot_spot =
  hs_symbol :: string
  hs_spot :: string
  hs_short :: string
  hs_basis :: rat

record hot_scope =
  sc_only :: "string option"
  sc_owned :: "string list"

record hot_subs =
  hb_ws :: "(string \<times> string list) list"
  hb_rest :: "(string \<times> string) list"

definition prewarm_top_n :: nat where "prewarm_top_n = 20"
definition prune_every :: nat where "prune_every = 30"

definition in_scope :: "hot_scope \<Rightarrow> string \<Rightarrow> bool" where
  "in_scope sc ex \<longleftrightarrow> (case sc_only sc of Some only \<Rightarrow> ex = only | None \<Rightarrow> True) \<and> ex \<notin> set (sc_owned sc)"

text \<open>\<open>setdefault(ex, set()).add(sym)\<close>.\<close>

definition add_ws :: "string \<Rightarrow> string \<Rightarrow> hot_subs \<Rightarrow> hot_subs" where
  "add_ws ex s h =
     (let syms = (case map_of (hb_ws h) ex of None \<Rightarrow> [] | Some ss \<Rightarrow> ss)
      in h\<lparr>hb_ws := AList.update ex (if s \<in> set syms then syms else syms @ [s]) (hb_ws h)\<rparr>)"

definition add_rest :: "string \<Rightarrow> string \<Rightarrow> hot_subs \<Rightarrow> hot_subs" where
  "add_rest ex s h = (if (ex, s) \<in> set (hb_rest h) then h else h\<lparr>hb_rest := hb_rest h @ [(ex, s)]\<rparr>)"

definition add_venue :: "hot_scope \<Rightarrow> string \<Rightarrow> hot_subs \<Rightarrow> string \<Rightarrow> hot_subs" where
  "add_venue sc s h ex =
     (if ex = [] \<or> \<not> in_scope sc (lower ex) then h
      else if is_ws_supported ex then add_ws ex s h else add_rest ex s h)"

definition hot_from_opps :: "hot_scope \<Rightarrow> hot_opp list \<Rightarrow> hot_subs \<Rightarrow> hot_subs" where
  "hot_from_opps sc opps h =
     foldl (\<lambda>h q. foldl (add_venue sc (ho_symbol q)) h (ho_venues q)) h
       (take prewarm_top_n (sort_key (\<lambda>q. - \<bar>ho_spread q\<bar>) opps))"

definition hot_from_rows :: "hot_scope \<Rightarrow> hot_row list \<Rightarrow> hot_subs \<Rightarrow> hot_subs" where
  "hot_from_rows sc rows h =
     (let by_sym = map (\<lambda>s. (s, filter (\<lambda>r. hr_symbol r = s) rows)) (first_seen (map hr_symbol rows));
          cross = filter (\<lambda>(s, rs). 2 \<le> length rs) by_sym;
          top = take prewarm_top_n (sort_key (\<lambda>(s, rs). - foldr (\<lambda>r v. max (hr_volume r) v) (tl rs) (hr_volume (hd rs))) cross)
      in foldl (\<lambda>h (s, rs). foldl (add_venue sc s) h (map hr_exchange rs)) h top)"

definition hot_from_spots :: "hot_scope \<Rightarrow> hot_spot list \<Rightarrow> hot_subs \<Rightarrow> hot_subs" where
  "hot_from_spots sc spots h =
     foldl (\<lambda>h q.
       if hs_symbol q = [] then h
       else (let spot_key = lower (hs_spot q) @ ''_spot''; short = lower (hs_short q);
                 h = (if is_ws_supported spot_key \<and> in_scope sc spot_key then add_ws spot_key (hs_symbol q) h else h)
             in if is_ws_supported short \<and> in_scope sc short then add_ws short (hs_symbol q) h else h)) h
       (take prewarm_top_n (sort_key (\<lambda>q. - \<bar>hs_basis q\<bar>) spots))"

definition hot_from_requests :: "(string \<times> string list) list \<Rightarrow> (string \<times> string list) list \<Rightarrow> hot_subs \<Rightarrow> hot_subs" where
  "hot_from_requests pending users h =
     (let h = foldl (\<lambda>h (ex, ss). if is_ws_supported ex then h else foldl (\<lambda>h s. add_rest ex s h) h ss) h pending
      in foldl (\<lambda>h (ex, ss). foldl (\<lambda>h s. if is_ws_supported ex then add_ws ex s h else add_rest ex s h) h ss) h users)"

text \<open>The orders to the stream manager: add symbols, or replace the symbols of a venue.\<close>

datatype manager_call = Subscribe string "string list" | Set_Symbols string "string list"

record hot_input =
  hi_opps :: "hot_opp list"
  hi_rows :: "hot_row list"
  hi_spots :: "hot_spot list"

definition hot_subs_of :: "hot_scope \<Rightarrow> hot_input \<Rightarrow> (string \<times> string list) list \<Rightarrow> (string \<times> string list) list \<Rightarrow> hot_subs" where
  "hot_subs_of sc i pending users =
     hot_from_requests pending users (hot_from_spots sc (hi_spots i) (hot_from_rows sc (hi_rows i)
       (hot_from_opps sc (hi_opps i) \<lparr>hb_ws = [], hb_rest = []\<rparr>)))"

text \<open>A subscribed pair whose book is more than ten seconds old gets a poller as well.\<close>

definition back_up :: "rat \<Rightarrow> string \<times> string \<Rightarrow> process \<Rightarrow> process" where
  "back_up now es p =
     (let key = book_key (fst es) (snd es);
          age = now - (case entry_of_key p key of Some e \<Rightarrow> or_zero (ce_ts e) | None \<Rightarrow> 0);
          p = in_use now key p
      in if 10 < age then start_poller key p else p)"

definition hotlist_tick :: "rat \<Rightarrow> hot_scope \<Rightarrow> hot_input \<Rightarrow> nat \<times> process \<times> shared \<Rightarrow>
    manager_call list \<times> nat \<times> process \<times> shared" where
  "hotlist_tick now sc i s =
     (case s of (ticks, p, sh) \<Rightarrow>
        (case drain_pending_subs sh of (pending, sh) \<Rightarrow>
           (let users = read_user_subs now sh; h = hot_subs_of sc i pending users; ticks = ticks + 1;
                calls = map (\<lambda>(ex, ss). if ticks mod prune_every = 0 then Set_Symbols ex ss else Subscribe ex ss) (hb_ws h) @
                        map (\<lambda>(ex, ss). Subscribe ex ss) (filter (\<lambda>(ex, ss). is_ws_supported ex \<and> ss \<noteq> []) pending);
                p = foldl (\<lambda>p (ex, s). prewarm_start_poller now ex s p) p (hb_rest h);
                p = foldl (\<lambda>p es. back_up now es p) p (concat (map (\<lambda>(ex, ss). map (\<lambda>s. (ex, s)) ss) (hb_ws h)))
            in (calls, ticks, p, sh))))"

end
