(* ===== verification/Stream_Sessions.thy ===== *)
theory Stream_Sessions
  imports Book_Cache
begin

text \<open>
  The life of a stream, \<^verbatim>\<open>WSAdapter\<close> of \<^verbatim>\<open>orderbook_ws/base.py\<close>, and the manager that owns one for each
  venue (\<^verbatim>\<open>orderbook_ws/manager.py\<close>). A session is the adapter with its connection; the subscribe tasks it
  has scheduled are a list, and each runs as one step. \<open>se_sent\<close> is what was subscribed on the present
  connection, \<open>se_alive\<close> whether its socket still works: the code does not see them. KuCoin futures
  replaces the loop by two sessions of its own, which are not modelled.
\<close>

section \<open>Sessions\<close>

record session =
  se_wanted :: "string set"
  se_subscribed :: "string set"
  se_ws :: bool
  se_alive :: bool
  se_sent :: "string set"
  se_tasks :: "string set option list"
  se_running :: bool
  se_stop :: bool
  se_backoff :: rat
  se_policy :: rat
  se_frames :: nat

definition new_session :: session where
  "new_session =
     \<lparr>se_wanted = {}, se_subscribed = {}, se_ws = False, se_alive = False, se_sent = {}, se_tasks = [],
      se_running = False, se_stop = False, se_backoff = 3 / 10, se_policy = 30, se_frames = 0\<rparr>"

definition max_symbols :: "string \<Rightarrow> nat option" where
  "max_symbols name = (if name = ''kucoin'' then Some 50 else if name = ''kucoin_spot'' then Some 80 else None)"

definition apply_cap :: "nat option \<Rightarrow> string set \<Rightarrow> string set" where
  "apply_cap cap symbols =
     (case cap of
        None \<Rightarrow> symbols
      | Some n \<Rightarrow> if n \<noteq> 0 \<and> n < card symbols then set (take n (sorted_list_of_set symbols)) else symbols)"

definition upper_all :: "string list \<Rightarrow> string set" where
  "upper_all symbols = set (map upper symbols)"

text \<open>A started adapter that is started again asks for a method that does not exist.\<close>

definition start_session :: "nat option \<Rightarrow> string list \<Rightarrow> session \<Rightarrow> (py_error + unit) \<times> session" where
  "start_session cap symbols s =
     (let s = s\<lparr>se_wanted := apply_cap cap (upper_all symbols)\<rparr>
      in if se_running s then (Inl Attribute_Error, s)
         else (Inr (), s\<lparr>se_stop := False, se_running := True, se_backoff := 3 / 10, se_policy := 30, se_frames := 0\<rparr>))"

definition stop_session :: "session \<Rightarrow> session" where
  "stop_session s = s\<lparr>se_stop := True, se_running := False, se_alive := False\<rparr>"

definition add_symbols :: "nat option \<Rightarrow> string list \<Rightarrow> session \<Rightarrow> session" where
  "add_symbols cap symbols s =
     (let capped = apply_cap cap (se_wanted s \<union> upper_all symbols); new = capped - se_wanted s
      in if new = {} then s
         else (let s = s\<lparr>se_wanted := capped\<rparr>
               in if se_ws s then s\<lparr>se_tasks := se_tasks s @ [Some new]\<rparr> else s))"

definition set_symbols :: "nat option \<Rightarrow> string list \<Rightarrow> session \<Rightarrow> session" where
  "set_symbols cap symbols s =
     (let desired = apply_cap cap (upper_all symbols)
      in if desired = se_wanted s then s
         else (let removed = se_wanted s - desired; added = desired - se_wanted s; s = s\<lparr>se_wanted := desired\<rparr>
               in if removed \<noteq> {} \<and> se_ws s then s\<lparr>se_ws := False, se_alive := False\<rparr>
                  else if added \<noteq> {} \<and> se_ws s then s\<lparr>se_tasks := se_tasks s @ [Some added]\<rparr>
                  else s))"

text \<open>One subscribe task: the frames that go out, and the session after it. A dead socket refuses them.\<close>

definition send_subscribe :: "(string list \<Rightarrow> json list) \<Rightarrow> string set option \<Rightarrow> session \<Rightarrow> json list \<times> session" where
  "send_subscribe build only s =
     (if \<not> se_ws s then ([], s)
      else (let syms = (case only of Some x \<Rightarrow> if x = {} then se_wanted s - se_subscribed s else x
                        | None \<Rightarrow> se_wanted s - se_subscribed s)
            in if syms = {} \<or> \<not> se_alive s then ([], s)
               else (build (sorted_list_of_set syms),
                     s\<lparr>se_subscribed := se_subscribed s \<union> syms, se_sent := se_sent s \<union> syms\<rparr>)))"

section \<open>The loop\<close>

text \<open>A connection is opened: everything wanted is subscribed anew.\<close>

definition opened :: "session \<Rightarrow> session" where
  "opened s =
     s\<lparr>se_ws := True, se_alive := True, se_subscribed := {}, se_sent := {}, se_frames := 0,
       se_tasks := (if se_wanted s = {} then se_tasks s else None # se_tasks s)\<rparr>"

definition data_frame :: "session \<Rightarrow> session" where
  "data_frame s =
     (let s = s\<lparr>se_frames := se_frames s + 1\<rparr>
      in if se_frames s = 1 then s\<lparr>se_backoff := 3 / 10, se_policy := 30\<rparr> else s)"

text \<open>The loop leaves with an error: the pause before the next attempt. A clean end makes no pause at all.\<close>

definition is_policy_error :: "string \<Rightarrow> bool" where
  "is_policy_error msg \<longleftrightarrow>
     list_ex (\<lambda>s. contains s msg) [''1008'', ''3001'', ''4400'', ''4401'', ''policy violation'', ''illegal request'', ''Invalid request'']"

definition failed :: "string \<Rightarrow> rat \<Rightarrow> session \<Rightarrow> rat \<times> session" where
  "failed msg jitter s =
     (let gone = s\<lparr>se_ws := False, se_alive := False, se_frames := 0\<rparr>
      in if is_policy_error msg \<and> se_frames s = 0
         then (se_policy s + jitter, gone\<lparr>se_policy := min (se_policy s * (3 / 2)) 600\<rparr>)
         else (se_backoff s + jitter, gone\<lparr>se_backoff := min (se_backoff s * (3 / 2)) 8\<rparr>))"

definition ended :: "session \<Rightarrow> session" where
  "ended s = s\<lparr>se_alive := False, se_frames := 0\<rparr>"

text \<open>The watchdog closes a connection without a frame for more than thirty seconds.\<close>

definition stale_watchdog :: "rat \<Rightarrow> rat \<Rightarrow> session \<Rightarrow> session" where
  "stale_watchdog now last_msg s = (if se_stop s \<or> \<not> 30 < now - last_msg then s else s\<lparr>se_alive := False\<rparr>)"

text \<open>The pause between two frames of a heartbeat.\<close>

definition heartbeat_interval :: "rat option \<Rightarrow> rat" where
  "heartbeat_interval ping = max 5 (case ping of Some p \<Rightarrow> if p = 0 then 15 else p - 2 | None \<Rightarrow> 15)"

section \<open>Incoming frames\<close>

text \<open>
  A frame after decompression: a text, whose parse is given. Plain pings are answered in the case they
  came in, pings of the application by the adapter; what is left is parsed, and a quote with a level is
  handed on. A failing parser is silence.
\<close>

record frame_result =
  fr_reply :: "reply option"
  fr_quote :: "quote option"

definition quiet :: frame_result where
  "quiet = \<lparr>fr_reply = None, fr_quote = None\<rparr>"

definition receive :: "(int \<Rightarrow> string option) \<Rightarrow> string \<Rightarrow> (string \<Rightarrow> json option) \<Rightarrow> string \<Rightarrow> depths \<Rightarrow> frame_result \<times> depths" where
  "receive ids name loads raw bs =
     (if lower raw = ''ping'' then (quiet\<lparr>fr_reply := Some (Text_Frame (if raw = lower raw then ''pong'' else ''Pong''))\<rparr>, bs)
      else if lower raw = ''pong'' then (quiet, bs)
      else (case loads raw of
              None \<Rightarrow> (quiet, bs)
            | Some msg \<Rightarrow>
                (case pong_for name msg of
                   Some r \<Rightarrow> (quiet\<lparr>fr_reply := Some r\<rparr>, bs)
                 | None \<Rightarrow>
                     (case parse_message ids name msg bs of
                        (Inr (Some (token, bids, asks)), bs) \<Rightarrow>
                          (if bids \<noteq> [] \<or> asks \<noteq> [] then quiet\<lparr>fr_quote := Some (token, bids, asks)\<rparr> else quiet, bs)
                      | (_, bs) \<Rightarrow> (quiet, bs)))))"

section \<open>The manager\<close>

type_synonym sessions = "string \<Rightarrow> session option"

text \<open>A call for a venue: its session is started, or told to add or to replace symbols.\<close>

definition start_new :: "string \<Rightarrow> string list \<Rightarrow> session" where
  "start_new ex symbols = snd (start_session (max_symbols ex) symbols new_session)"

definition manager_do :: "sessions \<Rightarrow> manager_call \<Rightarrow> sessions" where
  "manager_do m call =
     (case call of
        Subscribe exchange symbols \<Rightarrow>
          (let ex = lower exchange
           in if ex \<notin> set ws_names then m
              else m(ex \<mapsto> (case m ex of None \<Rightarrow> start_new ex symbols | Some s \<Rightarrow> add_symbols (max_symbols ex) symbols s)))
      | Set_Symbols exchange symbols \<Rightarrow>
          (let ex = lower exchange
           in if ex \<notin> set ws_names then m
              else m(ex \<mapsto> (case m ex of None \<Rightarrow> start_new ex symbols | Some s \<Rightarrow> set_symbols (max_symbols ex) symbols s))))"

definition stop_all :: "sessions \<Rightarrow> sessions" where
  "stop_all m = (\<lambda>_. None)"

end
