(* ===== verification/Book_Streams_Safety.thy ===== *)
theory Book_Streams_Safety
  imports Book_Streams
begin

text \<open>
  What the book streams hand on: the best levels of each side in order, each price once, however
  the messages of a venue come; and for the venues that send changes the book is, price by price,
  the last word of the venue since its last snapshot.
\<close>

section \<open>One side of a book\<close>

definition one_side :: "levels \<Rightarrow> bool" where
  "one_side s \<longleftrightarrow> distinct (map fst s)"

definition falling :: "levels \<Rightarrow> bool" where
  "falling ls \<longleftrightarrow> sorted_wrt (>) (map fst ls)"

definition rising :: "levels \<Rightarrow> bool" where
  "rising ls \<longleftrightarrow> sorted_wrt (<) (map fst ls)"

lemma one_side_Nil [simp]: "one_side []"
  by (simp add: one_side_def)

lemma one_side_update [simp]: "one_side s \<Longrightarrow> one_side (AList.update p q s)"
  by (simp add: one_side_def AList.distinct_update)

lemma one_side_delete [simp]: "one_side s \<Longrightarrow> one_side (AList.delete p s)"
  by (simp add: one_side_def AList.distinct_delete)

lemma one_side_put [simp]: "one_side s \<Longrightarrow> one_side (put_level p q s)"
  by (simp add: put_level_def)

lemma map_of_put: "map_of (put_level p q s) = (map_of s)(p := if q \<le> 0 then None else Some q)"
  by (auto simp: put_level_def AList.update_conv' AList.delete_conv')

lemma strictly_sorted: "sorted (map f xs) \<Longrightarrow> distinct (map f xs) \<Longrightarrow> sorted_wrt (<) (map f xs)"
  by (simp add: strict_sorted_iff)

lemma rising_best_asks: "one_side s \<Longrightarrow> rising (best_asks n s)"
proof -
  assume "one_side s"
  then have "distinct (map fst (sort_key fst s))"
    unfolding one_side_def by (metis distinct_map distinct_sort set_sort)
  then have "sorted_wrt (<) (map fst (sort_key fst s))" by (intro strictly_sorted) auto
  then show ?thesis unfolding rising_def best_asks_def take_map [symmetric] by (rule sorted_wrt_take)
qed

lemma falling_best_bids: "one_side s \<Longrightarrow> falling (best_bids n s)"
proof -
  assume os: "one_side s"
  let ?k = "\<lambda>l :: rat \<times> rat. - fst l"
  have "distinct (map ?k s)" using os by (simp add: one_side_def distinct_map inj_on_def)
  then have "distinct (map ?k (sort_key ?k s))" by (metis distinct_map distinct_sort set_sort)
  then have "sorted_wrt (<) (map ?k (sort_key ?k s))" by (intro strictly_sorted) auto
  then have "sorted_wrt (>) (map fst (sort_key ?k s))" by (simp add: sorted_wrt_map)
  then show ?thesis unfolding falling_def best_bids_def take_map [symmetric] by (rule sorted_wrt_take)
qed

lemma best_asks_subset: "set (best_asks n s) \<subseteq> set s"
  using set_take_subset [of n "sort_key fst s"] by (simp add: best_asks_def)

lemma best_bids_subset: "set (best_bids n s) \<subseteq> set s"
  using set_take_subset [of n "sort_key (\<lambda>l. - fst l) s"] by (simp add: best_bids_def)

text \<open>A level of the book that is not handed on is no better than any that is.\<close>

lemma sorted_wrt_take_drop: "sorted_wrt P xs \<Longrightarrow> x \<in> set (take n xs) \<Longrightarrow> y \<in> set (drop n xs) \<Longrightarrow> P x y"
  by (metis append_take_drop_id sorted_wrt_append)

lemma left_out_take: "set xs = set ys \<Longrightarrow> l \<in> set ys \<Longrightarrow> l \<notin> set (take n xs) \<Longrightarrow> l \<in> set (drop n xs)"
  by (metis UnE append_take_drop_id set_append)

lemma best_asks_best:
  assumes "l \<in> set s" and "l \<notin> set (best_asks n s)" and "b \<in> set (best_asks n s)"
  shows "fst b \<le> fst l"
proof -
  have "l \<in> set (drop n (sort_key fst s))"
    using left_out_take [of "sort_key fst s" s l n] assms(1,2) by (simp add: best_asks_def)
  moreover have "sorted_wrt (\<lambda>x y. fst x \<le> fst y) (sort_key fst s)"
    using sorted_sort_key [of fst s] by (simp add: sorted_wrt_map)
  ultimately show ?thesis using assms(3) by (auto simp: best_asks_def dest: sorted_wrt_take_drop)
qed

lemma best_bids_best:
  assumes "l \<in> set s" and "l \<notin> set (best_bids n s)" and "b \<in> set (best_bids n s)"
  shows "fst l \<le> fst b"
proof -
  let ?k = "\<lambda>l :: rat \<times> rat. - fst l"
  have "l \<in> set (drop n (sort_key ?k s))"
    using left_out_take [of "sort_key ?k s" s l n] assms(1,2) by (simp add: best_bids_def)
  moreover have "sorted_wrt (\<lambda>x y. ?k x \<le> ?k y) (sort_key ?k s)"
    using sorted_sort_key [of ?k s] by (simp add: sorted_wrt_map)
  ultimately show ?thesis using assms(3) by (force simp: best_bids_def dest: sorted_wrt_take_drop)
qed

section \<open>What every message keeps\<close>

text \<open>
  \<open>good\<close> is a demand on single levels; a side is good if each price occurs once and each level
  meets the demand. A step of an adapter is safe if it keeps good sides good.
\<close>

definition good_side :: "(rat \<times> rat \<Rightarrow> bool) \<Rightarrow> levels \<Rightarrow> bool" where
  "good_side P s \<longleftrightarrow> one_side s \<and> list_all P s"

definition good_depth :: "(rat \<times> rat \<Rightarrow> bool) \<Rightarrow> depth \<Rightarrow> bool" where
  "good_depth P d \<longleftrightarrow> good_side P (dp_bids d) \<and> good_side P (dp_asks d)"

definition good_depths :: "(rat \<times> rat \<Rightarrow> bool) \<Rightarrow> depths \<Rightarrow> bool" where
  "good_depths P bs \<longleftrightarrow> (\<forall>token d. bs token = Some d \<longrightarrow> good_depth P d)"

abbreviation any_level :: "rat \<times> rat \<Rightarrow> bool" where
  "any_level \<equiv> \<lambda>_. True"

abbreviation sized :: "rat \<times> rat \<Rightarrow> bool" where
  "sized \<equiv> \<lambda>(p, q). 0 < q"

named_theorems good_intros "steps that keep books good"

lemma good_side_Nil [good_intros, simp]: "good_side P []"
  by (simp add: good_side_def)

lemma good_empty [good_intros, simp]: "good_depth P empty_depth"
  by (simp add: good_depth_def empty_depth_def)

lemma good_wiped [good_intros]: "good_depth P d \<Longrightarrow> good_depth P (wiped b d)"
  by (simp add: wiped_def)

lemma good_depth_of [good_intros]: "good_depths P bs \<Longrightarrow> good_depth P (depth_of bs token)"
  by (auto simp: good_depths_def depth_of_def split: option.splits)

lemma set_update: "set (AList.update p q s) \<subseteq> insert (p, q) (set s)"
  by (induction s) auto

lemma good_update: "good_side P s \<Longrightarrow> P (p, q) \<Longrightarrow> good_side P (AList.update p q s)"
  using set_update [of p q s] by (auto simp: good_side_def list_all_iff)

lemma good_delete: "good_side P s \<Longrightarrow> good_side P (AList.delete p s)"
  by (auto simp: good_side_def list_all_iff AList.delete_eq one_side_def
      intro: AList.distinct_delete [unfolded AList.delete_eq])

lemma good_put:
  "good_side P s \<Longrightarrow> (0 < q \<Longrightarrow> P (p, q)) \<Longrightarrow> good_side P (put_level p q s)"
  by (simp add: put_level_def good_update good_delete)

lemma good_merge_levels:
  "good_side P s \<Longrightarrow> (\<And>p q. 0 < q \<Longrightarrow> P (p, q)) \<Longrightarrow> good_side P (snd (merge_levels read ls s))"
proof (induction ls arbitrary: s)
  case (Cons l ls)
  then show ?case by (auto split: sum.splits option.splits simp: good_put)
qed simp

lemma good_merge_side [good_intros]:
  "good_side P s \<Longrightarrow> (\<And>p q. 0 < q \<Longrightarrow> P (p, q)) \<Longrightarrow> good_side P (snd (merge_side read raw s))"
  by (auto simp: merge_side_def good_merge_levels split: sum.splits)

lemma good_merge_depth [good_intros]:
  assumes "good_depth P d" and "\<And>p q. 0 < q \<Longrightarrow> P (p, q)"
  shows "good_depth P (snd (merge_depth read b a d))"
    and "good_depth P (snd (merge_depth_asks_first read a b d))"
proof -
  have "good_side P (snd (merge_side read b (dp_bids d)))" "good_side P (snd (merge_side read a (dp_asks d)))"
    using assms by (auto simp: good_depth_def intro!: good_merge_side)
  then show "good_depth P (snd (merge_depth read b a d))"
    "good_depth P (snd (merge_depth_asks_first read a b d))"
    using assms(1)
    by (auto simp: merge_depth_def merge_depth_asks_first_def good_depth_def Let_def split: prod.splits sum.splits)
qed

lemma good_merge_data [good_intros]:
  "good_depth P d \<Longrightarrow> (\<And>p q. 0 < q \<Longrightarrow> P (p, q)) \<Longrightarrow> good_depth P (snd (merge_data read data d))"
  by (auto simp: merge_data_def good_merge_depth split: sum.splits)


lemma good_upd [good_intros]: "good_depths P bs \<Longrightarrow> good_depth P d \<Longrightarrow> good_depths P (bs(token \<mapsto> d))"
  by (simp add: good_depths_def)

lemma good_publish [good_intros]:
  "good_depths P bs \<Longrightarrow> good_depth P (snd m) \<Longrightarrow> good_depths P (snd (publish n token bs m))"
  by (cases m) (simp add: publish_def good_upd)

lemma good_with_frame [good_intros]:
  "good_depths P bs \<Longrightarrow> (\<And>x. r = Inr (Some x) \<Longrightarrow> good_depths P (snd (f x))) \<Longrightarrow> good_depths P (snd (with_frame r bs f))"
  by (auto simp: with_frame_def split: sum.splits option.splits)

lemma good_at_side [good_intros]:
  "good_depth P d \<Longrightarrow> (\<And>s. good_side P s \<Longrightarrow> good_side P (f s)) \<Longrightarrow> good_depth P (at_side sd f d)"
  by (cases sd) (auto simp: at_side_def good_depth_def)

lemma good_dict_of_levels: "good_side any_level (dict_of_levels ls)"
proof -
  have "one_side s \<Longrightarrow> one_side (foldl (\<lambda>s (p, q). AList.update p q s) s ls)" for s :: levels
    by (induction ls arbitrary: s) auto
  then show ?thesis by (simp add: good_side_def dict_of_levels_def list_all_iff)
qed

lemma good_bybit_changes: "good_side any_level s \<Longrightarrow> good_side any_level (snd (bybit_changes xs s))"
proof (induction xs arbitrary: s)
  case (Cons x xs)
  then show ?case by (auto split: sum.splits simp: good_update good_delete)
qed simp

lemma good_bybit_merge: "good_depth any_level d \<Longrightarrow> good_depth any_level (snd (bybit_merge b data d))"
proof -
  assume d: "good_depth any_level d"
  have s: "good_side any_level ls" if "bybit_snapshot data k = Inr ls" for k ls
    using that by (auto simp: bybit_snapshot_def bind_res_Inr good_dict_of_levels)
  have c: "good_side any_level (snd (bybit_delta data k s))" if "good_side any_level s" for k s
    using that by (auto simp: bybit_delta_def good_bybit_changes split: sum.splits)
  have c2: "good_side any_level ls" if "bybit_delta data k s = (r, ls)" "good_side any_level s" for k s r ls
    using c [OF that(2), of k] that(1) by simp
  show ?thesis
    using d unfolding bybit_merge_def Let_def
    by (auto simp: good_depth_def dest: s c2 split: sum.splits prod.splits)
qed

lemma good_paradex:
  assumes "good_depth P d" and "\<And>p q. 0 < q \<Longrightarrow> P (p, q)"
  shows "good_depth P (snd (paradex_inserts xs d))" and "good_depth P (snd (paradex_deletes xs d))"
proof -
  have put: "good_depth P (at_side sd (put_level p q) d)" "good_depth P (at_side sd (AList.delete p) d)"
    if "good_depth P d" for sd p q d
    using that by (auto intro!: good_at_side good_put good_delete assms(2))
  show "good_depth P (snd (paradex_inserts xs d))" using assms(1)
    by (induction xs arbitrary: d) (simp_all add: put split: sum.splits option.splits)
  show "good_depth P (snd (paradex_deletes xs d))" using assms(1)
    by (induction xs arbitrary: d) (simp_all add: put split: sum.splits option.splits)
qed

lemma good_paradex_merge:
  assumes "good_depth P d" and "\<And>p q. 0 < q \<Longrightarrow> P (p, q)"
  shows "good_depth P (snd (paradex_merge data d))"
proof -
  have i: "good_depth P d'" if "paradex_inserts xs d = (r, d')" for xs r d'
    using good_paradex(1) [OF assms, of xs] that by simp
  show ?thesis
    using assms(1) good_paradex(2) [OF i assms(2)] i
    by (auto simp: paradex_merge_def split: sum.splits prod.splits)
qed

lemma good_kraken_fill: "good_side any_level s \<Longrightarrow> good_side any_level (snd (kraken_fill ls s))"
proof (induction ls arbitrary: s)
  case (Cons l ls)
  then show ?case by (auto split: sum.splits option.splits simp: good_update)
qed simp

lemma good_kraken_snapshot: "good_depth any_level (snd (kraken_snapshot msg))"
proof -
  have f: "good_side any_level s" if "kraken_fill ls [] = (r, s)" for ls r s
    using good_kraken_fill [of "[]" ls] that by simp
  show ?thesis
    by (auto simp: kraken_snapshot_def Let_def good_depth_def empty_depth_def dest: f
        split: sum.splits prod.splits)
qed

lemma good_kraken: "good_depths any_level bs \<Longrightarrow> good_depths any_level (snd (kraken_parse msg bs))"
proof -
  assume bs: "good_depths any_level bs"
  have d: "good_depth any_level (depth_of bs s)" for s using bs by (rule good_depth_of)
  show ?thesis
    unfolding kraken_parse_def Let_def
    by (auto simp: bs d split: json.splits sum.splits option.splits
        intro!: good_with_frame good_publish good_kraken_snapshot good_at_side good_put good_upd)
qed

lemma good_seed_levels: "good_side any_level s \<Longrightarrow> good_side any_level (snd (seed_levels ls s))"
proof (induction ls arbitrary: s)
  case (Cons l ls)
  then show ?case by (auto split: sum.splits option.splits simp: good_update)
qed simp

lemma good_seed_rest:
  assumes "good_depths any_level bs"
  shows "good_depths any_level (fst (snd (seed_rest answer token (bs, seeded))))"
proof -
  have s: "good_side any_level s'" if "seed_side d k s = (r, s')" "good_side any_level s" for d k s r s'
    using that good_seed_levels [OF that(2)] by (auto simp: seed_side_def split: sum.splits) (metis snd_conv)
  have "good_depth any_level (depth_of bs token)" using assms by (rule good_depth_of)
  then show ?thesis
    using assms unfolding seed_rest_def Let_def
    by (auto simp: good_depth_def dest: s split: sum.splits prod.splits option.splits intro!: good_upd)
qed

section \<open>Streams\<close>

text \<open>
  The venues whose adapters keep books, those of them that never keep a level without quantity, and
  how many levels each hands on.
\<close>

definition keeping :: "string list" where
  "keeping = [''bybit'', ''bybit_spot'', ''okx'', ''okx_spot'', ''bitget'', ''bitget_spot'', ''gate'', ''mexc'',
     ''whitebit'', ''paradex'', ''lighter'', ''kraken'', ''backpack'']"

definition sizing :: "string list" where
  "sizing = [''okx'', ''okx_spot'', ''bitget'', ''bitget_spot'', ''gate'', ''mexc'', ''whitebit'', ''paradex'', ''lighter'']"

definition depth_cap :: "string \<Rightarrow> nat" where
  "depth_cap name =
     (if name = ''paradex'' then 15
      else if name \<in> {''bybit'', ''bybit_spot'', ''kraken'', ''backpack'', ''lighter''} then 50 else 200)"

lemma parse_message_simps:
  "parse_message ids ''bybit'' msg bs = bybit_parse msg bs"
  "parse_message ids ''bybit_spot'' msg bs = bybit_parse msg bs"
  "parse_message ids ''okx'' msg bs = okx_parse ''-USDT-SWAP'' msg bs"
  "parse_message ids ''okx_spot'' msg bs = okx_parse ''-USDT'' msg bs"
  "parse_message ids ''bitget'' msg bs = bitget_parse msg bs"
  "parse_message ids ''bitget_spot'' msg bs = bitget_spot_parse msg bs"
  "parse_message ids ''gate'' msg bs = gate_parse msg bs"
  "parse_message ids ''mexc'' msg bs = mexc_parse msg bs"
  "parse_message ids ''whitebit'' msg bs = whitebit_parse msg bs"
  "parse_message ids ''paradex'' msg bs = paradex_parse msg bs"
  "parse_message ids ''lighter'' msg bs = lighter_parse ids msg bs"
  "parse_message ids ''kraken'' msg bs = kraken_parse msg bs"
  "parse_message ids ''backpack'' msg bs = backpack_parse msg bs"
  by (simp_all add: parse_message_def)

lemma in_keeping:
  assumes "name \<in> set keeping"
  obtains "name = ''bybit''" | "name = ''bybit_spot''" | "name = ''okx''" | "name = ''okx_spot''"
    | "name = ''bitget''" | "name = ''bitget_spot''" | "name = ''gate''" | "name = ''mexc''"
    | "name = ''whitebit''" | "name = ''paradex''" | "name = ''lighter''" | "name = ''kraken''" | "name = ''backpack''"
  using assms unfolding keeping_def list.set insert_iff empty_iff simp_thms
  by - (elim disjE; iprover)

lemma in_sizing:
  assumes "name \<in> set sizing"
  obtains "name = ''okx''" | "name = ''okx_spot''" | "name = ''bitget''" | "name = ''bitget_spot''" | "name = ''gate''"
    | "name = ''mexc''" | "name = ''whitebit''" | "name = ''paradex''" | "name = ''lighter''"
  using assms unfolding sizing_def list.set insert_iff empty_iff simp_thms
  by - (elim disjE; iprover)

lemma sized_positive: "0 < q \<Longrightarrow> sized (p, q)"
  by simp

lemma good_sized:
  assumes "name \<in> set sizing" and "good_depths sized bs"
  shows "good_depths sized (snd (parse_message ids name msg bs))"
proof -
  have m: "good_depth sized (snd (merge_data read data (wiped b (depth_of bs token))))" for read data b token
    by (intro good_intros) (use assms(2) in auto)
  have g: "good_depth sized (snd (gate_merge res (wiped b (depth_of bs token))))" for res b token
    by (auto simp: gate_merge_def split: sum.splits intro!: good_merge_depth good_wiped good_depth_of assms(2))
  have p: "good_depth sized (snd (paradex_merge data (wiped b (depth_of bs token))))" for data b token
    by (intro good_paradex_merge good_wiped good_depth_of assms(2)) auto
  have l: "good_depth sized (snd (lighter_merge ob (depth_of bs token)))" for ob token
    by (auto simp: lighter_merge_def split: sum.splits intro!: good_merge_depth good_depth_of assms(2))
  note defs = okx_parse_def bitget_parse_def bitget_spot_parse_def gate_parse_def mexc_parse_def
    whitebit_parse_def paradex_parse_def lighter_parse_def
  show ?thesis
    using assms(1)
    by (cases rule: in_sizing)
      (simp_all only: parse_message_simps defs, auto intro!: good_with_frame good_publish assms(2) m g p l)
qed

lemma good_any:
  assumes "good_depths any_level bs" and "name \<in> set keeping"
  shows "good_depths any_level (snd (parse_message ids name msg bs))"
proof -
  have m: "good_depth any_level (snd (merge_data read data (wiped b (depth_of bs token))))" for read data b token
    by (intro good_intros) (use assms(1) in auto)
  have g: "good_depth any_level (snd (gate_merge res (wiped b (depth_of bs token))))" for res b token
    by (auto simp: gate_merge_def split: sum.splits intro!: good_merge_depth good_wiped good_depth_of assms(1))
  have p: "good_depth any_level (snd (paradex_merge data (wiped b (depth_of bs token))))" for data b token
    by (intro good_paradex_merge good_wiped good_depth_of assms(1)) auto
  have l: "good_depth any_level (snd (lighter_merge ob (depth_of bs token)))" for ob token
    by (auto simp: lighter_merge_def split: sum.splits intro!: good_merge_depth good_depth_of assms(1))
  have k: "good_depth any_level (snd (backpack_merge data (depth_of bs token)))" for data token
    by (auto simp: backpack_merge_def split: sum.splits intro!: good_merge_depth good_depth_of assms(1))
  note defs = okx_parse_def bitget_parse_def bitget_spot_parse_def gate_parse_def mexc_parse_def
    whitebit_parse_def paradex_parse_def lighter_parse_def bybit_parse_def backpack_parse_def
  show ?thesis
    using assms(2)
    by (cases rule: in_keeping)
      (simp_all only: parse_message_simps defs,
       auto intro!: good_with_frame good_publish assms(1) m g p l k good_kraken good_bybit_merge good_depth_of)
qed

text \<open>What a keeping adapter hands on are the best levels of the book it has just stored.\<close>

definition backed :: "nat \<Rightarrow> (py_error + quote option) \<times> depths \<Rightarrow> bool" where
  "backed n r = (\<forall>token b a. fst r = Inr (Some (token, b, a)) \<longrightarrow>
     (\<exists>d. snd r token = Some d \<and> b = best_bids n (dp_bids d) \<and> a = best_asks n (dp_asks d)))"

lemma backed_publish: "backed n (publish n token bs m)"
  by (cases m) (auto simp: backed_def publish_def split: sum.splits)

lemma backed_with_frame: "(\<And>x. r = Inr (Some x) \<Longrightarrow> backed n (f x)) \<Longrightarrow> backed n (with_frame r bs f)"
  by (auto simp: with_frame_def backed_def split: sum.splits option.splits)

lemma backed_parse: "name \<in> set keeping \<Longrightarrow> backed (depth_cap name) (parse_message ids name msg bs)"
proof -
  have kr: "backed 50 (kraken_parse msg bs)"
    unfolding kraken_parse_def Let_def
    by (auto intro!: backed_with_frame backed_publish simp: backed_publish split: json.splits sum.splits option.splits)
      (auto simp: backed_def)
  note defs = okx_parse_def bitget_parse_def bitget_spot_parse_def gate_parse_def mexc_parse_def
    whitebit_parse_def paradex_parse_def lighter_parse_def bybit_parse_def backpack_parse_def
  show "name \<in> set keeping \<Longrightarrow> backed (depth_cap name) (parse_message ids name msg bs)"
    by (erule in_keeping)
      (simp_all only: parse_message_simps defs, auto simp: depth_cap_def intro!: backed_with_frame backed_publish kr)
qed

text \<open>
  What happens to an adapter: messages, reconnections and, for Backpack, the seeding of a symbol.
  The state is the books, the seeded symbols and the quotes handed on.
\<close>

datatype stream_event = Message json | Reconnected | Seed "json option" string

record stream =
  sr_depths :: depths
  sr_seeded :: "string list"
  sr_quotes :: "quote list"

definition fresh_stream :: stream where
  "fresh_stream = \<lparr>sr_depths = (\<lambda>_. None), sr_seeded = [], sr_quotes = []\<rparr>"

fun stream_step :: "(int \<Rightarrow> string option) \<Rightarrow> string \<Rightarrow> stream \<Rightarrow> stream_event \<Rightarrow> stream" where
  "stream_step ids name s (Message msg) =
     (let (r, bs) = parse_message ids name msg (sr_depths s)
      in s\<lparr>sr_depths := bs,
           sr_quotes := (case r of Inr (Some q) \<Rightarrow> sr_quotes s @ [q] | _ \<Rightarrow> sr_quotes s)\<rparr>)"
| "stream_step ids name s Reconnected = s\<lparr>sr_depths := on_reconnect (sr_depths s), sr_seeded := []\<rparr>"
| "stream_step ids name s (Seed answer token) =
     (if name = ''backpack''
      then (let (r, bs, seeded) = seed_rest answer token (sr_depths s, sr_seeded s)
            in s\<lparr>sr_depths := bs, sr_seeded := seeded\<rparr>)
      else s)"

definition ordered_quote :: "string \<Rightarrow> quote \<Rightarrow> bool" where
  "ordered_quote name q \<longleftrightarrow> (case q of (token, b, a) \<Rightarrow>
     falling b \<and> rising a \<and> length b \<le> depth_cap name \<and> length a \<le> depth_cap name \<and>
     (name \<in> set sizing \<longrightarrow> list_all sized b \<and> list_all sized a))"

definition stream_inv :: "string \<Rightarrow> stream \<Rightarrow> bool" where
  "stream_inv name s \<longleftrightarrow> good_depths any_level (sr_depths s) \<and>
     (name \<in> set sizing \<longrightarrow> good_depths sized (sr_depths s)) \<and> list_all (ordered_quote name) (sr_quotes s)"

lemma fresh_stream_inv: "stream_inv name fresh_stream"
  by (simp add: stream_inv_def fresh_stream_def good_depths_def)

lemma good_reconnect: "good_depths P (on_reconnect bs)"
  by (simp add: good_depths_def on_reconnect_def)

lemma length_best: "length (best_bids n s) \<le> n" "length (best_asks n s) \<le> n"
  by (simp_all add: best_bids_def best_asks_def)

lemma quote_ordered:
  assumes "name \<in> set keeping" and "parse_message ids name msg bs = (Inr (Some q), bs')"
    and "good_depths any_level bs'" and "name \<in> set sizing \<Longrightarrow> good_depths sized bs'"
  shows "ordered_quote name q"
proof -
  obtain token b a where q: "q = (token, b, a)" by (cases q)
  obtain d where d: "bs' token = Some d" and ba: "b = best_bids (depth_cap name) (dp_bids d)" "a = best_asks (depth_cap name) (dp_asks d)"
    using backed_parse [OF assms(1), of ids msg bs] assms(2) by (auto simp: backed_def q)
  have "one_side (dp_bids d)" "one_side (dp_asks d)"
    using assms(3) d by (auto simp: good_depths_def good_depth_def good_side_def)
  moreover have "list_all sized b \<and> list_all sized a" if "name \<in> set sizing"
    using assms(4) [OF that] d best_bids_subset [of _ "dp_bids d"] best_asks_subset [of _ "dp_asks d"]
    by (fastforce simp: good_depths_def good_depth_def good_side_def list_all_iff ba)
  ultimately show ?thesis
    by (simp add: ordered_quote_def q ba falling_best_bids rising_best_asks length_best)
qed

lemma stream_step_inv:
  assumes "name \<in> set keeping" and "stream_inv name s"
  shows "stream_inv name (stream_step ids name s e)"
proof (cases e)
  case (Message msg)
  obtain r bs where p: "parse_message ids name msg (sr_depths s) = (r, bs)" by (cases "parse_message ids name msg (sr_depths s)")
  have g: "good_depths any_level bs" "name \<in> set sizing \<longrightarrow> good_depths sized bs"
    using good_any [of "sr_depths s" name ids msg] good_sized [of name "sr_depths s" ids msg] assms
    by (auto simp: stream_inv_def p)
  have "ordered_quote name q" if "r = Inr (Some q)" for q
    using quote_ordered [OF assms(1)] p g that by blast
  then show ?thesis
    using assms(2) g by (auto simp: Message p stream_inv_def split: sum.splits option.splits)
next
  case Reconnected
  then show ?thesis using assms(2) by (simp add: stream_inv_def good_reconnect)
next
  case (Seed answer token)
  obtain r bs sd where p: "seed_rest answer token (sr_depths s, sr_seeded s) = (r, bs, sd)"
    by (cases "seed_rest answer token (sr_depths s, sr_seeded s)") auto
  have "good_depths any_level bs"
    using good_seed_rest [of "sr_depths s" answer token "sr_seeded s"] assms(2) by (simp add: p stream_inv_def)
  then show ?thesis using assms(2) by (auto simp: Seed p stream_inv_def sizing_def)
qed

interpretation stream_machine: inv_machine "stream_step ids name" "\<lambda>s. name \<in> set keeping \<and> stream_inv name s" for ids name
  by unfold_locales (simp add: stream_step_inv)


text \<open>Two messages of OKX: a snapshot with a level without price, and a change that removes one level and adds one.\<close>

definition okx_message :: "string \<Rightarrow> (string \<times> string) list \<Rightarrow> (string \<times> string) list \<Rightarrow> json" where
  "okx_message action bids asks =
     (let lv = (\<lambda>ls. J_Arr (map (\<lambda>(p, q). J_Arr [J_Str p, J_Str q]) ls))
      in J_Obj [(''arg'', J_Obj [(''channel'', J_Str ''books''), (''instId'', J_Str ''BTC-USDT-SWAP'')]),
                (''action'', J_Str action), (''data'', J_Arr [J_Obj [(''bids'', lv bids), (''asks'', lv asks)]])])"

definition sample_messages :: "json list" where
  "sample_messages =
     [okx_message ''snapshot'' [(''99.5'', ''2''), (''99'', ''1''), (''x'', ''1'')] [(''101'', ''3''), (''100.5'', ''4'')],
      okx_message ''update'' [(''99.5'', ''0''), (''98'', ''7'')] [(''100.5'', ''1'')]]"

lemma sample_quotes:
  "sr_quotes (foldl (stream_step (\<lambda>_. None) ''okx'') fresh_stream (map Message sample_messages)) =
    [(''BTC'', [(199/2, 2), (99, 1)], [(201/2, 4), (101, 3)]), (''BTC'', [(99, 1), (98, 7)], [(201/2, 1), (101, 3)])]"
  by code_simp


section \<open>The last word\<close>

text \<open>
  What a message says, apart from any book: the symbol, whether it is a snapshot, and the readable
  levels of both sides.
\<close>

type_synonym word = "string \<times> bool \<times> levels \<times> levels"

definition words_of :: "(json \<Rightarrow> py_error + (rat \<times> rat) option) \<Rightarrow> json \<Rightarrow> py_error + levels" where
  "words_of read raw = bind_res (py_iter raw) (\<lambda>ls. bind_res (map_res read ls) (\<lambda>ms. Inr (somes ms)))"

definition said_levels :: "(json \<Rightarrow> py_error + (rat \<times> rat) option) \<Rightarrow> string \<times> bool \<Rightarrow> py_error + json \<Rightarrow> py_error + json \<Rightarrow> word option" where
  "said_levels read ts b a =
     (case (bind_res b (words_of read), bind_res a (words_of read)) of
        (Inr b, Inr a) \<Rightarrow> Some (fst ts, snd ts, b, a)
      | _ \<Rightarrow> None)"

definition key_or_empty :: "json \<Rightarrow> string \<Rightarrow> py_error + json" where
  "key_or_empty data k = bind_res (get_key data k) (\<lambda>v. Inr (py_or v (J_Arr [])))"

definition said_data :: "py_error + (string \<times> bool \<times> json) option \<Rightarrow> word option" where
  "said_data frame =
     (case frame of
        Inr (Some (token, snapshot, data)) \<Rightarrow>
          said_levels read_level (token, snapshot) (key_or_empty data ''bids'') (key_or_empty data ''asks'')
      | _ \<Rightarrow> None)"

definition said_gate :: "json \<Rightarrow> word option" where
  "said_gate msg =
     (case gate_frame msg of
        Inr (Some (token, snapshot, res)) \<Rightarrow>
          said_levels gate_level (token, snapshot)
            (bind_res (get_key res ''b'') (\<lambda>b. bind_res (get_key res ''bids'') (\<lambda>bids. Inr (py_or b (py_or bids (J_Arr []))))))
            (bind_res (get_key res ''a'') (\<lambda>a. bind_res (get_key res ''asks'') (\<lambda>asks. Inr (py_or a (py_or asks (J_Arr []))))))
      | _ \<Rightarrow> None)"

definition said_lighter :: "(int \<Rightarrow> string option) \<Rightarrow> json \<Rightarrow> word option" where
  "said_lighter ids msg =
     (case lighter_frame ids msg of
        Inr (Some (token, ob)) \<Rightarrow>
          said_levels lighter_level (token, False) (key_or_empty ob ''bids'') (key_or_empty ob ''asks'')
      | _ \<Rightarrow> None)"

definition put_all :: "levels \<Rightarrow> levels \<Rightarrow> levels" where
  "put_all ws s = foldl (\<lambda>s (p, q). put_level p q s) s ws"

definition take_word :: "word \<Rightarrow> depth \<Rightarrow> depth" where
  "take_word w d =
     (case w of (token, snapshot, b, a) \<Rightarrow>
        (let d = wiped snapshot d in \<lparr>dp_bids = put_all b (dp_bids d), dp_asks = put_all a (dp_asks d)\<rparr>))"

text \<open>The levels said since the last snapshot, and the last of them that names a price.\<close>

definition said_since :: "(json \<Rightarrow> word option) \<Rightarrow> (word \<Rightarrow> levels) \<Rightarrow> string \<Rightarrow> json list \<Rightarrow> levels" where
  "said_since said pick token msgs =
     foldl (\<lambda>acc m. case said m of
        Some w \<Rightarrow> if fst w = token then (if fst (snd w) then pick w else acc @ pick w) else acc
      | None \<Rightarrow> acc) [] msgs"

definition word_on :: "levels \<Rightarrow> rat \<Rightarrow> rat option" where
  "word_on ws p =
     (case find (\<lambda>l. fst l = p) (rev ws) of Some l \<Rightarrow> if 0 < snd l then Some (snd l) else None | None \<Rightarrow> None)"

abbreviation bid_words :: "word \<Rightarrow> levels" where "bid_words w \<equiv> fst (snd (snd w))"
abbreviation ask_words :: "word \<Rightarrow> levels" where "ask_words w \<equiv> snd (snd (snd w))"

lemma find_rev_append:
  "find P (rev (xs @ ys)) = (case find P (rev ys) of Some l \<Rightarrow> Some l | None \<Rightarrow> find P (rev xs))"
  by (simp add: find_append)

lemma word_on_Nil [simp]: "word_on [] p = None"
  by (simp add: word_on_def)

lemma word_on_snoc: "word_on (ws @ [(x, q)]) p = (if x = p then (if 0 < q then Some q else None) else word_on ws p)"
  by (simp add: word_on_def)

lemma map_of_put_all:
  "map_of (put_all ws s) p =
     (case find (\<lambda>l. fst l = p) (rev ws) of
        Some l \<Rightarrow> if 0 < snd l then Some (snd l) else None | None \<Rightarrow> map_of s p)"
proof (induction ws rule: rev_induct)
  case (snoc w ws)
  obtain x q where w: "w = (x, q)" by (cases w)
  have "put_all (ws @ [w]) s = put_level x q (put_all ws s)" by (simp add: put_all_def w)
  then show ?case using snoc by (auto simp: map_of_put w)
qed (simp add: put_all_def)

lemma put_all_word: "map_of s p = word_on acc p \<Longrightarrow> map_of (put_all ws s) p = word_on (acc @ ws) p"
  unfolding map_of_put_all word_on_def find_rev_append
  by (cases "find (\<lambda>l. fst l = p) (rev ws)") simp_all

text \<open>The books after messages, and whether each of them was accepted when it came.\<close>

definition feed_run :: "(json \<Rightarrow> depths \<Rightarrow> (py_error + quote option) \<times> depths) \<Rightarrow> json list \<Rightarrow> depths" where
  "feed_run parse msgs = foldl (\<lambda>bs m. snd (parse m bs)) (\<lambda>_. None) msgs"

fun accepted :: "(json \<Rightarrow> depths \<Rightarrow> (py_error + quote option) \<times> depths) \<Rightarrow> depths \<Rightarrow> json list \<Rightarrow> bool" where
  "accepted parse bs [] = True"
| "accepted parse bs (m # ms) = (\<not> isl (fst (parse m bs)) \<and> accepted parse (snd (parse m bs)) ms)"

lemma accepted_snoc:
  "accepted parse bs (ms @ [m]) \<longleftrightarrow>
    accepted parse bs ms \<and> \<not> isl (fst (parse m (foldl (\<lambda>bs m. snd (parse m bs)) bs ms)))"
  by (induction ms arbitrary: bs) auto

text \<open>
  An adapter that applies what its venue says. The laws: a message that is accepted with a quote says
  something, and the book of its symbol becomes the old one with those words; one accepted without a
  quote says nothing and changes nothing.
\<close>

locale change_feed =
  fixes parse :: "json \<Rightarrow> depths \<Rightarrow> (py_error + quote option) \<times> depths"
    and said :: "json \<Rightarrow> word option"
  assumes spoken: "parse msg bs = (Inr (Some q), bs') \<Longrightarrow>
      \<exists>w. said msg = Some w \<and> bs' = bs(fst w \<mapsto> take_word w (depth_of bs (fst w)))"
    and silent: "parse msg bs = (Inr None, bs') \<Longrightarrow> said msg = None \<and> bs' = bs"
begin

lemma last_words:
  assumes "accepted parse (\<lambda>_. None) msgs"
  shows "map_of (dp_bids (depth_of (feed_run parse msgs) token)) p = word_on (said_since said bid_words token msgs) p \<and>
    map_of (dp_asks (depth_of (feed_run parse msgs) token)) p = word_on (said_since said ask_words token msgs) p"
  using assms
proof (induction msgs rule: rev_induct)
  case Nil
  then show ?case by (simp add: feed_run_def said_since_def depth_of_def empty_depth_def)
next
  case (snoc m ms)
  have ok: "accepted parse (\<lambda>_. None) ms" "\<not> isl (fst (parse m (feed_run parse ms)))"
    using snoc.prems by (simp_all add: accepted_snoc feed_run_def)
  note IH = snoc.IH [OF ok(1)]
  obtain r where "fst (parse m (feed_run parse ms)) = Inr r"
    using ok(2) by (cases "fst (parse m (feed_run parse ms))") auto
  then obtain bs' where p: "parse m (feed_run parse ms) = (Inr r, bs')"
    by (cases "parse m (feed_run parse ms)") auto
  have run: "feed_run parse (ms @ [m]) = bs'" using p by (simp add: feed_run_def)
  show ?case
  proof (cases r)
    case None
    then have "said m = None \<and> bs' = feed_run parse ms" using silent p by simp
    then show ?thesis using IH by (simp add: run said_since_def)
  next
    case (Some q)
    then obtain w where w: "said m = Some w" "bs' = (feed_run parse ms)(fst w \<mapsto> take_word w (depth_of (feed_run parse ms) (fst w)))"
      using spoken p by blast
    obtain t snap b a where wd: "w = (t, snap, b, a)" by (cases w)
    show ?thesis
      using IH put_all_word [of "dp_bids (depth_of (feed_run parse ms) token)" p _ b]
        put_all_word [of "dp_asks (depth_of (feed_run parse ms) token)" p _ a] put_all_word [of "[]" p "[]"]
      by (auto simp: run w wd said_since_def take_word_def wiped_def empty_depth_def depth_of_def Let_def)
  qed
qed

end

text \<open>The merging loops take the words of a message.\<close>

lemma merge_levels_words:
  "merge_levels read ls s = (Inr (), s') \<Longrightarrow> \<exists>ms. map_res read ls = Inr ms \<and> s' = put_all (somes ms) s"
proof (induction ls arbitrary: s)
  case Nil
  then show ?case by (simp add: put_all_def)
next
  case (Cons l ls)
  then obtain x where x: "read l = Inr x" by (cases "read l") auto
  show ?case
  proof (cases x)
    case None
    then obtain ms where "map_res read ls = Inr ms" "s' = put_all (somes ms) s"
      using Cons.IH [of s] Cons.prems x by auto
    then show ?thesis using x None by simp
  next
    case (Some l')
    obtain p q where pq: "l' = (p, q)" by (cases l')
    then obtain ms where "map_res read ls = Inr ms" "s' = put_all (somes ms) (put_level p q s)"
      using Cons.IH [of "put_level p q s"] Cons.prems x Some by auto
    then show ?thesis using x Some pq by (simp add: List.map_filter_def put_all_def)
  qed
qed

lemma merge_side_words:
  "merge_side read raw s = (Inr (), s') \<Longrightarrow> \<exists>ws. words_of read raw = Inr ws \<and> s' = put_all ws s"
  using merge_levels_words [of read _ s s']
  by (auto simp: merge_side_def words_of_def split: sum.splits) fastforce

definition taken :: "levels \<Rightarrow> levels \<Rightarrow> depth \<Rightarrow> depth" where
  "taken b a d = \<lparr>dp_bids = put_all b (dp_bids d), dp_asks = put_all a (dp_asks d)\<rparr>"

lemma take_word_taken: "take_word (token, snapshot, b, a) d = taken b a (wiped snapshot d)"
  by (simp add: take_word_def taken_def Let_def)

lemma merge_depth_words:
  assumes "merge_depth read b a d = (Inr (), d') \<or> merge_depth_asks_first read a b d = (Inr (), d')"
  shows "\<exists>wb wa. words_of read b = Inr wb \<and> words_of read a = Inr wa \<and> d' = taken wb wa d"
proof -
  have "\<exists>sb sa. merge_side read b (dp_bids d) = (Inr (), sb) \<and> merge_side read a (dp_asks d) = (Inr (), sa) \<and>
      d' = \<lparr>dp_bids = sb, dp_asks = sa\<rparr>"
    using assms
    by (auto simp: merge_depth_def merge_depth_asks_first_def Let_def split: prod.splits sum.splits)
  then obtain sb sa where s: "merge_side read b (dp_bids d) = (Inr (), sb)" "merge_side read a (dp_asks d) = (Inr (), sa)"
      "d' = \<lparr>dp_bids = sb, dp_asks = sa\<rparr>"
    by blast
  from merge_side_words [OF s(1)] merge_side_words [OF s(2)] show ?thesis
    by (auto simp: taken_def s(3))
qed

lemma said_levels_Some:
  "b = Inr rb \<Longrightarrow> a = Inr ra \<Longrightarrow> words_of read rb = Inr wb \<Longrightarrow> words_of read ra = Inr wa \<Longrightarrow>
   said_levels read (token, snapshot) b a = Some (token, snapshot, wb, wa)"
  by (simp add: said_levels_def)

text \<open>An adapter with a frame, a merge and the words of the merge is a feed of changes.\<close>

lemma change_feed_of_frame:
  assumes parse: "\<And>msg bs. parse msg bs = with_frame (frame msg) bs (\<lambda>(token, snapshot, data).
      publish n token bs (merge data (wiped snapshot (depth_of bs token))))"
    and said: "\<And>msg. said msg = (case frame msg of Inr (Some (token, snapshot, data)) \<Rightarrow> levels_said token snapshot data | _ \<Rightarrow> None)"
    and merged: "\<And>data d d' token snapshot. merge data d = (Inr (), d') \<Longrightarrow>
      \<exists>b a. levels_said token snapshot data = Some (token, snapshot, b, a) \<and> d' = taken b a d"
  shows "change_feed parse said"
proof
  fix msg bs q bs'
  assume p: "parse msg bs = (Inr (Some q), bs')"
  then obtain token snapshot data where f: "frame msg = Inr (Some (token, snapshot, data))"
    and pub: "publish n token bs (merge data (wiped snapshot (depth_of bs token))) = (Inr (Some q), bs')"
    by (auto simp: parse with_frame_def split: sum.splits option.splits)
  then obtain d where m: "merge data (wiped snapshot (depth_of bs token)) = (Inr (), d)" and bs': "bs' = bs(token \<mapsto> d)"
    by (auto simp: publish_def split: prod.splits sum.splits)
  from merged [OF m] obtain b a where "levels_said token snapshot data = Some (token, snapshot, b, a)"
      "d = taken b a (wiped snapshot (depth_of bs token))"
    by blast
  then show "\<exists>w. said msg = Some w \<and> bs' = bs(fst w \<mapsto> take_word w (depth_of bs (fst w)))"
    using f bs' by (auto simp: said take_word_taken)
next
  fix msg bs bs'
  assume p: "parse msg bs = (Inr None, bs')"
  then show "said msg = None \<and> bs' = bs"
    by (auto simp: parse said with_frame_def publish_def split: sum.splits option.splits prod.splits)
qed

lemma merge_data_words:
  "merge_data read_level data d = (Inr (), d') \<Longrightarrow>
   \<exists>b a. said_levels read_level (token, snapshot) (key_or_empty data ''bids'') (key_or_empty data ''asks'') =
       Some (token, snapshot, b, a) \<and> d' = taken b a d"
  by (auto simp: merge_data_def key_or_empty_def said_levels_def split: sum.splits
      dest!: disjI1 [THEN merge_depth_words])

lemma gate_merge_words:
  "gate_merge res d = (Inr (), d') \<Longrightarrow>
   \<exists>b a. said_levels gate_level (token, snapshot)
        (bind_res (get_key res ''b'') (\<lambda>b. bind_res (get_key res ''bids'') (\<lambda>bids. Inr (py_or b (py_or bids (J_Arr []))))))
        (bind_res (get_key res ''a'') (\<lambda>a. bind_res (get_key res ''asks'') (\<lambda>asks. Inr (py_or a (py_or asks (J_Arr [])))))) =
       Some (token, snapshot, b, a) \<and> d' = taken b a d"
  by (auto simp: gate_merge_def said_levels_def split: sum.splits dest!: disjI1 [THEN merge_depth_words])

lemma lighter_merge_words:
  "lighter_merge ob d = (Inr (), d') \<Longrightarrow>
   \<exists>b a. said_levels lighter_level (token, snapshot) (key_or_empty ob ''bids'') (key_or_empty ob ''asks'') =
       Some (token, snapshot, b, a) \<and> d' = taken b a d"
  by (auto simp: lighter_merge_def key_or_empty_def said_levels_def split: sum.splits
      dest!: disjI2 [THEN merge_depth_words])

interpretation okx_feed: change_feed "okx_parse suffix" "\<lambda>msg. said_data (okx_frame suffix msg)" for suffix
  by (rule change_feed_of_frame [OF okx_parse_def said_data_def merge_data_words])

interpretation bitget_feed: change_feed bitget_parse "\<lambda>msg. said_data (bitget_frame msg)"
  by (rule change_feed_of_frame [OF bitget_parse_def said_data_def merge_data_words])

interpretation bitget_spot_feed: change_feed bitget_spot_parse "\<lambda>msg. said_data (bitget_spot_frame msg)"
  by (rule change_feed_of_frame [OF bitget_spot_parse_def said_data_def merge_data_words])

interpretation mexc_feed: change_feed mexc_parse "\<lambda>msg. said_data (mexc_frame msg)"
  by (rule change_feed_of_frame [OF mexc_parse_def said_data_def merge_data_words])

interpretation whitebit_feed: change_feed whitebit_parse "\<lambda>msg. said_data (whitebit_frame msg)"
  by (rule change_feed_of_frame [OF whitebit_parse_def said_data_def merge_data_words])

interpretation gate_feed: change_feed gate_parse said_gate
  by (rule change_feed_of_frame [OF gate_parse_def said_gate_def gate_merge_words])

interpretation lighter_feed: change_feed "lighter_parse ids" "said_lighter ids" for ids
proof (rule change_feed_of_frame)
  let ?frame = "\<lambda>msg. bind_res (lighter_frame ids msg) (\<lambda>x. Inr (map_option (\<lambda>(token, ob). (token, False, ob)) x))"
  show "lighter_parse ids msg bs = with_frame (?frame msg) bs (\<lambda>(token, snapshot, ob).
      publish 50 token bs (lighter_merge ob (wiped snapshot (depth_of bs token))))" for msg bs
    by (cases "lighter_frame ids msg") (auto simp: lighter_parse_def with_frame_def wiped_def split: option.splits)
  show "said_lighter ids msg = (case ?frame msg of
      Inr (Some (token, snapshot, ob)) \<Rightarrow> said_levels lighter_level (token, snapshot) (key_or_empty ob ''bids'') (key_or_empty ob ''asks'')
    | _ \<Rightarrow> None)" for msg
    by (cases "lighter_frame ids msg") (auto simp: said_lighter_def split: option.splits)
qed (rule lighter_merge_words)

text \<open>The venues that send changes, and what a message of each says.\<close>

definition change_names :: "string list" where
  "change_names = [''okx'', ''okx_spot'', ''bitget'', ''bitget_spot'', ''mexc'', ''whitebit'', ''gate'', ''lighter'']"

definition said_by :: "(int \<Rightarrow> string option) \<Rightarrow> string \<Rightarrow> json \<Rightarrow> word option" where
  "said_by ids name msg =
     (if name = ''okx'' then said_data (okx_frame ''-USDT-SWAP'' msg)
      else if name = ''okx_spot'' then said_data (okx_frame ''-USDT'' msg)
      else if name = ''bitget'' then said_data (bitget_frame msg)
      else if name = ''bitget_spot'' then said_data (bitget_spot_frame msg)
      else if name = ''mexc'' then said_data (mexc_frame msg)
      else if name = ''whitebit'' then said_data (whitebit_frame msg)
      else if name = ''gate'' then said_gate msg
      else if name = ''lighter'' then said_lighter ids msg
      else None)"

lemma in_change_names:
  assumes "name \<in> set change_names"
  obtains "name = ''okx''" | "name = ''okx_spot''" | "name = ''bitget''" | "name = ''bitget_spot''"
    | "name = ''mexc''" | "name = ''whitebit''" | "name = ''gate''" | "name = ''lighter''"
  using assms unfolding change_names_def list.set insert_iff empty_iff simp_thms
  by - (elim disjE; iprover)

lemma said_by_simps:
  "said_by ids ''okx'' = (\<lambda>msg. said_data (okx_frame ''-USDT-SWAP'' msg))"
  "said_by ids ''okx_spot'' = (\<lambda>msg. said_data (okx_frame ''-USDT'' msg))"
  "said_by ids ''bitget'' = (\<lambda>msg. said_data (bitget_frame msg))"
  "said_by ids ''bitget_spot'' = (\<lambda>msg. said_data (bitget_spot_frame msg))"
  "said_by ids ''mexc'' = (\<lambda>msg. said_data (mexc_frame msg))"
  "said_by ids ''whitebit'' = (\<lambda>msg. said_data (whitebit_frame msg))"
  "said_by ids ''gate'' = said_gate"
  "said_by ids ''lighter'' = said_lighter ids"
  by (simp_all add: said_by_def fun_eq_iff)

lemma parse_message_eqs:
  "parse_message ids ''okx'' = okx_parse ''-USDT-SWAP''"
  "parse_message ids ''okx_spot'' = okx_parse ''-USDT''"
  "parse_message ids ''bitget'' = bitget_parse"
  "parse_message ids ''bitget_spot'' = bitget_spot_parse"
  "parse_message ids ''mexc'' = mexc_parse"
  "parse_message ids ''whitebit'' = whitebit_parse"
  "parse_message ids ''gate'' = gate_parse"
  "parse_message ids ''lighter'' = lighter_parse ids"
  by (simp_all add: fun_eq_iff parse_message_simps)

lemma feed_by_name: "name \<in> set change_names \<Longrightarrow> change_feed (parse_message ids name) (said_by ids name)"
  by (erule in_change_names)
    (simp_all only: parse_message_eqs said_by_simps okx_feed.change_feed_axioms bitget_feed.change_feed_axioms
      bitget_spot_feed.change_feed_axioms mexc_feed.change_feed_axioms whitebit_feed.change_feed_axioms
      gate_feed.change_feed_axioms lighter_feed.change_feed_axioms)



end
