(* ===== verification/Book_Cache_Safety.thy ===== *)
theory Book_Cache_Safety
  imports Book_Cache Book_Streams_Safety
begin

text \<open>
  What the book cache promises, for several processes that share files and Redis: a book read anywhere
  is one that the stream of its pair pushed or its venue answered, with the time it was heard.
\<close>

section \<open>The processes together\<close>

record system =
  sy_procs :: "nat \<Rightarrow> process"
  sy_shared :: shared
  sy_merger :: merger
  sy_ticks :: "nat \<Rightarrow> nat"

definition fresh_process :: process where
  "fresh_process =
     \<lparr>pc_books = [], pc_rest = \<lparr>rs_breakers = (\<lambda>_. None), rs_lighter = \<lparr>li_ids = [], li_at = 0\<rparr>\<rparr>,
      pc_pollers = [], pc_memo = [], pc_memo_mtime = 0, pc_memo_check = 0, pc_redis_at = (\<lambda>_. 0)\<rparr>"

definition fresh_shared :: shared where
  "fresh_shared = \<lparr>sd_books = None, sd_slices = (\<lambda>_. None), sd_redis = (\<lambda>_. None), sd_pending = None, sd_user_subs = None\<rparr>"

definition fresh_system :: system where
  "fresh_system = \<lparr>sy_procs = (\<lambda>_. fresh_process), sy_shared = fresh_shared, sy_merger = [], sy_ticks = (\<lambda>_. 0)\<rparr>"

text \<open>
  What happens, with the process it happens in: a stream pushes a quote, a poller makes a round, a book
  is asked for (a request that waits is one without the wait, followed by looks at the cache), best prices are read, books are
  dumped or merged, the hot list is computed, a viewer is noted, a process starts anew.
\<close>

datatype cache_event =
    Pushed nat rat bool string quote
  | Polled nat rat clock "string \<Rightarrow> json option" string string int poll_state
  | Asked nat book_request string string int
  | Looked nat rat string string
  | Dumped nat rat "string option" "string option"
  | Merged bool rat "string list"
  | Hot nat rat hot_scope hot_input
  | Viewed rat string string
  | Restarted nat

definition set_proc :: "nat \<Rightarrow> process \<times> shared \<Rightarrow> system \<Rightarrow> system" where
  "set_proc i ps y = y\<lparr>sy_procs := (sy_procs y)(i := fst ps), sy_shared := snd ps\<rparr>"

fun cache_step :: "system \<Rightarrow> cache_event \<Rightarrow> system" where
  "cache_step y (Pushed i now redis ex q) = set_proc i (update_cb redis now ex q (sy_procs y i, sy_shared y)) y"
| "cache_step y (Polled i now c http ex s limit st) =
     set_proc i (snd (snd (poll_once c now http (book_key ex s) ex s limit (st, sy_procs y i))), sy_shared y) y"
| "cache_step y (Asked i q ex s limit) =
     set_proc i (snd (get_cached_orderbook (q\<lparr>bq_later := []\<rparr>) ex s limit (sy_procs y i, sy_shared y))) y"
| "cache_step y (Looked i now ex s) =
     set_proc i (snd (top_levels now ex s (sy_shared y) (sy_procs y i)), sy_shared y) y"
| "cache_step y (Dumped i now owned slice) = y\<lparr>sy_shared := dump_once now owned slice (sy_procs y i) (sy_shared y)\<rparr>"
| "cache_step y (Merged redis now owned) =
     (let (m, sh) = merge_once redis now owned (sy_merger y, sy_shared y) in y\<lparr>sy_merger := m, sy_shared := sh\<rparr>)"
| "cache_step y (Hot i now sc x) =
     (let (calls, n, p, sh) = hotlist_tick now sc x (sy_ticks y i, sy_procs y i, sy_shared y)
      in set_proc i (p, sh) (y\<lparr>sy_ticks := (sy_ticks y)(i := n)\<rparr>))"
| "cache_step y (Viewed now ex s) = y\<lparr>sy_shared := touch_user_sub now ex s (sy_shared y)\<rparr>"
| "cache_step y (Restarted i) = set_proc i (fresh_process, sy_shared y) y"

text \<open>
  The books that are heard in an event: a quote of a stream, or the answer of a venue to a poller or to a
  request (whatever the breakers and market numbers of the process are at that moment).
\<close>

inductive heard :: "cache_event \<Rightarrow> string \<Rightarrow> depth \<Rightarrow> rat \<Rightarrow> bool" where
  by_stream: "heard (Pushed i now redis ex (s, b, a)) (book_key ex s) \<lparr>dp_bids = b, dp_asks = a\<rparr> now"
| by_poller: "fst (fetch_direct_with_status c now http r ex s limit) = Inr (F_Ok, Some d, err) \<Longrightarrow>
    heard (Polled i now c http ex s limit st) (book_key ex s) d now"
| by_request: "fst (fetch_direct (bq_clock q) (bq_now q) (bq_http q) r (lower ex) (upper s) n) = Inr (Some d) \<Longrightarrow>
    heard (Asked i q ex s limit) (book_key (lower ex) (upper s)) d (bq_now q)"

inductive_cases heard_push: "heard (Pushed i now redis ex q) key d ts"

definition known :: "cache_event list \<Rightarrow> string \<Rightarrow> depth \<Rightarrow> rat \<Rightarrow> bool" where
  "known es key d ts \<longleftrightarrow> (\<exists>e\<in>set es. heard e key d ts)"

section \<open>Only what was heard is stored\<close>

definition file_ok :: "(string \<Rightarrow> depth \<Rightarrow> rat \<Rightarrow> bool) \<Rightarrow> file_books \<Rightarrow> bool" where
  "file_ok K f \<longleftrightarrow> (\<forall>(k, d, t)\<in>set f. K k d t)"

definition entry_known :: "(string \<Rightarrow> depth \<Rightarrow> rat \<Rightarrow> bool) \<Rightarrow> string \<Rightarrow> cache_entry \<Rightarrow> bool" where
  "entry_known K k e \<longleftrightarrow> (\<forall>d. ce_data e = Some d \<longrightarrow> K k d (or_zero (ce_ts e)))"

definition process_ok :: "(string \<Rightarrow> depth \<Rightarrow> rat \<Rightarrow> bool) \<Rightarrow> process \<Rightarrow> bool" where
  "process_ok K p \<longleftrightarrow> list_all (\<lambda>(k, e). entry_known K k e) (pc_books p) \<and> file_ok K (pc_memo p)"

definition shared_ok :: "(string \<Rightarrow> depth \<Rightarrow> rat \<Rightarrow> bool) \<Rightarrow> shared \<Rightarrow> bool" where
  "shared_ok K sh \<longleftrightarrow>
     (\<forall>f t. sd_books sh = Some (f, t) \<longrightarrow> file_ok K f) \<and>
     (\<forall>ex f t. sd_slices sh ex = Some (f, t) \<longrightarrow> file_ok K f) \<and>
     (\<forall>key d t x. sd_redis sh key = Some (d, t, x) \<longrightarrow> K key d t)"

definition merger_ok :: "(string \<Rightarrow> depth \<Rightarrow> rat \<Rightarrow> bool) \<Rightarrow> merger \<Rightarrow> bool" where
  "merger_ok K m \<longleftrightarrow> (\<forall>(ex, f, t)\<in>set m. file_ok K f)"

definition system_ok :: "(string \<Rightarrow> depth \<Rightarrow> rat \<Rightarrow> bool) \<Rightarrow> system \<Rightarrow> bool" where
  "system_ok K y \<longleftrightarrow> (\<forall>i. process_ok K (sy_procs y i)) \<and> shared_ok K (sy_shared y) \<and> merger_ok K (sy_merger y)"

named_theorems ok_intros

lemma file_ok_Nil [simp]: "file_ok K []"
  by (simp add: file_ok_def)

lemma file_ok_update [ok_intros]: "file_ok K f \<Longrightarrow> K k d t \<Longrightarrow> file_ok K (AList.update k (d, t) f)"
  using set_update [of k "(d, t)" f] by (fastforce simp: file_ok_def)

lemma file_ok_lookup: "file_ok K f \<Longrightarrow> map_of f k = Some (d, t) \<Longrightarrow> K k d t"
  by (auto simp: file_ok_def dest!: map_of_SomeD)

lemma entry_lookup: "process_ok K p \<Longrightarrow> entry_of_key p k = Some e \<Longrightarrow> entry_known K k e"
  by (auto simp: process_ok_def entry_of_key_def list_all_iff dest!: map_of_SomeD)

lemma empty_entry_ok [simp]: "entry_known K k empty_entry"
  by (simp add: entry_known_def empty_entry_def)

lemma put_entry_ok:
  assumes "process_ok K p" and "\<And>e. entry_known K k e \<Longrightarrow> entry_known K k (f e)"
  shows "process_ok K (put_entry k f p)"
proof -
  let ?e = "case entry_of_key p k of None \<Rightarrow> empty_entry | Some e \<Rightarrow> e"
  have "entry_known K k (f ?e)" using assms(2) entry_lookup [OF assms(1)] by (cases "entry_of_key p k") auto
  then show ?thesis
    using assms(1) set_update [of k "f ?e" "pc_books p"]
    by (auto simp: process_ok_def put_entry_def list_all_iff)
qed

lemma in_use_ok [ok_intros]: "process_ok K p \<Longrightarrow> process_ok K (in_use now k p)"
  unfolding in_use_def by (erule put_entry_ok) (simp add: entry_known_def)

lemma put_heard_ok:
  "process_ok K p \<Longrightarrow> K k d now \<Longrightarrow>
   process_ok K (put_entry k (\<lambda>e. e\<lparr>ce_data := Some d, ce_ts := Some now, ce_last := g e\<rparr>) p)"
  by (erule put_entry_ok) (simp add: entry_known_def or_zero_def)

lemma process_ok_fields [simp]:
  "process_ok K (p\<lparr>pc_rest := r\<rparr>) = process_ok K p"
  "process_ok K (p\<lparr>pc_redis_at := x\<rparr>) = process_ok K p"
  "process_ok K (p\<lparr>pc_memo_check := t\<rparr>) = process_ok K p"
  "process_ok K (stop_poller k p) = process_ok K p"
  "process_ok K (start_poller k p) = process_ok K p"
  by (simp_all add: process_ok_def stop_poller_def start_poller_def)

lemma write_single_ok [ok_intros]:
  "shared_ok K sh \<Longrightarrow> K k (fst e) (snd e) \<Longrightarrow> shared_ok K (write_single redis now k e sh)"
  by (auto simp: shared_ok_def write_single_def)

lemma write_books_ok [ok_intros]:
  "shared_ok K sh \<Longrightarrow> file_ok K f \<Longrightarrow> shared_ok K (write_books redis now f sh)"
proof (induction f arbitrary: sh)
  case (Cons x f)
  obtain k d t where x: "x = (k, d, t)" by (cases x)
  have "shared_ok K (write_single redis now k (d, t) sh)" using Cons.prems by (auto intro: ok_intros simp: x file_ok_def)
  then show ?case using Cons.IH Cons.prems(2) by (simp add: write_books_def x file_ok_def)
qed (simp add: write_books_def)

lemma refresh_ok [ok_intros]: "process_ok K p \<Longrightarrow> shared_ok K sh \<Longrightarrow> process_ok K (refresh_file_memo now sh p)"
  by (auto simp: refresh_file_memo_def process_ok_def shared_ok_def Let_def split: option.splits prod.splits)

lemma file_lookup_ok:
  assumes "process_ok K p" "shared_ok K sh" "file_lookup now m k sh p = (r, p')"
  shows "process_ok K p'" and "r = Some d \<Longrightarrow> \<exists>t. K k d t \<and> now - t \<le> m"
proof -
  let ?p = "refresh_file_memo now sh p"
  have ok: "process_ok K ?p" using assms by (auto intro: ok_intros)
  show "process_ok K p'" using ok assms(3) by (auto simp: file_lookup_def Let_def)
  show "\<exists>t. K k d t \<and> now - t \<le> m" if "r = Some d"
  proof -
    from that assms(3) obtain t where "map_of (pc_memo ?p) k = Some (d, t)" "\<not> m < now - t"
      by (auto simp: file_lookup_def Let_def split: option.splits prod.splits if_splits)
    then show ?thesis using ok file_ok_lookup [of K "pc_memo ?p" k d t] by (auto simp: process_ok_def)
  qed
qed

text \<open>The operations of a process.\<close>

lemma update_cb_ok:
  assumes "process_ok K p" "shared_ok K sh" "K (book_key ex (fst q)) \<lparr>dp_bids = fst (snd q), dp_asks = snd (snd q)\<rparr> now"
  shows "process_ok K (fst (update_cb redis now ex q (p, sh))) \<and> shared_ok K (snd (update_cb redis now ex q (p, sh)))"
  using assms by (auto simp: update_cb_def Let_def split: prod.splits intro!: put_heard_ok write_single_ok)

lemma poll_once_ok:
  assumes "process_ok K p"
    and "\<And>r d err. fst (fetch_direct_with_status c now http r ex s limit) = Inr (F_Ok, Some d, err) \<Longrightarrow> K (book_key ex s) d now"
    and "poll_once c now http (book_key ex s) ex s limit (st, p) = (r, st', p')"
  shows "process_ok K p'"
proof (cases "fetch_direct_with_status c now http (pc_rest p) ex s limit")
  case (Pair res rs)
  have put: "process_ok K (put_entry (book_key ex s) (\<lambda>e. e\<lparr>ce_data := data, ce_ts := Some now\<rparr>) (p\<lparr>pc_rest := rs\<rparr>))"
    if "res = Inr (F_Ok, data, err)" for data err
  proof (rule put_entry_ok)
    show "entry_known K (book_key ex s) (e\<lparr>ce_data := data, ce_ts := Some now\<rparr>)" for e
      using assms(2) [of "pc_rest p" _ err] Pair that by (simp add: entry_known_def or_zero_def)
  qed (simp add: assms(1))
  show ?thesis
    using assms(1,3) put
    by (auto simp: poll_once_def Pair Let_def split: option.splits sum.splits prod.splits if_splits)
qed

lemma rest_fallback_ok:
  assumes "process_ok K p"
    and "\<And>r n d. fst (fetch_direct c now http r ex s n) = Inr (Some d) \<Longrightarrow> K (book_key ex s) d now"
    and "rest_fallback c now http ex s limit p = (res, p')"
  shows "process_ok K p'" and "res = Some d \<Longrightarrow> K (book_key ex s) d now" and "res = None \<Longrightarrow> pc_books p' = pc_books p"
proof -
  define n where "n = (case ws_depth ex of Some n \<Rightarrow> min limit n | None \<Rightarrow> limit)"
  obtain r rs where f: "fetch_direct c now http (pc_rest p) ex s n = (r, rs)" by fastforce
  note defs = rest_fallback_def n_def [symmetric] f Let_def levels_in_def
  show "process_ok K p'"
    using assms(1,3) assms(2) [of "pc_rest p" n] f
    by (auto simp: defs split: option.splits sum.splits if_splits intro!: put_heard_ok)
  show "K (book_key ex s) d now" if "res = Some d"
    using assms(3) assms(2) [of "pc_rest p" n] f that
    by (auto simp: defs split: option.splits sum.splits if_splits)
  show "pc_books p' = pc_books p" if "res = None"
    using assms(3) that by (auto simp: defs split: option.splits sum.splits if_splits)
qed

lemma levels_in_Some: "levels_in x = Some d \<longleftrightarrow> x = Some d \<and> has_levels d"
  by (auto simp: levels_in_def split: option.splits if_splits)

lemma memory_book_ok:
  "process_ok K p \<Longrightarrow> memory_book now k p = Some d \<Longrightarrow> \<exists>t. K k d t \<and> now - t \<le> stale_fallback"
  by (auto simp: memory_book_def levels_in_Some entry_known_def split: option.splits if_splits dest!: entry_lookup)

lemma redis_book_ok:
  assumes "shared_ok K sh" "redis_book redis now ex s sh = Some d"
  shows "\<exists>t. K (book_key ex s) d t \<and> now - t \<le> file_fresh_max"
proof -
  from assms(2) obtain t x where t: "sd_redis sh (book_key ex s) = Some (d, t, x)" "now - t < file_fresh_max"
    by (auto simp: redis_book_def read_book_def levels_in_Some split: option.splits if_splits)
  then have "K (book_key ex s) d t" using assms(1) by (auto simp: shared_ok_def)
  then show ?thesis using t(2) by (intro exI [of _ t]) simp
qed

text \<open>
  A book served for a key: it was heard, and not more than the ceiling ago unless it is the one a memory
  holds.
\<close>

definition memory_holds :: "process set \<Rightarrow> string \<Rightarrow> depth \<Rightarrow> bool" where
  "memory_holds P k d \<longleftrightarrow> (\<exists>p\<in>P. \<exists>e. entry_of_key p k = Some e \<and> ce_data e = Some d)"

definition served_book :: "(string \<Rightarrow> depth \<Rightarrow> rat \<Rightarrow> bool) \<Rightarrow> rat \<Rightarrow> process set \<Rightarrow> string \<Rightarrow> depth \<Rightarrow> bool" where
  "served_book K now P k d \<longleftrightarrow> (\<exists>t. K k d t \<and> (now - t \<le> stale_serve_max \<or> memory_holds P k d))"

lemma ages [simp]:
  "stale_fallback \<le> stale_serve_max" "file_fresh_max \<le> stale_serve_max" "file_degraded_max \<le> stale_serve_max"
  by (simp_all add: stale_fallback_def file_fresh_max_def file_degraded_max_def stale_serve_max_def)

lemma served_recent: "K k d t \<Longrightarrow> now - t \<le> m \<Longrightarrow> m \<le> stale_serve_max \<Longrightarrow> served_book K now P k d"
  by (auto simp: served_book_def)

lemma served_held: "process_ok K p \<Longrightarrow> p \<in> P \<Longrightarrow> entry_of_key p k = Some e \<Longrightarrow> ce_data e = Some d \<Longrightarrow> served_book K now P k d"
  unfolding served_book_def memory_holds_def by (metis entry_lookup entry_known_def)

lemma served_more: "served_book K now P k d \<Longrightarrow> P \<subseteq> Q \<Longrightarrow> served_book K now Q k d"
  by (auto simp: served_book_def memory_holds_def)

text \<open>The states seen while waiting are sound, and not earlier than the request.\<close>

definition later_ok :: "(string \<Rightarrow> depth \<Rightarrow> rat \<Rightarrow> bool) \<Rightarrow> rat \<Rightarrow> (rat \<times> process \<times> shared) list \<Rightarrow> bool" where
  "later_ok K now later \<longleftrightarrow> (\<forall>(t, p, sh)\<in>set later. now \<le> t \<and> process_ok K p \<and> shared_ok K sh)"

definition seen_in :: "(rat \<times> process \<times> shared) list \<Rightarrow> process set" where
  "seen_in later = (\<lambda>(t, p, sh). p) ` set later"

lemma file_lookup_books: "file_lookup now m k sh p = (r, p') \<Longrightarrow> pc_books p' = pc_books p"
  by (auto simp: file_lookup_def refresh_file_memo_def Let_def split: option.splits prod.splits if_splits)

lemma memory_holds_books:
  "pc_books p' = pc_books p \<Longrightarrow> memory_holds (insert p' P) k d = memory_holds (insert p P) k d"
  by (auto simp: memory_holds_def entry_of_key_def)

lemma served_books: "pc_books p' = pc_books p \<Longrightarrow> served_book K now (insert p' P) k d = served_book K now (insert p P) k d"
  by (simp only: served_book_def memory_holds_books [of p' p])

lemma wait_for_push_ok:
  assumes "later_ok K now later" "process_ok K p" "shared_ok K sh" "wait_for_push k later (p, sh) = (r, p', sh')"
  shows "process_ok K p' \<and> shared_ok K sh' \<and> (case r of Some d \<Rightarrow> served_book K now (insert p (seen_in later)) k d
    | None \<Rightarrow> (\<exists>p0\<in>insert p (seen_in later). pc_books p' = pc_books p0))"
  using assms
proof (induction later arbitrary: p sh)
  case (Cons x later)
  obtain t q s1 where x: "x = (t, q, s1)" by (cases x)
  have ok: "now \<le> t" "process_ok K q" "shared_ok K s1" "later_ok K now later" using Cons.prems(1) by (auto simp: later_ok_def x)
  have seen: "seen_in (x # later) = insert q (seen_in later)" by (simp add: seen_in_def x)
  obtain fr fp where f: "file_lookup t file_fresh_max k s1 q = (fr, fp)" by fastforce
  have fok: "process_ok K fp" "\<And>d. fr = Some d \<Longrightarrow> \<exists>u. K k d u \<and> t - u \<le> file_fresh_max"
    using file_lookup_ok [OF ok(2,3) f] by blast+
  have books: "pc_books fp = pc_books q" by (rule file_lookup_books [OF f])
  show ?case
  proof (cases "levels_in (case entry_of_key q k of Some e \<Rightarrow> ce_data e | None \<Rightarrow> None)")
    case (Some d)
    then have r: "r = Some d" "p' = in_use t k q" "sh' = s1" using Cons.prems(4) by (simp_all add: x Some)
    from Some obtain e where "entry_of_key q k = Some e" "ce_data e = Some d" by (auto simp: levels_in_Some split: option.splits)
    then have "served_book K now (insert p (seen_in (x # later))) k d" by (intro served_held [OF ok(2)]) (auto simp: seen)
    then show ?thesis using ok(2,3) by (simp add: r in_use_ok)
  next
    case None
    show ?thesis
    proof (cases "\<exists>d. fr = Some d \<and> has_levels d")
      case True
      then obtain d where d: "fr = Some d" "has_levels d" by blast
      then have r: "r = Some d" "p' = fp" "sh' = s1" using Cons.prems(4) by (simp_all add: x f None)
      obtain u where "K k d u" "t - u \<le> file_fresh_max" using fok(2) d(1) by blast
      then have "served_book K now (insert p (seen_in (x # later))) k d"
        using ok(1) by (intro served_recent [where m = file_fresh_max and t = u]) auto
      then show ?thesis using ok(3) fok(1) by (simp add: r)
    next
      case False
      then have w: "wait_for_push k later (fp, s1) = (r, p', sh')"
        using Cons.prems(4) by (cases fr) (simp_all add: x f None)
      note IH = Cons.IH [OF ok(4) fok(1) ok(3) w]
      have sub: "insert q (seen_in later) \<subseteq> insert p (seen_in (x # later))" by (auto simp: seen)
      show ?thesis
      proof (cases r)
        case None
        then show ?thesis using IH books by (auto simp: seen)
      next
        case (Some d)
        then have "served_book K now (insert q (seen_in later)) k d" using IH by (simp add: served_books [OF books])
        then show ?thesis using IH Some served_more [OF _ sub] by simp
      qed
    qed
  qed
qed (simp add: seen_in_def)

lemma recent_ok:
  assumes "process_ok K p" "shared_ok K sh" "recent_orderbook q ex s (p, sh) = (r, p', sh')"
  shows "process_ok K p' \<and> sh' = sh \<and> (\<forall>d. r = Some d \<longrightarrow> (\<exists>t. K (book_key ex s) d t \<and> bq_now q - t \<le> stale_fallback)) \<and>
    (r = None \<longrightarrow> pc_books p' = pc_books p)"
proof -
  obtain fr fp where f: "file_lookup (bq_now q) file_fresh_max (book_key ex s) sh p = (fr, fp)" by fastforce
  note lookup = file_lookup_ok [OF assms(1,2) f] file_lookup_books [OF f]
  have "file_fresh_max \<le> stale_fallback" by (simp add: file_fresh_max_def stale_fallback_def)
  then show ?thesis
    using assms lookup memory_book_ok [OF assms(1), of "bq_now q" "book_key ex s"]
      redis_book_ok [OF assms(2), of "bq_redis q" "bq_now q" ex s]
    by (fastforce simp: recent_orderbook_def Let_def f levels_in_Some split: option.splits intro: in_use_ok)
qed

lemma deep_ok:
  assumes "process_ok K p" "shared_ok K sh" "deep_orderbook q ex s limit (p, sh) = (r, p', sh')"
    and "\<And>r n d. fst (fetch_direct (bq_clock q) (bq_now q) (bq_http q) r ex s n) = Inr (Some d) \<Longrightarrow> K (book_key ex s) d (bq_now q)"
  shows "process_ok K p' \<and> sh' = sh \<and> (\<forall>d. r = Some d \<longrightarrow> (\<exists>t. K (book_key ex s) d t \<and> bq_now q - t \<le> stale_fallback)) \<and>
    (r = None \<longrightarrow> pc_books p' = pc_books p)"
proof -
  obtain fr fp where f: "rest_fallback (bq_clock q) (bq_now q) (bq_http q) ex s limit p = (fr, fp)" by fastforce
  note lookup = rest_fallback_ok [OF assms(1,4) f]
  have "file_fresh_max \<le> stale_fallback" "0 \<le> stale_fallback" by (simp_all add: file_fresh_max_def stale_fallback_def)
  then show ?thesis
    using assms(1-3) lookup memory_book_ok [OF assms(1), of "bq_now q" "book_key ex s"]
      redis_book_ok [OF assms(2), of "bq_redis q" "bq_now q" ex s]
    by (fastforce simp: deep_orderbook_def Let_def f split: option.splits intro: in_use_ok)
qed

lemma queue_ok [ok_intros]: "shared_ok K sh \<Longrightarrow> shared_ok K (queue_subscribe_request ex s sh)"
  by (simp add: queue_subscribe_request_def shared_ok_def Let_def)

definition final_book :: "process \<Rightarrow> string \<Rightarrow> depth" where
  "final_book p k = (case entry_of_key p k of Some e \<Rightarrow> (case ce_data e of Some d \<Rightarrow> d | None \<Rightarrow> empty_depth) | None \<Rightarrow> empty_depth)"

lemma final_book_served: "process_ok K p \<Longrightarrow> p \<in> P \<Longrightarrow> final_book p k = empty_depth \<or> served_book K now P k (final_book p k)"
  using served_held [of K p P k] by (auto simp: final_book_def split: option.splits)

lemma final_book_books: "pc_books p' = pc_books p \<Longrightarrow> final_book p' k = final_book p k"
  by (simp add: final_book_def entry_of_key_def)

lemma final_book_kept: "final_book (start_poller k (in_use now k p)) k = final_book p k"
  by (auto simp: final_book_def start_poller_def in_use_def put_entry_def entry_of_key_def empty_entry_def update_conv'
    split: option.splits)

lemma last_resort_ok:
  assumes "process_ok K p" "shared_ok K sh" "later_ok K (bq_now q) later" "P = insert p (seen_in later)"
    and "(case wait_for_push k later (p, sh) of
           (Some d, ps) \<Rightarrow> (d, ps)
         | (None, p, sh) \<Rightarrow>
             (final_book (if ws then p else start_poller k (in_use (bq_now q) k p)) k,
              if ws then p else start_poller k (in_use (bq_now q) k p), sh)) = (d, p', sh')"
  shows "process_ok K p' \<and> shared_ok K sh' \<and> (d = empty_depth \<or> served_book K (bq_now q) P k d)"
proof -
  obtain r p1 sh1 where w: "wait_for_push k later (p, sh) = (r, p1, sh1)" by (metis prod_cases3)
  note ok = wait_for_push_ok [OF assms(3,1,2) w]
  show ?thesis
  proof (cases r)
    case None
    then obtain p0 where p0: "p0 \<in> P" "pc_books p1 = pc_books p0" using ok assms(4) by auto
    have "process_ok K p0" using p0(1) assms(1,3,4) by (auto simp: seen_in_def later_ok_def)
    then have "final_book p1 k = empty_depth \<or> served_book K (bq_now q) P k (final_book p1 k)"
      using final_book_served [OF _ p0(1)] final_book_books [OF p0(2)] by simp
    moreover have "d = final_book p1 k" "sh' = sh1" "process_ok K p'"
      using assms(5) ok by (auto simp: w None Let_def final_book_kept in_use_ok split: if_splits)
    ultimately show ?thesis using ok by simp
  next
    case (Some x)
    then show ?thesis using assms(4,5) ok by (simp add: w)
  qed
qed

lemma fetch_orderbook_ok:
  assumes "process_ok K p" "shared_ok K sh" "later_ok K (bq_now q) (checks q)" "P = insert p (seen_in (checks q))"
    and rest: "\<And>r n d. fst (fetch_direct (bq_clock q) (bq_now q) (bq_http q) r ex s n) = Inr (Some d) \<Longrightarrow> K (book_key ex s) d (bq_now q)"
    and "fetch_orderbook q ex s limit (p, sh) = (d, p', sh')"
  shows "process_ok K p' \<and> shared_ok K sh' \<and> (d = empty_depth \<or> served_book K (bq_now q) P (book_key ex s) d)"
proof -
  let ?k = "book_key ex s"
  define sh1 where "sh1 = (if is_ws_supported ex \<and> \<not> bq_manager q then queue_subscribe_request ex s sh else sh)"
  have sh1: "shared_ok K sh1" using assms(2) by (simp add: sh1_def queue_ok)
  obtain fr p1 where f: "rest_fallback (bq_clock q) (bq_now q) (bq_http q) ex s limit p = (fr, p1)" by fastforce
  have fok: "process_ok K p1" "\<And>x. fr = Some x \<Longrightarrow> K ?k x (bq_now q)" "fr = None \<Longrightarrow> pc_books p1 = pc_books p"
    using rest_fallback_ok [OF assms(1) _ f] rest by blast+
  have now: "served_book K (bq_now q) P ?k x" if "K ?k x (bq_now q)" for x
    using that unfolding served_book_def by (intro exI [of _ "bq_now q"]) (simp add: stale_serve_max_def)
  obtain lr p2 where l: "file_lookup_stale (bq_now q) ?k sh1 p1 = (lr, p2)" by fastforce
  note lok = file_lookup_ok [OF fok(1) sh1 l [unfolded file_lookup_stale_def]]
  have books: "fr = None \<Longrightarrow> pc_books p2 = pc_books p" using file_lookup_books [OF l [unfolded file_lookup_stale_def]] fok(3) by simp
  note run = assms(6) [unfolded fetch_orderbook_def, simplified Let_def prod.case sh1_def [symmetric] final_book_def [symmetric] f]
  show ?thesis
  proof (cases fr)
    case (Some x)
    then show ?thesis using run fok(1,2) sh1 now by auto
  next
    case None
    note run = run [unfolded None option.case prod.case l]
    show ?thesis
    proof (cases "levels_in lr")
      case (Some x)
      then obtain t where "K ?k x t" "bq_now q - t \<le> stale_serve_max" using lok(2) by (auto simp: levels_in_Some)
      then have "served_book K (bq_now q) P ?k x" by (auto simp: served_book_def)
      then show ?thesis using run lok(1) sh1 by (simp add: Some)
    next
      case lv: None
      have "served_book K (bq_now q) (insert p2 (seen_in (checks q))) ?k d \<Longrightarrow> served_book K (bq_now q) P ?k d"
        using served_books [OF books [OF None]] assms(4) by simp
      then show ?thesis
        using last_resort_ok [OF lok(1) sh1 assms(3) refl run [unfolded lv option.case]] by blast
    qed
  qed
qed

lemma served_stale: "\<exists>t. K k d t \<and> now - t \<le> stale_fallback \<Longrightarrow> served_book K now P k d"
  unfolding served_book_def by (meson ages(1) order_trans)

lemma get_cached_ok:
  assumes "process_ok K p" "shared_ok K sh" "later_ok K (bq_now q) (checks q)" "P = insert p (seen_in (checks q))"
    and rest: "\<And>r n d. fst (fetch_direct (bq_clock q) (bq_now q) (bq_http q) r (lower ex) (upper s) n) = Inr (Some d) \<Longrightarrow>
      K (book_key (lower ex) (upper s)) d (bq_now q)"
    and run: "get_cached_orderbook q ex s limit (p, sh) = (d, p', sh')"
  shows "process_ok K p' \<and> shared_ok K sh' \<and> (d = empty_depth \<or> served_book K (bq_now q) P (book_key (lower ex) (upper s)) d)"
proof -
  let ?e = "lower ex" and ?s = "upper s"
  obtain r1 p1 sh1 where d1: "(if deep_limit_threshold < limit then deep_orderbook q ?e ?s limit (p, sh) else (None, p, sh)) = (r1, p1, sh1)"
    by (metis prod_cases3)
  have ok1: "process_ok K p1" "sh1 = sh" "\<And>x. r1 = Some x \<Longrightarrow> served_book K (bq_now q) P (book_key ?e ?s) x"
      "r1 = None \<Longrightarrow> pc_books p1 = pc_books p"
    using deep_ok [OF assms(1,2) _ rest, of limit r1 p1 sh1] d1 assms(1) served_stale
    by (auto split: if_splits)
  obtain r2 p2 sh2 where d2: "recent_orderbook q ?e ?s (p1, sh1) = (r2, p2, sh2)" by (metis prod_cases3)
  have ok2: "process_ok K p2" "sh2 = sh" "\<And>x. r2 = Some x \<Longrightarrow> served_book K (bq_now q) P (book_key ?e ?s) x"
      "r2 = None \<Longrightarrow> pc_books p2 = pc_books p1"
    using recent_ok [OF ok1(1) _ d2] assms(2) ok1(2) served_stale by auto
  note run = run [unfolded get_cached_orderbook_def Let_def d1 prod.case]
  show ?thesis
  proof (cases r1)
    case (Some x)
    then show ?thesis using run ok1 assms(2) by auto
  next
    case None
    note run = run [unfolded None option.case d2 prod.case]
    show ?thesis
    proof (cases r2)
      case (Some x)
      then show ?thesis using run ok2 assms(2) by auto
    next
      case r2: None
      have books: "pc_books p2 = pc_books p" using ok1(4) [OF None] ok2(4) [OF r2] by simp
      have sh: "shared_ok K sh2" using ok2(2) assms(2) by simp
      have "process_ok K p' \<and> shared_ok K sh' \<and>
          (d = empty_depth \<or> served_book K (bq_now q) (insert p2 (seen_in (checks q))) (book_key ?e ?s) d)"
        by (rule fetch_orderbook_ok [OF ok2(1) sh assms(3) refl _ run [unfolded r2 option.case]]) (erule rest)
      then show ?thesis using served_books [OF books, of K "bq_now q"] assms(4) by simp
    qed
  qed
qed

lemma top_levels_ok:
  assumes "process_ok K p" "shared_ok K sh" "top_levels now ex s sh p = (r, p')"
  shows "process_ok K p'" and "r = Some (b, a) \<Longrightarrow> \<exists>d t. K (book_key (lower ex) (upper s)) d t \<and> now - t \<le> file_degraded_max \<and>
    dp_bids d \<noteq> [] \<and> dp_asks d \<noteq> [] \<and> b = fst (hd (dp_bids d)) \<and> a = fst (hd (dp_asks d))"
proof -
  let ?k = "book_key (lower ex) (upper s)"
  define mem where "mem = (case entry_of_key p ?k of
      Some e \<Rightarrow> if now - or_zero (ce_ts e) \<le> file_degraded_max then ce_data e else None | None \<Rightarrow> None)"
  obtain fr fp where f: "file_lookup now file_degraded_max ?k sh p = (fr, fp)" by fastforce
  have m: "\<exists>t. K ?k d t \<and> now - t \<le> file_degraded_max" if "mem = Some d" for d
    using that assms(1) by (auto simp: mem_def entry_known_def split: option.splits if_splits dest!: entry_lookup)
  note fok = file_lookup_ok [OF assms(1,2) f]
  note run = assms(3) [unfolded top_levels_def Let_def mem_def [symmetric] f]
  show "process_ok K p'" using run fok(1) assms(1) by (auto split: option.splits)
  show "\<exists>d t. K ?k d t \<and> now - t \<le> file_degraded_max \<and>
    dp_bids d \<noteq> [] \<and> dp_asks d \<noteq> [] \<and> b = fst (hd (dp_bids d)) \<and> a = fst (hd (dp_asks d))" if "r = Some (b, a)"
  proof -
    from run that obtain d where d: "mem = Some d \<or> fr = Some d" "dp_bids d \<noteq> []" "dp_asks d \<noteq> []"
        "b = fst (hd (dp_bids d))" "a = fst (hd (dp_asks d))"
      by (fastforce split: option.splits list.splits)
    then show ?thesis using m fok(2) by metis
  qed
qed

lemma dumped_ok: "process_ok K p \<Longrightarrow> file_ok K (dumped now owned p)"
  by (auto simp: dumped_def file_ok_def process_ok_def list_all_iff entry_known_def somes_def List.map_filter_def
    split: if_splits option.splits)

lemma dump_ok [ok_intros]: "process_ok K p \<Longrightarrow> shared_ok K sh \<Longrightarrow> shared_ok K (dump_once now owned slice p sh)"
  using dumped_ok [of K p now owned] by (auto simp: dump_once_def shared_ok_def Let_def split: option.splits)

lemma reread_ok: "shared_ok K sh \<Longrightarrow> merger_ok K m \<Longrightarrow> merger_ok K (reread sh m ex)"
  using set_update [of ex _ m] by (fastforce simp: reread_def merger_ok_def shared_ok_def split: option.splits if_splits)

lemma rereads_ok: "shared_ok K sh \<Longrightarrow> merger_ok K m \<Longrightarrow> merger_ok K (foldl (reread sh) m owned)"
  by (induction owned arbitrary: m) (simp_all add: reread_ok)

lemma merged_ok: "merger_ok K m \<Longrightarrow> file_ok K (merged_books now m)"
proof -
  assume "merger_ok K m"
  then have all: "file_ok K (concat (map (\<lambda>(ex, data, mt). data) m))" by (fastforce simp: merger_ok_def file_ok_def)
  have "file_ok K acc \<Longrightarrow> file_ok K xs \<Longrightarrow>
      file_ok K (foldl (\<lambda>acc (key, d, ts). if ts < now - stale_serve_max then acc else AList.update key (d, ts) acc) acc xs)" for xs acc
  proof (induction xs arbitrary: acc)
    case (Cons x xs)
    obtain k d t where x: "x = (k, d, t)" by (cases x)
    have "K k d t" "file_ok K xs" using Cons.prems(2) by (simp_all add: x file_ok_def)
    then show ?case using Cons.IH Cons.prems(1) by (simp add: x file_ok_update)
  qed simp
  from this [OF file_ok_Nil all] show ?thesis by (simp add: merged_books_def)
qed

lemma new_file_ok: "shared_ok K sh \<Longrightarrow> file_ok K f \<Longrightarrow> shared_ok K (sh\<lparr>sd_books := Some (f, now)\<rparr>)"
  by (simp add: shared_ok_def)

lemma merge_once_ok:
  assumes "shared_ok K sh" "merger_ok K m" "merge_once redis now owned (m, sh) = (m', sh')"
  shows "shared_ok K sh' \<and> merger_ok K m'"
proof -
  have m': "m' = foldl (reread sh) m owned"
    and sh': "sh' = write_books redis now (merged_books now m') (sh\<lparr>sd_books := Some (merged_books now m', now)\<rparr>)"
    using assms(3) by (auto simp: merge_once_def Let_def)
  have "merger_ok K m'" using rereads_ok [OF assms(1,2)] m' by simp
  then show ?thesis using assms(1) by (simp add: sh' write_books_ok new_file_ok merged_ok)
qed

lemma prewarm_ok: "process_ok K p \<Longrightarrow> process_ok K (prewarm_start_poller now ex s p)"
  by (auto simp: prewarm_start_poller_def Let_def intro!: put_entry_ok simp: entry_known_def)

lemma back_up_ok: "process_ok K p \<Longrightarrow> process_ok K (back_up now es p)"
  by (auto simp: back_up_def Let_def intro!: in_use_ok)

lemma prewarms_ok: "process_ok K p \<Longrightarrow> process_ok K (foldl (\<lambda>p (ex, s). prewarm_start_poller now ex s p) p xs)"
  by (induction xs arbitrary: p) (auto intro: prewarm_ok)

lemma back_ups_ok: "process_ok K p \<Longrightarrow> process_ok K (foldl (\<lambda>p es. back_up now es p) p xs)"
  by (induction xs arbitrary: p) (auto intro: back_up_ok)

lemma hotlist_ok:
  assumes "process_ok K p" "shared_ok K sh" "hotlist_tick now sc x (n, p, sh) = (calls, n', p', sh')"
  shows "process_ok K p' \<and> shared_ok K sh'"
proof -
  have "shared_ok K (snd (drain_pending_subs sh))" using assms(2) by (simp add: drain_pending_subs_def shared_ok_def split: option.splits)
  then show ?thesis using assms(1,3)
    by (auto simp: hotlist_tick_def Let_def split: prod.splits intro!: back_ups_ok prewarms_ok)
qed

lemma touch_ok: "shared_ok K sh \<Longrightarrow> shared_ok K (touch_user_sub now ex s sh)"
  by (simp add: touch_user_sub_def shared_ok_def Let_def)

lemma set_proc_ok: "system_ok K y \<Longrightarrow> process_ok K (fst ps) \<Longrightarrow> shared_ok K (snd ps) \<Longrightarrow> system_ok K (set_proc i ps y)"
  by (simp add: system_ok_def set_proc_def)

lemma fresh_process_ok [simp]: "process_ok K fresh_process"
  by (simp add: process_ok_def fresh_process_def)

lemma cache_step_ok:
  assumes "system_ok K y" and K: "\<And>k d t. heard e k d t \<Longrightarrow> K k d t"
  shows "system_ok K (cache_step y e)"
proof -
  have ok: "\<And>i. process_ok K (sy_procs y i)" "shared_ok K (sy_shared y)" "merger_ok K (sy_merger y)"
    using assms(1) by (simp_all add: system_ok_def)
  note put = set_proc_ok [OF assms(1)]
  show ?thesis
  proof (cases e)
    case (Pushed i now redis ex q)
    have "K (book_key ex (fst q)) \<lparr>dp_bids = fst (snd q), dp_asks = snd (snd q)\<rparr> now"
      using K by_stream [of i now redis ex "fst q" "fst (snd q)" "snd (snd q)"] by (simp add: Pushed)
    then show ?thesis
      using update_cb_ok [OF ok(1,2), of ex q now redis i] by (simp add: Pushed put)
  next
    case (Polled i now c http ex s limit st)
    obtain r st' p' where r: "poll_once c now http (book_key ex s) ex s limit (st, sy_procs y i) = (r, st', p')"
      by (metis prod_cases3)
    have "process_ok K p'"
      by (rule poll_once_ok [OF ok(1) _ r]) (use K by_poller in \<open>auto simp: Polled\<close>)
    then show ?thesis using ok(2) by (simp add: Polled r put)
  next
    case (Asked i q ex s limit)
    obtain d p' sh' where r: "get_cached_orderbook (q\<lparr>bq_later := []\<rparr>) ex s limit (sy_procs y i, sy_shared y) = (d, p', sh')"
      by (metis prod_cases3)
    have "process_ok K p' \<and> shared_ok K sh' \<and> (d = empty_depth \<or>
        served_book K (bq_now (q\<lparr>bq_later := []\<rparr>)) (insert (sy_procs y i) (seen_in (checks (q\<lparr>bq_later := []\<rparr>)))) (book_key (lower ex) (upper s)) d)"
      by (rule get_cached_ok [OF ok(1,2) _ refl _ r]) (use K by_request in \<open>auto simp: Asked later_ok_def checks_def\<close>)
    then show ?thesis by (simp add: Asked r put)
  next
    case (Looked i now ex s)
    obtain r p' where r: "top_levels now ex s (sy_shared y) (sy_procs y i) = (r, p')" by fastforce
    show ?thesis using top_levels_ok(1) [OF ok(1,2) r] ok(2) by (simp add: Looked r put)
  next
    case (Dumped i now owned slice)
    then show ?thesis using ok by (simp add: system_ok_def dump_ok)
  next
    case (Merged redis now owned)
    obtain m sh where r: "merge_once redis now owned (sy_merger y, sy_shared y) = (m, sh)" by fastforce
    show ?thesis using merge_once_ok [OF ok(2,3) r] ok by (simp add: Merged r system_ok_def)
  next
    case (Hot i now sc x)
    obtain calls n p sh where r: "hotlist_tick now sc x (sy_ticks y i, sy_procs y i, sy_shared y) = (calls, n, p, sh)"
      by (metis prod_cases4)
    show ?thesis using hotlist_ok [OF ok(1,2) r] ok by (simp add: Hot r set_proc_def system_ok_def)
  next
    case (Viewed now ex s)
    then show ?thesis using ok by (simp add: system_ok_def touch_ok)
  next
    case (Restarted i)
    then show ?thesis using ok by (simp add: put)
  qed
qed

lemma file_ok_mono: "(\<And>k d t. K k d t \<Longrightarrow> L k d t) \<Longrightarrow> file_ok K f \<Longrightarrow> file_ok L f"
  by (auto simp: file_ok_def)

lemma system_ok_mono:
  assumes "\<And>k d t. K k d t \<Longrightarrow> L k d t" "system_ok K y"
  shows "system_ok L y"
proof -
  have "process_ok K p \<Longrightarrow> process_ok L p" for p
    using assms(1) file_ok_mono [of K L] by (auto simp: process_ok_def list_all_iff entry_known_def)
  moreover have "shared_ok K sh \<Longrightarrow> shared_ok L sh" for sh
    using assms(1) file_ok_mono [of K L] by (auto simp: shared_ok_def)
  moreover have "merger_ok K m \<Longrightarrow> merger_ok L m" for m
    using file_ok_mono [of K L] assms(1) by (auto simp: merger_ok_def)
  ultimately show ?thesis using assms(2) by (simp add: system_ok_def)
qed

lemma known_snoc: "known (es @ [e]) k d t \<longleftrightarrow> known es k d t \<or> heard e k d t"
  by (auto simp: known_def)

interpretation cache_machine: inv_machine "\<lambda>(es, y) e. (es @ [e], cache_step y e)" "\<lambda>(es, y). system_ok (known es) y"
proof
  fix s :: "cache_event list \<times> system" and e
  assume "case s of (es, y) \<Rightarrow> system_ok (known es) y"
  then obtain es y where s: "s = (es, y)" "system_ok (known es) y" by (cases s) simp
  have "system_ok (known (es @ [e])) y" by (rule system_ok_mono [OF _ s(2)]) (simp add: known_snoc)
  then have "system_ok (known (es @ [e])) (cache_step y e)" by (rule cache_step_ok) (simp add: known_snoc)
  then show "case (case s of (es, y) \<Rightarrow> \<lambda>e. (es @ [e], cache_step y e)) e of (es, y) \<Rightarrow> system_ok (known es) y"
    by (simp add: s(1))
qed

definition cache_run :: "cache_event list \<Rightarrow> system" where
  "cache_run es = foldl cache_step fresh_system es"

lemma run_recorded: "foldl (\<lambda>(es, y) e. (es @ [e], cache_step y e)) (es0, y) es = (es0 @ es, foldl cache_step y es)"
  by (induction es arbitrary: es0 y) simp_all

lemma cache_run_ok: "system_ok (known es) (cache_run es)"
proof -
  have "case ([], fresh_system) of (es, y) \<Rightarrow> system_ok (known es) y"
    by (simp add: system_ok_def fresh_system_def shared_ok_def fresh_shared_def merger_ok_def)
  from cache_machine.run_inv [OF this, of es] show ?thesis by (simp add: run_recorded cache_run_def)
qed

section \<open>What is read\<close>

lemma streamed_order: "ex \<in> set keeping \<Longrightarrow> list_all (ordered_quote ex) (sr_quotes (foldl (stream_step ids ex) fresh_stream ms))"
  using stream_machine.run_inv [of ex fresh_stream ids ms] fresh_stream_inv [of ex] by (simp add: stream_inv_def)

definition streamed :: "string \<Rightarrow> quote \<Rightarrow> bool" where
  "streamed ex q \<longleftrightarrow> ex \<in> set keeping \<and> (\<exists>ids ms. q \<in> set (sr_quotes (foldl (stream_step ids ex) fresh_stream ms)))"

fun is_push :: "cache_event \<Rightarrow> bool" where
  "is_push (Pushed i now redis ex q) = True"
| "is_push e = False"

definition in_order :: "depth \<Rightarrow> bool" where
  "in_order d \<longleftrightarrow> falling (dp_bids d) \<and> rising (dp_asks d)"

definition best_bid :: "rat \<Rightarrow> depth \<Rightarrow> bool" where
  "best_bid b d \<longleftrightarrow> b \<in> fst ` set (dp_bids d) \<and> (\<forall>x\<in>fst ` set (dp_bids d). x \<le> b)"

definition best_ask :: "rat \<Rightarrow> depth \<Rightarrow> bool" where
  "best_ask a d \<longleftrightarrow> a \<in> fst ` set (dp_asks d) \<and> (\<forall>x\<in>fst ` set (dp_asks d). a \<le> x)"

lemma falling_hd: "falling ls \<Longrightarrow> ls \<noteq> [] \<Longrightarrow> fst (hd ls) \<in> fst ` set ls \<and> (\<forall>x\<in>fst ` set ls. x \<le> fst (hd ls))"
  by (cases ls) (auto simp: falling_def)

lemma rising_hd: "rising ls \<Longrightarrow> ls \<noteq> [] \<Longrightarrow> fst (hd ls) \<in> fst ` set ls \<and> (\<forall>x\<in>fst ` set ls. fst (hd ls) \<le> x)"
  by (cases ls) (auto simp: rising_def)

lemma streamed_in_order: "streamed ex (s, b, a) \<Longrightarrow> in_order \<lparr>dp_bids = b, dp_asks = a\<rparr>"
proof -
  assume "streamed ex (s, b, a)"
  then obtain ids ms where "ex \<in> set keeping" "(s, b, a) \<in> set (sr_quotes (foldl (stream_step ids ex) fresh_stream ms))"
    by (auto simp: streamed_def)
  then have "ordered_quote ex (s, b, a)" using streamed_order [of ex ids ms] unfolding list_all_iff by blast
  then show ?thesis by (simp add: in_order_def ordered_quote_def)
qed


text \<open>
  C20. Every book the cache serves is empty or one that was heard for this pair; it was heard within thirty
  seconds, or it is what a memory holds (of whatever age). While a request waits, other things happen.
\<close>

theorem served_books_were_heard:
  assumes "get_cached_orderbook q ex s limit (sy_procs (cache_run es) i, sy_shared (cache_run es)) = (d, p', sh')"
    and "\<forall>(t, p, sh)\<in>set (bq_later q). bq_now q \<le> t \<and>
      (\<exists>ms. set ms \<subseteq> set later \<and> p = sy_procs (cache_run (es @ ms)) i \<and> sh = sy_shared (cache_run (es @ ms)))"
  shows "d = empty_depth \<or>
    served_book (known (es @ later @ [Asked i q ex s limit])) (bq_now q) (insert (sy_procs (cache_run es) i) (seen_in (bq_later q)))
      (book_key (lower ex) (upper s)) d"
proof -
  let ?K = "known (es @ later @ [Asked i q ex s limit])"
  have later: "system_ok ?K (cache_run (es @ ms))" if "set ms \<subseteq> set later" for ms
    by (rule system_ok_mono [OF _ cache_run_ok]) (use that in \<open>auto simp: known_def\<close>)
  have ok: "process_ok ?K (sy_procs (cache_run es) i)" "shared_ok ?K (sy_shared (cache_run es))"
    using later [of "[]"] by (simp_all add: system_ok_def)
  have "later_ok ?K (bq_now q) (bq_later q)"
    using assms(2) later unfolding later_ok_def system_ok_def by fastforce
  then have waits: "later_ok ?K (bq_now q) (checks q)"
    by (auto simp: later_ok_def checks_def dest: set_takeWhileD)
  have "seen_in (checks q) \<subseteq> seen_in (bq_later q)" by (force simp: seen_in_def checks_def dest!: set_takeWhileD)
  then have sub: "insert (sy_procs (cache_run es) i) (seen_in (checks q)) \<subseteq> insert (sy_procs (cache_run es) i) (seen_in (bq_later q))" by blast
  have "process_ok ?K p' \<and> shared_ok ?K sh' \<and>
      (d = empty_depth \<or> served_book ?K (bq_now q) (insert (sy_procs (cache_run es) i) (seen_in (checks q))) (book_key (lower ex) (upper s)) d)"
    by (rule get_cached_ok [OF ok waits refl _ assms(1)]) (auto simp: known_def intro: by_request)
  then show ?thesis using served_more [OF _ sub] by blast
qed

text \<open>A book of OKX pushed at 100, read at 110, and asked for at 1000 when no venue answers.\<close>

definition sample_book_events :: "cache_event list" where
  "sample_book_events = [Pushed 0 100 False ''okx'' (''BTC'', [(99, 1), (98, 7)], [(201/2, 1), (101, 3)])]"

definition sample_depth :: depth where
  "sample_depth = \<lparr>dp_bids = [(99, 1), (98, 7)], dp_asks = [(201/2, 1), (101, 3)]\<rparr>"

definition sample_book_request :: book_request where
  "sample_book_request = \<lparr>bq_clock = \<lparr>utcnow = 0, monotonic = 1000\<rparr>, bq_now = 1000, bq_http = (\<lambda>_. None), bq_redis = False,
     bq_manager = False, bq_later = [(1000, sy_procs (cache_run sample_book_events) 0, sy_shared (cache_run sample_book_events))]\<rparr>"

lemma sample_prices:
  "fst (top_levels 110 ''okx'' ''btc'' (sy_shared (cache_run sample_book_events)) (sy_procs (cache_run sample_book_events) 0)) =
    Some (99, 201/2)"
  by code_simp

lemma sample_served:
  "fst (get_cached_orderbook sample_book_request ''okx'' ''btc'' 20
     (sy_procs (cache_run sample_book_events) 0, sy_shared (cache_run sample_book_events))) = sample_depth"
  by code_simp


theorem served_books_were_heard_witness:
  "served_book (known (sample_book_events @ [Asked 0 sample_book_request ''okx'' ''btc'' 20])) 1000
     {sy_procs (cache_run sample_book_events) 0} ''okx:BTC'' sample_depth"
proof -
  have key: "book_key (lower ''okx'') (upper ''btc'') = ''okx:BTC''" by code_simp
  have waits: "\<forall>(t, p, sh)\<in>set (bq_later sample_book_request). bq_now sample_book_request \<le> t \<and>
      (\<exists>ms. set ms \<subseteq> set [] \<and> p = sy_procs (cache_run (sample_book_events @ ms)) 0 \<and>
        sh = sy_shared (cache_run (sample_book_events @ ms)))"
    by (simp add: sample_book_request_def)
  obtain p' sh' where r: "get_cached_orderbook sample_book_request ''okx'' ''btc'' 20
      (sy_procs (cache_run sample_book_events) 0, sy_shared (cache_run sample_book_events)) = (sample_depth, p', sh')"
    using sample_served by (metis prod.collapse)
  have "sample_depth \<noteq> empty_depth" by (simp add: sample_depth_def empty_depth_def)
  then show ?thesis
    using served_books_were_heard [OF r waits] unfolding key by (simp add: sample_book_request_def seen_in_def)
qed

end
