(* ===== verification/Book_Demand.thy ===== *)
theory Book_Demand
  imports Book_Cache_Safety
begin

text \<open>What is asked for is streamed: viewed pairs and requests of other processes reach the stream manager.\<close>

section \<open>Viewed pairs\<close>

definition viewed_since :: "rat \<Rightarrow> string \<Rightarrow> shared \<Rightarrow> bool" where
  "viewed_since t key sh \<longleftrightarrow> (\<exists>xs t'. sd_user_subs sh = Some xs \<and> (key, t') \<in> set xs \<and> t \<le> t')"

text \<open>Nothing but a viewer touches the list of viewed pairs.\<close>

lemma user_subs_kept [simp]:
  "sd_user_subs (write_single redis now k e sh) = sd_user_subs sh"
  "sd_user_subs (queue_subscribe_request ex s sh) = sd_user_subs sh"
  "sd_user_subs (dump_once now owned slice p sh) = sd_user_subs sh"
  "sd_user_subs (snd (drain_pending_subs sh)) = sd_user_subs sh"
  by (simp_all add: write_single_def queue_subscribe_request_def dump_once_def drain_pending_subs_def Let_def split: option.splits)

lemma write_books_subs [simp]: "sd_user_subs (write_books redis now f sh) = sd_user_subs sh"
proof (induction f arbitrary: sh)
  case (Cons x f)
  then show ?case by (cases x) (simp add: write_books_def)
qed (simp add: write_books_def)

lemma update_cb_subs [simp]: "sd_user_subs (snd (update_cb redis now ex q (p, sh))) = sd_user_subs sh"
  by (simp add: update_cb_def Let_def split: prod.splits)

lemma merge_subs: "merge_once redis now owned (m, sh) = (m', sh') \<Longrightarrow> sd_user_subs sh' = sd_user_subs sh"
  by (auto simp: merge_once_def Let_def)

lemma hotlist_subs: "hotlist_tick now sc x (n, p, sh) = (calls, n', p', sh') \<Longrightarrow> sd_user_subs sh' = sd_user_subs sh"
proof -
  assume run: "hotlist_tick now sc x (n, p, sh) = (calls, n', p', sh')"
  obtain pending sh1 where d: "drain_pending_subs sh = (pending, sh1)" by fastforce
  then have "sd_user_subs sh1 = sd_user_subs sh" using user_subs_kept(4) [of sh] by simp
  then show ?thesis using run by (simp add: hotlist_tick_def Let_def d)
qed

lemma recent_shared: "recent_orderbook q ex s (p, sh) = (r, p', sh') \<Longrightarrow> sh' = sh"
  by (auto simp: recent_orderbook_def Let_def split: option.splits prod.splits)

lemma deep_shared: "deep_orderbook q ex s limit (p, sh) = (r, p', sh') \<Longrightarrow> sh' = sh"
  by (auto simp: deep_orderbook_def Let_def split: option.splits prod.splits)

lemma fetch_subs:
  "fetch_orderbook (q\<lparr>bq_later := []\<rparr>) ex s limit (p, sh) = (d, p', sh') \<Longrightarrow> sd_user_subs sh' = sd_user_subs sh"
  by (auto simp: fetch_orderbook_def Let_def checks_def split: option.splits prod.splits if_splits)

lemma asked_subs:
  assumes "get_cached_orderbook (q\<lparr>bq_later := []\<rparr>) ex s limit (p, sh) = (d, p', sh')"
  shows "sd_user_subs sh' = sd_user_subs sh"
proof -
  obtain r1 p1 sh1 where d1: "(if deep_limit_threshold < limit
      then deep_orderbook (q\<lparr>bq_later := []\<rparr>) (lower ex) (upper s) limit (p, sh) else (None, p, sh)) = (r1, p1, sh1)"
    by (metis prod_cases3)
  then have sh1: "sh1 = sh" by (auto split: if_splits dest: deep_shared)
  obtain r2 p2 sh2 where d2: "recent_orderbook (q\<lparr>bq_later := []\<rparr>) (lower ex) (upper s) (p1, sh1) = (r2, p2, sh2)"
    by (metis prod_cases3)
  note sh2 = recent_shared [OF d2]
  show ?thesis
  proof (cases r1)
    case (Some x)
    then show ?thesis using assms [unfolded get_cached_orderbook_def Let_def d1 prod.case] sh1 by simp
  next
    case None
    note run = assms [unfolded get_cached_orderbook_def Let_def d1 prod.case None option.case d2]
    show ?thesis
    proof (cases r2)
      case r2: None
      show ?thesis using fetch_subs [OF run [unfolded r2 option.case]] sh1 sh2 by simp
    qed (use run sh1 sh2 in simp)
  qed
qed

text \<open>Viewers come after a time, by no more than the twenty minutes.\<close>

fun in_time :: "rat \<Rightarrow> cache_event \<Rightarrow> bool" where
  "in_time t (Viewed u ex s) \<longleftrightarrow> t \<le> u \<and> u - user_subs_ttl \<le> t"
| "in_time t e \<longleftrightarrow> True"

fun is_view :: "cache_event \<Rightarrow> bool" where
  "is_view (Viewed u ex s) = True"
| "is_view e = False"

lemma other_steps_keep_subs: "\<not> is_view e \<Longrightarrow> sd_user_subs (sy_shared (cache_step y e)) = sd_user_subs (sy_shared y)"
proof (cases e)
  case (Asked i q ex s limit)
  obtain d p' sh' where r: "get_cached_orderbook (q\<lparr>bq_later := []\<rparr>) ex s limit (sy_procs y i, sy_shared y) = (d, p', sh')"
    by (metis prod_cases3)
  then show ?thesis using asked_subs [OF r] by (simp add: Asked set_proc_def)
next
  case (Merged redis now owned)
  obtain m sh where r: "merge_once redis now owned (sy_merger y, sy_shared y) = (m, sh)" by fastforce
  then show ?thesis using merge_subs [OF r] by (simp add: Merged)
next
  case (Hot i now sc x)
  obtain calls n p sh where r: "hotlist_tick now sc x (sy_ticks y i, sy_procs y i, sy_shared y) = (calls, n, p, sh)"
    by (metis prod_cases4)
  then show ?thesis using hotlist_subs [OF r] by (simp add: Hot set_proc_def)
qed (simp_all add: set_proc_def)

lemma viewed_subs: "sd_user_subs (touch_user_sub now ex s sh) =
  Some (filter (\<lambda>(k, ts). now - user_subs_ttl \<le> ts)
    (AList.update (book_key (lower ex) (upper s)) now (case sd_user_subs sh of None \<Rightarrow> [] | Some xs \<Rightarrow> xs)))"
  by (simp add: touch_user_sub_def Let_def)

lemma viewed_step:
  assumes "viewed_since t key (sy_shared y)"
    and "in_time t e"
  shows "viewed_since t key (sy_shared (cache_step y e))"
proof (cases "is_view e")
  case False
  then show ?thesis using assms(1) other_steps_keep_subs [of e y] by (simp add: viewed_since_def)
next
  case True
  then obtain u ex s where e: "e = Viewed u ex s" by (cases e) auto
  obtain xs t' where xs: "sd_user_subs (sy_shared y) = Some xs" "(key, t') \<in> set xs" "t \<le> t'"
    using assms(1) by (auto simp: viewed_since_def)
  have u: "t \<le> u" "u - user_subs_ttl \<le> t" using assms(2) by (simp_all add: e)
  let ?k = "book_key (lower ex) (upper s)"
  show ?thesis
  proof (cases "key = ?k")
    case True
    have "(key, u) \<in> set (AList.update ?k u xs)" using map_of_SomeD [of "AList.update ?k u xs" ?k u] True by (simp add: update_conv')
    then show ?thesis using xs u by (auto simp: e viewed_subs viewed_since_def user_subs_ttl_def)
  next
    case False
    have "(key, t') \<in> set (AList.update ?k u xs)" using xs(2) False by (induction xs) auto
    then show ?thesis using xs u by (auto simp: e viewed_subs viewed_since_def)
  qed
qed

lemma viewed_run:
  assumes "list_all (in_time t) es2"
  shows "viewed_since t (book_key (lower ex) (upper s)) (sy_shared (cache_run (es1 @ Viewed t ex s # es2)))"
  using assms
proof (induction es2 rule: rev_induct)
  case Nil
  let ?k = "book_key (lower ex) (upper s)" and ?xs = "case sd_user_subs (sy_shared (cache_run es1)) of None \<Rightarrow> [] | Some xs \<Rightarrow> xs"
  have "(?k, t) \<in> set (AList.update ?k t ?xs)"
    using map_of_SomeD [of "AList.update ?k t ?xs" ?k t] by (simp add: update_conv')
  then have "\<exists>t'. (?k, t') \<in> set (filter (\<lambda>(k, u). t - user_subs_ttl \<le> u) (AList.update ?k t ?xs)) \<and> t \<le> t'"
    by (intro exI [of _ t]) (simp add: user_subs_ttl_def)
  then show ?case by (simp add: cache_run_def touch_user_sub_def viewed_since_def Let_def)
next
  case (snoc e es2)
  have "viewed_since t (book_key (lower ex) (upper s)) (sy_shared (cache_run (es1 @ Viewed t ex s # es2)))"
    by (rule snoc.IH) (use snoc.prems in simp)
  moreover have "in_time t e" using snoc.prems by simp
  ultimately have "viewed_since t (book_key (lower ex) (upper s)) (sy_shared (cache_step (cache_run (es1 @ Viewed t ex s # es2)) e))"
    by (rule viewed_step)
  then show ?case by (simp add: cache_run_def)
qed

text \<open>An entry of a dictionary of lists, and that it stays while others are added.\<close>

definition listed :: "string \<Rightarrow> string \<Rightarrow> (string \<times> string list) list \<Rightarrow> bool" where
  "listed ex s out \<longleftrightarrow> (\<exists>ss. map_of out ex = Some ss \<and> s \<in> set ss)"

lemma listed_add_to: "listed ex s out \<or> (ex, s) = (x, k) \<Longrightarrow> listed ex s (add_to x k out)"
  by (cases "map_of out x") (auto simp: listed_def add_to_def update_conv')

lemma listed_add_ws: "listed ex s (hb_ws h) \<or> (ex, s) = (x, k) \<Longrightarrow> listed ex s (hb_ws (add_ws x k h))"
  by (cases "map_of (hb_ws h) x") (auto simp: listed_def add_ws_def update_conv' Let_def)

lemma foldl_member:
  assumes "\<And>a x. P a \<Longrightarrow> P (f a x)" "x \<in> set xs" "\<And>a. P (f a x)"
  shows "P (foldl f a xs)"
  using assms(2)
proof (induction xs rule: rev_induct)
  case (snoc y xs)
  then show ?case using assms(1,3) by (cases "y = x") auto
qed simp

lemma foldl_keeps: "(\<And>a x. P a \<Longrightarrow> P (f a x)) \<Longrightarrow> P a \<Longrightarrow> P (foldl f a xs)"
  by (induction xs arbitrary: a) auto

lemma user_sub_read:
  assumes "sd_user_subs sh = Some xs" "(book_key ex s, t) \<in> set xs" "now - user_subs_ttl \<le> t"
    and "CHR '':'' \<notin> set ex" "ex \<noteq> []" "s \<noteq> []"
  shows "listed ex s (read_user_subs now sh)"
proof -
  have key: "key_parts (book_key ex s) = (ex, s)"
    using split_first_append [OF assms(4), of s] split_rest_append [OF assms(4), of s] by (simp add: key_parts_def book_key_def)
  show ?thesis
    unfolding read_user_subs_def assms(1) option.case
    by (rule foldl_member [OF _ assms(2)]) (use assms(3-6) key in \<open>auto intro!: listed_add_to split: prod.splits\<close>)
qed

definition add_either :: "string \<Rightarrow> hot_subs \<Rightarrow> string \<Rightarrow> hot_subs" where
  "add_either ex h s = (if is_ws_supported ex then add_ws ex s h else add_rest ex s h)"

lemma add_either_listed:
  "listed ex s (hb_ws h) \<Longrightarrow> listed ex s (hb_ws (add_either x h k))"
  "is_ws_supported ex \<Longrightarrow> listed ex s (hb_ws (add_either ex h s))"
  by (auto simp: add_either_def add_rest_def intro: listed_add_ws)

lemma requests_keep:
  assumes "is_ws_supported ex" "listed ex s users"
  shows "listed ex s (hb_ws (hot_from_requests pending users h))"
proof -
  let ?P = "\<lambda>h :: hot_subs. listed ex s (hb_ws h)"
  obtain ss where ss: "(ex, ss) \<in> set users" "s \<in> set ss" using assms(2) by (auto simp: listed_def dest: map_of_SomeD)
  have here: "?P (foldl (add_either ex) h ss)" for h
    by (rule foldl_member [where P = ?P and x = s and f = "add_either ex"])
      (use ss(2) assms(1) in \<open>simp_all add: add_either_listed\<close>)
  have row: "?P h \<Longrightarrow> ?P (foldl (add_either x) h ks)" for x h ks
    by (rule foldl_keeps [where P = ?P]) (simp_all add: add_either_listed(1))
  have "?P (foldl (\<lambda>h (ex, ss). foldl (add_either ex) h ss) h users)" for h
    by (rule foldl_member [where P = ?P and x = "(ex, ss)"]) (use row here ss(1) in \<open>auto split: prod.splits\<close>)
  then show ?thesis by (simp add: hot_from_requests_def Let_def add_either_def [abs_def])
qed

lemma supported_names: "is_ws_supported ex \<Longrightarrow> CHR '':'' \<notin> set (lower ex) \<and> lower ex \<noteq> []"
  by (auto simp: is_ws_supported_def ws_names_def)

lemma hotlist_calls:
  assumes "hotlist_tick now sc x (n, p, sh) = (calls, n', p', sh')"
  shows "\<exists>pending sh1. drain_pending_subs sh = (pending, sh1) \<and>
    calls = map (\<lambda>(ex, ss). if (n + 1) mod prune_every = 0 then Set_Symbols ex ss else Subscribe ex ss)
        (hb_ws (hot_subs_of sc x pending (read_user_subs now sh1))) @
      map (\<lambda>(ex, ss). Subscribe ex ss) (filter (\<lambda>(ex, ss). is_ws_supported ex \<and> ss \<noteq> []) pending)"
proof -
  obtain pending sh1 where d: "drain_pending_subs sh = (pending, sh1)" by fastforce
  then show ?thesis using assms by (auto simp: hotlist_tick_def Let_def)
qed

text \<open>A pair viewed at most twenty minutes ago is on the hot list of every round.\<close>

lemma viewed_pair_listed:
  assumes "is_ws_supported ex" "s \<noteq> []" "list_all (in_time t) es2" "now - user_subs_ttl \<le> t"
    and "drain_pending_subs (sy_shared (cache_run (es1 @ Viewed t ex s # es2))) = (pending, sh1)"
  shows "listed (lower ex) (upper s) (hb_ws (hot_subs_of sc x pending (read_user_subs now sh1)))"
proof -
  let ?sh = "sy_shared (cache_run (es1 @ Viewed t ex s # es2))"
  obtain xs t' where xs: "sd_user_subs ?sh = Some xs" "(book_key (lower ex) (upper s), t') \<in> set xs" "t \<le> t'"
    using viewed_run [OF assms(3)] unfolding viewed_since_def by blast
  have sh1: "sd_user_subs sh1 = Some xs" using user_subs_kept(4) [of ?sh] assms(5) xs(1) by simp
  have "upper s \<noteq> []" using assms(2) by (simp add: upper_def)
  then have "listed (lower ex) (upper s) (read_user_subs now sh1)"
    using user_sub_read [OF sh1 xs(2)] supported_names [OF assms(1)] xs(3) assms(4) by simp
  then show ?thesis
    unfolding hot_subs_of_def by (rule requests_keep [rotated]) (use assms(1) in \<open>simp add: is_ws_supported_def lower_idem\<close>)
qed

section \<open>Names of venues\<close>

text \<open>All entries of the hot list are under names in lower case, each once.\<close>

definition lower_keys :: "(string \<times> 'a) list \<Rightarrow> bool" where
  "lower_keys xs \<longleftrightarrow> distinct (map fst xs) \<and> (\<forall>k\<in>fst ` set xs. lower k = k)"

definition lower_input :: "hot_input \<Rightarrow> bool" where
  "lower_input x \<longleftrightarrow> (\<forall>q\<in>set (hi_opps x). \<forall>ex\<in>set (ho_venues q). lower ex = ex) \<and> (\<forall>r\<in>set (hi_rows x). lower (hr_exchange r) = hr_exchange r)"

lemma lower_keys_update: "lower_keys xs \<Longrightarrow> lower k = k \<Longrightarrow> lower_keys (AList.update k v xs)"
  using set_update [of k v xs] by (fastforce simp: lower_keys_def distinct_update)

lemma lower_add_to: "lower_keys xs \<Longrightarrow> lower k = k \<Longrightarrow> lower_keys (add_to k s xs)"
  by (simp add: add_to_def lower_keys_update)

lemma lower_add_ws: "lower_keys (hb_ws h) \<Longrightarrow> lower k = k \<Longrightarrow> lower_keys (hb_ws (add_ws k s h))"
  by (simp add: add_ws_def Let_def lower_keys_update)

lemma lower_add_rest [simp]: "hb_ws (add_rest k s h) = hb_ws h"
  by (simp add: add_rest_def)

lemma lower_add_venue: "lower_keys (hb_ws h) \<Longrightarrow> lower k = k \<Longrightarrow> lower_keys (hb_ws (add_venue sc s h k))"
  by (simp add: add_venue_def lower_add_ws)

lemma foldl_keeps_on: "(\<And>a x. P a \<Longrightarrow> x \<in> set xs \<Longrightarrow> P (f a x)) \<Longrightarrow> P a \<Longrightarrow> P (foldl f a xs)"
  by (induction xs arbitrary: a) auto

lemma lower_add_venues: "lower_keys (hb_ws h) \<Longrightarrow> \<forall>k\<in>set ks. lower k = k \<Longrightarrow> lower_keys (hb_ws (foldl (add_venue sc s) h ks))"
  by (rule foldl_keeps_on [where P = "\<lambda>h. lower_keys (hb_ws h)"]) (simp_all add: lower_add_venue)

lemma lower_from_opps:
  assumes "lower_keys (hb_ws h)" "\<forall>q\<in>set opps. \<forall>ex\<in>set (ho_venues q). lower ex = ex"
  shows "lower_keys (hb_ws (hot_from_opps sc opps h))"
  unfolding hot_from_opps_def
  by (rule foldl_keeps_on [where P = "\<lambda>h. lower_keys (hb_ws h)", OF lower_add_venues assms(1)])
    (use assms(2) in \<open>auto dest!: in_set_takeD\<close>)

lemma lower_from_rows:
  assumes "lower_keys (hb_ws h)" "\<forall>r\<in>set rows. lower (hr_exchange r) = hr_exchange r"
  shows "lower_keys (hb_ws (hot_from_rows sc rows h))"
  unfolding hot_from_rows_def Let_def
  by (rule foldl_keeps_on [where P = "\<lambda>h. lower_keys (hb_ws h)", OF _ assms(1)])
    (use assms(2) in \<open>auto dest!: in_set_takeD intro!: lower_add_venues split: prod.splits\<close>)

lemma lower_spot: "lower (lower x @ ''_spot'') = lower x @ ''_spot''"
  by (simp add: lower_def) code_simp

lemma lower_from_spots:
  assumes "lower_keys (hb_ws h)"
  shows "lower_keys (hb_ws (hot_from_spots sc spots h))"
  unfolding hot_from_spots_def
  by (rule foldl_keeps [where P = "\<lambda>h. lower_keys (hb_ws h)", OF _ assms])
    (simp add: Let_def lower_add_ws lower_spot lower_idem)

lemma lower_from_requests:
  assumes "lower_keys (hb_ws h)" "\<forall>k\<in>fst ` set users. lower k = k"
  shows "lower_keys (hb_ws (hot_from_requests pending users h))"
proof -
  let ?P = "\<lambda>h :: hot_subs. lower_keys (hb_ws h)"
  have rest: "?P (foldl (\<lambda>h (ex, ss). if is_ws_supported ex then h else foldl (\<lambda>h s. add_rest ex s h) h ss) h pending)"
    by (rule foldl_keeps [where P = ?P, OF _ assms(1)]) (auto split: prod.splits intro: foldl_keeps [where P = ?P])
  have row: "?P h \<Longrightarrow> lower ex = ex \<Longrightarrow> ?P (foldl (add_either ex) h ss)" for h ex ss
    by (rule foldl_keeps [where P = ?P]) (simp_all add: add_either_def lower_add_ws)
  have "?P (foldl (\<lambda>h (ex, ss). foldl (add_either ex) h ss) h0 users)" if "?P h0" for h0
    by (rule foldl_keeps_on [where P = ?P, OF _ that]) (use assms(2) in \<open>auto intro!: row split: prod.splits\<close>)
  then show ?thesis using rest by (simp add: hot_from_requests_def Let_def add_either_def [abs_def])
qed

lemma lower_hot_subs:
  assumes "lower_input x" "\<forall>k\<in>fst ` set users. lower k = k"
  shows "lower_keys (hb_ws (hot_subs_of sc x pending users))"
proof -
  have "lower_keys (hb_ws (hot_from_opps sc (hi_opps x) \<lparr>hb_ws = [], hb_rest = []\<rparr>))"
    by (rule lower_from_opps) (use assms(1) in \<open>auto simp: lower_keys_def lower_input_def\<close>)
  then have "lower_keys (hb_ws (hot_from_rows sc (hi_rows x) (hot_from_opps sc (hi_opps x) \<lparr>hb_ws = [], hb_rest = []\<rparr>)))"
    by (rule lower_from_rows) (use assms(1) in \<open>auto simp: lower_input_def\<close>)
  then show ?thesis unfolding hot_subs_of_def by (intro lower_from_requests lower_from_spots assms(2))
qed

lemma lower_takeWhile: "lower s = s \<Longrightarrow> lower (takeWhile P s) = takeWhile P s"
  by (induction s) (auto simp: lower_def)

definition lower_viewed :: "shared \<Rightarrow> bool" where
  "lower_viewed sh \<longleftrightarrow> (\<forall>xs. sd_user_subs sh = Some xs \<longrightarrow> (\<forall>k\<in>fst ` set xs. lower (fst (key_parts k)) = fst (key_parts k)))"

lemma lower_book_key: "lower (fst (key_parts (book_key (lower ex) s))) = fst (key_parts (book_key (lower ex) s))"
proof (cases "CHR '':'' \<in> set (lower ex)")
  case True
  then have "fst (key_parts (book_key (lower ex) s)) = takeWhile (\<lambda>x. x \<noteq> CHR '':'') (lower ex)"
    by (simp add: key_parts_def book_key_def split_first_def takeWhile_append1)
  then show ?thesis using lower_takeWhile [OF lower_idem] by simp
next
  case False
  then show ?thesis using split_first_append [OF False, of s] by (simp add: key_parts_def book_key_def lower_idem)
qed

lemma lower_viewed_step: "lower_viewed (sy_shared y) \<Longrightarrow> lower_viewed (sy_shared (cache_step y e))"
proof (cases "is_view e")
  case True
  assume inv: "lower_viewed (sy_shared y)"
  from True obtain u ex s where e: "e = Viewed u ex s" by (cases e) auto
  let ?xs = "case sd_user_subs (sy_shared y) of None \<Rightarrow> [] | Some xs \<Rightarrow> xs"
  have "\<forall>k\<in>fst ` set ?xs. lower (fst (key_parts k)) = fst (key_parts k)"
    using inv by (cases "sd_user_subs (sy_shared y)") (simp_all add: lower_viewed_def)
  then have "\<forall>k\<in>fst ` set (AList.update (book_key (lower ex) (upper s)) u ?xs). lower (fst (key_parts k)) = fst (key_parts k)"
    using set_update [of "book_key (lower ex) (upper s)" u ?xs] lower_book_key [of ex "upper s"] by fastforce
  then show ?thesis by (auto simp: e viewed_subs lower_viewed_def)
qed (simp add: lower_viewed_def other_steps_keep_subs)

lemma lower_viewed_run: "lower_viewed (sy_shared (cache_run es))"
  unfolding cache_run_def
  by (rule foldl_keeps [where P = "\<lambda>y. lower_viewed (sy_shared y)", OF lower_viewed_step])
    (simp_all add: fresh_system_def fresh_shared_def lower_viewed_def)

lemma lower_user_subs:
  assumes "lower_viewed sh"
  shows "\<forall>k\<in>fst ` set (read_user_subs now sh). lower k = k"
proof -
  let ?P = "\<lambda>out :: (string \<times> string list) list. \<forall>k\<in>fst ` set out. lower k = k"
  have add: "?P (add_to ex s out)" if "?P out" "lower ex = ex" for out ex s
  proof
    fix k assume "k \<in> fst ` set (add_to ex s out)"
    then have "k = ex \<or> k \<in> fst ` set out" by (simp add: add_to_def dom_update insert_iff)
    then show "lower k = k" using that by blast
  qed
  have "?P (foldl (\<lambda>out (key, ts). if ts < now - user_subs_ttl then out
       else (case key_parts key of (ex, s) \<Rightarrow> if ex = [] \<or> s = [] then out else add_to ex s out)) [] xs)"
    if "\<forall>k\<in>fst ` set xs. lower (fst (key_parts k)) = fst (key_parts k)" for xs
  proof (rule foldl_keeps_on [where P = ?P])
    fix out and x :: "string \<times> rat"
    assume out: "?P out" and x: "x \<in> set xs"
    obtain k u where k: "x = (k, u)" by (cases x)
    obtain ex s where p: "key_parts k = (ex, s)" by fastforce
    have "k \<in> fst ` set xs" using x k by force
    then have "lower ex = ex" using that p by fastforce
    then show "?P (case x of (key, ts) \<Rightarrow> if ts < now - user_subs_ttl then out
        else (case key_parts key of (ex, s) \<Rightarrow> if ex = [] \<or> s = [] then out else add_to ex s out))"
      using add [OF out] out by (simp add: k p)
  qed simp
  then show ?thesis using assms by (cases "sd_user_subs sh") (simp_all add: read_user_subs_def lower_viewed_def)
qed

section \<open>The poller\<close>

text \<open>
  Where the poller differs from its comments: a fetch that fails ends it, whatever the pause meant for
  failures, and no fetch is ever called empty.
\<close>

lemma failed_fetch_ends_poller:
  assumes "entry_of_key p key = Some e" "e \<noteq> empty_entry" "now - or_zero (ce_last e) \<le> idle_timeout"
    and "or_zero (ce_ts e) = 0" "\<not> cb_is_open now (rs_breakers (pc_rest p) ex)"
    and "fetch_direct_raw (monotonic c) http (rs_lighter (pc_rest p)) ex s limit = (Inl err, ids)"
  shows "fst (poll_once c now http key ex s limit (st, p)) = Crashed"
  using assms by (simp add: poll_once_def fetch_direct_with_status_def)

lemma fetch_never_empty: "fst (fetch_direct_with_status c now http r ex s limit) \<noteq> Inr (F_Empty, d, err)"
  by (auto simp: fetch_direct_with_status_def split: sum.splits prod.splits)

end
