(* ===== verification/Session_Safety.thy ===== *)
theory Session_Safety
  imports Stream_Sessions Book_Demand
begin

text \<open>
  What the sessions of the streams promise: on a live connection everything wanted is subscribed or
  about to be, caps and pauses are bounded, and what a viewer looks at reaches the session of its venue.
\<close>

section \<open>Steps of a session\<close>

text \<open>
  One step: a call of the manager, a scheduled task, or what happens to the connection. The symbols of a
  frame are built by \<open>build\<close>; the error and the random part of a pause are arbitrary.
\<close>

inductive session_step :: "nat option \<Rightarrow> (string list \<Rightarrow> json list) \<Rightarrow> session \<Rightarrow> session \<Rightarrow> bool"
  for cap :: "nat option" and build :: "string list \<Rightarrow> json list" where
  Start: "\<not> se_running s \<Longrightarrow> session_step cap build s (snd (start_session cap symbols s))"
| Stop: "session_step cap build s (stop_session s)"
| Add: "session_step cap build s (add_symbols cap symbols s)"
| Set: "session_step cap build s (set_symbols cap symbols s)"
| Task: "se_tasks s = xs @ t # ys \<Longrightarrow> session_step cap build s (snd (send_subscribe build t (s\<lparr>se_tasks := xs @ ys\<rparr>)))"
| Open: "se_running s \<Longrightarrow> \<not> se_alive s \<Longrightarrow> session_step cap build s (opened s)"
| Frame: "se_alive s \<Longrightarrow> session_step cap build s (data_frame s)"
| Lost: "session_step cap build s (s\<lparr>se_alive := False\<rparr>)"
| Silent: "session_step cap build s (stale_watchdog now last_msg s)"
| Failed: "se_running s \<Longrightarrow> 0 \<le> jitter \<Longrightarrow> session_step cap build s (snd (failed msg jitter s))"
| Ended: "se_running s \<Longrightarrow> session_step cap build s (ended s)"

inductive_cases session_stepE: "session_step cap build s s'"

abbreviation session_reaches :: "nat option \<Rightarrow> (string list \<Rightarrow> json list) \<Rightarrow> session \<Rightarrow> session \<Rightarrow> bool" where
  "session_reaches cap build \<equiv> rtranclp (session_step cap build)"

section \<open>The invariant\<close>

definition promised :: "string set option list \<Rightarrow> string set \<Rightarrow> bool" where
  "promised ts missing \<longleftrightarrow> None \<in> set ts \<or> Some {} \<in> set ts \<or> (\<forall>x\<in>missing. \<exists>new. Some new \<in> set ts \<and> x \<in> new)"

definition within_cap :: "nat option \<Rightarrow> string set \<Rightarrow> bool" where
  "within_cap cap w \<longleftrightarrow> finite w \<and> (case cap of Some n \<Rightarrow> n \<noteq> 0 \<longrightarrow> card w \<le> n | None \<Rightarrow> True)"

definition pauses_ok :: "session \<Rightarrow> bool" where
  "pauses_ok s \<longleftrightarrow> 3 / 10 \<le> se_backoff s \<and> se_backoff s \<le> 8 \<and> 30 \<le> se_policy s \<and> se_policy s \<le> 600"

definition covered :: "session \<Rightarrow> bool" where
  "covered s \<longleftrightarrow> (se_alive s \<longrightarrow> se_running s \<and> se_ws s \<and> se_subscribed s = se_sent s \<and> promised (se_tasks s) (se_wanted s - se_sent s))"

definition session_inv :: "nat option \<Rightarrow> session \<Rightarrow> bool" where
  "session_inv cap s \<longleftrightarrow> within_cap cap (se_wanted s) \<and> pauses_ok s \<and> covered s"

lemma apply_cap_subset: "finite s \<Longrightarrow> apply_cap cap s \<subseteq> s"
  by (auto simp: apply_cap_def split: option.splits dest: in_set_takeD)

lemma apply_cap_ok [simp]: "finite s \<Longrightarrow> within_cap cap (apply_cap cap s)"
proof -
  have "card (set (take n (sorted_list_of_set s))) \<le> n" for n
    using card_length [of "take n (sorted_list_of_set s)"] by simp
  then show "finite s \<Longrightarrow> ?thesis" by (auto simp: within_cap_def apply_cap_def split: option.splits)
qed

lemma finite_upper_all [simp]: "finite (upper_all xs)"
  by (simp add: upper_all_def)

lemma new_session_inv: "session_inv cap new_session"
  by (simp add: session_inv_def new_session_def within_cap_def pauses_ok_def covered_def split: option.splits)

lemma promised_more: "promised ts m \<Longrightarrow> m' \<subseteq> m \<union> new \<Longrightarrow> promised (ts @ [Some new]) m'"
proof (unfold promised_def, elim disjE)
  assume m: "\<forall>x\<in>m. \<exists>n. Some n \<in> set ts \<and> x \<in> n" and "m' \<subseteq> m \<union> new"
  have "\<exists>n. Some n \<in> set (ts @ [Some new]) \<and> x \<in> n" if "x \<in> m'" for x
    using that \<open>m' \<subseteq> m \<union> new\<close> m by (cases "x \<in> m") auto
  then show "None \<in> set (ts @ [Some new]) \<or> Some {} \<in> set (ts @ [Some new]) \<or>
      (\<forall>x\<in>m'. \<exists>n. Some n \<in> set (ts @ [Some new]) \<and> x \<in> n)"
    by blast
qed simp_all

lemma promised_less: "promised ts m \<Longrightarrow> m' \<subseteq> m \<Longrightarrow> promised ts m'"
  by (auto simp: promised_def)

lemma add_inv: "session_inv cap s \<Longrightarrow> session_inv cap (add_symbols cap syms s)"
proof -
  assume inv: "session_inv cap s"
  define capped where "capped = apply_cap cap (se_wanted s \<union> upper_all syms)"
  have fin: "finite (se_wanted s)" using inv by (simp add: session_inv_def within_cap_def)
  then have cap: "within_cap cap capped" by (simp add: capped_def)
  have "promised (se_tasks s) (se_wanted s - se_sent s) \<Longrightarrow>
      promised (se_tasks s @ [Some (capped - se_wanted s)]) (capped - se_sent s)"
    by (erule promised_more) blast
  then show ?thesis
    using inv cap by (auto simp: add_symbols_def capped_def [symmetric] Let_def session_inv_def pauses_ok_def covered_def)
qed

lemma set_inv: "session_inv cap s \<Longrightarrow> session_inv cap (set_symbols cap syms s)"
proof -
  assume inv: "session_inv cap s"
  define desired where "desired = apply_cap cap (upper_all syms)"
  have cap: "within_cap cap desired" by (simp add: desired_def)
  have more: "promised (se_tasks s) (se_wanted s - se_sent s) \<Longrightarrow>
      promised (se_tasks s @ [Some (desired - se_wanted s)]) (desired - se_sent s)"
    by (erule promised_more) blast
  show ?thesis
  proof (cases "se_wanted s - desired = {} \<or> \<not> se_ws s")
    case True
    then show ?thesis
      using inv cap more by (auto simp: set_symbols_def desired_def [symmetric] Let_def session_inv_def pauses_ok_def covered_def)
  next
    case False
    then show ?thesis
      using inv cap by (auto simp: set_symbols_def desired_def [symmetric] Let_def session_inv_def pauses_ok_def covered_def)
  qed
qed

lemma task_covered:
  assumes "covered s" "se_tasks s = xs @ t # ys"
  shows "covered (snd (send_subscribe build t (s\<lparr>se_tasks := xs @ ys\<rparr>)))"
proof (cases "se_alive s")
  case True
  then have c: "se_running s" "se_ws s" "se_subscribed s = se_sent s" "promised (xs @ t # ys) (se_wanted s - se_sent s)"
    using assms by (simp_all add: covered_def)
  consider (all) "t = None \<or> t = Some {}" | (new) x where "t = Some x" "x \<noteq> {}" by (cases t) auto
  then show ?thesis
  proof cases
    case all
    then show ?thesis using True c by (auto simp: send_subscribe_def Let_def covered_def promised_def)
  next
    case (new x)
    have "promised (xs @ ys) (se_wanted s - (se_sent s \<union> x))" using c(4) new by (auto simp: promised_def)
    then show ?thesis using True c new by (simp add: send_subscribe_def Let_def covered_def)
  qed
next
  case False
  then show ?thesis by (simp add: send_subscribe_def Let_def covered_def)
qed

lemma task_fields:
  "se_wanted (snd (send_subscribe build t s)) = se_wanted s"
  "se_backoff (snd (send_subscribe build t s)) = se_backoff s"
  "se_policy (snd (send_subscribe build t s)) = se_policy s"
  by (simp_all add: send_subscribe_def Let_def)

lemma session_step_inv:
  assumes "session_step cap build s s'" "session_inv cap s"
  shows "session_inv cap s'"
  using assms(1)
proof cases
  case (Start symbols)
  then show ?thesis using assms(2) by (auto simp: start_session_def Let_def session_inv_def pauses_ok_def covered_def)
next
  case (Task xs t ys)
  then show ?thesis using assms(2) task_covered [of s xs t ys build]
    by (simp add: session_inv_def pauses_ok_def task_fields)
next
  case (Failed jitter msg)
  then show ?thesis using assms(2)
    by (auto simp: failed_def Let_def session_inv_def pauses_ok_def covered_def min_def)
qed (use assms(2) add_inv set_inv in \<open>auto simp: stop_session_def opened_def data_frame_def stale_watchdog_def ended_def Let_def
  session_inv_def pauses_ok_def covered_def promised_def\<close>)

lemma session_reaches_inv: "session_reaches cap build new_session s \<Longrightarrow> session_inv cap s"
  by (induction rule: rtranclp_induct) (auto intro: new_session_inv session_step_inv)

text \<open>The scheduled tasks run one after the other on a live connection.\<close>

definition run_tasks :: "(string list \<Rightarrow> json list) \<Rightarrow> string set option list \<Rightarrow> session \<Rightarrow> session" where
  "run_tasks build ts s = foldl (\<lambda>s t. snd (send_subscribe build t s)) s ts"

lemma task_sends:
  assumes "se_alive s" "se_ws s" "se_subscribed s = se_sent s"
  shows "se_alive (snd (send_subscribe build t s)) \<and> se_ws (snd (send_subscribe build t s)) \<and>
    se_subscribed (snd (send_subscribe build t s)) = se_sent (snd (send_subscribe build t s)) \<and>
    se_sent s \<subseteq> se_sent (snd (send_subscribe build t s)) \<and>
    (case t of Some x \<Rightarrow> if x = {} then se_wanted s \<subseteq> se_sent (snd (send_subscribe build t s))
       else x \<subseteq> se_sent (snd (send_subscribe build t s)) | None \<Rightarrow> se_wanted s \<subseteq> se_sent (snd (send_subscribe build t s)))"
  using assms by (auto simp: send_subscribe_def Let_def split: option.splits)

lemma run_tasks_send:
  assumes "se_alive s" "se_ws s" "se_subscribed s = se_sent s"
  shows "se_sent s \<subseteq> se_sent (run_tasks build ts s) \<and>
    (None \<in> set ts \<or> Some {} \<in> set ts \<longrightarrow> se_wanted s \<subseteq> se_sent (run_tasks build ts s)) \<and>
    (\<forall>x. Some x \<in> set ts \<longrightarrow> x \<subseteq> se_sent (run_tasks build ts s))"
  using assms
proof (induction ts arbitrary: s)
  case (Cons t ts)
  let ?s = "snd (send_subscribe build t s)"
  note sent = task_sends [OF Cons.prems, of build t]
  have run: "run_tasks build (t # ts) s = run_tasks build ts ?s" by (simp add: run_tasks_def)
  have IH: "se_sent ?s \<subseteq> se_sent (run_tasks build ts ?s)"
      "None \<in> set ts \<or> Some {} \<in> set ts \<Longrightarrow> se_wanted s \<subseteq> se_sent (run_tasks build ts ?s)"
      "\<And>x. Some x \<in> set ts \<Longrightarrow> x \<subseteq> se_sent (run_tasks build ts ?s)"
    using Cons.IH [of ?s] sent by (simp_all add: task_fields)
  have "se_sent s \<subseteq> se_sent (run_tasks build ts ?s)" using sent IH(1) by blast
  moreover have "se_wanted s \<subseteq> se_sent (run_tasks build ts ?s)" if "None \<in> set (t # ts) \<or> Some {} \<in> set (t # ts)"
    using that IH(1,2) sent by (auto split: option.splits if_splits)
  moreover have "x \<subseteq> se_sent (run_tasks build ts ?s)" if "Some x \<in> set (t # ts)" for x
  proof (cases "t = Some x")
    case True
    then have "x \<subseteq> se_sent ?s" using sent by (cases "x = {}") simp_all
    then show ?thesis using IH(1) by blast
  qed (use that IH(3) in auto)
  ultimately show ?case unfolding run by blast
qed (simp add: run_tasks_def)


text \<open>A session of a capped venue that is opened with one symbol, and then told to add another.\<close>

definition sample_session :: session where
  "sample_session = add_symbols (Some 1) [''a''] (snd (send_subscribe (\<lambda>_. []) None ((opened (start_new ''okx'' [''b'']))\<lparr>se_tasks := []\<rparr>)))"

lemma sample_session_reached: "session_reaches (Some 1) (\<lambda>_. []) new_session sample_session"
proof -
  let ?step = "session_step (Some 1) (\<lambda>_. [])"
  have "?step new_session (snd (start_session (Some 1) [''b''] new_session))"
    by (rule session_step.Start) (simp add: new_session_def)
  moreover have same: "snd (start_session (Some 1) [''b''] new_session) = start_new ''okx'' [''b'']" by code_simp
  ultimately have 1: "?step new_session (start_new ''okx'' [''b''])" by simp
  have 2: "?step (start_new ''okx'' [''b'']) (opened (start_new ''okx'' [''b'']))"
    by (rule session_step.Open) code_simp+
  have "se_tasks (opened (start_new ''okx'' [''b''])) = [] @ None # []" by code_simp
  from session_step.Task [OF this, of "Some 1" "\<lambda>_. []"]
  have 3: "?step (opened (start_new ''okx'' [''b'']))
      (snd (send_subscribe (\<lambda>_. []) None ((opened (start_new ''okx'' [''b'']))\<lparr>se_tasks := []\<rparr>)))" by simp
  have 4: "?step (snd (send_subscribe (\<lambda>_. []) None ((opened (start_new ''okx'' [''b'']))\<lparr>se_tasks := []\<rparr>))) sample_session"
    unfolding sample_session_def by (rule session_step.Add)
  show ?thesis
    by (rule converse_rtranclp_into_rtranclp [where r = ?step], rule 1, rule converse_rtranclp_into_rtranclp [where r = ?step],
      rule 2, rule converse_rtranclp_into_rtranclp [where r = ?step], rule 3, rule r_into_rtranclp [where r = ?step], rule 4)
qed

lemma sample_session_fields: "se_alive sample_session" "se_tasks sample_session = [Some {''A''}]"
  "se_wanted sample_session = {''A''}"
  by code_simp+


text \<open>
  The cap is one on what is wanted: the symbol that gives way stays subscribed, and the connection
  carries more than the cap.
\<close>

lemma cap_exceeded_on_connection: "se_sent (run_tasks (\<lambda>_. []) [Some {''A''}] sample_session) = {''A'', ''B''}"
  by code_simp

lemma start_running_raises: "se_running s \<Longrightarrow> fst (start_session cap symbols s) = Inl Attribute_Error"
  by (simp add: start_session_def Let_def)

section \<open>From a viewer to a session\<close>

definition wants :: "sessions \<Rightarrow> string \<Rightarrow> string \<Rightarrow> bool" where
  "wants m ex token \<longleftrightarrow> (\<exists>s. m ex = Some s \<and> token \<in> se_wanted s)"

fun call_venue :: "manager_call \<Rightarrow> string" where
  "call_venue (Subscribe ex ss) = lower ex"
| "call_venue (Set_Symbols ex ss) = lower ex"

fun call_symbols :: "manager_call \<Rightarrow> string list" where
  "call_symbols (Subscribe ex ss) = ss"
| "call_symbols (Set_Symbols ex ss) = ss"

lemma uncapped [simp]: "apply_cap None w = w"
  by (simp add: apply_cap_def)

lemma add_wanted: "se_wanted (add_symbols None ss s) = se_wanted s \<union> upper_all ss"
  by (auto simp: add_symbols_def Let_def)

lemma set_wanted: "se_wanted (set_symbols None ss s) = upper_all ss"
  by (auto simp: set_symbols_def Let_def)

lemma start_wanted: "max_symbols ex = None \<Longrightarrow> se_wanted (start_new ex ss) = upper_all ss"
  by (simp add: start_new_def start_session_def Let_def new_session_def)

lemma call_wanted:
  assumes "call_venue call = ex" "ex \<in> set ws_names" "max_symbols ex = None" "token \<in> set (call_symbols call)" "upper token = token"
  shows "wants (manager_do m call) ex token"
proof -
  have "token \<in> upper_all (call_symbols call)" using assms(4,5) by (force simp: upper_all_def)
  then show ?thesis
    using assms by (cases call) (auto simp: manager_do_def Let_def wants_def add_wanted set_wanted start_wanted split: option.splits)
qed

lemma call_keeps:
  assumes "wants m ex token" "max_symbols ex = None" "call_venue call \<noteq> ex \<or> (\<exists>e ss. call = Subscribe e ss)"
  shows "wants (manager_do m call) ex token"
  using assms by (cases call) (auto simp: manager_do_def Let_def wants_def add_wanted split: option.splits)

lemma calls_keep:
  assumes "wants m ex token" "max_symbols ex = None" "\<forall>call\<in>set calls. call_venue call \<noteq> ex \<or> (\<exists>e ss. call = Subscribe e ss)"
  shows "wants (foldl manager_do m calls) ex token"
  by (rule foldl_keeps_on [where P = "\<lambda>m. wants m ex token", OF _ assms(1)]) (use assms(2,3) in \<open>auto intro: call_keeps\<close>)


text \<open>A pair viewed at 100 and looked at by another process; the thirtieth round, at 900, replaces the symbols.\<close>

definition no_hot_input :: hot_input where
  "no_hot_input = \<lparr>hi_opps = [], hi_rows = [], hi_spots = []\<rparr>"

lemma sample_round:
  "fst (hotlist_tick 900 \<lparr>sc_only = None, sc_owned = []\<rparr> no_hot_input
     (29, fresh_process, sy_shared (cache_run ([] @ Viewed 100 ''okx'' ''btc'' # [Looked 1 110 ''okx'' ''btc''])))) =
   [Set_Symbols ''okx'' [''BTC'']]"
  by code_simp


end
