(* ===== verification/Fills.thy ===== *)
theory Fills
  imports Trade_Store
begin

text \<open>
  The fills backfill, \<^verbatim>\<open>backend/services/fills_backfill_service.py\<close>: the fills of the venues are stored
  once each (\<open>trade_fills\<close>, \<open>fills_sync_cursor\<close>), and from them the closed legs that the profit and loss
  tab shows are put together again. The venues are a function of the environment.
\<close>

section \<open>Tables\<close>

record trade_fill =
  tf_user_id :: int
  tf_wallet_id :: "int option"
  tf_exchange :: string
  tf_market :: string
  tf_kind :: string
  tf_symbol :: string
  tf_side :: "string option"
  tf_qty :: rat
  tf_price :: rat
  tf_fee_usd :: "rat option"
  tf_realized_pnl_usd :: "rat option"
  tf_ts :: time
  tf_ext_trade_id :: string
  tf_ext_order_id :: "string option"

record sync_cursor =
  cu_user_id :: int
  cu_wallet_id :: int
  cu_exchange :: string
  cu_market :: string
  cu_last_ts :: "time option"
  cu_last_synced_at :: "time option"

record fills_db =
  fb_trading :: trading
  fb_fills :: "trade_fill list"
  fb_cursors :: "sync_cursor list"

definition backfill_days :: int where "backfill_days = 7"

definition markets :: "string list" where "markets = [''futures'', ''spot'']"

text \<open>A row as an adapter returns it: a time that is none, a missing identifier and missing numbers are possible.\<close>

record raw_fill =
  rf_ts :: "time option"
  rf_ext_trade_id :: "string option"
  rf_kind :: "string option"
  rf_symbol :: "string option"
  rf_side :: "string option"
  rf_qty :: "rat option"
  rf_price :: "rat option"
  rf_fee_usd :: "rat option"
  rf_realized_pnl_usd :: "rat option"
  rf_ext_order_id :: "string option"

text \<open>\<open>x or default\<close> of a text.\<close>

definition text_or :: "string option \<Rightarrow> string \<Rightarrow> string" where
  "text_or x d = (case x of Some t \<Rightarrow> if t = [] then d else t | None \<Rightarrow> d)"

definition non_empty :: "string option \<Rightarrow> string option" where
  "non_empty x = (case x of Some t \<Rightarrow> if t = [] then None else Some t | None \<Rightarrow> None)"

definition fill_of :: "int \<Rightarrow> wallet \<Rightarrow> string \<Rightarrow> raw_fill \<Rightarrow> trade_fill option" where
  "fill_of uid w market r =
     (case (rf_ts r, text_or (rf_ext_trade_id r) []) of
        (None, _) \<Rightarrow> None
      | (Some ts, ext) \<Rightarrow>
          if ext = [] then None
          else Some \<lparr>tf_user_id = uid, tf_wallet_id = Some (w_id w), tf_exchange = lower (strip (w_type_value w)), tf_market = market,
                 tf_kind = text_or (rf_kind r) ''trade'', tf_symbol = upper (text_or (rf_symbol r) []), tf_side = non_empty (rf_side r),
                 tf_qty = or_else (rf_qty r) 0, tf_price = or_else (rf_price r) 0, tf_fee_usd = rf_fee_usd r,
                 tf_realized_pnl_usd = rf_realized_pnl_usd r, tf_ts = ts, tf_ext_trade_id = ext,
                 tf_ext_order_id = non_empty (rf_ext_order_id r)\<rparr>)"

text \<open>The unique constraint of the table: a second fill under the same key is refused.\<close>

definition fill_key :: "trade_fill \<Rightarrow> int option \<times> string \<times> string \<times> string \<times> string" where
  "fill_key f = (tf_wallet_id f, tf_exchange f, tf_market f, tf_kind f, tf_ext_trade_id f)"

definition later_of_times :: "time option \<Rightarrow> time \<Rightarrow> time option" where
  "later_of_times m ts = (case m of None \<Rightarrow> Some ts | Some t \<Rightarrow> if t < ts then Some ts else m)"

definition insert_fill :: "int \<Rightarrow> wallet \<Rightarrow> string \<Rightarrow> nat \<times> time option \<times> trade_fill list \<Rightarrow> raw_fill \<Rightarrow> nat \<times> time option \<times> trade_fill list" where
  "insert_fill uid w market s r =
     (case s of (n, max_ts, fills) \<Rightarrow>
        (case fill_of uid w market r of
           None \<Rightarrow> s
         | Some f \<Rightarrow> if fill_key f \<in> fill_key ` set fills then s
                     else (n + 1, later_of_times max_ts (tf_ts f), fills @ [f])))"

section \<open>Synchronising a wallet\<close>

definition cursor_at :: "int \<Rightarrow> wallet \<Rightarrow> string \<Rightarrow> sync_cursor \<Rightarrow> bool" where
  "cursor_at uid w market cu \<longleftrightarrow>
     cu_user_id cu = uid \<and> cu_wallet_id cu = w_id w \<and> cu_exchange cu = lower (strip (w_type_value w)) \<and> cu_market cu = market"

text \<open>The cursor less a second, or a week ago.\<close>

definition since_ts :: "clock \<Rightarrow> int \<Rightarrow> wallet \<Rightarrow> string \<Rightarrow> fills_db \<Rightarrow> time" where
  "since_ts c uid w market db =
     (case find (cursor_at uid w market) (fb_cursors db) of
        Some cu \<Rightarrow> (case cu_last_ts cu of Some t \<Rightarrow> t - 1000000 | None \<Rightarrow> utcnow c - days_us backfill_days)
      | None \<Rightarrow> utcnow c - days_us backfill_days)"

definition put_cursor :: "clock \<Rightarrow> int \<Rightarrow> wallet \<Rightarrow> string \<Rightarrow> (sync_cursor \<Rightarrow> sync_cursor) \<Rightarrow> time \<Rightarrow> fills_db \<Rightarrow> fills_db" where
  "put_cursor c uid w market f first db =
     db\<lparr>fb_cursors :=
       (if find (cursor_at uid w market) (fb_cursors db) = None
        then fb_cursors db @ [\<lparr>cu_user_id = uid, cu_wallet_id = w_id w, cu_exchange = lower (strip (w_type_value w)),
               cu_market = market, cu_last_ts = Some first, cu_last_synced_at = Some (utcnow c)\<rparr>]
        else row_upd_where (cursor_at uid w market) (\<lambda>cu. (f cu)\<lparr>cu_last_synced_at := Some (utcnow c)\<rparr>) (fb_cursors db))\<rparr>"

definition touch_cursor :: "clock \<Rightarrow> int \<Rightarrow> wallet \<Rightarrow> string \<Rightarrow> time \<Rightarrow> fills_db \<Rightarrow> fills_db" where
  "touch_cursor c uid w market since db = put_cursor c uid w market id since db"

text \<open>What a venue answers: nothing (an error, a timeout, unreadable credentials), or rows.\<close>

type_synonym venue_fills = "wallet \<Rightarrow> string \<Rightarrow> time \<Rightarrow> raw_fill list option"

definition sync_one :: "venue_fills \<Rightarrow> clock \<Rightarrow> int \<Rightarrow> nat \<times> fills_db \<Rightarrow> wallet \<times> string \<Rightarrow> nat \<times> fills_db" where
  "sync_one venue c uid ndb t =
     (case (ndb, t) of ((n, db), w, market) \<Rightarrow>
        (let since = since_ts c uid w market db
         in case venue w market since of
              None \<Rightarrow> (n, db)
            | Some [] \<Rightarrow> (n, touch_cursor c uid w market since db)
            | Some rows \<Rightarrow>
                (case foldl (insert_fill uid w market) (0, None, fb_fills db) rows of
                   (k, max_ts, fills) \<Rightarrow>
                     (let db = db\<lparr>fb_fills := fills\<rparr>
                      in (n + k,
                          case max_ts of
                            None \<Rightarrow> db
                          | Some m \<Rightarrow> put_cursor c uid w market (\<lambda>cu. cu\<lparr>cu_last_ts := later_of_times (cu_last_ts cu) m\<rparr>) m db)))))"

section \<open>Putting positions together\<close>

text \<open>The position under way, of one wallet, venue, market and symbol. Long is positive.\<close>

record open_run =
  or_net :: rat
  or_vwap :: rat
  or_side :: int
  or_open_ts :: "time option"
  or_realized :: rat
  or_funding :: rat
  or_fees :: rat
  or_open_qty :: rat
  or_close_qty :: rat
  or_close_value :: rat

definition flat_run :: open_run where
  "flat_run = \<lparr>or_net = 0, or_vwap = 0, or_side = 0, or_open_ts = None, or_realized = 0, or_funding = 0, or_fees = 0,
     or_open_qty = 0, or_close_qty = 0, or_close_value = 0\<rparr>"

definition opened_run :: "rat \<Rightarrow> rat \<Rightarrow> rat \<Rightarrow> time \<Rightarrow> open_run" where
  "opened_run signed price fees ts =
     \<lparr>or_net = signed, or_vwap = price, or_side = (if 0 < signed then 1 else -1), or_open_ts = Some ts, or_realized = 0,
      or_funding = 0, or_fees = fees, or_open_qty = \<bar>signed\<bar>, or_close_qty = 0, or_close_value = 0\<rparr>"

definition signed_qty :: "trade_fill \<Rightarrow> rat" where
  "signed_qty f =
     (let sd = lower (text_or (tf_side f) [])
      in if sd = ''buy'' then tf_qty f else if sd = ''sell'' then - tf_qty f else 0)"

definition fee_of_fill :: "trade_fill \<Rightarrow> rat" where
  "fee_of_fill f = (case tf_fee_usd f of Some x \<Rightarrow> x | None \<Rightarrow> 0)"

text \<open>A fill against the position: part of it, or all, is closed.\<close>

definition reduced :: "trade_fill \<Rightarrow> open_run \<Rightarrow> open_run" where
  "reduced f s =
     (let signed = signed_qty f; qty = min \<bar>or_net s\<bar> \<bar>signed\<bar>;
          gain = (case tf_realized_pnl_usd f of
                    Some x \<Rightarrow> x
                  | None \<Rightarrow> (if 0 < or_side s then 1 else -1) * (tf_price f - or_vwap s) * qty)
      in s\<lparr>or_realized := or_realized s + gain, or_close_qty := or_close_qty s + qty,
           or_close_value := or_close_value s + tf_price f * qty, or_fees := or_fees s + fee_of_fill f,
           or_net := or_net s + signed\<rparr>)"

text \<open>
  One fill: the positions it closes (at most one, with the time and the price of its end), and the
  position after it.
\<close>

type_synonym closing = "open_run \<times> time \<times> rat"

definition fill_step :: "trade_fill \<Rightarrow> open_run \<Rightarrow> closing list \<times> open_run" where
  "fill_step f s =
     (if tf_kind f = ''funding''
      then ([], if or_open_ts s = None then s
                else s\<lparr>or_funding := or_funding s + (case tf_realized_pnl_usd f of Some x \<Rightarrow> x | None \<Rightarrow> 0)\<rparr>)
      else (let signed = signed_qty f; price = tf_price f; fee = fee_of_fill f; ts = tf_ts f
            in if signed = 0 then ([], s)
               else if or_net s = 0 then ([], opened_run signed price fee ts)
               else if (0 < or_net s \<and> 0 < signed) \<or> (or_net s < 0 \<and> signed < 0)
               then ([], s\<lparr>or_vwap := (or_vwap s * \<bar>or_net s\<bar> + price * \<bar>signed\<bar>) / (\<bar>or_net s\<bar> + \<bar>signed\<bar>),
                           or_net := or_net s + signed, or_open_qty := or_open_qty s + \<bar>signed\<bar>, or_fees := or_fees s + fee\<rparr>)
               else (let r = reduced f s
                     in if \<bar>or_net r\<bar> < 1 / 1000000000
                        then ([(r, ts, price)], r\<lparr>or_net := 0, or_vwap := 0, or_side := 0, or_open_ts := None\<rparr>)
                        else if (0 < or_side s \<and> or_net r < 0) \<or> (or_side s < 0 \<and> 0 < or_net r)
                        then ([(r, ts, price)], opened_run (or_net r) price 0 ts)
                        else ([], r))))"

fun fill_steps :: "trade_fill list \<Rightarrow> open_run \<Rightarrow> closing list \<times> open_run" where
  "fill_steps [] s = ([], s)"
| "fill_steps (f # fs) s = (let (xs, s) = fill_step f s; (ys, s) = fill_steps fs s in (xs @ ys, s))"

text \<open>The leg of a closed position, unless one like it (of whatever wallet) is there already.\<close>

type_synonym group_key = "int option \<times> string \<times> string \<times> string"

definition key_of_fill :: "trade_fill \<Rightarrow> group_key" where
  "key_of_fill f = (tf_wallet_id f, tf_exchange f, tf_market f, tf_symbol f)"

definition side_name :: "open_run \<Rightarrow> string" where
  "side_name s = (if 0 < or_side s then ''buy'' else ''sell'')"

definition two_minutes :: time where "two_minutes = 120000000"

definition same_run :: "int \<Rightarrow> group_key \<Rightarrow> string \<Rightarrow> time \<Rightarrow> time \<Rightarrow> trade_position \<Rightarrow> bool" where
  "same_run uid k sd since till r =
     (case k of (wallet_id, exchange, market, symbol) \<Rightarrow>
        tp_user_id r = uid \<and> tp_kind r = Single_Leg \<and> tp_status r = ''closed'' \<and> tp_symbol r = symbol \<and>
        tp_leg_a_exchange r = exchange \<and> tp_leg_a_market r = market \<and> tp_leg_a_side r = sd \<and>
        since - two_minutes \<le> tp_opened_at r \<and> tp_opened_at r \<le> since + two_minutes \<and>
        (case tp_closed_at r of None \<Rightarrow> False | Some t \<Rightarrow> till - two_minutes \<le> t \<and> t \<le> till + two_minutes))"

definition run_leg :: "int \<Rightarrow> int \<Rightarrow> group_key \<Rightarrow> closing \<Rightarrow> time \<Rightarrow> trade_position" where
  "run_leg i uid k x opened =
     (case (k, x) of ((wallet_id, exchange, market, symbol), s, ts, price) \<Rightarrow>
        \<lparr>tp_id = i, tp_user_id = uid, tp_kind = Single_Leg, tp_status = ''closed'', tp_symbol = symbol,
         tp_leg_a_wallet_id = wallet_id, tp_leg_a_exchange = exchange, tp_leg_a_side = side_name s,
         tp_leg_a_qty = or_open_qty s, tp_leg_a_entry_price = Some (or_vwap s),
         tp_leg_a_exit_price = Some (if 0 < or_close_qty s then or_close_value s / or_close_qty s else price),
         tp_leg_a_realized_pnl_usd = Some (or_realized s),
         tp_leg_a_funding_pnl_usd = (if or_funding s = 0 then None else Some (or_funding s)),
         tp_leg_a_fees_usd = Some (or_fees s), tp_leg_a_market = market,
         tp_leg_a_open_order_id = None, tp_leg_a_close_order_id = None,
         tp_leg_b_realized_pnl_usd = None, tp_leg_b_funding_pnl_usd = None, tp_source = ''fills_backfill'',
         tp_realized_pnl_usd = Some (or_realized s), tp_opened_externally = True, tp_closed_externally = True,
         tp_opened_at = opened, tp_closed_at = Some ts, tp_arb_position_id = None\<rparr>)"

definition emit :: "int \<Rightarrow> group_key \<Rightarrow> nat \<times> trade_position list \<Rightarrow> closing \<Rightarrow> nat \<times> trade_position list" where
  "emit uid k nl x =
     (case (nl, x) of ((n, legs), s, ts, price) \<Rightarrow>
        (case or_open_ts s of
           None \<Rightarrow> nl
         | Some opened \<Rightarrow>
             if or_open_qty s \<le> 0 \<or> list_ex (same_run uid k (side_name s) opened ts) legs then nl
             else (n + 1, legs @ [run_leg (row_fresh tp_id legs) uid k x opened])))"

definition reconstruct_one :: "int \<Rightarrow> nat \<times> trade_position list \<Rightarrow> group_key \<times> trade_fill list \<Rightarrow> nat \<times> trade_position list" where
  "reconstruct_one uid nl g = foldl (emit uid (fst g)) nl (fst (fill_steps (snd g) flat_run))"

definition recent_fills :: "clock \<Rightarrow> int \<Rightarrow> trade_fill list \<Rightarrow> trade_fill list" where
  "recent_fills c uid fills =
     sort_key tf_ts (filter (\<lambda>f. tf_user_id f = uid \<and> utcnow c - days_us (backfill_days + 1) \<le> tf_ts f) fills)"

definition grouped :: "trade_fill list \<Rightarrow> (group_key \<times> trade_fill list) list" where
  "grouped fs = map (\<lambda>k. (k, filter (\<lambda>f. key_of_fill f = k) fs)) (first_seen (map key_of_fill fs))"

definition reconstruct_positions :: "clock \<Rightarrow> int \<Rightarrow> fills_db \<Rightarrow> nat \<times> fills_db" where
  "reconstruct_positions c uid db =
     (let tr = fb_trading db
      in case foldl (reconstruct_one uid) (0, tr_legs tr) (grouped (recent_fills c uid (fb_fills db))) of
           (n, legs) \<Rightarrow> (n, db\<lparr>fb_trading := tr\<lparr>tr_legs := legs\<rparr>\<rparr>))"

section \<open>One pass for a user\<close>

record sync_result =
  sr_wallets :: nat
  sr_fills_inserted :: nat
  sr_positions_emitted :: nat

definition fill_wallets :: "int \<Rightarrow> fills_db \<Rightarrow> wallet list" where
  "fill_wallets uid db =
     filter (\<lambda>w. w_user_id w = Some uid \<and> w_wallet_type w \<in> {''exchange'', ''perpdex''} \<and> w_purpose w \<in> {Screener, Both} \<and>
       \<not> w_is_archived w) (wallets (tr_world (fb_trading db)))"

text \<open>The wallets of venues with a history, each for both markets. MEXC has none.\<close>

definition sync_tasks :: "(string \<Rightarrow> bool) \<Rightarrow> wallet list \<Rightarrow> (wallet \<times> string) list" where
  "sync_tasks supported ws =
     concat (map (\<lambda>w. let ex = lower (strip (w_type_value w))
                      in if ex = ''mexc'' \<or> \<not> supported ex then [] else map (\<lambda>m. (w, m)) markets) ws)"

definition sync_user :: "(string \<Rightarrow> bool) \<Rightarrow> venue_fills \<Rightarrow> clock \<Rightarrow> int \<Rightarrow> fills_db \<Rightarrow> sync_result \<times> fills_db" where
  "sync_user supported venue c uid db =
     (let ws = fill_wallets uid db
      in if ws = [] then (\<lparr>sr_wallets = 0, sr_fills_inserted = 0, sr_positions_emitted = 0\<rparr>, db)
         else (case foldl (sync_one venue c uid) (0, db) (sync_tasks supported ws) of
                 (n, db) \<Rightarrow>
                   (case reconstruct_positions c uid db of
                      (k, db) \<Rightarrow> (\<lparr>sr_wallets = length ws, sr_fills_inserted = n, sr_positions_emitted = k\<rparr>, db))))"

end
