(* ===== verification/Fills_Safety.thy ===== *)
theory Fills_Safety
  imports Fills Book_Demand
begin

text \<open>
  What the backfill promises: positions put together from fills account for all the money of the fills,
  and a second pass over the same answers of the venues changes nothing. Where it breaks these promises
  is at the end.
\<close>

section \<open>The money\<close>

text \<open>What a fill pays: the price of what is sold, less the price of what is bought; and its fee.\<close>

definition is_trade :: "trade_fill \<Rightarrow> bool" where
  "is_trade f \<longleftrightarrow> tf_kind f \<noteq> ''funding'' \<and> signed_qty f \<noteq> 0"

definition paid :: "trade_fill \<Rightarrow> rat" where
  "paid f = (if is_trade f then - signed_qty f * tf_price f else 0)"

definition charged :: "trade_fill \<Rightarrow> rat" where
  "charged f = (if is_trade f then fee_of_fill f else 0)"

definition moved :: "trade_fill \<Rightarrow> rat" where
  "moved f = (if is_trade f then signed_qty f else 0)"

text \<open>What a position under way stands for: its result so far, less what is still held at its entry price.\<close>

definition run_open :: "open_run \<Rightarrow> bool" where
  "run_open s \<longleftrightarrow> or_open_ts s \<noteq> None"

definition open_value :: "open_run \<Rightarrow> rat" where
  "open_value s = (if run_open s then or_realized s - or_net s * or_vwap s else 0)"

definition open_fees :: "open_run \<Rightarrow> rat" where
  "open_fees s = (if run_open s then or_fees s else 0)"

text \<open>
  Quantities are whole numbers of the smallest lot (a hundred-millionth), and the venue gives no result
  of its own for a trade.
\<close>

definition lots :: "rat \<Rightarrow> bool" where
  "lots q \<longleftrightarrow> q * 100000000 \<in> \<int>"

definition plain_fill :: "trade_fill \<Rightarrow> bool" where
  "plain_fill f \<longleftrightarrow> lots (tf_qty f) \<and> (tf_kind f \<noteq> ''funding'' \<longrightarrow> tf_realized_pnl_usd f = None)"

lemma lots_simps [simp]: "lots 0" "lots (- q) = lots q"
  by (simp_all add: lots_def)

lemma lots_add: "lots p \<Longrightarrow> lots q \<Longrightarrow> lots (p + q)"
  by (simp add: lots_def distrib_right)

lemma lots_signed: "plain_fill f \<Longrightarrow> lots (signed_qty f)"
  by (simp add: plain_fill_def signed_qty_def Let_def)

lemma lots_small: "lots q \<Longrightarrow> \<bar>q\<bar> < 1 / 1000000000 \<longleftrightarrow> q = 0"
proof
  assume "lots q" "\<bar>q\<bar> < 1 / 1000000000"
  then obtain k :: int where k: "q * 100000000 = of_int k" by (auto simp: lots_def Ints_def)
  have "\<bar>q * 100000000\<bar> < 1" using \<open>\<bar>q\<bar> < 1 / 1000000000\<close> by (simp add: abs_mult)
  then have "\<bar>k\<bar> < 1" unfolding k by linarith
  then show "q = 0" using k by simp
qed simp

text \<open>A sound position: it is open exactly when something is held, on its side, and what was closed is known.\<close>

definition run_ok :: "open_run \<Rightarrow> bool" where
  "run_ok s \<longleftrightarrow> lots (or_net s) \<and> (run_open s \<longleftrightarrow> or_net s \<noteq> 0) \<and>
     (0 < or_net s \<longrightarrow> or_side s = 1) \<and> (or_net s < 0 \<longrightarrow> or_side s = -1) \<and>
     (run_open s \<longrightarrow> or_open_qty s - or_close_qty s = \<bar>or_net s\<bar> \<and> 0 < or_open_qty s)"

definition closing_ok :: "closing \<Rightarrow> bool" where
  "closing_ok x \<longleftrightarrow> run_open (fst x) \<and> or_close_qty (fst x) = or_open_qty (fst x) \<and> 0 < or_open_qty (fst x)"

definition realized_total :: "closing list \<Rightarrow> rat" where
  "realized_total xs = sum_list (map (\<lambda>x. or_realized (fst x)) xs)"

definition fees_total :: "closing list \<Rightarrow> rat" where
  "fees_total xs = sum_list (map (\<lambda>x. or_fees (fst x)) xs)"

lemma flat_run_ok: "run_ok flat_run"
  by (simp add: run_ok_def flat_run_def run_open_def)

lemma flat_values: "open_value flat_run = 0" "open_fees flat_run = 0" "or_net flat_run = 0"
  by (simp_all add: flat_run_def open_value_def open_fees_def run_open_def)

lemma opened_run_ok: "lots q \<Longrightarrow> q \<noteq> 0 \<Longrightarrow> run_ok (opened_run q p f t)"
  by (auto simp: run_ok_def opened_run_def run_open_def)

lemma opened_run_value: "q \<noteq> 0 \<Longrightarrow> open_value (opened_run q p f t) = - q * p" "open_fees (opened_run q p f t) = f"
  "or_net (opened_run q p f t) = q"
  by (simp_all add: open_value_def open_fees_def opened_run_def run_open_def)

definition accounts :: "trade_fill \<Rightarrow> open_run \<Rightarrow> closing list \<times> open_run \<Rightarrow> bool" where
  "accounts f s r \<longleftrightarrow> run_ok (snd r) \<and> list_all closing_ok (fst r) \<and>
     realized_total (fst r) + open_value (snd r) = open_value s + paid f \<and>
     fees_total (fst r) + open_fees (snd r) = open_fees s + charged f \<and> or_net (snd r) = or_net s + moved f"

lemma reduced_fields:
  assumes "run_ok s" "tf_realized_pnl_usd f = None" "or_net s * signed_qty f < 0"
  shows "or_net (reduced f s) = or_net s + signed_qty f" "or_fees (reduced f s) = or_fees s + fee_of_fill f"
    "run_open (reduced f s)" "or_side (reduced f s) = or_side s" "or_vwap (reduced f s) = or_vwap s"
    "or_open_qty (reduced f s) = or_open_qty s"
    "\<bar>signed_qty f\<bar> \<le> \<bar>or_net s\<bar> \<Longrightarrow> or_realized (reduced f s) = or_realized s - signed_qty f * (tf_price f - or_vwap s)"
    "\<bar>signed_qty f\<bar> \<le> \<bar>or_net s\<bar> \<Longrightarrow> or_close_qty (reduced f s) = or_close_qty s + \<bar>signed_qty f\<bar>"
    "\<bar>or_net s\<bar> \<le> \<bar>signed_qty f\<bar> \<Longrightarrow> or_realized (reduced f s) = or_realized s + or_net s * (tf_price f - or_vwap s)"
    "\<bar>or_net s\<bar> \<le> \<bar>signed_qty f\<bar> \<Longrightarrow> or_close_qty (reduced f s) = or_close_qty s + \<bar>or_net s\<bar>"
proof -
  from assms(3) have "or_net s \<noteq> 0" by auto
  then have o: "run_open s" using assms(1) by (simp add: run_ok_def)
  consider "0 < or_net s" "signed_qty f < 0" "or_side s = 1" | "or_net s < 0" "0 < signed_qty f" "or_side s = -1"
    using assms(1,3) by (auto simp: run_ok_def mult_less_0_iff)
  note sides = this
  show "or_net (reduced f s) = or_net s + signed_qty f" "or_fees (reduced f s) = or_fees s + fee_of_fill f"
    "run_open (reduced f s)" "or_side (reduced f s) = or_side s" "or_vwap (reduced f s) = or_vwap s"
    "or_open_qty (reduced f s) = or_open_qty s"
    using o by (simp_all add: reduced_def Let_def run_open_def)
  show "\<bar>signed_qty f\<bar> \<le> \<bar>or_net s\<bar> \<Longrightarrow> or_realized (reduced f s) = or_realized s - signed_qty f * (tf_price f - or_vwap s)"
    "\<bar>signed_qty f\<bar> \<le> \<bar>or_net s\<bar> \<Longrightarrow> or_close_qty (reduced f s) = or_close_qty s + \<bar>signed_qty f\<bar>"
    "\<bar>or_net s\<bar> \<le> \<bar>signed_qty f\<bar> \<Longrightarrow> or_realized (reduced f s) = or_realized s + or_net s * (tf_price f - or_vwap s)"
    "\<bar>or_net s\<bar> \<le> \<bar>signed_qty f\<bar> \<Longrightarrow> or_close_qty (reduced f s) = or_close_qty s + \<bar>or_net s\<bar>"
    using sides by (cases; auto simp: reduced_def Let_def assms(2) min_def algebra_simps)+
qed

text \<open>Each way a trade can go.\<close>

lemma extend_accounts:
  assumes "run_ok s" "plain_fill f" "is_trade f" "0 < or_net s * signed_qty f"
  shows "accounts f s (fill_step f s)"
proof -
  let ?q = "signed_qty f" and ?n = "or_net s"
  have same: "(0 < ?n \<and> 0 < ?q) \<or> (?n < 0 \<and> ?q < 0)" using assms(4) by (simp add: zero_less_mult_iff)
  then have abs: "\<bar>?n + ?q\<bar> = \<bar>?n\<bar> + \<bar>?q\<bar>" "?n \<noteq> 0" "?q \<noteq> 0" "?n + ?q \<noteq> 0" by auto
  define s' where "s' = s\<lparr>or_vwap := (or_vwap s * \<bar>?n\<bar> + tf_price f * \<bar>?q\<bar>) / (\<bar>?n\<bar> + \<bar>?q\<bar>),
      or_net := ?n + ?q, or_open_qty := or_open_qty s + \<bar>?q\<bar>, or_fees := or_fees s + fee_of_fill f\<rparr>"
  have step: "fill_step f s = ([], s')"
    using assms(3) abs same by (simp add: fill_step_def is_trade_def Let_def s'_def)
  have "(?n + ?q) * or_vwap s' = or_vwap s * ?n + tf_price f * ?q"
    using same by (auto simp: s'_def field_simps)
  moreover have "run_open s" using assms(1) abs(2) by (simp add: run_ok_def)
  moreover have "lots (?n + ?q)" using assms(1,2) by (auto simp: run_ok_def intro: lots_add lots_signed)
  ultimately show ?thesis
    using assms(1,3) same abs unfolding step
    by (auto simp: accounts_def run_ok_def s'_def run_open_def open_value_def open_fees_def realized_total_def fees_total_def
      paid_def charged_def moved_def)
qed

lemma shrink_accounts:
  assumes "run_ok s" "plain_fill f" "is_trade f" "or_net s * signed_qty f < 0" "\<bar>signed_qty f\<bar> < \<bar>or_net s\<bar>"
  shows "accounts f s (fill_step f s)"
proof -
  let ?q = "signed_qty f" and ?n = "or_net s" and ?r = "reduced f s"
  have pnl: "tf_realized_pnl_usd f = None" using assms(2,3) by (simp add: plain_fill_def is_trade_def)
  have opp: "(0 < ?n \<and> ?q < 0) \<or> (?n < 0 \<and> 0 < ?q)" using assms(4) by (simp add: mult_less_0_iff)
  note r = reduced_fields [OF assms(1) pnl assms(4)]
  have l: "lots (?n + ?q)" using assms(1,2) by (auto simp: run_ok_def intro: lots_add lots_signed)
  have nz: "?n + ?q \<noteq> 0" "?n \<noteq> 0" "?q \<noteq> 0" using assms(5) opp by auto
  have side: "0 < ?n \<longleftrightarrow> 0 < or_side s" "?n < 0 \<longleftrightarrow> or_side s < 0" using assms(1) nz by (auto simp: run_ok_def)
  have step: "fill_step f s = ([], ?r)"
    using assms(3,5) opp nz side lots_small [OF l] r(1,4) by (auto simp: fill_step_def is_trade_def Let_def)
  have "run_open s" using assms(1) nz(2) by (simp add: run_ok_def)
  then show ?thesis
    using assms(1,3,5) opp nz l r(1-8) unfolding step
    by (auto simp: accounts_def run_ok_def open_value_def open_fees_def realized_total_def fees_total_def
      paid_def charged_def moved_def algebra_simps)
qed

lemma cross_accounts:
  assumes "run_ok s" "plain_fill f" "is_trade f" "or_net s * signed_qty f < 0" "\<bar>or_net s\<bar> \<le> \<bar>signed_qty f\<bar>"
  shows "accounts f s (fill_step f s)"
proof -
  let ?q = "signed_qty f" and ?n = "or_net s" and ?r = "reduced f s"
  have pnl: "tf_realized_pnl_usd f = None" using assms(2,3) by (simp add: plain_fill_def is_trade_def)
  have opp: "(0 < ?n \<and> ?q < 0) \<or> (?n < 0 \<and> 0 < ?q)" using assms(4) by (simp add: mult_less_0_iff)
  note r = reduced_fields [OF assms(1) pnl assms(4)]
  have l: "lots (?n + ?q)" using assms(1,2) by (auto simp: run_ok_def intro: lots_add lots_signed)
  have nz: "?n \<noteq> 0" "?q \<noteq> 0" using opp by auto
  have side: "0 < ?n \<longleftrightarrow> 0 < or_side s" "?n < 0 \<longleftrightarrow> or_side s < 0" using assms(1) nz by (auto simp: run_ok_def)
  have o: "run_open s" "or_open_qty s - or_close_qty s = \<bar>?n\<bar>" "0 < or_open_qty s" using assms(1) nz(1) by (simp_all add: run_ok_def)
  have closing: "closing_ok (?r, tf_ts f, tf_price f)" using r(3,6,10) assms(5) o by (simp add: closing_ok_def)
  show ?thesis
  proof (cases "?n + ?q = 0")
    case True
    have step: "fill_step f s = ([(?r, tf_ts f, tf_price f)], ?r\<lparr>or_net := 0, or_vwap := 0, or_side := 0, or_open_ts := None\<rparr>)"
      using assms(3) opp nz r(1) True by (auto simp: fill_step_def is_trade_def Let_def)
    have "?q = - ?n" using True by simp
    then show ?thesis
      using assms(1,3,5) o closing r unfolding step
      by (simp add: accounts_def run_ok_def run_open_def open_value_def open_fees_def realized_total_def fees_total_def
        paid_def charged_def moved_def algebra_simps)
  next
    case False
    have step: "fill_step f s = ([(?r, tf_ts f, tf_price f)], opened_run (?n + ?q) (tf_price f) 0 (tf_ts f))"
      using assms(3,5) opp nz side lots_small [OF l] r(1,4) False by (auto simp: fill_step_def is_trade_def Let_def)
    show ?thesis
      using assms(3,5) o closing r opened_run_ok [OF l False] unfolding step
      by (simp add: accounts_def opened_run_value(1) [OF False] opened_run_value(2,3) open_value_def [of s] open_fees_def [of s] realized_total_def fees_total_def
        paid_def charged_def moved_def algebra_simps)
  qed
qed

lemma fill_step_accounts:
  assumes "run_ok s" "plain_fill f"
  shows "accounts f s (fill_step f s)"
proof (cases "is_trade f")
  case False
  have "fill_step f s = ([], s) \<or> (\<exists>x. fill_step f s = ([], s\<lparr>or_funding := x\<rparr>))"
  proof (cases "tf_kind f = ''funding''")
    case True
    then show ?thesis by (cases "or_open_ts s") (auto simp: fill_step_def)
  next
    case False
    then show ?thesis using \<open>\<not> is_trade f\<close> by (simp add: fill_step_def is_trade_def)
  qed
  then consider "fill_step f s = ([], s)" | x where "fill_step f s = ([], s\<lparr>or_funding := x\<rparr>)" by blast
  then show ?thesis
    by cases (use False assms(1) in \<open>simp_all add: accounts_def run_ok_def run_open_def open_value_def open_fees_def
      realized_total_def fees_total_def paid_def charged_def moved_def\<close>)
next
  case True
  have q: "signed_qty f \<noteq> 0" using True by (simp add: is_trade_def)
  consider (flat) "or_net s = 0" | (same) "0 < or_net s * signed_qty f" | (opposite) "or_net s * signed_qty f < 0"
    using q by (metis linorder_neqE mult_eq_0_iff)
  then show ?thesis
  proof cases
    case flat
    then have "fill_step f s = ([], opened_run (signed_qty f) (tf_price f) (fee_of_fill f) (tf_ts f))"
      using True by (simp add: fill_step_def is_trade_def Let_def)
    moreover have "\<not> run_open s" using flat assms(1) by (simp add: run_ok_def)
    ultimately show ?thesis
      using flat True opened_run_ok [OF lots_signed [OF assms(2)] q]
      by (simp add: accounts_def opened_run_value(1) [OF q] opened_run_value(2,3) open_value_def [of s] open_fees_def [of s] realized_total_def fees_total_def
        paid_def charged_def moved_def)
  next
    case same
    then show ?thesis using extend_accounts assms True by blast
  next
    case opposite
    then show ?thesis using shrink_accounts cross_accounts assms True by (meson not_le)
  qed
qed



definition one_fill :: "string \<Rightarrow> string \<Rightarrow> rat \<Rightarrow> rat \<Rightarrow> time \<Rightarrow> trade_fill" where
  "one_fill i sd q p t = \<lparr>tf_user_id = 1, tf_wallet_id = Some 7, tf_exchange = ''okx'', tf_market = ''futures'', tf_kind = ''trade'',
     tf_symbol = ''BTC'', tf_side = Some sd, tf_qty = q, tf_price = p, tf_fee_usd = Some 1, tf_realized_pnl_usd = None, tf_ts = t,
     tf_ext_trade_id = i, tf_ext_order_id = None\<rparr>"

definition sample_fills :: "trade_fill list" where
  "sample_fills = [one_fill ''a'' ''buy'' 2 100 0, one_fill ''b'' ''buy'' 2 110 10, one_fill ''c'' ''sell'' 5 120 20]"


section \<open>A second pass\<close>

text \<open>Answers that bring nothing new.\<close>

definition known_rows :: "int \<Rightarrow> trade_fill list \<Rightarrow> wallet \<Rightarrow> string \<Rightarrow> raw_fill list \<Rightarrow> bool" where
  "known_rows uid fills w m rows \<longleftrightarrow> 
     (\<forall>r\<in>set rows. case fill_of uid w m r of None \<Rightarrow> True | Some f \<Rightarrow> fill_key f \<in> fill_key ` set fills)"

lemma insert_known: "known_rows uid fills w m rows \<Longrightarrow> foldl (insert_fill uid w m) (0, None, fills) rows = (0, None, fills)"
proof (induction rows)
  case (Cons r rows)
  have "insert_fill uid w m (0, None, fills) r = (0, None, fills)"
    using Cons.prems by (auto simp: insert_fill_def known_rows_def split: option.splits)
  then show ?case using Cons by (simp add: known_rows_def)
qed simp

lemma put_cursor_fields [simp]: "fb_fills (put_cursor c uid w m f t db) = fb_fills db" "fb_trading (put_cursor c uid w m f t db) = fb_trading db"
  "fb_fills (touch_cursor c uid w m t db) = fb_fills db" "fb_trading (touch_cursor c uid w m t db) = fb_trading db"
  by (simp_all add: put_cursor_def touch_cursor_def)

lemma sync_one_trading: "fb_trading (snd (sync_one venue c uid ndb t)) = fb_trading (snd ndb)"
  by (simp add: sync_one_def Let_def split: prod.splits option.splits list.splits)

lemma sync_one_known:
  assumes "\<forall>w m t rows. venue w m t = Some rows \<longrightarrow> known_rows uid (fb_fills db) w m rows"
  shows "fst (sync_one venue c uid (n, db) t) = n \<and> fb_fills (snd (sync_one venue c uid (n, db) t)) = fb_fills db"
proof -
  obtain w m where t: "t = (w, m)" by (cases t)
  let ?a = "venue w m (since_ts c uid w m db)"
  show ?thesis
  proof (cases ?a)
    case (Some rows)
    then have "foldl (insert_fill uid w m) (0, None, fb_fills db) rows = (0, None, fb_fills db)" using assms insert_known by blast
    then show ?thesis using Some by (cases rows) (simp_all add: sync_one_def t Let_def)
  qed (simp add: sync_one_def t Let_def)
qed

text \<open>A closed position that is on the books, as a leg or as one like it.\<close>

definition on_books :: "int \<Rightarrow> group_key \<Rightarrow> trade_position list \<Rightarrow> closing \<Rightarrow> bool" where
  "on_books uid k legs x \<longleftrightarrow> (case x of (s, ts, price) \<Rightarrow>
     (case or_open_ts s of None \<Rightarrow> True
      | Some opened \<Rightarrow> or_open_qty s \<le> 0 \<or> list_ex (same_run uid k (side_name s) opened ts) legs))"

lemma run_leg_same: "same_run uid k (side_name s) opened ts (run_leg i uid k (s, ts, price) opened)"
  by (cases k) (simp add: same_run_def run_leg_def two_minutes_def)

lemma emit_booked: "on_books uid k legs x \<Longrightarrow> emit uid k (n, legs) x = (n, legs)"
  by (cases x) (auto simp: on_books_def emit_def split: option.splits)

lemma emit_books: "on_books uid k (snd (emit uid k nl x)) x"
  by (cases x; cases nl) (auto simp: on_books_def emit_def run_leg_same split: option.splits)

lemma emit_grows: "set (snd nl) \<subseteq> set (snd (emit uid k nl x))"
  by (cases x; cases nl) (auto simp: emit_def split: option.splits)

lemma booked_grows: "on_books uid k legs x \<Longrightarrow> set legs \<subseteq> set legs' \<Longrightarrow> on_books uid k legs' x"
  by (cases x) (fastforce simp: on_books_def list_ex_iff split: option.splits)

definition all_booked :: "int \<Rightarrow> trade_position list \<Rightarrow> group_key \<times> trade_fill list \<Rightarrow> bool" where
  "all_booked uid legs g \<longleftrightarrow> list_all (on_books uid (fst g) legs) (fst (fill_steps (snd g) flat_run))"

lemma emits_grow: "set (snd nl) \<subseteq> set (snd (foldl (emit uid k) nl xs))"
  by (rule foldl_keeps [where P = "\<lambda>m. set (snd nl) \<subseteq> set (snd m)"]) (use emit_grows in blast)+

lemma emits_book: "list_all (on_books uid k (snd (foldl (emit uid k) nl xs))) xs"
proof (induction xs rule: rev_induct)
  case (snoc x xs)
  let ?nl = "foldl (emit uid k) nl xs"
  have "list_all (on_books uid k (snd (emit uid k ?nl x))) xs"
    using snoc.IH booked_grows [OF _ emit_grows] by (auto simp: list_all_iff)
  then show ?case using emit_books [of uid k ?nl x] by simp
qed simp

lemma reconstruct_one_grows: "set (snd nl) \<subseteq> set (snd (reconstruct_one uid nl g))"
  by (simp add: reconstruct_one_def emits_grow)

lemma reconstruct_one_books: "all_booked uid (snd (reconstruct_one uid nl g)) g"
  by (simp add: reconstruct_one_def all_booked_def emits_book)

lemma reconstruct_books: "list_all (all_booked uid (snd (foldl (reconstruct_one uid) nl gs))) gs"
proof (induction gs rule: rev_induct)
  case (snoc g gs)
  let ?nl = "foldl (reconstruct_one uid) nl gs"
  have "all_booked uid (snd (reconstruct_one uid ?nl g)) h" if "all_booked uid (snd ?nl) h" for h
    using that booked_grows [OF _ reconstruct_one_grows] by (auto simp: all_booked_def list_all_iff)
  then show ?case using snoc.IH reconstruct_one_books [of uid ?nl g] by (auto simp: list_all_iff)
qed simp

lemma emits_booked: "list_all (on_books uid k legs) xs \<Longrightarrow> foldl (emit uid k) (n, legs) xs = (n, legs)"
  by (induction xs) (auto simp: emit_booked)

lemma reconstruct_booked: "list_all (all_booked uid legs) gs \<Longrightarrow> foldl (reconstruct_one uid) (n, legs) gs = (n, legs)"
  by (induction gs) (auto simp: all_booked_def reconstruct_one_def emits_booked)

lemma reconstruct_fills: "fb_fills (snd (reconstruct_positions c uid db)) = fb_fills db"
  "tr_world (fb_trading (snd (reconstruct_positions c uid db))) = tr_world (fb_trading db)"
  by (simp_all add: reconstruct_positions_def Let_def split: prod.splits)

lemma reconstruct_twice:
  assumes "reconstruct_positions c uid db = (n, db')" "recent_fills c' uid (fb_fills db'') = recent_fills c uid (fb_fills db)"
    "fb_trading db'' = fb_trading db'"
  shows "reconstruct_positions c' uid db'' = (0, db'')"
proof -
  let ?gs = "grouped (recent_fills c uid (fb_fills db))"
  obtain legs where f: "foldl (reconstruct_one uid) (0, tr_legs (fb_trading db)) ?gs = (n, legs)" "tr_legs (fb_trading db') = legs"
    using assms(1) by (auto simp: reconstruct_positions_def Let_def split: prod.splits)
  have "list_all (all_booked uid legs) ?gs" using reconstruct_books [of uid "(0, tr_legs (fb_trading db))" ?gs] f(1) by simp
  then have "foldl (reconstruct_one uid) (0, legs) ?gs = (0, legs)" by (rule reconstruct_booked)
  then show ?thesis using assms(2,3) f(2) by (simp add: reconstruct_positions_def Let_def)
qed

lemma syncs_known:
  assumes "\<forall>w m t rows. venue w m t = Some rows \<longrightarrow> known_rows uid (fb_fills db) w m rows"
  shows "fst (foldl (sync_one venue c uid) (0, db) ts) = 0 \<and> fb_fills (snd (foldl (sync_one venue c uid) (0, db) ts)) = fb_fills db \<and>
    fb_trading (snd (foldl (sync_one venue c uid) (0, db) ts)) = fb_trading db"
proof (rule foldl_keeps [where P = "\<lambda>x. fst x = 0 \<and> fb_fills (snd x) = fb_fills db \<and> fb_trading (snd x) = fb_trading db"])
  fix x :: "nat \<times> fills_db" and t assume x: "fst x = 0 \<and> fb_fills (snd x) = fb_fills db \<and> fb_trading (snd x) = fb_trading db"
  obtain db1 where x1: "x = (0, db1)" "fb_fills db1 = fb_fills db" "fb_trading db1 = fb_trading db" using x by (cases x) auto
  show "fst (sync_one venue c uid x t) = 0 \<and> fb_fills (snd (sync_one venue c uid x t)) = fb_fills db \<and>
      fb_trading (snd (sync_one venue c uid x t)) = fb_trading db"
    using sync_one_known [of venue uid db1 c 0 t] sync_one_trading [of venue c uid x t] assms x1 by simp
qed simp



definition sample_row :: "string \<Rightarrow> string \<Rightarrow> rat \<Rightarrow> rat \<Rightarrow> time \<Rightarrow> raw_fill" where
  "sample_row i sd q p t = \<lparr>rf_ts = Some t, rf_ext_trade_id = Some i, rf_kind = None, rf_symbol = Some ''btc'', rf_side = Some sd,
     rf_qty = Some q, rf_price = Some p, rf_fee_usd = None, rf_realized_pnl_usd = None, rf_ext_order_id = None\<rparr>"

definition okx_wallet :: "int \<Rightarrow> wallet" where
  "okx_wallet i = (new_wallet i 1 Both 10)\<lparr>w_type_value := ''okx''\<rparr>"

definition fills_start :: "wallet list \<Rightarrow> fills_db" where
  "fills_start ws = \<lparr>fb_trading = empty_trading (empty_world\<lparr>wallets := ws\<rparr>), fb_fills = [], fb_cursors = []\<rparr>"

definition fills_clock :: clock where
  "fills_clock = \<lparr>utcnow = 1000000000, monotonic = 0\<rparr>"

definition sample_answer :: "raw_fill list \<Rightarrow> venue_fills" where
  "sample_answer rows = (\<lambda>w m since. if m = ''futures'' then Some rows else Some [])"

definition round_trip :: "raw_fill list" where
  "round_trip = [sample_row ''a'' ''buy'' 2 100 0, sample_row ''b'' ''sell'' 2 120 500000000]"

definition same_answer :: venue_fills where
  "same_answer w m since = (if w = okx_wallet 7 \<and> m = ''futures'' then Some round_trip else Some [])"


section \<open>Where it breaks\<close>

text \<open>
  Idempotency is by a match within two minutes: a second position of the same side that was opened and
  closed within two minutes of the first is taken for it and lost, with its result.
\<close>

lemma quick_reopen_lost:
  "sr_positions_emitted (fst (sync_user (\<lambda>_. True)
     (sample_answer [sample_row ''a'' ''buy'' 1 100 0, sample_row ''b'' ''sell'' 1 120 20000000,
        sample_row ''c'' ''buy'' 5 120 40000000, sample_row ''d'' ''sell'' 5 90 60000000]) fills_clock 1 (fills_start [okx_wallet 7]))) = 1"
  by code_simp

text \<open>
  The match does not ask for the wallet, although the description says so: of two accounts at one venue
  that trade alike, only one leg is on_books.
\<close>

lemma other_wallet_lost:
  "sr_positions_emitted (fst (sync_user (\<lambda>_. True) (sample_answer round_trip) fills_clock 1 (fills_start [okx_wallet 7, okx_wallet 8]))) = 1 \<and>
   sr_fills_inserted (fst (sync_user (\<lambda>_. True) (sample_answer round_trip) fills_clock 1 (fills_start [okx_wallet 7, okx_wallet 8]))) = 4"
  by code_simp

text \<open>
  A position that was opened before the window: its closing sale opens a short position that never was,
  and the next purchase closes it, with a side and a result that are made up. The same on the spot market,
  where the comment says that such a sale is ignored.
\<close>

lemma phantom_short:
  "map (\<lambda>r. (tp_leg_a_market r, tp_leg_a_side r, tp_realized_pnl_usd r)) (tr_legs (fb_trading (snd (sync_user (\<lambda>_. True)
     (\<lambda>w m since. if m = ''spot'' then Some [sample_row ''a'' ''sell'' 2 100 0, sample_row ''b'' ''buy'' 2 120 500000000] else Some [])
     fills_clock 1 (fills_start [okx_wallet 7])))))
   = [(''spot'', ''sell'', Some (-40))]"
  by code_simp

end
