(* ===== verification/Alerts.thy ===== *)
theory Alerts
  imports Store Json "HOL-Library.List_Lexorder"
begin

text \<open>
  Spread alerts: the routes of \<^verbatim>\<open>api/v1/alerts.py\<close> and the loop of \<^verbatim>\<open>alert_service.py\<close>, which several
  worker processes run on one database. A worker keeps a copy of the enabled alerts and of the
  opportunity files; the leader key in Redis, the files and Telegram are arguments. A message is the
  record of what its text shows.
\<close>

section \<open>Alerts\<close>

record alert =
  aa_id :: int
  aa_user_id :: int
  aa_symbol :: string
  aa_long_exchange :: string
  aa_short_exchange :: string
  aa_threshold :: rat
  aa_direction :: string
  aa_mode :: "string option"
  aa_trigger_mode :: "string option"
  aa_enabled :: bool
  aa_last_triggered_at :: "time option"
  aa_created_at :: time

text \<open>What a request brings, and what is left of it after validation.\<close>

record alert_body =
  bd_symbol :: string
  bd_long_exchange :: string
  bd_short_exchange :: string
  bd_threshold :: rat
  bd_direction :: string
  bd_mode :: string
  bd_trigger_mode :: string

definition known_ex :: "string list" where
  "known_ex = [''binance'', ''bybit'', ''okx'', ''gate'', ''kucoin'', ''mexc'', ''bitget'', ''hyperliquid'', ''aster'', ''ethereal'',
     ''whitebit'', ''bingx'', ''lighter'', ''paradex'']"

text \<open>The pattern is \<open>[A-Z0-9]{1,16}\<close>.\<close>

definition symbol_re :: "string \<Rightarrow> bool" where
  "symbol_re s \<longleftrightarrow> s \<noteq> [] \<and> length s \<le> 16 \<and> list_all (\<lambda>c. is_digit c \<or> (is_alpha c \<and> upper_char c = c)) s"

definition valid_symbol :: "string \<Rightarrow> string option" where
  "valid_symbol v = (let s = upper (strip v) in if symbol_re s then Some s else None)"

definition valid_ex :: "string \<Rightarrow> string option" where
  "valid_ex v =
     (let s = lower (strip v)
      in if s \<in> set [''*'', ''any'', []] then Some ''*'' else if s \<in> set known_ex then Some s else None)"

definition valid_choice :: "alert_body \<Rightarrow> bool" where
  "valid_choice b \<longleftrightarrow> 0 < bd_threshold b \<and> bd_threshold b \<le> 50 \<and> bd_direction b \<in> set [''any'', ''above'', ''below''] \<and>
     bd_mode b \<in> set [''futures'', ''spot'', ''dex''] \<and> bd_trigger_mode b \<in> set [''speed'', ''protected'']"

definition valid_body :: "alert_body \<Rightarrow> alert_body option" where
  "valid_body b =
     (case (valid_symbol (bd_symbol b), valid_ex (bd_long_exchange b), valid_ex (bd_short_exchange b)) of
        (Some s, Some l, Some sh) \<Rightarrow>
          if valid_choice b then Some (b\<lparr>bd_symbol := s, bd_long_exchange := l, bd_short_exchange := sh\<rparr>) else None
      | _ \<Rightarrow> None)"

datatype alert_error = Unprocessable | Same_Exchange | Alert_Not_Found

definition same_exchange :: "alert_body \<Rightarrow> bool" where
  "same_exchange b \<longleftrightarrow> bd_long_exchange b \<noteq> ''*'' \<and> bd_short_exchange b \<noteq> ''*'' \<and> bd_long_exchange b = bd_short_exchange b"

definition alert_of :: "int \<Rightarrow> int \<Rightarrow> time \<Rightarrow> alert_body \<Rightarrow> alert" where
  "alert_of i uid now b = \<lparr>aa_id = i, aa_user_id = uid, aa_symbol = bd_symbol b, aa_long_exchange = bd_long_exchange b,
     aa_short_exchange = bd_short_exchange b, aa_threshold = bd_threshold b, aa_direction = bd_direction b,
     aa_mode = Some (bd_mode b), aa_trigger_mode = Some (bd_trigger_mode b), aa_enabled = True,
     aa_last_triggered_at = None, aa_created_at = now\<rparr>"

type_synonym alerts = "alert list"

definition own_alert :: "int \<Rightarrow> int \<Rightarrow> alert \<Rightarrow> bool" where
  "own_alert uid i a \<longleftrightarrow> aa_id a = i \<and> aa_user_id a = uid"

section \<open>Routes\<close>

definition list_alerts :: "int \<Rightarrow> alerts \<Rightarrow> alert list" where
  "list_alerts uid rows = filter (\<lambda>a. aa_user_id a = uid) rows"

definition create_alert :: "time \<Rightarrow> int \<Rightarrow> alert_body \<Rightarrow> alerts \<Rightarrow> (alert_error + alert) \<times> alerts" where
  "create_alert now uid body rows =
     (case valid_body body of
        None \<Rightarrow> (Inl Unprocessable, rows)
      | Some b \<Rightarrow>
          if same_exchange b then (Inl Same_Exchange, rows)
          else (let a = alert_of (row_fresh aa_id rows) uid now b in (Inr a, rows @ [a])))"

definition edit_alert :: "alert_body \<Rightarrow> alert \<Rightarrow> alert" where
  "edit_alert b a = a\<lparr>aa_symbol := bd_symbol b, aa_long_exchange := bd_long_exchange b, aa_short_exchange := bd_short_exchange b,
     aa_threshold := bd_threshold b, aa_direction := bd_direction b, aa_mode := Some (bd_mode b),
     aa_trigger_mode := Some (bd_trigger_mode b)\<rparr>"

definition update_alert :: "int \<Rightarrow> int \<Rightarrow> alert_body \<Rightarrow> alerts \<Rightarrow> (alert_error + alert) \<times> alerts" where
  "update_alert uid i body rows =
     (case valid_body body of
        None \<Rightarrow> (Inl Unprocessable, rows)
      | Some b \<Rightarrow>
          if same_exchange b then (Inl Same_Exchange, rows)
          else (case find (own_alert uid i) rows of
                  None \<Rightarrow> (Inl Alert_Not_Found, rows)
                | Some a \<Rightarrow> (Inr (edit_alert b a), row_upd aa_id i (edit_alert b) rows)))"

definition flip_enabled :: "alert \<Rightarrow> alert" where
  "flip_enabled a = a\<lparr>aa_enabled := \<not> aa_enabled a\<rparr>"

definition toggle_alert :: "int \<Rightarrow> int \<Rightarrow> alerts \<Rightarrow> (alert_error + alert) \<times> alerts" where
  "toggle_alert uid i rows =
     (case find (own_alert uid i) rows of
        None \<Rightarrow> (Inl Alert_Not_Found, rows)
      | Some a \<Rightarrow> (Inr (flip_enabled a), row_upd aa_id i flip_enabled rows))"

text \<open>An alert for any pair takes the place of those of the same symbol and mode. The body has no venues.\<close>

definition replaced_by_token :: "int \<Rightarrow> alert_body \<Rightarrow> alert \<Rightarrow> bool" where
  "replaced_by_token uid b a \<longleftrightarrow>
     aa_user_id a = uid \<and> aa_symbol a = bd_symbol b \<and> aa_long_exchange a = ''*'' \<and> aa_short_exchange a = ''*'' \<and>
     (aa_mode a = Some (bd_mode b) \<or> aa_mode a = None)"

definition create_token_alert :: "time \<Rightarrow> int \<Rightarrow> alert_body \<Rightarrow> alerts \<Rightarrow> (alert_error + alert) \<times> alerts" where
  "create_token_alert now uid body rows =
     (case valid_symbol (bd_symbol body) of
        None \<Rightarrow> (Inl Unprocessable, rows)
      | Some s \<Rightarrow>
          if \<not> valid_choice body then (Inl Unprocessable, rows)
          else (let b = body\<lparr>bd_symbol := s, bd_long_exchange := ''*'', bd_short_exchange := ''*''\<rparr>;
                    a = alert_of (row_fresh aa_id rows) uid now b
                in (Inr a, filter (\<lambda>x. \<not> replaced_by_token uid b x) rows @ [a])))"

definition delete_alert :: "int \<Rightarrow> int \<Rightarrow> alerts \<Rightarrow> (alert_error + unit) \<times> alerts" where
  "delete_alert uid i rows =
     (case find (own_alert uid i) rows of
        None \<Rightarrow> (Inl Alert_Not_Found, rows)
      | Some a \<Rightarrow> (Inr (), filter (\<lambda>x. aa_id x \<noteq> i) rows))"

section \<open>Spreads\<close>

text \<open>The file of a mode and the field of its first leg; modes that are not listed are futures.\<close>

definition mode_meta :: "string \<Rightarrow> string \<times> string" where
  "mode_meta mode =
     (if mode = ''spot'' then (''spot_arbitrage.json'', ''spot_exchange'')
      else if mode = ''dex'' then (''dex_arbitrage.json'', ''dex_name'')
      else if mode = ''dex_spot'' then (''dex_spot_arbitrage.json'', ''dex_name'')
      else (''arbitrage.json'', ''long_exchange''))"

definition short_field_for_mode :: "string \<Rightarrow> string" where
  "short_field_for_mode mode = (if mode = ''dex_spot'' then ''cex_exchange'' else ''short_exchange'')"

definition opp_spread :: "json \<Rightarrow> py_error + rat" where
  "opp_spread opp =
     bind_res (get_key opp ''in_pct'') (\<lambda>v. if v \<noteq> J_Null then py_float v
       else bind_res (get_key opp ''net_profit'') (\<lambda>np. if np \<noteq> J_Null then py_float np
       else bind_res (get_key opp ''spread_pct'') (\<lambda>sp. if sp \<noteq> J_Null then py_float sp else Inr 0)))"

text \<open>\<open>opp.get(field, "").lower() == ex.lower()\<close>.\<close>

definition is_venue :: "json \<Rightarrow> string \<Rightarrow> string \<Rightarrow> py_error + bool" where
  "is_venue opp field ex =
     bind_res (get_or opp field (J_Str [])) (\<lambda>v. bind_res (as_text v) (\<lambda>t. Inr (lower t = lower ex)))"

fun get_spread_from_opps :: "string \<Rightarrow> string \<Rightarrow> string \<Rightarrow> string \<Rightarrow> string \<Rightarrow> json list \<Rightarrow> py_error + rat option" where
  "get_spread_from_opps s le se lf sf [] = Inr None"
| "get_spread_from_opps s le se lf sf (opp # opps) =
     bind_res (get_key opp ''symbol'') (\<lambda>v.
       if v \<noteq> J_Str s then get_spread_from_opps s le se lf sf opps
       else bind_res (is_venue opp lf le) (\<lambda>ok.
         if \<not> ok then get_spread_from_opps s le se lf sf opps
         else bind_res (is_venue opp sf se) (\<lambda>ok.
           if \<not> ok then get_spread_from_opps s le se lf sf opps
           else bind_res (opp_spread opp) (\<lambda>x. Inr (Some x)))))"

type_synonym pair_spread = "json \<times> json \<times> rat"

fun best_pair_from_opps :: "string \<Rightarrow> string \<Rightarrow> string \<Rightarrow> pair_spread option \<Rightarrow> json list \<Rightarrow> py_error + pair_spread option" where
  "best_pair_from_opps s lf sf best [] = Inr best"
| "best_pair_from_opps s lf sf best (opp # opps) =
     bind_res (get_key opp ''symbol'') (\<lambda>v.
       if v \<noteq> J_Str s then best_pair_from_opps s lf sf best opps
       else bind_res (opp_spread opp) (\<lambda>x.
         if (case best of None \<Rightarrow> True | Some (_, _, y) \<Rightarrow> \<bar>y\<bar> < \<bar>x\<bar>)
         then bind_res (get_or opp lf (J_Str [])) (\<lambda>l. bind_res (get_or opp sf (J_Str [])) (\<lambda>sh.
                best_pair_from_opps s lf sf (Some (l, sh, x)) opps))
         else best_pair_from_opps s lf sf best opps))"

section \<open>Workers\<close>

record alert_worker =
  aw_alerts :: "(alert \<times> int option) list"
  aw_alerts_ts :: rat
  aw_opps :: "string \<Rightarrow> (rat \<times> json) option"

definition fresh_worker :: alert_worker where
  "fresh_worker = \<lparr>aw_alerts = [], aw_alerts_ts = 0, aw_opps = (\<lambda>_. None)\<rparr>"

definition db_refresh_interval :: rat where "db_refresh_interval = 10"
definition opps_ttl :: rat where "opps_ttl = 1 / 4"
definition alert_cooldown :: time where "alert_cooldown = 3600000000"

text \<open>What a reading finds: the monotonic clock, and the files, none when one cannot be read or parsed.\<close>

record reading =
  rg_monotonic :: rat
  rg_file :: "string \<Rightarrow> json option"

definition opportunities_in :: "json option \<Rightarrow> json" where
  "opportunities_in d =
     (case d of
        None \<Rightarrow> J_Arr []
      | Some x \<Rightarrow> (case get_key x ''opportunities'' of Inl _ \<Rightarrow> J_Arr [] | Inr v \<Rightarrow> py_or v (J_Arr [])))"

definition load_arb_cache :: "reading \<Rightarrow> string \<Rightarrow> alert_worker \<Rightarrow> json \<times> alert_worker" where
  "load_arb_cache rd mode w =
     (let now = rg_monotonic rd;
          opps = opportunities_in (rg_file rd (fst (mode_meta mode)))
      in case aw_opps w mode of
           Some (t, x) \<Rightarrow> if now - t < opps_ttl then (x, w)
                          else (opps, w\<lparr>aw_opps := (aw_opps w)(mode := Some (now, opps))\<rparr>)
         | None \<Rightarrow> (opps, w\<lparr>aw_opps := (aw_opps w)(mode := Some (now, opps))\<rparr>))"

text \<open>Any exception is no spread.\<close>

definition or_none :: "py_error + 'a option \<Rightarrow> 'a option" where
  "or_none m = (case m of Inl _ \<Rightarrow> None | Inr v \<Rightarrow> v)"

definition get_spread :: "reading \<Rightarrow> string \<Rightarrow> string \<Rightarrow> string \<Rightarrow> string \<Rightarrow> alert_worker \<Rightarrow> rat option \<times> alert_worker" where
  "get_spread rd s le se mode w =
     (case load_arb_cache rd mode w of
        (opps, w) \<Rightarrow> (or_none (bind_res (py_iter opps)
          (get_spread_from_opps s le se (snd (mode_meta mode)) (short_field_for_mode mode))), w))"

definition best_pair_for_symbol :: "reading \<Rightarrow> string \<Rightarrow> string \<Rightarrow> alert_worker \<Rightarrow> pair_spread option \<times> alert_worker" where
  "best_pair_for_symbol rd s mode w =
     (case load_arb_cache rd mode w of
        (opps, w) \<Rightarrow> (or_none (bind_res (py_iter opps)
          (best_pair_from_opps s (snd (mode_meta mode)) (short_field_for_mode mode) None)), w))"

definition text_else :: "string option \<Rightarrow> string \<Rightarrow> string" where
  "text_else x d = (case x of Some t \<Rightarrow> if t = [] then d else t | None \<Rightarrow> d)"

definition any_pair :: "alert \<Rightarrow> bool" where
  "any_pair a \<longleftrightarrow> aa_long_exchange a \<in> set [[], ''*''] \<or> aa_short_exchange a \<in> set [[], ''*'']"

text \<open>The pair and the spread an alert looks at.\<close>

definition watched_spread :: "reading \<Rightarrow> alert \<Rightarrow> alert_worker \<Rightarrow> pair_spread option \<times> alert_worker" where
  "watched_spread rd a w =
     (let mode = text_else (aa_mode a) ''futures''
      in if any_pair a then best_pair_for_symbol rd (aa_symbol a) mode w
         else (case get_spread rd (aa_symbol a) (aa_long_exchange a) (aa_short_exchange a) mode w of
                 (x, w) \<Rightarrow> (map_option (\<lambda>x. (J_Str (aa_long_exchange a), J_Str (aa_short_exchange a), x)) x, w)))"

definition triggered :: "alert \<Rightarrow> rat \<Rightarrow> bool" where
  "triggered a x \<longleftrightarrow>
     (if aa_direction a = ''any'' \<and> aa_threshold a \<le> \<bar>x\<bar> then True
      else if aa_direction a = ''above'' \<and> aa_threshold a \<le> x then True
      else aa_direction a = ''below'' \<and> x \<le> - aa_threshold a)"

text \<open>In the protected mode the spread is read again three seconds later and must still do.\<close>

definition fire_decision :: "reading \<Rightarrow> reading \<Rightarrow> alert \<Rightarrow> alert_worker \<Rightarrow> pair_spread option \<times> alert_worker" where
  "fire_decision rd later a w =
     (case watched_spread rd a w of
        (None, w) \<Rightarrow> (None, w)
      | (Some x, w) \<Rightarrow>
          if \<not> triggered a (snd (snd x)) then (None, w)
          else if text_else (aa_trigger_mode a) ''speed'' = ''protected''
          then (case watched_spread later a w of
                  (None, w) \<Rightarrow> (None, w)
                | (Some y, w) \<Rightarrow> (if triggered a (snd (snd y)) then Some y else None, w))
          else (Some x, w))"

definition cooling :: "time \<Rightarrow> alert \<Rightarrow> bool" where
  "cooling now a \<longleftrightarrow> (case aa_last_triggered_at a of None \<Rightarrow> False | Some t \<Rightarrow> now - t < alert_cooldown)"

section \<open>Messages\<close>

record alert_message =
  am_alert :: int
  am_chat :: int
  am_symbol :: string
  am_mode :: string
  am_long :: json
  am_short :: json
  am_spread :: rat
  am_threshold :: rat
  am_any_pair :: bool
  am_protected :: bool

text \<open>The counters, and what Telegram answers: a status with a body, which may not be JSON, or nothing.\<close>

record tg_counters =
  tg_sent_ok :: nat
  tg_attempt :: nat
  tg_failed_final :: nat
  tg_rate_limited :: nat

datatype tg_answer = Tg_Reply int "json option" | Tg_Silent

definition tg_accepts :: "json option \<Rightarrow> bool" where
  "tg_accepts body = (case body of None \<Rightarrow> False | Some x \<Rightarrow> (case get_key x ''ok'' of Inl _ \<Rightarrow> False | Inr v \<Rightarrow> py_true v))"

definition send_tg :: "tg_answer \<Rightarrow> tg_counters \<Rightarrow> bool \<times> tg_counters" where
  "send_tg answer n =
     (let n = n\<lparr>tg_attempt := tg_attempt n + 1\<rparr>
      in case answer of
           Tg_Silent \<Rightarrow> (False, n\<lparr>tg_failed_final := tg_failed_final n + 1\<rparr>)
         | Tg_Reply status body \<Rightarrow>
             if status = 200 \<and> tg_accepts body then (True, n\<lparr>tg_sent_ok := tg_sent_ok n + 1\<rparr>)
             else if status = 429
             then (False, n\<lparr>tg_rate_limited := tg_rate_limited n + 1, tg_failed_final := tg_failed_final n + 1\<rparr>)
             else (False, n\<lparr>tg_failed_final := tg_failed_final n + 1\<rparr>))"

section \<open>The loop\<close>

text \<open>
  All processes: the tables, the leader key with its end, the file of watched symbols that the Go
  fetcher reads, what was posted to Telegram, and each worker with its counters.
\<close>

record alert_system =
  al_alerts :: alerts
  al_world :: world
  al_leader :: "rat option"
  al_symbols :: "string list"
  al_posted :: "alert_message list"
  al_workers :: "nat \<Rightarrow> alert_worker"
  al_counters :: "nat \<Rightarrow> tg_counters"

text \<open>\<open>SET avalant:alert_leader 1 NX EX 1\<close>. Without Redis everybody leads.\<close>

definition lead :: "bool \<Rightarrow> rat \<Rightarrow> alert_system \<Rightarrow> bool \<times> alert_system" where
  "lead redis_up now sys =
     (if \<not> redis_up then (True, sys)
      else if (case al_leader sys of Some t \<Rightarrow> now < t | None \<Rightarrow> False) then (False, sys)
      else (True, sys\<lparr>al_leader := Some (now + 1)\<rparr>))"

definition load_alerts_from_db :: "alert_system \<Rightarrow> (alert \<times> int option) list" where
  "load_alerts_from_db sys =
     map (\<lambda>a. (a, case row_get u_id (users (al_world sys)) (aa_user_id a) of None \<Rightarrow> None | Some u \<Rightarrow> u_tg_chat_id u))
       (filter aa_enabled (al_alerts sys))"

definition active_alert_symbols :: "alert list \<Rightarrow> string list" where
  "active_alert_symbols as = sort (remdups (map (\<lambda>a. upper (strip (aa_symbol a))) (filter (\<lambda>a. strip (aa_symbol a) \<noteq> []) as)))"

definition refresh_alerts :: "rat \<Rightarrow> nat \<Rightarrow> alert_system \<Rightarrow> alert_system" where
  "refresh_alerts mono_now i sys =
     (let w = al_workers sys i
      in if mono_now - aw_alerts_ts w < db_refresh_interval then sys
         else (let rows = load_alerts_from_db sys
               in sys\<lparr>al_symbols := active_alert_symbols (map fst rows),
                      al_workers := (al_workers sys)(i := w\<lparr>aw_alerts := rows, aw_alerts_ts := mono_now\<rparr>)\<rparr>))"

text \<open>The claim: an update of the row that is still enabled; the number of rows tells who won.\<close>

definition claim_alert_for_fire :: "int \<Rightarrow> time \<Rightarrow> alerts \<Rightarrow> bool \<times> alerts" where
  "claim_alert_for_fire i ts rows =
     (list_ex (\<lambda>a. aa_id a = i \<and> aa_enabled a) rows,
      row_upd_where (\<lambda>a. aa_id a = i \<and> aa_enabled a) (\<lambda>a. a\<lparr>aa_last_triggered_at := Some ts, aa_enabled := False\<rparr>) rows)"

definition message_of :: "alert \<Rightarrow> int \<Rightarrow> pair_spread \<Rightarrow> alert_message" where
  "message_of a chat x =
     (case x of (l, s, v) \<Rightarrow>
        \<lparr>am_alert = aa_id a, am_chat = chat, am_symbol = aa_symbol a, am_mode = text_else (aa_mode a) ''futures'', am_long = l,
         am_short = s, am_spread = v, am_threshold = aa_threshold a, am_any_pair = any_pair a,
         am_protected = (text_else (aa_trigger_mode a) ''speed'' \<noteq> ''speed'')\<rparr>)"

text \<open>What comes from outside while one alert is looked at.\<close>

record alert_env =
  ev_now :: time
  ev_first :: reading
  ev_later :: reading
  ev_answer :: tg_answer

text \<open>The alert that is the \<open>k\<close>-th in the memory of worker \<open>i\<close>.\<close>

definition handle_alert :: "nat \<Rightarrow> alert_env \<Rightarrow> nat \<Rightarrow> alert_system \<Rightarrow> alert_system" where
  "handle_alert i e k sys =
     (let w = al_workers sys i
      in if length (aw_alerts w) \<le> k then sys
         else (case aw_alerts w ! k of
                 (a, chat) \<Rightarrow>
                   if \<not> aa_enabled a \<or> cooling (ev_now e) a then sys
                   else (case fire_decision (ev_first e) (ev_later e) a w of
                           (None, w) \<Rightarrow> sys\<lparr>al_workers := (al_workers sys)(i := w)\<rparr>
                         | (Some x, w) \<Rightarrow>
                             (case chat of
                                None \<Rightarrow> sys\<lparr>al_workers := (al_workers sys)(i := w)\<rparr>
                              | Some c \<Rightarrow>
                                  if c = 0 then sys\<lparr>al_workers := (al_workers sys)(i := w)\<rparr>
                                  else (let (won, rows) = claim_alert_for_fire (aa_id a) (ev_now e) (al_alerts sys);
                                            a' = a\<lparr>aa_enabled := False, aa_last_triggered_at := Some (ev_now e)\<rparr>;
                                            sys = sys\<lparr>al_alerts := rows, al_workers := (al_workers sys)(i :=
                                              w\<lparr>aw_alerts := (aw_alerts w)[k := (a', chat)], aw_alerts_ts := 0\<rparr>)\<rparr>
                                        in if won
                                           then sys\<lparr>al_posted := al_posted sys @ [message_of a c x],
                                                  al_counters := (al_counters sys)(i := snd (send_tg (ev_answer e) (al_counters sys i)))\<rparr>
                                           else sys)))))"

text \<open>One tick of a worker, when nothing else happens meanwhile.\<close>

record alert_tick =
  tk_token :: bool
  tk_redis_up :: bool
  tk_wall :: rat
  tk_monotonic :: rat
  tk_env :: "nat \<Rightarrow> alert_env"

definition check_alerts :: "nat \<Rightarrow> alert_tick \<Rightarrow> alert_system \<Rightarrow> alert_system" where
  "check_alerts i tk sys =
     (if \<not> tk_token tk then sys
      else (case lead (tk_redis_up tk) (tk_wall tk) sys of
              (go, sys) \<Rightarrow>
                if \<not> go then sys
                else (let sys = refresh_alerts (tk_monotonic tk) i sys
                      in foldl (\<lambda>sys k. handle_alert i (tk_env tk k) k sys) sys [0..<length (aw_alerts (al_workers sys i))])))"

end
