(* ===== verification/Alerts_Safety.thy ===== *)
theory Alerts_Safety
  imports Alerts
begin

text \<open>
  Many workers, one row: whatever the processes and the users do, and in whatever order, an alert is
  posted at most once each time it is armed. Then what an alert for any pair looks at, and where the
  loop does not do what its comments say.
\<close>

section \<open>Runs\<close>

text \<open>
  The steps that other processes can come between: a worker refreshing its memory, a worker handling one
  alert (with the claim as its only access to the database), and the requests of the users.
\<close>

datatype alert_event =
    Refreshed nat rat
  | Handled nat alert_env nat
  | Alert_Created time int alert_body
  | Token_Created time int alert_body
  | Alert_Updated int int alert_body
  | Alert_Toggled int int
  | Alert_Deleted int int
  | Led bool rat

fun alert_step :: "alert_system \<Rightarrow> alert_event \<Rightarrow> alert_system" where
  "alert_step sys (Refreshed i now) = refresh_alerts now i sys"
| "alert_step sys (Handled i e k) = handle_alert i e k sys"
| "alert_step sys (Alert_Created now uid b) = sys\<lparr>al_alerts := snd (create_alert now uid b (al_alerts sys))\<rparr>"
| "alert_step sys (Token_Created now uid b) = sys\<lparr>al_alerts := snd (create_token_alert now uid b (al_alerts sys))\<rparr>"
| "alert_step sys (Alert_Updated uid i b) = sys\<lparr>al_alerts := snd (update_alert uid i b (al_alerts sys))\<rparr>"
| "alert_step sys (Alert_Toggled uid i) = sys\<lparr>al_alerts := snd (toggle_alert uid i (al_alerts sys))\<rparr>"
| "alert_step sys (Alert_Deleted uid i) = sys\<lparr>al_alerts := snd (delete_alert uid i (al_alerts sys))\<rparr>"
| "alert_step sys (Led up now) = snd (lead up now sys)"

text \<open>A tick of the loop is such a sequence.\<close>

lemma handle_length: "length (aw_alerts (al_workers (handle_alert i e k sys) i)) = length (aw_alerts (al_workers sys i))"
  if "\<And>rd later a w. length (aw_alerts (snd (fire_decision rd later a w))) = length (aw_alerts w)"
proof -
  obtain w where w: "al_workers sys i = w" by simp
  show ?thesis
  proof (cases "length (aw_alerts w) \<le> k")
    case False
    obtain a chat where a: "aw_alerts w ! k = (a, chat)" by fastforce
    obtain x w' where f: "fire_decision (ev_first e) (ev_later e) a w = (x, w')" by fastforce
    have "length (aw_alerts w') = length (aw_alerts w)" using that [of "ev_first e" "ev_later e" a w] f by simp
    then show ?thesis using w False a f
      by (auto simp: handle_alert_def Let_def split: option.splits prod.splits)
  qed (simp add: handle_alert_def w)
qed

lemma load_keeps: "aw_alerts (snd (load_arb_cache rd mode w)) = aw_alerts w"
  by (auto simp: load_arb_cache_def Let_def split: option.splits)

lemma watched_keeps: "aw_alerts (snd (watched_spread rd a w)) = aw_alerts w"
  using load_keeps by (auto simp: watched_spread_def best_pair_for_symbol_def get_spread_def Let_def split: prod.splits) (metis snd_conv)+

lemma decision_keeps: "aw_alerts (snd (fire_decision rd later a w)) = aw_alerts w"
proof -
  obtain x w1 where x: "watched_spread rd a w = (x, w1)" by fastforce
  obtain y w2 where y: "watched_spread later a w1 = (y, w2)" by fastforce
  have "aw_alerts w1 = aw_alerts w" "aw_alerts w2 = aw_alerts w1"
    using watched_keeps [of rd a w] watched_keeps [of later a w1] x y by simp_all
  then show ?thesis using x y by (auto simp: fire_decision_def split: option.splits)
qed

definition tick_events :: "nat \<Rightarrow> alert_tick \<Rightarrow> alert_system \<Rightarrow> alert_event list" where
  "tick_events i tk sys =
     (if \<not> tk_token tk then []
      else if fst (lead (tk_redis_up tk) (tk_wall tk) sys)
      then [Led (tk_redis_up tk) (tk_wall tk), Refreshed i (tk_monotonic tk)] @
           map (\<lambda>k. Handled i (tk_env tk k) k)
             [0..<length (aw_alerts (al_workers (refresh_alerts (tk_monotonic tk) i (snd (lead (tk_redis_up tk) (tk_wall tk) sys))) i))]
      else [Led (tk_redis_up tk) (tk_wall tk)])"

lemma tick_is_run: "check_alerts i tk sys = foldl alert_step sys (tick_events i tk sys)"
proof -
  have handles: "foldl (\<lambda>sys k. handle_alert i (tk_env tk k) k sys) s ks = foldl alert_step s (map (\<lambda>k. Handled i (tk_env tk k) k) ks)" for s ks
    by (induction ks arbitrary: s) auto
  show ?thesis by (simp add: check_alerts_def tick_events_def handles Let_def split: prod.splits)
qed

section \<open>At most once\<close>

definition armed :: "int \<Rightarrow> alert_system \<Rightarrow> bool" where
  "armed i sys \<longleftrightarrow> list_ex (\<lambda>a. aa_id a = i \<and> aa_enabled a) (al_alerts sys)"

definition posts :: "int \<Rightarrow> alert_system \<Rightarrow> nat" where
  "posts i sys = length (filter (\<lambda>m. am_alert m = i) (al_posted sys))"

text \<open>A request arms an alert if it creates it or switches it on.\<close>

definition arms_result :: "int \<Rightarrow> (alert_error + alert) \<Rightarrow> bool" where
  "arms_result i r = (case r of Inl _ \<Rightarrow> False | Inr a \<Rightarrow> aa_id a = i \<and> aa_enabled a)"

fun arms :: "int \<Rightarrow> alert_system \<Rightarrow> alert_event \<Rightarrow> bool" where
  "arms i sys (Alert_Created now uid b) = arms_result i (fst (create_alert now uid b (al_alerts sys)))"
| "arms i sys (Token_Created now uid b) = arms_result i (fst (create_token_alert now uid b (al_alerts sys)))"
| "arms i sys (Alert_Toggled uid j) = arms_result i (fst (toggle_alert uid j (al_alerts sys)))"
| "arms i sys _ = False"

fun armings :: "int \<Rightarrow> alert_system \<Rightarrow> alert_event list \<Rightarrow> nat" where
  "armings i sys [] = 0"
| "armings i sys (e # es) = (if arms i sys e then 1 else 0) + armings i (alert_step sys e) es"

definition kept_armed :: "int \<Rightarrow> alert_system \<Rightarrow> nat" where
  "kept_armed i sys = posts i sys + (if armed i sys then 1 else 0)"

lemma claim_disarms:
  "\<not> list_ex (\<lambda>a. aa_id a = i \<and> aa_enabled a) (snd (claim_alert_for_fire i t rows))"
  "j \<noteq> i \<Longrightarrow> list_ex (\<lambda>a. aa_id a = j \<and> aa_enabled a) (snd (claim_alert_for_fire i t rows)) = list_ex (\<lambda>a. aa_id a = j \<and> aa_enabled a) rows"
  by (induction rows) (simp_all add: claim_alert_for_fire_def row_upd_where_def)

lemma handle_cases:
  obtains (quiet) "al_alerts (handle_alert i e k sys) = al_alerts sys" "al_posted (handle_alert i e k sys) = al_posted sys"
  | (claimed) a c x w where "aw_alerts (al_workers sys i) ! k = (a, Some c)" "aa_enabled a" "\<not> cooling (ev_now e) a"
      "fire_decision (ev_first e) (ev_later e) a (al_workers sys i) = (Some x, w)"
      "al_alerts (handle_alert i e k sys) = snd (claim_alert_for_fire (aa_id a) (ev_now e) (al_alerts sys))"
      "al_posted (handle_alert i e k sys) =
        al_posted sys @ (if armed (aa_id a) sys then [message_of a c x] else [])"
proof -
  obtain a chat where a: "aw_alerts (al_workers sys i) ! k = (a, chat)" by fastforce
  obtain x w where f: "fire_decision (ev_first e) (ev_later e) a (al_workers sys i) = (x, w)" by fastforce
  show thesis
  proof (cases "length (aw_alerts (al_workers sys i)) \<le> k \<or> \<not> aa_enabled a \<or> cooling (ev_now e) a \<or> x = None \<or> chat = None \<or> chat = Some 0")
    case True
    then show thesis by (intro quiet) (auto simp: handle_alert_def Let_def a f split: option.splits)
  next
    case False
    then obtain y c where y: "x = Some y" "chat = Some c" "c \<noteq> 0" by auto
    show thesis
    proof (rule claimed)
      show "aw_alerts (al_workers sys i) ! k = (a, Some c)" "aa_enabled a" "\<not> cooling (ev_now e) a"
        "fire_decision (ev_first e) (ev_later e) a (al_workers sys i) = (Some y, w)" using False a f y by simp_all
      show "al_alerts (handle_alert i e k sys) = snd (claim_alert_for_fire (aa_id a) (ev_now e) (al_alerts sys))"
        using False a f y by (simp add: handle_alert_def Let_def split: prod.splits)
      show "al_posted (handle_alert i e k sys) = al_posted sys @ (if armed (aa_id a) sys then [message_of a c y] else [])"
        using False a f y by (simp add: handle_alert_def Let_def armed_def claim_alert_for_fire_def)
    qed
  qed
qed

lemma handle_held: "kept_armed j (handle_alert i e k sys) \<le> kept_armed j sys"
proof (cases rule: handle_cases [of i e k sys])
  case quiet
  then show ?thesis by (simp add: kept_armed_def posts_def armed_def)
next
  case (claimed a c x w)
  have "am_alert (message_of a c x) = aa_id a" by (cases x) (simp add: message_of_def)
  then show ?thesis using claimed(5,6) claim_disarms(1) [of "aa_id a" "ev_now e" "al_alerts sys"]
      claim_disarms(2) [of j "aa_id a" "ev_now e" "al_alerts sys"]
    by (cases "j = aa_id a") (auto simp: kept_armed_def posts_def armed_def)
qed

lemma routes_held:
  assumes "\<And>a. a \<in> set rows' \<Longrightarrow> aa_id a = j \<Longrightarrow> aa_enabled a \<Longrightarrow> b \<or> (\<exists>c\<in>set (al_alerts sys). aa_id c = j \<and> aa_enabled c)"
  shows "kept_armed j (sys\<lparr>al_alerts := rows'\<rparr>) \<le> kept_armed j sys + (if b then 1 else 0)"
  using assms by (auto simp: kept_armed_def posts_def armed_def list_ex_iff)

lemma create_rows: "a \<in> set (snd (create_alert now uid b rows)) \<Longrightarrow> aa_id a = j \<Longrightarrow> aa_enabled a \<Longrightarrow>
    arms_result j (fst (create_alert now uid b rows)) \<or> (\<exists>c\<in>set rows. aa_id c = j \<and> aa_enabled c)"
  by (auto simp: create_alert_def arms_result_def Let_def split: option.splits if_splits)

lemma token_rows: "a \<in> set (snd (create_token_alert now uid b rows)) \<Longrightarrow> aa_id a = j \<Longrightarrow> aa_enabled a \<Longrightarrow>
    arms_result j (fst (create_token_alert now uid b rows)) \<or> (\<exists>c\<in>set rows. aa_id c = j \<and> aa_enabled c)"
  by (auto simp: create_token_alert_def arms_result_def Let_def split: option.splits if_splits)

lemma update_rows: "a \<in> set (snd (update_alert uid i b rows)) \<Longrightarrow> aa_id a = j \<Longrightarrow> aa_enabled a \<Longrightarrow>
    \<exists>c\<in>set rows. aa_id c = j \<and> aa_enabled c"
  by (auto simp: update_alert_def edit_alert_def row_upd_def split: option.splits if_splits)

lemma delete_rows: "a \<in> set (snd (delete_alert uid i rows)) \<Longrightarrow> a \<in> set rows"
  by (auto simp: delete_alert_def split: option.splits)

text \<open>Ids are distinct, so a toggle that switches on returns the row it armed.\<close>

lemma toggle_rows:
  assumes "distinct (map aa_id rows)" "a \<in> set (snd (toggle_alert uid i rows))" "aa_id a = j" "aa_enabled a"
  shows "arms_result j (fst (toggle_alert uid i rows)) \<or> (\<exists>c\<in>set rows. aa_id c = j \<and> aa_enabled c)"
proof (cases "find (own_alert uid i) rows")
  case None
  then show ?thesis using assms by (auto simp: toggle_alert_def)
next
  case (Some r)
  then have r: "r \<in> set rows" "aa_id r = i" by (auto simp: find_Some_iff own_alert_def in_set_conv_nth)
  obtain c where c: "c \<in> set rows" "a = (if aa_id c = i then flip_enabled c else c)"
    using assms(2) Some by (auto simp: toggle_alert_def row_upd_def)
  show ?thesis
  proof (cases "aa_id c = i")
    case True
    then have "c = r" using assms(1) c(1) r by (auto simp: distinct_map inj_on_def)
    then show ?thesis using Some True c(2) assms(3,4) by (simp add: toggle_alert_def arms_result_def)
  qed (use c assms(3,4) in auto)
qed

definition alerts_ok :: "alert_system \<Rightarrow> bool" where
  "alerts_ok sys \<longleftrightarrow> distinct (map aa_id (al_alerts sys))"

lemma claim_ids: "map aa_id (snd (claim_alert_for_fire i t rows)) = map aa_id rows"
  by (simp add: claim_alert_for_fire_def row_upd_where_def)

lemma fresh_ids: "row_fresh aa_id rows \<notin> aa_id ` set rows"
  by (rule row_fresh_notin)

lemma alerts_step_ok: "alerts_ok sys \<Longrightarrow> alerts_ok (alert_step sys e)"
proof (cases e)
  case (Refreshed i now)
  then show "alerts_ok sys \<Longrightarrow> ?thesis" by (simp add: refresh_alerts_def alerts_ok_def Let_def)
next
  case (Handled i e k)
  then show "alerts_ok sys \<Longrightarrow> ?thesis"
    by (cases rule: handle_cases [of i e k sys]) (simp_all add: alerts_ok_def claim_ids)
next
  case (Alert_Created now uid b)
  then show "alerts_ok sys \<Longrightarrow> ?thesis" using fresh_ids [of "al_alerts sys"]
    by (auto simp: alerts_ok_def create_alert_def alert_of_def Let_def split: option.splits)
next
  case (Token_Created now uid b)
  have "distinct (map aa_id rows) \<Longrightarrow> distinct (map aa_id (filter P rows))" for P rows by (rule distinct_map_filter)
  then show "alerts_ok sys \<Longrightarrow> ?thesis" using Token_Created fresh_ids [of "al_alerts sys"]
    by (auto simp: alerts_ok_def create_token_alert_def alert_of_def Let_def split: option.splits)
next
  case (Alert_Updated uid i b)
  have "map aa_id (row_upd aa_id i (edit_alert b') rows) = map aa_id rows" for b' rows
    by (rule row_upd_keys) (simp add: edit_alert_def)
  then show "alerts_ok sys \<Longrightarrow> ?thesis" using Alert_Updated by (simp add: alerts_ok_def update_alert_def split: option.splits)
next
  case (Alert_Toggled uid i)
  have "map aa_id (row_upd aa_id i flip_enabled rows) = map aa_id rows" for rows
    by (rule row_upd_keys) (simp add: flip_enabled_def)
  then show "alerts_ok sys \<Longrightarrow> ?thesis" using Alert_Toggled by (simp add: alerts_ok_def toggle_alert_def split: option.splits)
next
  case (Alert_Deleted uid i)
  then show "alerts_ok sys \<Longrightarrow> ?thesis" by (simp add: alerts_ok_def delete_alert_def distinct_map_filter split: option.splits)
next
  case (Led up now)
  then show "alerts_ok sys \<Longrightarrow> ?thesis" by (simp add: lead_def alerts_ok_def split: option.splits)
qed

interpretation alerts_machine: inv_machine alert_step alerts_ok
  by unfold_locales (rule alerts_step_ok)

lemma step_held:
  assumes "alerts_ok sys"
  shows "kept_armed j (alert_step sys e) \<le> kept_armed j sys + (if arms j sys e then 1 else 0)"
proof (cases e)
  case (Refreshed i now)
  then show ?thesis by (simp add: refresh_alerts_def kept_armed_def posts_def armed_def Let_def)
next
  case (Handled i env k)
  then show ?thesis using handle_held by simp
next
  case (Alert_Created now uid b)
  have "kept_armed j (sys\<lparr>al_alerts := snd (create_alert now uid b (al_alerts sys))\<rparr>)
      \<le> kept_armed j sys + (if arms_result j (fst (create_alert now uid b (al_alerts sys))) then 1 else 0)"
    by (rule routes_held) (rule create_rows)
  then show ?thesis using Alert_Created by simp
next
  case (Token_Created now uid b)
  have "kept_armed j (sys\<lparr>al_alerts := snd (create_token_alert now uid b (al_alerts sys))\<rparr>)
      \<le> kept_armed j sys + (if arms_result j (fst (create_token_alert now uid b (al_alerts sys))) then 1 else 0)"
    by (rule routes_held) (rule token_rows)
  then show ?thesis using Token_Created by simp
next
  case (Alert_Updated uid i b)
  then show ?thesis using routes_held [of "snd (update_alert uid i b (al_alerts sys))" j False sys] update_rows [of _ uid i b "al_alerts sys" j] by simp
next
  case (Alert_Toggled uid i)
  have "kept_armed j (sys\<lparr>al_alerts := snd (toggle_alert uid i (al_alerts sys))\<rparr>)
      \<le> kept_armed j sys + (if arms_result j (fst (toggle_alert uid i (al_alerts sys))) then 1 else 0)"
    by (rule routes_held) (rule toggle_rows [OF assms [unfolded alerts_ok_def]])
  then show ?thesis using Alert_Toggled by simp
next
  case (Alert_Deleted uid i)
  then show ?thesis using routes_held [of "snd (delete_alert uid i (al_alerts sys))" j False sys] delete_rows [of _ uid i "al_alerts sys"] by auto
next
  case (Led up now)
  then show ?thesis by (simp add: lead_def kept_armed_def posts_def armed_def split: option.splits)
qed

lemma run_held: "alerts_ok sys \<Longrightarrow> kept_armed j (foldl alert_step sys es) \<le> kept_armed j sys + armings j sys es"
proof (induction es arbitrary: sys)
  case (Cons e es)
  have "kept_armed j (foldl alert_step (alert_step sys e) es) \<le> kept_armed j (alert_step sys e) + armings j (alert_step sys e) es"
    by (rule Cons.IH) (rule alerts_step_ok [OF Cons.prems])
  then show ?case using step_held [OF Cons.prems, of j e] by simp
qed simp

text \<open>
  C7. Whatever the workers and the users do, each worker with an old memory of the alerts, an alert is posted
  at most as often as it was created or switched on; while it is armed, one post fewer.
\<close>

theorem alert_posted_once_per_arming:
  assumes "alerts_ok sys" "al_posted sys = []" "\<not> armed i sys"
  shows "posts i (foldl alert_step sys es) + (if armed i (foldl alert_step sys es) then 1 else 0) \<le> armings i sys es"
  using run_held [OF assms(1), of i es] assms(2,3) by (simp add: kept_armed_def posts_def)

section \<open>What a message says\<close>

definition of_symbol :: "string \<Rightarrow> json \<Rightarrow> bool" where
  "of_symbol s opp \<longleftrightarrow> get_key opp ''symbol'' = Inr (J_Str s)"

lemma best_pair_is_best:
  assumes "best_pair_from_opps s lf sf best opps = Inr (Some (l, sh, x))"
  shows "(best = Some (l, sh, x) \<or> (\<exists>opp\<in>set opps. of_symbol s opp \<and> opp_spread opp = Inr x)) \<and>
    (\<forall>opp\<in>set opps. of_symbol s opp \<longrightarrow> (\<exists>y. opp_spread opp = Inr y \<and> \<bar>y\<bar> \<le> \<bar>x\<bar>)) \<and>
    (\<forall>a b y. best = Some (a, b, y) \<longrightarrow> \<bar>y\<bar> \<le> \<bar>x\<bar>)"
  using assms
proof (induction opps arbitrary: best)
  case (Cons opp opps)
  obtain v where v: "get_key opp ''symbol'' = Inr v" using Cons.prems by (auto simp: bind_res_Inr)
  show ?case
  proof (cases "v = J_Str s")
    case False
    then have "best_pair_from_opps s lf sf best opps = Inr (Some (l, sh, x))" using Cons.prems v by simp
    from Cons.IH [OF this] False v show ?thesis by (simp add: of_symbol_def)
  next
    case True
    then obtain y where y: "opp_spread opp = Inr y" using Cons.prems v by (auto simp: bind_res_Inr)
    show ?thesis
    proof (cases "case best of None \<Rightarrow> True | Some (_, _, z) \<Rightarrow> \<bar>z\<bar> < \<bar>y\<bar>")
      case taken: True
      then obtain a b where "best_pair_from_opps s lf sf (Some (a, b, y)) opps = Inr (Some (l, sh, x))"
        using Cons.prems v True y by (auto simp: bind_res_Inr)
      note IH = Cons.IH [OF this]
      moreover have "\<bar>y\<bar> \<le> \<bar>x\<bar>" using IH by blast
      moreover have "\<bar>z\<bar> \<le> \<bar>x\<bar>" if "best = Some (c, d, z)" for c d z using that taken \<open>\<bar>y\<bar> \<le> \<bar>x\<bar>\<close> by simp
      moreover have "of_symbol s opp" using v True by (simp add: of_symbol_def)
      ultimately show ?thesis using y by (simp add: of_symbol_def) (metis prod.inject)
    next
      case False
      then obtain a b z where z: "best = Some (a, b, z)" "\<bar>y\<bar> \<le> \<bar>z\<bar>" by (auto split: option.splits)
      have "best_pair_from_opps s lf sf best opps = Inr (Some (l, sh, x))" using Cons.prems v True y False by simp
      note IH = Cons.IH [OF this]
      then have "\<bar>z\<bar> \<le> \<bar>x\<bar>" using z(1) by blast
      then have "\<bar>y\<bar> \<le> \<bar>x\<bar>" using z(2) by simp
      then show ?thesis using IH y by (simp add: of_symbol_def) blast
    qed
  qed
qed auto

lemma spread_is_listed:
  assumes "get_spread_from_opps s le se lf sf opps = Inr (Some x)"
  shows "\<exists>opp\<in>set opps. of_symbol s opp \<and> opp_spread opp = Inr x \<and> is_venue opp lf le = Inr True \<and> is_venue opp sf se = Inr True"
  using assms
proof (induction opps)
  case (Cons opp opps)
  then show ?case by (auto simp: bind_res_Inr of_symbol_def split: if_splits)
qed simp

text \<open>The opportunities a worker reads: the file of now, or what it read less than a quarter of a second before.\<close>

definition opps_read :: "reading list \<Rightarrow> string \<Rightarrow> alert_worker \<Rightarrow> json \<Rightarrow> bool" where
  "opps_read rds mode w x \<longleftrightarrow> (\<exists>rd\<in>set rds. x = opportunities_in (rg_file rd (fst (mode_meta mode)))) \<or>
     (\<exists>rd\<in>set rds. \<exists>t. aw_opps w mode = Some (t, x) \<and> rg_monotonic rd - t < 1 / 4)"

lemma load_read:
  assumes "load_arb_cache rd mode w = (x, w')"
  shows "opps_read [rd] mode w x \<and> (aw_opps w' mode = aw_opps w mode \<or> (\<exists>t. aw_opps w' mode = Some (t, opportunities_in (rg_file rd (fst (mode_meta mode))))))"
  using assms by (auto simp: load_arb_cache_def opps_read_def opps_ttl_def Let_def split: option.splits if_splits)

text \<open>The spread of an opportunity of the symbol; for any pair, of the largest one.\<close>

definition spread_read :: "alert \<Rightarrow> json \<Rightarrow> rat \<Rightarrow> bool" where
  "spread_read a opps x \<longleftrightarrow> (\<exists>ys. py_iter opps = Inr ys \<and> (\<exists>opp\<in>set ys. of_symbol (aa_symbol a) opp \<and> opp_spread opp = Inr x \<and>
       (any_pair a \<longrightarrow> (\<forall>o'\<in>set ys. of_symbol (aa_symbol a) o' \<longrightarrow> (\<exists>y. opp_spread o' = Inr y \<and> \<bar>y\<bar> \<le> \<bar>x\<bar>)))))"

abbreviation mode_of :: "alert \<Rightarrow> string" where
  "mode_of a \<equiv> text_else (aa_mode a) ''futures''"

lemma watched_read:
  assumes "watched_spread rd a w = (Some x, w')"
  shows "(\<exists>opps. opps_read [rd] (mode_of a) w opps \<and> spread_read a opps (snd (snd x))) \<and>
    (aw_opps w' (mode_of a) = aw_opps w (mode_of a) \<or> (\<exists>t. aw_opps w' (mode_of a) = Some (t, opportunities_in (rg_file rd (fst (mode_meta (mode_of a)))))))"
proof -
  obtain opps w1 where l: "load_arb_cache rd (mode_of a) w = (opps, w1)" by fastforce
  obtain p q v where x: "x = (p, q, v)" by (metis prod_cases3)
  show ?thesis
  proof (cases "any_pair a")
    case True
    then have w: "w' = w1" and b: "or_none (bind_res (py_iter opps)
        (best_pair_from_opps (aa_symbol a) (snd (mode_meta (mode_of a))) (short_field_for_mode (mode_of a)) None)) = Some x"
      using assms l by (auto simp: watched_spread_def best_pair_for_symbol_def Let_def)
    then obtain ys where ys: "py_iter opps = Inr ys"
        "best_pair_from_opps (aa_symbol a) (snd (mode_meta (mode_of a))) (short_field_for_mode (mode_of a)) None ys = Inr (Some (p, q, v))"
      using x by (cases "py_iter opps") (auto simp: or_none_def bind_res_Inr split: sum.splits)
    have "spread_read a opps v" using best_pair_is_best [OF ys(2)] ys(1) by (auto simp: spread_read_def)
    then show ?thesis using load_read [OF l] w x by auto
  next
    case False
    then have w: "w' = w1" and b: "or_none (bind_res (py_iter opps)
        (get_spread_from_opps (aa_symbol a) (aa_long_exchange a) (aa_short_exchange a) (snd (mode_meta (mode_of a))) (short_field_for_mode (mode_of a)))) = Some v"
      using assms l x by (auto simp: watched_spread_def get_spread_def Let_def split: prod.splits)
    then obtain ys where ys: "py_iter opps = Inr ys"
        "get_spread_from_opps (aa_symbol a) (aa_long_exchange a) (aa_short_exchange a) (snd (mode_meta (mode_of a))) (short_field_for_mode (mode_of a)) ys = Inr (Some v)"
      by (cases "py_iter opps") (auto simp: or_none_def bind_res_Inr split: sum.splits)
    have "spread_read a opps v" using spread_is_listed [OF ys(2)] ys(1) False by (auto simp: spread_read_def)
    then show ?thesis using load_read [OF l] w x by auto
  qed
qed

lemma opps_read_later:
  assumes "opps_read [rd] mode w1 opps"
    "aw_opps w1 mode = aw_opps w mode \<or> (\<exists>t. aw_opps w1 mode = Some (t, opportunities_in (rg_file rd1 (fst (mode_meta mode)))))"
  shows "opps_read [rd1, rd] mode w opps"
  using assms by (auto simp: opps_read_def)

lemma decision_read:
  assumes "fire_decision rd later a w = (Some x, w')"
  shows "triggered a (snd (snd x)) \<and> (\<exists>opps. opps_read [rd, later] (mode_of a) w opps \<and> spread_read a opps (snd (snd x)))"
proof -
  obtain y w1 where y: "watched_spread rd a w = (Some y, w1)" "triggered a (snd (snd y))"
    using assms by (auto simp: fire_decision_def split: option.splits prod.splits if_splits)
  note one = watched_read [OF y(1)]
  show ?thesis
  proof (cases "text_else (aa_trigger_mode a) ''speed'' = ''protected''")
    case True
    then have z: "watched_spread later a w1 = (Some x, w')" "triggered a (snd (snd x))"
      using assms y by (auto simp: fire_decision_def split: option.splits prod.splits if_splits)
    from watched_read [OF z(1)] obtain opps where "opps_read [later] (mode_of a) w1 opps" "spread_read a opps (snd (snd x))" by blast
    then show ?thesis using one z(2) opps_read_later by blast
  next
    case False
    then have "x = y" using assms y by (simp add: fire_decision_def)
    moreover have "opps_read [rd] (mode_of a) w opps \<Longrightarrow> opps_read [rd, later] (mode_of a) w opps" for opps by (auto simp: opps_read_def)
    ultimately show ?thesis using one y(2) by blast
  qed
qed


section \<open>A small system\<close>

definition alert_user :: user where
  "alert_user = (new_user 1 ''ann'' 0)\<lparr>u_tg_chat_id := Some 55\<rparr>"

definition alerts_start :: alert_system where
  "alerts_start = \<lparr>al_alerts = [], al_world = empty_world\<lparr>users := [alert_user]\<rparr>, al_leader = None, al_symbols = [], al_posted = [],
     al_workers = (\<lambda>_. fresh_worker), al_counters = (\<lambda>_. \<lparr>tg_sent_ok = 0, tg_attempt = 0, tg_failed_final = 0, tg_rate_limited = 0\<rparr>)\<rparr>"

definition btc_body :: "string \<Rightarrow> alert_body" where
  "btc_body dir = \<lparr>bd_symbol = ''btc '', bd_long_exchange = ''any'', bd_short_exchange = ''*'', bd_threshold = 1, bd_direction = dir,
     bd_mode = ''futures'', bd_trigger_mode = ''speed''\<rparr>"

definition sample_opp :: "string \<Rightarrow> rat \<Rightarrow> json" where
  "sample_opp ex x = J_Obj [(''symbol'', J_Str ''BTC''), (''long_exchange'', J_Str ex), (''short_exchange'', J_Str ''okx''), (''in_pct'', J_Num x)]"

definition sample_reading :: "json list \<Rightarrow> reading" where
  "sample_reading opps = \<lparr>rg_monotonic = 30, rg_file = (\<lambda>f. Some (J_Obj [(''opportunities'', J_Arr opps)]))\<rparr>"

definition sample_look :: "time \<Rightarrow> json list \<Rightarrow> alert_env" where
  "sample_look now opps = \<lparr>ev_now = now, ev_first = sample_reading opps, ev_later = sample_reading opps,
     ev_answer = Tg_Reply 200 (Some (J_Obj [(''ok'', J_Bool True)]))\<rparr>"

text \<open>Two workers hold the alert; both see the spread.\<close>

definition two_workers :: "alert_event list" where
  "two_workers = [Alert_Created 0 1 (btc_body ''above''), Refreshed 0 20, Refreshed 1 20,
     Handled 0 (sample_look 5 [sample_opp ''gate'' 2, sample_opp ''mexc'' 3]) 0,
     Handled 1 (sample_look 6 [sample_opp ''gate'' 2, sample_opp ''mexc'' 3]) 0]"

lemma two_workers_post: "map am_spread (al_posted (foldl alert_step alerts_start two_workers)) = [3]"
  "armings 1 alerts_start two_workers = 1"
  by code_simp+

lemma alert_posted_once_per_arming_witness:
  "posts 1 (foldl alert_step alerts_start two_workers) = 1"
proof -
  have "alerts_ok alerts_start" "al_posted alerts_start = []" "\<not> armed 1 alerts_start"
    by (simp_all add: alerts_ok_def alerts_start_def armed_def)
  from alert_posted_once_per_arming [OF this, of two_workers] have "posts 1 (foldl alert_step alerts_start two_workers) \<le> 1"
    using two_workers_post(2) by simp
  moreover have "1 \<le> posts 1 (foldl alert_step alerts_start two_workers)" by code_simp
  ultimately show ?thesis by simp
qed

definition watched_system :: alert_system where
  "watched_system = foldl alert_step alerts_start [Alert_Created 0 1 (btc_body ''above''), Refreshed 0 20]"


section \<open>Where it is silent\<close>

text \<open>
  The pair with the largest spread in either direction stands for the symbol: a larger negative spread
  hides a pair that is above the threshold.
\<close>

lemma any_pair_hides:
  "al_posted (handle_alert 0 (sample_look 5 [sample_opp ''gate'' 2, sample_opp ''mexc'' (-3)]) 0 watched_system) = []"
  by code_simp

text \<open>
  The message invites to switch the alert on again for the next one; switched on, it stays silent until an
  hour after the last.
\<close>

lemma rearmed_is_silent:
  "(let sys = foldl alert_step alerts_start (two_workers @ [Alert_Toggled 1 1, Refreshed 0 40,
      Handled 0 (sample_look 3600000000 [sample_opp ''gate'' 9]) 0])
    in length (al_posted sys) = 1 \<and> armed 1 sys)"
  by code_simp

text \<open>The key of the leader outlives its own next tick: half of the ticks of a single worker are lost.\<close>

lemma leader_locks_itself_out:
  "fst (lead True (1 / 2) (snd (lead True 0 alerts_start))) = False"
  by code_simp

text \<open>An edited alert is checked by its old threshold as long as the memory of the worker is.\<close>

lemma edited_alert_fires:
  "map am_threshold (al_posted (foldl alert_step watched_system
     [Alert_Updated 1 1 ((btc_body ''above'')\<lparr>bd_threshold := 40\<rparr>), Handled 0 (sample_look 5 [sample_opp ''gate'' 2]) 0])) = [1]"
  by code_simp

end
