(* ===== verification/Fund_Streams.thy ===== *)
theory Fund_Streams
  imports Book_Streams
begin

text \<open>
  The funding streams of the venues, \<^verbatim>\<open>backend/services/funding_ws/adapters.py\<close>: what each adapter
  subscribes to, and the rows it reads from a message. A row is a dict whose absent and null values are
  none; an exception of a parser drops the message.
\<close>

section \<open>Rows\<close>

record fund_row =
  fw_symbol :: string
  fw_price :: "rat option"
  fw_rate :: "rat option"
  fw_next_ts :: "int option"
  fw_interval_h :: "rat option"
  fw_volume_usd :: "rat option"

definition bare_row :: "string \<Rightarrow> fund_row" where
  "bare_row s = \<lparr>fw_symbol = s, fw_price = None, fw_rate = None, fw_next_ts = None, fw_interval_h = None, fw_volume_usd = None\<rparr>"

text \<open>\<open>int(x)\<close>.\<close>

definition trunc :: "rat \<Rightarrow> int" where
  "trunc x = (if 0 \<le> x then \<lfloor>x\<rfloor> else \<lceil>x\<rceil>)"

fun py_int :: "json \<Rightarrow> py_error + int" where
  "py_int (J_Int n) = Inr n"
| "py_int (J_Num x) = Inr (trunc x)"
| "py_int (J_Bool b) = Inr (if b then 1 else 0)"
| "py_int (J_Str s) = (case parse_int s of None \<Rightarrow> Inl Value_Error | Some n \<Rightarrow> Inr n)"
| "py_int _ = Inl Type_Error"

text \<open>
  \<open>float(x.get(k) or 0)\<close>, with a second key to try; \<open>float(x[k]) if x.get(k) else None\<close>;
  \<open>float(x[k]) if x.get(k) is not None else None\<close>; the same for \<open>int\<close>.
\<close>

definition float_or_0 :: "json \<Rightarrow> string \<Rightarrow> py_error + rat" where
  "float_or_0 x k = bind_res (get_key x k) (\<lambda>v. py_float (py_or v (J_Int 0)))"

definition float_of_either :: "json \<Rightarrow> string \<Rightarrow> string \<Rightarrow> py_error + rat" where
  "float_of_either x k k' = bind_res (get_key x k) (\<lambda>v.
     if py_true v then py_float v else float_or_0 x k')"

definition read_if :: "(json \<Rightarrow> bool) \<Rightarrow> (json \<Rightarrow> py_error + 'a) \<Rightarrow> json \<Rightarrow> string \<Rightarrow> py_error + 'a option" where
  "read_if ok rd x k = bind_res (get_key x k) (\<lambda>v. if ok v then bind_res (rd v) (\<lambda>y. Inr (Some y)) else Inr None)"

abbreviation not_null :: "json \<Rightarrow> bool" where "not_null v \<equiv> v \<noteq> J_Null"

text \<open>The first key that gives a value.\<close>

definition or_else_read :: "py_error + 'a option \<Rightarrow> (py_error + 'a option) \<Rightarrow> py_error + 'a option" where
  "or_else_read m m' = bind_res m (\<lambda>v. case v of None \<Rightarrow> m' | Some y \<Rightarrow> Inr (Some y))"

definition ms_to_s :: "json \<Rightarrow> py_error + int" where
  "ms_to_s v = bind_res (py_int v) (\<lambda>n. Inr (n div 1000))"

text \<open>\<open>int(x.get(k) or 0) // 1000\<close>.\<close>

definition seconds_or_0 :: "json \<Rightarrow> string \<Rightarrow> py_error + int" where
  "seconds_or_0 x k = bind_res (get_key x k) (\<lambda>v. ms_to_s (py_or v (J_Int 0)))"

text \<open>\<open>x.get(k, "")\<close> and \<open>x.get(k) or ""\<close> of which a method of texts is called.\<close>

definition text_at :: "json \<Rightarrow> string \<Rightarrow> py_error + string" where
  "text_at x k = bind_res (get_or x k (J_Str [])) as_text"

definition text_else_empty :: "json \<Rightarrow> string \<Rightarrow> py_error + string" where
  "text_else_empty x k = bind_res (get_key x k) (\<lambda>v. as_text (py_or v (J_Str [])))"

text \<open>
  The loop over the items of a message: the symbol, then the row in a try block that skips the item on a
  \<open>ValueError\<close> or a \<open>TypeError\<close>. \<open>tok\<close> gives the token of an item, none for items of no interest.
\<close>

definition tried :: "py_error + 'a \<Rightarrow> py_error + 'a option" where
  "tried m = caught [Value_Error, Type_Error] m"

definition item_row :: "(json \<Rightarrow> py_error + string option) \<Rightarrow> (string \<Rightarrow> json \<Rightarrow> py_error + fund_row) \<Rightarrow> json \<Rightarrow> py_error + fund_row option" where
  "item_row tok row d = bind_res (tok d) (\<lambda>t. case t of None \<Rightarrow> Inr None | Some s \<Rightarrow> tried (row s d))"

definition item_rows :: "(json \<Rightarrow> py_error + string option) \<Rightarrow> (string \<Rightarrow> json \<Rightarrow> py_error + fund_row) \<Rightarrow> json list \<Rightarrow> py_error + fund_row list" where
  "item_rows tok row ds = bind_res (map_res (item_row tok row) ds) (\<lambda>rs. Inr (somes rs))"

definition cut_suffix :: "string \<Rightarrow> py_error + string \<Rightarrow> py_error + string option" where
  "cut_suffix suf m = bind_res m (\<lambda>s. Inr (if ends_with s suf then Some (chop (length suf) s) else None))"

definition one_row :: "py_error + fund_row option \<Rightarrow> py_error + fund_row list" where
  "one_row m = bind_res m (\<lambda>r. Inr (case r of None \<Rightarrow> [] | Some x \<Rightarrow> [x]))"

definition list_or_none :: "json \<Rightarrow> json list" where
  "list_or_none x = (case x of J_Arr xs \<Rightarrow> xs | _ \<Rightarrow> [])"

section \<open>Venues\<close>

text \<open>Binance and Aster: symbols that trade, all of them while the set is not known.\<close>

definition is_tradable :: "string list \<Rightarrow> string \<Rightarrow> bool" where
  "is_tradable trading s \<longleftrightarrow> trading = [] \<or> s \<in> set trading"

definition usdt_token :: "string list \<Rightarrow> string \<Rightarrow> json \<Rightarrow> py_error + string option" where
  "usdt_token trading k d = bind_res (text_at d k) (\<lambda>s.
     Inr (if ends_with s ''USDT'' \<and> is_tradable trading s then Some (chop 4 s) else None))"

definition binance_mark :: "string \<Rightarrow> json \<Rightarrow> py_error + fund_row" where
  "binance_mark s d =
     bind_res (float_or_0 d ''p'') (\<lambda>p. bind_res (float_or_0 d ''r'') (\<lambda>r. bind_res (seconds_or_0 d ''T'') (\<lambda>t.
       Inr ((bare_row s)\<lparr>fw_price := Some p, fw_rate := Some r, fw_next_ts := Some t, fw_interval_h := Some 8\<rparr>))))"

definition binance_volume :: "string \<Rightarrow> json \<Rightarrow> py_error + fund_row" where
  "binance_volume s d = bind_res (float_or_0 d ''q'') (\<lambda>q. Inr ((bare_row s)\<lparr>fw_volume_usd := Some q\<rparr>))"

definition binance_funding :: "string list \<Rightarrow> json \<Rightarrow> py_error + fund_row list" where
  "binance_funding trading msg =
     bind_res (get_key msg ''data'') (\<lambda>data. bind_res (get_or msg ''stream'' (J_Str [])) (\<lambda>st.
       if \<not> py_true data then Inr []
       else bind_res (as_text st) (\<lambda>stream.
         if begins_with stream ''!markPrice'' then item_rows (usdt_token trading ''s'') binance_mark (list_or_none data)
         else if begins_with stream ''!ticker'' then item_rows (usdt_token trading ''s'') binance_volume (list_or_none data)
         else Inr [])))"

definition bybit_row :: "string \<Rightarrow> json \<Rightarrow> py_error + fund_row" where
  "bybit_row s d =
     bind_res (or_else_read (read_if not_null py_float d ''lastPrice'') (read_if not_null py_float d ''markPrice'')) (\<lambda>p.
     bind_res (read_if not_null py_float d ''fundingRate'') (\<lambda>r.
     bind_res (read_if not_null ms_to_s d ''nextFundingTime'') (\<lambda>t.
     bind_res (read_if not_null py_float d ''turnover24h'') (\<lambda>v.
       Inr \<lparr>fw_symbol = s, fw_price = p, fw_rate = r, fw_next_ts = t, fw_interval_h = Some 8, fw_volume_usd = v\<rparr>))))"

definition bybit_funding :: "json \<Rightarrow> py_error + fund_row list" where
  "bybit_funding msg =
     bind_res (get_key msg ''op'') (\<lambda>x. bind_res (get_key msg ''success'') (\<lambda>ok.
       if py_true x \<or> ok \<noteq> J_Null then Inr []
       else bind_res (text_at msg ''topic'') (\<lambda>topic.
         if \<not> begins_with topic ''tickers.'' then Inr []
         else bind_res (get_key msg ''data'') (\<lambda>v. let data = py_or v (J_Obj [])
           in one_row (item_row (\<lambda>d. cut_suffix ''USDT'' (text_at d ''symbol'')) bybit_row data)))))"

definition okx_token :: "json \<Rightarrow> py_error + string option" where
  "okx_token d = bind_res (text_at d ''instId'') (\<lambda>s.
     Inr (if ends_with s ''-USDT-SWAP'' then Some (split_first CHR ''-'' s) else None))"

definition okx_ticker :: "string \<Rightarrow> json \<Rightarrow> py_error + fund_row" where
  "okx_ticker s d =
     bind_res (float_or_0 d ''last'') (\<lambda>p. bind_res (float_or_0 d ''volCcy24h'') (\<lambda>b.
       Inr ((bare_row s)\<lparr>fw_price := Some p, fw_volume_usd := Some (b * p)\<rparr>)))"

definition okx_rate :: "string \<Rightarrow> json \<Rightarrow> py_error + fund_row" where
  "okx_rate s d =
     bind_res (seconds_or_0 d ''fundingTime'') (\<lambda>t. bind_res (float_or_0 d ''fundingRate'') (\<lambda>r.
       Inr ((bare_row s)\<lparr>fw_rate := Some r, fw_next_ts := Some t, fw_interval_h := Some 8\<rparr>)))"

definition okx_funding :: "json \<Rightarrow> py_error + fund_row list" where
  "okx_funding msg =
     bind_res (get_key msg ''event'') (\<lambda>ev.
       if py_true ev then Inr []
       else bind_res (get_or msg ''arg'' (J_Obj [])) (\<lambda>arg. bind_res (get_key arg ''channel'') (\<lambda>ch.
         bind_res (get_key msg ''data'') (\<lambda>data.
           if \<not> py_true data then Inr []
           else if ch = J_Str ''tickers'' then bind_res (py_iter data) (item_rows okx_token okx_ticker)
           else if ch = J_Str ''funding-rate'' then bind_res (py_iter data) (item_rows okx_token okx_rate)
           else Inr []))))"

definition gate_funding_row :: "string \<Rightarrow> json \<Rightarrow> py_error + fund_row" where
  "gate_funding_row s d =
     bind_res (or_else_read (read_if not_null py_float d ''mark_price'') (read_if not_null py_float d ''last'')) (\<lambda>p.
     bind_res (read_if not_null py_float d ''funding_rate'') (\<lambda>r.
     bind_res (read_if not_null (\<lambda>v. py_int (py_or v (J_Int 0))) d ''funding_next_apply'') (\<lambda>t.
     bind_res (or_else_read (read_if not_null py_float d ''volume_24h_usd'') (read_if not_null py_float d ''volume_24h_quote'')) (\<lambda>v.
       Inr \<lparr>fw_symbol = s, fw_price = p, fw_rate = r, fw_next_ts = t, fw_interval_h = Some 8, fw_volume_usd = v\<rparr>))))"

definition gate_funding :: "json \<Rightarrow> py_error + fund_row list" where
  "gate_funding msg =
     bind_res (get_key msg ''channel'') (\<lambda>ch.
       if ch \<noteq> J_Str ''futures.tickers'' then Inr []
       else bind_res (get_key msg ''event'') (\<lambda>ev.
         if ev \<notin> set [J_Str ''all'', J_Str ''update''] then Inr []
         else bind_res (get_key msg ''result'') (\<lambda>result.
           if \<not> py_true result then Inr []
           else item_rows (\<lambda>d. cut_suffix ''_USDT'' (text_else_empty d ''contract'')) gate_funding_row
                  (case result of J_Arr xs \<Rightarrow> xs | _ \<Rightarrow> [result]))))"

definition xbt_token :: "string \<Rightarrow> string" where
  "xbt_token base = (if base = ''XBT'' then ''BTC'' else base)"

text \<open>\<open>(ms / 3600000) if ms else 8\<close> for \<open>ms = int(x.get(k) or 0)\<close>.\<close>

definition granularity_h :: "json \<Rightarrow> string \<Rightarrow> py_error + rat" where
  "granularity_h x k = bind_res (get_key x k) (\<lambda>v. bind_res (py_int (py_or v (J_Int 0))) (\<lambda>ms.
     Inr (if ms = 0 then 8 else of_int ms / 3600000)))"

definition kucoin_funding :: "json \<Rightarrow> py_error + fund_row list" where
  "kucoin_funding msg =
     bind_res (get_key msg ''type'') (\<lambda>ty.
       if ty \<noteq> J_Str ''message'' then Inr []
       else bind_res (text_at msg ''topic'') (\<lambda>topic.
         if \<not> begins_with topic ''/contract/instrument:'' then Inr []
         else bind_res (get_or msg ''subject'' (J_Str [])) (\<lambda>subject. bind_res (get_key msg ''data'') (\<lambda>d.
           let k = split_first CHR '','' (split_rest CHR '':'' topic); data = py_or d (J_Obj [])
           in if \<not> ends_with k ''USDTM'' then Inr []
              else let s = xbt_token (chop 5 k)
                in one_row (bind_res (tried
                    (if subject = J_Str ''mark.index.price''
                     then bind_res (float_or_0 data ''markPrice'') (\<lambda>p. Inr (Some ((bare_row s)\<lparr>fw_price := Some p\<rparr>)))
                     else if subject = J_Str ''funding.rate''
                     then bind_res (get_key data ''predictedValue'') (\<lambda>x. bind_res (get_key data ''value'') (\<lambda>y.
                          bind_res (granularity_h data ''granularity'') (\<lambda>h. let pv = py_or x y
                            in if pv = J_Null then Inr (Some ((bare_row s)\<lparr>fw_interval_h := Some h\<rparr>))
                               else bind_res (py_float pv) (\<lambda>r. Inr (Some ((bare_row s)\<lparr>fw_rate := Some r, fw_interval_h := Some h\<rparr>))))))
                     else Inr None)) (\<lambda>r. Inr (case r of None \<Rightarrow> None | Some x \<Rightarrow> x)))))))"

definition mexc_row :: "string \<Rightarrow> json \<Rightarrow> py_error + fund_row" where
  "mexc_row s d =
     bind_res (or_else_read (read_if not_null py_float d ''lastPrice'') (read_if not_null py_float d ''fairPrice'')) (\<lambda>p.
     bind_res (read_if not_null py_float d ''amount24'') (\<lambda>v.
       Inr ((bare_row s)\<lparr>fw_price := p, fw_interval_h := Some 8, fw_volume_usd := v\<rparr>)))"

definition mexc_funding :: "json \<Rightarrow> py_error + fund_row list" where
  "mexc_funding msg =
     bind_res (get_key msg ''channel'') (\<lambda>ch.
       if ch \<noteq> J_Str ''push.tickers'' then Inr []
       else bind_res (get_key msg ''data'') (\<lambda>data.
         bind_res (py_iter (py_or data (J_Arr []))) (item_rows (\<lambda>d. cut_suffix ''_USDT'' (text_at d ''symbol'')) mexc_row)))"

definition bitget_row :: "string \<Rightarrow> json \<Rightarrow> py_error + fund_row" where
  "bitget_row s d =
     bind_res (float_of_either d ''lastPr'' ''markPr'') (\<lambda>p. bind_res (float_or_0 d ''fundingRate'') (\<lambda>r.
     bind_res (seconds_or_0 d ''nextFundingTime'') (\<lambda>t. bind_res (float_of_either d ''usdtVolume'' ''quoteVolume'') (\<lambda>v.
       Inr \<lparr>fw_symbol = s, fw_price = Some p, fw_rate = Some r, fw_next_ts = Some t, fw_interval_h = Some 8, fw_volume_usd = Some v\<rparr>))))"

definition bitget_funding :: "json \<Rightarrow> py_error + fund_row list" where
  "bitget_funding msg =
     (if msg = J_Str ''pong'' then Inr []
      else bind_res (get_key msg ''event'') (\<lambda>ev.
        if py_true ev then Inr []
        else bind_res (get_or msg ''arg'' (J_Obj [])) (\<lambda>arg. bind_res (get_key arg ''channel'') (\<lambda>ch.
          if ch \<noteq> J_Str ''ticker'' then Inr []
          else bind_res (get_key msg ''data'') (\<lambda>data.
            bind_res (py_iter (py_or data (J_Arr []))) (item_rows (\<lambda>d. cut_suffix ''USDT'' (text_at d ''instId'')) bitget_row))))))"

definition bingx_row :: "bool \<Rightarrow> string \<Rightarrow> json \<Rightarrow> py_error + fund_row" where
  "bingx_row ticker s d =
     (if ticker
      then bind_res (float_of_either d ''c'' ''lastPrice'') (\<lambda>p. bind_res (float_of_either d ''q'' ''turnover'') (\<lambda>v.
             Inr ((bare_row s)\<lparr>fw_price := Some p, fw_volume_usd := Some v\<rparr>)))
      else bind_res (read_if not_null py_float d ''r'') (\<lambda>r. bind_res (read_if not_null (\<lambda>v. ms_to_s (py_or v (J_Int 0))) d ''T'') (\<lambda>t.
           bind_res (read_if not_null py_float d ''p'') (\<lambda>p.
             Inr ((bare_row s)\<lparr>fw_price := p, fw_rate := r, fw_next_ts := t, fw_interval_h := Some 8\<rparr>)))))"

definition bingx_funding :: "json \<Rightarrow> py_error + fund_row list" where
  "bingx_funding msg =
     bind_res (get_key msg ''dataType'') (\<lambda>t. bind_res (get_key msg ''ping'') (\<lambda>ping. let dt = py_or t (J_Str [])
       in if ping \<noteq> J_Null then Inr []
          else bind_res (has_key dt ''@ticker'') (\<lambda>ticker. bind_res (has_key dt ''@markPrice'') (\<lambda>mark.
            if \<not> ticker \<and> \<not> mark then Inr []
            else bind_res (get_key msg ''data'') (\<lambda>data.
              if \<not> py_true data then Inr []
              else one_row (item_row (\<lambda>d. cut_suffix ''-USDT'' (bind_res (as_text dt) (\<lambda>x. Inr (split_first CHR ''@'' x))))
                     (bingx_row ticker) data))))))"

definition whitebit_row :: "string \<Rightarrow> json \<Rightarrow> py_error + fund_row" where
  "whitebit_row s d =
     bind_res (read_if not_null py_float d ''last'') (\<lambda>p.
     bind_res (read_if not_null (\<lambda>v. py_float (py_or v (J_Int 0))) d ''deal'') (\<lambda>v.
     bind_res (read_if not_null py_float d ''funding_rate'') (\<lambda>r.
       Inr ((bare_row s)\<lparr>fw_price := p, fw_rate := r, fw_interval_h := Some 8, fw_volume_usd := v\<rparr>))))"

text \<open>\<open>x.items()\<close>.\<close>

definition items_of :: "json \<Rightarrow> py_error + (string \<times> json) list" where
  "items_of x = (case x of J_Obj kvs \<Rightarrow> Inr kvs | _ \<Rightarrow> Inl Attribute_Error)"

definition perp_rows :: "(string \<Rightarrow> json \<Rightarrow> py_error + fund_row) \<Rightarrow> (string \<times> json) list \<Rightarrow> py_error + fund_row list" where
  "perp_rows row kvs =
     bind_res (map_res (\<lambda>(market, info). if ends_with market ''_PERP'' then tried (row (chop 5 market) info) else Inr None) kvs)
       (\<lambda>rs. Inr (somes rs))"

definition whitebit_funding :: "json \<Rightarrow> py_error + fund_row list" where
  "whitebit_funding msg =
     bind_res (get_key msg ''method'') (\<lambda>m.
       if m \<noteq> J_Str ''markets_update'' then Inr []
       else bind_res (get_key msg ''params'') (\<lambda>p. let params = py_or p (J_Arr [])
         in bind_res (py_len params) (\<lambda>n.
           if n < 2 then Inr []
           else bind_res (item_at params 1) (\<lambda>x. bind_res (items_of (py_or x (J_Obj []))) (perp_rows whitebit_row)))))"

text \<open>Hyperliquid pays every hour. Its coins are texts.\<close>

definition hyperliquid_row :: "string \<Rightarrow> json \<Rightarrow> py_error + fund_row" where
  "hyperliquid_row s ctx =
     bind_res (read_if not_null py_float ctx ''markPx'') (\<lambda>p. bind_res (read_if not_null py_float ctx ''funding'') (\<lambda>r.
     bind_res (read_if not_null py_float ctx ''dayNtlVlm'') (\<lambda>v.
       Inr ((bare_row s)\<lparr>fw_price := p, fw_rate := r, fw_interval_h := Some 1, fw_volume_usd := v\<rparr>))))"

definition hyperliquid_funding :: "json \<Rightarrow> py_error + fund_row list" where
  "hyperliquid_funding msg =
     bind_res (get_key msg ''channel'') (\<lambda>ch.
       if ch \<noteq> J_Str ''activeAssetCtx'' then Inr []
       else bind_res (get_key msg ''data'') (\<lambda>x. let data = py_or x (J_Obj [])
         in bind_res (get_key data ''coin'') (\<lambda>coin. bind_res (get_key data ''ctx'') (\<lambda>y.
           if \<not> py_true coin then Inr []
           else bind_res (as_text coin) (\<lambda>s. one_row (tried (hyperliquid_row s (py_or y (J_Obj [])))))))))"

text \<open>Paradex: the end of the running window of eight hours.\<close>

definition next_window :: "int \<Rightarrow> int" where
  "next_window now = (now div 28800 + 1) * 28800"

definition paradex_values :: "int \<Rightarrow> string \<Rightarrow> rat \<Rightarrow> rat \<Rightarrow> rat \<Rightarrow> fund_row option" where
  "paradex_values now s p r v =
     (if p \<le> 0 then None
      else Some \<lparr>fw_symbol = s, fw_price = Some p, fw_rate = Some r, fw_next_ts = Some (next_window now), fw_interval_h = Some 8,
                fw_volume_usd = Some (v * p)\<rparr>)"

definition flat_row :: "py_error + 'a option option \<Rightarrow> py_error + 'a option" where
  "flat_row m = bind_res m (\<lambda>r. Inr (case r of None \<Rightarrow> None | Some x \<Rightarrow> x))"

definition paradex_funding :: "int \<Rightarrow> json \<Rightarrow> py_error + fund_row list" where
  "paradex_funding now msg =
     bind_res (get_key msg ''method'') (\<lambda>m.
       if m \<noteq> J_Str ''subscription'' then Inr []
       else bind_res (get_key msg ''params'') (\<lambda>x. let params = py_or x (J_Obj [])
         in bind_res (get_key params ''channel'') (\<lambda>ch.
           if py_or ch (J_Str []) \<noteq> J_Str ''markets_summary.ALL'' then Inr []
           else bind_res (get_key params ''data'') (\<lambda>y. let data = py_or y (J_Obj [])
             in bind_res (cut_suffix ''-USD-PERP'' (text_else_empty data ''symbol'')) (\<lambda>t. case t of
                  None \<Rightarrow> Inr []
                | Some s \<Rightarrow>
                    if s = [] then Inr []
                    else one_row (flat_row (tried (bind_res (float_or_0 data ''mark_price'') (\<lambda>p.
                      bind_res (float_or_0 data ''funding_rate'') (\<lambda>r. bind_res (float_or_0 data ''volume_24h'') (\<lambda>v.
                        Inr (paradex_values now s p r v))))))))))))"

definition funding_names :: "string list" where
  "funding_names = [''binance'', ''aster'', ''bybit'', ''okx'', ''gate'', ''kucoin'', ''mexc'', ''bitget'', ''bingx'', ''whitebit'',
     ''hyperliquid'', ''paradex'']"

definition is_ws_funding_supported :: "string \<Rightarrow> bool" where
  "is_ws_funding_supported ex \<longleftrightarrow> ex \<in> set funding_names"

text \<open>The parser of a venue, for the seconds of now and the symbols that trade.\<close>

definition parse_funding :: "string \<Rightarrow> int \<Rightarrow> string list \<Rightarrow> json \<Rightarrow> py_error + fund_row list" where
  "parse_funding name now trading msg =
     (if name = ''binance'' \<or> name = ''aster'' then binance_funding trading msg
      else if name = ''bybit'' then bybit_funding msg
      else if name = ''okx'' then okx_funding msg
      else if name = ''gate'' then gate_funding msg
      else if name = ''kucoin'' then kucoin_funding msg
      else if name = ''mexc'' then mexc_funding msg
      else if name = ''bitget'' then bitget_funding msg
      else if name = ''bingx'' then bingx_funding msg
      else if name = ''whitebit'' then whitebit_funding msg
      else if name = ''hyperliquid'' then hyperliquid_funding msg
      else paradex_funding now msg)"

section \<open>Subscriptions\<close>

definition obj_strs :: "(string \<times> string) list \<Rightarrow> json" where
  "obj_strs kvs = J_Obj (map (\<lambda>(k, v). (k, J_Str v)) kvs)"

definition subscribe_args :: "json list \<Rightarrow> json" where
  "subscribe_args args = J_Obj [(''op'', J_Str ''subscribe''), (''args'', J_Arr args)]"

definition bybit_funding_subscribe :: "string list \<Rightarrow> json list" where
  "bybit_funding_subscribe syms = map (\<lambda>c. subscribe_args (map (\<lambda>s. J_Str (''tickers.'' @ s)) c)) (chunks 10 syms)"

definition okx_funding_subscribe :: "string list \<Rightarrow> json list" where
  "okx_funding_subscribe insts =
     concat (map (\<lambda>ch. map (\<lambda>c. subscribe_args (map (\<lambda>s. obj_strs [(''channel'', ch), (''instId'', s)]) c)) (chunks 200 insts))
       [''tickers'', ''funding-rate''])"

definition gate_funding_subscribe :: "int \<Rightarrow> json list" where
  "gate_funding_subscribe now =
     [J_Obj [(''time'', J_Int now), (''channel'', J_Str ''futures.tickers''), (''event'', J_Str ''subscribe''),
             (''payload'', J_Arr [J_Str ''!all''])]]"

text \<open>\<open>uuid i\<close> is the i-th fresh identifier.\<close>

definition kucoin_funding_subscribe :: "(nat \<Rightarrow> string) \<Rightarrow> string list \<Rightarrow> json list" where
  "kucoin_funding_subscribe uuid syms =
     map (\<lambda>(i, c). J_Obj [(''id'', J_Str (uuid i)), (''type'', J_Str ''subscribe''),
                  (''topic'', J_Str (''/contract/instrument:'' @ joined '','' c)), (''response'', J_Bool True)])
       (enumerate 0 (chunks 50 syms))"

definition mexc_funding_subscribe :: "json list" where
  "mexc_funding_subscribe = [J_Obj [(''method'', J_Str ''sub.tickers''), (''param'', J_Obj [])]]"

definition bitget_funding_subscribe :: "string list \<Rightarrow> json list" where
  "bitget_funding_subscribe syms =
     map (\<lambda>c. subscribe_args (map (\<lambda>s. obj_strs [(''instType'', ''USDT-FUTURES''), (''channel'', ''ticker''), (''instId'', s)]) c))
       (chunks 100 syms)"

definition bingx_funding_subscribe :: "string list \<Rightarrow> json list" where
  "bingx_funding_subscribe syms =
     concat (map (\<lambda>(i, s). [obj_strs [(''id'', ''t-'' @ nat_str i), (''reqType'', ''sub''), (''dataType'', s @ ''@ticker'')],
                            obj_strs [(''id'', ''m-'' @ nat_str i), (''reqType'', ''sub''), (''dataType'', s @ ''@markPrice'')]])
       (enumerate 0 syms))"

definition whitebit_funding_subscribe :: "json list" where
  "whitebit_funding_subscribe = [J_Obj [(''id'', J_Int 1), (''method'', J_Str ''markets_subscribe''), (''params'', J_Arr [])]]"

definition hyperliquid_funding_subscribe :: "string list \<Rightarrow> json list" where
  "hyperliquid_funding_subscribe syms =
     map (\<lambda>s. J_Obj [(''method'', J_Str ''subscribe''), (''subscription'', obj_strs [(''type'', ''activeAssetCtx''), (''coin'', s)])]) syms"

definition paradex_funding_subscribe :: "json list" where
  "paradex_funding_subscribe =
     [J_Obj [(''jsonrpc'', J_Str ''2.0''), (''method'', J_Str ''subscribe''),
             (''params'', obj_strs [(''channel'', ''markets_summary.ALL'')]), (''id'', J_Int 1)]]"

text \<open>
  The frames a venue is sent on connecting: none when the URL says it all (Binance, Aster), or while the
  symbols are not known.
\<close>

definition subscribe_funding :: "string \<Rightarrow> (nat \<Rightarrow> string) \<Rightarrow> int \<Rightarrow> string list \<Rightarrow> json list" where
  "subscribe_funding name uuid now syms =
     (if name = ''bybit'' then bybit_funding_subscribe syms
      else if name = ''okx'' then okx_funding_subscribe syms
      else if name = ''gate'' then gate_funding_subscribe now
      else if name = ''kucoin'' then kucoin_funding_subscribe uuid syms
      else if name = ''mexc'' then mexc_funding_subscribe
      else if name = ''bitget'' then bitget_funding_subscribe syms
      else if name = ''bingx'' then bingx_funding_subscribe syms
      else if name = ''whitebit'' then whitebit_funding_subscribe
      else if name = ''hyperliquid'' then hyperliquid_funding_subscribe syms
      else if name = ''paradex'' then paradex_funding_subscribe
      else [])"

text \<open>The frame of the application level heartbeat.\<close>

definition funding_heartbeat :: "string \<Rightarrow> string option" where
  "funding_heartbeat name =
     (if name = ''bybit'' then Some ''{\"op\":\"ping\"}''
      else if name = ''kucoin'' then Some ''{\"id\":\"ping\",\"type\":\"ping\"}''
      else if name = ''mexc'' then Some ''{\"method\":\"ping\"}''
      else if name = ''bitget'' then Some ''ping''
      else None)"

end
