(* ===== verification/Fund_Rest.thy ===== *)
theory Fund_Rest
  imports Fund_Streams
begin

text \<open>
  The REST side of the funding streams (\<^verbatim>\<open>rest_refresh_sync\<close>, \<^verbatim>\<open>_load_symbols\<close> and the set of trading
  symbols in \<^verbatim>\<open>backend/services/funding_ws/adapters.py\<close>): every two seconds or so the rows are read by
  request, next to the stream. What the venues answer is an argument.
\<close>

section \<open>Answers\<close>

text \<open>A call raises, or answers with a status and a body; reading the body as JSON may raise too.\<close>

datatype answer = Call_Raised string | Answer int "string + json"

text \<open>The text of a Python error in a parser names no status of HTTP.\<close>

definition as_raised :: "py_error + 'a \<Rightarrow> string + 'a" where
  "as_raised m = (case m of Inl _ \<Rightarrow> Inl [] | Inr v \<Rightarrow> Inr v)"

text \<open>\<open>if r.status_code != 200: return None\<close>, then \<open>r.json()\<close>.\<close>

definition body_of :: "answer \<Rightarrow> string + json option" where
  "body_of a =
     (case a of
        Call_Raised msg \<Rightarrow> Inl msg
      | Answer status body \<Rightarrow>
          if status \<noteq> 200 then Inr None
          else (case body of Inl msg \<Rightarrow> Inl msg | Inr x \<Rightarrow> Inr (Some x)))"

type_synonym refreshed = "string + fund_row list option"

definition with_body :: "answer \<Rightarrow> (json \<Rightarrow> py_error + fund_row list) \<Rightarrow> refreshed" where
  "with_body a f = bind_res (body_of a) (\<lambda>b. case b of None \<Rightarrow> Inr None | Some x \<Rightarrow> bind_res (as_raised (f x)) (\<lambda>rows. Inr (Some rows)))"

text \<open>The call is in a try block of its own: raising is no answer.\<close>

definition call_tried :: "answer \<Rightarrow> string + json option" where
  "call_tried a = (case a of Call_Raised _ \<Rightarrow> Inr None | _ \<Rightarrow> body_of a)"

text \<open>\<open>out or None\<close>.\<close>

definition or_nothing :: "fund_row list \<Rightarrow> fund_row list option" where
  "or_nothing rows = (if rows = [] then None else Some rows)"

text \<open>\<open>for d in (x.get(k) or [])\<close>.\<close>

definition items_at :: "json \<Rightarrow> string \<Rightarrow> py_error + json list" where
  "items_at x k = bind_res (get_key x k) (\<lambda>v. py_iter (py_or v (J_Arr [])))"

abbreviation true_float :: "json \<Rightarrow> string \<Rightarrow> py_error + rat option" where
  "true_float \<equiv> read_if py_true py_float"

text \<open>\<open>x or None\<close> of a number.\<close>

definition non_zero :: "'a::zero \<Rightarrow> 'a option" where
  "non_zero x = (if x = 0 then None else Some x)"

section \<open>Rows by request\<close>

text \<open>A dict of volumes by symbol, filled from the tickers that can be read.\<close>

definition volume_of :: "string \<Rightarrow> json \<Rightarrow> py_error + (string \<times> rat) option" where
  "volume_of k t = bind_res (text_at t ''symbol'') (\<lambda>s.
     if ends_with s ''USDT'' then bind_res (tried (float_or_0 t k)) (\<lambda>v. Inr (map_option (\<lambda>x. (s, x)) v)) else Inr None)"

definition volume_map :: "string \<Rightarrow> json list \<Rightarrow> py_error + (string \<times> rat) list" where
  "volume_map k ts = bind_res (map_res (volume_of k) ts) (\<lambda>kvs. Inr (rev (somes kvs)))"

definition premium_row :: "(string \<times> rat) list \<Rightarrow> string \<Rightarrow> json \<Rightarrow> py_error + fund_row" where
  "premium_row vols s d =
     bind_res (true_float d ''markPrice'') (\<lambda>p. bind_res (read_if not_null py_float d ''lastFundingRate'') (\<lambda>r.
     bind_res (read_if py_true ms_to_s d ''nextFundingTime'') (\<lambda>t.
       Inr \<lparr>fw_symbol = s, fw_price = p, fw_rate = r, fw_next_ts = t, fw_interval_h = Some 8,
            fw_volume_usd = (case map_of vols (s @ ''USDT'') of None \<Rightarrow> None | Some v \<Rightarrow> non_zero v)\<rparr>)))"

text \<open>Binance and Aster: both calls in one try block.\<close>

definition binance_refresh :: "string list \<Rightarrow> answer \<Rightarrow> answer \<Rightarrow> refreshed" where
  "binance_refresh trading prem tick =
     (case (prem, tick) of
        (Answer ps pb, Answer ts tb) \<Rightarrow>
          if ps \<noteq> 200 \<or> ts \<noteq> 200 then Inr None
          else bind_res tb (\<lambda>t. bind_res (as_raised (bind_res (py_iter (py_or t (J_Arr []))) (volume_map ''quoteVolume''))) (\<lambda>vols.
            bind_res pb (\<lambda>p. bind_res (as_raised (bind_res (py_iter (py_or p (J_Arr [])))
                (item_rows (usdt_token trading ''symbol'') (premium_row vols)))) (\<lambda>rows. Inr (Some rows)))))
      | _ \<Rightarrow> Inr None)"

definition bybit_rest_row :: "string \<Rightarrow> json \<Rightarrow> py_error + fund_row" where
  "bybit_rest_row s d =
     bind_res (float_of_either d ''lastPrice'' ''markPrice'') (\<lambda>p. bind_res (true_float d ''fundingRate'') (\<lambda>r.
     bind_res (seconds_or_0 d ''nextFundingTime'') (\<lambda>t. bind_res (true_float d ''turnover24h'') (\<lambda>v.
       Inr \<lparr>fw_symbol = s, fw_price = non_zero p, fw_rate = r, fw_next_ts = non_zero t, fw_interval_h = Some 8, fw_volume_usd = v\<rparr>))))"

definition bybit_refresh :: "answer \<Rightarrow> refreshed" where
  "bybit_refresh a = with_body a (\<lambda>x. bind_res (get_or x ''result'' (J_Obj [])) (\<lambda>res. bind_res (items_at res ''list'')
     (item_rows (\<lambda>d. cut_suffix ''USDT'' (text_at d ''symbol'')) bybit_rest_row)))"

definition okx_rest_row :: "string \<Rightarrow> json \<Rightarrow> py_error + fund_row" where
  "okx_rest_row s d =
     bind_res (float_or_0 d ''last'') (\<lambda>p. bind_res (float_or_0 d ''volCcy24h'') (\<lambda>b.
       Inr ((bare_row s)\<lparr>fw_price := non_zero p, fw_volume_usd := non_zero (b * p)\<rparr>)))"

definition okx_refresh :: "answer \<Rightarrow> refreshed" where
  "okx_refresh a = with_body a (\<lambda>x. bind_res (items_at x ''data'') (item_rows okx_token okx_rest_row))"

definition gate_rest_row :: "string \<Rightarrow> json \<Rightarrow> py_error + fund_row" where
  "gate_rest_row s d =
     bind_res (or_else_read (true_float d ''mark_price'') (true_float d ''last'')) (\<lambda>p.
     bind_res (read_if not_null py_float d ''funding_rate'') (\<lambda>r. bind_res (read_if py_true py_int d ''funding_next_apply'') (\<lambda>t.
     bind_res (or_else_read (true_float d ''volume_24h_settle'') (true_float d ''volume_24h_quote'')) (\<lambda>v.
       Inr \<lparr>fw_symbol = s, fw_price = p, fw_rate = r, fw_next_ts = t, fw_interval_h = Some 8, fw_volume_usd = v\<rparr>))))"

definition gate_refresh :: "answer \<Rightarrow> refreshed" where
  "gate_refresh a = with_body a (\<lambda>x. bind_res (py_iter (py_or x (J_Arr [])))
     (item_rows (\<lambda>d. cut_suffix ''_USDT'' (text_else_empty d ''contract'')) gate_rest_row))"

text \<open>KuCoin gives the time until the next payment, to which the seconds of now are added.\<close>

definition kucoin_rest_row :: "int \<Rightarrow> string \<Rightarrow> json \<Rightarrow> py_error + fund_row" where
  "kucoin_rest_row now base d =
     bind_res (granularity_h d ''fundingRateGranularity'') (\<lambda>h.
     bind_res (or_else_read (true_float d ''markPrice'') (true_float d ''lastTradePrice'')) (\<lambda>p.
     bind_res (read_if not_null py_float d ''fundingFeeRate'') (\<lambda>r. bind_res (read_if py_true ms_to_s d ''nextFundingRateTime'') (\<lambda>t.
     bind_res (true_float d ''turnoverOf24h'') (\<lambda>v.
       Inr \<lparr>fw_symbol = xbt_token base, fw_price = p, fw_rate = r, fw_next_ts = map_option (\<lambda>t. t + now) t, fw_interval_h = Some h,
            fw_volume_usd = v\<rparr>)))))"

definition kucoin_refresh :: "int \<Rightarrow> answer \<Rightarrow> refreshed" where
  "kucoin_refresh now a = with_body a (\<lambda>x. bind_res (items_at x ''data'')
     (item_rows (\<lambda>d. cut_suffix ''USDTM'' (text_at d ''symbol'')) (kucoin_rest_row now)))"

text \<open>MEXC: the rates of one call laid over the prices of another.\<close>

definition mexc_rate :: "string \<Rightarrow> json \<Rightarrow> py_error + fund_row" where
  "mexc_rate s d =
     bind_res (true_float d ''collectCycle'') (\<lambda>h. bind_res (read_if not_null py_float d ''fundingRate'') (\<lambda>r.
     bind_res (read_if py_true ms_to_s d ''nextSettleTime'') (\<lambda>t.
       Inr ((bare_row s)\<lparr>fw_rate := r, fw_next_ts := t, fw_interval_h := Some (case h of None \<Rightarrow> 8 | Some x \<Rightarrow> x)\<rparr>))))"

definition mexc_price :: "(string \<times> fund_row) list \<Rightarrow> string \<Rightarrow> json \<Rightarrow> py_error + fund_row" where
  "mexc_price rates s d =
     bind_res (true_float d ''lastPrice'') (\<lambda>p. bind_res (true_float d ''amount24'') (\<lambda>v.
       let row = (bare_row s)\<lparr>fw_price := p, fw_interval_h := Some 8, fw_volume_usd := v\<rparr>
       in Inr (case map_of rates s of
                 None \<Rightarrow> row
               | Some r \<Rightarrow> row\<lparr>fw_rate := fw_rate r, fw_next_ts := fw_next_ts r, fw_interval_h := fw_interval_h r\<rparr>)))"

definition rate_map :: "fund_row list \<Rightarrow> (string \<times> fund_row) list" where
  "rate_map rows = foldl (\<lambda>m r. AList.update (fw_symbol r) r m) [] rows"

definition mexc_refresh :: "answer \<Rightarrow> answer \<Rightarrow> refreshed" where
  "mexc_refresh fr tk =
     (let rows_of = (\<lambda>row b. case b of None \<Rightarrow> Inr [] | Some x \<Rightarrow>
            as_raised (bind_res (items_at x ''data'') (item_rows (\<lambda>d. cut_suffix ''_USDT'' (text_at d ''symbol'')) row)))
      in bind_res (call_tried fr) (\<lambda>f. bind_res (rows_of mexc_rate f) (\<lambda>rs. let rates = rate_map rs
         in bind_res (call_tried tk) (\<lambda>t. bind_res (rows_of (mexc_price rates) t) (\<lambda>out.
              Inr (or_nothing (if out = [] then map snd rates else out)))))))"

definition bitget_rest_row :: "string \<Rightarrow> json \<Rightarrow> py_error + fund_row" where
  "bitget_rest_row s d =
     bind_res (or_else_read (true_float d ''lastPr'') (true_float d ''markPrice'')) (\<lambda>p.
     bind_res (read_if not_null py_float d ''fundingRate'') (\<lambda>r. bind_res (read_if py_true ms_to_s d ''nextFundingTime'') (\<lambda>t.
     bind_res (or_else_read (true_float d ''usdtVolume'') (true_float d ''quoteVolume'')) (\<lambda>v.
       Inr \<lparr>fw_symbol = s, fw_price = p, fw_rate = r, fw_next_ts = t, fw_interval_h = Some 8, fw_volume_usd = v\<rparr>))))"

definition bitget_refresh :: "answer \<Rightarrow> refreshed" where
  "bitget_refresh a = with_body a (\<lambda>x. bind_res (items_at x ''data'')
     (item_rows (\<lambda>d. cut_suffix ''USDT'' (text_at d ''symbol'')) bitget_rest_row))"

text \<open>BingX: the price and the volume of the ticker, if they are not zero.\<close>

definition bingx_ticker :: "json \<Rightarrow> py_error + (json \<times> rat \<times> rat) option" where
  "bingx_ticker t =
     bind_res (get_or t ''symbol'' (J_Str [])) (\<lambda>s.
       tried (bind_res (float_or_0 t ''lastPrice'') (\<lambda>p. bind_res (float_of_either t ''quoteVolume'' ''volume'') (\<lambda>v. Inr (s, p, v)))))"

definition bingx_rest_row :: "(json \<times> rat \<times> rat) list \<Rightarrow> string \<Rightarrow> json \<Rightarrow> py_error + fund_row" where
  "bingx_rest_row vols s d =
     (let (price, volume) = (case map_of vols (J_Str (s @ ''-USDT'')) of None \<Rightarrow> (0, 0) | Some x \<Rightarrow> x)
      in bind_res (if price \<noteq> 0 then Inr (Some price) else true_float d ''markPrice'') (\<lambda>p.
         bind_res (read_if not_null py_float d ''lastFundingRate'') (\<lambda>r. bind_res (read_if py_true ms_to_s d ''nextFundingTime'') (\<lambda>t.
         bind_res (true_float d ''fundingIntervalHours'') (\<lambda>h.
           Inr \<lparr>fw_symbol = s, fw_price = p, fw_rate = r, fw_next_ts = t, fw_interval_h = Some (case h of None \<Rightarrow> 8 | Some x \<Rightarrow> x),
                fw_volume_usd = non_zero volume\<rparr>)))))"

definition bingx_refresh :: "answer \<Rightarrow> answer \<Rightarrow> refreshed" where
  "bingx_refresh prem tick =
     bind_res (call_tried tick) (\<lambda>t.
     bind_res (case t of None \<Rightarrow> Inr [] | Some x \<Rightarrow> as_raised (bind_res (items_at x ''data'') (\<lambda>ts. bind_res (map_res bingx_ticker ts)
       (\<lambda>kvs. Inr (rev (somes kvs)))))) (\<lambda>vols.
     bind_res (call_tried prem) (\<lambda>p.
     bind_res (case p of None \<Rightarrow> Inr [] | Some x \<Rightarrow> as_raised (bind_res (items_at x ''data'')
       (item_rows (\<lambda>d. cut_suffix ''-USDT'' (text_else_empty d ''symbol'')) (bingx_rest_row vols)))) (\<lambda>out. Inr (or_nothing out)))))"

text \<open>WhiteBit: the rates by market, without the suffix wherever it stands.\<close>

fun remove_all :: "nat \<Rightarrow> string \<Rightarrow> string \<Rightarrow> string" where
  "remove_all 0 p s = s"
| "remove_all (Suc n) p [] = []"
| "remove_all (Suc n) p (c # cs) =
     (if p \<noteq> [] \<and> begins_with (c # cs) p then remove_all n p (drop (length p) (c # cs)) else c # remove_all n p cs)"

definition without :: "string \<Rightarrow> string \<Rightarrow> string" where
  "without p s = remove_all (length s) p s"

definition whitebit_rate :: "json \<Rightarrow> py_error + (string \<times> rat) option" where
  "whitebit_rate m =
     bind_res (get_key m ''ticker_id'') (\<lambda>a. bind_res (get_key m ''name'') (\<lambda>b.
     bind_res (as_text (py_or (py_or a b) (J_Str []))) (\<lambda>t. let market = without ''_PERP'' t
       in bind_res (get_key m ''last_funding_rate'') (\<lambda>x. bind_res (get_key m ''funding_rate'') (\<lambda>y. let fr = py_or x y
          in if market = [] \<or> fr = J_Null then Inr None
             else bind_res (tried (py_float fr)) (\<lambda>v. Inr (map_option (\<lambda>r. (market, r)) v)))))))"

definition whitebit_rest_row :: "(string \<times> rat) list \<Rightarrow> string \<Rightarrow> json \<Rightarrow> py_error + fund_row" where
  "whitebit_rest_row rates s d =
     bind_res (true_float d ''last_price'') (\<lambda>p. bind_res (true_float d ''quote_volume'') (\<lambda>v.
       Inr ((bare_row s)\<lparr>fw_price := p, fw_rate := map_of rates s, fw_interval_h := Some 8, fw_volume_usd := v\<rparr>)))"

definition whitebit_refresh :: "answer \<Rightarrow> answer \<Rightarrow> refreshed" where
  "whitebit_refresh mkt tk =
     (case (mkt, tk) of
        (Answer ms mb, Answer ts tb) \<Rightarrow>
          if ms \<noteq> 200 \<or> ts \<noteq> 200 then Inr None
          else bind_res mb (\<lambda>m. bind_res (as_raised (bind_res (items_at m ''result'') (\<lambda>rs. map_res whitebit_rate rs))) (\<lambda>kvs.
            bind_res tb (\<lambda>t. bind_res (as_raised (bind_res (items_of (py_or t (J_Obj [])))
                (perp_rows (whitebit_rest_row (rev (somes kvs)))))) (\<lambda>out. Inr (or_nothing out)))))
      | _ \<Rightarrow> Inr None)"

text \<open>Hyperliquid: the universe of coins and their contexts side by side.\<close>

definition coin_at :: "json \<Rightarrow> nat \<Rightarrow> py_error + json" where
  "coin_at universe i = bind_res (item_at universe i) (\<lambda>u. case u of J_Obj _ \<Rightarrow> get_key u ''name'' | _ \<Rightarrow> Inr J_Null)"

definition coin_row :: "json \<Rightarrow> nat \<times> json \<Rightarrow> py_error + fund_row option" where
  "coin_row universe x =
     (case x of (i, ctx) \<Rightarrow>
        bind_res (coin_at universe i) (\<lambda>name.
          if \<not> py_true name then Inr None
          else bind_res (as_text name) (\<lambda>s. tried
            (bind_res (true_float ctx ''markPx'') (\<lambda>p. bind_res (read_if not_null py_float ctx ''funding'') (\<lambda>r.
             bind_res (true_float ctx ''dayNtlVlm'') (\<lambda>v.
               Inr ((bare_row s)\<lparr>fw_price := p, fw_rate := r, fw_interval_h := Some 1, fw_volume_usd := v\<rparr>))))))))"

definition hyperliquid_rows :: "json list \<Rightarrow> py_error + fund_row list" where
  "hyperliquid_rows data =
     bind_res (get_key (py_or (data ! 0) (J_Obj [])) ''universe'') (\<lambda>u. let universe = py_or u (J_Arr [])
       in bind_res (py_iter (py_or (data ! 1) (J_Arr []))) (\<lambda>ctxs.
          if ctxs = [] then Inr []
          else bind_res (py_len universe) (\<lambda>n. bind_res (map_res (coin_row universe) (take n (enumerate 0 ctxs))) (\<lambda>rs. Inr (somes rs)))))"

definition hyperliquid_refresh :: "answer \<Rightarrow> refreshed" where
  "hyperliquid_refresh a =
     bind_res (call_tried a) (\<lambda>b. case b of
        None \<Rightarrow> Inr None
      | Some x \<Rightarrow> (case py_or x (J_Arr []) of
            J_Arr xs \<Rightarrow> if length xs < 2 then Inr None else bind_res (as_raised (hyperliquid_rows xs)) (\<lambda>rows. Inr (or_nothing rows))
          | _ \<Rightarrow> Inr None))"

definition paradex_rest_row :: "int \<Rightarrow> json \<Rightarrow> py_error + fund_row option" where
  "paradex_rest_row now d =
     bind_res (cut_suffix ''-USD-PERP'' (text_else_empty d ''symbol'')) (\<lambda>t. case t of
        None \<Rightarrow> Inr None
      | Some s \<Rightarrow>
          if s = [] then Inr None
          else flat_row (tried (bind_res (float_of_either d ''mark_price'' ''last_traded_price'') (\<lambda>p.
            bind_res (float_or_0 d ''funding_rate'') (\<lambda>r. bind_res (float_or_0 d ''volume_24h'') (\<lambda>v. Inr (paradex_values now s p r v)))))))"

definition paradex_refresh :: "int \<Rightarrow> answer \<Rightarrow> refreshed" where
  "paradex_refresh now a =
     bind_res (call_tried a) (\<lambda>b. case b of
        None \<Rightarrow> Inr None
      | Some x \<Rightarrow> bind_res (as_raised (bind_res (items_at (py_or x (J_Obj [])) ''results'') (map_res (paradex_rest_row now))))
                   (\<lambda>rs. Inr (or_nothing (somes rs))))"

text \<open>The refresh of a venue; the second answer is used where two calls are made.\<close>

definition rest_refresh :: "string \<Rightarrow> int \<Rightarrow> string list \<Rightarrow> answer \<Rightarrow> answer \<Rightarrow> refreshed" where
  "rest_refresh name now trading a b =
     (if name = ''binance'' \<or> name = ''aster'' then binance_refresh trading a b
      else if name = ''bybit'' then bybit_refresh a
      else if name = ''okx'' then okx_refresh a
      else if name = ''gate'' then gate_refresh a
      else if name = ''kucoin'' then kucoin_refresh now a
      else if name = ''mexc'' then mexc_refresh a b
      else if name = ''bitget'' then bitget_refresh a
      else if name = ''bingx'' then bingx_refresh a b
      else if name = ''whitebit'' then whitebit_refresh a b
      else if name = ''hyperliquid'' then hyperliquid_refresh a
      else paradex_refresh now a)"

definition rest_interval :: "string \<Rightarrow> rat" where
  "rest_interval name = (if name = ''whitebit'' then 5 / 2 else 2)"

section \<open>Symbols\<close>

definition info_ttl_s :: rat where "info_ttl_s = 600"

text \<open>The perpetual contracts that trade. A symbol that is no text, of which none end in USDT, is left out.\<close>

definition trading_symbol :: "json \<Rightarrow> py_error + string option" where
  "trading_symbol s =
     bind_res (get_key s ''status'') (\<lambda>st. bind_res (get_key s ''contractType'') (\<lambda>ct. bind_res (get_key s ''symbol'') (\<lambda>v.
       Inr (if st = J_Str ''TRADING'' \<and> ct = J_Str ''PERPETUAL'' then (case v of J_Str t \<Rightarrow> Some t | _ \<Rightarrow> None) else None))))"

definition refresh_trading_set :: "rat \<Rightarrow> answer \<Rightarrow> string list \<times> rat \<Rightarrow> string list \<times> rat" where
  "refresh_trading_set now a st =
     (if now - snd st < info_ttl_s \<and> fst st \<noteq> [] then st
      else (case body_of a of
              Inr (Some x) \<Rightarrow>
                (case bind_res (items_at x ''symbols'') (map_res trading_symbol) of
                   Inl _ \<Rightarrow> st
                 | Inr ss \<Rightarrow> if somes ss = [] then st else (somes ss, now))
            | _ \<Rightarrow> st))"

text \<open>The symbols to subscribe to; a failure leaves none.\<close>

definition symbols_where :: "(json \<Rightarrow> py_error + string option) \<Rightarrow> json list \<Rightarrow> py_error + string list" where
  "symbols_where f ds = bind_res (map_res f ds) (\<lambda>ss. Inr (somes ss))"

definition ends_in :: "string \<Rightarrow> string \<Rightarrow> json \<Rightarrow> py_error + string option" where
  "ends_in k suf d = bind_res (text_at d k) (\<lambda>s. Inr (if ends_with s suf then Some s else None))"

definition okx_live :: "json \<Rightarrow> py_error + string option" where
  "okx_live d = bind_res (ends_in ''instId'' ''-USDT-SWAP'' d) (\<lambda>s. bind_res (get_key d ''state'') (\<lambda>st.
     Inr (if st = J_Str ''live'' then s else None)))"

definition hyper_coin :: "json \<Rightarrow> py_error + string option" where
  "hyper_coin d = bind_res (get_key d ''name'') (\<lambda>v. if py_true v then bind_res (as_text v) (\<lambda>s. Inr (Some s)) else Inr None)"

definition bybit_symbols :: "json \<Rightarrow> py_error + string list" where
  "bybit_symbols x = bind_res (get_or x ''result'' (J_Obj [])) (\<lambda>res. bind_res (get_or res ''list'' (J_Arr [])) (\<lambda>v.
     bind_res (py_iter v) (symbols_where (ends_in ''symbol'' ''USDT''))))"

definition okx_symbols :: "json \<Rightarrow> py_error + string list" where
  "okx_symbols x = bind_res (get_or x ''data'' (J_Arr [])) (\<lambda>v. bind_res (py_iter v) (symbols_where okx_live))"

definition kucoin_symbols :: "json \<Rightarrow> py_error + string list" where
  "kucoin_symbols x = bind_res (get_or x ''data'' (J_Arr [])) (\<lambda>v. bind_res (py_iter v) (symbols_where (ends_in ''symbol'' ''USDTM'')))"

definition bitget_symbols :: "json \<Rightarrow> py_error + string list" where
  "bitget_symbols x = bind_res (items_at x ''data'') (symbols_where (ends_in ''symbol'' ''USDT''))"

definition hyperliquid_symbols :: "json \<Rightarrow> py_error + string list" where
  "hyperliquid_symbols x = bind_res (items_at (py_or x (J_Obj [])) ''universe'') (symbols_where hyper_coin)"

text \<open>BingX: active contracts by falling volume.\<close>

definition bingx_active :: "json \<Rightarrow> py_error + string option" where
  "bingx_active d = bind_res (ends_in ''symbol'' ''-USDT'' d) (\<lambda>s. bind_res (get_key d ''status'') (\<lambda>st.
     Inr (if st \<in> set [J_Int 1, J_Num 1, J_Bool True] then s else None)))"

definition bingx_volume :: "json \<Rightarrow> py_error + (json \<times> rat) option" where
  "bingx_volume t = bind_res (get_or t ''symbol'' (J_Str [])) (\<lambda>s. tried (bind_res (float_or_0 t ''quoteVolume'') (\<lambda>v. Inr (s, v))))"

definition by_volume :: "(json \<times> rat) list \<Rightarrow> string list \<Rightarrow> string list" where
  "by_volume vols ss = sort_key (\<lambda>s. - (case map_of vols (J_Str s) of None \<Rightarrow> 0 | Some v \<Rightarrow> v)) ss"

definition bingx_symbols :: "json \<Rightarrow> answer \<Rightarrow> py_error + string list" where
  "bingx_symbols contracts tick =
     bind_res (case body_of tick of
         Inr (Some x) \<Rightarrow> bind_res (items_at x ''data'') (\<lambda>ts. bind_res (map_res bingx_volume ts) (\<lambda>kvs. Inr (rev (somes kvs))))
       | Inr None \<Rightarrow> Inr []
       | Inl _ \<Rightarrow> Inl Value_Error) (\<lambda>vols.
     bind_res (items_at contracts ''data'') (\<lambda>ds. bind_res (symbols_where bingx_active ds) (\<lambda>ss. Inr (by_volume vols ss))))"

text \<open>\<open>r.raise_for_status()\<close>, then \<open>r.json()\<close>, in a try block.\<close>

definition loaded_body :: "answer \<Rightarrow> json option" where
  "loaded_body a =
     (case a of
        Call_Raised _ \<Rightarrow> None
      | Answer status body \<Rightarrow>
          if 200 \<le> status \<and> status < 300 then (case body of Inl _ \<Rightarrow> None | Inr x \<Rightarrow> Some x) else None)"

definition loaded_symbols :: "string \<Rightarrow> answer \<Rightarrow> answer \<Rightarrow> string list" where
  "loaded_symbols name a b =
     (case loaded_body a of
        Some x \<Rightarrow>
          (case (if name = ''bybit'' then bybit_symbols x
                 else if name = ''okx'' then okx_symbols x
                 else if name = ''kucoin'' then kucoin_symbols x
                 else if name = ''bitget'' then bitget_symbols x
                 else if name = ''bingx'' then bingx_symbols x b
                 else if name = ''hyperliquid'' then hyperliquid_symbols x
                 else Inr []) of Inl _ \<Rightarrow> [] | Inr ss \<Rightarrow> ss)
      | None \<Rightarrow> [])"

end
