(* ===== verification/Fund_Feed.thy ===== *)
theory Fund_Feed
  imports Fund_Rest Funding
begin

text \<open>
  The life of a funding stream (\<^verbatim>\<open>funding_ws/base.py\<close>), the manager that owns the streams and writes their
  rows to a shared file (\<^verbatim>\<open>funding_ws/manager.py\<close>), the merger of the files of worker processes
  (\<^verbatim>\<open>orderbook_ws_master.py\<close>), and the reader in every other process. A message and a request are one step
  each.
\<close>

section \<open>A stream\<close>

record fund_feed =
  ff_rows :: "(string \<times> fund_row \<times> rat) list"
  ff_last_update :: rat
  ff_connected :: bool
  ff_stop :: bool
  ff_frames :: nat
  ff_backoff :: rat
  ff_policy :: rat
  ff_symbols :: "string list"
  ff_trading :: "string list \<times> rat"
  ff_fail_streak :: nat

definition fresh_feed :: fund_feed where
  "fresh_feed = \<lparr>ff_rows = [], ff_last_update = 0, ff_connected = False, ff_stop = False, ff_frames = 0, ff_backoff = 1,
     ff_policy = 30, ff_symbols = [], ff_trading = ([], 0), ff_fail_streak = 0\<rparr>"

definition row_stale_after_s :: rat where "row_stale_after_s = 8"
definition stale_after_s :: rat where "stale_after_s = 30"

text \<open>Values that are missing are carried forward from the row before.\<close>

definition over :: "'a option \<Rightarrow> 'a option \<Rightarrow> 'a option" where
  "over new old = (case new of None \<Rightarrow> old | Some x \<Rightarrow> Some x)"

definition merged_row :: "fund_row \<Rightarrow> fund_row \<Rightarrow> fund_row" where
  "merged_row prev r =
     \<lparr>fw_symbol = fw_symbol r, fw_price = over (fw_price r) (fw_price prev), fw_rate = over (fw_rate r) (fw_rate prev),
      fw_next_ts = over (fw_next_ts r) (fw_next_ts prev), fw_interval_h = over (fw_interval_h r) (fw_interval_h prev),
      fw_volume_usd = over (fw_volume_usd r) (fw_volume_usd prev)\<rparr>"

definition put_row :: "rat \<Rightarrow> (string \<times> fund_row \<times> rat) list \<Rightarrow> fund_row \<Rightarrow> (string \<times> fund_row \<times> rat) list" where
  "put_row now rows r =
     (if fw_symbol r = [] then rows
      else AList.update (fw_symbol r)
             (merged_row (case map_of rows (fw_symbol r) of None \<Rightarrow> bare_row (fw_symbol r) | Some (p, _) \<Rightarrow> p) r, now) rows)"

definition put_rows :: "rat \<Rightarrow> fund_row list \<Rightarrow> fund_feed \<Rightarrow> fund_feed" where
  "put_rows now rs s =
     s\<lparr>ff_rows := foldl (put_row now) (ff_rows s) rs,
       ff_last_update := (if list_ex (\<lambda>r. fw_symbol r \<noteq> []) rs then now else ff_last_update s)\<rparr>"

text \<open>
  A frame: a plain ping is answered, a text that is not JSON and a message that the parser does not
  like are dropped. Real data resets the pauses.
\<close>

datatype fund_frame = Plain_Ping | Not_Json | Fund_Message json

definition receive_funding :: "string \<Rightarrow> clock \<Rightarrow> fund_frame \<Rightarrow> fund_feed \<Rightarrow> string option \<times> fund_feed" where
  "receive_funding name c fr s =
     (case fr of
        Plain_Ping \<Rightarrow> (Some ''Pong'', s)
      | Not_Json \<Rightarrow> (None, s)
      | Fund_Message msg \<Rightarrow>
          (None,
           case parse_funding name \<lfloor>wall c\<rfloor> (fst (ff_trading s)) msg of
             Inl _ \<Rightarrow> s
           | Inr rs \<Rightarrow>
               (let s' = put_rows (wall c) rs s
                in if \<not> list_ex (\<lambda>r. fw_symbol r \<noteq> []) rs then s'
                   else (if ff_frames s = 0 then s'\<lparr>ff_backoff := 1, ff_policy := 30\<rparr> else s')\<lparr>ff_frames := ff_frames s + 1\<rparr>)))"

text \<open>A connection is opened: the frames that go out. It fails: the pause before the next attempt.\<close>

definition funding_opened :: "string \<Rightarrow> (nat \<Rightarrow> string) \<Rightarrow> int \<Rightarrow> fund_feed \<Rightarrow> json list \<times> fund_feed" where
  "funding_opened name uuid now s = (subscribe_funding name uuid now (ff_symbols s), s\<lparr>ff_connected := True, ff_frames := 0\<rparr>)"

definition is_funding_policy :: "string \<Rightarrow> bool" where
  "is_funding_policy msg \<longleftrightarrow> list_ex (\<lambda>p. contains p msg)
     [''1008'', ''1011'', ''3001'', ''4400'', ''4401'', ''policy violation'', ''Too many errors'', ''illegal request'', ''Invalid request'']"

definition funding_failed :: "string \<Rightarrow> rat \<Rightarrow> fund_feed \<Rightarrow> rat \<times> fund_feed" where
  "funding_failed msg jitter s =
     (let gone = s\<lparr>ff_connected := False, ff_frames := 0\<rparr>
      in if is_funding_policy msg \<and> ff_frames s = 0
         then (ff_policy s + jitter, gone\<lparr>ff_policy := min (ff_policy s * (3 / 2)) 600\<rparr>)
         else (ff_backoff s + jitter, gone\<lparr>ff_backoff := min (ff_backoff s * 2) 30\<rparr>))"

text \<open>The venue closes without an error: the next attempt is made at once.\<close>

definition funding_closed :: "fund_feed \<Rightarrow> fund_feed" where
  "funding_closed s = s\<lparr>ff_connected := False, ff_frames := 0\<rparr>"

definition stop_funding :: "fund_feed \<Rightarrow> fund_feed" where
  "stop_funding s = s\<lparr>ff_stop := True\<rparr>"

text \<open>
  One round of the REST loop: the breaker is asked, the venue called (\<open>info\<close> answers the question for the
  symbols that trade), and the rows stored.
\<close>

definition refreshed_trading :: "string \<Rightarrow> clock \<Rightarrow> answer \<Rightarrow> fund_feed \<Rightarrow> fund_feed" where
  "refreshed_trading name c info s =
     (if name = ''binance'' \<or> name = ''aster'' then s\<lparr>ff_trading := refresh_trading_set (wall c) info (ff_trading s)\<rparr> else s)"

definition rest_round :: "breaker_config \<Rightarrow> string \<Rightarrow> clock \<Rightarrow> answer \<Rightarrow> answer \<Rightarrow> answer \<Rightarrow> fund_feed \<times> breaker \<Rightarrow> fund_feed \<times> breaker" where
  "rest_round cfg name c info a b sb =
     (case sb of (s, br) \<Rightarrow>
        if ff_stop s then sb
        else (let key = ''backstop:'' @ name; (ok, br) = breaker_allow c br key
         in if \<not> ok then (s, br)
            else (let s = refreshed_trading name c info s
                  in case rest_refresh name \<lfloor>wall c\<rfloor> (fst (ff_trading s)) a b of
                       Inl msg \<Rightarrow> (s\<lparr>ff_fail_streak := ff_fail_streak s + 1\<rparr>, after_failure cfg c key msg br)
                     | Inr None \<Rightarrow> (s\<lparr>ff_fail_streak := ff_fail_streak s + 1\<rparr>, breaker_ok br key)
                     | Inr (Some rs) \<Rightarrow>
                         if rs = [] then (s\<lparr>ff_fail_streak := ff_fail_streak s + 1\<rparr>, breaker_ok br key)
                         else ((put_rows (wall c) rs s)\<lparr>ff_fail_streak := 0\<rparr>, breaker_ok br key))))"

text \<open>The rows updated in the last eight seconds; the others are forgotten.\<close>

definition live_row :: "rat \<Rightarrow> string \<times> fund_row \<times> rat \<Rightarrow> bool" where
  "live_row now x \<longleftrightarrow> now - row_stale_after_s \<le> snd (snd x)"

definition feed_rows :: "rat \<Rightarrow> fund_feed \<Rightarrow> (fund_row \<times> rat) list \<times> fund_feed" where
  "feed_rows now s =
     (let fresh = filter (live_row now) (ff_rows s) in (map snd fresh, s\<lparr>ff_rows := fresh\<rparr>))"

record feed_health =
  fh_connected :: bool
  fh_symbols :: nat
  fh_age :: "rat option"
  fh_healthy :: bool

definition health_of_feed :: "rat \<Rightarrow> fund_feed \<Rightarrow> feed_health" where
  "health_of_feed now s =
     (let age = (if ff_last_update s \<noteq> 0 then Some (now - ff_last_update s) else None)
      in \<lparr>fh_connected = ff_connected s, fh_symbols = length (ff_rows s), fh_age = map_option (round_places 1) age,
          fh_healthy = (case age of None \<Rightarrow> False | Some x \<Rightarrow> x < stale_after_s)\<rparr>)"

section \<open>Manager, file and readers\<close>

type_synonym feeds = "string \<Rightarrow> fund_feed option"

text \<open>The streams a process starts: its own one if it is a worker, else those no worker has.\<close>

definition start_all :: "string option \<Rightarrow> string list \<Rightarrow> feeds \<Rightarrow> feeds" where
  "start_all owned workers m =
     (\<lambda>ex. if ex \<in> set funding_names \<and> (case owned of Some x \<Rightarrow> ex = x | None \<Rightarrow> ex \<notin> set workers) \<and> m ex = None
           then Some fresh_feed else m ex)"

definition usable_row :: "fund_row \<times> rat \<Rightarrow> bool" where
  "usable_row x \<longleftrightarrow> truthy (fw_price (fst x)) \<and> fw_rate (fst x) \<noteq> None"

definition usable_rows :: "(fund_row \<times> rat) list \<Rightarrow> (fund_row \<times> rat) list option" where
  "usable_rows rows = (let xs = filter usable_row rows in if xs = [] then None else Some xs)"

definition manager_rows :: "rat \<Rightarrow> string \<Rightarrow> feeds \<Rightarrow> (fund_row \<times> rat) list option \<times> feeds" where
  "manager_rows now ex m =
     (case m ex of
        None \<Rightarrow> (None, m)
      | Some s \<Rightarrow> (case feed_rows now s of (rows, s) \<Rightarrow> (usable_rows rows, m(ex \<mapsto> s))))"

definition raw_rows :: "rat \<Rightarrow> string \<Rightarrow> feeds \<Rightarrow> (fund_row \<times> rat) list option" where
  "raw_rows now ex m = map_option (\<lambda>s. fst (feed_rows now s)) (m ex)"

record fund_dump =
  fu_ts :: rat
  fu_rows :: "(string \<times> (fund_row \<times> rat) list) list"
  fu_ts_by_ex :: "(string \<times> rat) list"

definition snapshot_of :: "rat \<Rightarrow> feeds \<Rightarrow> (string \<times> (fund_row \<times> rat) list) list" where
  "snapshot_of now m =
     filter (\<lambda>x. snd x \<noteq> []) (map (\<lambda>ex. (ex, case m ex of None \<Rightarrow> [] | Some s \<Rightarrow> fst (feed_rows now s))) funding_names)"

definition updates_of :: "feeds \<Rightarrow> (string \<times> rat) list" where
  "updates_of m = filter (\<lambda>x. snd x \<noteq> 0) (map (\<lambda>ex. (ex, case m ex of None \<Rightarrow> 0 | Some s \<Rightarrow> ff_last_update s)) funding_names)"

text \<open>One round of the thread that writes the file; nothing is written when no row is fresh.\<close>

definition dump_rows :: "rat \<Rightarrow> feeds \<Rightarrow> fund_dump option \<Rightarrow> fund_dump option \<times> feeds" where
  "dump_rows now m file =
     (let snap = snapshot_of now m
      in (if snap = [] then file else Some \<lparr>fu_ts = now, fu_rows = snap, fu_ts_by_ex = updates_of m\<rparr>,
          \<lambda>ex. map_option (\<lambda>s. snd (feed_rows now s)) (m ex)))"

text \<open>One round of the merger: the files of the workers, under the time of now.\<close>

definition merge_dumps :: "rat \<Rightarrow> (string \<Rightarrow> fund_dump option) \<Rightarrow> string list \<Rightarrow> fund_dump option \<Rightarrow> fund_dump option" where
  "merge_dumps now parts owned file =
     (let ds = somes (map parts owned);
          rows = foldl (\<lambda>m (ex, rs). AList.update ex rs m) [] (concat (map fu_rows ds));
          ts = foldl (\<lambda>m (ex, t). AList.update ex t m) [] (concat (map fu_ts_by_ex ds))
      in if rows = [] then file else Some \<lparr>fu_ts = now, fu_rows = rows, fu_ts_by_ex = ts\<rparr>)"

record fund_reader =
  fm_ts :: rat
  fm_data :: "fund_dump option"

definition fresh_fund_reader :: fund_reader where
  "fresh_fund_reader = \<lparr>fm_ts = 0, fm_data = None\<rparr>"

definition dump_stale_max :: rat where "dump_stale_max = 30"

definition read_dump :: "rat \<Rightarrow> fund_dump option \<Rightarrow> fund_reader \<Rightarrow> fund_dump option \<times> fund_reader" where
  "read_dump now file rd =
     (if fm_data rd \<noteq> None \<and> now - fm_ts rd < 1 / 4 then (fm_data rd, rd)
      else (case file of
              None \<Rightarrow> (None, rd)
            | Some b \<Rightarrow> if dump_stale_max < now - fu_ts b then (None, rd) else (Some b, \<lparr>fm_ts = now, fm_data = Some b\<rparr>)))"

definition rows_in_dump :: "string \<Rightarrow> fund_dump \<Rightarrow> (fund_row \<times> rat) list option" where
  "rows_in_dump ex b = (case map_of (fu_rows b) ex of None \<Rightarrow> None | Some rows \<Rightarrow> usable_rows rows)"

text \<open>What a process without streams reads.\<close>

definition read_ws_rows :: "rat \<Rightarrow> string \<Rightarrow> fund_dump option \<Rightarrow> fund_reader \<Rightarrow> (fund_row \<times> rat) list option \<times> fund_reader" where
  "read_ws_rows now ex file rd =
     (case read_dump now file rd of
        (None, rd) \<Rightarrow> (None, rd)
      | (Some b, rd) \<Rightarrow> (rows_in_dump ex b, rd))"

section \<open>All processes\<close>

record fund_system =
  fs_feeds :: feeds
  fs_breaker :: breaker
  fs_file :: "fund_dump option"
  fs_parts :: "string \<Rightarrow> fund_dump option"
  fs_readers :: "nat \<Rightarrow> fund_reader"

text \<open>A worker writes the rows of its stream to a file of its own.\<close>

definition only_feed :: "string \<Rightarrow> feeds \<Rightarrow> feeds" where
  "only_feed ex m = (\<lambda>x. if x = ex then m x else None)"

definition dump_part :: "rat \<Rightarrow> string \<Rightarrow> fund_system \<Rightarrow> fund_system" where
  "dump_part now ex y =
     (case dump_rows now (only_feed ex (fs_feeds y)) (fs_parts y ex) of
        (d, m) \<Rightarrow> y\<lparr>fs_parts := (fs_parts y)(ex := d), fs_feeds := (fs_feeds y)(ex := m ex)\<rparr>)"

definition get_ws_rows :: "rat \<Rightarrow> nat option \<Rightarrow> string \<Rightarrow> fund_system \<Rightarrow> (fund_row \<times> rat) list option \<times> fund_system" where
  "get_ws_rows now who ex y =
     (case who of
        None \<Rightarrow> (case manager_rows now ex (fs_feeds y) of (r, m) \<Rightarrow> (r, y\<lparr>fs_feeds := m\<rparr>))
      | Some i \<Rightarrow> (case read_ws_rows now ex (fs_file y) (fs_readers y i) of
                    (r, rd) \<Rightarrow> (r, y\<lparr>fs_readers := (fs_readers y)(i := rd)\<rparr>)))"

end
