(* ===== verification/Fund_Safety.thy ===== *)
theory Fund_Safety
  imports Fund_Feed Book_Streams_Safety Book_Demand
begin

text \<open>
  What a reader of the funding rows may rely on: a row it gets was updated less than thirty-nine seconds
  before (eight, in the process that owns the stream), it is complete, and each of its values was said by
  the venue. The rows that merged files serve have no such bound.
\<close>

section \<open>Runs\<close>

datatype fund_event =
    Framed string clock fund_frame
  | Refreshed_Rest string clock answer answer answer
  | Fund_Dumped rat
  | Part_Dumped rat string
  | Fund_Merged rat "string list"
  | Rows_Read rat "nat option" string
  | Connected string "nat \<Rightarrow> string" int
  | Failed_Stream string string rat
  | Closed_Stream string
  | Started "string option" "string list"

definition with_feed :: "string \<Rightarrow> (fund_feed \<Rightarrow> fund_feed) \<Rightarrow> fund_system \<Rightarrow> fund_system" where
  "with_feed name f y = y\<lparr>fs_feeds := (fs_feeds y)(name := map_option f (fs_feeds y name))\<rparr>"

fun fund_step :: "fund_system \<Rightarrow> fund_event \<Rightarrow> fund_system" where
  "fund_step y (Framed name c fr) = with_feed name (\<lambda>s. snd (receive_funding name c fr s)) y"
| "fund_step y (Refreshed_Rest name c info a b) =
     (case fs_feeds y name of
        None \<Rightarrow> y
      | Some s \<Rightarrow> (case rest_round default_breaker name c info a b (s, fs_breaker y) of
                    (s, br) \<Rightarrow> y\<lparr>fs_feeds := (fs_feeds y)(name \<mapsto> s), fs_breaker := br\<rparr>))"
| "fund_step y (Fund_Dumped now) = (case dump_rows now (fs_feeds y) (fs_file y) of (d, m) \<Rightarrow> y\<lparr>fs_file := d, fs_feeds := m\<rparr>)"
| "fund_step y (Part_Dumped now ex) = dump_part now ex y"
| "fund_step y (Fund_Merged now owned) = y\<lparr>fs_file := merge_dumps now (fs_parts y) owned (fs_file y)\<rparr>"
| "fund_step y (Rows_Read now who ex) = snd (get_ws_rows now who ex y)"
| "fund_step y (Connected name uuid now) = with_feed name (\<lambda>s. snd (funding_opened name uuid now s)) y"
| "fund_step y (Failed_Stream name msg jitter) = with_feed name (\<lambda>s. snd (funding_failed msg jitter s)) y"
| "fund_step y (Closed_Stream name) = with_feed name funding_closed y"
| "fund_step y (Started owned workers) = y\<lparr>fs_feeds := start_all owned workers (fs_feeds y)\<rparr>"

definition fund_start :: fund_system where
  "fund_start = \<lparr>fs_feeds = (\<lambda>_. None), fs_breaker = closed_breaker, fs_file = None, fs_parts = (\<lambda>_. None),
     fs_readers = (\<lambda>_. fresh_fund_reader)\<rparr>"

abbreviation fund_run :: "fund_event list \<Rightarrow> fund_system" where
  "fund_run es \<equiv> foldl fund_step fund_start es"

text \<open>An event in which a venue says a row at a time, in a message or in an answer.\<close>

inductive said_row :: "fund_event \<Rightarrow> string \<Rightarrow> rat \<Rightarrow> fund_row \<Rightarrow> bool" where
  Message: "parse_funding name \<lfloor>wall c\<rfloor> trading msg = Inr rs \<Longrightarrow> r \<in> set rs \<Longrightarrow> said_row (Framed name c (Fund_Message msg)) name (wall c) r"
| Rest: "rest_refresh name \<lfloor>wall c\<rfloor> trading a b = Inr (Some rs) \<Longrightarrow> r \<in> set rs \<Longrightarrow> said_row (Refreshed_Rest name c info a b) name (wall c) r"

definition said_in :: "fund_event list \<Rightarrow> string \<Rightarrow> rat \<Rightarrow> fund_row \<Rightarrow> bool" where
  "said_in es ex t r \<longleftrightarrow> (\<exists>e\<in>set es. said_row e ex t r)"

text \<open>Each value of a row was said of its symbol.\<close>

definition field_said :: "(rat \<Rightarrow> fund_row \<Rightarrow> bool) \<Rightarrow> (fund_row \<Rightarrow> 'a option) \<Rightarrow> fund_row \<Rightarrow> bool" where
  "field_said K f x \<longleftrightarrow> (\<forall>v. f x = Some v \<longrightarrow> (\<exists>t q. K t q \<and> fw_symbol q = fw_symbol x \<and> f q = Some v))"

definition fields_said :: "(rat \<Rightarrow> fund_row \<Rightarrow> bool) \<Rightarrow> fund_row \<Rightarrow> bool" where
  "fields_said K x \<longleftrightarrow> field_said K fw_price x \<and> field_said K fw_rate x \<and> field_said K fw_next_ts x \<and>
     field_said K fw_interval_h x \<and> field_said K fw_volume_usd x"

definition row_said :: "(rat \<Rightarrow> fund_row \<Rightarrow> bool) \<Rightarrow> fund_row \<times> rat \<Rightarrow> bool" where
  "row_said K x \<longleftrightarrow> (\<exists>q. K (snd x) q \<and> fw_symbol q = fw_symbol (fst x)) \<and> fields_said K (fst x)"

definition entry_said :: "(rat \<Rightarrow> fund_row \<Rightarrow> bool) \<Rightarrow> string \<times> fund_row \<times> rat \<Rightarrow> bool" where
  "entry_said K x \<longleftrightarrow> fst x = fw_symbol (fst (snd x)) \<and> row_said K (snd x)"

definition feed_said :: "(rat \<Rightarrow> fund_row \<Rightarrow> bool) \<Rightarrow> fund_feed \<Rightarrow> bool" where
  "feed_said K s \<longleftrightarrow> list_all (entry_said K) (ff_rows s)"

lemma field_over:
  assumes "field_said K f p" "fw_symbol p = fw_symbol r" "K t r" "fw_symbol m = fw_symbol r" "f m = over (f r) (f p)"
  shows "field_said K f m"
proof (cases "f r")
  case None
  then have "f m = f p" using assms(5) by (simp add: over_def)
  then show ?thesis using assms(1,2,4) by (simp add: field_said_def)
next
  case (Some w)
  then have "f m = f r" using assms(5) by (simp add: over_def)
  then show ?thesis using assms(3,4) unfolding field_said_def by metis
qed

lemma bare_said: "fields_said K (bare_row s)"
  by (simp add: fields_said_def field_said_def bare_row_def)

lemma merged_said:
  assumes "fields_said K p" "fw_symbol p = fw_symbol r" "K t r"
  shows "fields_said K (merged_row p r)"
proof -
  have over: "field_said K f (merged_row p r)" if "field_said K f p" "f (merged_row p r) = over (f r) (f p)" for f :: "fund_row \<Rightarrow> 'b option"
    using that(1) assms(2,3) _ that(2) by (rule field_over) (simp add: merged_row_def)
  have parts: "field_said K fw_price p" "field_said K fw_rate p" "field_said K fw_next_ts p" "field_said K fw_interval_h p"
    "field_said K fw_volume_usd p" using assms(1) by (simp_all add: fields_said_def)
  show ?thesis unfolding fields_said_def
    using over [OF parts(1)] over [OF parts(2)] over [OF parts(3)] over [OF parts(4)] over [OF parts(5)] by (simp add: merged_row_def)
qed

lemma put_row_said:
  assumes "list_all (entry_said K) rows" "K now r"
  shows "list_all (entry_said K) (put_row now rows r)"
proof (cases "fw_symbol r = []")
  case False
  have known: "fw_symbol q = fw_symbol r \<and> fields_said K q" if "map_of rows (fw_symbol r) = Some (q, t)" for q t
    using map_of_SomeD [OF that] assms(1) by (auto simp: list_all_iff entry_said_def row_said_def)
  define p where "p = (case map_of rows (fw_symbol r) of None \<Rightarrow> bare_row (fw_symbol r) | Some (p, _) \<Rightarrow> p)"
  have "fw_symbol p = fw_symbol r \<and> fields_said K p"
  proof (cases "map_of rows (fw_symbol r)")
    case None
    then have "p = bare_row (fw_symbol r)" by (simp add: p_def)
    then show ?thesis using bare_said by (simp add: bare_row_def)
  next
    case (Some x)
    obtain q t where x: "x = (q, t)" by (cases x)
    then have "p = q" using Some by (simp add: p_def)
    then show ?thesis using known [of q t] Some x by simp
  qed
  then have p: "fields_said K p" "fw_symbol p = fw_symbol r" by simp_all
  have rows: "put_row now rows r = AList.update (fw_symbol r) (merged_row p r, now) rows"
    using False by (simp add: put_row_def p_def)
  have "row_said K (merged_row p r, now)"
    using merged_said [OF p assms(2)] assms(2) unfolding row_said_def by (auto simp: merged_row_def)
  moreover have "fw_symbol (merged_row p r) = fw_symbol r" by (simp add: merged_row_def)
  ultimately have "entry_said K (fw_symbol r, merged_row p r, now)" by (simp add: entry_said_def)
  then show ?thesis using set_update [of "fw_symbol r" "(merged_row p r, now)" rows] assms(1) unfolding rows list_all_iff by blast
qed (use assms in \<open>simp add: put_row_def\<close>)

lemma put_rows_said:
  assumes "feed_said K s" "\<forall>r\<in>set rs. K now r"
  shows "feed_said K (put_rows now rs s)"
proof -
  have "list_all (entry_said K) (foldl (put_row now) (ff_rows s) rs)"
  proof (rule foldl_keeps_on [where P = "list_all (entry_said K)"])
    show "list_all (entry_said K) (ff_rows s)" using assms(1) by (simp add: feed_said_def)
    show "list_all (entry_said K) (put_row now rows r)" if "list_all (entry_said K) rows" "r \<in> set rs" for rows r
      using put_row_said [OF that(1)] assms(2) that(2) by blast
  qed
  then show ?thesis by (simp add: feed_said_def put_rows_def)
qed

lemma feed_said_rows: "ff_rows s' = ff_rows s \<Longrightarrow> feed_said K s \<Longrightarrow> feed_said K s'"
  by (simp add: feed_said_def)

lemma receive_said:
  assumes "feed_said K s" "\<And>rs r msg trading. fr = Fund_Message msg \<Longrightarrow> parse_funding name \<lfloor>wall c\<rfloor> trading msg = Inr rs \<Longrightarrow> r \<in> set rs \<Longrightarrow> K (wall c) r"
  shows "feed_said K (snd (receive_funding name c fr s))"
proof (cases fr)
  case (Fund_Message msg)
  show ?thesis
  proof (cases "parse_funding name \<lfloor>wall c\<rfloor> (fst (ff_trading s)) msg")
    case (Inr rs)
    then have "feed_said K (put_rows (wall c) rs s)" using assms Fund_Message by (intro put_rows_said) blast+
    then show ?thesis by (rule feed_said_rows [rotated]) (simp add: receive_funding_def Fund_Message Inr Let_def)
  qed (use assms(1) in \<open>simp add: receive_funding_def Fund_Message\<close>)
qed (use assms(1) in \<open>simp_all add: receive_funding_def\<close>)

lemma round_said:
  assumes "feed_said K s" "\<And>rs r trading. rest_refresh name \<lfloor>wall c\<rfloor> trading a b = Inr (Some rs) \<Longrightarrow> r \<in> set rs \<Longrightarrow> K (wall c) r"
  shows "feed_said K (fst (rest_round cfg name c info a b (s, br)))"
proof -
  obtain ok br' where ok: "breaker_allow c br (''backstop:'' @ name) = (ok, br')" by fastforce
  define s' where "s' = refreshed_trading name c info s"
  have s': "feed_said K s'" by (rule feed_said_rows [OF _ assms(1)]) (simp add: s'_def refreshed_trading_def)
  show ?thesis
  proof (cases "ff_stop s \<or> \<not> ok")
    case True
    then show ?thesis using ok assms(1) by (auto simp: rest_round_def Let_def)
  next
    case False
    show ?thesis
    proof (cases "rest_refresh name \<lfloor>wall c\<rfloor> (fst (ff_trading s')) a b")
      case (Inl msg)
      then show ?thesis using False ok s' by (simp add: rest_round_def Let_def s'_def [symmetric] feed_said_def)
    next
      case (Inr x)
      show ?thesis
      proof (cases x)
        case None
        then show ?thesis using Inr False ok s' by (simp add: rest_round_def Let_def s'_def [symmetric] feed_said_def)
      next
        case (Some rs)
        have "feed_said K (put_rows (wall c) rs s')" using assms(2) Inr Some by (intro put_rows_said [OF s']) blast
        then show ?thesis using Some Inr False ok s' by (simp add: rest_round_def Let_def s'_def [symmetric] feed_said_def)
      qed
    qed
  qed
qed

lemma feed_rows_said:
  assumes "feed_said K s" "x \<in> set (fst (feed_rows now s))"
  shows "row_said K x \<and> now - 8 \<le> snd x"
  using assms by (auto simp: feed_rows_def feed_said_def entry_said_def live_row_def row_stale_after_s_def list_all_iff Let_def)

lemma feed_rows_keep: "feed_said K s \<Longrightarrow> feed_said K (snd (feed_rows now s))"
  by (simp add: feed_rows_def feed_said_def Let_def list_all_iff)

definition dump_ok :: "(string \<Rightarrow> rat \<Rightarrow> fund_row \<Rightarrow> bool) \<Rightarrow> fund_dump \<Rightarrow> bool" where
  "dump_ok K b \<longleftrightarrow> (\<forall>(ex, rows)\<in>set (fu_rows b). \<forall>x\<in>set rows. row_said (K ex) x \<and> fu_ts b - 8 \<le> snd x)"

definition reader_ok :: "(string \<Rightarrow> rat \<Rightarrow> fund_row \<Rightarrow> bool) \<Rightarrow> fund_reader \<Rightarrow> bool" where
  "reader_ok K rd \<longleftrightarrow> (\<forall>b. fm_data rd = Some b \<longrightarrow> dump_ok K b \<and> fm_ts rd - 30 \<le> fu_ts b)"

definition fund_ok :: "(string \<Rightarrow> rat \<Rightarrow> fund_row \<Rightarrow> bool) \<Rightarrow> fund_system \<Rightarrow> bool" where
  "fund_ok K y \<longleftrightarrow> (\<forall>ex s. fs_feeds y ex = Some s \<longrightarrow> feed_said (K ex) s) \<and> (\<forall>b. fs_file y = Some b \<longrightarrow> dump_ok K b) \<and>
     (\<forall>i. reader_ok K (fs_readers y i))"

lemma dump_rows_ok:
  assumes "\<forall>ex s. m ex = Some s \<longrightarrow> feed_said (K ex) s" "\<forall>b. file = Some b \<longrightarrow> dump_ok K b" "dump_rows now m file = (d, m')"
  shows "(\<forall>ex s. m' ex = Some s \<longrightarrow> feed_said (K ex) s) \<and> (\<forall>b. d = Some b \<longrightarrow> dump_ok K b)"
proof
  show "\<forall>ex s. m' ex = Some s \<longrightarrow> feed_said (K ex) s"
    using assms(1,3) by (auto simp: dump_rows_def Let_def feed_rows_keep)
  have "dump_ok K \<lparr>fu_ts = now, fu_rows = snapshot_of now m, fu_ts_by_ex = updates_of m\<rparr>"
    using assms(1) feed_rows_said by (fastforce simp: dump_ok_def snapshot_of_def split: option.splits)
  then show "\<forall>b. d = Some b \<longrightarrow> dump_ok K b" using assms(2,3) by (auto simp: dump_rows_def Let_def split: if_splits)
qed

lemma read_dump_ok:
  assumes "reader_ok K rd" "\<forall>b. dump = Some b \<longrightarrow> dump_ok K b" "read_dump now dump rd = (d, rd')"
  shows "reader_ok K rd' \<and> (\<forall>b. d = Some b \<longrightarrow> dump_ok K b \<and> now - fu_ts b < 121 / 4)"
proof (cases "fm_data rd \<noteq> None \<and> now - fm_ts rd < 1 / 4")
  case True
  then show ?thesis using assms by (auto simp: read_dump_def reader_ok_def)
next
  case False
  then show ?thesis using assms by (cases dump) (auto simp: read_dump_def reader_ok_def dump_stale_max_def split: if_splits)
qed

lemma usable_subset: "usable_rows rows = Some xs \<Longrightarrow> xs = filter usable_row rows"
  by (auto simp: usable_rows_def Let_def split: if_splits)

lemma get_rows_ok:
  assumes "fund_ok K y" "get_ws_rows now who ex y = (r, y')"
  shows "fund_ok K y' \<and> (\<forall>xs x. r = Some xs \<longrightarrow> x \<in> set xs \<longrightarrow> usable_row x \<and> row_said (K ex) x \<and>
    now - snd x < 153 / 4 \<and> (who = None \<longrightarrow> now - snd x \<le> 8))"
proof (cases who)
  case None
  show ?thesis
  proof (cases "fs_feeds y ex")
    case None
    then show ?thesis using assms \<open>who = None\<close> by (auto simp: get_ws_rows_def manager_rows_def fund_ok_def)
  next
    case (Some s)
    have s: "feed_said (K ex) s" using assms(1) Some by (simp add: fund_ok_def)
    obtain rows s' where f: "feed_rows now s = (rows, s')" by fastforce
    have r: "r = usable_rows rows" "y' = y\<lparr>fs_feeds := (fs_feeds y)(ex \<mapsto> s')\<rparr>"
      using assms(2) Some f None by (simp_all add: get_ws_rows_def manager_rows_def)
    have "feed_said (K ex) s'" using feed_rows_keep [OF s, of now] f by simp
    then have "fund_ok K y'" using assms(1) r(2) by (auto simp: fund_ok_def)
    moreover have "usable_row x \<and> row_said (K ex) x \<and> now - snd x \<le> 8" if "r = Some xs" "x \<in> set xs" for xs x
    proof -
      have "xs = filter usable_row rows" using usable_subset that(1) r(1) by simp
      then show ?thesis using feed_rows_said [OF s, of x now] f that(2) by auto
    qed
    ultimately show ?thesis by fastforce
  qed
next
  case (Some i)
  obtain d rd where d: "read_dump now (fs_file y) (fs_readers y i) = (d, rd)" by fastforce
  have ok: "reader_ok K rd" "\<forall>b. d = Some b \<longrightarrow> dump_ok K b \<and> now - fu_ts b < 121 / 4"
    using read_dump_ok [OF _ _ d, of K] assms(1) unfolding fund_ok_def by blast+
  have y': "y' = y\<lparr>fs_readers := (fs_readers y)(i := rd)\<rparr>" "r = (case d of None \<Rightarrow> None | Some b \<Rightarrow> rows_in_dump ex b)"
    using assms(2) Some d by (auto simp: get_ws_rows_def read_ws_rows_def split: option.splits)
  have "usable_row x \<and> row_said (K ex) x \<and> now - snd x < 153 / 4" if xs: "r = Some xs" "x \<in> set xs" for xs x
  proof -
    obtain b rows where b: "d = Some b" "map_of (fu_rows b) ex = Some rows" "usable_rows rows = Some xs"
      using xs(1) y'(2) by (auto simp: rows_in_dump_def split: option.splits)
    have x: "x \<in> set rows" "usable_row x" using usable_subset [OF b(3)] xs(2) by auto
    have "row_said (K ex) x \<and> fu_ts b - 8 \<le> snd x" using ok(2) b(1) map_of_SomeD [OF b(2)] x(1) by (fastforce simp: dump_ok_def)
    moreover have "now - fu_ts b < 121 / 4" using ok(2) b(1) by blast
    ultimately show ?thesis using x(2) by linarith
  qed
  moreover have "fund_ok K y'" using assms(1) ok(1) y'(1) by (simp add: fund_ok_def)
  ultimately show ?thesis using Some by blast
qed

definition no_merge :: "fund_event \<Rightarrow> bool" where
  "no_merge e \<longleftrightarrow> (case e of Fund_Merged _ _ \<Rightarrow> False | _ \<Rightarrow> True)"

lemma with_feed_ok:
  assumes "fund_ok K y" "\<And>s. feed_said (K name) s \<Longrightarrow> feed_said (K name) (f s)"
  shows "fund_ok K (with_feed name f y)"
  using assms by (auto simp: fund_ok_def with_feed_def)

lemma fund_step_ok:
  assumes "fund_ok K y" "no_merge e" "\<And>ex t r. said_row e ex t r \<Longrightarrow> K ex t r"
  shows "fund_ok K (fund_step y e)"
proof (cases e)
  case (Framed name c fr)
  have "feed_said (K name) (snd (receive_funding name c fr s))" if "feed_said (K name) s" for s
    using that assms(3) Framed by (intro receive_said) (auto intro: said_row.Message)
  then show ?thesis using Framed assms(1) by (auto intro: with_feed_ok)
next
  case (Refreshed_Rest name c info a b)
  show ?thesis
  proof (cases "fs_feeds y name")
    case None
    then show ?thesis using Refreshed_Rest assms(1) by simp
  next
    case (Some s)
    obtain s' br where r: "rest_round default_breaker name c info a b (s, fs_breaker y) = (s', br)" by fastforce
    have "feed_said (K name) (fst (rest_round default_breaker name c info a b (s, fs_breaker y)))"
      using Some assms(1,3) Refreshed_Rest by (intro round_said) (auto simp: fund_ok_def intro: said_row.Rest)
    then show ?thesis using Refreshed_Rest Some r assms(1) by (simp add: fund_ok_def)
  qed
next
  case (Fund_Dumped now)
  obtain d m where d: "dump_rows now (fs_feeds y) (fs_file y) = (d, m)" by fastforce
  have "(\<forall>ex s. m ex = Some s \<longrightarrow> feed_said (K ex) s) \<and> (\<forall>b. d = Some b \<longrightarrow> dump_ok K b)"
    by (rule dump_rows_ok [OF _ _ d]) (use assms(1) in \<open>simp_all add: fund_ok_def\<close>)
  then show ?thesis using Fund_Dumped d assms(1) by (simp add: fund_ok_def)
next
  case (Part_Dumped now ex)
  obtain d m where d: "dump_rows now (only_feed ex (fs_feeds y)) (fs_parts y ex) = (d, m)" by fastforce
  have "feed_said (K ex) s'" if "m ex = Some s'" for s'
    using that d assms(1) by (auto simp: dump_rows_def Let_def only_feed_def fund_ok_def feed_rows_keep)
  then show ?thesis using Part_Dumped d assms(1) by (simp add: dump_part_def fund_ok_def)
next
  case (Fund_Merged now owned)
  then show ?thesis using assms(2) by (simp add: no_merge_def)
next
  case (Rows_Read now who ex)
  then show ?thesis using get_rows_ok [OF assms(1)] by (metis fund_step.simps(6) prod.collapse)
next
  case (Connected name uuid now)
  then show ?thesis using assms(1) by (auto intro!: with_feed_ok simp: funding_opened_def feed_said_def)
next
  case (Failed_Stream name msg jitter)
  then show ?thesis using assms(1) by (auto intro!: with_feed_ok simp: funding_failed_def feed_said_def Let_def)
next
  case (Closed_Stream name)
  then show ?thesis using assms(1) by (auto intro!: with_feed_ok simp: funding_closed_def feed_said_def)
next
  case (Started owned workers)
  have "feed_said (K ex) fresh_feed" for ex by (simp add: feed_said_def fresh_feed_def)
  then show ?thesis using Started assms(1) by (auto simp: fund_ok_def start_all_def split: if_splits)
qed



definition at_s :: "int \<Rightarrow> clock" where
  "at_s n = \<lparr>utcnow = n * 1000000, monotonic = of_int n\<rparr>"

definition bybit_message :: json where
  "bybit_message = J_Obj [(''topic'', J_Str ''tickers.BTCUSDT''), (''data'', J_Obj [(''symbol'', J_Str ''BTCUSDT''),
     (''lastPrice'', J_Str ''64000.5''), (''fundingRate'', J_Str ''0.0001''), (''nextFundingTime'', J_Str ''28800000'')])]"

definition fund_events :: "fund_event list" where
  "fund_events = [Started None [], Connected ''bybit'' (\<lambda>_. []) 10, Framed ''bybit'' (at_s 10) (Fund_Message bybit_message), Fund_Dumped 15]"

definition btc_row :: fund_row where
  "btc_row = \<lparr>fw_symbol = ''BTC'', fw_price = Some (128001 / 2), fw_rate = Some (1 / 10000), fw_next_ts = Some 28800,
     fw_interval_h = Some 8, fw_volume_usd = None\<rparr>"

lemma fund_events_read: "fst (get_ws_rows 40 (Some 0) ''bybit'' (fund_run fund_events)) = Some [(btc_row, 10)]"
  by code_simp


section \<open>Where it breaks\<close>

text \<open>
  The merger gives the files of the workers the time of now, however old they are: the rows of a worker
  that died are served for ever.
\<close>

definition dead_worker :: "fund_event list" where
  "dead_worker = [Started (Some ''bybit'') [], Framed ''bybit'' (at_s 10) (Fund_Message bybit_message), Part_Dumped 11 ''bybit'',
     Fund_Merged 1000000 [''bybit'']]"

lemma dead_worker_served: "fst (get_ws_rows 1000001 (Some 0) ''bybit'' (fund_run dead_worker)) = Some [(btc_row, 10)]"
  by code_simp

text \<open>
  A row is fresh when any of its values is: tickers with nothing but a volume keep an old price alive.
\<close>

definition mark_message :: json where
  "mark_message = J_Obj [(''stream'', J_Str ''!markPrice@arr@1s''), (''data'', J_Arr [J_Obj [(''s'', J_Str ''BTCUSDT''), (''p'', J_Str ''100''),
     (''r'', J_Str ''0.001''), (''T'', J_Int 28800000)]])]"

definition volume_message :: json where
  "volume_message = J_Obj [(''stream'', J_Str ''!ticker@arr''), (''data'', J_Arr [J_Obj [(''s'', J_Str ''BTCUSDT''), (''q'', J_Str ''5'')]])]"

lemma old_price_kept:
  "map_option (map (\<lambda>(r, t). (fw_price r, t))) (fst (get_ws_rows 22 None ''binance'' (fund_run
     [Started None [], Framed ''binance'' (at_s 1) (Fund_Message mark_message), Framed ''binance'' (at_s 8) (Fund_Message volume_message),
      Framed ''binance'' (at_s 15) (Fund_Message volume_message)]))) = Some [(Some 100, 15)]"
  by code_simp

text \<open>While the list of symbols cannot be read, a connection is opened that subscribes to nothing.\<close>

lemma nothing_subscribed: "fst (funding_opened ''bybit'' uuid now (fresh_feed\<lparr>ff_symbols := loaded_symbols ''bybit'' (Call_Raised msg) b\<rparr>)) = []"
  by (simp add: funding_opened_def subscribe_funding_def bybit_funding_subscribe_def loaded_symbols_def loaded_body_def chunks.simps)

end
