(* ===== verification/Spec2Isabelle.thy ===== *)
theory Spec2Isabelle
  imports Plans Periods Promo Ref_Codes Referral Payments Auth_Safety Spreads Arb_Safety Screener_Safety Positions_Safety Live_Pairs_Safety Pnl_Safety Session_Safety Fills_Safety Alerts_Safety Fund_Safety
begin

text \<open>
  The trading and billing backend of the repository (\<^verbatim>\<open>backend/\<close>), as an executable model with
  its correctness theorems.

  \<^bold>\<open>The program.\<close> A FastAPI application over a relational database. Accounts sign in and hold a
  plan that a payment extends (billing); a plan limits wallets, exchanges and orders; a fetcher
  process collects funding and ticker rows and, over web sockets, order books from the venues; a
  compute worker turns the rows into arbitrage opportunities (screener) whose pairs are the books the
  fetcher then follows; a trading desk sends orders to the venues; a
  loop fires trigger orders and a worker reconciles the stored positions with the venues.

  \<^bold>\<open>How code is represented.\<close> A table is a list of rows in the order of insertion inside a
  database record (\<^verbatim>\<open>Store\<close> for billing, \<^verbatim>\<open>Trade_Store\<close> for trading), a row a record with the
  columns of the class in \<^verbatim>\<open>backend/db/models.py\<close>. A service function is a HOL function from
  the environment, the clocks, its arguments and the state to a result and the new state;
  an exception is the left of a sum, or a value of its own in the result. Module level caches
  are fields of a state record. Floats and \<^verbatim>\<open>Decimal\<close>s are rationals (the rounding the code
  asks for is written out, that of the machine is not), datetimes are integers in microseconds,
  dictionaries that are only looked up are maps, those that are iterated are lists. Redis, the
  payment provider, cryptography, the venues and their streams are arguments of the
  definitions: fields of an environment record which a property quantifies over, with what it
  relies on as a named hypothesis.

  \<^bold>\<open>Theories.\<close>
  \<^item> \<^verbatim>\<open>Prelude\<close>: clocks, Python truthiness, ASCII strings, decimal rounding, lists of rows with the
    \<open>table\<close> contract (what a lookup returns after an insertion or an edit), and the
    \<open>inv_machine\<close> and \<open>rank_machine\<close> contracts that carry an invariant from one operation to all
    runs. Every table and every component below interprets them.
  \<^item> Billing. \<^verbatim>\<open>Store\<close>: the tables of \<^verbatim>\<open>models.py\<close>. \<^verbatim>\<open>Plans\<close>: \<^verbatim>\<open>plan_service.py\<close>,
    \<^verbatim>\<open>wallet_quota.py\<close>, \<^verbatim>\<open>plan_expiry_service.py\<close> and the plan routes of \<^verbatim>\<open>admin.py\<close>; limits resolved
    through the cache are those of the tables (\<open>read_through\<close>). \<^verbatim>\<open>Periods\<close>, \<^verbatim>\<open>Promo\<close>, \<^verbatim>\<open>Ref_Codes\<close>:
    the services of these names; caps and uniqueness of codes. \<^verbatim>\<open>Referral\<close>: the ledger of
    commissions and payouts. \<^verbatim>\<open>Payments\<close>: pricing, checkout, webhook and refund, which call all
    the others; \<open>billing_step\<close> is one operation of any of them and \<open>billing_inv\<close> what all runs keep.
  \<^item> Access. \<^verbatim>\<open>Rate_Limits\<close>: \<^verbatim>\<open>_circuit.py\<close>, \<^verbatim>\<open>rate_limit.py\<close>, \<^verbatim>\<open>login_throttle.py\<close>, two of
    them instances of \<open>sliding_window\<close>. \<^verbatim>\<open>Sessions\<close>: \<^verbatim>\<open>auth_service.py\<close>, \<^verbatim>\<open>token_blacklist.py\<close>,
    \<^verbatim>\<open>auth_cache.py\<close>, \<^verbatim>\<open>deps.py\<close>, \<^verbatim>\<open>honeypot_service.py\<close>. \<^verbatim>\<open>Auth\<close>: the routes of
    \<^verbatim>\<open>api/v1/auth.py\<close> with \<^verbatim>\<open>totp.py\<close> and \<^verbatim>\<open>email_confirm.py\<close>. \<^verbatim>\<open>Auth_Safety\<close>: what no sequence
    of requests gets round, and where two routes do.
  \<^item> Screener. \<^verbatim>\<open>Funding\<close>: the row caches and filters of \<^verbatim>\<open>arbitrage_service.py\<close>. \<^verbatim>\<open>Screener\<close>:
    \<^verbatim>\<open>token_registry.py\<close>, \<open>_compute_arb_sync\<close>, the spot/short computation, the compute cycle.
    \<^verbatim>\<open>Screener_Safety\<close>: the running state (first seen, last seen) refines a specification over
    the history of passes. \<^verbatim>\<open>Fund_Streams\<close>, \<^verbatim>\<open>Fund_Rest\<close>: the messages and REST answers of the
    adapters of \<^verbatim>\<open>funding_ws/adapters.py\<close>; \<^verbatim>\<open>Fund_Feed\<close>: \<^verbatim>\<open>funding_ws/base.py\<close> and \<^verbatim>\<open>manager.py\<close>, rows,
    files and readers; \<^verbatim>\<open>Fund_Safety\<close>: how old and how true a row is that a process reads.
    \<^verbatim>\<open>Alerts\<close>: \<^verbatim>\<open>alert_service.py\<close> and the routes of \<^verbatim>\<open>api/v1/alerts.py\<close>; \<^verbatim>\<open>Alerts_Safety\<close>: workers and
    users as interleaved events, and what a posted message says.
  \<^item> Order books. \<^verbatim>\<open>Json\<close>: JSON values with the lookups, conversions and exceptions of Python.
    \<^verbatim>\<open>Book_Streams\<close>: the messages, subscriptions and books of every adapter of
    \<^verbatim>\<open>orderbook_ws/adapters.py\<close>; \<^verbatim>\<open>Book_Streams_Safety\<close>: the contract \<open>change_feed\<close>, with an
    interpretation for each venue that sends changes. \<^verbatim>\<open>Book_Rest\<close>, \<^verbatim>\<open>Book_Cache\<close>: \<^verbatim>\<open>orderbook_cache.py\<close>
    with its breaker, files, Redis and polling tasks; \<^verbatim>\<open>Book_Cache_Safety\<close>: several processes on one
    shared store as events, and the invariant that a stored book was heard. \<^verbatim>\<open>Book_Demand\<close>: from
    what pages look at to the hot list. \<^verbatim>\<open>Stream_Sessions\<close>: \<^verbatim>\<open>orderbook_ws/base.py\<close> and
    \<^verbatim>\<open>manager.py\<close>; \<^verbatim>\<open>Session_Safety\<close>: a session as an inductive step relation, its scheduled tasks
    run in any order, and the composition of demand, hot list and session.
  \<^item> Trading. \<^verbatim>\<open>Spreads\<close>: order books and size-aware spreads. \<^verbatim>\<open>Trade_Store\<close>: the trading tables.
    \<^verbatim>\<open>Triggers\<close>, \<^verbatim>\<open>Trigger_Safety\<close>: \<^verbatim>\<open>trigger_order_service.py\<close>. \<^verbatim>\<open>Reconcile\<close>, \<^verbatim>\<open>Reconcile_Safety\<close>:
    \<^verbatim>\<open>reconcile_service.py\<close> and the pairing of internal legs. \<^verbatim>\<open>Arb_Orders\<close>, \<^verbatim>\<open>Arb_Safety\<close>: the
    panel routes of \<^verbatim>\<open>api/v1/arb_orders.py\<close>, and routes, loop and worker on one database.
    \<^verbatim>\<open>Trade_Desk\<close>, \<^verbatim>\<open>Trade_Desk_Safety\<close>: placing and closing in \<^verbatim>\<open>trade_service.py\<close>, through the
    Go engine (\<^verbatim>\<open>trade_proxy.py\<close>) or an adapter. \<^verbatim>\<open>Positions\<close>, \<^verbatim>\<open>Positions_Safety\<close>: the position
    listings with their caches. \<^verbatim>\<open>Live_Pairs\<close>, \<^verbatim>\<open>Live_Pairs_Safety\<close>: grouping of live positions and
    the stored decisions. \<^verbatim>\<open>Pnl_Book\<close>, \<^verbatim>\<open>Pnl_Safety\<close>: the profit and loss tab. \<^verbatim>\<open>Fills\<close>,
    \<^verbatim>\<open>Fills_Safety\<close>: \<^verbatim>\<open>fills_backfill_service.py\<close>, which stores fills and puts closed legs together.
  \<^item> \<^verbatim>\<open>Samples\<close>: a small database on which the witnesses evaluate the properties.

  \<^bold>\<open>Kinds of lemmas.\<close> Per operation: what it does on each branch, refusals included. Per component:
  an invariant of the state, kept by every operation, lifted to runs by interpreting a machine
  contract. Across components: a refinement of what users are told (a map of decisions, the live
  positions, the limits of the tables) by the stored state.

  \<^bold>\<open>Bounds and recursion.\<close> All functions are total. The loops of the code run over lists; the three
  that do not are functions with a measure: the search for pairs of legs takes two legs off the
  list each time, the search for a free user name counts a suffix up to 200, and the batches of a
  subscription shorten the list of symbols. The removal of a suffix counts down the length of the text.
  A session of an order book stream is an inductive relation of steps. The code drawing fresh
  referral codes gives up after eight attempts, as the source does; endless worker loops are
  modelled by one iteration, and properties quantify over sequences of iterations.

  \<^bold>\<open>Not modelled.\<close> The trade adapters and the user streams of the venues, block explorers and DEX quoting, e-mail and Telegram delivery, HTTP plumbing, logging,
  health and metrics, and the Go and JavaScript parts. Within modelled parts: the audit log and
  alerts of the honeypot, data export, subprocess and file transport of the screener, leader
  locks and threads (an operation is one step), the leverage cache, the loop of KuCoin with two
  sockets and its token requests, the worker processes of the stream master, and the REST backstop of the order books, which is
  switched off.
\<close>

end
